(* ===== verification/Prelude.thy ===== *)
theory Prelude
  imports Main "HOL-Library.AList" "HOL-Library.Word" "HOL-Library.Multiset"
    "HOL-Library.List_Lexorder" "HOL-Library.Char_ord"
begin

text \<open>
  Shared ground of the development: the sum monad in which every fallible Python routine is
  written (\<open>Inl\<close> is the raised exception, \<open>Inr\<close> the returned value), the counted loop that
  reads one item per iteration, Python's decimal rendering of integers, and the list lemmas
  the component theories share.
\<close>

named_theorems monad_simps \<open>characterisations of successful and failing computations\<close>
named_theorems safe_intros \<open>values that canonical JSON can render\<close>

section \<open>Computations that may raise\<close>

definition sbind :: "'e + 'a \<Rightarrow> ('a \<Rightarrow> 'e + 'b) \<Rightarrow> 'e + 'b" where
  "sbind m f = (case m of Inl e \<Rightarrow> Inl e | Inr x \<Rightarrow> f x)"

lemma sbind_Inl [simp, code]: "sbind (Inl e) f = Inl e"
  by (simp add: sbind_def)

lemma sbind_Inr [simp, code]: "sbind (Inr x) f = f x"
  by (simp add: sbind_def)

lemma sbind_eq_Inr [monad_simps]:
  "sbind m f = Inr y \<longleftrightarrow> (\<exists>x. m = Inr x \<and> f x = Inr y)"
  by (cases m) auto

lemma sbind_eq_Inl [monad_simps]:
  "sbind m f = Inl e \<longleftrightarrow> m = Inl e \<or> (\<exists>x. m = Inr x \<and> f x = Inl e)"
  by (cases m) auto

lemma sbind_cong [fundef_cong]:
  "m = m' \<Longrightarrow> (\<And>x. m' = Inr x \<Longrightarrow> f x = g x) \<Longrightarrow> sbind m f = sbind m' g"
  by (cases m) auto

lemma sbind_assoc: "sbind (sbind m f) g = sbind m (\<lambda>x. sbind (f x) g)"
  by (cases m) auto

lemma sbindE:
  assumes "sbind m f = Inr y"
  obtains x where "m = Inr x" and "f x = Inr y"
  using assms by (auto simp: sbind_eq_Inr)

text \<open>A raise statement under a condition.\<close>

lemma if_Inl_eq_Inr [monad_simps]: "(if c then Inl e else m) = Inr y \<longleftrightarrow> \<not> c \<and> m = Inr y"
  by simp

text \<open>Evaluating a list of computations from left to right; the first exception wins.\<close>

fun sseq :: "('e + 'a) list \<Rightarrow> 'e + 'a list" where
  "sseq [] = Inr []"
| "sseq (m # ms) = sbind m (\<lambda>x. sbind (sseq ms) (\<lambda>xs. Inr (x # xs)))"

lemma sseq_eq_Inr: "sseq ms = Inr xs \<longleftrightarrow> ms = map Inr xs"
  by (induction ms arbitrary: xs) (auto simp: sbind_eq_Inr Cons_eq_map_conv)

lemma sseq_map_Inr [simp]: "sseq (map Inr xs) = Inr xs"
  by (simp add: sseq_eq_Inr)

lemma sseq_total: "(\<And>m. m \<in> set ms \<Longrightarrow> \<exists>x. m = Inr x) \<Longrightarrow> \<exists>xs. sseq ms = Inr xs"
proof (induction ms)
  case Nil
  then show ?case by simp
next
  case (Cons m ms)
  from Cons.prems obtain x where "m = Inr x" by auto
  moreover from Cons obtain xs where "sseq ms = Inr xs" by auto
  ultimately show ?case by simp
qed

section \<open>Counted loops over a threaded state\<close>

text \<open>
  \<open>read_many f i n r\<close> is \<open>[f(i), f(i+1), ..., f(i+n-1)]\<close> where every call may raise and
  threads the state \<open>r\<close>: the shape of \<open>for index in range(count)\<close> in the decoders.
\<close>

fun read_many :: "(nat \<Rightarrow> 'r \<Rightarrow> 'e + ('a \<times> 'r)) \<Rightarrow> nat \<Rightarrow> nat \<Rightarrow> 'r \<Rightarrow> 'e + ('a list \<times> 'r)" where
  "read_many f i 0 r = Inr ([], r)"
| "read_many f i (Suc n) r =
     sbind (f i r) (\<lambda>(x, r). sbind (read_many f (Suc i) n r) (\<lambda>(xs, r). Inr (x # xs, r)))"

lemma read_many_length: "read_many f i n r = Inr (xs, r') \<Longrightarrow> length xs = n"
  by (induction n arbitrary: i r xs) (auto simp: monad_simps)

lemma read_many_map:
  assumes "\<And>j r x r'. f j r = Inr (x, r') \<Longrightarrow> g x = h j"
  shows "read_many f i n r = Inr (xs, r') \<Longrightarrow> map g xs = map h [i..<i + n]"
proof (induction n arbitrary: i r xs)
  case 0
  then show ?case by simp
next
  case (Suc n)
  then obtain x r1 ys where "f i r = Inr (x, r1)" "read_many f (Suc i) n r1 = Inr (ys, r')"
    and "xs = x # ys"
    by (auto simp: monad_simps)
  with Suc.IH [of "Suc i" r1 ys] assms show ?case
    by (simp add: upt_conv_Cons del: upt_Suc)
qed

lemma read_many_all:
  assumes "\<And>j r x r'. f j r = Inr (x, r') \<Longrightarrow> P x"
  shows "read_many f i n r = Inr (xs, r') \<Longrightarrow> list_all P xs"
  by (induction n arbitrary: i r xs) (auto simp: monad_simps dest: assms)

lemma read_many_invariant:
  assumes "\<And>j r x r'. f j r = Inr (x, r') \<Longrightarrow> I r \<Longrightarrow> I r'"
  shows "read_many f i n r = Inr (xs, r') \<Longrightarrow> I r \<Longrightarrow> I r'"
  by (induction n arbitrary: i r xs) (auto simp: monad_simps dest: assms)

text \<open>A measure that each iteration advances by \<open>k\<close> is advanced by \<open>n * k\<close> by the loop.\<close>

lemma read_many_advance:
  fixes m :: "'r \<Rightarrow> nat"
  assumes "\<And>j r x r'. f j r = Inr (x, r') \<Longrightarrow> m r' = m r + k"
  shows "read_many f i n r = Inr (xs, r') \<Longrightarrow> m r' = m r + n * k"
  by (induction n arbitrary: i r xs) (auto simp: monad_simps dest: assms)

section \<open>Decimal rendering of integers\<close>

definition digit_char :: "nat \<Rightarrow> char" where
  "digit_char d = char_of (48 + d)"

definition digit_value :: "char \<Rightarrow> nat" where
  "digit_value c = of_char c - 48"

fun str_nat :: "nat \<Rightarrow> string" where
  "str_nat n = (if n < 10 then [digit_char n] else str_nat (n div 10) @ [digit_char (n mod 10)])"

declare str_nat.simps [simp del]

definition str_int :: "int \<Rightarrow> string" where
  "str_int i = (if i < 0 then ''-'' @ str_nat (nat (- i)) else str_nat (nat i))"

definition nat_of_digits :: "string \<Rightarrow> nat" where
  "nat_of_digits s = foldl (\<lambda>a c. 10 * a + digit_value c) 0 s"

lemma of_char_digit: "d < 10 \<Longrightarrow> of_char (digit_char d) = 48 + d"
  by (simp add: digit_char_def)

lemma digit_value_char [simp]: "d < 10 \<Longrightarrow> digit_value (digit_char d) = d"
  by (simp add: digit_value_def of_char_digit)

lemma digit_char_range:
  "d < 10 \<Longrightarrow> 48 \<le> (of_char (digit_char d) :: nat) \<and> (of_char (digit_char d) :: nat) \<le> 57"
  by (simp add: of_char_digit)

lemma nat_of_digits_str_nat [simp]: "nat_of_digits (str_nat n) = n"
proof (induction n rule: str_nat.induct)
  case (1 n)
  then show ?case
    by (subst str_nat.simps) (auto simp: nat_of_digits_def)
qed

lemma str_nat_inject [simp]: "str_nat m = str_nat n \<longleftrightarrow> m = n"
  by (metis nat_of_digits_str_nat)

lemma str_nat_chars: "c \<in> set (str_nat n) \<Longrightarrow> 48 \<le> (of_char c :: nat) \<and> (of_char c :: nat) \<le> 57"
proof (induction n rule: str_nat.induct)
  case (1 n)
  then show ?case
    by (subst (asm) (2) str_nat.simps) (auto simp: digit_char_range split: if_splits)
qed

lemma str_nat_nonempty [simp]: "str_nat n \<noteq> []"
  by (subst str_nat.simps) simp

lemma no_colon_str_nat [simp]: "CHR '':'' \<notin> set (str_nat n)"
  by (auto dest: str_nat_chars)

lemma no_colon_str_int [simp]: "CHR '':'' \<notin> set (str_int i)"
  by (simp add: str_int_def)

lemma no_minus_str_nat: "str_nat n \<noteq> CHR ''-'' # s"
  using str_nat_chars [of "CHR ''-''" n] by auto

lemma str_int_inject [simp]: "str_int i = str_int j \<longleftrightarrow> i = j"
  by (auto simp: str_int_def no_minus_str_nat no_minus_str_nat [symmetric])

section \<open>Identifiers of the form group:suffix\<close>

definition in_group :: "string \<Rightarrow> string \<Rightarrow> string" where
  "in_group g s = g @ '':'' @ s"

lemma in_group_nonempty [simp]: "in_group g s \<noteq> []"
  by (simp add: in_group_def)

lemma in_group_eq:
  assumes "CHR '':'' \<notin> set g" and "CHR '':'' \<notin> set h"
  shows "in_group g s = in_group h t \<longleftrightarrow> g = h \<and> s = t"
proof
  assume eq: "in_group g s = in_group h t"
  have *: "takeWhile (\<lambda>c. c \<noteq> CHR '':'') (in_group x y) = x" if "CHR '':'' \<notin> set x" for x y
  proof -
    have "takeWhile (\<lambda>c. c \<noteq> CHR '':'') (x @ CHR '':'' # y) = x"
      using that by (induction x) auto
    then show ?thesis by (simp add: in_group_def)
  qed
  from eq * [OF assms(1)] * [OF assms(2)] have "g = h" by metis
  with eq show "g = h \<and> s = t" by (simp add: in_group_def)
qed simp

lemma in_group_same [simp]: "in_group g s = in_group g t \<longleftrightarrow> s = t"
  by (simp add: in_group_def)

lemma distinct_indexed [simp]: "distinct (map (\<lambda>j. in_group g (str_nat j)) js) = distinct js"
  by (simp add: distinct_map inj_on_def)

section \<open>Lists\<close>

lemma list_all_set_iff: "list_all P xs \<longleftrightarrow> (\<forall>x \<in> set xs. P x)"
  by (simp add: list_all_iff)

lemma distinct_map_filter: "distinct (map f xs) \<Longrightarrow> distinct (map f (filter P xs))"
  by (induction xs) auto

lemma list_all_filterI: "list_all P xs \<Longrightarrow> list_all P (filter Q xs)"
  by (auto simp: list_all_iff)

lemma map_of_distinct_eq:
  "distinct (map f xs) \<Longrightarrow> x \<in> set xs \<Longrightarrow> map_of (map (\<lambda>x. (f x, x)) xs) (f x) = Some x"
  by (induction xs) (auto simp: rev_image_eqI)

end
