(* ===== verification/Py_Values.thy ===== *)
theory Py_Values
  imports Prelude
begin

text \<open>
  The dynamically typed values that flow through the bridge (\<open>Any\<close> in the source) and the
  exceptions the modelled routines raise. A \<open>str\<close> is the \<open>char\<close> list of its UTF-8 encoding:
  UTF-8 keeps the order of code points, so sorting and equality are the ones of Python. A float
  is known only by the text \<open>json.dumps\<close> writes for it; \<open>POpaque\<close> stands for an object of any
  class that is not one of the JSON types, given by its class name. A \<open>dict\<close> is an
  association list in insertion order with string keys.
\<close>

datatype pyval =
    PNone
  | PBool bool
  | PInt int
  | PFloat string
  | PStr string
  | PList "pyval list"
  | PTuple "pyval list"
  | PDict "(string \<times> pyval) list"
  | POpaque string

type_synonym pydict = "(string \<times> pyval) list"

text \<open>
  Exceptions: the bridge errors of \<open>bridge/errors.py\<close> with their message and context, the replay
  errors of \<open>replay/errors.py\<close> with their attributes, the errors of \<open>state/equivalence.py\<close>,
  \<open>replay/player_view.py\<close> (code, path and message), \<open>information/access.py\<close> and
  \<open>storage/jobs.py\<close>, and the built-in ones that escape from the standard library
  (\<open>IntegrityError\<close> is the one of \<open>sqlite3\<close>).
\<close>

datatype py_error =
    ValueError string
  | TypeError string
  | KeyError string
  | OverflowError string
  | AttributeError string
  | NotImplementedError string
  | AssertionError string
  | StructError string
  | InvalidMessage string
  | UnsupportedMessage string pydict
  | InvalidResponse string pydict
  | VersionMismatch string
  | ReplayFormat string
  | ReplayManifestIncomplete string
  | ReplayEnvironmentMismatch string pyval pyval
  | StateEquivalence string
  | InformationLeak string
  | PlayerViewProjection string string string
  | JobStateTransition string
  | JobLease string
  | JobIdempotencyConflict string
  | JobCheckpointConflict string
  | IntegrityError string
  | ReplaySignatureMismatch string "int option" "string option" pyval pyval

section \<open>Dictionaries\<close>

text \<open>\<open>d.get(k)\<close>: the value, or \<open>None\<close>.\<close>

definition dict_get :: "pydict \<Rightarrow> string \<Rightarrow> pyval" where
  "dict_get d k = (case map_of d k of None \<Rightarrow> PNone | Some v \<Rightarrow> v)"

text \<open>\<open>d[k] = v\<close> and \<open>d.update(e)\<close>: a present key keeps its place.\<close>

definition dict_set :: "string \<Rightarrow> pyval \<Rightarrow> pydict \<Rightarrow> pydict" where
  "dict_set k v d = AList.update k v d"

definition dict_update :: "pydict \<Rightarrow> pydict \<Rightarrow> pydict" where
  "dict_update d e = foldl (\<lambda>d (k, v). dict_set k v d) d e"

lemma dict_get_simps [simp]:
  "dict_get [] k = PNone"
  "dict_get ((k', v) # d) k = (if k' = k then v else dict_get d k)"
  by (simp_all add: dict_get_def)

lemma dict_get_set [simp]: "dict_get (dict_set k v d) k' = (if k = k' then v else dict_get d k')"
  by (simp add: dict_get_def dict_set_def update_conv')

lemma dict_get_update:
  "dict_get (dict_update d e) k = (case map_of (rev e) k of None \<Rightarrow> dict_get d k | Some v \<Rightarrow> v)"
proof (induction e rule: rev_induct)
  case Nil
  then show ?case by (simp add: dict_update_def)
next
  case (snoc kv e)
  then show ?case by (cases kv) (simp add: dict_update_def)
qed

lemma dict_update_Nil [simp]: "dict_update d [] = d"
  by (simp add: dict_update_def)

lemma dict_update_snoc: "dict_update d (e @ [(k, v)]) = dict_set k v (dict_update d e)"
  by (simp add: dict_update_def)

lemma dict_update_Cons: "dict_update d ((k, v) # e) = dict_update (dict_set k v d) e"
  by (simp add: dict_update_def)

section \<open>Type tests of the source\<close>

text \<open>\<open>isinstance(v, int)\<close>: a \<open>bool\<close> is an \<open>int\<close> in Python.\<close>

fun is_int :: "pyval \<Rightarrow> bool" where
  "is_int (PInt i) = True"
| "is_int (PBool b) = True"
| "is_int v = False"

text \<open>\<open>isinstance(v, int) and not isinstance(v, bool)\<close>.\<close>

fun is_strict_int :: "pyval \<Rightarrow> bool" where
  "is_strict_int (PInt i) = True"
| "is_strict_int v = False"

text \<open>The number an instance of \<open>int\<close> stands for; used behind one of the two tests.\<close>

fun int_val :: "pyval \<Rightarrow> int" where
  "int_val (PInt i) = i"
| "int_val (PBool b) = of_bool b"
| "int_val v = 0"

text \<open>\<open>v == n\<close> for an \<open>int\<close> literal of the source: Python compares across number types.\<close>

fun eq_int :: "pyval \<Rightarrow> int \<Rightarrow> bool" where
  "eq_int (PInt i) n = (i = n)"
| "eq_int (PBool b) n = (of_bool b = n)"
| "eq_int (PFloat t) n = (t = str_int n @ ''.0'' \<or> n = 0 \<and> t = ''-0.0'')"
| "eq_int v n = False"

lemma is_strict_int_iff: "is_strict_int v \<longleftrightarrow> (\<exists>i. v = PInt i)"
  by (cases v) auto

lemma is_strict_int_is_int: "is_strict_int v \<Longrightarrow> is_int v"
  by (cases v) auto

text \<open>\<open>hash(v)\<close> succeeds, as membership in a \<open>set\<close> needs.\<close>

primrec hashable :: "pyval \<Rightarrow> bool" where
  "hashable PNone = True"
| "hashable (PBool b) = True"
| "hashable (PInt i) = True"
| "hashable (PFloat t) = True"
| "hashable (PStr s) = True"
| "hashable (PList xs) = False"
| "hashable (PTuple xs) = list_all id (map hashable xs)"
| "hashable (PDict d) = False"
| "hashable (POpaque t) = True"

text \<open>\<open>x in {...}\<close> needs the hash of \<open>x\<close>; the error names the type that has none.\<close>

fun unhashable :: "pyval \<Rightarrow> string option" where
  "unhashable (PList xs) = Some ''list''"
| "unhashable (PDict d) = Some ''dict''"
| "unhashable (PTuple xs) = (case find (\<lambda>v. \<not> hashable v) xs of None \<Rightarrow> None | Some v \<Rightarrow>
     (case v of PDict d \<Rightarrow> Some ''dict'' | _ \<Rightarrow> Some ''list''))"
| "unhashable v = None"

section \<open>Values JSON can render\<close>

primrec json_safe :: "pyval \<Rightarrow> bool" where
  "json_safe PNone = True"
| "json_safe (PBool b) = True"
| "json_safe (PInt i) = True"
| "json_safe (PFloat t) = True"
| "json_safe (PStr s) = True"
| "json_safe (PList xs) = list_all id (map json_safe xs)"
| "json_safe (PTuple xs) = list_all id (map json_safe xs)"
| "json_safe (PDict d) = list_all snd (map (map_prod id json_safe) d)"
| "json_safe (POpaque t) = False"

definition dict_safe :: "pydict \<Rightarrow> bool" where
  "dict_safe d = list_all (\<lambda>kv. json_safe (snd kv)) d"

lemma json_safe_PList [simp]: "json_safe (PList xs) = list_all json_safe xs"
  by (simp add: list_all_iff)

lemma json_safe_PTuple [simp]: "json_safe (PTuple xs) = list_all json_safe xs"
  by (simp add: list_all_iff)

lemma json_safe_PDict [simp]: "json_safe (PDict d) = dict_safe d"
  by (auto simp: list_all_iff dict_safe_def)

declare json_safe.simps(6-8) [simp del]

lemma dict_safe_Nil [simp]: "dict_safe []"
  by (simp add: dict_safe_def)

lemma dict_safe_Cons [simp]: "dict_safe ((k, v) # d) = (json_safe v \<and> dict_safe d)"
  by (simp add: dict_safe_def)

lemma dict_safe_append [simp]: "dict_safe (d @ e) = (dict_safe d \<and> dict_safe e)"
  by (simp add: dict_safe_def)

lemma dict_safe_set [safe_intros]: "dict_safe d \<Longrightarrow> json_safe v \<Longrightarrow> dict_safe (dict_set k v d)"
  by (induction d) (auto simp: dict_set_def)

lemma dict_safe_update [safe_intros]: "dict_safe d \<Longrightarrow> dict_safe e \<Longrightarrow> dict_safe (dict_update d e)"
  by (induction e arbitrary: d) (auto simp: dict_update_Cons dict_safe_set)

lemma dict_safe_get: "dict_safe d \<Longrightarrow> json_safe (dict_get d k)"
  by (induction d) auto

end
