(* ===== verification/Struct_Codec.thy ===== *)
theory Struct_Codec
  imports Py_Values
begin

text \<open>
  The little-endian integer formats of Python's \<open>struct\<close> module that the bridge uses
  (\<open>B\<close>, \<open>H\<close>, \<open>I\<close>, \<open>Q\<close> unsigned and \<open>h\<close>, \<open>i\<close> two's complement), and the contract of a
  fixed-width format: what is packed has the format's width and unpacks to the same number.
  The contract's consequences for packed sequences are proved once, in the locale.
\<close>

type_synonym byte = "8 word"

primrec le_bytes :: "nat \<Rightarrow> int \<Rightarrow> byte list" where
  "le_bytes 0 v = []"
| "le_bytes (Suc n) v = word_of_int v # le_bytes n (v div 256)"

primrec le_int :: "byte list \<Rightarrow> int" where
  "le_int [] = 0"
| "le_int (b # bs) = uint b + 256 * le_int bs"

definition le_sint :: "byte list \<Rightarrow> int" where
  "le_sint bs =
    (if 2 * le_int bs < 256 ^ length bs then le_int bs else le_int bs - 256 ^ length bs)"

definition fits_unsigned :: "nat \<Rightarrow> int \<Rightarrow> bool" where
  "fits_unsigned n v \<longleftrightarrow> 0 \<le> v \<and> v < 256 ^ n"

definition fits_signed :: "nat \<Rightarrow> int \<Rightarrow> bool" where
  "fits_signed n v \<longleftrightarrow> - (256 ^ n) \<le> 2 * v \<and> 2 * v < 256 ^ n"

text \<open>\<open>struct.pack\<close> raises \<open>struct.error\<close> for a number outside the format's range.\<close>

definition pack_unsigned :: "nat \<Rightarrow> int \<Rightarrow> py_error + byte list" where
  "pack_unsigned n v =
    (if fits_unsigned n v then Inr (le_bytes n v) else Inl (StructError ''argument out of range''))"

definition pack_signed :: "nat \<Rightarrow> int \<Rightarrow> py_error + byte list" where
  "pack_signed n v =
    (if fits_signed n v then Inr (le_bytes n v) else Inl (StructError ''argument out of range''))"

text \<open>\<open>struct.pack(f"<{len(vs)}X", *vs)\<close>.\<close>

definition pack_list :: "(int \<Rightarrow> py_error + byte list) \<Rightarrow> int list \<Rightarrow> py_error + byte list" where
  "pack_list pack vs = sbind (sseq (map pack vs)) (\<lambda>bss. Inr (concat bss))"

text \<open>Reading \<open>n\<close> consecutive items of \<open>w\<close> bytes.\<close>

primrec unpack_list :: "(byte list \<Rightarrow> int) \<Rightarrow> nat \<Rightarrow> nat \<Rightarrow> byte list \<Rightarrow> int list" where
  "unpack_list unpack w 0 bs = []"
| "unpack_list unpack w (Suc n) bs = unpack (take w bs) # unpack_list unpack w n (drop w bs)"

section \<open>The contract of a fixed-width format\<close>

locale byte_format =
  fixes pack :: "int \<Rightarrow> byte list"
    and unpack :: "byte list \<Rightarrow> int"
    and width :: nat
    and fits :: "int \<Rightarrow> bool"
  assumes pack_length: "length (pack v) = width"
    and unpack_pack: "fits v \<Longrightarrow> unpack (pack v) = v"
begin

lemma packed_length: "length (concat (map pack vs)) = width * length vs"
  by (induction vs) (simp_all add: pack_length)

lemma unpack_packed:
  "list_all fits vs \<Longrightarrow>
    unpack_list unpack width (length vs) (concat (map pack vs) @ rest) = vs"
  by (induction vs) (simp_all add: pack_length unpack_pack)

lemma pack_inject: "fits v \<Longrightarrow> fits w \<Longrightarrow> pack v = pack w \<longleftrightarrow> v = w"
  by (metis unpack_pack)

lemma packed_inject:
  assumes "list_all fits vs" and "list_all fits ws" and "length vs = length ws"
  shows "concat (map pack vs) = concat (map pack ws) \<longleftrightarrow> vs = ws"
  by (metis append_Nil2 assms unpack_packed)

end

text \<open>A format every byte string of the right width belongs to.\<close>

locale exact_byte_format = byte_format +
  assumes unpack_fits: "length bs = width \<Longrightarrow> fits (unpack bs)"
    and pack_unpack: "length bs = width \<Longrightarrow> pack (unpack bs) = bs"
begin

lemma unpack_iff: "length bs = width \<Longrightarrow> fits v \<Longrightarrow> unpack bs = v \<longleftrightarrow> bs = pack v"
  using pack_unpack unpack_pack by metis

end

section \<open>The struct formats satisfy it\<close>

lemma length_le_bytes [simp]: "length (le_bytes n v) = n"
  by (induction n arbitrary: v) auto

lemma le_int_bounds: "0 \<le> le_int bs \<and> le_int bs < 256 ^ length bs"
proof (induction bs)
  case Nil
  then show ?case by simp
next
  case (Cons b bs)
  have "uint b < 256" and "0 \<le> uint b"
    using unsigned_less [of b] by auto
  with Cons show ?case by (simp add: algebra_simps)
qed

lemma le_int_le_bytes: "le_int (le_bytes n v) = v mod 256 ^ n"
proof (induction n arbitrary: v)
  case 0
  then show ?case by simp
next
  case (Suc n)
  have "v mod (256 * 256 ^ n) = 256 * (v div 256 mod 256 ^ n) + v mod 256"
    by (rule zmod_zmult2_eq) simp
  moreover have "uint (word_of_int v :: byte) = v mod 256"
    by (simp add: uint_word_of_int)
  ultimately show ?case using Suc by simp
qed

lemma le_bytes_le_int: "le_bytes (length bs) (le_int bs) = bs"
proof (induction bs)
  case Nil
  then show ?case by simp
next
  case (Cons b bs)
  have "uint b < 256" and "0 \<le> uint b"
    using unsigned_less [of b] by auto
  then have "(uint b + 256 * le_int bs) div 256 = le_int bs" by simp
  moreover have "(word_of_int (uint b + 256 * le_int bs) :: byte) = b"
    using \<open>uint b < 256\<close> \<open>0 \<le> uint b\<close>
    by (intro word_uint_eqI) (simp only: uint_word_of_int, simp)
  ultimately show ?case using Cons by simp
qed

lemma le_sint_bounds: "fits_signed (length bs) (le_sint bs)"
  using le_int_bounds [of bs] by (auto simp: fits_signed_def le_sint_def)

lemma le_sint_le_bytes: "fits_signed n v \<Longrightarrow> le_sint (le_bytes n v) = v"
proof -
  assume fits: "fits_signed n v"
  show ?thesis
  proof (cases "0 \<le> v")
    case True
    with fits show ?thesis by (simp add: le_sint_def le_int_le_bytes fits_signed_def)
  next
    case False
    have "v mod 256 ^ n = (v + 256 ^ n) mod 256 ^ n" by simp
    also have "\<dots> = v + 256 ^ n"
      using False fits by (intro mod_pos_pos_trivial) (auto simp: fits_signed_def)
    finally show ?thesis
      using False fits by (simp add: le_sint_def le_int_le_bytes fits_signed_def)
  qed
qed

lemma le_bytes_mod: "le_bytes n (v + k * 256 ^ n) = le_bytes n v"
proof (induction n arbitrary: v)
  case 0
  then show ?case by simp
next
  case (Suc n)
  have eq: "v + k * 256 ^ Suc n = v + 256 * (k * 256 ^ n)" by simp
  have "(v + k * 256 ^ Suc n) div 256 = v div 256 + k * 256 ^ n"
    unfolding eq by simp
  moreover have "(word_of_int (v + k * 256 ^ Suc n) :: byte) = word_of_int v"
    unfolding eq by (intro word_uint_eqI) (simp only: uint_word_of_int, simp)
  ultimately show ?case by (simp add: Suc)
qed

interpretation uint_le: exact_byte_format "le_bytes n" le_int n "fits_unsigned n" for n
  by unfold_locales
    (use le_int_bounds le_bytes_le_int in \<open>auto simp: fits_unsigned_def le_int_le_bytes\<close>)

interpretation sint_le: exact_byte_format "le_bytes n" le_sint n "fits_signed n" for n
proof unfold_locales
  fix bs :: "byte list" assume len: "length bs = n"
  then show "fits_signed n (le_sint bs)" using le_sint_bounds by blast
  show "le_bytes n (le_sint bs) = bs"
    using le_bytes_mod [of n "le_int bs" "- 1"] le_bytes_le_int [of bs] len
    by (auto simp: le_sint_def)
qed (simp_all add: le_sint_le_bytes)

lemma fits_unsigned_le_int [simp]: "length bs = n \<Longrightarrow> fits_unsigned n (le_int bs)"
  by (rule uint_le.unpack_fits)

lemma pack_list_checked:
  assumes "\<And>v. pack v = (if fits v then Inr (enc v) else Inl e)"
  shows "pack_list pack vs = (if list_all fits vs then Inr (concat (map enc vs)) else Inl e)"
proof -
  have "sseq (map pack vs) = (if list_all fits vs then Inr (map enc vs) else Inl e)"
    by (induction vs) (auto simp: assms)
  then show ?thesis by (simp add: pack_list_def)
qed

lemmas pack_list_unsigned = pack_list_checked [of "pack_unsigned n", OF pack_unsigned_def] for n

lemmas pack_list_signed = pack_list_checked [of "pack_signed n", OF pack_signed_def] for n

end
