(* ===== verification/Message_Stream.thy ===== *)
theory Message_Stream
  imports Struct_Codec
begin

text \<open>
  \<open>protocol.py\<close>: the length-prefixed message stream of the native core
  (\<open>MessageFrame\<close>, \<open>split_message_stream\<close>) and the cursor \<open>_Reader\<close> the decoders read a
  frame's payload with.
\<close>

section \<open>Frames\<close>

record message_frame =
  frame_type :: int
  frame_payload :: "byte list"

definition MAX_MESSAGE_BYTES :: int where
  "MAX_MESSAGE_BYTES = 1024 * 1024"

text \<open>
  The loop of \<open>split_message_stream\<close>: \<open>offset\<close> is the position in \<open>data\<close>, \<open>frames\<close> what has
  been split off so far.
\<close>

function split_loop :: "byte list \<Rightarrow> nat \<Rightarrow> message_frame list \<Rightarrow> py_error + message_frame list" where
  "split_loop data offset frames =
    (if offset < length data then
       if length data - offset < 4
       then Inl (InvalidMessage ''ocgcore message frame length is truncated'')
       else let flen = le_int (take 4 (drop offset data));
                offset = offset + 4
         in if flen < 1
         then Inl (InvalidMessage ''ocgcore message frame must include a message type'')
         else if flen > MAX_MESSAGE_BYTES
         then Inl (InvalidMessage (''ocgcore message frame exceeds '' @ str_int MAX_MESSAGE_BYTES @ '' bytes''))
         else let end = offset + nat flen
           in if end > length data
           then Inl (InvalidMessage (''ocgcore message frame declares '' @ str_int flen
                  @ '' bytes but only '' @ str_nat (length data - offset) @ '' remain''))
           else let message = take (nat flen) (drop offset data)
             in split_loop data end
                  (frames @ [\<lparr>frame_type = uint (hd message), frame_payload = tl message\<rparr>])
     else Inr frames)"
  by pat_completeness auto
termination
  by (relation "measure (\<lambda>(data, offset, frames). length data - offset)") auto

declare split_loop.simps [simp del]

definition split_message_stream :: "byte list \<Rightarrow> py_error + message_frame list" where
  "split_message_stream data =
    (if int (length data) > MAX_MESSAGE_BYTES
     then Inl (InvalidMessage (''ocgcore message stream exceeds '' @ str_int MAX_MESSAGE_BYTES @ '' bytes''))
     else split_loop data 0 [])"

section \<open>What a stream of frames is\<close>

text \<open>The byte string the core writes for a frame, and the frames the format can carry.\<close>

definition frame_bytes :: "message_frame \<Rightarrow> byte list" where
  "frame_bytes f =
    le_bytes 4 (1 + int (length (frame_payload f))) @ word_of_int (frame_type f) # frame_payload f"

definition stream_bytes :: "message_frame list \<Rightarrow> byte list" where
  "stream_bytes fs = concat (map frame_bytes fs)"

definition frame_ok :: "message_frame \<Rightarrow> bool" where
  "frame_ok f \<longleftrightarrow> 0 \<le> frame_type f \<and> frame_type f < 256
     \<and> 1 + int (length (frame_payload f)) \<le> MAX_MESSAGE_BYTES"

lemma stream_bytes_simps [simp]:
  "stream_bytes [] = []"
  "stream_bytes (f # fs) = frame_bytes f @ stream_bytes fs"
  by (simp_all add: stream_bytes_def)

lemma length_frame_bytes [simp]: "length (frame_bytes f) = 5 + length (frame_payload f)"
  by (simp add: frame_bytes_def)

lemma max_fits: "0 \<le> v \<Longrightarrow> v \<le> MAX_MESSAGE_BYTES \<Longrightarrow> fits_unsigned 4 v"
  by (simp add: fits_unsigned_def MAX_MESSAGE_BYTES_def)

text \<open>One iteration of the loop, at the start of a well-formed frame.\<close>

lemma split_loop_frame:
  assumes ok: "frame_ok f"
  shows "split_loop (pre @ frame_bytes f @ post) (length pre) frames =
         split_loop (pre @ frame_bytes f @ post) (length (pre @ frame_bytes f)) (frames @ [f])"
proof -
  let ?n = "1 + int (length (frame_payload f))"
  have n: "1 \<le> ?n" "?n \<le> MAX_MESSAGE_BYTES" "nat ?n = Suc (length (frame_payload f))"
    using ok by (auto simp: frame_ok_def)
  have hdr: "le_int (take 4 (drop (length pre) (pre @ frame_bytes f @ post))) = ?n"
    using uint_le.unpack_pack [OF max_fits, of ?n] n
    by (simp add: frame_bytes_def)
  have msg: "take (nat ?n) (drop (length pre + 4) (pre @ frame_bytes f @ post)) =
      word_of_int (frame_type f) # frame_payload f"
    by (simp add: frame_bytes_def n(3) del: nat_add_distrib)
  have ftype: "uint (word_of_int (frame_type f) :: byte) = frame_type f"
    using ok by (simp only: uint_word_of_int) (simp add: frame_ok_def)
  have body: "drop 4 (frame_bytes f) = word_of_int (frame_type f) # frame_payload f"
    by (simp add: frame_bytes_def)
  have surj: "\<lparr>frame_type = frame_type f, frame_payload = frame_payload f\<rparr> = f"
    by (cases f) simp
  have len: "length pre < length (pre @ frame_bytes f @ post)"
    "\<not> length (pre @ frame_bytes f @ post) - length pre < 4"
    "\<not> length (pre @ frame_bytes f @ post) < length pre + 4 + nat ?n"
    "length pre + 4 + nat ?n = length (pre @ frame_bytes f)"
    using n(3) by simp_all
  show ?thesis
    by (subst split_loop.simps) (use n len in \<open>simp only: Let_def hdr msg len ftype list.sel if_True
      if_False not_less [symmetric] refl\<close>, simp add: ftype body surj)
qed

lemma split_loop_stream:
  "list_all frame_ok fs \<Longrightarrow>
    split_loop (pre @ stream_bytes fs) (length pre) frames = Inr (frames @ fs)"
proof (induction fs arbitrary: pre frames)
  case Nil
  then show ?case by (subst split_loop.simps) simp
next
  case (Cons f fs)
  then show ?case
    using split_loop_frame [of f pre "stream_bytes fs" frames] Cons.IH [of "pre @ frame_bytes f" "frames @ [f]"]
    by simp
qed

text \<open>Conversely, whatever the loop splits off is the data, frame by frame.\<close>

lemma split_loop_sound:
  "split_loop data offset frames = Inr fs \<Longrightarrow> offset \<le> length data \<Longrightarrow>
    \<exists>gs. fs = frames @ gs \<and> list_all frame_ok gs \<and> drop offset data = stream_bytes gs"
proof (induction data offset frames arbitrary: fs rule: split_loop.induct)
  case (1 data offset frames)
  show ?case
  proof (cases "offset < length data")
    case False
    with "1.prems" show ?thesis
      by (subst (asm) split_loop.simps) auto
  next
    case True
    let ?rest = "drop offset data"
    let ?n = "le_int (take 4 ?rest)"
    let ?msg = "take (nat ?n) (drop (offset + 4) data)"
    let ?f = "\<lparr>frame_type = uint (hd ?msg), frame_payload = tl ?msg\<rparr>"
    have guards: "4 \<le> length data - offset" "1 \<le> ?n" "?n \<le> MAX_MESSAGE_BYTES"
      "offset + 4 + nat ?n \<le> length data"
      and rec: "split_loop data (offset + 4 + nat ?n) (frames @ [?f]) = Inr fs"
      using "1.prems"(1) True
      by (subst (asm) split_loop.simps, simp add: Let_def split: if_splits)+
    from "1.IH" [OF True _ refl refl _ _ refl _ refl rec] guards obtain gs
      where gs: "fs = (frames @ [?f]) @ gs" "list_all frame_ok gs"
        "drop (offset + 4 + nat ?n) data = stream_bytes gs" by auto
    have lmsg: "length ?msg = nat ?n"
      using guards by simp
    with guards(2) have "?msg \<noteq> []" by (metis length_greater_0_conv not_le zero_less_nat_eq zle_add1_eq_le add_0 less_numeral_extra(1) order_less_le_trans)
    then have msg: "?msg = hd ?msg # tl ?msg" by (rule hd_Cons_tl [symmetric])
    have ok: "frame_ok ?f"
      using guards lmsg unsigned_less [of "hd ?msg"] by (auto simp: frame_ok_def)
    have "1 + int (length (tl ?msg)) = ?n" using lmsg guards by auto
    then have "frame_bytes ?f = take 4 ?rest @ ?msg"
      using uint_le.pack_unpack [of "take 4 ?rest" 4] guards msg by (simp add: frame_bytes_def)
    then have "drop offset data = stream_bytes (?f # gs)"
      using gs(3) by simp (metis add.commute append_take_drop_id drop_drop)
    with gs ok show ?thesis by auto
  qed
qed

lemma split_stream_iff:
  "split_message_stream data = Inr fs \<longleftrightarrow>
    int (length data) \<le> MAX_MESSAGE_BYTES \<and> list_all frame_ok fs \<and> data = stream_bytes fs"
  using split_loop_sound [of data 0 "[]" fs] split_loop_stream [of fs "[]" "[]"]
  by (auto simp: split_message_stream_def)

end
