(* ===== verification/Bridge_Reader.thy ===== *)
theory Bridge_Reader
  imports Message_Stream
begin

text \<open>
  \<open>protocol.py\<close>: the cursor \<open>_Reader\<close> over a frame's payload. Every read checks the bound,
  returns the little-endian number and the advanced cursor; \<open>finish\<close> rejects trailing bytes.
  A read is a function of the cursor that returns the new one, as the method mutates it.
\<close>

record reader =
  payload :: "byte list"
  message_name :: string
  offset :: nat

definition mk_reader :: "byte list \<Rightarrow> string \<Rightarrow> reader" where
  "mk_reader bytes name = \<lparr>payload = bytes, message_name = name, offset = 0\<rparr>"

definition read_field :: "nat \<Rightarrow> reader \<Rightarrow> string \<Rightarrow> py_error + int \<times> reader" where
  "read_field width r label =
    (let end = offset r + width
     in if end > length (payload r)
        then Inl (InvalidMessage (message_name r @ ''.'' @ label @ '' is truncated at byte '' @ str_nat (offset r)))
        else Inr (le_int (take width (drop (offset r) (payload r))), r\<lparr>offset := end\<rparr>))"

definition u8 :: "reader \<Rightarrow> string \<Rightarrow> py_error + int \<times> reader" where
  "u8 r label = read_field 1 r label"

definition u16 :: "reader \<Rightarrow> string \<Rightarrow> py_error + int \<times> reader" where
  "u16 r label = read_field 2 r label"

definition u32 :: "reader \<Rightarrow> string \<Rightarrow> py_error + int \<times> reader" where
  "u32 r label = read_field 4 r label"

definition u64 :: "reader \<Rightarrow> string \<Rightarrow> py_error + int \<times> reader" where
  "u64 r label = read_field 8 r label"

lemmas read_defs = u8_def u16_def u32_def u64_def

definition finish :: "reader \<Rightarrow> py_error + unit" where
  "finish r =
    (if offset r \<noteq> length (payload r)
     then Inl (InvalidMessage (message_name r @ '' has '' @ str_nat (length (payload r) - offset r)
                @ '' trailing byte(s)''))
     else Inr ())"

definition read_player :: "reader \<Rightarrow> py_error + int \<times> reader" where
  "read_player r =
    sbind (u8 r ''player'') (\<lambda>(player, r).
      if player \<notin> {0, 1}
      then Inl (InvalidMessage (message_name r @ ''.player must be 0 or 1''))
      else Inr (player, r))"

text \<open>The label of a field of the \<open>i\<close>-th record of a group, \<open>f"{group}[{index}].{field}"\<close>.\<close>

definition at :: "string \<Rightarrow> nat \<Rightarrow> string \<Rightarrow> string" where
  "at g i name = g @ ''['' @ str_nat i @ ''].'' @ name"

section \<open>What a read does to the cursor\<close>

lemma read_field_Inr:
  "read_field n r l = Inr (v, r') \<longleftrightarrow>
    offset r + n \<le> length (payload r) \<and>
    v = le_int (take n (drop (offset r) (payload r))) \<and> r' = r\<lparr>offset := offset r + n\<rparr>"
  by (auto simp: read_field_def Let_def)

lemma read_field_range: "read_field n r l = Inr (v, r') \<Longrightarrow> 0 \<le> v \<and> v < 256 ^ n"
proof -
  assume "read_field n r l = Inr (v, r')"
  then have v: "v = le_int (take n (drop (offset r) (payload r)))"
    and "offset r + n \<le> length (payload r)" by (auto simp: read_field_Inr)
  then have "length (take n (drop (offset r) (payload r))) = n" by simp
  with v show ?thesis by (metis le_int_bounds)
qed

lemma u8_range: "u8 r l = Inr (v, r') \<Longrightarrow> 0 \<le> v \<and> v < 256"
  by (simp only: u8_def) (drule read_field_range, simp)

lemma u16_range: "u16 r l = Inr (v, r') \<Longrightarrow> 0 \<le> v \<and> v < 65536"
  by (simp only: u16_def) (drule read_field_range, simp)

lemma u32_range: "u32 r l = Inr (v, r') \<Longrightarrow> 0 \<le> v \<and> v < 4294967296"
  by (simp only: u32_def) (drule read_field_range, simp)

lemma u64_range: "u64 r l = Inr (v, r') \<Longrightarrow> 0 \<le> v \<and> v < 18446744073709551616"
  by (simp only: u64_def) (drule read_field_range, simp)

lemmas read_ranges = u8_range u16_range u32_range u64_range

lemma read_player_range: "read_player r = Inr (v, r') \<Longrightarrow> v = 0 \<or> v = 1"
  by (auto simp: read_player_def monad_simps split: prod.splits if_splits)

text \<open>The player is the first byte of a message.\<close>

lemma read_player_first: "read_player (mk_reader bs n) = Inr (v, r') \<Longrightarrow> bs \<noteq> [] \<and> v = uint (hd bs)"
  by (cases bs) (auto simp: read_player_def u8_def read_field_Inr mk_reader_def monad_simps split: prod.splits if_splits)

text \<open>
  The payload never changes and every read advances the cursor by the width of the field, never
  past the end: the position after any sequence of reads is a byte count of the payload.
\<close>

lemma advance_u8: "u8 r l = Inr (v, r') \<Longrightarrow> offset r' = offset r + 1 \<and> payload r' = payload r \<and> offset r' \<le> length (payload r)"
  by (auto simp: read_defs read_field_Inr)

lemma advance_u16: "u16 r l = Inr (v, r') \<Longrightarrow> offset r' = offset r + 2 \<and> payload r' = payload r \<and> offset r' \<le> length (payload r)"
  by (auto simp: read_defs read_field_Inr)

lemma advance_u32: "u32 r l = Inr (v, r') \<Longrightarrow> offset r' = offset r + 4 \<and> payload r' = payload r \<and> offset r' \<le> length (payload r)"
  by (auto simp: read_defs read_field_Inr)

lemma advance_u64: "u64 r l = Inr (v, r') \<Longrightarrow> offset r' = offset r + 8 \<and> payload r' = payload r \<and> offset r' \<le> length (payload r)"
  by (auto simp: read_defs read_field_Inr)

lemmas advances = advance_u8 advance_u16 advance_u32 advance_u64

lemma advance_player:
  "read_player r = Inr (v, r') \<Longrightarrow> offset r' = offset r + 1 \<and> payload r' = payload r \<and> offset r' \<le> length (payload r)"
  by (auto simp: read_player_def monad_simps split: prod.splits if_splits dest: advance_u8)

lemma finish_Inr [simp]: "finish r = Inr u \<longleftrightarrow> offset r = length (payload r)"
  by (simp add: finish_def)

section \<open>Reading what was written\<close>

text \<open>The cursor of a payload that is \<open>pre\<close>, already read, followed by \<open>post\<close>.\<close>

definition cursor :: "string \<Rightarrow> byte list \<Rightarrow> byte list \<Rightarrow> reader" where
  "cursor name pre post = \<lparr>payload = pre @ post, message_name = name, offset = length pre\<rparr>"

lemma mk_reader_cursor: "mk_reader bytes name = cursor name [] bytes"
  by (simp add: mk_reader_def cursor_def)

lemma read_field_written:
  assumes "fits_unsigned n v"
  shows "read_field n (cursor name pre (le_bytes n v @ post)) l =
    Inr (v, cursor name (pre @ le_bytes n v) post)"
  using assms by (simp add: read_field_def cursor_def uint_le.unpack_pack)

lemma u8_written: "fits_unsigned 1 v \<Longrightarrow>
    u8 (cursor name pre (le_bytes 1 v @ post)) l = Inr (v, cursor name (pre @ le_bytes 1 v) post)"
  by (simp only: u8_def read_field_written)

lemma u32_written: "fits_unsigned 4 v \<Longrightarrow>
    u32 (cursor name pre (le_bytes 4 v @ post)) l = Inr (v, cursor name (pre @ le_bytes 4 v) post)"
  by (simp only: u32_def read_field_written)

lemma u64_written: "fits_unsigned 8 v \<Longrightarrow>
    u64 (cursor name pre (le_bytes 8 v @ post)) l = Inr (v, cursor name (pre @ le_bytes 8 v) post)"
  by (simp only: u64_def read_field_written)

lemma finish_written [simp]: "finish (cursor name pre []) = Inr ()"
  by (simp add: cursor_def)

lemmas read_written = u8_written u32_written u64_written

text \<open>A loop over records reads back a sequence of written records.\<close>

lemma read_many_written:
  assumes "\<And>j x pre post. P x \<Longrightarrow>
      f j (cursor name pre (enc x @ post)) = Inr (g j x, cursor name (pre @ enc x) post)"
  shows "list_all P xs \<Longrightarrow>
    read_many f i (length xs) (cursor name pre (concat (map enc xs) @ post)) =
      Inr (map2 g [i..<i + length xs] xs, cursor name (pre @ concat (map enc xs)) post)"
proof (induction xs arbitrary: i pre)
  case Nil
  then show ?case by simp
next
  case (Cons x xs)
  then show ?case
    using assms [of x i pre "concat (map enc xs) @ post"] Cons.IH [of "Suc i" "pre @ enc x"]
    by (simp add: upt_conv_Cons del: upt_Suc)
qed

end
