(* ===== verification/Canonical.thy ===== *)
theory Canonical
  imports Py_Values
begin

text \<open>
  \<open>engine/canonical.py\<close>: the canonical form of a value, its JSON text, and the SHA-256 digest
  that names requests, actions and evidence records. \<open>json.dumps\<close> and \<open>hashlib.sha256\<close> are the
  standard library's and are modelled for the options the source passes.
\<close>

unbundle bit_operations_syntax

section \<open>Canonical data\<close>

text \<open>
  Dataclasses and enums are converted by the models' own \<open>to_dict\<close> functions, so the cases left
  are dictionaries, whose keys are sorted, and sequences, which become lists.
\<close>

primrec to_canonical_data :: "pyval \<Rightarrow> pyval" where
  "to_canonical_data PNone = PNone"
| "to_canonical_data (PBool b) = PBool b"
| "to_canonical_data (PInt i) = PInt i"
| "to_canonical_data (PFloat t) = PFloat t"
| "to_canonical_data (PStr s) = PStr s"
| "to_canonical_data (PList xs) = PList (map to_canonical_data xs)"
| "to_canonical_data (PTuple xs) = PList (map to_canonical_data xs)"
| "to_canonical_data (PDict d) = PDict (sort_key fst (map (map_prod id to_canonical_data) d))"
| "to_canonical_data (POpaque t) = POpaque t"

section \<open>JSON text\<close>

definition hex_char :: "nat \<Rightarrow> char" where
  "hex_char d = (if d < 10 then char_of (48 + d) else char_of (87 + d))"

definition json_escape :: "char \<Rightarrow> string" where
  "json_escape c =
    (let n = (of_char c :: nat) in
     if n = 34 then [char_of (92::nat), char_of (34::nat)]
     else if n = 92 then [char_of (92::nat), char_of (92::nat)]
     else if n = 10 then char_of (92::nat) # ''n''
     else if n = 13 then char_of (92::nat) # ''r''
     else if n = 9 then char_of (92::nat) # ''t''
     else if n = 12 then char_of (92::nat) # ''f''
     else if n = 8 then char_of (92::nat) # ''b''
     else if n < 32 then char_of (92::nat) # ''u00'' @ [hex_char (n div 16), hex_char (n mod 16)]
     else [c])"

definition json_string :: "string \<Rightarrow> string" where
  "json_string s = [char_of (34::nat)] @ concat (map json_escape s) @ [char_of (34::nat)]"

fun join :: "string \<Rightarrow> string list \<Rightarrow> string" where
  "join sep [] = []"
| "join sep [x] = x"
| "join sep (x # y # xs) = x @ sep @ join sep (y # xs)"

text \<open>\<open>json.dumps(v, ensure_ascii=False, separators=(",", ":"), sort_keys=True)\<close>.\<close>

primrec json_dumps :: "pyval \<Rightarrow> py_error + string" where
  "json_dumps PNone = Inr ''null''"
| "json_dumps (PBool b) = Inr (if b then ''true'' else ''false'')"
| "json_dumps (PInt i) = Inr (str_int i)"
| "json_dumps (PFloat t) = Inr t"
| "json_dumps (PStr s) = Inr (json_string s)"
| "json_dumps (PList xs) =
     sbind (sseq (map json_dumps xs)) (\<lambda>ts. Inr (''['' @ join '','' ts @ '']''))"
| "json_dumps (PTuple xs) =
     sbind (sseq (map json_dumps xs)) (\<lambda>ts. Inr (''['' @ join '','' ts @ '']''))"
| "json_dumps (PDict d) =
     sbind (sseq (map (\<lambda>(k, m). sbind m (\<lambda>t. Inr (json_string k @ '':'' @ t)))
                   (sort_key fst (map (map_prod id json_dumps) d))))
       (\<lambda>ts. Inr (''{'' @ join '','' ts @ ''}''))"
| "json_dumps (POpaque t) =
     Inl (TypeError (''Object of type '' @ t @ '' is not JSON serializable''))"

definition canonical_json :: "pyval \<Rightarrow> py_error + string" where
  "canonical_json v = json_dumps (to_canonical_data v)"

section \<open>SHA-256\<close>

text \<open>
  The constants of the standard: the first 32 bits of the fractional parts of the cube roots of the
  first 64 primes, and of the square roots of the first eight. \<open>root_bits k p\<close> finds the \<open>k\<close>-th
  root of \<open>p * 2 ^ (32 * k)\<close> bit by bit; the word keeps the fraction.
\<close>

definition first_primes :: "nat list" where
  "first_primes =
    filter (\<lambda>n. list_all (\<lambda>d. n mod d \<noteq> 0) [2, 3, 5, 7, 11, 13, 17] \<or> n \<in> {2, 3, 5, 7, 11, 13, 17}) [2..<312]"

definition root_bits :: "nat \<Rightarrow> nat \<Rightarrow> 32 word" where
  "root_bits k p =
    word_of_nat (foldl (\<lambda>x i. if (x + 2 ^ i) ^ k \<le> p * 2 ^ (32 * k) then x + 2 ^ i else x) 0 (rev [0..<36]))"

definition sha_k :: "32 word list" where
  "sha_k = map (root_bits 3) first_primes"

definition sha_init :: "32 word list" where
  "sha_init = map (root_bits 2) [2, 3, 5, 7, 11, 13, 17, 19]"

definition rotr32 :: "nat \<Rightarrow> 32 word \<Rightarrow> 32 word" where
  "rotr32 n w = drop_bit n w OR push_bit (32 - n) w"

definition be_word :: "8 word list \<Rightarrow> 32 word" where
  "be_word bs = foldl (\<lambda>a b. push_bit 8 a OR ucast b) 0 bs"

definition be_bytes :: "nat \<Rightarrow> nat \<Rightarrow> 8 word list" where
  "be_bytes n v = map (\<lambda>i. word_of_nat (v div 256 ^ i)) (rev [0..<n])"

definition sha_pad :: "8 word list \<Rightarrow> 8 word list" where
  "sha_pad msg =
    msg @ [0x80] @ replicate ((119 - length msg mod 64) mod 64) 0 @ be_bytes 8 (8 * length msg)"

fun chunks :: "nat \<Rightarrow> nat \<Rightarrow> 'a list \<Rightarrow> 'a list list" where
  "chunks 0 w xs = []"
| "chunks (Suc n) w xs = take w xs # chunks n w (drop w xs)"

definition sha_extend :: "32 word list \<Rightarrow> 32 word list" where
  "sha_extend ws =
    (let n = length ws;
         a = ws ! (n - 15);
         b = ws ! (n - 2);
         s0 = rotr32 7 a XOR rotr32 18 a XOR drop_bit 3 a;
         s1 = rotr32 17 b XOR rotr32 19 b XOR drop_bit 10 b
     in ws @ [ws ! (n - 16) + s0 + ws ! (n - 7) + s1])"

definition sha_schedule :: "8 word list \<Rightarrow> 32 word list" where
  "sha_schedule block = (sha_extend ^^ 48) (map be_word (chunks 16 4 block))"

fun sha_round :: "32 word list \<Rightarrow> 32 word \<times> 32 word \<Rightarrow> 32 word list" where
  "sha_round [a, b, c, d, e, f, g, h] (k, w) =
    (let s1 = rotr32 6 e XOR rotr32 11 e XOR rotr32 25 e;
         ch = (e AND f) XOR (NOT e AND g);
         t1 = h + s1 + ch + k + w;
         s0 = rotr32 2 a XOR rotr32 13 a XOR rotr32 22 a;
         maj = (a AND b) XOR (a AND c) XOR (b AND c);
         t2 = s0 + maj
     in [t1 + t2, a, b, c, d + t1, e, f, g])"
| "sha_round hs kw = hs"

definition sha_block :: "32 word list \<Rightarrow> 8 word list \<Rightarrow> 32 word list" where
  "sha_block hs block = map2 (+) hs (foldl sha_round hs (zip sha_k (sha_schedule block)))"

definition sha256 :: "8 word list \<Rightarrow> 8 word list" where
  "sha256 msg =
    (let padded = sha_pad msg;
         hs = foldl sha_block sha_init (chunks (length padded div 64) 64 padded)
     in concat (map (\<lambda>h. be_bytes 4 (unat h)) hs))"

definition hex_of_bytes :: "8 word list \<Rightarrow> string" where
  "hex_of_bytes bs = concat (map (\<lambda>b. [hex_char (unat b div 16), hex_char (unat b mod 16)]) bs)"

definition utf8_bytes :: "string \<Rightarrow> 8 word list" where
  "utf8_bytes s = map (\<lambda>c. word_of_nat (of_char c)) s"

definition sha256_hexdigest :: "8 word list \<Rightarrow> string" where
  "sha256_hexdigest bs = hex_of_bytes (sha256 bs)"

section \<open>The digest of a value\<close>

definition stable_digest :: "pyval \<Rightarrow> string \<Rightarrow> py_error + string" where
  "stable_digest v prefix =
    sbind (canonical_json v) (\<lambda>t. Inr (prefix @ sha256_hexdigest (utf8_bytes t)))"

section \<open>Facts about canonical data\<close>

lemma insort_map_prod:
  "insort_key fst (map_prod id f x) (map (map_prod id f) xs) = map (map_prod id f) (insort_key fst x xs)"
  by (induction xs) (auto simp: map_prod_def split: prod.splits)

lemma sort_map_prod:
  "sort_key fst (map (map_prod id f) xs) = map (map_prod id f) (sort_key fst xs)"
proof (induction xs)
  case Nil
  show ?case by simp
next
  case (Cons x xs)
  have "sort_key fst (map (map_prod id f) (x # xs)) =
      insort_key fst (map_prod id f x) (sort_key fst (map (map_prod id f) xs))"
    by (simp only: list.map sort_key_simps)
  then show ?case
    by (simp only: Cons insort_map_prod sort_key_simps)
qed

lemma sorted_sort_fst [simp]: "sort_key fst (sort_key fst xs) = sort_key fst xs"
  by (rule sort_key_id_if_sorted) simp

lemma to_canonical_idem: "to_canonical_data (to_canonical_data v) = to_canonical_data v"
proof (induction v)
  case (PDict d)
  let ?c = "map_prod id to_canonical_data"
  have "map ?c (map ?c d) = map ?c d"
    using PDict by (auto simp: prod.map_comp o_def snds.simps)
  moreover have "sort_key fst (map ?c (sort_key fst (map ?c d))) = sort_key fst (map ?c (map ?c d))"
    by (simp only: sort_map_prod sorted_sort_fst)
  ultimately show ?case by (simp only: to_canonical_data.simps)
qed auto

text \<open>Two dictionaries with the same entries have one canonical form, whatever their order.\<close>

lemma sort_fst_mset:
  assumes "mset xs = mset ys" and "distinct (map fst xs)"
  shows "sort_key fst xs = sort_key fst ys"
proof (rule properties_for_sort_key)
  show "mset (sort_key fst ys) = mset xs"
    using assms(1) by simp
  show "sorted (map fst (sort_key fst ys))" by simp
next
  fix k assume k: "k \<in> set (sort_key fst ys)"
  have *: "filter (\<lambda>x. fst k = fst x) zs = [k]" if "distinct (map fst zs)" "k \<in> set zs" for zs
    using that by (induction zs) (auto simp: filter_empty_conv rev_image_eqI)
  have "distinct (map fst (sort_key fst ys))" and "k \<in> set xs"
    using assms k by (metis mset_map mset_sort mset_eq_imp_distinct_iff, metis mset_sort set_mset_mset)
  then show "filter (\<lambda>x. fst k = fst x) (sort_key fst ys) = filter (\<lambda>x. fst k = fst x) xs"
    using * [OF _ k] * [OF assms(2)] by simp
qed

lemma to_canonical_dict_order:
  assumes "mset d = mset e" and "distinct (map fst d)"
  shows "to_canonical_data (PDict d) = to_canonical_data (PDict e)"
  using sort_fst_mset [OF assms] by (simp add: sort_map_prod)

lemma json_safe_canonical [simp]: "json_safe (to_canonical_data v) = json_safe v"
proof (induction v)
  case (PDict d)
  have "json_safe (snd (map_prod id to_canonical_data kv)) = json_safe (snd kv)"
    if "kv \<in> set d" for kv
    using PDict [of kv "snd kv"] that by (cases kv) (simp add: snds.simps)
  then show ?case by (auto simp: dict_safe_def list_all_iff)
qed (auto simp: list_all_iff)

lemma json_dumps_total: "json_safe v \<Longrightarrow> \<exists>t. json_dumps v = Inr t"
proof (induction v)
  case (PList xs)
  then have "\<exists>ts. sseq (map json_dumps xs) = Inr ts"
    by (intro sseq_total) (auto simp: list_all_iff)
  then show ?case by auto
next
  case (PTuple xs)
  then have "\<exists>ts. sseq (map json_dumps xs) = Inr ts"
    by (intro sseq_total) (auto simp: list_all_iff)
  then show ?case by auto
next
  case (PDict d)
  have "\<exists>t. json_dumps (snd kv) = Inr t" if "kv \<in> set d" for kv
    using PDict that by (cases kv) (fastforce simp: dict_safe_def list_all_iff snds.simps)
  then have "\<exists>ts. sseq (map (\<lambda>(k, m). sbind m (\<lambda>t. Inr (json_string k @ '':'' @ t)))
      (sort_key fst (map (map_prod id json_dumps) d))) = Inr ts"
    by (intro sseq_total) fastforce
  then show ?case by auto
qed auto

lemma json_dumps_safe: "json_dumps v = Inr t \<Longrightarrow> json_safe v"
proof (induction v arbitrary: t)
  case (PList xs)
  then show ?case
    by (auto simp: monad_simps sseq_eq_Inr list_all_iff) (metis image_eqI image_iff list.set_map)
next
  case (PTuple xs)
  then show ?case
    by (auto simp: monad_simps sseq_eq_Inr list_all_iff) (metis image_eqI image_iff list.set_map)
next
  case (PDict d)
  obtain ts where ts: "map (\<lambda>(k, m). sbind m (\<lambda>t. Inr (json_string k @ '':'' @ t)))
      (sort_key fst (map (map_prod id json_dumps) d)) = map Inr ts"
    using PDict.prems by (auto simp: monad_simps sseq_eq_Inr)
  have "json_safe (snd kv)" if kv: "kv \<in> set d" for kv
  proof -
    let ?g = "\<lambda>(k, m). sbind m (\<lambda>t. Inr (json_string k @ '':'' @ t))"
    have "map_prod id json_dumps kv \<in> set (sort_key fst (map (map_prod id json_dumps) d))"
      using kv by simp
    then have "?g (map_prod id json_dumps kv) \<in> set (map Inr ts)"
      unfolding ts [symmetric] by force
    then obtain t where "json_dumps (snd kv) = Inr t"
      by (cases kv) (auto simp: monad_simps)
    with kv show ?thesis using PDict.IH [of kv "snd kv" t] by (cases kv) (auto simp: snds.simps)
  qed
  then show ?case by (simp add: dict_safe_def list_all_iff)
qed auto

lemma canonical_json_total: "(\<exists>t. canonical_json v = Inr t) \<longleftrightarrow> json_safe v"
  using json_dumps_total [of "to_canonical_data v"] json_dumps_safe [of "to_canonical_data v"]
  by (auto simp: canonical_json_def)

lemma stable_digest_total: "(\<exists>s. stable_digest v prefix = Inr s) \<longleftrightarrow> json_safe v"
  using canonical_json_total [of v] by (auto simp: stable_digest_def monad_simps)

section \<open>Shape of a digest\<close>

definition lower_hex :: "char \<Rightarrow> bool" where
  "lower_hex c \<longleftrightarrow> c \<in> set ''0123456789abcdef''"

lemma lower_hex_char: "d < 16 \<Longrightarrow> lower_hex (hex_char d)"
proof -
  assume "d < 16"
  then have "d \<in> set [0..<16]" by simp
  moreover have "list_all (\<lambda>d. lower_hex (hex_char d)) [0..<16]" by code_simp
  ultimately show ?thesis unfolding list_all_iff by blast
qed

lemma hex_of_bytes_shape:
  "length (hex_of_bytes bs) = 2 * length bs \<and> list_all lower_hex (hex_of_bytes bs)"
proof (induction bs)
  case Nil
  then show ?case by (simp add: hex_of_bytes_def)
next
  case (Cons b bs)
  have "unat b < 256" using unsigned_less [of b] by simp
  then have "lower_hex (hex_char (unat b div 16))" "lower_hex (hex_char (unat b mod 16))"
    by (auto intro: lower_hex_char)
  with Cons show ?case by (simp add: hex_of_bytes_def)
qed

lemma length_sha_round: "length (sha_round hs kw) = length hs"
  by (induction hs kw rule: sha_round.induct) (auto simp: Let_def)

lemma length_foldl_sha_round: "length (foldl sha_round hs kws) = length hs"
  by (induction kws arbitrary: hs) (auto simp: length_sha_round)

lemma length_sha_block: "length (sha_block hs b) = length hs"
  by (simp add: sha_block_def length_foldl_sha_round)

lemma length_foldl_sha_block: "length (foldl sha_block hs bs) = length hs"
  by (induction bs arbitrary: hs) (auto simp: length_sha_block)

lemma length_sha256: "length (sha256 msg) = 32"
proof -
  have "length (concat (map (\<lambda>h. be_bytes 4 (unat h)) hs)) = 4 * length hs" for hs :: "32 word list"
    by (induction hs) (auto simp: be_bytes_def)
  then show ?thesis
    by (simp add: sha256_def Let_def length_foldl_sha_block sha_init_def)
qed

lemma hexdigest_shape: "length (sha256_hexdigest bs) = 64 \<and> list_all lower_hex (sha256_hexdigest bs)"
  using hex_of_bytes_shape [of "sha256 bs"] by (simp add: sha256_hexdigest_def length_sha256)

lemma stable_digest_shape:
  assumes "stable_digest v prefix = Inr s"
  obtains h where "s = prefix @ h" and "length h = 64" and "list_all lower_hex h"
  using assms hexdigest_shape by (auto simp: stable_digest_def monad_simps)

lemma stable_digest_eq_canonical:
  "to_canonical_data v = to_canonical_data w \<Longrightarrow> stable_digest v prefix = stable_digest w prefix"
  by (simp add: stable_digest_def canonical_json_def)

end
