(* ===== verification/Decision.thy ===== *)
theory Decision
  imports Canonical
begin

text \<open>
  \<open>engine/bridge/decision.py\<close>: the pointer-free decision requests the decoder builds, the
  responses to them, and the validation both sides of the bridge share.
\<close>

section \<open>Data\<close>

record candidate =
  candidate_id :: string
  c_kind :: string
  c_label :: string
  c_card_ref :: "pydict option"
  c_effect_ref :: "pydict option"
  c_payload :: pydict

record decision_constraints =
  min_selections :: int
  max_selections :: int
  ordered :: bool
  allow_duplicates :: bool
  required :: bool

record decision_context =
  phase :: string
  chain_entries :: "pydict list"
  turn_player :: "int option"
  priority_player :: "int option"
  visible_board :: pydict
  request_source :: string
  version_metadata :: pydict
  extra :: pydict

record decision_request =
  request_id :: string
  request_type :: string
  player :: int
  candidates :: "candidate list"
  req_constraints :: decision_constraints
  req_context :: decision_context

text \<open>
  The payload of a response comes from outside and is not read by the bridge. The keys of its dictionaries
  may be strings, integers, or objects of a class without an order (\<open>None\<close>, say), which \<open>Other_Key\<close> names;
  floats and tuples as keys are left out. A \<open>Plain\<close> value holds no dictionary but with string keys.
\<close>

datatype payload_key = Str_Key string | Int_Key int | Other_Key string

datatype payload_value = Plain pyval | Items "payload_value list" | Fields "(payload_key \<times> payload_value) list"

record decision_response =
  resp_request_id :: string
  resp_request_signature :: string
  selected_candidate_ids :: "string list"
  resp_payload :: "(payload_key \<times> payload_value) list"

text \<open>The dataclass defaults.\<close>

definition default_constraints :: decision_constraints where
  "default_constraints = \<lparr>min_selections = 1, max_selections = 1, ordered = False,
     allow_duplicates = False, required = True\<rparr>"

definition empty_context :: decision_context where
  "empty_context = \<lparr>phase = [], chain_entries = [], turn_player = None, priority_player = None,
     visible_board = [], request_source = [], version_metadata = [], extra = []\<rparr>"

definition REQUEST_SCHEMA_VERSION :: string where
  "REQUEST_SCHEMA_VERSION = ''0.3a''"

section \<open>Dictionaries of the dataclasses\<close>

definition opt_dict :: "pydict option \<Rightarrow> pyval" where
  "opt_dict d = (case d of None \<Rightarrow> PNone | Some d \<Rightarrow> PDict d)"

definition opt_int :: "int option \<Rightarrow> pyval" where
  "opt_int i = (case i of None \<Rightarrow> PNone | Some i \<Rightarrow> PInt i)"

definition opt_str :: "string option \<Rightarrow> pyval" where
  "opt_str s = (case s of None \<Rightarrow> PNone | Some s \<Rightarrow> PStr s)"

definition candidate_identity_dict :: "candidate \<Rightarrow> pydict" where
  "candidate_identity_dict c =
    [(''candidate_id'', PStr (candidate_id c)),
     (''card_ref'', opt_dict (c_card_ref c)),
     (''effect_ref'', opt_dict (c_effect_ref c)),
     (''kind'', PStr (c_kind c)),
     (''payload'', PDict (c_payload c))]"

definition candidate_to_dict :: "candidate \<Rightarrow> pydict" where
  "candidate_to_dict c = dict_set ''label'' (PStr (c_label c)) (candidate_identity_dict c)"

definition constraints_to_dict :: "decision_constraints \<Rightarrow> pydict" where
  "constraints_to_dict k =
    [(''allow_duplicates'', PBool (allow_duplicates k)),
     (''max_selections'', PInt (max_selections k)),
     (''min_selections'', PInt (min_selections k)),
     (''ordered'', PBool (ordered k)),
     (''required'', PBool (required k))]"

definition context_to_dict :: "decision_context \<Rightarrow> pydict" where
  "context_to_dict x =
    [(''chain'', PList (map PDict (chain_entries x))),
     (''extra'', PDict (extra x)),
     (''phase'', PStr (phase x)),
     (''priority_player'', opt_int (priority_player x)),
     (''request_source'', PStr (request_source x)),
     (''turn_player'', opt_int (turn_player x)),
     (''version_metadata'', PDict (version_metadata x)),
     (''visible_board'', PDict (visible_board x))]"

definition to_signature_dict :: "decision_request \<Rightarrow> pydict" where
  "to_signature_dict r =
    [(''candidates'', PList (map (PDict \<circ> candidate_identity_dict) (candidates r))),
     (''constraints'', PDict (constraints_to_dict (req_constraints r))),
     (''context'', PDict (context_to_dict (req_context r))),
     (''player'', PInt (player r)),
     (''request_schema_version'', PStr REQUEST_SCHEMA_VERSION),
     (''request_type'', PStr (request_type r))]"

definition request_signature :: "decision_request \<Rightarrow> py_error + string" where
  "request_signature r = stable_digest (PDict (to_signature_dict r)) ''req_''"

definition request_to_dict :: "decision_request \<Rightarrow> py_error + pydict" where
  "request_to_dict r =
    (let d = dict_set ''candidates'' (PList (map (PDict \<circ> candidate_to_dict) (candidates r)))
               (to_signature_dict r);
         d = dict_set ''request_id'' (PStr (request_id r)) d
     in sbind (request_signature r) (\<lambda>sig. Inr (dict_set ''request_signature'' (PStr sig) d)))"

text \<open>A payload as a value; a dictionary whose keys are not all strings is known by its class only.\<close>

primrec payload_pyval :: "payload_value \<Rightarrow> pyval" where
  "payload_pyval (Plain v) = v"
| "payload_pyval (Items ps) = PList (map payload_pyval ps)"
| "payload_pyval (Fields d) =
     (case those (map (\<lambda>(k, v). case k of Str_Key s \<Rightarrow> Some (s, v) | _ \<Rightarrow> None) (map (map_prod id payload_pyval) d)) of
        None \<Rightarrow> POpaque ''dict''
      | Some e \<Rightarrow> PDict e)"

definition response_to_dict :: "decision_response \<Rightarrow> pydict" where
  "response_to_dict p =
    [(''payload'', payload_pyval (Fields (resp_payload p))),
     (''request_id'', PStr (resp_request_id p)),
     (''request_signature'', PStr (resp_request_signature p)),
     (''selected_candidate_ids'', PList (map PStr (selected_candidate_ids p)))]"

section \<open>Validation\<close>

text \<open>
  \<open>repr\<close> of a list of strings, as the f-strings of the messages render it; characters beyond
  ASCII are rendered as they are.
\<close>

definition repr_str :: "string \<Rightarrow> string" where
  "repr_str s =
    (let sq = char_of (39::nat); dq = char_of (34::nat); bs = char_of (92::nat);
         q = (if sq \<in> set s \<and> dq \<notin> set s then dq else sq);
         esc = (\<lambda>c. if c = bs \<or> c = q then [bs, c]
                    else let n = (of_char c :: nat) in
                      if n = 10 then bs # ''n'' else if n = 13 then bs # ''r''
                      else if n = 9 then bs # ''t''
                      else if n < 32 \<or> n = 127 then bs # ''x'' @ [hex_char (n div 16), hex_char (n mod 16)]
                      else [c])
     in [q] @ concat (map esc s) @ [q])"

definition repr_strs :: "string list \<Rightarrow> string" where
  "repr_strs ss = ''['' @ join '', '' (map repr_str ss) @ '']''"

definition validate_decision_request :: "decision_request \<Rightarrow> py_error + unit" where
  "validate_decision_request r =
    (let ids = map candidate_id (candidates r);
         ctx = [(''request_id'', PStr (request_id r)), (''request_type'', PStr (request_type r))];
         duplicates = sort (remdups (filter (\<lambda>i. count_list ids i > 1) ids))
     in if [] \<in> set ids
        then Inl (InvalidResponse ''DecisionRequest candidate IDs must be non-empty strings'' ctx)
        else if duplicates \<noteq> []
        then Inl (InvalidResponse (''DecisionRequest candidate IDs are ambiguous: '' @ repr_strs duplicates)
               (ctx @ [(''duplicate_candidate_ids'', PList (map PStr duplicates))]))
        else case request_signature r of
          Inl _ \<Rightarrow> Inl (InvalidResponse ''DecisionRequest identity contains non-primitive data'' ctx)
        | Inr _ \<Rightarrow> Inr ())"

text \<open>
  What may go wrong in \<open>to_canonical_data(response.payload)\<close>: the keys of each dictionary are sorted, and
  keys of different classes, or of a class without an order, cannot be compared. The message names the
  first key that cannot be inserted among those before it (for fewer than 64 keys, where \<open>sorted\<close>
  inserts one key after the other). The values are converted in the order of the sorted keys.
\<close>

fun key_class :: "payload_key \<Rightarrow> string" where
  "key_class (Str_Key s) = ''str''"
| "key_class (Int_Key i) = ''int''"
| "key_class (Other_Key c) = c"

fun comparable :: "payload_key \<Rightarrow> payload_key \<Rightarrow> bool" where
  "comparable (Str_Key s) (Str_Key t) = True"
| "comparable (Int_Key i) (Int_Key j) = True"
| "comparable k l = False"

definition sort_keys :: "payload_key list \<Rightarrow> py_error + unit" where
  "sort_keys ks =
    (case ks of
       [] \<Rightarrow> Inr ()
     | k # rest \<Rightarrow>
         (case find (\<lambda>l. \<not> comparable l k) rest of
            None \<Rightarrow> Inr ()
          | Some l \<Rightarrow> Inl (TypeError (repr_str ''<'' @ '' not supported between instances of '' @
              repr_str (key_class l) @ '' and '' @ repr_str (key_class k)))))"

fun key_string :: "payload_key \<Rightarrow> string" where
  "key_string (Str_Key s) = s"
| "key_string k = []"

fun key_number :: "payload_key \<Rightarrow> int" where
  "key_number (Int_Key i) = i"
| "key_number k = 0"

primrec canonicalize_payload :: "payload_value \<Rightarrow> py_error + unit" where
  "canonicalize_payload (Plain v) = Inr ()"
| "canonicalize_payload (Items ps) = sbind (sseq (map canonicalize_payload ps)) (\<lambda>_. Inr ())"
| "canonicalize_payload (Fields d) =
     sbind (sort_keys (map fst d)) (\<lambda>_.
     sbind (sseq (map snd (sort_key (key_string \<circ> fst) (sort_key (key_number \<circ> fst)
       (map (map_prod id canonicalize_payload) d))))) (\<lambda>_. Inr ()))"

definition error_text :: "py_error \<Rightarrow> string" where
  "error_text e = (case e of TypeError m \<Rightarrow> m | ValueError m \<Rightarrow> m | _ \<Rightarrow> [])"

definition validate_decision_response :: "decision_request \<Rightarrow> decision_response \<Rightarrow> py_error + unit" where
  "validate_decision_response request response =
    sbind (validate_decision_request request) (\<lambda>_.
    sbind (request_to_dict request) (\<lambda>request_dict.
    sbind (request_signature request) (\<lambda>signature.
      let ctx = [(''request'', PDict request_dict), (''response'', PDict (response_to_dict response))];
          candidate_ids = map candidate_id (candidates request);
          selected = selected_candidate_ids response;
          unknown = sort (filter (\<lambda>i. i \<notin> set candidate_ids) selected);
          k = req_constraints request
      in if resp_request_id response \<noteq> request_id request
         then Inl (InvalidResponse ''response.request_id does not match request.request_id'' ctx)
         else if resp_request_signature response \<noteq> signature
         then Inl (InvalidResponse ''response.request_signature does not match request.request_signature'' ctx)
         else if unknown \<noteq> []
         then Inl (InvalidResponse (''response selected unknown candidates: '' @ repr_strs unknown) ctx)
         else if int (length selected) < min_selections k
         then Inl (InvalidResponse ''response selected fewer candidates than constraints.min_selections'' ctx)
         else if int (length selected) > max_selections k
         then Inl (InvalidResponse ''response selected more candidates than constraints.max_selections'' ctx)
         else if \<not> allow_duplicates k \<and> \<not> distinct selected
         then Inl (InvalidResponse ''response selected duplicate candidates'' ctx)
         else case canonicalize_payload (Fields (resp_payload response)) of
           Inl e \<Rightarrow> Inl (InvalidResponse (error_text e) ctx)
         | Inr _ \<Rightarrow> Inr ())))"

section \<open>When a request is valid\<close>

definition candidate_safe :: "candidate \<Rightarrow> bool" where
  "candidate_safe c \<longleftrightarrow> json_safe (opt_dict (c_card_ref c)) \<and> json_safe (opt_dict (c_effect_ref c))
     \<and> dict_safe (c_payload c)"

definition context_safe :: "decision_context \<Rightarrow> bool" where
  "context_safe x \<longleftrightarrow> list_all dict_safe (chain_entries x) \<and> dict_safe (extra x)
     \<and> dict_safe (version_metadata x) \<and> dict_safe (visible_board x)"

definition request_valid :: "decision_request \<Rightarrow> bool" where
  "request_valid r \<longleftrightarrow>
     list_all (\<lambda>c. candidate_id c \<noteq> []) (candidates r) \<and>
     distinct (map candidate_id (candidates r)) \<and>
     list_all candidate_safe (candidates r) \<and> context_safe (req_context r)"

lemma opt_dict_safe [simp]:
  "json_safe (opt_dict None)" "json_safe (opt_dict (Some d)) = dict_safe d"
  by (simp_all add: opt_dict_def)

lemma opt_int_safe [simp]: "json_safe (opt_int i)"
  by (simp add: opt_int_def split: option.splits)

lemma opt_str_safe [simp]: "json_safe (opt_str s)"
  by (simp add: opt_str_def split: option.splits)

lemma signature_dict_safe:
  "dict_safe (to_signature_dict r) \<longleftrightarrow>
    list_all candidate_safe (candidates r) \<and> context_safe (req_context r)"
proof -
  have "dict_safe (candidate_identity_dict c) = candidate_safe c" for c
    by (auto simp: candidate_identity_dict_def candidate_safe_def)
  moreover have "dict_safe (constraints_to_dict k)" for k
    by (simp add: constraints_to_dict_def)
  moreover have "dict_safe (context_to_dict x) = context_safe x" for x
    by (auto simp: context_to_dict_def context_safe_def list_all_iff)
  ultimately show ?thesis
    by (simp add: to_signature_dict_def list_all_iff o_def)
qed

lemma request_signature_total:
  "(\<exists>s. request_signature r = Inr s) \<longleftrightarrow>
    list_all candidate_safe (candidates r) \<and> context_safe (req_context r)"
  using stable_digest_total [of "PDict (to_signature_dict r)" "''req_''"]
  by (simp add: request_signature_def signature_dict_safe)

lemma no_duplicates_iff: "filter (\<lambda>i. count_list ids i > 1) ids = [] \<longleftrightarrow> distinct ids"
proof -
  have "distinct ids \<longleftrightarrow> (\<forall>i \<in> set ids. count_list ids i = 1)"
    by (metis count_list_0_iff count_mset distinct_count_atmost_1 set_mset_mset)
  moreover have "i \<in> set ids \<Longrightarrow> count_list ids i = 1 \<longleftrightarrow> \<not> count_list ids i > 1" for i
    by (metis count_list_0_iff less_one linorder_neqE_nat nat_less_le)
  ultimately show ?thesis by (auto simp: filter_empty_conv)
qed

lemma validate_request_iff: "validate_decision_request r = Inr u \<longleftrightarrow> request_valid r"
proof -
  have "sort (remdups (filter (\<lambda>i. count_list ids i > 1) ids)) = [] \<longleftrightarrow> distinct ids" for ids :: "string list"
    using no_duplicates_iff [of ids] by (metis remdups_eq_nil_iff set_empty set_sort)
  note dups = this
  have empty: "[] \<in> set (map candidate_id cs) \<longleftrightarrow> \<not> list_all (\<lambda>c. candidate_id c \<noteq> []) cs" for cs
    by (induction cs) auto
  show ?thesis
  proof (cases "request_signature r")
    case (Inl e)
    then have "\<not> (list_all candidate_safe (candidates r) \<and> context_safe (req_context r))"
      using request_signature_total [of r] by auto
    then show ?thesis
      unfolding validate_decision_request_def Let_def request_valid_def dups empty Inl by auto
  next
    case (Inr s)
    then have "list_all candidate_safe (candidates r) \<and> context_safe (req_context r)"
      using request_signature_total [of r] by auto
    then show ?thesis
      unfolding validate_decision_request_def Let_def request_valid_def dups empty Inr by auto
  qed
qed

lemma request_to_dict_eq:
  "request_signature r = Inr s \<Longrightarrow> \<exists>d. request_to_dict r = Inr d"
  by (simp add: request_to_dict_def Let_def)

text \<open>
  A payload can be canonicalized when in each of its dictionaries with more than one entry the keys are
  all strings or all numbers.
\<close>

definition uniform_keys :: "payload_key list \<Rightarrow> bool" where
  "uniform_keys ks \<longleftrightarrow> length ks \<le> 1 \<or> (\<forall>k \<in> set ks. \<exists>s. k = Str_Key s) \<or> (\<forall>k \<in> set ks. \<exists>i. k = Int_Key i)"

primrec payload_ordered :: "payload_value \<Rightarrow> bool" where
  "payload_ordered (Plain v) = True"
| "payload_ordered (Items ps) = list_all id (map payload_ordered ps)"
| "payload_ordered (Fields d) = (uniform_keys (map fst d) \<and> list_all snd (map (map_prod id payload_ordered) d))"

lemma sort_keys_Inr: "sort_keys ks = Inr () \<longleftrightarrow> uniform_keys ks"
proof (cases ks)
  case (Cons k rest)
  have "sort_keys ks = Inr () \<longleftrightarrow> list_all (\<lambda>l. comparable l k) rest"
    by (auto simp: sort_keys_def Cons find_None_iff find_Some_iff list_all_iff split: option.split)
  also have "\<dots> \<longleftrightarrow> uniform_keys ks"
  proof (cases "rest = []")
    case False
    then have two: "\<not> length ks \<le> 1" by (cases rest) (simp_all add: Cons)
    have "comparable l (Str_Key s) \<longleftrightarrow> (\<exists>t. l = Str_Key t)" "comparable l (Int_Key i) \<longleftrightarrow> (\<exists>j. l = Int_Key j)"
      "\<not> comparable l (Other_Key c)" for l s i c
      by (cases l; simp)+
    with two show ?thesis using False by (cases k) (auto simp: uniform_keys_def Cons list_all_iff)
  qed (simp add: uniform_keys_def Cons)
  finally show ?thesis .
qed (simp add: sort_keys_def uniform_keys_def)

lemma sseq_units: "(\<exists>us. sseq ms = Inr us) \<longleftrightarrow> list_all (\<lambda>m. m = Inr ()) ms" for ms :: "(py_error + unit) list"
  by (induction ms) (auto simp: sbind_eq_Inr)

lemma canonicalize_payload_Inr: "canonicalize_payload p = Inr () \<longleftrightarrow> payload_ordered p"
proof (induction p)
  case (Items ps)
  have "canonicalize_payload (Items ps) = Inr () \<longleftrightarrow> (\<exists>us. sseq (map canonicalize_payload ps) = Inr us)"
    by (auto simp: sbind_eq_Inr)
  then show ?case unfolding sseq_units using Items by (auto simp: list_all_iff)
next
  case (Fields d)
  let ?vs = "map snd (sort_key (key_string \<circ> fst) (sort_key (key_number \<circ> fst) (map (map_prod id canonicalize_payload) d)))"
  have set: "set ?vs = (\<lambda>e. canonicalize_payload (snd e)) ` set d" by (simp add: image_image case_prod_beta)
  have "canonicalize_payload (Fields d) = Inr () \<longleftrightarrow> uniform_keys (map fst d) \<and> (\<exists>us. sseq ?vs = Inr us)"
    by (auto simp: sbind_eq_Inr sort_keys_Inr)
  also have "(\<exists>us. sseq ?vs = Inr us) \<longleftrightarrow> list_all (\<lambda>e. payload_ordered (snd e)) d"
    unfolding sseq_units list_all_iff set using Fields by (force simp: snds.simps)
  also have "uniform_keys (map fst d) \<and> list_all (\<lambda>e. payload_ordered (snd e)) d \<longleftrightarrow> payload_ordered (Fields d)"
    by (simp add: list_all_iff)
  finally show ?case .
qed simp

text \<open>What a valid response is, as a single condition.\<close>

definition response_valid :: "decision_request \<Rightarrow> decision_response \<Rightarrow> bool" where
  "response_valid r p \<longleftrightarrow> request_valid r
     \<and> resp_request_id p = request_id r
     \<and> request_signature r = Inr (resp_request_signature p)
     \<and> list_all (\<lambda>i. i \<in> set (map candidate_id (candidates r))) (selected_candidate_ids p)
     \<and> min_selections (req_constraints r) \<le> int (length (selected_candidate_ids p))
     \<and> int (length (selected_candidate_ids p)) \<le> max_selections (req_constraints r)
     \<and> (if allow_duplicates (req_constraints r) then True else distinct (selected_candidate_ids p))
     \<and> payload_ordered (Fields (resp_payload p))"

lemma validate_response_iff: "validate_decision_response r p = Inr u \<longleftrightarrow> response_valid r p"
proof (cases "request_valid r")
  case True
  then have v: "validate_decision_request r = Inr ()" by (simp add: validate_request_iff)
  from True obtain s where s: "request_signature r = Inr s"
    using request_signature_total [of r] by (auto simp: request_valid_def)
  then obtain d where d: "request_to_dict r = Inr d" using request_to_dict_eq by blast
  have payload: "(case canonicalize_payload v of Inl e \<Rightarrow> Inl (f e) | Inr w \<Rightarrow> Inr ()) = Inr u \<longleftrightarrow> payload_ordered v"
    for v and f :: "py_error \<Rightarrow> py_error"
    using canonicalize_payload_Inr [of v] by (cases "canonicalize_payload v") auto
  have unknown: "sort (filter (\<lambda>i. i \<notin> S) xs) = [] \<longleftrightarrow> list_all (\<lambda>i. i \<in> S) xs"
    for S and xs :: "string list"
    by (induction xs) (auto simp: filter_sort [symmetric])
  show ?thesis
    unfolding validate_decision_response_def response_valid_def Let_def v d s sbind_Inr unknown
    using True payload [where v = "Fields (resp_payload p)"] by auto
next
  case False
  then have "validate_decision_request r \<noteq> Inr x" for x by (simp add: validate_request_iff)
  with False show ?thesis
    by (auto simp: validate_decision_response_def response_valid_def monad_simps)
qed

end
