(* ===== verification/Action_Model.thy ===== *)
theory Action_Model
  imports Decision
begin

text \<open>
  \<open>engine/action/models.py\<close>: an action is the answer to one decision request, a kind and the
  selections of candidates, identified by the digest of its content. The fields are typed as the
  dataclasses annotate them; \<open>order\<close> and \<open>value\<close> of a selection, which the encoder tests at run
  time, are dynamic values.
\<close>

datatype action_kind =
    ACTIVATE_EFFECT
  | ATTACK
  | SELECT_CARD
  | SELECT_OPTION
  | NORMAL_SUMMON
  | SPECIAL_SUMMON
  | PASS
  | DECLINE
  | STOP_LINE
  | END_TURN
  | CHANGE_POSITION
  | SET_MONSTER
  | SET_SPELL_TRAP
  | ENTER_BATTLE_PHASE
  | ENTER_MAIN_PHASE_2
  | SHUFFLE_HAND
  | SELECT_ZONE
  | SELECT_POSITION
  | SELECT_TRIBUTE
  | DISTRIBUTE_COUNTERS
  | SELECT_SUM
  | FINISH_SELECTION
  | ORDER_CARDS
  | ANNOUNCE_RACE
  | ANNOUNCE_ATTRIBUTE
  | ANNOUNCE_CARD
  | ANNOUNCE_NUMBER
  | ROCK_PAPER_SCISSORS

fun action_kind_value :: "action_kind \<Rightarrow> string" where
  "action_kind_value ACTIVATE_EFFECT = ''ACTIVATE_EFFECT''"
| "action_kind_value ATTACK = ''ATTACK''"
| "action_kind_value SELECT_CARD = ''SELECT_CARD''"
| "action_kind_value SELECT_OPTION = ''SELECT_OPTION''"
| "action_kind_value NORMAL_SUMMON = ''NORMAL_SUMMON''"
| "action_kind_value SPECIAL_SUMMON = ''SPECIAL_SUMMON''"
| "action_kind_value PASS = ''PASS''"
| "action_kind_value DECLINE = ''DECLINE''"
| "action_kind_value STOP_LINE = ''STOP_LINE''"
| "action_kind_value END_TURN = ''END_TURN''"
| "action_kind_value CHANGE_POSITION = ''CHANGE_POSITION''"
| "action_kind_value SET_MONSTER = ''SET_MONSTER''"
| "action_kind_value SET_SPELL_TRAP = ''SET_SPELL_TRAP''"
| "action_kind_value ENTER_BATTLE_PHASE = ''ENTER_BATTLE_PHASE''"
| "action_kind_value ENTER_MAIN_PHASE_2 = ''ENTER_MAIN_PHASE_2''"
| "action_kind_value SHUFFLE_HAND = ''SHUFFLE_HAND''"
| "action_kind_value SELECT_ZONE = ''SELECT_ZONE''"
| "action_kind_value SELECT_POSITION = ''SELECT_POSITION''"
| "action_kind_value SELECT_TRIBUTE = ''SELECT_TRIBUTE''"
| "action_kind_value DISTRIBUTE_COUNTERS = ''DISTRIBUTE_COUNTERS''"
| "action_kind_value SELECT_SUM = ''SELECT_SUM''"
| "action_kind_value FINISH_SELECTION = ''FINISH_SELECTION''"
| "action_kind_value ORDER_CARDS = ''ORDER_CARDS''"
| "action_kind_value ANNOUNCE_RACE = ''ANNOUNCE_RACE''"
| "action_kind_value ANNOUNCE_ATTRIBUTE = ''ANNOUNCE_ATTRIBUTE''"
| "action_kind_value ANNOUNCE_CARD = ''ANNOUNCE_CARD''"
| "action_kind_value ANNOUNCE_NUMBER = ''ANNOUNCE_NUMBER''"
| "action_kind_value ROCK_PAPER_SCISSORS = ''ROCK_PAPER_SCISSORS''"

definition all_action_kinds :: "action_kind list" where
  "all_action_kinds =
    [ACTIVATE_EFFECT, ATTACK, SELECT_CARD, SELECT_OPTION, NORMAL_SUMMON, SPECIAL_SUMMON, PASS, DECLINE, STOP_LINE, END_TURN, CHANGE_POSITION, SET_MONSTER,
      SET_SPELL_TRAP, ENTER_BATTLE_PHASE, ENTER_MAIN_PHASE_2, SHUFFLE_HAND, SELECT_ZONE, SELECT_POSITION, SELECT_TRIBUTE, DISTRIBUTE_COUNTERS, SELECT_SUM,
      FINISH_SELECTION, ORDER_CARDS, ANNOUNCE_RACE, ANNOUNCE_ATTRIBUTE, ANNOUNCE_CARD, ANNOUNCE_NUMBER, ROCK_PAPER_SCISSORS]"

text \<open>\<open>ActionKind(value)\<close>, the enum's lookup by value.\<close>

definition action_kind_of :: "string \<Rightarrow> py_error + action_kind" where
  "action_kind_of v =
    (case find (\<lambda>k. action_kind_value k = v) all_action_kinds of
       None \<Rightarrow> Inl (ValueError (repr_str v @ '' is not a valid ActionKind''))
     | Some k \<Rightarrow> Inr k)"

lemma action_kind_of_value [simp]: "action_kind_of (action_kind_value k) = Inr k"
  by (cases k) (simp_all add: action_kind_of_def all_action_kinds_def)

lemma action_kind_value_inject [simp]: "action_kind_value k = action_kind_value k' \<longleftrightarrow> k = k'"
  by (metis action_kind_of_value sum.inject(2))

record card_ref =
  controller :: int
  owner :: int
  location :: string
  sequence :: int
  public_card_id :: "int option"
  instance_id :: "string option"

record effect_ref =
  e_card_ref :: card_ref
  effect_index :: int
  effect_label :: string
  once_per_turn_key :: "string option"

record selection =
  s_candidate_id :: string
  order :: pyval
  s_card_ref :: "card_ref option"
  s_effect_ref :: "effect_ref option"
  s_value :: pyval
  payload_ref :: "string option"

record action =
  a_kind :: action_kind
  a_player :: int
  selections :: "selection list"
  a_request_signature :: string
  source :: "card_ref option"
  a_effect_ref :: "effect_ref option"
  action_id :: string

definition ACTION_SCHEMA_VERSION :: string where
  "ACTION_SCHEMA_VERSION = ''0.3a''"

definition card_ref_to_dict :: "card_ref \<Rightarrow> pydict" where
  "card_ref_to_dict c =
    [(''controller'', PInt (controller c)),
     (''instance_id'', opt_str (instance_id c)),
     (''location'', PStr (location c)),
     (''owner'', PInt (owner c)),
     (''public_card_id'', opt_int (public_card_id c)),
     (''sequence'', PInt (sequence c))]"

definition effect_ref_identity_dict :: "effect_ref \<Rightarrow> pydict" where
  "effect_ref_identity_dict e =
    [(''card_ref'', PDict (card_ref_to_dict (e_card_ref e))),
     (''effect_index'', PInt (effect_index e)),
     (''once_per_turn_key'', opt_str (once_per_turn_key e))]"

definition effect_ref_to_dict :: "effect_ref \<Rightarrow> pydict" where
  "effect_ref_to_dict e = dict_set ''effect_label'' (PStr (effect_label e)) (effect_ref_identity_dict e)"

definition selection_identity_dict :: "selection \<Rightarrow> pydict" where
  "selection_identity_dict s =
    [(''candidate_id'', PStr (s_candidate_id s)),
     (''card_ref'', opt_dict (map_option card_ref_to_dict (s_card_ref s))),
     (''effect_ref'', opt_dict (map_option effect_ref_identity_dict (s_effect_ref s))),
     (''order'', order s),
     (''payload_ref'', opt_str (payload_ref s)),
     (''value'', s_value s)]"

definition selection_to_dict :: "selection \<Rightarrow> pydict" where
  "selection_to_dict s =
    dict_set ''effect_ref'' (opt_dict (map_option effect_ref_to_dict (s_effect_ref s)))
      (selection_identity_dict s)"

definition action_identity_dict :: "action \<Rightarrow> pydict" where
  "action_identity_dict a =
    [(''effect_ref'', opt_dict (map_option effect_ref_identity_dict (a_effect_ref a))),
     (''kind'', PStr (action_kind_value (a_kind a))),
     (''player'', PInt (a_player a)),
     (''request_signature'', PStr (a_request_signature a)),
     (''schema_version'', PStr ACTION_SCHEMA_VERSION),
     (''selections'', PList (map (PDict \<circ> selection_identity_dict) (selections a))),
     (''source'', opt_dict (map_option card_ref_to_dict (source a)))]"

definition action_to_dict :: "action \<Rightarrow> pydict" where
  "action_to_dict a =
    (let d = dict_set ''effect_ref'' (opt_dict (map_option effect_ref_to_dict (a_effect_ref a)))
               (action_identity_dict a);
         d = dict_set ''selections'' (PList (map (PDict \<circ> selection_to_dict) (selections a))) d
     in dict_set ''action_id'' (PStr (action_id a)) d)"

definition build_action_id :: "action \<Rightarrow> py_error + string" where
  "build_action_id a = stable_digest (PDict (action_identity_dict a)) ''act_''"

text \<open>The constructor: \<open>__post_init__\<close> fills in a missing \<open>action_id\<close>.\<close>

definition make_action :: "action \<Rightarrow> py_error + action" where
  "make_action a =
    (if action_id a = [] then sbind (build_action_id a) (\<lambda>i. Inr (a\<lparr>action_id := i\<rparr>)) else Inr a)"

lemma action_identity_ignores_id: "action_identity_dict (a\<lparr>action_id := i\<rparr>) = action_identity_dict a"
  by (simp add: action_identity_dict_def)

lemma dict_safe_card_ref [simp]: "dict_safe (card_ref_to_dict c)"
  by (simp add: card_ref_to_dict_def)

lemma dict_safe_effect_ref [simp]: "dict_safe (effect_ref_identity_dict e)"
  by (simp add: effect_ref_identity_dict_def)

lemma opt_card_ref_safe [simp]: "json_safe (opt_dict (map_option card_ref_to_dict c))"
  by (cases c) simp_all

lemma opt_effect_ref_safe [simp]: "json_safe (opt_dict (map_option effect_ref_identity_dict e))"
  by (cases e) simp_all

lemma action_identity_safe:
  "dict_safe (action_identity_dict a) \<longleftrightarrow>
    list_all (\<lambda>s. json_safe (order s) \<and> json_safe (s_value s)) (selections a)"
  by (auto simp: action_identity_dict_def selection_identity_dict_def list_all_iff)

lemma make_action_total:
  assumes "list_all (\<lambda>s. json_safe (order s) \<and> json_safe (s_value s)) (selections a)"
  obtains a' where "make_action a = Inr a'" and "action_id a' \<noteq> []"
    and "action_identity_dict a' = action_identity_dict a"
proof (cases "action_id a = []")
  case True
  from assms obtain i where i: "build_action_id a = Inr i"
    using stable_digest_total [of "PDict (action_identity_dict a)" "''act_''"]
    by (auto simp: build_action_id_def action_identity_safe)
  then have "i \<noteq> []"
    by (auto simp: build_action_id_def elim: stable_digest_shape)
  with True i that [of "a\<lparr>action_id := i\<rparr>"] show ?thesis
    by (simp add: make_action_def action_identity_ignores_id)
next
  case False
  with that [of a] show ?thesis by (simp add: make_action_def)
qed

end
