(* ===== verification/Message_Types.thy ===== *)
theory Message_Types
  imports Bridge_Reader Action_Model
begin

text \<open>
  \<open>protocol.py\<close>, the registry of core messages: the selection messages (\<open>MessageType\<close>), the
  messages that may pass without a decoder, and the ones that stop the batch.
\<close>

datatype message_type =
    MSG_SELECT_BATTLE_COMMAND
  | MSG_SELECT_IDLE_COMMAND
  | MSG_SELECT_EFFECT_YES_NO
  | MSG_SELECT_YES_NO
  | MSG_SELECT_OPTION
  | MSG_SELECT_CARD
  | MSG_SELECT_CHAIN
  | MSG_SELECT_PLACE
  | MSG_SELECT_POSITION
  | MSG_SELECT_TRIBUTE
  | MSG_SORT_CHAIN
  | MSG_SELECT_COUNTER
  | MSG_SELECT_SUM
  | MSG_SELECT_DISABLED_FIELD
  | MSG_SORT_CARD
  | MSG_SELECT_UNSELECT_CARD
  | MSG_ROCK_PAPER_SCISSORS
  | MSG_ANNOUNCE_RACE
  | MSG_ANNOUNCE_ATTRIBUTE
  | MSG_ANNOUNCE_CARD
  | MSG_ANNOUNCE_NUMBER

fun message_type_value :: "message_type \<Rightarrow> int" where
  "message_type_value MSG_SELECT_BATTLE_COMMAND = 10"
| "message_type_value MSG_SELECT_IDLE_COMMAND = 11"
| "message_type_value MSG_SELECT_EFFECT_YES_NO = 12"
| "message_type_value MSG_SELECT_YES_NO = 13"
| "message_type_value MSG_SELECT_OPTION = 14"
| "message_type_value MSG_SELECT_CARD = 15"
| "message_type_value MSG_SELECT_CHAIN = 16"
| "message_type_value MSG_SELECT_PLACE = 18"
| "message_type_value MSG_SELECT_POSITION = 19"
| "message_type_value MSG_SELECT_TRIBUTE = 20"
| "message_type_value MSG_SORT_CHAIN = 21"
| "message_type_value MSG_SELECT_COUNTER = 22"
| "message_type_value MSG_SELECT_SUM = 23"
| "message_type_value MSG_SELECT_DISABLED_FIELD = 24"
| "message_type_value MSG_SORT_CARD = 25"
| "message_type_value MSG_SELECT_UNSELECT_CARD = 26"
| "message_type_value MSG_ROCK_PAPER_SCISSORS = 132"
| "message_type_value MSG_ANNOUNCE_RACE = 140"
| "message_type_value MSG_ANNOUNCE_ATTRIBUTE = 141"
| "message_type_value MSG_ANNOUNCE_CARD = 142"
| "message_type_value MSG_ANNOUNCE_NUMBER = 143"

text \<open>\<open>message_type.name.lower()\<close>.\<close>

fun message_type_name :: "message_type \<Rightarrow> string" where
  "message_type_name MSG_SELECT_BATTLE_COMMAND = ''select_battle_command''"
| "message_type_name MSG_SELECT_IDLE_COMMAND = ''select_idle_command''"
| "message_type_name MSG_SELECT_EFFECT_YES_NO = ''select_effect_yes_no''"
| "message_type_name MSG_SELECT_YES_NO = ''select_yes_no''"
| "message_type_name MSG_SELECT_OPTION = ''select_option''"
| "message_type_name MSG_SELECT_CARD = ''select_card''"
| "message_type_name MSG_SELECT_CHAIN = ''select_chain''"
| "message_type_name MSG_SELECT_PLACE = ''select_place''"
| "message_type_name MSG_SELECT_POSITION = ''select_position''"
| "message_type_name MSG_SELECT_TRIBUTE = ''select_tribute''"
| "message_type_name MSG_SORT_CHAIN = ''sort_chain''"
| "message_type_name MSG_SELECT_COUNTER = ''select_counter''"
| "message_type_name MSG_SELECT_SUM = ''select_sum''"
| "message_type_name MSG_SELECT_DISABLED_FIELD = ''select_disabled_field''"
| "message_type_name MSG_SORT_CARD = ''sort_card''"
| "message_type_name MSG_SELECT_UNSELECT_CARD = ''select_unselect_card''"
| "message_type_name MSG_ROCK_PAPER_SCISSORS = ''rock_paper_scissors''"
| "message_type_name MSG_ANNOUNCE_RACE = ''announce_race''"
| "message_type_name MSG_ANNOUNCE_ATTRIBUTE = ''announce_attribute''"
| "message_type_name MSG_ANNOUNCE_CARD = ''announce_card''"
| "message_type_name MSG_ANNOUNCE_NUMBER = ''announce_number''"

definition all_message_types :: "message_type list" where
  "all_message_types =
    [MSG_SELECT_BATTLE_COMMAND, MSG_SELECT_IDLE_COMMAND, MSG_SELECT_EFFECT_YES_NO, MSG_SELECT_YES_NO,
     MSG_SELECT_OPTION, MSG_SELECT_CARD, MSG_SELECT_CHAIN, MSG_SELECT_PLACE,
     MSG_SELECT_POSITION, MSG_SELECT_TRIBUTE, MSG_SORT_CHAIN, MSG_SELECT_COUNTER,
     MSG_SELECT_SUM, MSG_SELECT_DISABLED_FIELD, MSG_SORT_CARD, MSG_SELECT_UNSELECT_CARD,
     MSG_ROCK_PAPER_SCISSORS, MSG_ANNOUNCE_RACE, MSG_ANNOUNCE_ATTRIBUTE, MSG_ANNOUNCE_CARD,
     MSG_ANNOUNCE_NUMBER]"

text \<open>\<open>MessageType(n)\<close>.\<close>

definition message_type_of :: "int \<Rightarrow> message_type option" where
  "message_type_of n = find (\<lambda>m. message_type_value m = n) all_message_types"

definition SELECTION_MESSAGE_TYPES :: "int list" where
  "SELECTION_MESSAGE_TYPES = map message_type_value all_message_types"

definition NON_DECISION_MESSAGE_TYPES :: "int list" where
  "NON_DECISION_MESSAGE_TYPES =
    [1, 2, 3, 4, 5, 6, 7, 8, 30, 31, 32, 33, 34, 35, 36, 37,
     38, 39, 40, 41, 42, 50, 53, 54, 55, 56, 60, 61, 62, 63, 64, 65,
     70, 71, 72, 73, 74, 75, 76, 80, 81, 83, 90, 91, 92, 93, 94, 95,
     96, 97, 100, 101, 102, 110, 111, 112, 113, 114, 120, 121, 122, 123, 130, 131,
     133, 160, 161, 163, 164, 165, 170, 180, 190]"

definition UNSUPPORTED_MESSAGE_TYPES :: "int list" where
  "UNSUPPORTED_MESSAGE_TYPES = [162]"

lemma message_type_of_value [simp]: "message_type_of (message_type_value m) = Some m"
  by (cases m) (simp_all add: message_type_of_def all_message_types_def)

lemma message_type_of_Some: "message_type_of n = Some m \<Longrightarrow> message_type_value m = n"
  by (auto simp: message_type_of_def find_Some_iff)

lemma all_message_types_complete: "m \<in> set all_message_types"
  by (cases m) (simp_all add: all_message_types_def)

lemma message_type_of_None: "message_type_of n = None \<longleftrightarrow> n \<notin> set SELECTION_MESSAGE_TYPES"
  by (auto simp: message_type_of_def find_None_iff SELECTION_MESSAGE_TYPES_def
      all_message_types_complete)

lemma message_classes_disjoint:
  "set SELECTION_MESSAGE_TYPES \<inter> set NON_DECISION_MESSAGE_TYPES = {}"
  "set SELECTION_MESSAGE_TYPES \<inter> set UNSUPPORTED_MESSAGE_TYPES = {}"
  "set NON_DECISION_MESSAGE_TYPES \<inter> set UNSUPPORTED_MESSAGE_TYPES = {}"
  by (simp_all add: SELECTION_MESSAGE_TYPES_def all_message_types_def
      NON_DECISION_MESSAGE_TYPES_def UNSUPPORTED_MESSAGE_TYPES_def)

section \<open>Versions and logs\<close>

definition PROTOCOL_VERSION :: string where
  "PROTOCOL_VERSION = ''ocgcore-api-11.0''"

definition MESSAGE_REGISTRY_VERSION :: string where
  "MESSAGE_REGISTRY_VERSION = ''ocgcore-api-11.0-message-registry-v1''"

definition RESPONSE_CODEC_VERSION :: string where
  "RESPONSE_CODEC_VERSION = ''ocgcore-api-11.0-response-v1''"

definition API_VERSION :: "int \<times> int" where
  "API_VERSION = (11, 0)"

definition MAX_RESPONSE_BYTES :: int where
  "MAX_RESPONSE_BYTES = 1024 * 1024"

datatype log_type = LOG_ERROR | LOG_FROM_SCRIPT | LOG_FOR_DEBUG | LOG_UNDEFINED

record core_log =
  log_sequence :: int
  log_kind :: log_type
  log_message :: string

text \<open>\<open>_diagnostic_value\<close>: a value reduced to what an error context may carry.\<close>

primrec diagnostic_value :: "pyval \<Rightarrow> pyval" where
  "diagnostic_value PNone = PNone"
| "diagnostic_value (PBool b) = PBool b"
| "diagnostic_value (PInt i) = PInt i"
| "diagnostic_value (PFloat t) = PFloat t"
| "diagnostic_value (PStr s) = PStr s"
| "diagnostic_value (PList xs) = PList (map diagnostic_value xs)"
| "diagnostic_value (PTuple xs) = PList (map diagnostic_value xs)"
| "diagnostic_value (PDict d) = PDict (sort_key fst (map (map_prod id diagnostic_value) d))"
| "diagnostic_value (POpaque t) = PDict [(''unsupported_type'', PStr t)]"

lemma diagnostic_value_safe: "json_safe (diagnostic_value v)"
proof (induction v)
  case (PDict d)
  have "json_safe (snd (map_prod id diagnostic_value kv))" if "kv \<in> set d" for kv
    using PDict [of kv "snd kv"] that by (cases kv) (simp add: snds.simps)
  then show ?case by (auto simp: dict_safe_def list_all_iff)
qed (auto simp: list_all_iff)

end
