(* ===== verification/Decoders.thy ===== *)
theory Decoders
  imports Message_Types
begin

text \<open>
  \<open>protocol.py\<close>, class \<open>OcgcoreMessageDecoder\<close>: one decoder per selection message. Each reads
  the payload field by field in the order of the source, raises where the source raises, and
  builds the request with one candidate per core-derived choice.
\<close>

unbundle bit_operations_syntax

section \<open>Shared pieces\<close>

definition request_context :: "decision_context \<Rightarrow> message_type \<Rightarrow> int \<Rightarrow> pydict \<Rightarrow> decision_context" where
  "request_context base mt pl entries =
    \<lparr>phase = phase base,
     chain_entries = chain_entries base,
     turn_player = turn_player base,
     priority_player = Some pl,
     visible_board = visible_board base,
     request_source = ''ocgcore'',
     version_metadata =
       dict_set ''ocgcore_protocol'' (PStr PROTOCOL_VERSION)
         (dict_set ''ocgcore_api'' (PStr ''11.0'') (version_metadata base)),
     extra =
       dict_update (extra base)
         ([(''message_type'', PInt (message_type_value mt)),
           (''message_name'', PStr (message_type_name mt))] @ entries)\<rparr>"

definition make_request ::
  "string \<Rightarrow> string \<Rightarrow> int \<Rightarrow> candidate list \<Rightarrow> decision_constraints \<Rightarrow> decision_context \<Rightarrow> decision_request"
where
  "make_request rid rtype pl cs k x =
    \<lparr>request_id = rid, request_type = rtype, player = pl, candidates = cs,
     req_constraints = k, req_context = x\<rparr>"

definition card_ref4 :: "int \<Rightarrow> int \<Rightarrow> int \<Rightarrow> int \<Rightarrow> pydict" where
  "card_ref4 ctl loc code seq =
    [(''controller'', PInt ctl), (''location'', PInt loc), (''public_card_id'', PInt code),
     (''sequence'', PInt seq)]"

definition card_ref5 :: "int \<Rightarrow> int \<Rightarrow> int \<Rightarrow> int \<Rightarrow> int \<Rightarrow> pydict" where
  "card_ref5 ctl loc pos code seq =
    [(''controller'', PInt ctl), (''location'', PInt loc), (''position'', PInt pos),
     (''public_card_id'', PInt code), (''sequence'', PInt seq)]"

definition int32_payload :: "string \<Rightarrow> int \<Rightarrow> pydict" where
  "int32_payload kind v =
    [(''action_kind'', PStr kind), (''response_codec'', PStr ''int32''), (''response_value'', PInt v)]"

text \<open>A candidate that refers to no card: \<open>Candidate(candidate_id, kind, label, payload)\<close>.\<close>

definition plain_candidate :: "string \<Rightarrow> string \<Rightarrow> string \<Rightarrow> pydict \<Rightarrow> candidate" where
  "plain_candidate cid kind label pay =
    \<lparr>candidate_id = cid, c_kind = kind, c_label = label, c_card_ref = None, c_effect_ref = None,
     c_payload = pay\<rparr>"

definition card_candidate :: "string \<Rightarrow> string \<Rightarrow> int \<Rightarrow> pydict \<Rightarrow> pydict \<Rightarrow> candidate" where
  "card_candidate cid kind code ref pay =
    \<lparr>candidate_id = cid, c_kind = kind, c_label = str_int code, c_card_ref = Some ref,
     c_effect_ref = None, c_payload = pay\<rparr>"

definition effect_candidate :: "string \<Rightarrow> int \<Rightarrow> int \<Rightarrow> pydict \<Rightarrow> int \<Rightarrow> candidate" where
  "effect_candidate cid description client_mode ref v =
    \<lparr>candidate_id = cid, c_kind = ''effect'', c_label = str_int description, c_card_ref = Some ref,
     c_effect_ref = Some [(''client_mode'', PInt client_mode), (''description'', PInt description)],
     c_payload = int32_payload ''ACTIVATE_EFFECT'' v\<rparr>"

definition control_candidate :: "string \<Rightarrow> string \<Rightarrow> string \<Rightarrow> string \<Rightarrow> int \<Rightarrow> candidate" where
  "control_candidate name kind label akind v =
    plain_candidate (in_group ''control'' name) kind label (int32_payload akind v)"

definition indexed :: "string \<Rightarrow> nat \<Rightarrow> string" where
  "indexed g i = in_group g (str_nat i)"

text \<open>
  The record of an activatable effect, shared by the battle and the idle command, which differ in
  the response value of the \<open>i\<close>-th effect.
\<close>

definition read_activation :: "(nat \<Rightarrow> int) \<Rightarrow> nat \<Rightarrow> reader \<Rightarrow> py_error + candidate \<times> reader" where
  "read_activation v i r =
    sbind (u32 r (at ''activate'' i ''code'')) (\<lambda>(code, r).
    sbind (u8 r (at ''activate'' i ''controller'')) (\<lambda>(ctl, r).
    sbind (u8 r (at ''activate'' i ''location'')) (\<lambda>(loc, r).
    sbind (u32 r (at ''activate'' i ''sequence'')) (\<lambda>(seq, r).
    sbind (u64 r (at ''activate'' i ''description'')) (\<lambda>(description, r).
    sbind (u8 r (at ''activate'' i ''client_mode'')) (\<lambda>(client_mode, r).
    Inr (effect_candidate (indexed ''activate'' i) description client_mode
           (card_ref4 ctl loc code seq) (v i), r)))))))"

definition raise :: "string \<Rightarrow> py_error + 'a" where
  "raise m = Inl (InvalidMessage m)"

lemma if_raise_eq_Inr [monad_simps]: "(if c then raise m else k) = Inr y \<longleftrightarrow> \<not> c \<and> k = Inr y"
  by (simp add: raise_def)

section \<open>Battle command\<close>

definition read_attack :: "nat \<Rightarrow> reader \<Rightarrow> py_error + candidate \<times> reader" where
  "read_attack i r =
    sbind (u32 r (at ''attack'' i ''code'')) (\<lambda>(code, r).
    sbind (u8 r (at ''attack'' i ''controller'')) (\<lambda>(ctl, r).
    sbind (u8 r (at ''attack'' i ''location'')) (\<lambda>(loc, r).
    sbind (u8 r (at ''attack'' i ''sequence'')) (\<lambda>(seq, r).
    sbind (u8 r (at ''attack'' i ''direct_attackable'')) (\<lambda>(direct, r).
    if direct \<notin> {0, 1} then raise ''select_battle_command.direct_attackable must be 0 or 1''
    else Inr (card_candidate (indexed ''attack'' i) ''attack'' code (card_ref4 ctl loc code seq)
           [(''action_kind'', PStr ''ATTACK''), (''direct_attackable'', PBool (direct \<noteq> 0)),
            (''response_codec'', PStr ''int32''),
            (''response_value'', PInt (push_bit 16 (int i) OR 1))], r))))))"

definition decode_battle_command ::
  "message_frame \<Rightarrow> string \<Rightarrow> decision_context \<Rightarrow> py_error + decision_request"
where
  "decode_battle_command frame rid base =
    sbind (read_player (mk_reader (frame_payload frame) ''select_battle_command'')) (\<lambda>(pl, r).
    sbind (u32 r ''activate_count'') (\<lambda>(activate_count, r).
    sbind (read_many (read_activation (\<lambda>i. push_bit 16 (int i))) 0 (nat activate_count) r) (\<lambda>(activations, r).
    sbind (u32 r ''attack_count'') (\<lambda>(attack_count, r).
    sbind (read_many read_attack 0 (nat attack_count) r) (\<lambda>(attacks, r).
    sbind (u8 r ''to_main_phase_2'') (\<lambda>(to_main_phase_2, r).
    sbind (u8 r ''to_end_phase'') (\<lambda>(to_end_phase, r).
    sbind (finish r) (\<lambda>_.
    if to_main_phase_2 \<notin> {0, 1} \<or> to_end_phase \<notin> {0, 1}
    then raise ''select_battle_command phase flags must be 0 or 1''
    else let cs = activations @ attacks
           @ (if to_main_phase_2 \<noteq> 0
              then [control_candidate ''enter_main_phase_2'' ''phase'' ''Enter main phase 2'' ''ENTER_MAIN_PHASE_2'' 2]
              else [])
           @ (if to_end_phase \<noteq> 0
              then [control_candidate ''end_turn'' ''end_turn'' ''End turn'' ''END_TURN'' 3] else [])
      in if cs = [] then raise ''select_battle_command must expose at least one core-derived action''
         else Inr (make_request rid ''select_battle_command'' pl cs default_constraints
                (request_context base MSG_SELECT_BATTLE_COMMAND pl
                  [(''to_end_phase'', PBool (to_end_phase \<noteq> 0)),
                   (''to_main_phase_2'', PBool (to_main_phase_2 \<noteq> 0))]))))))))))"

section \<open>Effect yes/no\<close>

definition decode_effect_yes_no ::
  "message_frame \<Rightarrow> string \<Rightarrow> decision_context \<Rightarrow> py_error + decision_request"
where
  "decode_effect_yes_no frame rid base =
    sbind (read_player (mk_reader (frame_payload frame) ''select_effect_yes_no'')) (\<lambda>(pl, r).
    sbind (u32 r ''code'') (\<lambda>(code, r).
    sbind (u8 r ''controller'') (\<lambda>(ctl, r).
    sbind (u8 r ''location'') (\<lambda>(loc, r).
    sbind (u32 r ''sequence'') (\<lambda>(seq, r).
    sbind (u32 r ''position'') (\<lambda>(pos, r).
    sbind (u64 r ''description'') (\<lambda>(description, r).
    sbind (finish r) (\<lambda>_.
    let ref = card_ref5 ctl loc pos code seq;
        choice = (\<lambda>i kind label akind.
          \<lparr>candidate_id = in_group ''choice'' (str_nat i), c_kind = kind, c_label = label,
           c_card_ref = Some ref, c_effect_ref = Some [(''description'', PInt description)],
           c_payload = int32_payload akind (int i)\<rparr>)
    in Inr (make_request rid ''select_effect_yes_no'' pl
         [choice 0 ''decline'' ''No'' ''DECLINE'', choice 1 ''effect'' ''Yes'' ''ACTIVATE_EFFECT'']
         default_constraints
         (request_context base MSG_SELECT_EFFECT_YES_NO pl [(''description'', PInt description)]))))))))))"

section \<open>Sorting\<close>

definition read_sort_card :: "nat \<Rightarrow> reader \<Rightarrow> py_error + candidate \<times> reader" where
  "read_sort_card i r =
    sbind (u32 r (at ''cards'' i ''code'')) (\<lambda>(code, r).
    sbind (u8 r (at ''cards'' i ''controller'')) (\<lambda>(ctl, r).
    sbind (u32 r (at ''cards'' i ''location'')) (\<lambda>(loc, r).
    sbind (u32 r (at ''cards'' i ''sequence'')) (\<lambda>(seq, r).
    Inr (card_candidate (indexed ''card'' i) ''card'' code (card_ref4 ctl loc code seq)
           [(''action_kind'', PStr ''ORDER_CARDS''), (''response_codec'', PStr ''sort_order''),
            (''response_index'', PInt (int i))], r)))))"

text \<open>\<open>MessageType(frame.message_type)\<close> raises \<open>ValueError\<close> for a number without a member.\<close>

definition frame_message_type :: "message_frame \<Rightarrow> py_error + message_type" where
  "frame_message_type frame =
    (case message_type_of (frame_type frame) of
       None \<Rightarrow> Inl (ValueError (str_int (frame_type frame) @ '' is not a valid MessageType''))
     | Some m \<Rightarrow> Inr m)"

definition decode_sort ::
  "message_frame \<Rightarrow> string \<Rightarrow> decision_context \<Rightarrow> py_error + decision_request"
where
  "decode_sort frame rid base =
    sbind (frame_message_type frame) (\<lambda>mt.
    let rtype = (if mt = MSG_SORT_CHAIN then ''sort_chain'' else ''sort_card'') in
    sbind (read_player (mk_reader (frame_payload frame) rtype)) (\<lambda>(pl, r).
    sbind (u32 r ''count'') (\<lambda>(count, r).
    if count = 0 \<or> count > 0xFF then raise (rtype @ ''.count must be between 1 and 255'')
    else
    sbind (read_many read_sort_card 0 (nat count) r) (\<lambda>(cards, r).
    sbind (finish r) (\<lambda>_.
    let cs = cards @ [plain_candidate (in_group ''control'' ''keep_order'') ''finish'' ''Keep current order''
          [(''action_kind'', PStr ''FINISH_SELECTION''), (''response_codec'', PStr ''sort_order''),
           (''response_index'', PInt (-1))]]
    in Inr (make_request rid rtype pl cs
         \<lparr>min_selections = 1, max_selections = count, ordered = False, allow_duplicates = False,
          required = True\<rparr>
         (request_context base mt pl [(''count'', PInt count)])))))))"

section \<open>Rock, paper, scissors\<close>

definition decode_rock_paper_scissors ::
  "message_frame \<Rightarrow> string \<Rightarrow> decision_context \<Rightarrow> py_error + decision_request"
where
  "decode_rock_paper_scissors frame rid base =
    sbind (read_player (mk_reader (frame_payload frame) ''rock_paper_scissors'')) (\<lambda>(pl, r).
    sbind (finish r) (\<lambda>_.
    Inr (make_request rid ''rock_paper_scissors'' pl
      (map (\<lambda>(v, label). plain_candidate (indexed ''hand'' v) ''hand_sign'' label
             (int32_payload ''ROCK_PAPER_SCISSORS'' (int v)))
        [(1, ''Rock''), (2, ''Paper''), (3, ''Scissors'')])
      default_constraints
      (request_context base MSG_ROCK_PAPER_SCISSORS pl []))))"

section \<open>Announcements\<close>

text \<open>\<open>int.bit_count\<close> of a non-negative number.\<close>

fun popcount :: "nat \<Rightarrow> nat" where
  "popcount n = (if n = 0 then 0 else n mod 2 + popcount (n div 2))"

declare popcount.simps [simp del]

definition bit_candidate :: "bool \<Rightarrow> nat \<Rightarrow> candidate" where
  "bit_candidate is_race b =
    plain_candidate (indexed ''bit'' b) (if is_race then ''race'' else ''attribute'') (str_nat b)
      [(''action_kind'', PStr (if is_race then ''ANNOUNCE_RACE'' else ''ANNOUNCE_ATTRIBUTE'')),
       (''response_bit'', PInt (push_bit b 1)), (''response_codec'', PStr ''bit_mask'')]"

definition decode_announce_mask ::
  "message_frame \<Rightarrow> string \<Rightarrow> decision_context \<Rightarrow> py_error + decision_request"
where
  "decode_announce_mask frame rid base =
    sbind (frame_message_type frame) (\<lambda>mt.
    let is_race = (mt = MSG_ANNOUNCE_RACE);
        rtype = (if is_race then ''announce_race'' else ''announce_attribute'');
        width = (if is_race then 64 else 32) in
    sbind (read_player (mk_reader (frame_payload frame) rtype)) (\<lambda>(pl, r).
    sbind (u8 r ''count'') (\<lambda>(count, r).
    sbind (if is_race then u64 r ''available'' else u32 r ''available'') (\<lambda>(available, r).
    sbind (finish r) (\<lambda>_.
    if count = 0 \<or> int (popcount (nat available)) < count
    then raise (rtype @ '' requires enough available bits for count'')
    else Inr (make_request rid rtype pl
           (map (bit_candidate is_race) (filter (\<lambda>b. (available AND push_bit b 1) \<noteq> 0) [0..<width]))
           \<lparr>min_selections = count, max_selections = count, ordered = False,
            allow_duplicates = False, required = True\<rparr>
           (request_context base mt pl
             [(''available_mask'', PInt available), (''count'', PInt count),
              (''response_width'', PInt (int width))])))))))"

definition decode_announce_card ::
  "message_frame \<Rightarrow> string \<Rightarrow> decision_context \<Rightarrow> py_error + decision_request"
where
  "decode_announce_card frame rid base =
    sbind (read_player (mk_reader (frame_payload frame) ''announce_card'')) (\<lambda>(pl, r).
    sbind (u8 r ''opcode_count'') (\<lambda>(count, r).
    sbind (read_many (\<lambda>i r. u64 r (''opcodes['' @ str_nat i @ '']'')) 0 (nat count) r) (\<lambda>(opcodes, r).
    sbind (finish r) (\<lambda>_.
    Inr (make_request rid ''announce_card'' pl
      [plain_candidate (in_group ''input'' ''card_code'') ''card_code'' ''Card code''
         [(''action_kind'', PStr ''ANNOUNCE_CARD''), (''response_codec'', PStr ''selection_int32'')]]
      default_constraints
      (request_context base MSG_ANNOUNCE_CARD pl [(''opcodes'', PList (map PInt opcodes))]))))))"

definition read_number :: "nat \<Rightarrow> reader \<Rightarrow> py_error + candidate \<times> reader" where
  "read_number i r =
    sbind (u64 r (''numbers['' @ str_nat i @ '']'')) (\<lambda>(number, r).
    Inr (plain_candidate (indexed ''number'' i) ''number'' (str_int number)
          [(''action_kind'', PStr ''ANNOUNCE_NUMBER''), (''announced_number'', PInt number),
           (''response_codec'', PStr ''int32''), (''response_value'', PInt (int i))], r))"

definition decode_announce_number ::
  "message_frame \<Rightarrow> string \<Rightarrow> decision_context \<Rightarrow> py_error + decision_request"
where
  "decode_announce_number frame rid base =
    sbind (read_player (mk_reader (frame_payload frame) ''announce_number'')) (\<lambda>(pl, r).
    sbind (u8 r ''count'') (\<lambda>(count, r).
    if count = 0 then raise ''announce_number.count must be positive''
    else
    sbind (read_many read_number 0 (nat count) r) (\<lambda>(cs, r).
    sbind (finish r) (\<lambda>_.
    Inr (make_request rid ''announce_number'' pl cs default_constraints
      (request_context base MSG_ANNOUNCE_NUMBER pl []))))))"

section \<open>Yes/no\<close>

definition decode_yes_no ::
  "message_frame \<Rightarrow> string \<Rightarrow> decision_context \<Rightarrow> py_error + decision_request"
where
  "decode_yes_no frame rid base =
    sbind (read_player (mk_reader (frame_payload frame) ''select_yes_no'')) (\<lambda>(pl, r).
    sbind (u64 r ''description'') (\<lambda>(description, r).
    sbind (finish r) (\<lambda>_.
    let choice = (\<lambda>i label. plain_candidate (in_group ''choice'' (str_nat i)) ''option'' label
          [(''response_codec'', PStr ''int32''), (''response_value'', PInt (int i))])
    in Inr (make_request rid ''select_yes_no'' pl [choice 0 ''No'', choice 1 ''Yes''] default_constraints
         (request_context base MSG_SELECT_YES_NO pl [(''description'', PInt description)])))))"

section \<open>Idle command\<close>

definition read_idle_card ::
  "string \<Rightarrow> int \<Rightarrow> string \<Rightarrow> bool \<Rightarrow> nat \<Rightarrow> reader \<Rightarrow> py_error + candidate \<times> reader"
where
  "read_idle_card g command_type akind compact_sequence i r =
    sbind (u32 r (at g i ''code'')) (\<lambda>(code, r).
    sbind (u8 r (at g i ''controller'')) (\<lambda>(ctl, r).
    sbind (u8 r (at g i ''location'')) (\<lambda>(loc, r).
    sbind (if compact_sequence then u8 r (at g i ''sequence'') else u32 r (at g i ''sequence'')) (\<lambda>(seq, r).
    Inr (card_candidate (indexed g i) ''card'' code (card_ref4 ctl loc code seq)
           (int32_payload akind (push_bit 16 (int i) OR command_type)), r)))))"

fun read_idle_groups ::
  "(string \<times> int \<times> string \<times> bool) list \<Rightarrow> reader \<Rightarrow> py_error + candidate list \<times> reader"
where
  "read_idle_groups [] r = Inr ([], r)"
| "read_idle_groups ((g, command_type, akind, compact) # gs) r =
     sbind (u32 r (g @ ''_count'')) (\<lambda>(count, r).
     sbind (read_many (read_idle_card g command_type akind compact) 0 (nat count) r) (\<lambda>(cs, r).
     sbind (read_idle_groups gs r) (\<lambda>(ds, r). Inr (cs @ ds, r))))"

definition idle_groups :: "(string \<times> int \<times> string \<times> bool) list" where
  "idle_groups =
    [(''normal_summon'', 0, ''NORMAL_SUMMON'', False),
     (''special_summon'', 1, ''SPECIAL_SUMMON'', False),
     (''change_position'', 2, ''CHANGE_POSITION'', True),
     (''set_monster'', 3, ''SET_MONSTER'', False),
     (''set_spell_trap'', 4, ''SET_SPELL_TRAP'', False)]"

definition decode_idle_command ::
  "message_frame \<Rightarrow> string \<Rightarrow> decision_context \<Rightarrow> py_error + decision_request"
where
  "decode_idle_command frame rid base =
    sbind (read_player (mk_reader (frame_payload frame) ''select_idle_command'')) (\<lambda>(pl, r).
    sbind (read_idle_groups idle_groups r) (\<lambda>(cards, r).
    sbind (u32 r ''activate_count'') (\<lambda>(activate_count, r).
    sbind (read_many (read_activation (\<lambda>i. push_bit 16 (int i) OR 5)) 0 (nat activate_count) r) (\<lambda>(activations, r).
    sbind (u8 r ''to_battle_phase'') (\<lambda>(to_battle_phase, r).
    sbind (u8 r ''to_end_phase'') (\<lambda>(to_end_phase, r).
    sbind (u8 r ''can_shuffle'') (\<lambda>(can_shuffle, r).
    if to_battle_phase \<notin> {0, 1} then raise ''select_idle_command.to_battle_phase must be 0 or 1''
    else if to_end_phase \<notin> {0, 1} then raise ''select_idle_command.to_end_phase must be 0 or 1''
    else if can_shuffle \<notin> {0, 1} then raise ''select_idle_command.can_shuffle must be 0 or 1''
    else let cs = cards @ activations
           @ (if to_battle_phase \<noteq> 0
              then [control_candidate ''enter_battle_phase'' ''phase'' ''Enter battle phase'' ''ENTER_BATTLE_PHASE'' 6]
              else [])
           @ (if to_end_phase \<noteq> 0
              then [control_candidate ''end_turn'' ''end_turn'' ''End turn'' ''END_TURN'' 7] else [])
           @ (if can_shuffle \<noteq> 0
              then [control_candidate ''shuffle_hand'' ''command'' ''Shuffle hand'' ''SHUFFLE_HAND'' 8] else [])
    in sbind (finish r) (\<lambda>_.
       if cs = [] then raise ''select_idle_command must expose at least one core-derived action''
       else Inr (make_request rid ''select_idle_command'' pl cs default_constraints
              (request_context base MSG_SELECT_IDLE_COMMAND pl
                [(''can_shuffle'', PBool (can_shuffle \<noteq> 0)),
                 (''to_battle_phase'', PBool (to_battle_phase \<noteq> 0)),
                 (''to_end_phase'', PBool (to_end_phase \<noteq> 0))]))))))))))"

end
