(* ===== verification/Card_Decoders.thy ===== *)
theory Card_Decoders
  imports Decoders
begin

text \<open>
  \<open>protocol.py\<close>, class \<open>OcgcoreMessageDecoder\<close> continued: the decoders of card, option, zone,
  position and chain selections.
\<close>

unbundle bit_operations_syntax

section \<open>Option\<close>

definition read_option :: "nat \<Rightarrow> reader \<Rightarrow> py_error + candidate \<times> reader" where
  "read_option i r =
    sbind (u64 r (''options['' @ str_nat i @ '']'')) (\<lambda>(description, r).
    Inr (plain_candidate (indexed ''option'' i) ''option'' (str_int description)
          [(''option_description'', PInt description), (''response_codec'', PStr ''int32''),
           (''response_value'', PInt (int i))], r))"

definition decode_option ::
  "message_frame \<Rightarrow> string \<Rightarrow> decision_context \<Rightarrow> py_error + decision_request"
where
  "decode_option frame rid base =
    sbind (read_player (mk_reader (frame_payload frame) ''select_option'')) (\<lambda>(pl, r).
    sbind (u8 r ''count'') (\<lambda>(count, r).
    if count = 0 then raise ''select_option.count must be positive''
    else
    sbind (read_many read_option 0 (nat count) r) (\<lambda>(cs, r).
    sbind (finish r) (\<lambda>_.
    Inr (make_request rid ''select_option'' pl cs default_constraints
      (request_context base MSG_SELECT_OPTION pl []))))))"

section \<open>Card\<close>

text \<open>The code, controller, location, sequence and position of a listed card.\<close>

definition read_card5 ::
  "string \<Rightarrow> nat \<Rightarrow> reader \<Rightarrow> py_error + (int \<times> pydict) \<times> reader"
where
  "read_card5 g i r =
    sbind (u32 r (at g i ''code'')) (\<lambda>(code, r).
    sbind (u8 r (at g i ''controller'')) (\<lambda>(ctl, r).
    sbind (u8 r (at g i ''location'')) (\<lambda>(loc, r).
    sbind (u32 r (at g i ''sequence'')) (\<lambda>(seq, r).
    sbind (u32 r (at g i ''position'')) (\<lambda>(pos, r).
    Inr ((code, card_ref5 ctl loc pos code seq), r))))))"

definition read_select_card :: "nat \<Rightarrow> reader \<Rightarrow> py_error + candidate \<times> reader" where
  "read_select_card i r =
    sbind (read_card5 ''cards'' i r) (\<lambda>((code, ref), r).
    Inr (card_candidate (indexed ''card'' i) ''card'' code ref
           [(''response_codec'', PStr ''card_indices''), (''response_index'', PInt (int i))], r))"

definition decode_card ::
  "message_frame \<Rightarrow> string \<Rightarrow> decision_context \<Rightarrow> py_error + decision_request"
where
  "decode_card frame rid base =
    sbind (read_player (mk_reader (frame_payload frame) ''select_card'')) (\<lambda>(pl, r).
    sbind (u8 r ''cancelable'') (\<lambda>(raw_cancelable, r).
    if raw_cancelable \<notin> {0, 1} then raise ''select_card.cancelable must be 0 or 1''
    else let cancelable = (raw_cancelable \<noteq> 0) in
    sbind (u32 r ''min'') (\<lambda>(core_min, r).
    sbind (u32 r ''max'') (\<lambda>(core_max, r).
    sbind (u32 r ''count'') (\<lambda>(count, r).
    if count = 0 \<or> core_min > core_max \<or> core_max > count
    then raise ''select_card requires 0 <= min <= max <= candidate count and a non-empty list''
    else
    sbind (read_many read_select_card 0 (nat count) r) (\<lambda>(cs, r).
    sbind (finish r) (\<lambda>_.
    Inr (make_request rid ''select_card'' pl cs
      \<lparr>min_selections = (if cancelable then 0 else core_min), max_selections = core_max,
       ordered = False, allow_duplicates = False, required = (\<not> cancelable \<and> core_min > 0)\<rparr>
      (request_context base MSG_SELECT_CARD pl
        [(''cancelable'', PBool cancelable), (''core_max'', PInt core_max),
         (''core_min'', PInt core_min)])))))))))"

section \<open>Tribute\<close>

definition read_tribute_card :: "nat \<Rightarrow> reader \<Rightarrow> py_error + candidate \<times> reader" where
  "read_tribute_card i r =
    sbind (u32 r (at ''cards'' i ''code'')) (\<lambda>(code, r).
    sbind (u8 r (at ''cards'' i ''controller'')) (\<lambda>(ctl, r).
    sbind (u8 r (at ''cards'' i ''location'')) (\<lambda>(loc, r).
    sbind (u32 r (at ''cards'' i ''sequence'')) (\<lambda>(seq, r).
    sbind (u8 r (at ''cards'' i ''release_value'')) (\<lambda>(release_value, r).
    if release_value = 0 then raise ''select_tribute.release_value must be positive''
    else Inr (card_candidate (indexed ''card'' i) ''card'' code (card_ref4 ctl loc code seq)
           [(''action_kind'', PStr ''SELECT_TRIBUTE''), (''release_value'', PInt release_value),
            (''response_codec'', PStr ''card_indices''), (''response_index'', PInt (int i))], r))))))"

definition decode_tribute ::
  "message_frame \<Rightarrow> string \<Rightarrow> decision_context \<Rightarrow> py_error + decision_request"
where
  "decode_tribute frame rid base =
    sbind (read_player (mk_reader (frame_payload frame) ''select_tribute'')) (\<lambda>(pl, r).
    sbind (u8 r ''cancelable'') (\<lambda>(raw_cancelable, r).
    if raw_cancelable \<notin> {0, 1} then raise ''select_tribute.cancelable must be 0 or 1''
    else let cancelable = (raw_cancelable \<noteq> 0) in
    sbind (u32 r ''min'') (\<lambda>(core_min, r).
    sbind (u32 r ''max'') (\<lambda>(core_max, r).
    sbind (u32 r ''count'') (\<lambda>(count, r).
    if count = 0 \<or> core_min > core_max
    then raise ''select_tribute requires a non-empty list and min <= max''
    else
    sbind (read_many read_tribute_card 0 (nat count) r) (\<lambda>(cs, r).
    sbind (finish r) (\<lambda>_.
    Inr (make_request rid ''select_tribute'' pl cs
      \<lparr>min_selections = (if cancelable then 0 else 1), max_selections = min count core_max,
       ordered = False, allow_duplicates = False, required = (\<not> cancelable)\<rparr>
      (request_context base MSG_SELECT_TRIBUTE pl
        [(''cancelable'', PBool cancelable), (''core_max'', PInt core_max),
         (''core_min'', PInt core_min)])))))))))"

section \<open>Counter\<close>

text \<open>The candidate and its availability, which the decoder also adds up.\<close>

definition read_counter_card :: "nat \<Rightarrow> reader \<Rightarrow> py_error + (candidate \<times> int) \<times> reader" where
  "read_counter_card i r =
    sbind (u32 r (at ''cards'' i ''code'')) (\<lambda>(code, r).
    sbind (u8 r (at ''cards'' i ''controller'')) (\<lambda>(ctl, r).
    sbind (u8 r (at ''cards'' i ''location'')) (\<lambda>(loc, r).
    sbind (u8 r (at ''cards'' i ''sequence'')) (\<lambda>(seq, r).
    sbind (u16 r (at ''cards'' i ''available'')) (\<lambda>(available, r).
    if available = 0 then raise ''select_counter candidate availability must be positive''
    else Inr ((card_candidate (indexed ''card'' i) ''card_counter'' code (card_ref4 ctl loc code seq)
           [(''action_kind'', PStr ''DISTRIBUTE_COUNTERS''), (''available_count'', PInt available),
            (''response_codec'', PStr ''counter_vector''), (''response_index'', PInt (int i))],
           available), r))))))"

definition decode_counter ::
  "message_frame \<Rightarrow> string \<Rightarrow> decision_context \<Rightarrow> py_error + decision_request"
where
  "decode_counter frame rid base =
    sbind (read_player (mk_reader (frame_payload frame) ''select_counter'')) (\<lambda>(pl, r).
    sbind (u16 r ''counter_type'') (\<lambda>(counter_type, r).
    sbind (u16 r ''required_count'') (\<lambda>(required_count, r).
    sbind (u32 r ''count'') (\<lambda>(count, r).
    if required_count = 0 \<or> count = 0
    then raise ''select_counter requires counters and at least one card''
    else
    sbind (read_many read_counter_card 0 (nat count) r) (\<lambda>(items, r).
    sbind (finish r) (\<lambda>_.
    if sum_list (map snd items) < required_count
    then raise ''select_counter exposes fewer counters than required''
    else Inr (make_request rid ''select_counter'' pl (map fst items)
      \<lparr>min_selections = 1, max_selections = min count required_count, ordered = False,
       allow_duplicates = False, required = True\<rparr>
      (request_context base MSG_SELECT_COUNTER pl
        [(''counter_type'', PInt counter_type), (''required_count'', PInt required_count)]))))))))"

section \<open>Sum\<close>

text \<open>\<open>_read_sum_card\<close>: code, card reference and sum parameter.\<close>

definition read_sum_card ::
  "string \<Rightarrow> nat \<Rightarrow> reader \<Rightarrow> py_error + (int \<times> pydict \<times> int) \<times> reader"
where
  "read_sum_card g i r =
    sbind (read_card5 g i r) (\<lambda>((code, ref), r).
    sbind (u32 r (at g i ''sum_param'')) (\<lambda>(sum_param, r).
    Inr ((code, ref, sum_param), r)))"

definition read_sum_candidate :: "nat \<Rightarrow> reader \<Rightarrow> py_error + candidate \<times> reader" where
  "read_sum_candidate i r =
    sbind (read_sum_card ''cards'' i r) (\<lambda>((code, ref, sum_param), r).
    Inr (card_candidate (indexed ''card'' i) ''card_sum'' code ref
           [(''action_kind'', PStr ''SELECT_SUM''), (''response_codec'', PStr ''card_indices''),
            (''response_index'', PInt (int i)), (''sum_param'', PInt sum_param)], r))"

definition decode_sum ::
  "message_frame \<Rightarrow> string \<Rightarrow> decision_context \<Rightarrow> py_error + decision_request"
where
  "decode_sum frame rid base =
    sbind (read_player (mk_reader (frame_payload frame) ''select_sum'')) (\<lambda>(pl, r).
    sbind (u8 r ''mode'') (\<lambda>(mode, r).
    if mode \<notin> {0, 1} then raise ''select_sum.mode must be 0 or 1''
    else
    sbind (u32 r ''target'') (\<lambda>(target, r).
    sbind (u32 r ''min'') (\<lambda>(core_min, r).
    sbind (u32 r ''max'') (\<lambda>(core_max, r).
    sbind (u32 r ''must_count'') (\<lambda>(must_count, r).
    sbind (read_many (read_sum_card ''must_cards'') 0 (nat must_count) r) (\<lambda>(must_cards, r).
    sbind (u32 r ''count'') (\<lambda>(count, r).
    if count = 0 then raise ''select_sum requires selectable cards''
    else if mode = 0 \<and> (core_min > core_max \<or> core_max > count)
    then raise ''select_sum exact mode requires min <= max <= candidate count''
    else
    sbind (read_many read_sum_candidate 0 (nat count) r) (\<lambda>(cs, r).
    sbind (finish r) (\<lambda>_.
    Inr (make_request rid ''select_sum'' pl cs
      \<lparr>min_selections = (if mode = 0 then core_min else 0),
       max_selections = (if mode = 0 then core_max else count),
       ordered = False, allow_duplicates = False, required = (mode = 0 \<and> core_min > 0)\<rparr>
      (request_context base MSG_SELECT_SUM pl
        [(''core_max'', PInt core_max), (''core_min'', PInt core_min), (''mode'', PInt mode),
         (''must_sum_params'', PList (map (\<lambda>(code, ref, sum_param). PInt sum_param) must_cards)),
         (''target'', PInt target)]))))))))))))"

section \<open>Unselect\<close>

text \<open>
  One card of a group; \<open>first\<close> is the number of cards read before the group, so that
  \<open>first + i\<close> is the running \<open>response_index\<close> of the source.
\<close>

definition read_unselect_card ::
  "string \<Rightarrow> bool \<Rightarrow> nat \<Rightarrow> nat \<Rightarrow> reader \<Rightarrow> py_error + candidate \<times> reader"
where
  "read_unselect_card g selected first i r =
    sbind (read_card5 g i r) (\<lambda>((code, ref), r).
    Inr (card_candidate (indexed g i) (if selected then ''selected_card'' else ''card'') code ref
           [(''action_kind'', PStr ''SELECT_CARD''), (''response_codec'', PStr ''unselect_action''),
            (''response_index'', PInt (int (first + i)))], r))"

definition decode_unselect_card ::
  "message_frame \<Rightarrow> string \<Rightarrow> decision_context \<Rightarrow> py_error + decision_request"
where
  "decode_unselect_card frame rid base =
    sbind (read_player (mk_reader (frame_payload frame) ''select_unselect_card'')) (\<lambda>(pl, r).
    sbind (u8 r ''finishable'') (\<lambda>(raw_finishable, r).
    sbind (u8 r ''cancelable'') (\<lambda>(raw_cancelable, r).
    if raw_finishable \<notin> {0, 1} \<or> raw_cancelable \<notin> {0, 1}
    then raise ''select_unselect_card finishable/cancelable must be 0 or 1''
    else let finishable = (raw_finishable \<noteq> 0); cancelable = (raw_cancelable \<noteq> 0) in
    sbind (u32 r ''min'') (\<lambda>(core_min, r).
    sbind (u32 r ''max'') (\<lambda>(core_max, r).
    sbind (u32 r ''select_count'') (\<lambda>(select_count, r).
    sbind (read_many (read_unselect_card ''select'' False 0) 0 (nat select_count) r) (\<lambda>(selects, r).
    sbind (u32 r ''unselect_count'') (\<lambda>(unselect_count, r).
    sbind (read_many (read_unselect_card ''unselect'' True (length selects)) 0 (nat unselect_count) r)
      (\<lambda>(unselects, r).
    sbind (finish r) (\<lambda>_.
    let cs = selects @ unselects
         @ (if finishable \<or> cancelable
            then [plain_candidate (in_group ''control'' ''finish'') ''finish'' ''Finish''
                    [(''action_kind'', PStr ''FINISH_SELECTION''),
                     (''response_codec'', PStr ''unselect_action''), (''response_index'', PInt (-1))]]
            else [])
    in if cs = [] then raise ''select_unselect_card must expose a card or finish control''
       else Inr (make_request rid ''select_unselect_card'' pl cs default_constraints
              (request_context base MSG_SELECT_UNSELECT_CARD pl
                [(''cancelable'', PBool cancelable), (''core_max'', PInt core_max),
                 (''core_min'', PInt core_min), (''finishable'', PBool finishable)]))))))))))))"

section \<open>Position\<close>

definition decode_position ::
  "message_frame \<Rightarrow> string \<Rightarrow> decision_context \<Rightarrow> py_error + decision_request"
where
  "decode_position frame rid base =
    sbind (read_player (mk_reader (frame_payload frame) ''select_position'')) (\<lambda>(pl, r).
    sbind (u32 r ''code'') (\<lambda>(code, r).
    sbind (u8 r ''positions'') (\<lambda>(positions, r).
    sbind (finish r) (\<lambda>_.
    let allowed = positions AND 0x0F in
    if allowed = 0 \<or> positions \<noteq> allowed then raise ''select_position.positions has no supported bit''
    else Inr (make_request rid ''select_position'' pl
      (map (\<lambda>(p, label). plain_candidate (indexed ''position'' p) ''position'' label
             [(''response_codec'', PStr ''int32''), (''response_value'', PInt (int p))])
        (filter (\<lambda>(p, label). (allowed AND int p) \<noteq> 0)
          [(1, ''face-up attack''), (2, ''face-down attack''), (4, ''face-up defense''),
           (8, ''face-down defense'')]))
      default_constraints
      (request_context base MSG_SELECT_POSITION pl
        [(''card_code'', PInt code), (''position_mask'', PInt allowed)]))))))"

section \<open>Place\<close>

text \<open>
  The zones in the order of the nested loops, each with its controller, location, sequence and
  the position of its bit in the mask.
\<close>

definition zones :: "int \<Rightarrow> (int \<times> int \<times> nat \<times> nat) list" where
  "zones pl =
    concat (map (\<lambda>(opponent, bit_shift).
      let ctl = (if opponent then 1 - pl else pl) in
      concat (map (\<lambda>(loc, location_shift, zone_count).
        map (\<lambda>seq. (ctl, loc, seq, bit_shift + location_shift + seq)) [0..<zone_count])
        [(0x04, 0, 7), (0x08, 8, 8)]))
      [(False, 0), (True, 16)])"

definition zone_candidate :: "int \<Rightarrow> int \<Rightarrow> nat \<Rightarrow> candidate" where
  "zone_candidate ctl loc seq =
    (let label = str_int ctl @ '':'' @ str_int loc @ '':'' @ str_nat seq
     in plain_candidate (in_group ''zone'' label) ''zone'' label
          [(''action_kind'', PStr ''SELECT_ZONE''), (''response_codec'', PStr ''place_triplets''),
           (''response_controller'', PInt ctl), (''response_location'', PInt loc),
           (''response_sequence'', PInt (int seq))])"

definition place_candidates :: "int \<Rightarrow> int \<Rightarrow> candidate list" where
  "place_candidates pl unavailable =
    map (\<lambda>(ctl, loc, seq, b). zone_candidate ctl loc seq)
      (filter (\<lambda>(ctl, loc, seq, b). (unavailable AND push_bit b 1) = 0) (zones pl))"

definition decode_place ::
  "message_frame \<Rightarrow> string \<Rightarrow> decision_context \<Rightarrow> py_error + decision_request"
where
  "decode_place frame rid base =
    sbind (frame_message_type frame) (\<lambda>mt.
    let rtype = (if mt = MSG_SELECT_DISABLED_FIELD then ''select_disabled_field'' else ''select_place'') in
    sbind (read_player (mk_reader (frame_payload frame) rtype)) (\<lambda>(pl, r).
    sbind (u8 r ''count'') (\<lambda>(count, r).
    sbind (u32 r ''unavailable_mask'') (\<lambda>(unavailable, r).
    sbind (finish r) (\<lambda>_.
    if count = 0 then raise ''select_place.count must be positive''
    else let cs = place_candidates pl unavailable in
    if int (length cs) < count then raise ''select_place exposes fewer zones than its required count''
    else Inr (make_request rid rtype pl cs
      \<lparr>min_selections = count, max_selections = count, ordered = False, allow_duplicates = False,
       required = True\<rparr>
      (request_context base mt pl
        [(''count'', PInt count), (''unavailable_mask'', PInt unavailable)])))))))"

section \<open>Chain\<close>

definition read_chain :: "nat \<Rightarrow> reader \<Rightarrow> py_error + candidate \<times> reader" where
  "read_chain i r =
    sbind (read_card5 ''chains'' i r) (\<lambda>((code, ref), r).
    sbind (u64 r (at ''chains'' i ''description'')) (\<lambda>(description, r).
    sbind (u8 r (at ''chains'' i ''client_mode'')) (\<lambda>(client_mode, r).
    Inr (effect_candidate (indexed ''chain'' i) description client_mode ref (int i), r))))"

definition decode_chain ::
  "message_frame \<Rightarrow> string \<Rightarrow> decision_context \<Rightarrow> py_error + decision_request"
where
  "decode_chain frame rid base =
    sbind (read_player (mk_reader (frame_payload frame) ''select_chain'')) (\<lambda>(pl, r).
    sbind (u8 r ''special_count'') (\<lambda>(special_count, r).
    sbind (u8 r ''forced'') (\<lambda>(raw_forced, r).
    if raw_forced \<notin> {0, 1} then raise ''select_chain.forced must be 0 or 1''
    else let forced = (raw_forced \<noteq> 0) in
    sbind (u32 r ''hint_timing_player'') (\<lambda>(hint_player, r).
    sbind (u32 r ''hint_timing_opponent'') (\<lambda>(hint_opponent, r).
    sbind (u32 r ''count'') (\<lambda>(count, r).
    sbind (read_many read_chain 0 (nat count) r) (\<lambda>(effects, r).
    let cs = effects
         @ (if forced then [] else [control_candidate ''pass'' ''pass'' ''Pass'' ''PASS'' (-1)]) in
    sbind (finish r) (\<lambda>_.
    if cs = [] then raise ''forced select_chain must expose at least one effect candidate''
    else Inr (make_request rid ''select_chain'' pl cs default_constraints
           (request_context base MSG_SELECT_CHAIN pl
             [(''forced'', PBool forced), (''hint_timing_opponent'', PInt hint_opponent),
              (''hint_timing_player'', PInt hint_player), (''special_count'', PInt special_count)]))))))))))"

end
