(* ===== verification/Batch_Decoder.thy ===== *)
theory Batch_Decoder
  imports Card_Decoders
begin

text \<open>
  \<open>protocol.py\<close>: the decoder registry of \<open>OcgcoreMessageDecoder\<close> and \<open>decode_batch\<close>, which
  splits one process batch into frames and lets at most one selection request through.
\<close>

type_synonym decoder = "message_frame \<Rightarrow> string \<Rightarrow> decision_context \<Rightarrow> py_error + decision_request"

fun decoder_of :: "message_type \<Rightarrow> decoder" where
  "decoder_of MSG_SELECT_BATTLE_COMMAND = decode_battle_command"
| "decoder_of MSG_SELECT_IDLE_COMMAND = decode_idle_command"
| "decoder_of MSG_SELECT_EFFECT_YES_NO = decode_effect_yes_no"
| "decoder_of MSG_SELECT_YES_NO = decode_yes_no"
| "decoder_of MSG_SELECT_OPTION = decode_option"
| "decoder_of MSG_SELECT_CARD = decode_card"
| "decoder_of MSG_SELECT_CHAIN = decode_chain"
| "decoder_of MSG_SELECT_PLACE = decode_place"
| "decoder_of MSG_SELECT_POSITION = decode_position"
| "decoder_of MSG_SELECT_TRIBUTE = decode_tribute"
| "decoder_of MSG_SORT_CHAIN = decode_sort"
| "decoder_of MSG_SELECT_COUNTER = decode_counter"
| "decoder_of MSG_SELECT_SUM = decode_sum"
| "decoder_of MSG_SELECT_DISABLED_FIELD = decode_place"
| "decoder_of MSG_SORT_CARD = decode_sort"
| "decoder_of MSG_SELECT_UNSELECT_CARD = decode_unselect_card"
| "decoder_of MSG_ROCK_PAPER_SCISSORS = decode_rock_paper_scissors"
| "decoder_of MSG_ANNOUNCE_RACE = decode_announce_mask"
| "decoder_of MSG_ANNOUNCE_ATTRIBUTE = decode_announce_mask"
| "decoder_of MSG_ANNOUNCE_CARD = decode_announce_card"
| "decoder_of MSG_ANNOUNCE_NUMBER = decode_announce_number"

text \<open>\<open>self._registry.get(n)\<close>.\<close>

definition decoder_registry :: "int \<Rightarrow> decoder option" where
  "decoder_registry n = map_option decoder_of (message_type_of n)"

text \<open>The constructor accepts the pinned API version only.\<close>

definition make_decoder :: "int \<times> int \<Rightarrow> py_error + int \<times> int" where
  "make_decoder api =
    (if api \<noteq> API_VERSION
     then Inl (VersionMismatch (''decoder supports ocgcore API '' @ str_int (fst API_VERSION) @ ''.''
                @ str_int (snd API_VERSION) @ '', got '' @ str_int (fst api) @ ''.'' @ str_int (snd api)))
     else Inr api)"

definition supported_message_types :: "int list" where
  "supported_message_types = sort (map message_type_value all_message_types)"

definition unsupported_message :: "message_frame \<Rightarrow> decision_context \<Rightarrow> string \<Rightarrow> py_error" where
  "unsupported_message frame x msg =
    UnsupportedMessage msg
      [(''decision_context'', PDict
         [(''chain_length'', PInt (int (length (chain_entries x)))),
          (''extra'', diagnostic_value (PDict (extra x))),
          (''phase'', PStr (phase x)),
          (''priority_player'', opt_int (priority_player x)),
          (''request_source'', PStr (request_source x)),
          (''turn_player'', opt_int (turn_player x)),
          (''version_metadata'', diagnostic_value (PDict (version_metadata x)))]),
       (''message_registry_version'', PStr MESSAGE_REGISTRY_VERSION),
       (''message_type'', PInt (frame_type frame)),
       (''payload_length'', PInt (int (length (frame_payload frame)))),
       (''payload_sha256'', PStr (sha256_hexdigest (frame_payload frame))),
       (''protocol_version'', PStr PROTOCOL_VERSION)]"

record decoded_batch =
  frames :: "message_frame list"
  request :: "decision_request option"
  logs :: "core_log list"

text \<open>The loop over the frames, with the request found so far.\<close>

fun decode_frames ::
  "message_frame list \<Rightarrow> string \<Rightarrow> decision_context \<Rightarrow> decision_request option
    \<Rightarrow> py_error + decision_request option"
where
  "decode_frames [] rid base req = Inr req"
| "decode_frames (frame # fs) rid base req =
    (if frame_type frame \<in> set UNSUPPORTED_MESSAGE_TYPES
     then Inl (unsupported_message frame base
            ''MSG_RELOAD_FIELD invalidates persistent card-instance authority'')
     else case decoder_registry (frame_type frame) of
       None \<Rightarrow>
         if frame_type frame \<in> set SELECTION_MESSAGE_TYPES
         then Inl (unsupported_message frame base
                (''ocgcore selection message '' @ str_int (frame_type frame)
                  @ '' is not registered for '' @ PROTOCOL_VERSION))
         else if frame_type frame \<in> set NON_DECISION_MESSAGE_TYPES
         then decode_frames fs rid base req
         else Inl (unsupported_message frame base
                (''unknown ocgcore message '' @ str_int (frame_type frame) @ '' for '' @ PROTOCOL_VERSION))
     | Some decoder \<Rightarrow>
         if req \<noteq> None
         then raise ''one process batch must not contain multiple selection requests''
         else sbind (decoder frame rid base) (\<lambda>r. decode_frames fs rid base (Some r)))"

definition decode_batch ::
  "byte list \<Rightarrow> string \<Rightarrow> decision_context option \<Rightarrow> core_log list \<Rightarrow> py_error + decoded_batch"
where
  "decode_batch data rid ctx core_logs =
    sbind (split_message_stream data) (\<lambda>fs.
      let base = (case ctx of None \<Rightarrow> empty_context | Some x \<Rightarrow> x) in
      sbind (decode_frames fs rid base None) (\<lambda>req.
        Inr \<lparr>frames = fs, request = req, logs = core_logs\<rparr>))"

section \<open>What gets through\<close>

text \<open>A frame that carries a selection request, and one that carries nothing to decide.\<close>

definition is_selection :: "message_frame \<Rightarrow> bool" where
  "is_selection f \<longleftrightarrow> frame_type f \<in> set SELECTION_MESSAGE_TYPES"

definition is_silent :: "message_frame \<Rightarrow> bool" where
  "is_silent f \<longleftrightarrow> frame_type f \<in> set NON_DECISION_MESSAGE_TYPES"

lemma registry_Some:
  "decoder_registry n = Some d \<Longrightarrow> \<exists>m. message_type_of n = Some m \<and> d = decoder_of m"
  by (auto simp: decoder_registry_def)

lemma registry_None: "decoder_registry n = None \<longleftrightarrow> n \<notin> set SELECTION_MESSAGE_TYPES"
  by (simp add: decoder_registry_def message_type_of_None)

lemma registry_not_selection: "\<not> is_selection f \<Longrightarrow> decoder_registry (frame_type f) = None"
  by (simp add: is_selection_def registry_None)

lemma registry_selection:
  "is_selection f \<Longrightarrow> \<exists>m. decoder_registry (frame_type f) = Some (decoder_of m) \<and> message_type_value m = frame_type f"
proof -
  assume "is_selection f"
  then have "message_type_of (frame_type f) \<noteq> None"
    by (simp add: message_type_of_None is_selection_def)
  then show ?thesis by (auto simp: decoder_registry_def dest: message_type_of_Some)
qed

lemma selection_not_unsupported: "is_selection f \<Longrightarrow> frame_type f \<notin> set UNSUPPORTED_MESSAGE_TYPES"
  using message_classes_disjoint(2) by (auto simp: is_selection_def)

lemma silent_not_selection: "is_silent f \<Longrightarrow> \<not> is_selection f"
  using message_classes_disjoint(1) by (auto simp: is_selection_def is_silent_def)

lemma silent_not_unsupported: "is_silent f \<Longrightarrow> frame_type f \<notin> set UNSUPPORTED_MESSAGE_TYPES"
  using message_classes_disjoint(3) by (auto simp: is_silent_def)

lemma decode_frames_silent:
  "is_silent f \<Longrightarrow> decode_frames (f # fs) rid base req = decode_frames fs rid base req"
  using silent_not_selection [of f] silent_not_unsupported [of f] registry_not_selection [of f]
  by (simp add: is_selection_def is_silent_def)

lemma decode_frames_other:
  "\<not> is_silent f \<Longrightarrow> \<not> is_selection f \<Longrightarrow>
    \<exists>msg. decode_frames (f # fs) rid base req = Inl (unsupported_message f base msg)"
  using registry_not_selection [of f] by (auto simp: is_selection_def is_silent_def)

lemma decode_frames_found:
  "decode_frames fs rid base (Some r) = Inr req \<longleftrightarrow> req = Some r \<and> list_all is_silent fs"
proof (induction fs)
  case Nil
  then show ?case by auto
next
  case (Cons f fs)
  show ?case
  proof (cases "is_silent f")
    case True
    with Cons show ?thesis by (simp only: decode_frames_silent) simp
  next
    case False
    have "decode_frames (f # fs) rid base (Some r) \<noteq> Inr req"
    proof (cases "is_selection f")
      case True
      then obtain d where "decoder_registry (frame_type f) = Some d"
        using registry_selection by blast
      with selection_not_unsupported [OF True] show ?thesis by (simp add: raise_def)
    next
      case nosel: False
      from decode_frames_other [OF False this] show ?thesis by (metis sum.distinct(1))
    qed
    with False show ?thesis by simp
  qed
qed

text \<open>
  The loop succeeds on a batch exactly when every frame is silent, or one is a selection that its
  decoder accepts and all the others are silent.
\<close>

definition one_selection ::
  "message_frame list \<Rightarrow> string \<Rightarrow> decision_context \<Rightarrow> decision_request \<Rightarrow> bool"
where
  "one_selection fs rid base r \<longleftrightarrow>
    (\<exists>pre f m post. fs = pre @ f # post \<and> list_all is_silent pre \<and> list_all is_silent post \<and>
       message_type_of (frame_type f) = Some m \<and> decoder_of m f rid base = Inr r)"

lemma one_selection_Nil [simp]: "\<not> one_selection [] rid base r"
  by (simp add: one_selection_def)

lemma one_selection_silent:
  assumes "is_silent f"
  shows "one_selection (f # fs) rid base r \<longleftrightarrow> one_selection fs rid base r"
proof
  have no: "message_type_of (frame_type f) = None"
    using silent_not_selection [OF assms] by (simp add: message_type_of_None is_selection_def)
  assume "one_selection (f # fs) rid base r"
  then obtain pre g m post where A: "f # fs = pre @ g # post" "list_all is_silent pre"
    "list_all is_silent post" "message_type_of (frame_type g) = Some m" "decoder_of m g rid base = Inr r"
    by (auto simp: one_selection_def)
  with no obtain pre' where "pre = f # pre'" by (cases pre) auto
  with A show "one_selection fs rid base r" by (auto simp: one_selection_def)
next
  assume "one_selection fs rid base r"
  then obtain pre g m post where "fs = pre @ g # post" "list_all is_silent pre"
    "list_all is_silent post" "message_type_of (frame_type g) = Some m" "decoder_of m g rid base = Inr r"
    by (auto simp: one_selection_def)
  with assms have "f # fs = (f # pre) @ g # post \<and> list_all is_silent (f # pre) \<and> list_all is_silent post \<and>
    message_type_of (frame_type g) = Some m \<and> decoder_of m g rid base = Inr r" by simp
  then show "one_selection (f # fs) rid base r" unfolding one_selection_def by blast
qed

lemma one_selection_other:
  assumes "\<not> is_silent f"
  shows "one_selection (f # fs) rid base r \<longleftrightarrow> list_all is_silent fs \<and>
    (\<exists>m. message_type_of (frame_type f) = Some m \<and> decoder_of m f rid base = Inr r)"
  (is "?A \<longleftrightarrow> ?B")
proof
  assume ?A
  then obtain pre g m post where A: "f # fs = pre @ g # post" "list_all is_silent pre"
    "list_all is_silent post" "message_type_of (frame_type g) = Some m" "decoder_of m g rid base = Inr r"
    by (auto simp: one_selection_def)
  with assms have "pre = []" by (cases pre) auto
  with A show ?B by auto
next
  assume ?B
  then obtain m where "f # fs = [] @ f # fs \<and> list_all is_silent [] \<and> list_all is_silent fs \<and>
    message_type_of (frame_type f) = Some m \<and> decoder_of m f rid base = Inr r" by auto
  then show ?A unfolding one_selection_def by blast
qed

lemma decode_frames_iff:
  "decode_frames fs rid base None = Inr req \<longleftrightarrow>
    (case req of None \<Rightarrow> list_all is_silent fs | Some r \<Rightarrow> one_selection fs rid base r)"
proof (induction fs)
  case Nil
  then show ?case by (auto split: option.splits)
next
  case (Cons f fs)
  show ?case
  proof (cases "is_silent f")
    case True
    with Cons show ?thesis
      by (simp only: decode_frames_silent one_selection_silent) (simp split: option.splits)
  next
    case False
    show ?thesis
    proof (cases "is_selection f")
      case True
      then obtain m where m: "decoder_registry (frame_type f) = Some (decoder_of m)"
        "message_type_of (frame_type f) = Some m"
        using registry_selection by (metis message_type_of_value)
      have "decode_frames (f # fs) rid base None =
          sbind (decoder_of m f rid base) (\<lambda>r. decode_frames fs rid base (Some r))"
        using selection_not_unsupported [OF True] m by simp
      then show ?thesis
        using False m one_selection_other [OF False, of fs rid base]
        by (auto simp: sbind_eq_Inr decode_frames_found split: option.splits)
    next
      case nosel: False
      then have "message_type_of (frame_type f) = None"
        by (simp add: message_type_of_None is_selection_def)
      moreover obtain msg where "decode_frames (f # fs) rid base None = Inl (unsupported_message f base msg)"
        using decode_frames_other [OF False nosel] by blast
      ultimately show ?thesis
        using False by (simp add: one_selection_other split: option.splits)
    qed
  qed
qed

lemma decode_batch_request:
  "decode_batch data rid ctx core_logs = Inr b \<Longrightarrow> request b = Some r \<Longrightarrow>
    \<exists>f m. f \<in> set (frames b) \<and> message_type_of (frame_type f) = Some m \<and>
      decoder_of m f rid (case ctx of None \<Rightarrow> empty_context | Some x \<Rightarrow> x) = Inr r"
  by (auto simp: decode_batch_def Let_def sbind_eq_Inr decode_frames_iff one_selection_def) blast

end
