(* ===== verification/Candidate_Readers.thy ===== *)
theory Candidate_Readers
  imports Card_Decoders
begin

text \<open>
  The contract of the record readers of the decoders, stated as an interface: the \<open>i\<close>-th record
  becomes a candidate named after its group and index, carries only JSON data, and takes a fixed
  number of bytes. Its consequences for the loops, proved once, are interpreted for every record
  the protocol has.
\<close>

section \<open>The contract\<close>

locale candidate_reader =
  fixes read_item :: "nat \<Rightarrow> reader \<Rightarrow> py_error + 'a \<times> reader"
    and item :: "'a \<Rightarrow> candidate"
    and grp :: string
    and width :: nat
  assumes item_id: "read_item i r = Inr (x, r') \<Longrightarrow> candidate_id (item x) = indexed grp i"
    and item_safe: "read_item i r = Inr (x, r') \<Longrightarrow> candidate_safe (item x)"
    and item_width: "read_item i r = Inr (x, r') \<Longrightarrow>
      offset r' = offset r + width \<and> payload r' = payload r \<and> offset r' \<le> length (payload r)"
begin

lemma loop_ids:
  "read_many read_item i n r = Inr (xs, r') \<Longrightarrow>
    map candidate_id (map item xs) = map (indexed grp) [i..<i + n]"
  unfolding list.map_comp using item_id by (intro read_many_map) (auto simp: o_def)

lemma loop_safe:
  "read_many read_item i n r = Inr (xs, r') \<Longrightarrow> list_all candidate_safe (map item xs)"
  unfolding list_all_iff set_map ball_simps
  using read_many_all [of read_item "\<lambda>x. candidate_safe (item x)"] item_safe
  by (auto simp: list_all_iff)

lemma loop_bytes: "read_many read_item i n r = Inr (xs, r') \<Longrightarrow> offset r' = offset r + n * width"
  using item_width by (intro read_many_advance) auto

lemma loop_fits:
  "read_many read_item i n r = Inr (xs, r') \<Longrightarrow> offset r \<le> length (payload r) \<Longrightarrow>
    payload r' = payload r \<and> offset r + n * width \<le> length (payload r)"
proof -
  assume loop: "read_many read_item i n r = Inr (xs, r')" and le: "offset r \<le> length (payload r)"
  have "payload r' = payload r \<and> offset r' \<le> length (payload r)"
    using read_many_invariant [of read_item "\<lambda>s. payload s = payload r \<and> offset s \<le> length (payload r)", OF _ loop]
      item_width le by fastforce
  then show ?thesis using loop_bytes [OF loop] by simp
qed

end

text \<open>Records answered with a 32-bit number, \<open>response_value\<close>, which depends on the index.\<close>

locale int32_reader = candidate_reader +
  fixes respond :: "nat \<Rightarrow> int"
  assumes item_codec: "read_item i r = Inr (x, r') \<Longrightarrow>
      dict_get (c_payload (item x)) ''response_codec'' = PStr ''int32'' \<and>
      dict_get (c_payload (item x)) ''response_value'' = PInt (respond i)"
begin

lemma loop_codec:
  assumes "read_many read_item 0 n r = Inr (xs, r')" and "x \<in> set xs"
  shows "\<exists>i < n. candidate_id (item x) = indexed grp i \<and>
    dict_get (c_payload (item x)) ''response_codec'' = PStr ''int32'' \<and>
    dict_get (c_payload (item x)) ''response_value'' = PInt (respond i)"
proof -
  have "map (\<lambda>x. (candidate_id (item x), dict_get (c_payload (item x)) ''response_codec'',
      dict_get (c_payload (item x)) ''response_value'')) xs =
    map (\<lambda>i. (indexed grp i, PStr ''int32'', PInt (respond i))) [0..<0 + n]"
    using assms(1) by (intro read_many_map) (auto simp: item_id item_codec)
  moreover obtain k where "k < length xs" "x = xs ! k"
    using assms(2) by (metis in_set_conv_nth)
  moreover have "length xs = n" by (rule read_many_length [OF assms(1)])
  ultimately show ?thesis
    by (intro exI [of _ k]) (auto simp: list_eq_iff_nth_eq)
qed

end

section \<open>What the builders make\<close>

lemma plain_candidate_simps [simp]:
  "candidate_id (plain_candidate i k l p) = i"
  "c_payload (plain_candidate i k l p) = p"
  "candidate_safe (plain_candidate i k l p) = dict_safe p"
  by (simp_all add: plain_candidate_def candidate_safe_def)

lemma card_ref_safe [simp]:
  "dict_safe (card_ref4 c l d s)" "dict_safe (card_ref5 c l p d s)"
  by (simp_all add: card_ref4_def card_ref5_def)

lemma card_candidate_simps [simp]:
  "candidate_id (card_candidate i k d ref p) = i"
  "c_payload (card_candidate i k d ref p) = p"
  "candidate_safe (card_candidate i k d ref p) \<longleftrightarrow> dict_safe ref \<and> dict_safe p"
  by (simp_all add: card_candidate_def candidate_safe_def)

lemma int32_payload_simps [simp]:
  "dict_safe (int32_payload k v)"
  "dict_get (int32_payload k v) ''response_codec'' = PStr ''int32''"
  "dict_get (int32_payload k v) ''response_value'' = PInt v"
  "dict_get (int32_payload k v) ''action_kind'' = PStr k"
  by (simp_all add: int32_payload_def)

lemma effect_candidate_simps [simp]:
  "candidate_id (effect_candidate i d m ref v) = i"
  "c_payload (effect_candidate i d m ref v) = int32_payload ''ACTIVATE_EFFECT'' v"
  "candidate_safe (effect_candidate i d m ref v) = dict_safe ref"
  by (simp_all add: effect_candidate_def candidate_safe_def)

lemma control_candidate_simps [simp]:
  "candidate_id (control_candidate n k l a v) = in_group ''control'' n"
  "c_payload (control_candidate n k l a v) = int32_payload a v"
  "candidate_safe (control_candidate n k l a v)"
  by (simp_all add: control_candidate_def)

lemma read_card5_Inr:
  "read_card5 g i r = Inr ((code, ref), r') \<Longrightarrow>
    dict_safe ref \<and> offset r' = offset r + 14 \<and> payload r' = payload r \<and> offset r' \<le> length (payload r)"
  by (auto simp: read_card5_def monad_simps dest!: advance_u8 advance_u32)

section \<open>Every record reader satisfies it\<close>

lemmas record_simps = monad_simps raise_def

lemmas record_dests = advance_u8 advance_u16 advance_u32 advance_u64 read_card5_Inr

interpretation activation: int32_reader "read_activation v" "\<lambda>c. c" "''activate''" 19 v for v
  by unfold_locales (auto simp: read_activation_def record_simps dest!: record_dests)

interpretation attack: int32_reader read_attack "\<lambda>c. c" "''attack''" 8 "\<lambda>i. or (push_bit 16 (int i)) 1"
  by unfold_locales (auto simp: read_attack_def record_simps dest!: record_dests split: if_splits)

interpretation sort_card: candidate_reader read_sort_card "\<lambda>c. c" "''card''" 13
  by unfold_locales (auto simp: read_sort_card_def record_simps dest!: record_dests)

interpretation number: int32_reader read_number "\<lambda>c. c" "''number''" 8 int
  by unfold_locales (auto simp: read_number_def record_simps dest!: record_dests)

interpretation idle_card: int32_reader "read_idle_card g cmd kind compact" "\<lambda>c. c" g
    "if compact then 7 else 10" "\<lambda>i. or (push_bit 16 (int i)) cmd" for g cmd kind compact
  by unfold_locales (auto simp: read_idle_card_def record_simps dest!: record_dests split: if_splits)

interpretation option_item: int32_reader read_option "\<lambda>c. c" "''option''" 8 int
  by unfold_locales (auto simp: read_option_def record_simps dest!: record_dests)

interpretation select_card: candidate_reader read_select_card "\<lambda>c. c" "''card''" 14
  by unfold_locales (auto simp: read_select_card_def record_simps dest!: record_dests)

interpretation tribute_card: candidate_reader read_tribute_card "\<lambda>c. c" "''card''" 11
  by unfold_locales (auto simp: read_tribute_card_def record_simps dest!: record_dests split: if_splits)

interpretation counter_card: candidate_reader read_counter_card fst "''card''" 9
  by unfold_locales (auto simp: read_counter_card_def record_simps dest!: record_dests split: if_splits)

interpretation sum_candidate: candidate_reader read_sum_candidate "\<lambda>c. c" "''card''" 18
  by unfold_locales (auto simp: read_sum_candidate_def read_sum_card_def record_simps dest!: record_dests)

interpretation unselect_card: candidate_reader "read_unselect_card g s f" "\<lambda>c. c" g 14 for g s f
  by unfold_locales (auto simp: read_unselect_card_def record_simps dest!: record_dests)

interpretation chain_item: int32_reader read_chain "\<lambda>c. c" "''chain''" 23 int
  by unfold_locales (auto simp: read_chain_def record_simps dest!: record_dests)

end
