(* ===== verification/Decoder_Validity.thy ===== *)
theory Decoder_Validity
  imports Batch_Decoder Candidate_Readers
begin

text \<open>
  Every request a decoder returns is a valid one: its candidates have non-empty, pairwise distinct
  identifiers, its data is JSON, so that it has a signature, and it has a candidate to choose.
\<close>

unbundle bit_operations_syntax

section \<open>What every decoder establishes\<close>

definition decoded_ok :: "string \<Rightarrow> decision_request \<Rightarrow> bool" where
  "decoded_ok rid r \<longleftrightarrow>
    request_id r = rid \<and> request_valid r \<and> candidates r \<noteq> [] \<and>
    (player r = 0 \<or> player r = 1) \<and> priority_player (req_context r) = Some (player r)"

text \<open>The selection bounds can be met: the least number of selections is among the possible ones.\<close>

definition bounds_ok :: "decision_request \<Rightarrow> bool" where
  "bounds_ok r \<longleftrightarrow>
    0 \<le> min_selections (req_constraints r) \<and>
    min_selections (req_constraints r) \<le> max_selections (req_constraints r) \<and>
    max_selections (req_constraints r) \<le> int (length (candidates r))"

lemma request_context_safe:
  "context_safe base \<Longrightarrow> dict_safe es \<Longrightarrow> context_safe (request_context base mt pl es)"
  by (simp add: context_safe_def request_context_def safe_intros)

lemma request_context_player [simp]: "priority_player (request_context base mt pl es) = Some pl"
  by (simp add: request_context_def)

lemma make_request_simps [simp]:
  "request_id (make_request rid t pl cs k x) = rid"
  "request_type (make_request rid t pl cs k x) = t"
  "player (make_request rid t pl cs k x) = pl"
  "candidates (make_request rid t pl cs k x) = cs"
  "req_constraints (make_request rid t pl cs k x) = k"
  "req_context (make_request rid t pl cs k x) = x"
  by (simp_all add: make_request_def)

lemma default_constraints_simps [simp]:
  "min_selections default_constraints = 1" "max_selections default_constraints = 1"
  "ordered default_constraints = False" "allow_duplicates default_constraints = False"
  by (simp_all add: default_constraints_def)

text \<open>Candidate lists whose identifiers are named after a group.\<close>

definition named :: "string \<Rightarrow> candidate list \<Rightarrow> bool" where
  "named g cs \<longleftrightarrow>
    (\<exists>ss. distinct ss \<and> map candidate_id cs = map (in_group g) ss) \<and> list_all candidate_safe cs"

lemma named_Nil [simp]: "named g []"
  by (simp add: named_def)

lemma named_loop:
  "map candidate_id cs = map (indexed g) [i..<i + n] \<Longrightarrow> list_all candidate_safe cs \<Longrightarrow> named g cs"
  unfolding named_def indexed_def
  by (intro conjI exI [of _ "map str_nat [i..<i + n]"]) (auto simp: distinct_map inj_on_def)

lemma named_ids:
  assumes "named g cs"
  shows "distinct (map candidate_id cs)" and "list_all (\<lambda>c. candidate_id c \<noteq> []) cs"
    and "list_all candidate_safe cs" and "c \<in> set cs \<Longrightarrow> \<exists>s. candidate_id c = in_group g s"
proof -
  from assms obtain ss where ss: "distinct ss" "map candidate_id cs = map (in_group g) ss"
    by (auto simp: named_def)
  then show "distinct (map candidate_id cs)" by (simp add: distinct_map inj_on_def)
  have in_set: "\<exists>s. candidate_id c = in_group g s" if "c \<in> set cs" for c
    using ss(2) that by (metis image_iff list.set_map)
  then show "list_all (\<lambda>c. candidate_id c \<noteq> []) cs" by (fastforce simp: list_all_iff)
  show "list_all candidate_safe cs" using assms by (simp add: named_def)
  show "c \<in> set cs \<Longrightarrow> \<exists>s. candidate_id c = in_group g s" by (rule in_set)
qed

text \<open>Lists of different groups, in a row.\<close>

fun named_groups :: "(string \<times> candidate list) list \<Rightarrow> bool" where
  "named_groups [] = True"
| "named_groups ((g, cs) # gs) =
     (named g cs \<and> CHR '':'' \<notin> set g \<and> g \<notin> set (map fst gs) \<and> named_groups gs)"

lemma named_groups_member:
  "named_groups gs \<Longrightarrow> c \<in> set (concat (map snd gs)) \<Longrightarrow>
    \<exists>h s. h \<in> set (map fst gs) \<and> CHR '':'' \<notin> set h \<and> candidate_id c = in_group h s"
proof (induction gs rule: named_groups.induct)
  case (2 g cs gs)
  show ?case
  proof (cases "c \<in> set cs")
    case True
    from "2.prems"(1) have "named g cs" "CHR '':'' \<notin> set g" by simp_all
    moreover from named_ids(4) [OF this(1) True] obtain s where "candidate_id c = in_group g s" ..
    ultimately show ?thesis by (intro exI [of _ g] exI [of _ s]) simp
  next
    case False
    from "2.prems"(1) have "named_groups gs" by simp
    moreover from "2.prems"(2) False have "c \<in> set (concat (map snd gs))" by simp
    ultimately obtain h s where "h \<in> set (map fst gs) \<and> CHR '':'' \<notin> set h \<and> candidate_id c = in_group h s"
      using "2.IH" by blast
    then show ?thesis by (intro exI [of _ h] exI [of _ s]) simp
  qed
qed simp

lemma named_groups_ids:
  "named_groups gs \<Longrightarrow>
    distinct (map candidate_id (concat (map snd gs))) \<and>
    list_all (\<lambda>c. candidate_id c \<noteq> []) (concat (map snd gs)) \<and>
    list_all candidate_safe (concat (map snd gs))"
proof (induction gs rule: named_groups.induct)
  case (2 g cs gs)
  from "2.prems" have g: "named g cs" "CHR '':'' \<notin> set g" "g \<notin> set (map fst gs)" "named_groups gs"
    by simp_all
  note IH = "2.IH" [OF g(4)]
  have apart: "candidate_id c \<noteq> candidate_id d"
    if c: "c \<in> set cs" and d: "d \<in> set (concat (map snd gs))" for c d
  proof -
    from named_ids(4) [OF g(1) c] obtain s where s: "candidate_id c = in_group g s" by blast
    from named_groups_member [OF g(4) d] obtain h t where
      t: "h \<in> set (map fst gs)" "CHR '':'' \<notin> set h" "candidate_id d = in_group h t" by blast
    from t(1) g(3) have "g \<noteq> h" by blast
    then show ?thesis unfolding s t(3) in_group_eq [OF g(2) t(2)] by simp
  qed
  have "set (map candidate_id cs) \<inter> set (map candidate_id (concat (map snd gs))) = {}"
    unfolding set_map using apart by blast
  with IH named_ids(1-3) [OF g(1)] show ?case
    by (simp only: list.map(2) snd_conv concat.simps map_append distinct_append list_all_append simp_thms)
qed simp

lemma named_iff:
  "named g cs \<longleftrightarrow> distinct (map candidate_id cs) \<and>
    list_all (\<lambda>c. \<exists>s. candidate_id c = in_group g s) cs \<and> list_all candidate_safe cs"
proof
  assume "named g cs"
  then show "distinct (map candidate_id cs) \<and>
    list_all (\<lambda>c. \<exists>s. candidate_id c = in_group g s) cs \<and> list_all candidate_safe cs"
    using named_ids [of g cs] by (auto simp: list_all_iff)
next
  assume A: "distinct (map candidate_id cs) \<and>
    list_all (\<lambda>c. \<exists>s. candidate_id c = in_group g s) cs \<and> list_all candidate_safe cs"
  then have "\<exists>ss. map candidate_id cs = map (in_group g) ss"
  proof (induction cs)
    case (Cons c cs)
    then obtain ss s where "map candidate_id cs = map (in_group g) ss" "candidate_id c = in_group g s"
      by auto
    then show ?case by (intro exI [of _ "s # ss"]) simp
  qed simp
  with A show "named g cs" unfolding named_def by (metis distinct_map)
qed

context candidate_reader
begin

lemma loop_named: "read_many read_item 0 n r = Inr (xs, r') \<Longrightarrow> named grp (map item xs)"
  using loop_ids [of 0 n r xs r'] loop_safe [of 0 n r xs r'] by (intro named_loop)

lemma loop_facts:
  "read_many read_item 0 n r = Inr (xs, r') \<Longrightarrow> named grp (map item xs) \<and> length xs = n"
  using loop_named [of n r xs r'] read_many_length [of read_item 0 n r xs r'] by simp

end

lemmas loop_facts = activation.loop_facts attack.loop_facts sort_card.loop_facts number.loop_facts idle_card.loop_facts option_item.loop_facts
  select_card.loop_facts tribute_card.loop_facts counter_card.loop_facts sum_candidate.loop_facts unselect_card.loop_facts chain_item.loop_facts

lemmas decoder_simps = monad_simps raise_def Let_def

section \<open>Each decoder\<close>

definition is_player :: "int \<Rightarrow> bool" where
  "is_player pl \<longleftrightarrow> pl = 0 \<or> pl = 1"

lemma read_player_ok: "read_player r = Inr (v, r') \<Longrightarrow> is_player v"
  by (auto simp: is_player_def dest: read_player_range)

definition cands_ok :: "candidate list \<Rightarrow> bool" where
  "cands_ok cs \<longleftrightarrow> distinct (map candidate_id cs) \<and> list_all (\<lambda>c. candidate_id c \<noteq> []) cs \<and>
    list_all candidate_safe cs"

lemma cands_ok_groups: "named_groups gs \<Longrightarrow> cs = concat (map snd gs) \<Longrightarrow> cands_ok cs"
  using named_groups_ids [of gs] by (simp add: cands_ok_def)

lemma cands_ok_named: "named g cs \<Longrightarrow> cands_ok cs"
  using named_ids [of g cs] by (simp add: cands_ok_def)

lemma decoded_ok_make [simp]:
  assumes "context_safe base" and "dict_safe es"
  shows "decoded_ok rid (make_request rid t pl cs k (request_context base mt pl es)) \<longleftrightarrow>
    cands_ok cs \<and> cs \<noteq> [] \<and> is_player pl"
  using assms by (auto simp: is_player_def decoded_ok_def request_valid_def request_context_safe cands_ok_def)

lemma bounds_ok_default [simp]:
  "bounds_ok (make_request rid t pl cs default_constraints x) \<longleftrightarrow> cs \<noteq> []"
  by (cases cs) (simp_all add: bounds_ok_def)

lemma bounds_ok_make [simp]:
  "bounds_ok (make_request rid t pl cs
      \<lparr>min_selections = a, max_selections = b, ordered = ord, allow_duplicates = dup, required = req\<rparr> x) \<longleftrightarrow>
    0 \<le> a \<and> a \<le> b \<and> b \<le> int (length cs)"
  by (simp add: bounds_ok_def)

lemma cands_ok_control:
  assumes "named g cs" and "named ''control'' ds" and "g \<noteq> ''control''" and "CHR '':'' \<notin> set g"
  shows "cands_ok (cs @ ds)"
  using assms by (intro cands_ok_groups [of "[(g, cs), (''control'', ds)]"]) auto

lemma named_control [simp]:
  "named ''control'' [control_candidate n k l a v]"
  "named ''control'' [plain_candidate (in_group ''control'' n) k l p] \<longleftrightarrow> dict_safe p"
  by (simp_all add: named_iff)

lemmas decoder_dests = loop_facts read_player_ok u8_range u16_range u32_range u64_range

lemma if_Nil_raise [monad_simps]:
  "(if cs = [] then raise m else k) = Inr y \<longleftrightarrow> cs \<noteq> [] \<and> k = Inr y"
  by (simp add: raise_def)

lemma decode_chain_ok:
  "decode_chain frame rid base = Inr r \<Longrightarrow> context_safe base \<Longrightarrow> decoded_ok rid r \<and> bounds_ok r"
  by (clarsimp simp: decode_chain_def decoder_simps dest!: decoder_dests split del: if_split)
    (auto intro: cands_ok_named cands_ok_control split: if_splits)

lemma decode_option_ok:
  "decode_option frame rid base = Inr r \<Longrightarrow> context_safe base \<Longrightarrow> decoded_ok rid r \<and> bounds_ok r"
  by (clarsimp simp: decode_option_def decoder_simps dest!: decoder_dests split del: if_split)
    (auto intro: cands_ok_named cands_ok_control)

lemma decode_announce_number_ok:
  "decode_announce_number frame rid base = Inr r \<Longrightarrow> context_safe base \<Longrightarrow> decoded_ok rid r \<and> bounds_ok r"
  by (clarsimp simp: decode_announce_number_def decoder_simps dest!: decoder_dests split del: if_split)
    (auto intro: cands_ok_named cands_ok_control)

lemma decode_card_ok:
  "decode_card frame rid base = Inr r \<Longrightarrow> context_safe base \<Longrightarrow> decoded_ok rid r \<and> bounds_ok r"
  by (clarsimp simp: decode_card_def decoder_simps dest!: decoder_dests split del: if_split)
    (auto intro: cands_ok_named cands_ok_control)

lemma decode_tribute_ok:
  "decode_tribute frame rid base = Inr r \<Longrightarrow> context_safe base \<Longrightarrow> decoded_ok rid r"
  by (clarsimp simp: decode_tribute_def decoder_simps dest!: decoder_dests split del: if_split)
    (auto intro: cands_ok_named cands_ok_control)

text \<open>The upper bound of a tribute selection may be below the lower one, when the core sets it to zero.\<close>

lemma decode_tribute_bounds:
  "decode_tribute frame rid base = Inr r \<Longrightarrow>
    min_selections (req_constraints r) = of_bool (required (req_constraints r)) \<and>
    0 \<le> max_selections (req_constraints r) \<and> max_selections (req_constraints r) \<le> int (length (candidates r))"
  by (clarsimp simp: decode_tribute_def decoder_simps dest!: decoder_dests split del: if_split)

lemma decode_sort_ok:
  "decode_sort frame rid base = Inr r \<Longrightarrow> context_safe base \<Longrightarrow> decoded_ok rid r \<and> bounds_ok r"
  by (clarsimp simp: decode_sort_def decoder_simps dest!: decoder_dests split del: if_split)
    (auto intro: cands_ok_named cands_ok_control)

lemma decode_counter_ok:
  "decode_counter frame rid base = Inr r \<Longrightarrow> context_safe base \<Longrightarrow> decoded_ok rid r \<and> bounds_ok r"
  by (clarsimp simp: decode_counter_def decoder_simps dest!: decoder_dests split del: if_split)
    (auto intro: cands_ok_named cands_ok_control)

lemma sum_params_safe [simp]:
  "list_all json_safe (map (\<lambda>(code, ref, y). PInt y) xs)"
  "list_all (json_safe \<circ> (\<lambda>(code, ref, y). PInt y)) xs"
  by (auto simp: list_all_iff)

lemma decode_sum_ok:
  "decode_sum frame rid base = Inr r \<Longrightarrow> context_safe base \<Longrightarrow> decoded_ok rid r \<and> bounds_ok r"
  by (clarsimp simp: decode_sum_def decoder_simps dest!: decoder_dests split del: if_split)
    (auto intro: cands_ok_named split: if_splits)

lemma decode_yes_no_ok:
  "decode_yes_no frame rid base = Inr r \<Longrightarrow> context_safe base \<Longrightarrow> decoded_ok rid r \<and> bounds_ok r"
  by (clarsimp simp: decode_yes_no_def decoder_simps dest!: decoder_dests split del: if_split)
    (auto simp: named_iff intro!: cands_ok_named [of "''choice''"])

lemma decode_effect_yes_no_ok:
  "decode_effect_yes_no frame rid base = Inr r \<Longrightarrow> context_safe base \<Longrightarrow> decoded_ok rid r \<and> bounds_ok r"
  by (clarsimp simp: decode_effect_yes_no_def decoder_simps dest!: decoder_dests split del: if_split)
    (auto simp: named_iff candidate_safe_def intro!: cands_ok_named [of "''choice''"])

lemma decode_rock_paper_scissors_ok:
  "decode_rock_paper_scissors frame rid base = Inr r \<Longrightarrow> context_safe base \<Longrightarrow> decoded_ok rid r \<and> bounds_ok r"
  by (clarsimp simp: decode_rock_paper_scissors_def decoder_simps dest!: decoder_dests split del: if_split)
    (auto simp: named_iff indexed_def intro!: cands_ok_named [of "''hand''"])

lemma decode_announce_card_ok:
  "decode_announce_card frame rid base = Inr r \<Longrightarrow> context_safe base \<Longrightarrow> decoded_ok rid r \<and> bounds_ok r"
  by (clarsimp simp: decode_announce_card_def decoder_simps dest!: read_player_ok split del: if_split)
    (auto simp: named_iff list_all_iff intro!: cands_ok_named [of "''input''"])

lemma decode_unselect_card_ok:
  assumes "decode_unselect_card frame rid base = Inr r" and "context_safe base"
  shows "decoded_ok rid r \<and> bounds_ok r"
proof -
  have groups: "cands_ok (xs @ ys @ zs)"
    if "named ''select'' xs" "named ''unselect'' ys" "named ''control'' zs" for xs ys zs
    using that by (intro cands_ok_groups [of "[(''select'', xs), (''unselect'', ys), (''control'', zs)]"]) auto
  from assms show ?thesis
    by (clarsimp simp: decode_unselect_card_def decoder_simps dest!: decoder_dests split del: if_split)
      (auto intro: groups groups [OF _ _ named_Nil, simplified])
qed

lemma decode_battle_command_ok:
  assumes "decode_battle_command frame rid base = Inr r" and "context_safe base"
  shows "decoded_ok rid r \<and> bounds_ok r"
proof -
  have groups: "cands_ok (xs @ ys @ zs)"
    if "named ''activate'' xs" "named ''attack'' ys" "named ''control'' zs" for xs ys zs
    using that by (intro cands_ok_groups [of "[(''activate'', xs), (''attack'', ys), (''control'', zs)]"]) auto
  have control: "named ''control''
      ((if a then [control_candidate ''enter_main_phase_2'' k l b v] else []) @
       (if c then [control_candidate ''end_turn'' k' l' d w] else []))" for a k l b v c k' l' d w
    by (simp add: named_iff)
  from assms show ?thesis
    by (clarsimp simp: decode_battle_command_def decoder_simps dest!: decoder_dests split del: if_split)
      (intro conjI groups control)
qed

lemma position_mask_bits:
  fixes a :: int
  assumes "a = a AND 15" and "a \<noteq> 0"
  shows "a AND 1 \<noteq> 0 \<or> a AND 2 \<noteq> 0 \<or> a AND 4 \<noteq> 0 \<or> a AND 8 \<noteq> 0"
proof (rule ccontr)
  assume "\<not> ?thesis"
  then have "(a AND 1) OR (a AND 2) OR (a AND 4) OR (a AND 8) = 0" by simp
  moreover have "(15::int) = 1 OR 2 OR 4 OR 8" by simp
  ultimately have "a AND 15 = 0" by (simp only: bit.conj_disj_distrib)
  with assms show False by simp
qed

lemma decode_position_ok:
  assumes "decode_position frame rid base = Inr r" and "context_safe base"
  shows "decoded_ok rid r \<and> bounds_ok r"
proof -
  have ok: "cands_ok (map (\<lambda>(p, label). plain_candidate (indexed ''position'' p) ''position'' label
             [(''response_codec'', PStr ''int32''), (''response_value'', PInt (int p))])
        (filter P [(Suc 0, a), (2, b), (4, c), (8, d)]))" for P a b c d
    by (rule cands_ok_named [of "''position''"]) (simp add: named_iff indexed_def)
  have ne: "filter (\<lambda>(p, label). m AND int p \<noteq> 0) [(Suc 0, a), (2, b), (4, c), (8, d)] \<noteq> []"
    if "m = m AND 15" "m \<noteq> 0" for m and a b c d :: string
    using position_mask_bits [OF that] by auto
  from assms show ?thesis
    by (clarsimp simp: decode_position_def decoder_simps ok dest!: decoder_dests simp del: filter.simps)
      (use ok ne in blast)
qed

lemma decode_place_ok:
  assumes "decode_place frame rid base = Inr r" and "context_safe base"
  shows "decoded_ok rid r \<and> bounds_ok r"
proof -
  have label: "candidate_id (zone_candidate c l q) =
      in_group ''zone'' (in_group (str_int c) (in_group (str_int l) (str_nat q)))" for c l q
    by (simp add: zone_candidate_def Let_def in_group_def)
  have zones: "distinct (map (\<lambda>(ctl, loc, seq, b). candidate_id (zone_candidate ctl loc seq)) (zones pl))" for pl
  proof -
    have "pl \<noteq> 1 - pl" by presburger
    then have "distinct (map (\<lambda>(ctl, loc, seq, b). (ctl, loc, seq)) (zones pl))"
      by (simp add: zones_def upt_rec Let_def)
    moreover have "inj (\<lambda>(c, l, q). in_group ''zone'' (in_group (str_int c) (in_group (str_int l) (str_nat q))))"
      by (auto simp: inj_def in_group_eq)
    ultimately have "distinct (map (\<lambda>(c, l, q). in_group ''zone'' (in_group (str_int c) (in_group (str_int l) (str_nat q))))
        (map (\<lambda>(ctl, loc, seq, b). (ctl, loc, seq)) (zones pl)))"
      by (meson distinct_map inj_on_subset subset_UNIV)
    then show ?thesis by (simp add: label o_def case_prod_unfold)
  qed
  have ids: "map candidate_id (place_candidates pl m) =
      map (\<lambda>(ctl, loc, seq, b). candidate_id (zone_candidate ctl loc seq))
        (filter (\<lambda>(ctl, loc, seq, b). (m AND push_bit b 1) = 0) (zones pl))" for pl m
    by (simp add: place_candidates_def o_def case_prod_beta)
  have ok: "cands_ok (place_candidates pl m)" for pl m
  proof (rule cands_ok_named [of "''zone''"], unfold named_iff, intro conjI)
    show "distinct (map candidate_id (place_candidates pl m))"
      unfolding ids by (rule distinct_map_filter [OF zones])
  qed (auto simp: place_candidates_def zone_candidate_def Let_def list_all_iff)
  from assms show ?thesis
    by (clarsimp simp: decode_place_def decoder_simps dest!: decoder_dests split del: if_split)
      (auto simp: ok)
qed

lemma filter_bits_popcount:
  "n < 2 ^ w \<Longrightarrow> length (filter (bit n) [0..<w]) = popcount n"
proof (induction w arbitrary: n)
  case 0
  then show ?case by (simp add: popcount.simps)
next
  case (Suc w)
  have "[0..<Suc w] = 0 # map Suc [0..<w]" by (simp add: upt_conv_Cons map_Suc_upt del: upt_Suc)
  then have "length (filter (bit n) [0..<Suc w]) =
      n mod 2 + length (filter (bit (n div 2)) [0..<w])"
    by (simp add: filter_map o_def bit_Suc bit_0 odd_iff_mod_2_eq_one del: upt_Suc)
  also have "\<dots> = n mod 2 + popcount (n div 2)"
    using Suc by (simp add: less_mult_imp_div_less)
  also have "\<dots> = popcount n"
    by (subst (2) popcount.simps) (simp add: popcount.simps [of 0])
  finally show ?case .
qed

lemma mask_bits:
  assumes "0 \<le> m" and "m < 2 ^ w"
  shows "length (filter (\<lambda>b. (m AND 2 ^ b) \<noteq> 0) [0..<w]) = popcount (nat m)"
proof -
  have "(m AND 2 ^ b \<noteq> 0) = bit (nat m) b" for b
    using assms(1) by (simp add: and_exp_eq_0_iff_not_bit bit_nat_iff)
  moreover have "nat m < 2 ^ w" using assms by (simp add: nat_less_iff)
  ultimately show ?thesis by (simp add: filter_bits_popcount)
qed

lemma decode_announce_mask_ok:
  assumes "decode_announce_mask frame rid base = Inr r" and "context_safe base"
  shows "decoded_ok rid r \<and> bounds_ok r"
proof -
  have ok: "cands_ok (map (bit_candidate f) (filter P [0..<w]))" for f P w
    by (rule cands_ok_named [of "''bit''"])
      (auto simp: named_iff bit_candidate_def indexed_def distinct_map inj_on_def list_all_iff)
  show ?thesis
  proof (cases "frame_message_type frame = Inr MSG_ANNOUNCE_RACE")
    case True
    with assms show ?thesis
      using mask_bits [of _ 64]
      by (clarsimp simp: decode_announce_mask_def decoder_simps ok dest!: decoder_dests)
        (auto simp flip: length_0_conv)
  next
    case False
    with assms show ?thesis
      using mask_bits [of _ 32]
      by (clarsimp simp: decode_announce_mask_def decoder_simps ok dest!: decoder_dests)
        (auto simp flip: length_0_conv)
  qed
qed

lemma named_groups_iff:
  "named_groups ls \<longleftrightarrow> distinct (map fst ls) \<and> list_all (\<lambda>(g, cs). named g cs \<and> CHR '':'' \<notin> set g) ls"
  by (induction ls rule: named_groups.induct) auto

lemma read_idle_groups_named:
  "read_idle_groups gs r = Inr (cs, r') \<Longrightarrow>
    \<exists>ls. cs = concat (map snd ls) \<and> map fst ls = map fst gs \<and> list_all (\<lambda>(g, cs). named g cs) ls"
proof (induction gs r arbitrary: cs r' rule: read_idle_groups.induct)
  case (2 g command_type akind compact gs r)
  from "2.prems" obtain count xs ds r1 r2 r3 where
    "u32 r (g @ ''_count'') = Inr (count, r1)"
    "read_many (read_idle_card g command_type akind compact) 0 (nat count) r1 = Inr (xs, r2)"
    "read_idle_groups gs r2 = Inr (ds, r3)" "cs = xs @ ds"
    by (auto simp: monad_simps)
  with "2.IH" [of "(count, r1)" count r1 "(xs, r2)" xs r2 ds r3] obtain ls where
    "ds = concat (map snd ls)" "map fst ls = map fst gs" "list_all (\<lambda>(g, cs). named g cs) ls" by auto
  moreover have "named g xs"
    using \<open>read_many _ _ _ _ = Inr (xs, r2)\<close> by (auto dest: idle_card.loop_named)
  ultimately show ?case
    using \<open>cs = xs @ ds\<close> by (intro exI [of _ "(g, xs) # ls"]) auto
qed auto

lemma decode_idle_command_ok:
  assumes "decode_idle_command frame rid base = Inr r" and "context_safe base"
  shows "decoded_ok rid r \<and> bounds_ok r"
proof -
  have groups: "cands_ok (cards @ ys @ zs)"
    if "read_idle_groups idle_groups r = Inr (cards, r')" "named ''activate'' ys" "named ''control'' zs"
    for r r' cards ys zs
  proof -
    from read_idle_groups_named [OF that(1)] obtain ls where
      ls: "cards = concat (map snd ls)" "map fst ls = map fst idle_groups" "list_all (\<lambda>(g, cs). named g cs) ls"
      by blast
    have "list_all (\<lambda>g. CHR '':'' \<notin> set g) (map fst ls)" unfolding ls(2) by (simp add: idle_groups_def)
    then have "list_all (\<lambda>(g, cs). named g cs \<and> CHR '':'' \<notin> set g) ls"
      using ls(3) by (auto simp: list_all_iff)
    with ls(2) that(2,3) have "named_groups (ls @ [(''activate'', ys), (''control'', zs)])"
      by (simp add: named_groups_iff idle_groups_def)
    with ls(1) show ?thesis by (intro cands_ok_groups [of "ls @ [(''activate'', ys), (''control'', zs)]"]) simp_all
  qed
  have control: "named ''control''
      ((if a then [control_candidate ''enter_battle_phase'' k l b v] else []) @
       (if c then [control_candidate ''end_turn'' k' l' d w] else []) @
       (if e then [control_candidate ''shuffle_hand'' k'' l'' f x] else []))"
    for a k l b v c k' l' d w e k'' l'' f x
    by (simp add: named_iff)
  from assms show ?thesis
    by (clarsimp simp: decode_idle_command_def decoder_simps dest!: decoder_dests split del: if_split)
      (intro conjI groups control)
qed

text \<open>Only a tribute request may ask for more selections than it allows.\<close>

lemma decoder_of_ok:
  assumes "decoder_of m frame rid base = Inr r" and "context_safe base"
  shows "decoded_ok rid r" and "m \<noteq> MSG_SELECT_TRIBUTE \<Longrightarrow> bounds_ok r"
  using assms by (cases m; simp add: decode_battle_command_ok decode_idle_command_ok
    decode_effect_yes_no_ok decode_yes_no_ok decode_option_ok decode_card_ok decode_chain_ok
    decode_place_ok decode_position_ok decode_tribute_ok decode_sort_ok decode_counter_ok
    decode_sum_ok decode_unselect_card_ok decode_rock_paper_scissors_ok decode_announce_mask_ok
    decode_announce_card_ok decode_announce_number_ok)+

end
