(* ===== verification/Response_Codecs.thy ===== *)
theory Response_Codecs
  imports Batch_Decoder "HOL-Library.Product_Lexorder"
begin

text \<open>
  \<open>protocol.py\<close>, class \<open>ActionResponseEncoder\<close>: the codecs, one per response layout of the native
  core. A codec gets the request, the candidates the action selects, in the order of the
  selections, and the selections themselves, and returns the bytes of the response.
\<close>

unbundle bit_operations_syntax

type_synonym codec =
  "decision_request \<Rightarrow> candidate list \<Rightarrow> selection list \<Rightarrow> py_error + byte list"

section \<open>Shared pieces\<close>

text \<open>\<open>InvalidBridgeResponseError(message)\<close>, without a context of its own.\<close>

definition invalid :: "string \<Rightarrow> py_error + 'a" where
  "invalid m = Inl (InvalidResponse m [])"

definition payload_get :: "candidate \<Rightarrow> string \<Rightarrow> pyval" where
  "payload_get c k = dict_get (c_payload c) k"

definition extra_get :: "decision_request \<Rightarrow> string \<Rightarrow> pyval" where
  "extra_get r k = dict_get (extra (req_context r)) k"

text \<open>The dictionary a comprehension over \<open>(key, value)\<close> pairs builds: a later key overwrites.\<close>

definition dict_of :: "('k \<times> 'v) list \<Rightarrow> ('k \<times> 'v) list" where
  "dict_of ps = foldl (\<lambda>d (k, v). AList.update k v d) [] ps"

text \<open>
  \<open>for x, y in zip(xs, ys, strict=True)\<close>: the body runs on the pairs there are, then a length
  mismatch raises.
\<close>

definition for_zip :: "('a \<Rightarrow> 'b \<Rightarrow> py_error + 'c) \<Rightarrow> 'a list \<Rightarrow> 'b list \<Rightarrow> py_error + 'c list" where
  "for_zip f xs ys =
    sbind (sseq (map2 f xs ys)) (\<lambda>zs.
      if length xs \<noteq> length ys then Inl (ValueError ''zip() arguments differ in length'') else Inr zs)"

definition int32_bytes :: "int \<Rightarrow> byte list" where
  "int32_bytes v = le_bytes 4 v"

definition fits_int32 :: "pyval \<Rightarrow> bool" where
  "fits_int32 v \<longleftrightarrow> is_strict_int v \<and> - (2 ^ 31) \<le> int_val v \<and> int_val v < 2 ^ 31"

section \<open>A 32-bit number\<close>

definition encode_int32 :: codec where
  "encode_int32 r selected ss =
    (case selected of
       [c] \<Rightarrow>
         if payload_get c ''response_codec'' \<noteq> PStr ''int32''
         then invalid ''candidate does not use the int32 response codec''
         else if \<not> fits_int32 (payload_get c ''response_value'')
         then invalid ''candidate response_value must fit int32''
         else Inr (int32_bytes (int_val (payload_get c ''response_value'')))
     | _ \<Rightarrow> invalid ''int32 response requires exactly one candidate'')"

section \<open>Card indices\<close>

definition card_index :: "candidate \<Rightarrow> py_error + int" where
  "card_index c =
    (if payload_get c ''response_codec'' \<noteq> PStr ''card_indices''
     then invalid ''candidate does not use the card_indices response codec''
     else let index = payload_get c ''response_index'' in
       if \<not> is_strict_int index \<or> int_val index < 0 \<or> int_val index > 0xFFFFFFFF
       then invalid ''candidate response_index must fit uint32''
       else Inr (int_val index))"

text \<open>\<open>struct.Struct("<iI").pack(kind, count)\<close>.\<close>

definition card_header :: "int \<Rightarrow> nat \<Rightarrow> py_error + byte list" where
  "card_header kind n =
    sbind (pack_signed 4 kind) (\<lambda>a. sbind (pack_unsigned 4 (int n)) (\<lambda>b. Inr (a @ b)))"

definition encode_card_index_payload :: "candidate list \<Rightarrow> py_error + byte list" where
  "encode_card_index_payload selected =
    sbind (sseq (map card_index selected)) (\<lambda>indices.
    if indices = [] then card_header 2 0
    else if \<not> distinct indices
    then invalid ''selected candidates contain duplicate core indices''
    else let indices = sort indices in
      if last indices \<le> 0xFF \<and> length indices \<le> 0xFFFFFFFF
      then sbind (card_header 2 (length indices)) (\<lambda>h. Inr (h @ map word_of_int indices))
      else if last indices \<le> 0xFFFF
      then sbind (card_header 1 (length indices)) (\<lambda>h.
           sbind (pack_list (pack_unsigned 2) indices) (\<lambda>b. Inr (h @ b)))
      else sbind (card_header 0 (length indices)) (\<lambda>h.
           sbind (pack_list (pack_unsigned 4) indices) (\<lambda>b. Inr (h @ b))))"

definition encode_card_indices :: codec where
  "encode_card_indices r selected ss =
    (let cancelable = (extra_get r ''cancelable'' = PBool True);
         core_min = extra_get r ''core_min'';
         core_max = extra_get r ''core_max''
     in if \<not> is_int core_min \<or> \<not> is_int core_max
        then invalid ''select_card is missing native min/max metadata''
        else if selected = []
        then if \<not> cancelable then invalid ''select_card is not cancelable'' else Inr (int32_bytes (-1))
        else if \<not> (int_val core_min \<le> int (length selected) \<and> int (length selected) \<le> int_val core_max)
        then invalid ''selected card count violates the native min/max constraint''
        else encode_card_index_payload selected)"

section \<open>Tributes\<close>

definition release_value :: "candidate \<Rightarrow> py_error + int" where
  "release_value c =
    (let v = payload_get c ''release_value'' in
     if \<not> is_strict_int v \<or> int_val v \<le> 0
     then invalid ''tribute candidate release_value must be a positive integer''
     else Inr (int_val v))"

definition encode_tribute_indices :: codec where
  "encode_tribute_indices r selected ss =
    (let cancelable = (extra_get r ''cancelable'' = PBool True);
         core_min = extra_get r ''core_min'';
         core_max = extra_get r ''core_max''
     in if \<not> is_int core_min \<or> \<not> is_int core_max
        then invalid ''select_tribute is missing native min/max metadata''
        else if selected = []
        then if \<not> cancelable then invalid ''select_tribute is not cancelable'' else Inr (int32_bytes (-1))
        else if int (length selected) > int_val core_max
        then invalid ''selected tribute count exceeds the native maximum''
        else sbind (sseq (map release_value selected)) (\<lambda>values.
          if sum_list values < int_val core_min
          then invalid ''selected tribute value is below the native minimum''
          else encode_card_index_payload selected))"

section \<open>Counters\<close>

definition counter_allocation :: "candidate \<Rightarrow> selection \<Rightarrow> py_error + string \<times> int" where
  "counter_allocation c s =
    (let v = s_value s; available = payload_get c ''available_count'' in
     if \<not> is_strict_int v \<or> int_val v \<le> 0 \<or> \<not> is_int available \<or> int_val v > int_val available
     then invalid ''counter allocation must be a positive integer within availability''
     else Inr (candidate_id c, int_val v))"

definition allocated :: "(string \<times> int) list \<Rightarrow> string \<Rightarrow> int" where
  "allocated vals i = (case map_of vals i of None \<Rightarrow> 0 | Some v \<Rightarrow> v)"

definition encode_counter_vector :: codec where
  "encode_counter_vector r selected ss =
    (let required_count = extra_get r ''required_count'' in
     if \<not> is_int required_count \<or> int_val required_count \<le> 0
     then invalid ''select_counter is missing required_count metadata''
     else sbind (for_zip counter_allocation selected ss) (\<lambda>pairs.
       let selected_values = dict_of pairs in
       if sum_list (map snd selected_values) \<noteq> int_val required_count
       then invalid ''counter allocation total does not match required_count''
       else sbind (sseq (map (\<lambda>c.
              let v = allocated selected_values (candidate_id c) in
              if v > 0x7FFF then invalid ''counter allocation must fit positive int16'' else Inr v)
            (candidates r)))
         (\<lambda>values. pack_list (pack_signed 2) values)))"

section \<open>Sums\<close>

definition sum_options :: "int \<Rightarrow> int list" where
  "sum_options sum_param =
    (let first = sum_param AND 0xFFFF; second = drop_bit 16 sum_param
     in if second = 0 \<or> second = first then [first] else [first, second])"

text \<open>The set of the subtotals reachable after the values so far, as a list without repetitions.\<close>

definition reach_step :: "int list \<Rightarrow> int \<Rightarrow> int list" where
  "reach_step reachable v =
    remdups (concat (map (\<lambda>subtotal. map (\<lambda>x. subtotal + x) (sum_options v)) reachable))"

definition reachable_sums :: "int list \<Rightarrow> int list" where
  "reachable_sums vs = foldl reach_step [0] vs"

definition list_min :: "int list \<Rightarrow> int" where
  "list_min xs = foldl min (hd xs) (tl xs)"

definition list_max :: "int list \<Rightarrow> int" where
  "list_max xs = foldl max (hd xs) (tl xs)"

text \<open>The threshold test of mode 1: the target is met, and not without the smallest value.\<close>

definition minimal_threshold :: "int list \<Rightarrow> int \<Rightarrow> bool" where
  "minimal_threshold vs target =
    (let minimums = map (\<lambda>v. list_min (sum_options v)) vs;
         maximum = sum_list (map (\<lambda>v. list_max (sum_options v)) vs)
     in \<not> (maximum < target \<or> sum_list minimums - list_min minimums \<ge> target))"

definition sum_parameter :: "candidate \<Rightarrow> py_error + int" where
  "sum_parameter c =
    (let v = payload_get c ''sum_param'' in
     if \<not> is_strict_int v then invalid ''sum candidate sum_param must be an integer'' else Inr (int_val v))"

definition encode_sum_indices :: codec where
  "encode_sum_indices r selected ss =
    (let mode = extra_get r ''mode'';
         target = extra_get r ''target'';
         must_params = extra_get r ''must_sum_params''
     in case must_params of
       PList must \<Rightarrow>
         if \<not> (eq_int mode 0 \<or> eq_int mode 1) \<or> \<not> is_int target \<or> \<not> list_all is_int must
         then invalid ''select_sum metadata is invalid''
         else sbind (sseq (map sum_parameter selected)) (\<lambda>selected_params.
           let all_params = map int_val must @ selected_params in
           if all_params = [] then invalid ''select_sum response selects no values''
           else if eq_int mode 0
           then if int_val target \<notin> set (reachable_sums all_params)
                then invalid ''selected sum cards cannot produce the required exact value''
                else encode_card_index_payload selected
           else if \<not> minimal_threshold all_params (int_val target)
                then invalid ''selected sum cards do not form a minimal threshold set''
                else encode_card_index_payload selected)
     | _ \<Rightarrow> invalid ''select_sum metadata is invalid'')"

section \<open>Unselect\<close>

definition encode_unselect_action :: codec where
  "encode_unselect_action r selected ss =
    (case selected of
       [c] \<Rightarrow>
         if payload_get c ''response_codec'' \<noteq> PStr ''unselect_action''
         then invalid ''candidate does not use the unselect_action response codec''
         else let index = payload_get c ''response_index'' in
           if eq_int index (-1) then Inr (int32_bytes (-1))
           else if \<not> is_strict_int index \<or> int_val index < 0
           then invalid ''unselect response_index must be non-negative or -1''
           else pack_list (pack_signed 4) [1, int_val index]
     | _ \<Rightarrow> invalid ''select_unselect_card requires exactly one action'')"

section \<open>Sort order\<close>

definition sort_cards :: "decision_request \<Rightarrow> candidate list" where
  "sort_cards r = filter (\<lambda>c. \<not> eq_int (payload_get c ''response_index'') (-1)) (candidates r)"

text \<open>\<open>bytes(values)\<close> raises \<open>ValueError\<close> for a number that is not a byte.\<close>

definition py_bytes :: "int list \<Rightarrow> py_error + byte list" where
  "py_bytes vs =
    (if list_all (\<lambda>v. 0 \<le> v \<and> v < 256) vs then Inr (map word_of_int vs)
     else Inl (ValueError ''bytes must be in range(0, 256)''))"

definition encode_sort_order :: codec where
  "encode_sort_order r selected ss =
    (if length selected = 1 \<and> eq_int (payload_get (hd selected) ''response_index'') (-1)
     then Inr [0xFF]
     else let cards = sort_cards r in
       if length selected \<noteq> length cards
       then invalid ''sort response must order every card or keep the current order''
       else sbind (for_zip (\<lambda>c s. Inr (candidate_id c, order s)) selected ss) (\<lambda>pairs.
         let orders = dict_of pairs in
         sbind (sseq (map (\<lambda>c.
             case map_of orders (candidate_id c) of
               Some v \<Rightarrow> if is_strict_int v then Inr (int_val v)
                         else invalid ''sort response is missing a candidate order''
             | None \<Rightarrow> invalid ''sort response is missing a candidate order'') cards))
           (\<lambda>values.
             if sort values \<noteq> map int [0..<length cards]
             then invalid ''sort response requires each order exactly once from zero''
             else py_bytes values)))"

section \<open>Bit masks\<close>

definition mask_bit :: "candidate \<Rightarrow> py_error + int" where
  "mask_bit c =
    (let b = payload_get c ''response_bit'' in
     if \<not> is_strict_int b \<or> int_val b \<le> 0
     then invalid ''mask candidate response_bit must be a positive integer''
     else Inr (int_val b))"

definition encode_bit_mask :: codec where
  "encode_bit_mask r selected ss =
    sbind (sseq (map mask_bit selected)) (\<lambda>bits.
      let mask = foldl (OR) 0 bits; width = extra_get r ''response_width''
      in if eq_int width 64 then pack_unsigned 8 mask
         else if eq_int width 32 \<and> mask \<le> 0xFFFFFFFF then pack_unsigned 4 mask
         else invalid ''mask response width or value is invalid'')"

section \<open>A number of the selection\<close>

definition encode_selection_int32 :: codec where
  "encode_selection_int32 r selected ss =
    (case (selected, ss) of
       ([c], [s]) \<Rightarrow>
         if payload_get c ''response_codec'' \<noteq> PStr ''selection_int32''
         then invalid ''candidate does not use the selection_int32 response codec''
         else if \<not> fits_int32 (s_value s)
         then invalid ''selection value must fit int32''
         else Inr (int32_bytes (int_val (s_value s)))
     | _ \<Rightarrow> invalid ''selection_int32 response requires exactly one selection'')"

section \<open>Zones\<close>

definition fits_uint8 :: "pyval \<Rightarrow> bool" where
  "fits_uint8 v \<longleftrightarrow> is_strict_int v \<and> 0 \<le> int_val v \<and> int_val v \<le> 0xFF"

definition place_triplet :: "candidate \<Rightarrow> py_error + int \<times> int \<times> int" where
  "place_triplet c =
    (if payload_get c ''response_codec'' \<noteq> PStr ''place_triplets''
     then invalid ''candidate does not use the place_triplets response codec''
     else let a = payload_get c ''response_controller'';
              b = payload_get c ''response_location'';
              d = payload_get c ''response_sequence''
       in if \<not> (fits_uint8 a \<and> fits_uint8 b \<and> fits_uint8 d)
          then invalid ''place response controller/location/sequence must fit uint8''
          else Inr (int_val a, int_val b, int_val d))"

definition triplet_bytes :: "int \<times> int \<times> int \<Rightarrow> byte list" where
  "triplet_bytes t = (case t of (a, b, d) \<Rightarrow> [word_of_int a, word_of_int b, word_of_int d])"

definition encode_place :: codec where
  "encode_place r selected ss =
    sbind (sseq (map place_triplet selected)) (\<lambda>triplets.
      let triplets = sort triplets in
      if \<not> distinct triplets then invalid ''place response contains duplicate zones''
      else Inr (concat (map triplet_bytes triplets)))"

end
