(* ===== verification/Response_Encoder.thy ===== *)
theory Response_Encoder
  imports Response_Codecs
begin

text \<open>
  \<open>protocol.py\<close>, class \<open>ActionResponseEncoder\<close> continued: the registry of codecs, the checks that
  come before and after the codec, and the verification of a recorded trace.
\<close>

record encoded_response =
  er_request_type :: string
  er_request_signature :: string
  er_selected_ids :: "string list"
  er_data :: "byte list"
  codec_version :: string

text \<open>\<open>bytes.hex\<close>, and the trace of a response.\<close>

definition to_trace_dict :: "encoded_response \<Rightarrow> pydict" where
  "to_trace_dict e =
    [(''codec_version'', PStr (codec_version e)),
     (''request_signature'', PStr (er_request_signature e)),
     (''request_type'', PStr (er_request_type e)),
     (''response_hex'', PStr (hex_of_bytes (er_data e))),
     (''response_length'', PInt (int (length (er_data e)))),
     (''response_sha256'', PStr (sha256_hexdigest (er_data e))),
     (''selected_candidate_ids'', PList (map PStr (er_selected_ids e)))]"

definition make_encoder :: "int \<times> int \<Rightarrow> py_error + int \<times> int" where
  "make_encoder api =
    (if api \<noteq> API_VERSION
     then Inl (VersionMismatch (''encoder supports ocgcore API '' @ str_int (fst API_VERSION) @ ''.''
                @ str_int (snd API_VERSION) @ '', got '' @ str_int (fst api) @ ''.'' @ str_int (snd api)))
     else Inr api)"

definition encoder_registry :: "(string \<times> codec) list" where
  "encoder_registry =
    [(''select_battle_command'', encode_int32),
     (''select_idle_command'', encode_int32),
     (''select_effect_yes_no'', encode_int32),
     (''select_yes_no'', encode_int32),
     (''select_option'', encode_int32),
     (''select_card'', encode_card_indices),
     (''select_chain'', encode_int32),
     (''select_place'', encode_place),
     (''select_disabled_field'', encode_place),
     (''select_position'', encode_int32),
     (''select_tribute'', encode_tribute_indices),
     (''select_counter'', encode_counter_vector),
     (''select_sum'', encode_sum_indices),
     (''select_unselect_card'', encode_unselect_action),
     (''sort_chain'', encode_sort_order),
     (''sort_card'', encode_sort_order),
     (''rock_paper_scissors'', encode_int32),
     (''announce_race'', encode_bit_mask),
     (''announce_attribute'', encode_bit_mask),
     (''announce_card'', encode_selection_int32),
     (''announce_number'', encode_int32)]"

definition supported_request_types :: "string list" where
  "supported_request_types = sort (map fst encoder_registry)"

definition validate_owned_payloads :: "candidate list \<Rightarrow> py_error + unit" where
  "validate_owned_payloads cs =
    sbind (sseq (map (\<lambda>c. case canonical_json (PDict (c_payload c)) of
         Inl _ \<Rightarrow> invalid (''candidate '' @ repr_str (candidate_id c) @ '' payload is not owned primitive data'')
       | Inr _ \<Rightarrow> Inr ()) cs)) (\<lambda>_. Inr ())"

text \<open>The candidates of the selections, looked up in a dictionary of the request's candidates.\<close>

definition selected_candidates :: "decision_request \<Rightarrow> selection list \<Rightarrow> py_error + candidate list" where
  "selected_candidates r ss =
    (let candidate_by_id = dict_of (map (\<lambda>c. (candidate_id c, c)) (candidates r))
     in sseq (map (\<lambda>s. case map_of candidate_by_id (s_candidate_id s) of
          None \<Rightarrow> Inl (KeyError (s_candidate_id s)) | Some c \<Rightarrow> Inr c) ss))"

text \<open>
  The set of declared action kinds, given by the list of its members; building it needs hashable
  members. It equals \<open>{kind}\<close> when it is not empty and has no other member.
\<close>

definition declared_action_kinds :: "candidate list \<Rightarrow> py_error + pyval list" where
  "declared_action_kinds cs =
    (let kinds = map (\<lambda>c. payload_get c ''action_kind'')
                   (filter (\<lambda>c. map_of (c_payload c) ''action_kind'' \<noteq> None) cs)
     in if list_all hashable kinds then Inr kinds else Inl (TypeError ''unhashable type''))"

definition orders_valid :: "selection list \<Rightarrow> bool" where
  "orders_valid ss \<longleftrightarrow>
    (let orders = map order ss in
     list_all is_strict_int orders \<and> sort (map int_val orders) = map int [0..<length orders])"

definition encode_checked :: "decision_request \<Rightarrow> action \<Rightarrow> py_error + encoded_response" where
  "encode_checked req act =
    sbind (validate_decision_request req) (\<lambda>_.
    if a_player act \<noteq> player req
    then invalid ''action.player does not match request.player''
    else sbind (validate_decision_response req
        \<lparr>resp_request_id = request_id req, resp_request_signature = a_request_signature act,
         selected_candidate_ids = map s_candidate_id (selections act), resp_payload = []\<rparr>) (\<lambda>_.
    case map_of encoder_registry (request_type req) of
      None \<Rightarrow> Inl (UnsupportedMessage (''no response codec for request_type ''
                @ repr_str (request_type req) @ '' in '' @ RESPONSE_CODEC_VERSION) [])
    | Some codec \<Rightarrow>
      sbind (selected_candidates req (selections act)) (\<lambda>selected.
      sbind (validate_owned_payloads selected) (\<lambda>_.
      sbind (declared_action_kinds selected) (\<lambda>kinds.
      if kinds \<noteq> [] \<and> \<not> list_all (\<lambda>k. k = PStr (action_kind_value (a_kind act))) kinds
      then invalid ''action.kind does not match the selected candidate action_kind''
      else if ordered (req_constraints req) \<and> \<not> orders_valid (selections act)
      then invalid ''ordered response requires each order exactly once from zero''
      else sbind (codec req selected (selections act)) (\<lambda>bytes.
      if bytes = [] then invalid ''response codec produced an empty buffer''
      else if int (length bytes) > MAX_RESPONSE_BYTES
      then invalid (''response buffer exceeds '' @ str_int MAX_RESPONSE_BYTES @ '' bytes'')
      else sbind (request_signature req) (\<lambda>sig.
      Inr \<lparr>er_request_type = request_type req, er_request_signature = sig,
           er_selected_ids = map candidate_id selected, er_data = bytes,
           codec_version = RESPONSE_CODEC_VERSION\<rparr>)))))))"

text \<open>\<open>encode\<close>: an invalid response without a context is given one.\<close>

definition encode :: "decision_request \<Rightarrow> action \<Rightarrow> py_error + encoded_response" where
  "encode req act =
    (case encode_checked req act of
       Inl (InvalidResponse m ctx) \<Rightarrow>
         if ctx \<noteq> [] then Inl (InvalidResponse m ctx)
         else let request_diagnostic =
             (case request_to_dict req of
                Inl _ \<Rightarrow> [(''request_id'', PStr (request_id req)),
                          (''request_type'', PStr (request_type req)),
                          (''serialization_error'', PStr ''request identity contains non-primitive data'')]
              | Inr d \<Rightarrow> d)
           in Inl (InvalidResponse m
                [(''request'', PDict request_diagnostic), (''response'', PDict (action_to_dict act))])
     | result \<Rightarrow> result)"

text \<open>Equality of a trace entry with the expected one; numbers compare by value.\<close>

fun trace_equal :: "pyval \<Rightarrow> pyval \<Rightarrow> bool" where
  "trace_equal v (PInt n) = eq_int v n"
| "trace_equal v w = (v = w)"

definition verify_trace :: "decision_request \<Rightarrow> action \<Rightarrow> pydict \<Rightarrow> py_error + encoded_response" where
  "verify_trace req act trace =
    sbind (encode req act) (\<lambda>encoded.
      let expected = to_trace_dict encoded in
      sbind (sseq (map (\<lambda>key.
          if \<not> trace_equal (dict_get trace key) (dict_get expected key)
          then invalid (''response trace mismatch for '' @ key) else Inr ())
        [''codec_version'', ''request_signature'', ''request_type'', ''response_hex'',
         ''response_length'', ''response_sha256'', ''selected_candidate_ids'']))
      (\<lambda>_. Inr encoded))"

end
