(* ===== verification/Codec_Laws.thy ===== *)
theory Codec_Laws
  imports Response_Encoder
begin

text \<open>
  What the bytes of a response mean to the native core: for each layout the parser of the core's
  side, and the proof that it reads back the answer the codec was given. The contract is stated
  as an interface, whose consequences (no two answers share their bytes; what a successful
  \<open>encode\<close> transmits) are proved once.
\<close>

unbundle bit_operations_syntax

section \<open>Loops that check and collect\<close>

lemma sseq_map_checked:
  assumes "\<And>x. f x = (if P x then Inr (g x) else Inl (e x))"
  shows "sseq (map f xs) = Inr ys \<longleftrightarrow> list_all P xs \<and> ys = map g xs"
  unfolding sseq_eq_Inr by (induction xs arbitrary: ys) (auto simp: assms Cons_eq_map_conv)

lemma for_zip_checked:
  assumes "\<And>x y. f x y = (if P x y then Inr (g x y) else Inl (e x y))"
  shows "for_zip f xs ys = Inr zs \<longleftrightarrow>
    length xs = length ys \<and> list_all2 P xs ys \<and> zs = map2 g xs ys"
proof -
  have eq: "map2 f xs ys = map (\<lambda>p. f (fst p) (snd p)) (zip xs ys)"
    by (simp add: case_prod_unfold)
  have "sseq (map2 f xs ys) = Inr zs \<longleftrightarrow>
      list_all (\<lambda>p. P (fst p) (snd p)) (zip xs ys) \<and> zs = map2 g xs ys"
    unfolding eq using sseq_map_checked [of "\<lambda>p. f (fst p) (snd p)" "\<lambda>p. P (fst p) (snd p)"
        "\<lambda>p. g (fst p) (snd p)" "\<lambda>p. e (fst p) (snd p)" "zip xs ys" zs] assms
    by (simp add: case_prod_unfold)
  then show ?thesis
    by (auto simp: for_zip_def monad_simps list_all2_iff list_all_iff)
qed

lemma dict_of_snoc: "dict_of (ps @ [(k, v)]) = AList.update k v (dict_of ps)"
  by (simp add: dict_of_def)

lemma map_of_dict_of: "map_of (dict_of ps) = map_of (rev ps)"
proof (induction ps rule: rev_induct)
  case Nil
  then show ?case by (simp add: dict_of_def)
next
  case (snoc kv ps)
  then show ?case by (cases kv) (simp add: dict_of_snoc update_conv')
qed

lemma update_fresh: "k \<notin> set (map fst d) \<Longrightarrow> AList.update k v d = d @ [(k, v)]"
  by (induction d) auto

lemma dict_of_distinct: "distinct (map fst ps) \<Longrightarrow> dict_of ps = ps"
proof (induction ps rule: rev_induct)
  case Nil
  then show ?case by (simp add: dict_of_def)
next
  case (snoc kv ps)
  then show ?case by (cases kv) (simp add: dict_of_snoc update_fresh)
qed

section \<open>The contract\<close>

locale native_layout =
  fixes codec :: codec
    and parse :: "byte list \<Rightarrow> 'm"
    and meaning :: "decision_request \<Rightarrow> candidate list \<Rightarrow> selection list \<Rightarrow> 'm"
  assumes parse_codec: "codec r cs ss = Inr bs \<Longrightarrow> parse bs = meaning r cs ss"
begin

lemma same_bytes_same_meaning:
  "codec r cs ss = Inr bs \<Longrightarrow> codec r' cs' ss' = Inr bs \<Longrightarrow> meaning r cs ss = meaning r' cs' ss'"
  using parse_codec by metis

end

section \<open>A 32-bit number\<close>

definition parse_int32 :: "byte list \<Rightarrow> int option" where
  "parse_int32 bs = (if length bs = 4 then Some (le_sint bs) else None)"

definition response_value :: "candidate \<Rightarrow> int" where
  "response_value c = int_val (payload_get c ''response_value'')"

lemma fits_int32_signed: "fits_int32 v \<Longrightarrow> fits_signed 4 (int_val v)"
  by (simp add: fits_int32_def fits_signed_def)

lemma parse_int32_bytes: "fits_signed 4 v \<Longrightarrow> parse_int32 (int32_bytes v) = Some v"
  by (simp add: parse_int32_def int32_bytes_def le_sint_le_bytes)

lemma length_int32_bytes [simp]: "length (int32_bytes v) = 4"
  by (simp add: int32_bytes_def)

lemma encode_int32_iff:
  "encode_int32 r cs ss = Inr bs \<longleftrightarrow> (\<exists>c. cs = [c] \<and>
    payload_get c ''response_codec'' = PStr ''int32'' \<and> fits_int32 (payload_get c ''response_value'') \<and>
    bs = int32_bytes (response_value c))"
  by (auto simp: encode_int32_def invalid_def response_value_def split: list.splits)

interpretation int32: native_layout encode_int32 parse_int32 "\<lambda>r cs ss. Some (response_value (hd cs))"
  by unfold_locales
    (auto simp: encode_int32_iff response_value_def intro!: parse_int32_bytes fits_int32_signed)

definition selection_value :: "selection \<Rightarrow> int" where
  "selection_value s = int_val (s_value s)"

lemma encode_selection_int32_iff:
  "encode_selection_int32 r cs ss = Inr bs \<longleftrightarrow> (\<exists>c s. cs = [c] \<and> ss = [s] \<and>
    payload_get c ''response_codec'' = PStr ''selection_int32'' \<and> fits_int32 (s_value s) \<and>
    bs = int32_bytes (selection_value s))"
  by (auto simp: encode_selection_int32_def invalid_def selection_value_def split: list.splits)

interpretation selection_int32: native_layout encode_selection_int32 parse_int32
  "\<lambda>r cs ss. Some (selection_value (hd ss))"
  by unfold_locales
    (auto simp: encode_selection_int32_iff selection_value_def intro!: parse_int32_bytes fits_int32_signed)

section \<open>Card indices\<close>

definition response_index :: "candidate \<Rightarrow> int" where
  "response_index c = int_val (payload_get c ''response_index'')"

definition indexed_card :: "candidate \<Rightarrow> bool" where
  "indexed_card c \<longleftrightarrow> payload_get c ''response_codec'' = PStr ''card_indices'' \<and>
    is_strict_int (payload_get c ''response_index'') \<and> 0 \<le> response_index c \<and> response_index c \<le> 0xFFFFFFFF"

lemma card_index_checked:
  "card_index c = (if indexed_card c then Inr (response_index c)
     else Inl (InvalidResponse (if payload_get c ''response_codec'' \<noteq> PStr ''card_indices''
       then ''candidate does not use the card_indices response codec''
       else ''candidate response_index must fit uint32'') []))"
  by (auto simp: card_index_def indexed_card_def response_index_def invalid_def Let_def)

text \<open>The core reads an empty list from a cancel, or a kind, a count and the indices.\<close>

definition index_width :: "int \<Rightarrow> nat" where
  "index_width kind = (if kind = 2 then 1 else if kind = 1 then 2 else 4)"

definition parse_indices :: "byte list \<Rightarrow> int list option" where
  "parse_indices bs =
    (if length bs = 4 then None
     else Some (unpack_list le_int (index_width (le_sint (take 4 bs)))
            (nat (le_int (take 4 (drop 4 bs)))) (drop 8 bs)))"

lemma card_header_Inr:
  "card_header kind n = Inr h \<longleftrightarrow>
    fits_signed 4 kind \<and> fits_unsigned 4 (int n) \<and> h = le_bytes 4 kind @ le_bytes 4 (int n)"
  by (auto simp: card_header_def pack_signed_def pack_unsigned_def monad_simps)

lemma parse_indices_written:
  assumes "fits_signed 4 kind" and "fits_unsigned 4 (int (length is))" and "w = index_width kind"
    and "list_all (fits_unsigned w) is"
  shows "parse_indices (le_bytes 4 kind @ le_bytes 4 (int (length is)) @ concat (map (le_bytes w) is)) = Some is"
  using assms uint_le.unpack_packed [of w "is" "[]"]
  by (simp add: parse_indices_def le_sint_le_bytes uint_le.unpack_pack)

lemma bytes_le_bytes: "map word_of_int is = concat (map (le_bytes 1) is)"
  by (induction "is") simp_all

lemma sorted_all_le: "sorted is \<Longrightarrow> last is \<le> b \<Longrightarrow> i \<in> set is \<Longrightarrow> i \<le> (b :: int)"
  by (induction "is" rule: rev_induct) (auto simp: sorted_append)

lemma pack_list_unsigned_Inr:
  "pack_list (pack_unsigned n) vs = Inr bs \<longleftrightarrow>
    list_all (fits_unsigned n) vs \<and> bs = concat (map (le_bytes n) vs)"
  by (auto simp: pack_list_unsigned)

lemma pack_list_signed_Inr:
  "pack_list (pack_signed n) vs = Inr bs \<longleftrightarrow>
    list_all (fits_signed n) vs \<and> bs = concat (map (le_bytes n) vs)"
  by (auto simp: pack_list_signed)

lemma encode_card_index_payload_parse:
  assumes "encode_card_index_payload cs = Inr bs"
  shows "parse_indices bs = Some (sort (map response_index cs))"
    and "distinct (map response_index cs)" and "list_all indexed_card cs" and "8 \<le> length bs"
proof -
  define ks where "ks = sort (map response_index cs)"
  have seq: "sseq (map card_index cs) = Inr is \<longleftrightarrow> list_all indexed_card cs \<and> is = map response_index cs" for "is"
    by (rule sseq_map_checked) (rule card_index_checked)
  from assms have ok: "list_all indexed_card cs"
    by (auto simp: encode_card_index_payload_def monad_simps seq)
  then show "list_all indexed_card cs" .
  have nonneg: "k \<in> set ks \<Longrightarrow> 0 \<le> k \<and> k \<le> 0xFFFFFFFF" for k
    using ok by (auto simp: ks_def list_all_iff indexed_card_def)
  show "distinct (map response_index cs)"
    using assms by (auto simp: encode_card_index_payload_def monad_simps seq invalid_def split: if_splits)
  have head: "parse_indices bs = Some ks \<and> 8 \<le> length bs"
    if "card_header kind (length ks) = Inr h" "bs = h @ concat (map (le_bytes w) ks)"
      "w = index_width kind" "list_all (fits_unsigned w) ks" for kind h w
    using that parse_indices_written [of kind ks w] by (auto simp: card_header_Inr)
  have "parse_indices bs = Some ks \<and> 8 \<le> length bs"
  proof (cases "cs = []")
    case True
    with assms show ?thesis
      using head [of 2 bs 1] by (simp add: encode_card_index_payload_def ks_def index_width_def)
  next
    case False
    then have ne: "ks \<noteq> []" by (auto simp: ks_def dest: arg_cong [where f = length])
    have bound: "list_all (fits_unsigned w) ks" if "last ks \<le> b" "b < 256 ^ w" for b w
      using sorted_all_le [of ks b] ne that nonneg
      by (fastforce simp: list_all_iff fits_unsigned_def ks_def)
    show ?thesis
    proof (cases "last ks \<le> 0xFF \<and> length ks \<le> 0xFFFFFFFF")
      case True
      with assms False show ?thesis
        using head [of 2 _ 1] bound [of 255 1]
        by (auto simp: encode_card_index_payload_def monad_simps seq invalid_def ks_def [symmetric]
            Let_def bytes_le_bytes index_width_def split: if_splits)
    next
      case wide: False
      then obtain kind h w where "card_header kind (length ks) = Inr h" "w = index_width kind"
        "list_all (fits_unsigned w) ks" "bs = h @ concat (map (le_bytes w) ks)"
        using assms False
        by (auto simp: encode_card_index_payload_def monad_simps seq invalid_def ks_def [symmetric]
            Let_def index_width_def pack_list_unsigned_Inr split: if_splits)
      with head show ?thesis by blast
    qed
  qed
  then show "parse_indices bs = Some (sort (map response_index cs))" and "8 \<le> length bs"
    by (simp_all add: ks_def)
qed

definition cards_read :: "candidate list \<Rightarrow> int list" where
  "cards_read cs = sort (map response_index cs)"

lemma parse_indices_cancel [simp]: "parse_indices (int32_bytes v) = None"
  by (simp add: parse_indices_def)

interpretation card_indices: native_layout encode_card_indices parse_indices
  "\<lambda>r cs ss. if cs = [] then None else Some (cards_read cs)"
  by unfold_locales
    (auto simp: encode_card_indices_def Let_def invalid_def cards_read_def
      dest: encode_card_index_payload_parse split: if_splits)

interpretation tribute_indices: native_layout encode_tribute_indices parse_indices
  "\<lambda>r cs ss. if cs = [] then None else Some (cards_read cs)"
  by unfold_locales
    (auto simp: encode_tribute_indices_def Let_def invalid_def cards_read_def monad_simps
      dest: encode_card_index_payload_parse split: if_splits)

interpretation sum_indices: native_layout encode_sum_indices parse_indices
  "\<lambda>r cs ss. Some (cards_read cs)"
  by unfold_locales
    (auto simp: encode_sum_indices_def Let_def invalid_def cards_read_def monad_simps
      dest: encode_card_index_payload_parse split: if_splits pyval.splits)

section \<open>Counters\<close>

definition parse_counters :: "byte list \<Rightarrow> int list" where
  "parse_counters bs = unpack_list le_sint 2 (length bs div 2) bs"

definition allocation_ok :: "candidate \<Rightarrow> selection \<Rightarrow> bool" where
  "allocation_ok c s \<longleftrightarrow> is_strict_int (s_value s) \<and> 0 < selection_value s \<and>
    is_int (payload_get c ''available_count'') \<and>
    selection_value s \<le> int_val (payload_get c ''available_count'')"

lemma counter_allocation_checked:
  "counter_allocation c s = (if allocation_ok c s then Inr (candidate_id c, selection_value s)
     else Inl (InvalidResponse ''counter allocation must be a positive integer within availability'' []))"
  by (auto simp: counter_allocation_def allocation_ok_def selection_value_def invalid_def Let_def)

definition allocations :: "candidate list \<Rightarrow> selection list \<Rightarrow> (string \<times> int) list" where
  "allocations cs ss = dict_of (map2 (\<lambda>c s. (candidate_id c, selection_value s)) cs ss)"

definition counter_vector :: "decision_request \<Rightarrow> candidate list \<Rightarrow> selection list \<Rightarrow> int list" where
  "counter_vector r cs ss = map (\<lambda>c. allocated (allocations cs ss) (candidate_id c)) (candidates r)"

lemma encode_counter_vector_iff:
  "encode_counter_vector r cs ss = Inr bs \<longleftrightarrow>
    is_int (extra_get r ''required_count'') \<and> 0 < int_val (extra_get r ''required_count'') \<and>
    length cs = length ss \<and> list_all2 allocation_ok cs ss \<and>
    sum_list (map snd (allocations cs ss)) = int_val (extra_get r ''required_count'') \<and>
    list_all (\<lambda>v. v \<le> 0x7FFF) (counter_vector r cs ss) \<and>
    list_all (fits_signed 2) (counter_vector r cs ss) \<and>
    bs = concat (map (le_bytes 2) (counter_vector r cs ss))"
proof -
  have zip: "for_zip counter_allocation cs ss = Inr ps \<longleftrightarrow>
      length cs = length ss \<and> list_all2 allocation_ok cs ss \<and>
      ps = map2 (\<lambda>c s. (candidate_id c, selection_value s)) cs ss" for ps
    by (rule for_zip_checked) (rule counter_allocation_checked)
  have vec: "sseq (map (\<lambda>c. let v = allocated al (candidate_id c) in
        if v > 0x7FFF then invalid m else Inr v) ds) = Inr vs \<longleftrightarrow>
      list_all (\<lambda>v. v \<le> 0x7FFF) (map (\<lambda>c. allocated al (candidate_id c)) ds) \<and>
      vs = map (\<lambda>c. allocated al (candidate_id c)) ds" for al ds vs m
    by (subst sseq_map_checked [where P = "\<lambda>c. allocated al (candidate_id c) \<le> 0x7FFF"])
      (auto simp: invalid_def Let_def list_all_iff)
  show ?thesis
    by (auto simp: encode_counter_vector_def Let_def invalid_def monad_simps zip pack_list_signed_Inr
        counter_vector_def allocations_def vec [unfolded Let_def])
qed

lemma concat_le_bytes_length: "length (concat (map (le_bytes w) vs)) = w * length vs"
  by (induction vs) simp_all

interpretation counter_layout: native_layout encode_counter_vector parse_counters counter_vector
proof unfold_locales
  fix r cs ss bs assume "encode_counter_vector r cs ss = Inr bs"
  then have "list_all (fits_signed 2) (counter_vector r cs ss)"
    and "bs = concat (map (le_bytes 2) (counter_vector r cs ss))"
    by (simp_all add: encode_counter_vector_iff)
  with sint_le.unpack_packed [of 2 _ "[]"] show "parse_counters bs = counter_vector r cs ss"
    by (simp add: parse_counters_def concat_le_bytes_length)
qed

section \<open>Unselect\<close>

definition parse_unselect :: "byte list \<Rightarrow> int option" where
  "parse_unselect bs = (if length bs = 4 then None else Some (le_sint (drop 4 bs)))"

definition unselected :: "candidate list \<Rightarrow> int option" where
  "unselected cs = (if eq_int (payload_get (hd cs) ''response_index'') (-1) then None
     else Some (response_index (hd cs)))"

interpretation unselect_action: native_layout encode_unselect_action parse_unselect
  "\<lambda>r cs ss. unselected cs"
  by unfold_locales
    (auto simp: encode_unselect_action_def invalid_def Let_def pack_list_signed_Inr parse_unselect_def
      unselected_def response_index_def le_sint_le_bytes split: list.splits if_splits)

section \<open>Bit masks\<close>

definition response_bit :: "candidate \<Rightarrow> int" where
  "response_bit c = int_val (payload_get c ''response_bit'')"

definition bit_ok :: "candidate \<Rightarrow> bool" where
  "bit_ok c \<longleftrightarrow> is_strict_int (payload_get c ''response_bit'') \<and> 0 < response_bit c"

lemma mask_bit_checked:
  "mask_bit c = (if bit_ok c then Inr (response_bit c)
     else Inl (InvalidResponse ''mask candidate response_bit must be a positive integer'' []))"
  by (auto simp: mask_bit_def bit_ok_def response_bit_def invalid_def Let_def)

definition mask_of :: "candidate list \<Rightarrow> int" where
  "mask_of cs = foldl (OR) 0 (map response_bit cs)"

lemma encode_bit_mask_iff:
  "encode_bit_mask r cs ss = Inr bs \<longleftrightarrow> list_all bit_ok cs \<and>
    (if eq_int (extra_get r ''response_width'') 64
     then fits_unsigned 8 (mask_of cs) \<and> bs = le_bytes 8 (mask_of cs)
     else eq_int (extra_get r ''response_width'') 32 \<and> fits_unsigned 4 (mask_of cs) \<and>
       bs = le_bytes 4 (mask_of cs))"
proof -
  have "sseq (map mask_bit cs) = Inr vs \<longleftrightarrow> list_all bit_ok cs \<and> vs = map response_bit cs" for vs
    by (rule sseq_map_checked) (rule mask_bit_checked)
  then show ?thesis
    by (auto simp: encode_bit_mask_def monad_simps Let_def invalid_def mask_of_def pack_unsigned_def
        fits_unsigned_def)
qed

interpretation bit_mask: native_layout encode_bit_mask le_int "\<lambda>r cs ss. mask_of cs"
  by unfold_locales (auto simp: encode_bit_mask_iff uint_le.unpack_pack split: if_splits)

section \<open>Sort order\<close>

definition parse_order :: "byte list \<Rightarrow> int list option" where
  "parse_order bs = (if bs = [0xFF] then None else Some (map uint bs))"

definition keeps_order :: "candidate list \<Rightarrow> bool" where
  "keeps_order cs \<longleftrightarrow> length cs = 1 \<and> eq_int (payload_get (hd cs) ''response_index'') (-1)"

definition chosen_orders :: "candidate list \<Rightarrow> selection list \<Rightarrow> (string \<times> pyval) list" where
  "chosen_orders cs ss = dict_of (map2 (\<lambda>c s. (candidate_id c, order s)) cs ss)"

definition order_ok :: "(string \<times> pyval) list \<Rightarrow> candidate \<Rightarrow> bool" where
  "order_ok d c \<longleftrightarrow> (case map_of d (candidate_id c) of None \<Rightarrow> False | Some v \<Rightarrow> is_strict_int v)"

definition order_of :: "(string \<times> pyval) list \<Rightarrow> candidate \<Rightarrow> int" where
  "order_of d c = (case map_of d (candidate_id c) of None \<Rightarrow> 0 | Some v \<Rightarrow> int_val v)"

definition order_vector :: "decision_request \<Rightarrow> candidate list \<Rightarrow> selection list \<Rightarrow> int list" where
  "order_vector r cs ss = map (order_of (chosen_orders cs ss)) (sort_cards r)"

lemma uint_byte: "0 \<le> v \<Longrightarrow> v < 256 \<Longrightarrow> uint (word_of_int v :: byte) = v"
  by (simp add: uint_word_of_int)

lemma uint_bytes: "list_all (\<lambda>v. 0 \<le> v \<and> v < 256) vs \<Longrightarrow> map uint (map word_of_int vs :: byte list) = vs"
  by (induction vs) (auto simp: uint_byte)

lemma encode_sort_order_iff:
  "encode_sort_order r cs ss = Inr bs \<longleftrightarrow>
    (if keeps_order cs then bs = [0xFF]
     else length cs = length (sort_cards r) \<and> length cs = length ss \<and>
       list_all (order_ok (chosen_orders cs ss)) (sort_cards r) \<and>
       sort (order_vector r cs ss) = map int [0..<length (sort_cards r)] \<and>
       length (sort_cards r) \<le> 256 \<and> bs = map word_of_int (order_vector r cs ss))"
proof -
  have zip: "for_zip (\<lambda>c s. Inr (candidate_id c, order s)) cs ss = Inr ps \<longleftrightarrow>
      length cs = length ss \<and> ps = map2 (\<lambda>c s. (candidate_id c, order s)) cs ss" for ps
    by (subst for_zip_checked [where P = "\<lambda>c s. True"]) (auto simp: list_all2_conv_all_nth)
  have vec: "sseq (map (\<lambda>c. case map_of d (candidate_id c) of
        Some v \<Rightarrow> if is_strict_int v then Inr (int_val v) else invalid m
      | None \<Rightarrow> invalid m) ds) = Inr vs \<longleftrightarrow>
      list_all (order_ok d) ds \<and> vs = map (order_of d) ds" for d ds vs m
    by (rule sseq_map_checked [where e = "\<lambda>_. InvalidResponse m []"])
      (auto simp: order_ok_def order_of_def invalid_def split: option.splits)
  have bytes: "py_bytes vs = Inr bs \<longleftrightarrow> n \<le> 256 \<and> bs = map word_of_int vs"
    if "sort vs = map int [0..<n]" for vs n bs
  proof -
    have "set vs = int ` {0..<n}" using that by (metis atLeastLessThan_upt list.set_map set_sort)
    then have "list_all (\<lambda>v. 0 \<le> v \<and> v < 256) vs \<longleftrightarrow> n \<le> 256"
      unfolding list_all_iff by (cases n) auto
    then show ?thesis by (auto simp: py_bytes_def)
  qed
  show ?thesis
    by (auto simp: encode_sort_order_def Let_def invalid_def [of "''sort response must order every card or keep the current order''"]
        invalid_def [of "''sort response requires each order exactly once from zero''"]
        monad_simps zip vec bytes keeps_order_def chosen_orders_def order_vector_def)
qed

interpretation sort_order: native_layout encode_sort_order parse_order
  "\<lambda>r cs ss. if keeps_order cs then None else Some (order_vector r cs ss)"
proof unfold_locales
  fix r cs ss bs assume enc: "encode_sort_order r cs ss = Inr bs"
  show "parse_order bs = (if keeps_order cs then None else Some (order_vector r cs ss))"
  proof (cases "keeps_order cs")
    case True
    with enc show ?thesis by (simp add: encode_sort_order_iff parse_order_def)
  next
    case False
    define vs where "vs = order_vector r cs ss"
    define n where "n = length (sort_cards r)"
    from enc False have ord: "sort vs = map int [0..<n]" and le: "n \<le> 256" and bs: "bs = map word_of_int vs"
      by (simp_all add: encode_sort_order_iff vs_def n_def)
    have mem: "set vs = int ` {0..<n}" using ord by (metis atLeastLessThan_upt list.set_map set_sort)
    have len: "length vs = n" using ord by (metis diff_zero length_map length_sort length_upt)
    have all: "list_all (\<lambda>v. 0 \<le> v \<and> v < 256) vs" using mem le by (auto simp: list_all_iff)
    have "bs \<noteq> [0xFF]"
    proof
      assume "bs = [0xFF]"
      with bs obtain v where v: "vs = [v]" "word_of_int v = (0xFF :: byte)" by (cases vs) auto
      with mem len have "v = 0" by auto
      with v(2) show False by simp
    qed
    then show ?thesis
      using False uint_bytes [OF all] by (simp add: parse_order_def bs vs_def)
  qed
qed

section \<open>Zones\<close>

fun parse_triplets :: "byte list \<Rightarrow> (int \<times> int \<times> int) list" where
  "parse_triplets (a # b # d # bs) = (uint a, uint b, uint d) # parse_triplets bs"
| "parse_triplets bs = []"

definition zone_of :: "candidate \<Rightarrow> int \<times> int \<times> int" where
  "zone_of c = (int_val (payload_get c ''response_controller''),
     int_val (payload_get c ''response_location''), int_val (payload_get c ''response_sequence''))"

definition zone_ok :: "candidate \<Rightarrow> bool" where
  "zone_ok c \<longleftrightarrow> payload_get c ''response_codec'' = PStr ''place_triplets'' \<and>
    fits_uint8 (payload_get c ''response_controller'') \<and>
    fits_uint8 (payload_get c ''response_location'') \<and>
    fits_uint8 (payload_get c ''response_sequence'')"

lemma place_triplet_checked:
  "place_triplet c = (if zone_ok c then Inr (zone_of c)
     else Inl (InvalidResponse (if payload_get c ''response_codec'' \<noteq> PStr ''place_triplets''
       then ''candidate does not use the place_triplets response codec''
       else ''place response controller/location/sequence must fit uint8'') []))"
  by (auto simp: place_triplet_def zone_ok_def zone_of_def invalid_def Let_def)

lemma encode_place_iff:
  "encode_place r cs ss = Inr bs \<longleftrightarrow> list_all zone_ok cs \<and> distinct (map zone_of cs) \<and>
    bs = concat (map triplet_bytes (sort (map zone_of cs)))"
proof -
  have "sseq (map place_triplet cs) = Inr ts \<longleftrightarrow> list_all zone_ok cs \<and> ts = map zone_of cs" for ts
    by (rule sseq_map_checked) (rule place_triplet_checked)
  then show ?thesis
    by (auto simp: encode_place_def monad_simps Let_def invalid_def)
qed

lemma parse_triplets_written:
  "list_all (\<lambda>(a, b, d). 0 \<le> a \<and> a < 256 \<and> 0 \<le> b \<and> b < 256 \<and> 0 \<le> d \<and> d < 256) ts \<Longrightarrow>
    parse_triplets (concat (map triplet_bytes ts)) = ts"
  by (induction ts) (auto simp: triplet_bytes_def uint_byte)

interpretation place_layout: native_layout encode_place parse_triplets "\<lambda>r cs ss. sort (map zone_of cs)"
proof unfold_locales
  fix r cs ss bs assume enc: "encode_place r cs ss = Inr bs"
  then have "list_all (\<lambda>(a, b, d). 0 \<le> a \<and> a < 256 \<and> 0 \<le> b \<and> b < 256 \<and> 0 \<le> d \<and> d < 256)
      (sort (map zone_of cs))"
    by (auto simp: encode_place_iff list_all_iff zone_ok_def zone_of_def fits_uint8_def)
  with enc show "parse_triplets bs = sort (map zone_of cs)"
    by (simp add: encode_place_iff parse_triplets_written)
qed

end
