(* ===== verification/Encoder_Laws.thy ===== *)
theory Encoder_Laws
  imports Codec_Laws
begin

text \<open>
  When \<open>ActionResponseEncoder.encode\<close> succeeds and what it returns, as one equivalence over the
  request, the action and the codec of the request type; and what the sum checks decide.
\<close>

unbundle bit_operations_syntax

section \<open>The parts of encode\<close>

text \<open>The response that \<open>_encode\<close> validates.\<close>

definition response_of :: "decision_request \<Rightarrow> action \<Rightarrow> decision_response" where
  "response_of r a =
    \<lparr>resp_request_id = request_id r, resp_request_signature = a_request_signature a,
     selected_candidate_ids = map s_candidate_id (selections a), resp_payload = []\<rparr>"

text \<open>The candidates the selections name, in their order.\<close>

definition chosen :: "decision_request \<Rightarrow> action \<Rightarrow> candidate list \<Rightarrow> bool" where
  "chosen r a cs \<longleftrightarrow>
    map candidate_id cs = map s_candidate_id (selections a) \<and> set cs \<subseteq> set (candidates r)"

definition kinds_match :: "action \<Rightarrow> candidate list \<Rightarrow> bool" where
  "kinds_match a cs \<longleftrightarrow>
    list_all (\<lambda>c. case map_of (c_payload c) ''action_kind'' of None \<Rightarrow> True
      | Some v \<Rightarrow> v = PStr (action_kind_value (a_kind a))) cs"

definition encoded_of :: "decision_request \<Rightarrow> action \<Rightarrow> byte list \<Rightarrow> encoded_response" where
  "encoded_of r a bytes =
    \<lparr>er_request_type = request_type r, er_request_signature = a_request_signature a,
     er_selected_ids = map s_candidate_id (selections a), er_data = bytes,
     codec_version = RESPONSE_CODEC_VERSION\<rparr>"

lemma encode_Inr: "encode r a = Inr e \<longleftrightarrow> encode_checked r a = Inr e"
  by (auto simp: encode_def Let_def split: sum.splits py_error.splits)

lemma by_id:
  assumes "distinct (map candidate_id cs)"
  shows "map_of (dict_of (map (\<lambda>c. (candidate_id c, c)) cs)) i = Some c \<longleftrightarrow>
    c \<in> set cs \<and> candidate_id c = i"
proof -
  from assms have "distinct (map fst (map (\<lambda>c. (candidate_id c, c)) cs))" by (simp add: o_def)
  then show ?thesis by (auto simp: dict_of_distinct)
qed

lemma selected_candidates_iff:
  assumes "distinct (map candidate_id (candidates r))"
  shows "selected_candidates r ss = Inr cs \<longleftrightarrow>
    map candidate_id cs = map s_candidate_id ss \<and> set cs \<subseteq> set (candidates r)"
  unfolding selected_candidates_def Let_def sseq_eq_Inr
proof (induction ss arbitrary: cs)
  case Nil
  then show ?case by auto
next
  case (Cons s ss)
  note one = by_id [OF assms, of "s_candidate_id s"]
  show ?case
  proof (cases cs)
    case Nil
    then show ?thesis by simp
  next
    case (Cons c ds)
    then show ?thesis
      using Cons.IH [of ds] one [of c] by (auto split: option.splits)
  qed
qed

lemma owned_payloads_ok:
  assumes "list_all candidate_safe cs"
  shows "validate_owned_payloads cs = Inr ()"
proof -
  have "canonical_json (PDict (c_payload c)) \<noteq> Inl e" if "c \<in> set cs" for c e
    using assms that canonical_json_total [of "PDict (c_payload c)"]
    by (auto simp: list_all_iff candidate_safe_def)
  then have loop: "map (\<lambda>c. case canonical_json (PDict (c_payload c)) of
         Inl _ \<Rightarrow> invalid (''candidate '' @ repr_str (candidate_id c) @ '' payload is not owned primitive data'')
       | Inr _ \<Rightarrow> Inr ()) cs = map Inr (map (\<lambda>_. ()) cs)"
    by (auto split: sum.splits)
  show ?thesis unfolding validate_owned_payloads_def loop by (simp only: sseq_map_Inr sbind_Inr)
qed

lemma kinds_check:
  "sbind (declared_action_kinds cs) (\<lambda>kinds.
      if kinds \<noteq> [] \<and> \<not> list_all (\<lambda>k. k = PStr (action_kind_value (a_kind a))) kinds
      then invalid m else K) = Inr e \<longleftrightarrow> kinds_match a cs \<and> K = Inr e"
proof -
  define ks where "ks = map (\<lambda>c. payload_get c ''action_kind'')
    (filter (\<lambda>c. map_of (c_payload c) ''action_kind'' \<noteq> None) cs)"
  let ?L = "list_all (\<lambda>k. k = PStr (action_kind_value (a_kind a))) ks"
  have match: "kinds_match a cs \<longleftrightarrow> ?L"
    unfolding kinds_match_def ks_def
    by (induction cs) (auto simp: payload_get_def dict_get_def split: option.splits)
  have decl: "declared_action_kinds cs =
      (if list_all hashable ks then Inr ks else Inl (TypeError ''unhashable type''))"
    by (simp add: declared_action_kinds_def ks_def)
  have hash: "?L \<Longrightarrow> list_all hashable ks" by (auto simp: list_all_iff)
  show ?thesis
  proof (cases ?L)
    case True
    with hash match decl show ?thesis by simp
  next
    case False
    then have "ks \<noteq> []" by auto
    with False match decl show ?thesis by (simp add: invalid_def)
  qed
qed

lemma encode_iff:
  "encode r a = Inr e \<longleftrightarrow>
    response_valid r (response_of r a) \<and> a_player a = player r \<and>
    (\<exists>codec cs bytes.
      map_of encoder_registry (request_type r) = Some codec \<and> chosen r a cs \<and> kinds_match a cs \<and>
      (if ordered (req_constraints r) then orders_valid (selections a) else True) \<and>
      codec r cs (selections a) = Inr bytes \<and> bytes \<noteq> [] \<and> int (length bytes) \<le> MAX_RESPONSE_BYTES \<and>
      e = encoded_of r a bytes)" (is "_ \<longleftrightarrow> ?rhs")
proof (cases "response_valid r (response_of r a)")
  case False
  then have "\<not> validate_decision_response r (response_of r a) = Inr u" for u
    by (simp add: validate_response_iff)
  with False show ?thesis
    by (auto simp: encode_Inr encode_checked_def monad_simps invalid_def response_of_def split: if_splits)
next
  case True
  then have resp: "validate_decision_response r (response_of r a) = Inr ()"
    by (simp only: validate_response_iff)
  from True have valid: "validate_decision_request r = Inr ()" and sig: "request_signature r = Inr (a_request_signature a)"
    and ids: "distinct (map candidate_id (candidates r))" and safe: "list_all candidate_safe (candidates r)"
    by (simp_all add: validate_request_iff response_valid_def request_valid_def response_of_def)
  have owned: "chosen r a cs \<Longrightarrow> validate_owned_payloads cs = Inr ()" for cs
    using safe by (intro owned_payloads_ok) (auto simp: chosen_def list_all_iff)
  have sel: "selected_candidates r (selections a) = Inr cs \<longleftrightarrow> chosen r a cs" for cs
    using selected_candidates_iff [OF ids] by (simp add: chosen_def)
  show ?thesis
  proof (cases "a_player a = player r \<and> map_of encoder_registry (request_type r) \<noteq> None")
    case False
    then show ?thesis
      using valid resp by (auto simp: encode_Inr encode_checked_def monad_simps invalid_def
          response_of_def [symmetric] split: option.splits)
  next
    case True
    then obtain codec where codec: "map_of encoder_registry (request_type r) = Some codec"
      and pl: "a_player a = player r" by auto
    have e: "\<lparr>er_request_type = request_type r, er_request_signature = a_request_signature a,
        er_selected_ids = map candidate_id cs, er_data = bytes, codec_version = RESPONSE_CODEC_VERSION\<rparr> =
        encoded_of r a bytes" if "chosen r a cs" for cs bytes
      using that by (simp add: encoded_of_def chosen_def)
    define rest where "rest cs = sbind (codec r cs (selections a)) (\<lambda>bytes.
        if bytes = [] then invalid ''response codec produced an empty buffer''
        else if int (length bytes) > MAX_RESPONSE_BYTES
        then invalid (''response buffer exceeds '' @ str_int MAX_RESPONSE_BYTES @ '' bytes'')
        else sbind (request_signature r) (\<lambda>sig.
          Inr \<lparr>er_request_type = request_type r, er_request_signature = sig,
           er_selected_ids = map candidate_id cs, er_data = bytes,
           codec_version = RESPONSE_CODEC_VERSION\<rparr>))" for cs
    have rest: "rest cs = Inr e \<longleftrightarrow> (\<exists>bytes. codec r cs (selections a) = Inr bytes \<and> bytes \<noteq> [] \<and>
        int (length bytes) \<le> MAX_RESPONSE_BYTES \<and> e = encoded_of r a bytes)" if "chosen r a cs" for cs
      unfolding rest_def sig sbind_Inr e [OF that]
      by (cases "codec r cs (selections a)") (auto simp: invalid_def)
    have "encode r a = Inr e \<longleftrightarrow> (\<exists>cs. chosen r a cs \<and> kinds_match a cs \<and>
        (if ordered (req_constraints r) \<and> \<not> orders_valid (selections a)
         then invalid ''ordered response requires each order exactly once from zero'' else rest cs) = Inr e)"
      unfolding encode_Inr encode_checked_def response_of_def [symmetric] valid resp sbind_Inr codec option.case
        rest_def [symmetric]
      by (simp add: pl sbind_eq_Inr [of "selected_candidates r (selections a)"] sel owned kinds_check
          del: if_split cong: conj_cong if_cong)
    moreover have "chosen r a cs \<and> kinds_match a cs \<and>
        (if ordered (req_constraints r) \<and> \<not> orders_valid (selections a)
         then invalid ''ordered response requires each order exactly once from zero'' else rest cs) = Inr e \<longleftrightarrow>
      chosen r a cs \<and> kinds_match a cs \<and>
        (if ordered (req_constraints r) then orders_valid (selections a) else True) \<and>
        (\<exists>bytes. codec r cs (selections a) = Inr bytes \<and> bytes \<noteq> [] \<and>
          int (length bytes) \<le> MAX_RESPONSE_BYTES \<and> e = encoded_of r a bytes)" for cs
      using rest [of cs] by (auto simp: invalid_def)
    ultimately show ?thesis
      using \<open>response_valid r (response_of r a)\<close> codec pl by simp
  qed
qed

end
