(* ===== verification/Encoder_Facts.thy ===== *)
theory Encoder_Facts
  imports Encoder_Laws
begin

text \<open>
  Consequences for each layout: what the sum checks decide, which order vectors and masks get
  through, and that a recorded trace verifies for exactly the response that produced it.
\<close>

unbundle bit_operations_syntax

section \<open>What a successful encode transmits\<close>

context native_layout
begin

lemma encoded:
  assumes "encode r a = Inr e" and "map_of encoder_registry (request_type r) = Some codec"
  obtains cs where "chosen r a cs" and "codec r cs (selections a) = Inr (er_data e)"
    and "parse (er_data e) = meaning r cs (selections a)"
proof -
  from assms obtain cs bytes where "chosen r a cs" "codec r cs (selections a) = Inr bytes"
    and "e = encoded_of r a bytes"
    unfolding encode_iff by auto
  with parse_codec that [of cs] show ?thesis by (auto simp: encoded_of_def)
qed

end

lemma chosen_length: "chosen r a cs \<Longrightarrow> length cs = length (selections a)"
  unfolding chosen_def by (metis length_map)

section \<open>Sums\<close>

text \<open>One option for each value, in order.\<close>

definition choices :: "int list \<Rightarrow> int list \<Rightarrow> bool" where
  "choices vs os \<longleftrightarrow> list_all2 (\<lambda>v x. x \<in> set (sum_options v)) vs os"

lemma reach_step_set: "x \<in> set (reach_step rs v) \<longleftrightarrow> (\<exists>s \<in> set rs. \<exists>y \<in> set (sum_options v). x = s + y)"
  by (auto simp: reach_step_def)

lemma reachable_foldl:
  "x \<in> set (foldl reach_step rs vs) \<longleftrightarrow> (\<exists>s \<in> set rs. \<exists>os. choices vs os \<and> x = s + sum_list os)"
proof (induction vs arbitrary: rs)
  case Nil
  then show ?case by (auto simp: choices_def)
next
  case (Cons v vs)
  have step: "(\<exists>s \<in> set (reach_step rs v). Q s) \<longleftrightarrow> (\<exists>s \<in> set rs. \<exists>y \<in> set (sum_options v). Q (s + y))" for Q
    unfolding Bex_def reach_step_set by blast
  have split: "(\<exists>os. choices (v # vs) os \<and> x = s + sum_list os) \<longleftrightarrow>
      (\<exists>y \<in> set (sum_options v). \<exists>os. choices vs os \<and> x = s + y + sum_list os)" for s
  proof -
    have "(\<exists>os. choices (v # vs) os \<and> x = s + sum_list os) \<longleftrightarrow>
        (\<exists>y os. y \<in> set (sum_options v) \<and> choices vs os \<and> x = s + sum_list (y # os))"
      unfolding choices_def list_all2_Cons1 by blast
    then show ?thesis by (auto simp: add.assoc)
  qed
  show ?case unfolding foldl.simps Cons.IH step split ..
qed

lemma reachable_sums_iff: "t \<in> set (reachable_sums vs) \<longleftrightarrow> (\<exists>os. choices vs os \<and> sum_list os = t)"
  unfolding reachable_sums_def reachable_foldl by auto

lemma foldl_min_eq: "foldl min a xs = Min (set (a # xs))" for a :: int
proof (induction xs arbitrary: a)
  case (Cons x xs)
  then show ?case by (cases "xs = []") (simp_all add: min.assoc)
qed simp

lemma foldl_max_eq: "foldl max a xs = Max (set (a # xs))" for a :: int
proof (induction xs arbitrary: a)
  case (Cons x xs)
  then show ?case by (cases "xs = []") (simp_all add: max.assoc)
qed simp

lemma list_min_eq: "xs \<noteq> [] \<Longrightarrow> list_min xs = Min (set xs)"
  by (cases xs) (simp_all add: list_min_def foldl_min_eq del: list.set)

lemma list_max_eq: "xs \<noteq> [] \<Longrightarrow> list_max xs = Max (set xs)"
  by (cases xs) (simp_all add: list_max_def foldl_max_eq del: list.set)

lemma sum_options_ne: "sum_options v \<noteq> []"
  by (simp add: sum_options_def Let_def)

definition smallest :: "int \<Rightarrow> int" where
  "smallest v = list_min (sum_options v)"

definition largest :: "int \<Rightarrow> int" where
  "largest v = list_max (sum_options v)"

lemma smallest_le: "x \<in> set (sum_options v) \<Longrightarrow> smallest v \<le> x"
  by (simp add: smallest_def list_min_eq sum_options_ne)

lemma le_largest: "x \<in> set (sum_options v) \<Longrightarrow> x \<le> largest v"
  by (simp add: largest_def list_max_eq sum_options_ne)

lemma largest_in: "largest v \<in> set (sum_options v)"
  using Max_in [of "set (sum_options v)"] by (simp add: largest_def list_max_eq sum_options_ne)

lemma smallest_in: "smallest v \<in> set (sum_options v)"
  using Min_in [of "set (sum_options v)"] by (simp add: smallest_def list_min_eq sum_options_ne)

lemma choices_sum_le: "choices vs os \<Longrightarrow> sum_list os \<le> sum_list (map largest vs)"
  unfolding choices_def by (induction vs os rule: list_all2_induct) (auto dest: le_largest)

lemma choices_sum_ge: "choices vs os \<Longrightarrow> sum_list (map smallest vs) \<le> sum_list os"
  unfolding choices_def by (induction vs os rule: list_all2_induct) (auto dest: smallest_le)

lemma choices_largest: "choices vs (map largest vs)"
  by (simp add: choices_def list_all2_map2 list_all2_same largest_in)

lemma choices_smallest: "choices vs (map smallest vs)"
  by (simp add: choices_def list_all2_map2 list_all2_same smallest_in)

text \<open>
  The threshold test: some choice of options reaches the target, and for every card dropped, the
  remaining ones have a choice that stays below it.
\<close>

lemma minimal_threshold_iff:
  assumes "vs \<noteq> []"
  shows "minimal_threshold vs t \<longleftrightarrow> (\<exists>os. choices vs os \<and> t \<le> sum_list os) \<and>
    list_all (\<lambda>i. \<exists>os. choices (take i vs @ drop (Suc i) vs) os \<and> sum_list os < t) [0..<length vs]"
proof -
  let ?mins = "map smallest vs"
  have max: "t \<le> sum_list (map largest vs) \<longleftrightarrow> (\<exists>os. choices vs os \<and> t \<le> sum_list os)"
    using choices_sum_le choices_largest by (metis order_trans)
  have drop: "sum_list (map smallest (take i vs @ drop (Suc i) vs)) = sum_list ?mins - ?mins ! i"
    if "i < length vs" for i
  proof -
    have "?mins = take i ?mins @ ?mins ! i # drop (Suc i) ?mins"
      using that by (intro id_take_nth_drop) simp
    then have "sum_list ?mins = sum_list (take i ?mins) + ?mins ! i + sum_list (drop (Suc i) ?mins)"
      by (metis (no_types, lifting) add.assoc sum_list.Cons sum_list.append)
    then show ?thesis by (simp add: take_map drop_map)
  qed
  have one: "(\<exists>os. choices ws os \<and> sum_list os < t) \<longleftrightarrow> sum_list (map smallest ws) < t" for ws
    using choices_sum_ge choices_smallest by (metis order_le_less_trans)
  have "sum_list ?mins - list_min ?mins < t \<longleftrightarrow> (\<forall>i < length vs. sum_list ?mins - ?mins ! i < t)"
  proof -
    have mem: "set ?mins = (\<lambda>i. ?mins ! i) ` {..<length vs}"
    proof -
      have "set xs = (\<lambda>i. xs ! i) ` {..<length xs}" for xs :: "int list" by (auto simp: set_conv_nth)
      from this [of ?mins] show ?thesis by simp
    qed
    have m: "list_min ?mins = Min (set ?mins)" using assms by (simp add: list_min_eq)
    then have "list_min ?mins \<in> set ?mins" using assms by (metis List.finite_set Min_in list.map_disc_iff set_empty)
    moreover have "x \<in> set ?mins \<Longrightarrow> list_min ?mins \<le> x" for x unfolding m by simp
    ultimately show ?thesis unfolding mem by fastforce
  qed
  also have "\<dots> \<longleftrightarrow> list_all (\<lambda>i. \<exists>os. choices (take i vs @ drop (Suc i) vs) os \<and> sum_list os < t) [0..<length vs]"
    unfolding one list_all_iff using drop by (simp add: atLeast0LessThan lessThan_iff Ball_def)
  finally show ?thesis
    unfolding minimal_threshold_def Let_def max [symmetric] smallest_def largest_def by (auto simp: not_less)
qed

section \<open>Traces\<close>

lemma hex_char_code: "a < 16 \<Longrightarrow> of_char (hex_char a) = (if a < 10 then 48 + a else 87 + a)"
  by (simp add: hex_char_def)

lemma hex_char_inject:
  assumes "a < 16" and "b < 16"
  shows "hex_char a = hex_char b \<longleftrightarrow> a = b"
proof
  assume "hex_char a = hex_char b"
  then have "(of_char (hex_char a) :: nat) = of_char (hex_char b)" by (rule arg_cong)
  then show "a = b"
    unfolding hex_char_code [OF assms(1)] hex_char_code [OF assms(2)] by (simp split: if_splits)
qed simp

lemma hex_of_bytes_inject: "hex_of_bytes xs = hex_of_bytes ys \<longleftrightarrow> xs = ys"
proof (induction xs arbitrary: ys)
  case Nil
  then show ?case by (cases ys) (simp_all add: hex_of_bytes_def)
next
  case (Cons x xs)
  show ?case
  proof (cases ys)
    case Nil
    then show ?thesis by (simp add: hex_of_bytes_def)
  next
    case (Cons y zs)
    have lt: "unat b < 256" for b :: "8 word" using unsigned_less [of b] by simp
    have "x = y \<longleftrightarrow> unat x div 16 = unat y div 16 \<and> unat x mod 16 = unat y mod 16"
      by (metis div_mult_mod_eq word_unat_eq_iff)
    moreover have "unat b div 16 < 16" "unat b mod 16 < 16" for b :: "8 word" using lt [of b] by auto
    ultimately show ?thesis
      using Cons Cons.IH [of zs] by (simp add: hex_of_bytes_def hex_char_inject)
  qed
qed

lemma trace_get:
  "dict_get (to_trace_dict e) ''codec_version'' = PStr (codec_version e)"
  "dict_get (to_trace_dict e) ''request_signature'' = PStr (er_request_signature e)"
  "dict_get (to_trace_dict e) ''request_type'' = PStr (er_request_type e)"
  "dict_get (to_trace_dict e) ''response_hex'' = PStr (hex_of_bytes (er_data e))"
  "dict_get (to_trace_dict e) ''response_length'' = PInt (int (length (er_data e)))"
  "dict_get (to_trace_dict e) ''response_sha256'' = PStr (sha256_hexdigest (er_data e))"
  "dict_get (to_trace_dict e) ''selected_candidate_ids'' = PList (map PStr (er_selected_ids e))"
  by (simp_all add: to_trace_dict_def)

lemma map_PStr_inject: "map PStr xs = map PStr ys \<longleftrightarrow> xs = ys"
  by (rule inj_map_eq_map) (simp add: inj_def)

lemma trace_keys:
  "sseq (map (\<lambda>key. if \<not> P key then invalid (m key) else Inr ()) keys) = Inr us \<longleftrightarrow>
    list_all P keys \<and> us = map (\<lambda>_. ()) keys"
  by (rule sseq_map_checked [where e = "\<lambda>key. InvalidResponse (m key) []"]) (simp add: invalid_def)

definition trace_fields :: "string list" where
  "trace_fields = [''codec_version'', ''request_signature'', ''request_type'', ''response_hex'',
     ''response_length'', ''response_sha256'', ''selected_candidate_ids'']"

lemma verify_trace_iff:
  "verify_trace r a tr = Inr e \<longleftrightarrow> encode r a = Inr e \<and>
    list_all (\<lambda>key. trace_equal (dict_get tr key) (dict_get (to_trace_dict e) key)) trace_fields"
  unfolding verify_trace_def Let_def trace_fields_def [symmetric]
  by (auto simp: sbind_eq_Inr trace_keys)

lemma trace_fields_agree:
  "list_all (\<lambda>key. trace_equal (dict_get (to_trace_dict e) key) (dict_get (to_trace_dict e') key)) trace_fields
    \<longleftrightarrow> e = e'"
proof -
  have "list_all (\<lambda>key. trace_equal (dict_get (to_trace_dict e) key) (dict_get (to_trace_dict e') key)) trace_fields
    \<longleftrightarrow> codec_version e = codec_version e' \<and> er_request_signature e = er_request_signature e' \<and>
      er_request_type e = er_request_type e' \<and> er_data e = er_data e' \<and> er_selected_ids e = er_selected_ids e'"
    unfolding trace_fields_def list.pred_inject trace_get
    by (auto simp: hex_of_bytes_inject map_PStr_inject)
  then show ?thesis by auto
qed

lemma verify_trace_own:
  "verify_trace r a (to_trace_dict e) = Inr e' \<longleftrightarrow> encode r a = Inr e' \<and> e = e'"
  unfolding verify_trace_iff trace_fields_agree ..

end
