(* ===== verification/Answerable.thy ===== *)
theory Answerable
  imports Decoder_Validity Encoder_Facts
begin

text \<open>
  From the message to the answer: a decoded request has the type its message announces, the
  encoder has a codec for it, and every candidate of a request answered with a 32-bit number is
  accepted and transmitted as the number the core assigned to it.
\<close>

unbundle bit_operations_syntax

section \<open>Request types\<close>

lemma decoder_of_type:
  assumes "message_type_of (frame_type f) = Some m" and "decoder_of m f rid base = Inr r"
  shows "request_type r = message_type_name m"
  using assms
  by (cases m; clarsimp simp: decoder_simps decode_battle_command_def decode_idle_command_def
      decode_effect_yes_no_def decode_yes_no_def decode_option_def decode_card_def decode_chain_def
      decode_place_def decode_position_def decode_tribute_def decode_sort_def decode_counter_def
      decode_sum_def decode_unselect_card_def decode_rock_paper_scissors_def decode_announce_mask_def
      decode_announce_card_def decode_announce_number_def frame_message_type_def split del: if_split)

lemma decoder_of_player:
  assumes "decoder_of m f rid base = Inr r"
  shows "frame_payload f \<noteq> [] \<and> player r = uint (hd (frame_payload f))"
  using assms
  by (cases m; clarsimp simp: decoder_simps decode_battle_command_def decode_idle_command_def
      decode_effect_yes_no_def decode_yes_no_def decode_option_def decode_card_def decode_chain_def
      decode_place_def decode_position_def decode_tribute_def decode_sort_def decode_counter_def
      decode_sum_def decode_unselect_card_def decode_rock_paper_scissors_def decode_announce_mask_def
      decode_announce_card_def decode_announce_number_def dest!: read_player_first split del: if_split)

lemma registry_covers: "\<exists>codec. map_of encoder_registry (message_type_name m) = Some codec"
  by (cases m) (simp_all add: encoder_registry_def)

section \<open>Candidates answered with a 32-bit number\<close>

text \<open>A candidate that carries a number, which fits when the message is short.\<close>

definition int32_candidate :: "bool \<Rightarrow> candidate \<Rightarrow> bool" where
  "int32_candidate short c \<longleftrightarrow> payload_get c ''response_codec'' = PStr ''int32'' \<and>
    payload_get c ''response_value'' = PInt (response_value c) \<and>
    (short \<longrightarrow> fits_int32 (PInt (response_value c)))"

text \<open>
  The longest payload whose records, of seven bytes at least, have indices below \<open>2 ^ 15\<close>; the
  stream limit is more than four times as large.
\<close>

definition index_safe_bytes :: nat where
  "index_safe_bytes = 229376"

lemma fits_int32_PInt: "fits_int32 (PInt v) \<longleftrightarrow> - (2 ^ 31) \<le> v \<and> v < 2 ^ 31"
  by (simp add: fits_int32_def)

lemma fits_index: "i < 32768 \<Longrightarrow> fits_int32 (PInt (int i))"
  by (simp add: fits_int32_PInt)

lemma fits_shifted: "i < 32768 \<Longrightarrow> fits_int32 (PInt (push_bit 16 (int i)))"
  by (simp add: fits_int32_PInt push_bit_eq_mult)

lemma fits_shifted_or:
  assumes "i < 32768" and "0 \<le> k" and "k < 65536"
  shows "fits_int32 (PInt (push_bit 16 (int i) OR k))"
proof -
  have "0 \<le> push_bit 16 (int i)" "push_bit 16 (int i) < 2 ^ 31" using assms(1) by (simp_all add: push_bit_eq_mult)
  moreover have "k < 2 ^ 31" using assms(3) by simp
  ultimately have "push_bit 16 (int i) OR k < 2 ^ 31" by (rule OR_upper)
  moreover have "0 \<le> push_bit 16 (int i) OR k" using assms by (simp add: push_bit_eq_mult)
  then have "- (2 ^ 31) \<le> push_bit 16 (int i) OR k" by (rule order_trans [rotated]) simp
  ultimately show ?thesis unfolding fits_int32_PInt by blast
qed

context int32_reader
begin

lemma loop_answers:
  assumes loop: "read_many read_item 0 n r = Inr (xs, r')"
    and width: "7 \<le> width" and fit: "\<And>i. i < 32768 \<Longrightarrow> fits_int32 (PInt (respond i))"
  shows "payload r' = payload r \<and> (offset r \<le> length (payload r) \<longrightarrow> offset r' \<le> length (payload r) \<and>
    list_all (int32_candidate (length (payload r) \<le> index_safe_bytes)) (map item xs))"
proof (cases "offset r \<le> length (payload r)")
  case True
  note fits = loop_fits [OF loop True]
  have "int32_candidate (length (payload r) \<le> index_safe_bytes) (item x)" if x: "x \<in> set xs" for x
  proof -
    from loop_codec [OF loop x] obtain i where i: "i < n"
      "dict_get (c_payload (item x)) ''response_codec'' = PStr ''int32''"
      "dict_get (c_payload (item x)) ''response_value'' = PInt (respond i)" by blast
    have "i < 32768" if len: "length (payload r) \<le> index_safe_bytes"
    proof -
      have "n * 7 \<le> n * width" using width by simp
      with fits len have "n * 7 \<le> index_safe_bytes" by linarith
      with i(1) show ?thesis by (simp add: index_safe_bytes_def)
    qed
    with i fit show ?thesis by (simp add: int32_candidate_def payload_get_def response_value_def)
  qed
  with fits loop_bytes [OF loop] show ?thesis by (auto simp: list_all_iff)
next
  case False
  have "payload r' = payload r"
    using read_many_invariant [of read_item "\<lambda>s. payload s = payload r", OF _ loop] item_width by auto
  with False show ?thesis by simp
qed

end

lemmas activation_answers = activation.loop_answers [OF _ _ fits_shifted, simplified]
lemmas idle_activation_answers = activation.loop_answers [where v = "\<lambda>i. or (push_bit 16 (int i)) 5",
  OF _ _ fits_shifted_or, simplified]
lemmas attack_answers = attack.loop_answers [OF _ _ fits_shifted_or, simplified]
lemmas number_answers = number.loop_answers [OF _ _ fits_index, simplified]
lemmas option_answers = option_item.loop_answers [OF _ _ fits_index, simplified]
lemmas chain_answers = chain_item.loop_answers [OF _ _ fits_index, simplified]

lemma idle_card_answers:
  assumes "read_many (read_idle_card g k a compact) 0 n r = Inr (xs, r')" and "0 \<le> k" and "k < 65536"
  shows "payload r' = payload r \<and> (offset r \<le> length (payload r) \<longrightarrow> offset r' \<le> length (payload r) \<and>
    list_all (int32_candidate (length (payload r) \<le> index_safe_bytes)) xs)"
  using idle_card.loop_answers [OF assms(1)] fits_shifted_or [OF _ assms(2,3)] by (cases compact) auto

lemma track:
  "u8 r l = Inr (v, r') \<Longrightarrow> payload r' = payload r \<and> offset r' \<le> length (payload r)"
  "u32 r l = Inr (v, r') \<Longrightarrow> payload r' = payload r \<and> offset r' \<le> length (payload r)"
  "u64 r l = Inr (v, r') \<Longrightarrow> payload r' = payload r \<and> offset r' \<le> length (payload r)"
  "read_player r = Inr (v, r') \<Longrightarrow> payload r' = payload r \<and> offset r' \<le> length (payload r)"
  by (auto dest: advances advance_player)

lemma payload_mk_reader [simp]: "payload (mk_reader bs n) = bs"
  by (simp add: mk_reader_def)

lemma int32_candidate_simps [simp]:
  "int32_candidate b (plain_candidate i k l (int32_payload a v)) \<longleftrightarrow> (if b then fits_int32 (PInt v) else True)"
  "int32_candidate b (plain_candidate i k l [(''response_codec'', PStr ''int32''), (''response_value'', PInt v)]) \<longleftrightarrow>
    (if b then fits_int32 (PInt v) else True)"
  "int32_candidate b (control_candidate n k l a v) \<longleftrightarrow> (if b then fits_int32 (PInt v) else True)"
  by (simp_all add: int32_candidate_def payload_get_def response_value_def)

text \<open>A request whose every candidate is an answer on its own, and a legal one if the message is short.\<close>

definition answerable :: "bool \<Rightarrow> decision_request \<Rightarrow> bool" where
  "answerable short r \<longleftrightarrow> req_constraints r = default_constraints \<and> list_all (int32_candidate short) (candidates r)"

lemma answerable_make [simp]:
  "answerable b (make_request rid t pl cs default_constraints x) \<longleftrightarrow> list_all (int32_candidate b) cs"
  by (simp add: answerable_def)

lemma decode_yes_no_answerable: "decode_yes_no f rid base = Inr r \<Longrightarrow> answerable b r"
  by (auto simp: decode_yes_no_def decoder_simps fits_int32_PInt)

lemma decode_effect_yes_no_answerable: "decode_effect_yes_no f rid base = Inr r \<Longrightarrow> answerable b r"
  by (auto simp: decode_effect_yes_no_def decoder_simps int32_candidate_def payload_get_def response_value_def fits_int32_PInt)

lemma decode_rock_paper_scissors_answerable: "decode_rock_paper_scissors f rid base = Inr r \<Longrightarrow> answerable b r"
  by (auto simp: decode_rock_paper_scissors_def decoder_simps fits_int32_PInt)

lemma decode_position_answerable: "decode_position f rid base = Inr r \<Longrightarrow> answerable b r"
  by (clarsimp simp: decode_position_def decoder_simps list_all_iff fits_int32_PInt)

lemma decode_option_answerable:
  "decode_option f rid base = Inr r \<Longrightarrow> answerable (length (frame_payload f) \<le> index_safe_bytes) r"
  by (clarsimp simp: decode_option_def decoder_simps dest!: track option_answers split del: if_split)

lemma decode_announce_number_answerable:
  "decode_announce_number f rid base = Inr r \<Longrightarrow> answerable (length (frame_payload f) \<le> index_safe_bytes) r"
  by (clarsimp simp: decode_announce_number_def decoder_simps dest!: track number_answers split del: if_split)

lemma decode_chain_answerable:
  "decode_chain f rid base = Inr r \<Longrightarrow> answerable (length (frame_payload f) \<le> index_safe_bytes) r"
  by (clarsimp simp: decode_chain_def decoder_simps fits_int32_PInt dest!: track chain_answers)

lemma decode_battle_command_answerable:
  "decode_battle_command f rid base = Inr r \<Longrightarrow> answerable (length (frame_payload f) \<le> index_safe_bytes) r"
  by (clarsimp simp: decode_battle_command_def decoder_simps fits_int32_PInt
      dest!: track activation_answers attack_answers)

lemma read_idle_groups_answers:
  "read_idle_groups gs r = Inr (cs, r') \<Longrightarrow> list_all (\<lambda>(g, k, a, c). 0 \<le> k \<and> k < 65536) gs \<Longrightarrow>
    payload r' = payload r \<and> (offset r \<le> length (payload r) \<longrightarrow> offset r' \<le> length (payload r) \<and>
      list_all (int32_candidate (length (payload r) \<le> index_safe_bytes)) cs)"
proof (induction gs r arbitrary: cs r' rule: read_idle_groups.induct)
  case (2 g k a compact gs r)
  from "2.prems"(1) obtain n xs ds r1 r2 where R: "u32 r (g @ ''_count'') = Inr (n, r1)"
    "read_many (read_idle_card g k a compact) 0 (nat n) r1 = Inr (xs, r2)"
    "read_idle_groups gs r2 = Inr (ds, r')" "cs = xs @ ds"
    by (auto simp: monad_simps)
  from "2.prems"(2) have "0 \<le> k" "k < 65536" by simp_all
  note head = idle_card_answers [OF R(2) this]
  from "2.IH" [OF R(1) refl R(2) refl R(3)] "2.prems"(2) have
    "payload r' = payload r2 \<and> (offset r2 \<le> length (payload r2) \<longrightarrow> offset r' \<le> length (payload r2) \<and>
      list_all (int32_candidate (length (payload r2) \<le> index_safe_bytes)) ds)" by simp
  with head track(2) [OF R(1)] R(4) show ?case by auto
qed simp

lemma idle_groups_bounds: "list_all (\<lambda>(g, k, a, c). 0 \<le> k \<and> k < 65536) idle_groups"
  by (simp add: idle_groups_def)

lemmas idle_groups_answers = read_idle_groups_answers [OF _ idle_groups_bounds]

lemma decode_idle_command_answerable:
  "decode_idle_command f rid base = Inr r \<Longrightarrow> answerable (length (frame_payload f) \<le> index_safe_bytes) r"
  by (clarsimp simp: decode_idle_command_def decoder_simps fits_int32_PInt
      dest!: track idle_groups_answers idle_activation_answers)

text \<open>The request types whose registered codec is \<open>_encode_int32\<close>.\<close>

definition int32_requests :: "string list" where
  "int32_requests =
    [''select_battle_command'', ''select_idle_command'', ''select_effect_yes_no'', ''select_yes_no'',
     ''select_option'', ''select_chain'', ''select_position'', ''rock_paper_scissors'',
     ''announce_number'']"

lemma int32_requests_codec: "t \<in> set int32_requests \<Longrightarrow> map_of encoder_registry t = Some encode_int32"
proof -
  have "list_all (\<lambda>t. map_of encoder_registry t = Some encode_int32) int32_requests"
    by (simp add: int32_requests_def encoder_registry_def)
  then show "t \<in> set int32_requests \<Longrightarrow> map_of encoder_registry t = Some encode_int32"
    by (simp add: list_all_iff)
qed

lemma decoder_of_answerable:
  assumes "decoder_of m f rid base = Inr r" and "message_type_name m \<in> set int32_requests"
  shows "answerable (length (frame_payload f) \<le> index_safe_bytes) r"
  using assms by (cases m; simp add: int32_requests_def decode_yes_no_answerable
    decode_effect_yes_no_answerable decode_rock_paper_scissors_answerable decode_position_answerable
    decode_option_answerable decode_announce_number_answerable decode_chain_answerable
    decode_battle_command_answerable decode_idle_command_answerable)

lemma chosen_unique:
  assumes "chosen r a cs" and "chosen r a ds" and "distinct (map candidate_id (candidates r))"
  shows "cs = ds"
proof (rule map_inj_on)
  show "map candidate_id cs = map candidate_id ds" using assms(1,2) by (simp add: chosen_def)
  have "set cs \<union> set ds \<subseteq> set (candidates r)" using assms(1,2) by (simp add: chosen_def)
  with assms(3) show "inj_on candidate_id (set cs \<union> set ds)" by (auto simp: distinct_map elim: inj_on_subset)
qed

lemma answerable_encodes:
  assumes "answerable short r" and "request_valid r" and "request_type r \<in> set int32_requests"
    and "c \<in> set (candidates r)" and "kinds_match a [c]" and "a_player a = player r"
    and "request_signature r = Inr (a_request_signature a)"
    and "map s_candidate_id (selections a) = [candidate_id c]"
  shows "case encode r a of
      Inl err \<Rightarrow> \<not> fits_int32 (PInt (response_value c))
    | Inr e \<Rightarrow> fits_int32 (PInt (response_value c)) \<and> parse_int32 (er_data e) = Some (response_value c)"
proof -
  let ?v = "response_value c"
  from assms(1,4) have k: "req_constraints r = default_constraints" and c: "int32_candidate short c"
    by (auto simp: answerable_def list_all_iff)
  from assms(8) have one: "length (selections a) = 1" by (metis One_nat_def length_Cons length_map list.size(3))
  have valid: "response_valid r (response_of r a)"
    using assms(2,4,7,8) one by (auto simp: response_valid_def response_of_def k uniform_keys_def)
  have chosen: "chosen r a [c]" using assms(4,8) by (simp add: chosen_def)
  have codec: "encode_int32 r [c] (selections a) = Inr bs \<longleftrightarrow> fits_int32 (PInt ?v) \<and> bs = int32_bytes ?v" for bs
    using c by (auto simp: encode_int32_iff int32_candidate_def)
  note registered = int32_requests_codec [OF assms(3)]
  have filled: "int32_bytes v \<noteq> []" for v using length_int32_bytes [of v] by (metis list.size(3) zero_neq_numeral)
  show ?thesis
  proof (cases "fits_int32 (PInt ?v)")
    case True
    then have "encode r a = Inr (encoded_of r a (int32_bytes ?v))"
      unfolding encode_iff using assms(5,6) registered k valid chosen codec filled by (auto simp: MAX_RESPONSE_BYTES_def)
    moreover have "fits_signed 4 ?v" using fits_int32_signed [OF True] by simp
    ultimately show ?thesis using True by (simp add: encoded_of_def parse_int32_bytes)
  next
    case False
    have "encode r a \<noteq> Inr e" for e
    proof
      assume "encode r a = Inr e"
      then obtain cs bs where "chosen r a cs" "encode_int32 r cs (selections a) = Inr bs"
        unfolding encode_iff using registered by auto
      then show False using chosen_unique [OF _ chosen] assms(2) codec False by (metis request_valid_def)
    qed
    with False show ?thesis by (cases "encode r a") auto
  qed
qed

lemma answerable_mono: "answerable b r \<Longrightarrow> (c \<Longrightarrow> b) \<Longrightarrow> answerable c r"
  by (auto simp: answerable_def int32_candidate_def list_all_iff)

lemma answerable_fits: "answerable True r \<Longrightarrow> c \<in> set (candidates r) \<Longrightarrow> fits_int32 (PInt (response_value c))"
  by (simp add: answerable_def int32_candidate_def list_all_iff)

section \<open>Over a batch\<close>

lemma frame_payload_length: "f \<in> set fs \<Longrightarrow> length (frame_payload f) \<le> length (stream_bytes fs)"
  by (induction fs) auto

lemma decode_batch_payloads:
  assumes "decode_batch data rid ctx core_logs = Inr b" and "f \<in> set (frames b)"
  shows "length (frame_payload f) \<le> length data"
proof -
  from assms(1) have "split_message_stream data = Inr (frames b)"
    by (auto simp: decode_batch_def monad_simps Let_def)
  with split_stream_iff [of data "frames b"] frame_payload_length [OF assms(2)] show ?thesis by auto
qed

definition base_context :: "decision_context option \<Rightarrow> decision_context" where
  "base_context ctx = (case ctx of None \<Rightarrow> empty_context | Some x \<Rightarrow> x)"

lemma empty_context_safe [simp]: "context_safe empty_context"
  by (simp add: context_safe_def empty_context_def)

lemma decode_batch_ok:
  assumes "decode_batch data rid ctx core_logs = Inr b" and "request b = Some r"
    and "context_safe (base_context ctx)"
  shows "decoded_ok rid r" and "request_type r \<noteq> ''select_tribute'' \<Longrightarrow> bounds_ok r"
    and "request_type r \<in> set (map message_type_name all_message_types)"
    and "request_type r \<in> set int32_requests \<Longrightarrow> answerable (length data \<le> index_safe_bytes) r"
proof -
  from decode_batch_request [OF assms(1,2)] obtain f m where f: "f \<in> set (frames b)"
    "message_type_of (frame_type f) = Some m" "decoder_of m f rid (base_context ctx) = Inr r"
    unfolding base_context_def by blast
  note type = decoder_of_type [OF f(2,3)]
  from decoder_of_ok [OF f(3) assms(3)] type show "decoded_ok rid r"
    and "request_type r \<noteq> ''select_tribute'' \<Longrightarrow> bounds_ok r"
    by (simp_all, cases "m = MSG_SELECT_TRIBUTE", simp_all)
  from type show "request_type r \<in> set (map message_type_name all_message_types)"
    using all_message_types_complete by auto
  assume "request_type r \<in> set int32_requests"
  then have "answerable (length (frame_payload f) \<le> index_safe_bytes) r"
    using decoder_of_answerable [OF f(3)] type by simp
  then show "answerable (length data \<le> index_safe_bytes) r"
    using decode_batch_payloads [OF assms(1) f(1)] by (auto elim: answerable_mono)
qed

lemma decode_batch_tribute:
  assumes "decode_batch data rid ctx core_logs = Inr b" and "request b = Some r"
    and "request_type r = ''select_tribute''"
  shows "min_selections (req_constraints r) = of_bool (required (req_constraints r)) \<and>
    0 \<le> max_selections (req_constraints r) \<and> max_selections (req_constraints r) \<le> int (length (candidates r))"
proof -
  from decode_batch_request [OF assms(1,2)] obtain f m where f:
    "message_type_of (frame_type f) = Some m" "decoder_of m f rid (base_context ctx) = Inr r"
    unfolding base_context_def by blast
  have "message_type_name m = ''select_tribute''" using decoder_of_type [OF f] assms(3) by simp
  then have "m = MSG_SELECT_TRIBUTE" by (cases m) simp_all
  with f(2) show ?thesis by (simp add: decode_tribute_bounds)
qed

text \<open>The one message of a batch that asks for a decision, and what of it the request repeats.\<close>

lemma decode_batch_message:
  assumes "decode_batch data rid ctx core_logs = Inr b" and "request b = Some r"
  shows "\<exists>f. filter is_selection (frames b) = [f] \<and> frame_payload f \<noteq> [] \<and> player r = uint (hd (frame_payload f)) \<and>
    map_option message_type_name (message_type_of (frame_type f)) = Some (request_type r)"
proof -
  have "decode_frames (frames b) rid (base_context ctx) None = Inr (Some r)"
    using assms by (auto simp: decode_batch_def Let_def sbind_eq_Inr base_context_def)
  then obtain pre f m post where f: "frames b = pre @ f # post" "list_all is_silent pre" "list_all is_silent post"
    "message_type_of (frame_type f) = Some m" "decoder_of m f rid (base_context ctx) = Inr r"
    by (auto simp: decode_frames_iff one_selection_def)
  have "list_all is_silent fs \<Longrightarrow> filter is_selection fs = []" for fs
    using silent_not_selection by (induction fs) auto
  moreover have "is_selection f" using f(4) by (metis is_selection_def message_type_of_None option.distinct(1))
  ultimately have "filter is_selection (frames b) = [f]" using f(1-3) by simp
  then show ?thesis using decoder_of_player [OF f(5)] decoder_of_type [OF f(4,5)] f(4) by auto
qed

section \<open>The length of a chain message\<close>

lemma chain_loop:
  "read_many read_chain 0 n r = Inr (xs, r') \<Longrightarrow>
    length xs = n \<and> offset r' = offset r + n * 23 \<and> payload r' = payload r"
  using chain_item.loop_bytes [of 0 n r xs r'] read_many_length [of read_chain 0 n r xs r']
    chain_answers [of n r xs r'] by simp

lemma chain_length:
  "decode_chain f rid base = Inr r \<Longrightarrow>
    length (frame_payload f) + 23 * of_bool (dict_get (extra (req_context r)) ''forced'' = PBool False)
       = 15 + 23 * length (candidates r)"
  by (clarsimp simp: decode_chain_def decoder_simps request_context_def dict_get_update mk_reader_def
      dest!: chain_loop advances advance_player split del: if_split)

end
