(* ===== verification/Samples.thy ===== *)
theory Samples
  imports Answerable
begin

text \<open>
  Sample inputs: a yes/no message of the core with the request it decodes to, requests of the other
  response layouts, actions that answer them, and that the encoder accepts such an action.
\<close>

section \<open>A message\<close>

text \<open>
  Inputs at which the theorems with hypotheses are applied: a yes/no message of the core and the
  request it decodes to, and requests of the other layouts.
\<close>

definition yes_no_message :: "byte list" where
  "yes_no_message = [10, 0, 0, 0, 13, 0, 7, 0, 0, 0, 0, 0, 0, 0]"

definition yes_no_frame :: message_frame where
  "yes_no_frame = \<lparr>frame_type = 13, frame_payload = [0, 7, 0, 0, 0, 0, 0, 0, 0]\<rparr>"

lemma yes_no_split: "split_message_stream yes_no_message = Inr [yes_no_frame]"
  unfolding split_stream_iff
  by (simp add: yes_no_message_def yes_no_frame_def frame_bytes_def frame_ok_def MAX_MESSAGE_BYTES_def
      eval_nat_numeral)

definition yes_no_request :: decision_request where
  "yes_no_request =
    make_request ''r1'' ''select_yes_no'' 0
      (map (\<lambda>(i, label). plain_candidate (indexed ''choice'' i) ''option'' label
          [(''response_codec'', PStr ''int32''), (''response_value'', PInt (int i))])
        [(0, ''No''), (1, ''Yes'')])
      default_constraints
      (request_context empty_context MSG_SELECT_YES_NO 0 [(''description'', PInt 7)])"

definition yes_no_batch :: decoded_batch where
  "yes_no_batch = \<lparr>frames = [yes_no_frame], request = Some yes_no_request, logs = []\<rparr>"

lemma yes_no_decodes: "decode_batch yes_no_message ''r1'' None [] = Inr yes_no_batch"
proof -
  have "decode_yes_no yes_no_frame ''r1'' empty_context = Inr yes_no_request"
    by (simp add: decode_yes_no_def yes_no_frame_def yes_no_request_def mk_reader_def read_player_def
        read_defs read_field_def finish_def Let_def indexed_def)
  moreover have "message_type_of 13 = Some MSG_SELECT_YES_NO"
    by (simp add: message_type_of_def all_message_types_def)
  ultimately have "decode_frames [yes_no_frame] ''r1'' empty_context None = Inr (Some yes_no_request)"
    by (simp add: yes_no_frame_def decoder_registry_def UNSUPPORTED_MESSAGE_TYPES_def)
  then show ?thesis
    by (simp add: decode_batch_def yes_no_split yes_no_batch_def)
qed

lemma yes_no_simps:
  "request yes_no_batch = Some yes_no_request" "request_type yes_no_request = ''select_yes_no''"
  "context_safe (base_context None)"
  by (simp_all add: yes_no_batch_def yes_no_request_def base_context_def)


section \<open>Answers\<close>

text \<open>An action that answers a request of the given player, and a sample of encoding one.\<close>

definition answer :: "action_kind \<Rightarrow> int \<Rightarrow> selection list \<Rightarrow> string \<Rightarrow> action" where
  "answer k pl ss sig =
    \<lparr>a_kind = k, a_player = pl, selections = ss, a_request_signature = sig, source = None,
     a_effect_ref = None, action_id = ''act''\<rparr>"

definition pick :: "string \<Rightarrow> pyval \<Rightarrow> pyval \<Rightarrow> selection" where
  "pick i ord v =
    \<lparr>s_candidate_id = i, order = ord, s_card_ref = None, s_effect_ref = None, s_value = v,
     payload_ref = None\<rparr>"

lemma answer_simps [simp]:
  "a_kind (answer k p ss s) = k" "a_player (answer k p ss s) = p" "selections (answer k p ss s) = ss"
  "a_request_signature (answer k p ss s) = s"
  by (simp_all add: answer_def)

lemma pick_simps [simp]:
  "s_candidate_id (pick i n v) = i" "order (pick i n v) = n" "s_value (pick i n v) = v"
  by (simp_all add: pick_def)

lemma encode_sample:
  assumes "request_valid r" and "map_of encoder_registry (request_type r) = Some codec"
    and "\<not> ordered (req_constraints r)" and "chosen r (answer k (player r) ss []) cs"
    and "kinds_match (answer k (player r) ss []) cs" and "distinct (map s_candidate_id ss)"
    and "min_selections (req_constraints r) \<le> int (length ss)"
    and "int (length ss) \<le> max_selections (req_constraints r)"
    and "codec r cs ss = Inr bytes" and "bytes \<noteq> []" and "int (length bytes) \<le> MAX_RESPONSE_BYTES"
  obtains sig where "encode r (answer k (player r) ss sig) =
    Inr (encoded_of r (answer k (player r) ss sig) bytes)"
proof -
  from assms(1) obtain sig where sig: "request_signature r = Inr sig"
    using request_signature_total [of r] by (auto simp: request_valid_def)
  let ?a = "answer k (player r) ss sig"
  have ids: "set (map s_candidate_id ss) = set (map candidate_id cs)" "set cs \<subseteq> set (candidates r)"
    using assms(4) by (simp_all add: chosen_def)
  then have "list_all (\<lambda>i. i \<in> set (map candidate_id (candidates r))) (map s_candidate_id ss)"
    unfolding list_all_iff by auto
  with assms sig have valid: "response_valid r (response_of r ?a)"
    by (simp add: response_valid_def response_of_def uniform_keys_def)
  have "selections ?a = ss" "a_player ?a = player r" "chosen r ?a cs"
    using assms(4) by (simp_all add: chosen_def)
  moreover have "kinds_match ?a cs"
    using assms(5) unfolding kinds_match_def answer_simps by this
  ultimately have same: "selections ?a = ss" "a_player ?a = player r" "chosen r ?a cs" "kinds_match ?a cs"
    by this+
  have "encode r ?a = Inr (encoded_of r ?a bytes)"
    unfolding encode_iff using valid same assms by (intro conjI exI [of _ codec] exI [of _ cs] exI [of _ bytes]) simp_all
  then show thesis by (rule that)
qed

text \<open>A request of a layout, for the samples.\<close>

definition sample_request ::
  "string \<Rightarrow> pydict \<Rightarrow> (string \<times> pydict) list \<Rightarrow> int \<Rightarrow> int \<Rightarrow> decision_request"
where
  "sample_request rtype entries cs lo hi =
    make_request ''r1'' rtype 0 (map (\<lambda>(i, pay). plain_candidate i ''card'' i pay) cs)
      \<lparr>min_selections = lo, max_selections = hi, ordered = False, allow_duplicates = False, required = True\<rparr>
      (empty_context\<lparr>extra := entries\<rparr>)"

lemma sample_request_simps [simp]:
  "request_type (sample_request t x cs lo hi) = t" "player (sample_request t x cs lo hi) = 0"
  "candidates (sample_request t x cs lo hi) = map (\<lambda>(i, pay). plain_candidate i ''card'' i pay) cs"
  "ordered (req_constraints (sample_request t x cs lo hi)) = False"
  "allow_duplicates (req_constraints (sample_request t x cs lo hi)) = False"
  "min_selections (req_constraints (sample_request t x cs lo hi)) = lo"
  "max_selections (req_constraints (sample_request t x cs lo hi)) = hi"
  "extra_get (sample_request t x cs lo hi) k = dict_get x k"
  by (simp_all add: sample_request_def make_request_def extra_get_def)

lemma payload_get_plain [simp]: "payload_get (plain_candidate i k l pay) name = dict_get pay name"
  by (simp add: payload_get_def plain_candidate_def)

lemma sample_request_valid:
  "request_valid (sample_request t x cs lo hi) \<longleftrightarrow>
    list_all (\<lambda>(i, pay). i \<noteq> [] \<and> dict_safe pay) cs \<and> distinct (map fst cs) \<and> dict_safe x"
proof -
  have "distinct (map candidate_id (map (\<lambda>(i, pay). plain_candidate i ''card'' i pay) cs)) \<longleftrightarrow> distinct (map fst cs)"
    by (simp add: plain_candidate_def case_prod_unfold o_def)
  moreover have "list_all candidate_safe (map (\<lambda>(i, pay). plain_candidate i ''card'' i pay) cs) \<longleftrightarrow>
      list_all (\<lambda>(i, pay). dict_safe pay) cs"
    by (induction cs) (auto simp: plain_candidate_def candidate_safe_def)
  moreover have "list_all (\<lambda>c. candidate_id c \<noteq> []) (map (\<lambda>(i, pay). plain_candidate i ''card'' i pay) cs) \<longleftrightarrow>
      list_all (\<lambda>(i, pay). i \<noteq> []) cs"
    by (induction cs) (auto simp: plain_candidate_def)
  ultimately show ?thesis
    by (auto simp: request_valid_def list_all_iff sample_request_def make_request_def context_safe_def
        empty_context_def)
qed

text \<open>The sample answers select every candidate of the sample request.\<close>

lemma sample_encodes:
  fixes t x cs lo hi
  defines "r \<equiv> sample_request t x cs lo hi"
  assumes "list_all (\<lambda>(i, pay). i \<noteq> [] \<and> dict_safe pay \<and> map_of pay ''action_kind'' = None) cs"
    and "distinct (map fst cs)" and "dict_safe x" and "map_of encoder_registry t = Some codec"
    and "map s_candidate_id ss = map fst cs" and "lo \<le> int (length cs)" and "int (length cs) \<le> hi"
    and "codec r (candidates r) ss = Inr bytes" and "bytes \<noteq> []" and "int (length bytes) \<le> MAX_RESPONSE_BYTES"
  shows "\<exists>sig. encode r (answer k 0 ss sig) = Inr (encoded_of r (answer k 0 ss sig) bytes)"
proof -
  have len: "length ss = length cs" using assms(6) by (metis length_map)
  have "chosen r (answer k 0 ss []) (candidates r)"
    using assms(6) by (simp add: chosen_def r_def plain_candidate_def case_prod_unfold o_def)
  moreover have "kinds_match (answer k 0 ss []) (candidates r)"
    using assms(2) by (auto simp: kinds_match_def r_def list_all_iff plain_candidate_def)
  moreover have "request_valid r"
    using assms(2-4) unfolding r_def sample_request_valid by (auto simp: list_all_iff)
  moreover have "map_of encoder_registry (request_type r) = Some codec" "player r = 0"
    "\<not> ordered (req_constraints r)" "distinct (map s_candidate_id ss)"
    "min_selections (req_constraints r) \<le> int (length ss)" "int (length ss) \<le> max_selections (req_constraints r)"
    using assms(3,5-8) len by (simp_all add: r_def)
  ultimately show ?thesis
    using encode_sample [of r codec k ss "candidates r" bytes] assms(9-11) by metis
qed


end
