(* ===== verification/Response_Facts.thy ===== *)
theory Response_Facts
  imports Encoder_Facts "HOL-Library.Multiset"
begin

text \<open>
  What the bytes of an accepted response say about the selections, layout by layout: the facts the
  properties of the encoder rest on.
\<close>

unbundle bit_operations_syntax

section \<open>Counters\<close>

lemma sum_list_pick:
  fixes v :: int
  assumes "distinct is" and "k \<in> set is"
  shows "sum_list (map (\<lambda>i. (if i = k then v else 0) + f i) is) = v + sum_list (map f is)"
proof -
  have none: "k \<notin> set js \<Longrightarrow> sum_list (map (\<lambda>i. if i = k then v else 0) js) = 0" for js
    by (induction js) auto
  have "distinct js \<Longrightarrow> k \<in> set js \<Longrightarrow> sum_list (map (\<lambda>i. if i = k then v else 0) js) = v" for js
    by (induction js) (auto simp: none)
  with assms show ?thesis by (simp add: sum_list_addf)
qed

lemma allocated_sum:
  "distinct is \<Longrightarrow> distinct (map fst d) \<Longrightarrow> fst ` set d \<subseteq> set is \<Longrightarrow>
    sum_list (map (allocated d) is) = sum_list (map snd d)"
proof (induction d)
  case Nil
  then show ?case by (simp add: allocated_def)
next
  case (Cons kv d)
  obtain k v where kv: "kv = (k, v)" by (cases kv)
  have "map_of d k = None" using Cons.prems kv by (simp add: map_of_eq_None_iff)
  then have "allocated (kv # d) = (\<lambda>i. (if i = k then v else 0) + allocated d i)"
    by (auto simp: allocated_def kv fun_eq_iff)
  with Cons kv show ?case by (simp add: sum_list_pick)
qed

text \<open>What the response of a counter request assigns to a candidate.\<close>

definition assigned :: "action \<Rightarrow> candidate \<Rightarrow> int \<Rightarrow> bool" where
  "assigned a c v \<longleftrightarrow>
    (if candidate_id c \<in> set (map s_candidate_id (selections a))
     then 0 < v \<and> v \<le> int_val (payload_get c ''available_count'') \<and> v \<le> 0x7FFF \<and>
       (\<exists>s. s \<in> set (selections a) \<and> s_candidate_id s = candidate_id c \<and> s_value s = PInt v)
     else v = 0)"

lemma response_distinct:
  "response_valid r (response_of r a) \<Longrightarrow> \<not> allow_duplicates (req_constraints r) \<Longrightarrow>
    distinct (map s_candidate_id (selections a)) \<and> distinct (map candidate_id (candidates r))"
  by (simp add: response_valid_def response_of_def request_valid_def)

lemma allocations_keys:
  assumes "map candidate_id cs = map s_candidate_id ss" and "distinct (map candidate_id cs)"
  shows "allocations cs ss = map2 (\<lambda>c s. (candidate_id c, selection_value s)) cs ss"
    and "map fst (allocations cs ss) = map candidate_id cs"
proof -
  have "length cs = length ss" using assms(1) by (metis length_map)
  then have keys: "map fst (map2 (\<lambda>c s. (candidate_id c, selection_value s)) cs ss) = map candidate_id cs"
    by (induction cs ss rule: list_induct2) simp_all
  then show al: "allocations cs ss = map2 (\<lambda>c s. (candidate_id c, selection_value s)) cs ss"
    unfolding allocations_def by (intro dict_of_distinct) (simp add: assms(2))
  show "map fst (allocations cs ss) = map candidate_id cs" unfolding al by (rule keys)
qed

lemma allocated_selected:
  assumes "map candidate_id cs = map s_candidate_id ss" and "distinct (map candidate_id cs)" and "j < length ss"
  shows "allocated (allocations cs ss) (candidate_id (cs ! j)) = selection_value (ss ! j)"
proof -
  have "length cs = length ss" using assms(1) by (metis length_map)
  then have "(candidate_id (cs ! j), selection_value (ss ! j)) \<in> set (allocations cs ss)"
    unfolding allocations_keys(1) [OF assms(1,2)] using assms(3)
    by (auto simp: set_zip intro!: rev_image_eqI [of "(cs ! j, ss ! j)"])
  moreover have "distinct (map fst (allocations cs ss))"
    unfolding allocations_keys(2) [OF assms(1,2)] by (rule assms(2))
  ultimately show ?thesis by (simp add: allocated_def map_of_is_SomeI)
qed

lemma allocated_unselected:
  assumes "map candidate_id cs = map s_candidate_id ss" and "distinct (map candidate_id cs)"
    and "i \<notin> set (map s_candidate_id ss)"
  shows "allocated (allocations cs ss) i = 0"
proof -
  have "fst ` set (allocations cs ss) = set (map s_candidate_id ss)"
    using allocations_keys(2) [OF assms(1,2)] assms(1) by (metis list.set_map)
  with assms(3) have "map_of (allocations cs ss) i = None" unfolding map_of_eq_None_iff by simp
  then show ?thesis by (simp add: allocated_def)
qed

lemma counter_assigned:
  assumes "encode_counter_vector r cs (selections a) = Inr bs" and "chosen r a cs"
    and "distinct (map candidate_id (candidates r))" and "distinct (map s_candidate_id (selections a))"
    and "c \<in> set (candidates r)"
  shows "assigned a c (allocated (allocations cs (selections a)) (candidate_id c))"
proof (cases "candidate_id c \<in> set (map s_candidate_id (selections a))")
  case False
  with assms show ?thesis by (simp add: assigned_def allocated_unselected chosen_def)
next
  case True
  let ?ss = "selections a"
  have eq: "map candidate_id cs = map s_candidate_id ?ss" and len: "length cs = length ?ss"
    using assms(2) chosen_length by (auto simp: chosen_def)
  from True obtain j where j: "j < length ?ss" "s_candidate_id (?ss ! j) = candidate_id c"
    by (metis in_set_conv_nth length_map nth_map)
  have "candidate_id (cs ! j) = candidate_id c" using eq len j by (metis nth_map)
  moreover have "cs ! j \<in> set (candidates r)" using assms(2) j len by (auto simp: chosen_def)
  ultimately have c: "cs ! j = c" using assms(3,5) by (metis distinct_map inj_onD)
  have "allocation_ok (cs ! j) (?ss ! j)"
    using assms(1) j len unfolding encode_counter_vector_iff list_all2_conv_all_nth by simp
  moreover have al: "allocated (allocations cs ?ss) (candidate_id c) = selection_value (?ss ! j)"
    using allocated_selected [OF eq _ j(1)] assms(4) eq c by simp
  moreover have "allocated (allocations cs ?ss) (candidate_id c) \<le> 0x7FFF"
    using assms(1,5) by (auto simp: encode_counter_vector_iff counter_vector_def list_all_iff)
  ultimately show ?thesis
    using True j c by (auto simp: assigned_def allocation_ok_def selection_value_def is_strict_int_iff
        intro!: exI [of _ "?ss ! j"])
qed

lemma counter_total:
  assumes "encode_counter_vector r cs (selections a) = Inr bs" and "chosen r a cs"
    and "distinct (map candidate_id (candidates r))" and "distinct (map s_candidate_id (selections a))"
  shows "sum_list (counter_vector r cs (selections a)) = int_val (extra_get r ''required_count'')"
proof -
  let ?al = "allocations cs (selections a)"
  have keys: "map fst ?al = map candidate_id cs" "distinct (map candidate_id cs)"
    using allocations_keys(2) assms(2,4) by (simp_all add: chosen_def)
  then have "fst ` set ?al \<subseteq> set (map candidate_id (candidates r))"
    using assms(2) by (metis chosen_def image_mono list.set_map)
  then have "sum_list (map (allocated ?al) (map candidate_id (candidates r))) = sum_list (map snd ?al)"
    using keys assms(3) by (intro allocated_sum) simp_all
  with assms(1) show ?thesis by (simp add: encode_counter_vector_iff counter_vector_def o_def)
qed

section \<open>Card indices\<close>

lemma encoded_cards:
  assumes "encode_card_index_payload cs = Inr bs"
  obtains ks where "parse_indices bs = Some ks" and "sorted_wrt (<) ks" and "set ks = response_index ` set cs"
    and "length ks = length cs" and "list_all (\<lambda>k. 0 \<le> k \<and> k \<le> 0xFFFFFFFF) ks"
proof
  note facts = encode_card_index_payload_parse [OF assms]
  show "parse_indices bs = Some (sort (map response_index cs))" by (rule facts(1))
  show "sorted_wrt (<) (sort (map response_index cs))"
    using facts(2) by (simp add: strict_sorted_iff)
  show "list_all (\<lambda>k. 0 \<le> k \<and> k \<le> 0xFFFFFFFF) (sort (map response_index cs))"
    using facts(3) by (auto simp: list_all_iff indexed_card_def)
qed simp_all

lemma encode_card_indices_Inr:
  "encode_card_indices r cs ss = Inr bs \<longleftrightarrow>
    is_int (extra_get r ''core_min'') \<and> is_int (extra_get r ''core_max'') \<and>
    (if cs = [] then extra_get r ''cancelable'' = PBool True \<and> bs = int32_bytes (-1)
     else int_val (extra_get r ''core_min'') \<le> int (length cs) \<and>
       int (length cs) \<le> int_val (extra_get r ''core_max'') \<and> encode_card_index_payload cs = Inr bs)"
  by (auto simp: encode_card_indices_def Let_def invalid_def)

lemma release_value_checked:
  "release_value c = (if is_strict_int (payload_get c ''release_value'') \<and> 0 < int_val (payload_get c ''release_value'')
     then Inr (int_val (payload_get c ''release_value''))
     else Inl (InvalidResponse ''tribute candidate release_value must be a positive integer'' []))"
  by (auto simp: release_value_def invalid_def Let_def)

text \<open>How much a card counts as a tribute.\<close>

definition tribute_worth :: "candidate \<Rightarrow> int" where
  "tribute_worth c = int_val (payload_get c ''release_value'')"

lemma encode_tribute_indices_Inr:
  "encode_tribute_indices r cs ss = Inr bs \<longleftrightarrow>
    is_int (extra_get r ''core_min'') \<and> is_int (extra_get r ''core_max'') \<and>
    (if cs = [] then extra_get r ''cancelable'' = PBool True \<and> bs = int32_bytes (-1)
     else int (length cs) \<le> int_val (extra_get r ''core_max'') \<and>
       list_all (\<lambda>c. is_strict_int (payload_get c ''release_value'') \<and> 0 < tribute_worth c) cs \<and>
       int_val (extra_get r ''core_min'') \<le> sum_list (map tribute_worth cs) \<and>
       encode_card_index_payload cs = Inr bs)"
proof -
  have seq: "sseq (map release_value cs) = Inr vs \<longleftrightarrow>
      list_all (\<lambda>c. is_strict_int (payload_get c ''release_value'') \<and> 0 < tribute_worth c) cs \<and>
      vs = map tribute_worth cs" for vs
    unfolding tribute_worth_def by (rule sseq_map_checked) (rule release_value_checked)
  show ?thesis
    by (auto simp: encode_tribute_indices_def Let_def invalid_def sbind_eq_Inr seq)
qed

section \<open>Sums\<close>

definition sum_worth :: "candidate \<Rightarrow> int" where
  "sum_worth c = int_val (payload_get c ''sum_param'')"

definition must_worths :: "decision_request \<Rightarrow> int list" where
  "must_worths r = (case extra_get r ''must_sum_params'' of PList must \<Rightarrow> map int_val must | _ \<Rightarrow> [])"

lemma sum_parameter_checked:
  "sum_parameter c = (if is_strict_int (payload_get c ''sum_param'') then Inr (sum_worth c)
     else Inl (InvalidResponse ''sum candidate sum_param must be an integer'' []))"
  by (auto simp: sum_parameter_def sum_worth_def invalid_def Let_def)

lemma encode_sum_indices_Inr:
  assumes "encode_sum_indices r cs ss = Inr bs"
  shows "encode_card_index_payload cs = Inr bs" and "must_worths r @ map sum_worth cs \<noteq> []"
    and "if eq_int (extra_get r ''mode'') 0
      then int_val (extra_get r ''target'') \<in> set (reachable_sums (must_worths r @ map sum_worth cs))
      else minimal_threshold (must_worths r @ map sum_worth cs) (int_val (extra_get r ''target''))"
proof -
  obtain must where must: "extra_get r ''must_sum_params'' = PList must"
    using assms by (cases "extra_get r ''must_sum_params''") (simp_all add: encode_sum_indices_def Let_def invalid_def)
  have seq: "sseq (map sum_parameter cs) = Inr vs \<longleftrightarrow>
      list_all (\<lambda>c. is_strict_int (payload_get c ''sum_param'')) cs \<and> vs = map sum_worth cs" for vs
    by (rule sseq_map_checked) (rule sum_parameter_checked)
  have worths: "must_worths r = map int_val must" by (simp add: must_worths_def must)
  have "encode_card_index_payload cs = Inr bs \<and> must_worths r @ map sum_worth cs \<noteq> [] \<and>
      (if eq_int (extra_get r ''mode'') 0
       then int_val (extra_get r ''target'') \<in> set (reachable_sums (must_worths r @ map sum_worth cs))
       else minimal_threshold (must_worths r @ map sum_worth cs) (int_val (extra_get r ''target'')))"
    using assms unfolding worths
    by (clarsimp simp: encode_sum_indices_def Let_def must invalid_def sbind_eq_Inr seq split: if_splits)
  then show "encode_card_index_payload cs = Inr bs" "must_worths r @ map sum_worth cs \<noteq> []"
    "if eq_int (extra_get r ''mode'') 0
      then int_val (extra_get r ''target'') \<in> set (reachable_sums (must_worths r @ map sum_worth cs))
      else minimal_threshold (must_worths r @ map sum_worth cs) (int_val (extra_get r ''target''))"
    by blast+
qed

section \<open>Sort order\<close>

text \<open>The order a selection gives to a candidate.\<close>

definition ordered_at :: "selection list \<Rightarrow> candidate \<Rightarrow> int \<Rightarrow> bool" where
  "ordered_at ss c v \<longleftrightarrow> (\<exists>s. s \<in> set ss \<and> s_candidate_id s = candidate_id c \<and> order s = PInt v)"

lemma chosen_orders_from:
  assumes "map_of (chosen_orders cs ss) i = Some v" and "map candidate_id cs = map s_candidate_id ss"
  shows "\<exists>s. s \<in> set ss \<and> s_candidate_id s = i \<and> order s = v"
proof -
  have "(i, v) \<in> set (map2 (\<lambda>c s. (candidate_id c, order s)) cs ss)"
    using assms(1) by (auto simp: chosen_orders_def map_of_dict_of dest!: map_of_SomeD)
  moreover have "length cs = length ss" using assms(2) by (metis length_map)
  ultimately obtain j where j: "j < length ss" "i = candidate_id (cs ! j)" "v = order (ss ! j)"
    by (auto simp: in_set_conv_nth)
  with assms(2) \<open>length cs = length ss\<close> have "s_candidate_id (ss ! j) = i" by (metis nth_map)
  with j show ?thesis by (intro exI [of _ "ss ! j"]) simp
qed

lemma order_vector_facts:
  assumes "encode_sort_order r cs ss = Inr bs" and "map candidate_id cs = map s_candidate_id ss"
    and "\<not> keeps_order cs"
  shows "list_all2 (ordered_at ss) (sort_cards r) (order_vector r cs ss)"
    and "mset (order_vector r cs ss) = mset (map int [0..<length (sort_cards r)])"
proof -
  have ok: "list_all (order_ok (chosen_orders cs ss)) (sort_cards r)"
    and perm: "sort (order_vector r cs ss) = map int [0..<length (sort_cards r)]"
    using assms(1,3) by (simp_all add: encode_sort_order_iff)
  have "ordered_at ss c (order_of (chosen_orders cs ss) c)" if "c \<in> set (sort_cards r)" for c
  proof -
    from ok that obtain v where "map_of (chosen_orders cs ss) (candidate_id c) = Some v" "is_strict_int v"
      by (auto simp: list_all_iff order_ok_def split: option.splits)
    then show ?thesis
      using chosen_orders_from [OF _ assms(2)] by (auto simp: ordered_at_def order_of_def is_strict_int_iff)
  qed
  then show "list_all2 (ordered_at ss) (sort_cards r) (order_vector r cs ss)"
    by (simp add: order_vector_def list_all2_map2 list_all2_same)
  show "mset (order_vector r cs ss) = mset (map int [0..<length (sort_cards r)])"
    using perm by (metis mset_sort)
qed

section \<open>Bit masks\<close>

lemma bit_foldl_or: "bit (foldl (OR) m ks) n \<longleftrightarrow> bit m n \<or> (\<exists>k. k \<in> set ks \<and> bit k n)" for m :: int
  by (induction ks arbitrary: m) (auto simp: bit_or_iff)

lemma bit_mask_of: "bit (mask_of cs) n \<longleftrightarrow> (\<exists>c. c \<in> set cs \<and> bit (response_bit c) n)"
  by (auto simp: mask_of_def bit_foldl_or)

lemma encode_bit_mask_facts:
  assumes "encode_bit_mask r cs ss = Inr bs"
  shows "le_int bs = mask_of cs"
    and "length bs = (if eq_int (extra_get r ''response_width'') 64 then 8 else 4)"
  using bit_mask.parse_codec [OF assms] assms by (auto simp: encode_bit_mask_iff split: if_splits)

section \<open>Zones\<close>

lemma encode_place_facts:
  assumes "encode_place r cs ss = Inr bs"
  shows "parse_triplets bs = sort (map zone_of cs)" and "distinct (map zone_of cs)"
    and "length bs = 3 * length cs"
proof -
  show "parse_triplets bs = sort (map zone_of cs)" by (rule place_layout.parse_codec [OF assms])
  show "distinct (map zone_of cs)" using assms by (simp add: encode_place_iff)
  have "length (concat (map triplet_bytes ts)) = 3 * length ts" for ts
    by (induction ts) (auto simp: triplet_bytes_def)
  with assms show "length bs = 3 * length cs" by (simp add: encode_place_iff)
qed

end
