(* ===== verification/Sample_Answers.thy ===== *)
theory Sample_Answers
  imports Samples Response_Facts
begin

text \<open>
  One request for each response layout, with an answer that selects all of its candidates, and that
  the encoder accepts it: the concrete inputs of the encoder's properties.
\<close>

definition counters_request :: decision_request where
  "counters_request = sample_request ''select_counter'' [(''required_count'', PInt 3)]
     [(''card:0'', [(''available_count'', PInt 2)]), (''card:1'', [(''available_count'', PInt 4)])] 1 2"

definition counters_picks :: "selection list" where
  "counters_picks = [pick ''card:0'' PNone (PInt 1), pick ''card:1'' PNone (PInt 2)]"

definition indexed_payload :: "int \<Rightarrow> pydict" where
  "indexed_payload i = [(''response_codec'', PStr ''card_indices''), (''response_index'', PInt i)]"

definition cards_request :: decision_request where
  "cards_request = sample_request ''select_card''
     [(''cancelable'', PBool False), (''core_min'', PInt 1), (''core_max'', PInt 2)]
     [(''card:1'', indexed_payload 1), (''card:0'', indexed_payload 0)] 1 2"

definition tribute_request :: decision_request where
  "tribute_request = sample_request ''select_tribute''
     [(''cancelable'', PBool False), (''core_min'', PInt 2), (''core_max'', PInt 2)]
     [(''card:0'', (''release_value'', PInt 2) # indexed_payload 0)] 1 1"

definition sum_request :: decision_request where
  "sum_request = sample_request ''select_sum''
     [(''mode'', PInt 0), (''target'', PInt 7), (''must_sum_params'', PList [])]
     [(''card:0'', (''sum_param'', PInt 3) # indexed_payload 0),
      (''card:1'', (''sum_param'', PInt 4) # indexed_payload 1)] 1 2"

definition sort_request :: decision_request where
  "sort_request = sample_request ''sort_card'' []
     [(''card:0'', [(''response_index'', PInt 0)]), (''card:1'', [(''response_index'', PInt 1)])] 1 2"

definition mask_request :: decision_request where
  "mask_request = sample_request ''announce_attribute'' [(''response_width'', PInt 32)]
     [(''bit:0'', [(''response_bit'', PInt 1)]), (''bit:4'', [(''response_bit'', PInt 16)])] 2 2"

definition zone_payload :: "int \<Rightarrow> int \<Rightarrow> int \<Rightarrow> pydict" where
  "zone_payload c l s = [(''response_codec'', PStr ''place_triplets''), (''response_controller'', PInt c),
     (''response_location'', PInt l), (''response_sequence'', PInt s)]"

definition place_request :: decision_request where
  "place_request = sample_request ''select_place'' []
     [(''zone:1:4:2'', zone_payload 1 4 2), (''zone:0:8:1'', zone_payload 0 8 1)] 2 2"

definition picks :: "string list \<Rightarrow> selection list" where
  "picks is = map (\<lambda>i. pick i PNone PNone) is"

lemmas sample_defs = counters_request_def counters_picks_def cards_request_def tribute_request_def
  sum_request_def sort_request_def mask_request_def place_request_def

lemmas sample_payloads = indexed_payload_def zone_payload_def picks_def

lemma pack_literals: "fits_signed n v \<Longrightarrow> pack_signed n v = Inr (le_bytes n v)"
  "fits_unsigned n v \<Longrightarrow> pack_unsigned n v = Inr (le_bytes n v)"
  by (simp_all add: pack_signed_def pack_unsigned_def)

text \<open>The bytes of two small indices.\<close>

lemma encode_two_indices:
  assumes "list_all indexed_card cs" and "distinct (map response_index cs)" and "cs \<noteq> []"
    and "list_all (\<lambda>c. response_index c \<le> 255) cs" and "length cs \<le> 255"
  shows "\<exists>bs. encode_card_index_payload cs = Inr bs \<and> bs \<noteq> [] \<and> length bs \<le> 300"
proof -
  have seq: "sseq (map card_index cs) = Inr (map response_index cs)"
    using sseq_map_checked [of card_index indexed_card response_index, OF card_index_checked] assms(1) by simp
  let ?ks = "sort (map response_index cs)"
  have ne: "?ks \<noteq> []" using assms(3) by (metis length_0_conv length_map length_sort)
  then have "last ?ks \<in> set ?ks" by (rule last_in_set)
  then have "last ?ks \<le> 255" using assms(4) by (auto simp: list_all_iff)
  moreover have "card_header 2 (length cs) = Inr (le_bytes 4 2 @ le_bytes 4 (int (length cs)))"
    using assms(5) by (simp add: card_header_Inr fits_signed_def fits_unsigned_def)
  ultimately show ?thesis
    using assms ne by (simp add: encode_card_index_payload_def seq Let_def)
qed

text \<open>An answer to each request that the encoder accepts.\<close>

lemma sample_accepts:
  fixes t x cs lo hi
  defines "r \<equiv> sample_request t x cs lo hi"
  assumes "codec r (candidates r) ss = Inr bytes" and "map_of encoder_registry t = Some codec"
    and "list_all (\<lambda>(i, pay). i \<noteq> [] \<and> dict_safe pay \<and> map_of pay ''action_kind'' = None) cs"
    and "distinct (map fst cs)" and "dict_safe x"
    and "map s_candidate_id ss = map fst cs" and "lo \<le> int (length cs)" and "int (length cs) \<le> hi"
    and "0 < length bytes" and "length bytes \<le> 1000"
  shows "\<exists>sig e. encode r (answer k 0 ss sig) = Inr e"
  using sample_encodes [of cs x t codec ss lo hi bytes k] assms(2-)
  unfolding r_def by (auto simp: MAX_RESPONSE_BYTES_def)

lemma counters_encode: "\<exists>sig e. encode counters_request (answer DISTRIBUTE_COUNTERS 0 counters_picks sig) = Inr e"
proof -
  have vec: "counter_vector counters_request (candidates counters_request) counters_picks = [1, 2]"
    by (simp add: counter_vector_def sample_defs allocations_def dict_of_def allocated_def
        plain_candidate_def selection_value_def)
  have "encode_counter_vector counters_request (candidates counters_request) counters_picks =
      Inr (concat (map (le_bytes 2) [1, 2]))"
    unfolding encode_counter_vector_iff vec
    by (simp add: sample_defs allocations_def dict_of_def plain_candidate_def selection_value_def
        allocation_ok_def payload_get_def fits_signed_def)
  then show ?thesis
    unfolding counters_request_def
    by (rule sample_accepts) (simp_all add: encoder_registry_def counters_picks_def)
qed

lemma cards_payload:
  assumes "r = sample_request t x cs lo hi" and "cs \<noteq> []" and "length cs \<le> 255" and "distinct (map fst cs)"
    and "list_all (\<lambda>(i, pay). \<exists>k. dict_get pay ''response_codec'' = PStr ''card_indices'' \<and>
      dict_get pay ''response_index'' = PInt k \<and> 0 \<le> k \<and> k \<le> 255) cs"
    and "distinct (map (\<lambda>(i, pay). int_val (dict_get pay ''response_index'')) cs)"
  shows "\<exists>bs. encode_card_index_payload (candidates r) = Inr bs \<and> bs \<noteq> [] \<and> length bs \<le> 300"
proof (rule encode_two_indices)
  show "list_all indexed_card (candidates r)"
    using assms(5) by (auto simp: assms(1) list_all_iff indexed_card_def response_index_def)
  show "list_all (\<lambda>c. response_index c \<le> 255) (candidates r)"
    using assms(5) by (auto simp: assms(1) list_all_iff response_index_def)
  show "distinct (map response_index (candidates r))"
    using assms(6) by (simp add: assms(1) response_index_def case_prod_unfold o_def)
qed (use assms in simp_all)

lemma cards_encode: "\<exists>sig e. encode cards_request (answer SELECT_CARD 0 (picks [''card:1'', ''card:0'']) sig) = Inr e"
proof -
  obtain bs where bs: "encode_card_index_payload (candidates cards_request) = Inr bs" "bs \<noteq> []" "length bs \<le> 300"
    using cards_payload [OF cards_request_def] by (auto simp: indexed_payload_def)
  then have "encode_card_indices cards_request (candidates cards_request) (picks [''card:1'', ''card:0'']) = Inr bs"
    by (simp add: encode_card_indices_Inr cards_request_def)
  then show ?thesis
    unfolding cards_request_def using bs
    by (intro sample_accepts [where bytes = bs and codec = encode_card_indices])
      (simp_all add: encoder_registry_def sample_payloads)
qed

lemma tribute_encode: "\<exists>sig e. encode tribute_request (answer SELECT_TRIBUTE 0 (picks [''card:0'']) sig) = Inr e"
proof -
  obtain bs where bs: "encode_card_index_payload (candidates tribute_request) = Inr bs" "bs \<noteq> []" "length bs \<le> 300"
    using cards_payload [OF tribute_request_def] by (auto simp: indexed_payload_def)
  then have "encode_tribute_indices tribute_request (candidates tribute_request) (picks [''card:0'']) = Inr bs"
    by (simp add: encode_tribute_indices_Inr tribute_request_def tribute_worth_def)
  then show ?thesis
    unfolding tribute_request_def using bs
    by (intro sample_accepts [where bytes = bs and codec = encode_tribute_indices])
      (simp_all add: encoder_registry_def sample_payloads)
qed

lemma sum_encode: "\<exists>sig e. encode sum_request (answer SELECT_SUM 0 (picks [''card:0'', ''card:1'']) sig) = Inr e"
proof -
  obtain bs where bs: "encode_card_index_payload (candidates sum_request) = Inr bs" "bs \<noteq> []" "length bs \<le> 300"
    using cards_payload [OF sum_request_def] by (auto simp: indexed_payload_def)
  have "encode_sum_indices sum_request (candidates sum_request) (picks [''card:0'', ''card:1'']) = Inr bs"
    using bs by (simp add: encode_sum_indices_def sum_request_def sum_parameter_def reachable_sums_def
        reach_step_def sum_options_def Let_def)
  then show ?thesis
    unfolding sum_request_def using bs
    by (intro sample_accepts [where bytes = bs and codec = encode_sum_indices])
      (simp_all add: encoder_registry_def sample_payloads)
qed

definition sort_picks :: "selection list" where
  "sort_picks = [pick ''card:0'' (PInt 1) PNone, pick ''card:1'' (PInt 0) PNone]"

lemma sort_encode: "\<exists>sig e. encode sort_request (answer ORDER_CARDS 0 sort_picks sig) = Inr e"
proof -
  have "encode_sort_order sort_request (candidates sort_request) sort_picks = Inr [1, 0]"
    by (simp add: encode_sort_order_def sort_request_def sort_picks_def sort_cards_def for_zip_def
        dict_of_def py_bytes_def plain_candidate_def payload_get_def Let_def)
  then show ?thesis
    unfolding sort_request_def
    by (rule sample_accepts) (simp_all add: encoder_registry_def sort_picks_def)
qed

lemma mask_encode: "\<exists>sig e. encode mask_request (answer ANNOUNCE_ATTRIBUTE 0 (picks [''bit:0'', ''bit:4'']) sig) = Inr e"
proof -
  have "encode_bit_mask mask_request (candidates mask_request) (picks [''bit:0'', ''bit:4'']) = Inr (le_bytes 4 17)"
    by (simp add: encode_bit_mask_def mask_request_def mask_bit_def pack_literals fits_unsigned_def Let_def)
  then show ?thesis
    unfolding mask_request_def
    by (rule sample_accepts) (simp_all add: encoder_registry_def picks_def)
qed

lemma place_encode: "\<exists>sig e. encode place_request (answer SELECT_ZONE 0 (picks [''zone:1:4:2'', ''zone:0:8:1'']) sig) = Inr e"
proof -
  have "encode_place place_request (candidates place_request) (picks [''zone:1:4:2'', ''zone:0:8:1'']) =
      Inr [0, 8, 1, 1, 4, 2]"
    by (simp add: encode_place_def place_request_def place_triplet_def zone_payload_def fits_uint8_def
        triplet_bytes_def Let_def)
  then show ?thesis
    unfolding place_request_def
    by (rule sample_accepts) (simp_all add: encoder_registry_def sample_payloads)
qed

end
