(* ===== verification/Rejections.thy ===== *)
theory Rejections
  imports Encoder_Laws
begin

text \<open>
  What a rejected response reports: the codecs raise invalid responses without a context, the
  validation raises them with one, and \<open>encode\<close> fills in what is missing.
\<close>

section \<open>The codecs\<close>

text \<open>Computations whose invalid responses carry no context of their own.\<close>

definition plain :: "py_error + 'a \<Rightarrow> bool" where
  "plain m \<longleftrightarrow> (case m of Inl (InvalidResponse t ctx) \<Rightarrow> ctx = [] | _ \<Rightarrow> True)"

lemma plain_simps [simp]:
  "plain (Inr x)" "plain (invalid t)" "plain (Inl (ValueError t))" "plain (Inl (StructError t))"
  "plain (Inl (TypeError t))" "plain (Inl (KeyError t))" "plain (Inl (UnsupportedMessage t c))"
  by (simp_all add: plain_def invalid_def)

lemma plain_sbind: "plain m \<Longrightarrow> (\<And>x. m = Inr x \<Longrightarrow> plain (f x)) \<Longrightarrow> plain (sbind m f)"
  by (cases m) (auto simp: plain_def split: py_error.splits)

lemma plain_sseq: "list_all plain ms \<Longrightarrow> plain (sseq ms)"
  by (induction ms) (auto intro!: plain_sbind)

lemma plain_map: "(\<And>x. plain (f x)) \<Longrightarrow> plain (sseq (map f xs))"
  by (intro plain_sseq) (simp add: list_all_iff)

lemma plain_pack: "plain (pack_unsigned n v)" "plain (pack_signed n v)"
  by (simp_all add: pack_unsigned_def pack_signed_def)

lemma plain_pack_list: "(\<And>v. plain (pack v)) \<Longrightarrow> plain (pack_list pack vs)"
  unfolding pack_list_def by (intro plain_sbind plain_map) simp_all

lemma plain_for_zip: "(\<And>x y. plain (f x y)) \<Longrightarrow> plain (for_zip f xs ys)"
  unfolding for_zip_def by (intro plain_sbind plain_sseq) (auto simp: list_all_iff)

lemmas plain_intros = plain_sbind plain_map plain_pack plain_pack_list plain_for_zip

lemma plain_indices: "plain (encode_card_index_payload cs)"
  unfolding encode_card_index_payload_def card_index_def card_header_def Let_def
  by (intro plain_sbind plain_map) (auto intro!: plain_intros)

lemma plain_number: "plain (encode_int32 r cs ss)" "plain (encode_selection_int32 r cs ss)"
  by (simp_all add: encode_int32_def encode_selection_int32_def split: list.splits)

lemma plain_unselect: "plain (encode_unselect_action r cs ss)"
  by (auto simp: encode_unselect_action_def Let_def intro: plain_intros split: list.splits)

lemma plain_cards: "plain (encode_card_indices r cs ss)"
  by (simp add: encode_card_indices_def Let_def plain_indices)

lemma plain_tribute: "plain (encode_tribute_indices r cs ss)"
proof -
  have "plain (release_value c)" for c by (simp add: release_value_def Let_def)
  then have "plain (sseq (map release_value cs))" by (rule plain_map)
  then show ?thesis
    by (auto simp: encode_tribute_indices_def Let_def plain_indices intro: plain_sbind)
qed

lemma plain_counter: "plain (encode_counter_vector r cs ss)"
proof -
  have "plain (counter_allocation c s)" for c s by (simp add: counter_allocation_def Let_def)
  then show ?thesis
    unfolding encode_counter_vector_def Let_def by (auto intro!: plain_intros)
qed

lemma plain_sum: "plain (encode_sum_indices r cs ss)"
proof -
  have "plain (sum_parameter c)" for c by (simp add: sum_parameter_def Let_def)
  then have "plain (sseq (map sum_parameter cs))" by (rule plain_map)
  then show ?thesis
    unfolding encode_sum_indices_def Let_def
    by (cases "extra_get r ''must_sum_params''") (auto simp: plain_indices intro: plain_sbind)
qed

lemma plain_sort: "plain (encode_sort_order r cs ss)"
  unfolding encode_sort_order_def py_bytes_def Let_def
  by (auto intro!: plain_intros split: option.splits)

lemma plain_mask: "plain (encode_bit_mask r cs ss)"
proof -
  have "plain (mask_bit c)" for c by (simp add: mask_bit_def Let_def)
  then show ?thesis
    unfolding encode_bit_mask_def Let_def by (auto intro!: plain_intros)
qed

lemma plain_place: "plain (encode_place r cs ss)"
proof -
  have "plain (place_triplet c)" for c by (simp add: place_triplet_def Let_def)
  then show ?thesis
    unfolding encode_place_def Let_def by (auto intro!: plain_intros)
qed

lemmas plain_codecs = plain_number plain_unselect plain_cards plain_tribute plain_counter plain_sum
  plain_sort plain_mask plain_place

lemma registry_plain: "map_of encoder_registry t = Some codec \<Longrightarrow> plain (codec r cs ss)"
  by (auto simp: encoder_registry_def plain_codecs split: if_splits)

text \<open>The contexts a rejection reports: the request and the answer, or the request's identity.\<close>

definition informative :: "pydict \<Rightarrow> bool" where
  "informative ctx \<longleftrightarrow> map fst ctx = [''request'', ''response''] \<or>
    take 2 (map fst ctx) = [''request_id'', ''request_type'']"

definition reported :: "py_error + 'a \<Rightarrow> bool" where
  "reported m \<longleftrightarrow> (case m of Inl (InvalidResponse t ctx) \<Rightarrow> ctx = [] \<or> informative ctx | _ \<Rightarrow> True)"

lemma plain_reported: "plain m \<Longrightarrow> reported m"
  by (auto simp: plain_def reported_def split: sum.splits py_error.splits)

lemma reported_simps:
  "reported (Inr x)" "reported (invalid t)" "reported (Inl (UnsupportedMessage t c))"
  by (simp_all add: plain_reported)

lemma reported_sbind: "reported m \<Longrightarrow> (\<And>x. m = Inr x \<Longrightarrow> reported (f x)) \<Longrightarrow> reported (sbind m f)"
  by (cases m) (auto simp: reported_def split: py_error.splits)

lemma request_signature_Inr: "validate_decision_request r = Inr u \<Longrightarrow> \<exists>s. request_signature r = Inr s"
  using request_signature_total [of r] by (auto simp: validate_request_iff request_valid_def)

lemma reported_request: "reported (validate_decision_request r)"
  by (auto simp: validate_decision_request_def Let_def reported_def informative_def split: sum.splits)

lemma reported_response: "reported (validate_decision_response r p)"
  unfolding validate_decision_response_def
proof (intro reported_sbind)
  show "reported (validate_decision_request r)" by (rule reported_request)
next
  fix u assume "validate_decision_request r = Inr u"
  then obtain s where s: "request_signature r = Inr s" using request_signature_Inr by blast
  then obtain d where "request_to_dict r = Inr d" using request_to_dict_eq by blast
  with s show "reported (request_to_dict r)" "reported (request_signature r)"
    by (simp_all add: reported_def)
qed (simp add: reported_def informative_def Let_def del: canonicalize_payload.simps split: sum.split)

lemma reported_encode: "reported (encode_checked r a)"
proof -
  have sel: "reported (selected_candidates r ss)" for ss
    unfolding selected_candidates_def Let_def by (intro plain_reported plain_map) (simp split: option.splits)
  have owned: "reported (validate_owned_payloads cs)" for cs
    unfolding validate_owned_payloads_def
    by (intro plain_reported plain_sbind plain_map) (simp_all split: sum.splits)
  have kinds: "reported (declared_action_kinds cs)" for cs
    by (simp add: declared_action_kinds_def Let_def plain_reported)
  show ?thesis
  proof (cases "validate_decision_request r")
    case (Inl e)
    then show ?thesis using reported_request [of r]
      by (simp add: encode_checked_def reported_def)
  next
    case (Inr u)
    then obtain s where s: "request_signature r = Inr s" using request_signature_Inr by blast
    show ?thesis
      unfolding encode_checked_def s
      by (auto intro!: reported_sbind reported_request reported_response sel owned kinds
          plain_reported [OF registry_plain] simp: reported_simps split: option.splits)
  qed
qed

end
