(* ===== verification/Failures.thy ===== *)
theory Failures
  imports Decision
begin

text \<open>
  \<open>engine/failures.py\<close>: how an exception or an empty core request becomes a failure record, with
  its disposition and recovery, and the exception classes of \<open>bridge/errors.py\<close>,
  \<open>bridge/ocgcore/errors.py\<close> and \<open>replay/errors.py\<close> it tells apart.
\<close>

section \<open>Records\<close>

datatype failure_disposition = LEGAL_DEAD_END | PATH_FAILURE | EXPERIMENT_FAILURE

datatype recovery_action = RECOVER_NONE | STOP_PATH | REPLACE_WORKER | ABORT_EXPERIMENT

fun disposition_value :: "failure_disposition \<Rightarrow> string" where
  "disposition_value LEGAL_DEAD_END = ''legal_dead_end''"
| "disposition_value PATH_FAILURE = ''path_failure''"
| "disposition_value EXPERIMENT_FAILURE = ''experiment_failure''"

fun recovery_value :: "recovery_action \<Rightarrow> string" where
  "recovery_value RECOVER_NONE = ''none''"
| "recovery_value STOP_PATH = ''stop_path''"
| "recovery_value REPLACE_WORKER = ''replace_worker''"
| "recovery_value ABORT_EXPERIMENT = ''abort_experiment''"

text \<open>\<open>repr\<close> and \<open>str\<close> of a value, as the messages of the enum lookups render it.\<close>

fun py_repr :: "pyval \<Rightarrow> string" where
  "py_repr PNone = ''None''"
| "py_repr (PBool b) = (if b then ''True'' else ''False'')"
| "py_repr (PInt i) = str_int i"
| "py_repr (PFloat t) = t"
| "py_repr (PStr s) = repr_str s"
| "py_repr (PList xs) = ''['' @ join '', '' (map py_repr xs) @ '']''"
| "py_repr (PTuple xs) =
     (case xs of [x] \<Rightarrow> ''('' @ py_repr x @ '',)'' | _ \<Rightarrow> ''('' @ join '', '' (map py_repr xs) @ '')'')"
| "py_repr (PDict d) = ''{'' @ join '', '' (map (\<lambda>(k, v). repr_str k @ '': '' @ py_repr v) d) @ ''}''"
| "py_repr (POpaque t) = ''<'' @ t @ '' object>''"

fun py_str :: "pyval \<Rightarrow> string" where
  "py_str (PStr s) = s"
| "py_str v = py_repr v"

definition all_dispositions :: "failure_disposition list" where
  "all_dispositions = [LEGAL_DEAD_END, PATH_FAILURE, EXPERIMENT_FAILURE]"

definition all_recoveries :: "recovery_action list" where
  "all_recoveries = [RECOVER_NONE, STOP_PATH, REPLACE_WORKER, ABORT_EXPERIMENT]"

text \<open>\<open>FailureDisposition(value)\<close>; a member is a string, so it is found by its value.\<close>

definition disposition_of :: "pyval \<Rightarrow> py_error + failure_disposition" where
  "disposition_of v =
    (case find (\<lambda>d. PStr (disposition_value d) = v) all_dispositions of
       None \<Rightarrow> Inl (ValueError (py_repr v @ '' is not a valid FailureDisposition''))
     | Some d \<Rightarrow> Inr d)"

definition recovery_of :: "pyval \<Rightarrow> py_error + recovery_action" where
  "recovery_of v =
    (case find (\<lambda>d. PStr (recovery_value d) = v) all_recoveries of
       None \<Rightarrow> Inl (ValueError (py_repr v @ '' is not a valid RecoveryAction''))
     | Some d \<Rightarrow> Inr d)"

record failure_record =
  f_category :: string
  f_disposition :: failure_disposition
  f_recovery :: recovery_action
  f_retryable :: bool
  f_message :: string
  f_exception_type :: "string option"
  f_context :: pydict

fun allowed_recoveries :: "failure_disposition \<Rightarrow> recovery_action list" where
  "allowed_recoveries LEGAL_DEAD_END = [RECOVER_NONE]"
| "allowed_recoveries PATH_FAILURE = [STOP_PATH, REPLACE_WORKER]"
| "allowed_recoveries EXPERIMENT_FAILURE = [ABORT_EXPERIMENT]"

text \<open>The constructor: \<open>__post_init__\<close> on arguments of any type.\<close>

definition make_failure ::
  "pyval \<Rightarrow> pyval \<Rightarrow> pyval \<Rightarrow> pyval \<Rightarrow> pyval \<Rightarrow> pyval \<Rightarrow> pyval \<Rightarrow> py_error + failure_record"
where
  "make_failure category disposition recovery retryable msg exception_type ctx =
    (case category of
       PStr cat \<Rightarrow>
         if cat = [] then Inl (ValueError ''FailureRecord category must be a non-empty string'')
         else
         sbind (disposition_of disposition) (\<lambda>disp.
         sbind (recovery_of recovery) (\<lambda>rec.
         case retryable of
           PBool again \<Rightarrow>
             (case msg of
                PStr m \<Rightarrow>
                  if exception_type \<noteq> PNone \<and>
                     (case exception_type of PStr t \<Rightarrow> t = [] | _ \<Rightarrow> True)
                  then Inl (ValueError ''FailureRecord exception_type must be a non-empty string or None'')
                  else (case ctx of
                      PDict d \<Rightarrow>
                        if rec \<notin> set (allowed_recoveries disp)
                        then Inl (ValueError ''FailureRecord recovery is incompatible with disposition'')
                        else if again \<and> \<not> (disp = PATH_FAILURE \<and> rec = REPLACE_WORKER)
                        then Inl (ValueError ''retryable FailureRecord must be path_failure + replace_worker'')
                        else Inr \<lparr>f_category = cat, f_disposition = disp, f_recovery = rec,
                               f_retryable = again, f_message = m,
                               f_exception_type =
                                 (case exception_type of PStr t \<Rightarrow> Some t | _ \<Rightarrow> None),
                               f_context = d\<rparr>
                    | _ \<Rightarrow> Inl (ValueError ''FailureRecord context must be a mapping''))
              | _ \<Rightarrow> Inl (ValueError ''FailureRecord message must be a string''))
         | _ \<Rightarrow> Inl (ValueError ''FailureRecord retryable must be a boolean'')))
     | _ \<Rightarrow> Inl (ValueError ''FailureRecord category must be a non-empty string''))"

definition failure_to_dict :: "failure_record \<Rightarrow> pydict" where
  "failure_to_dict f =
    [(''category'', PStr (f_category f)),
     (''context'', to_canonical_data (PDict (f_context f))),
     (''disposition'', PStr (disposition_value (f_disposition f))),
     (''exception_type'', opt_str (f_exception_type f)),
     (''message'', PStr (f_message f)),
     (''recovery'', PStr (recovery_value (f_recovery f))),
     (''retryable'', PBool (f_retryable f))]"

definition failure_fields :: "string list" where
  "failure_fields = [''category'', ''context'', ''disposition'', ''exception_type'', ''message'',
     ''recovery'', ''retryable'']"

definition failure_from_dict :: "pyval \<Rightarrow> py_error + failure_record" where
  "failure_from_dict data =
    (case data of
       PDict d \<Rightarrow>
         if set (map fst d) \<noteq> set failure_fields
         then Inl (ValueError (''FailureRecord fields must be exactly '' @ repr_strs failure_fields))
         else
         sbind (disposition_of (PStr (py_str (dict_get d ''disposition'')))) (\<lambda>disp.
         sbind (recovery_of (PStr (py_str (dict_get d ''recovery'')))) (\<lambda>rec.
         make_failure (dict_get d ''category'') (PStr (disposition_value disp)) (PStr (recovery_value rec))
           (dict_get d ''retryable'') (dict_get d ''message'') (dict_get d ''exception_type'')
           (dict_get d ''context'')))
     | _ \<Rightarrow> Inl (ValueError ''FailureRecord must be a mapping''))"

section \<open>Requests without candidates\<close>

text \<open>A record built by the code itself, whose arguments have the annotated types.\<close>

definition build_failure :: "failure_record \<Rightarrow> py_error + failure_record" where
  "build_failure f =
    make_failure (PStr (f_category f)) (PStr (disposition_value (f_disposition f)))
      (PStr (recovery_value (f_recovery f))) (PBool (f_retryable f)) (PStr (f_message f))
      (opt_str (f_exception_type f)) (PDict (f_context f))"

definition legal_dead_end :: "string \<Rightarrow> pydict \<Rightarrow> py_error + failure_record" where
  "legal_dead_end reason ctx =
    build_failure \<lparr>f_category = ''legal_dead_end'', f_disposition = LEGAL_DEAD_END,
      f_recovery = RECOVER_NONE, f_retryable = False, f_message = reason, f_exception_type = None,
      f_context = ctx\<rparr>"

definition classify_request_outcome :: "decision_request \<Rightarrow> py_error + failure_record option" where
  "classify_request_outcome r =
    (if candidates r \<noteq> [] then Inr None
     else sbind (request_signature r) (\<lambda>sig.
       let ctx = [(''request_signature'', PStr sig), (''request_type'', PStr (request_type r))]
       in if min_selections (req_constraints r) = 0 \<and> \<not> required (req_constraints r)
          then sbind (legal_dead_end ''core request has no selectable candidates'' ctx) (\<lambda>f. Inr (Some f))
          else sbind (build_failure \<lparr>f_category = ''invalid_message'', f_disposition = PATH_FAILURE,
                 f_recovery = STOP_PATH, f_retryable = False,
                 f_message = ''required core request has no selectable candidates'',
                 f_exception_type = None, f_context = ctx\<rparr>) (\<lambda>f. Inr (Some f))))"

section \<open>Exceptions\<close>

datatype exc_class =
    BridgeError
  | InvalidBridgeMessageError
  | UnsupportedBridgeMessageError
  | InvalidBridgeResponseError
  | OcgcoreBridgeError
  | OcgcoreArchitectureError
  | OcgcoreVersionMismatchError
  | OcgcoreStateError
  | OcgcoreCreateError
  | OcgcoreCallbackError
  | OcgcoreTimeoutError
  | OcgcoreBufferError
  | OcgcoreSnapshotError
  | OcgcoreAssetError
  | OcgcoreLuaError
  | OcgcoreWorkerError
  | OcgcoreWorkerTimeoutError
  | OcgcoreWorkerCrashError
  | OcgcoreWorkerProtocolError
  | MissingCardDataError
  | MissingScriptError
  | ReplayFormatError
  | ReplaySignatureMismatchError
  | ReplayManifestIncompleteError
  | ReplayEnvironmentMismatchError
  | InterruptionCandidatePolicyError
  | MultiInterruptionRuntimeError
  | OtherError

text \<open>The class and its bases, as far as they are among these classes.\<close>

fun mro :: "exc_class \<Rightarrow> exc_class list" where
  "mro InvalidBridgeMessageError = [InvalidBridgeMessageError, BridgeError]"
| "mro UnsupportedBridgeMessageError = [UnsupportedBridgeMessageError, BridgeError]"
| "mro InvalidBridgeResponseError = [InvalidBridgeResponseError, BridgeError]"
| "mro OcgcoreBridgeError = [OcgcoreBridgeError, BridgeError]"
| "mro OcgcoreArchitectureError = [OcgcoreArchitectureError, OcgcoreBridgeError, BridgeError]"
| "mro OcgcoreVersionMismatchError = [OcgcoreVersionMismatchError, OcgcoreBridgeError, BridgeError]"
| "mro OcgcoreStateError = [OcgcoreStateError, OcgcoreBridgeError, BridgeError]"
| "mro OcgcoreCreateError = [OcgcoreCreateError, OcgcoreBridgeError, BridgeError]"
| "mro OcgcoreCallbackError = [OcgcoreCallbackError, OcgcoreBridgeError, BridgeError]"
| "mro OcgcoreTimeoutError = [OcgcoreTimeoutError, OcgcoreBridgeError, BridgeError]"
| "mro OcgcoreBufferError = [OcgcoreBufferError, OcgcoreBridgeError, BridgeError]"
| "mro OcgcoreSnapshotError = [OcgcoreSnapshotError, OcgcoreBridgeError, BridgeError]"
| "mro OcgcoreAssetError = [OcgcoreAssetError, OcgcoreBridgeError, BridgeError]"
| "mro OcgcoreLuaError = [OcgcoreLuaError, OcgcoreBridgeError, BridgeError]"
| "mro OcgcoreWorkerError = [OcgcoreWorkerError, OcgcoreBridgeError, BridgeError]"
| "mro OcgcoreWorkerTimeoutError =
     [OcgcoreWorkerTimeoutError, OcgcoreWorkerError, OcgcoreBridgeError, BridgeError]"
| "mro OcgcoreWorkerCrashError =
     [OcgcoreWorkerCrashError, OcgcoreWorkerError, OcgcoreBridgeError, BridgeError]"
| "mro OcgcoreWorkerProtocolError =
     [OcgcoreWorkerProtocolError, OcgcoreWorkerError, OcgcoreBridgeError, BridgeError]"
| "mro MissingCardDataError =
     [MissingCardDataError, OcgcoreAssetError, OcgcoreBridgeError, BridgeError]"
| "mro MissingScriptError =
     [MissingScriptError, OcgcoreAssetError, OcgcoreBridgeError, BridgeError]"
| "mro ReplayManifestIncompleteError = [ReplayManifestIncompleteError, ReplayFormatError]"
| "mro c = [c]"

text \<open>The \<open>category\<close> attribute of the class, inherited or its own.\<close>

fun class_category :: "exc_class \<Rightarrow> string option" where
  "class_category BridgeError = Some ''bridge_error''"
| "class_category InvalidBridgeMessageError = Some ''invalid_message''"
| "class_category UnsupportedBridgeMessageError = Some ''unsupported_message''"
| "class_category InvalidBridgeResponseError = Some ''invalid_response''"
| "class_category OcgcoreBridgeError = Some ''core_error''"
| "class_category OcgcoreArchitectureError = Some ''version_mismatch''"
| "class_category OcgcoreVersionMismatchError = Some ''version_mismatch''"
| "class_category OcgcoreStateError = Some ''invalid_state''"
| "class_category OcgcoreCreateError = Some ''core_error''"
| "class_category OcgcoreCallbackError = Some ''core_error''"
| "class_category OcgcoreTimeoutError = Some ''timeout''"
| "class_category OcgcoreBufferError = Some ''invalid_message''"
| "class_category OcgcoreSnapshotError = Some ''core_error''"
| "class_category OcgcoreAssetError = Some ''asset_error''"
| "class_category OcgcoreLuaError = Some ''lua_error''"
| "class_category OcgcoreWorkerError = Some ''worker_error''"
| "class_category OcgcoreWorkerTimeoutError = Some ''worker_timeout''"
| "class_category OcgcoreWorkerCrashError = Some ''worker_crash''"
| "class_category OcgcoreWorkerProtocolError = Some ''worker_protocol''"
| "class_category MissingCardDataError = Some ''asset_error''"
| "class_category MissingScriptError = Some ''asset_error''"
| "class_category InterruptionCandidatePolicyError = Some ''interruption_candidate_policy''"
| "class_category MultiInterruptionRuntimeError = Some ''multi_interruption_runtime''"
| "class_category c = None"

text \<open>
  An exception as the classifier sees it: its class, the name of its type, its text, and the
  attributes \<open>category\<close> (when set on the instance, as the callback error does, or on a class that
  is not listed), \<open>context\<close> and \<open>path_failure\<close>.
\<close>

record raised =
  r_class :: exc_class
  r_type_name :: string
  r_text :: string
  r_category :: "string option"
  r_context :: "pydict option"
  r_path_failure :: bool

text \<open>A \<open>FailureRecordError\<close> carries a record made elsewhere.\<close>

datatype exception_object = FailureRecordError failure_record | Raised raised

definition isinstance :: "raised \<Rightarrow> exc_class list \<Rightarrow> bool" where
  "isinstance e classes = list_ex (\<lambda>c. c \<in> set (mro (r_class e))) classes"

definition category_of :: "raised \<Rightarrow> string" where
  "category_of e =
    (case r_category e of
       Some c \<Rightarrow> c
     | None \<Rightarrow> (case class_category (r_class e) of Some c \<Rightarrow> c | None \<Rightarrow> ''internal_error''))"

text \<open>\<open>_is_runtime_candidate_mismatch\<close>.\<close>

definition runtime_candidate_mismatch :: "pydict \<Rightarrow> bool" where
  "runtime_candidate_mismatch ctx \<longleftrightarrow> map_of ctx ''request'' \<noteq> None \<and> map_of ctx ''step'' \<noteq> None"

definition classify_failure :: "exception_object \<Rightarrow> pydict \<Rightarrow> py_error + failure_record" where
  "classify_failure err ctx =
    (case err of
       FailureRecordError f \<Rightarrow>
         if ctx = [] then Inr f
         else build_failure (f\<lparr>f_context := dict_update (f_context f) ctx\<rparr>)
     | Raised e \<Rightarrow>
         let category = category_of e;
             error_context = (case r_context e of None \<Rightarrow> [] | Some d \<Rightarrow> d);
             combined = dict_update error_context ctx;
             result = (\<lambda>disp rec again. build_failure
               \<lparr>f_category = category, f_disposition = disp, f_recovery = rec, f_retryable = again,
                f_message = r_text e, f_exception_type = Some (r_type_name e), f_context = combined\<rparr>);
             stop_path = result PATH_FAILURE STOP_PATH False;
             abort = result EXPERIMENT_FAILURE ABORT_EXPERIMENT False
         in if isinstance e [InterruptionCandidatePolicyError]
            then if runtime_candidate_mismatch error_context then stop_path else abort
            else if isinstance e [MultiInterruptionRuntimeError]
            then if r_path_failure e then stop_path else abort
            else if category = ''multi_turn_lifecycle''
            then if r_path_failure e then stop_path else abort
            else if isinstance e [OcgcoreWorkerTimeoutError, OcgcoreWorkerCrashError, OcgcoreTimeoutError]
            then result PATH_FAILURE REPLACE_WORKER True
            else if isinstance e [OcgcoreWorkerProtocolError]
            then result PATH_FAILURE REPLACE_WORKER False
            else if isinstance e [OcgcoreArchitectureError, OcgcoreVersionMismatchError, OcgcoreAssetError,
                 OcgcoreLuaError, ReplayEnvironmentMismatchError, ReplayManifestIncompleteError]
            then abort
            else if isinstance e [ReplaySignatureMismatchError, ReplayFormatError]
            then abort
            else if isinstance e [InvalidBridgeMessageError, InvalidBridgeResponseError,
                 UnsupportedBridgeMessageError]
            then stop_path
            else if isinstance e [OcgcoreBridgeError]
            then result PATH_FAILURE REPLACE_WORKER False
            else abort)"

section \<open>What a record promises\<close>

definition failure_valid :: "failure_record \<Rightarrow> bool" where
  "failure_valid f \<longleftrightarrow> f_category f \<noteq> [] \<and> f_exception_type f \<noteq> Some [] \<and>
    f_recovery f \<in> set (allowed_recoveries (f_disposition f)) \<and>
    (if f_retryable f then f_recovery f = REPLACE_WORKER else True)"

lemma disposition_of_value [simp]: "disposition_of (PStr (disposition_value d)) = Inr d"
  by (cases d) (simp_all add: disposition_of_def all_dispositions_def)

lemma recovery_of_value [simp]: "recovery_of (PStr (recovery_value d)) = Inr d"
  by (cases d) (simp_all add: recovery_of_def all_recoveries_def)

lemma enum_literals [simp]:
  "disposition_of (PStr ''legal_dead_end'') = Inr LEGAL_DEAD_END"
  "disposition_of (PStr ''path_failure'') = Inr PATH_FAILURE"
  "disposition_of (PStr ''experiment_failure'') = Inr EXPERIMENT_FAILURE"
  "recovery_of (PStr ''none'') = Inr RECOVER_NONE"
  "recovery_of (PStr ''stop_path'') = Inr STOP_PATH"
  "recovery_of (PStr ''replace_worker'') = Inr REPLACE_WORKER"
  "recovery_of (PStr ''abort_experiment'') = Inr ABORT_EXPERIMENT"
  by (simp_all add: disposition_of_def all_dispositions_def recovery_of_def all_recoveries_def)

lemma allowed_replace: "REPLACE_WORKER \<in> set (allowed_recoveries d) \<longleftrightarrow> d = PATH_FAILURE"
  by (cases d) simp_all

lemma build_failure_Inr: "build_failure f = Inr g \<longleftrightarrow> failure_valid f \<and> g = f"
proof (cases f)
  case (fields c d r a m t x)
  show ?thesis unfolding fields
    by (cases t; cases a; cases "r = REPLACE_WORKER")
      (auto simp: build_failure_def make_failure_def failure_valid_def opt_str_def allowed_replace
        split: if_splits)
qed

lemma build_failure_eq: "(\<exists>g. build_failure f = Inr g) \<longleftrightarrow> failure_valid f"
  by (simp add: build_failure_Inr)

lemma make_failure_shape:
  assumes "make_failure c d r a m t x = Inr f"
  obtains cat again msg ctx where "c = PStr cat" "a = PBool again" "m = PStr msg" "x = PDict ctx"
proof -
  from assms obtain cat where c: "c = PStr cat" by (cases c) (simp_all add: make_failure_def)
  with assms obtain again where a: "a = PBool again"
    by (cases a) (simp_all add: make_failure_def monad_simps)
  with assms c obtain msg where m: "m = PStr msg"
    by (cases m) (simp_all add: make_failure_def monad_simps)
  with assms c a obtain ctx where "x = PDict ctx"
    by (cases x) (simp_all add: make_failure_def monad_simps)
  with c a m that show thesis by blast
qed

lemma make_failure_valid:
  assumes "make_failure c d r a m t x = Inr f"
  shows "failure_valid f"
proof -
  from make_failure_shape [OF assms] obtain cat again msg ctx where
    "c = PStr cat" "a = PBool again" "m = PStr msg" "x = PDict ctx" .
  with assms show ?thesis
    by (cases t) (auto simp: make_failure_def failure_valid_def monad_simps)
qed

definition canonical_context :: "failure_record \<Rightarrow> failure_record" where
  "canonical_context f =
    f\<lparr>f_context := sort_key fst (map (map_prod id to_canonical_data) (f_context f))\<rparr>"

lemma failure_roundtrip_iff:
  "failure_from_dict (PDict (failure_to_dict f)) = Inr g \<longleftrightarrow> failure_valid f \<and> g = canonical_context f"
proof -
  have "failure_from_dict (PDict (failure_to_dict f)) = build_failure (canonical_context f)"
    by (simp add: failure_from_dict_def failure_to_dict_def failure_fields_def build_failure_def
        canonical_context_def)
  then show ?thesis by (simp add: build_failure_Inr failure_valid_def canonical_context_def)
qed

lemma from_dict_valid: "failure_from_dict v = Inr f \<Longrightarrow> failure_valid f"
  by (cases v) (auto simp: failure_from_dict_def monad_simps intro: make_failure_valid split: if_splits)

text \<open>
  What is done about an exception of each class, as a table: the path stops, the worker is replaced (and
  the attempt repeated or not), or the experiment is aborted. Two classes and the category of a turn
  lifecycle error are decided by what the exception says.
\<close>

fun class_treatment :: "exc_class \<Rightarrow> failure_disposition \<times> recovery_action \<times> bool" where
  "class_treatment InvalidBridgeMessageError = (PATH_FAILURE, STOP_PATH, False)"
| "class_treatment UnsupportedBridgeMessageError = (PATH_FAILURE, STOP_PATH, False)"
| "class_treatment InvalidBridgeResponseError = (PATH_FAILURE, STOP_PATH, False)"
| "class_treatment OcgcoreWorkerTimeoutError = (PATH_FAILURE, REPLACE_WORKER, True)"
| "class_treatment OcgcoreWorkerCrashError = (PATH_FAILURE, REPLACE_WORKER, True)"
| "class_treatment OcgcoreTimeoutError = (PATH_FAILURE, REPLACE_WORKER, True)"
| "class_treatment OcgcoreWorkerProtocolError = (PATH_FAILURE, REPLACE_WORKER, False)"
| "class_treatment OcgcoreWorkerError = (PATH_FAILURE, REPLACE_WORKER, False)"
| "class_treatment OcgcoreBridgeError = (PATH_FAILURE, REPLACE_WORKER, False)"
| "class_treatment OcgcoreStateError = (PATH_FAILURE, REPLACE_WORKER, False)"
| "class_treatment OcgcoreCreateError = (PATH_FAILURE, REPLACE_WORKER, False)"
| "class_treatment OcgcoreCallbackError = (PATH_FAILURE, REPLACE_WORKER, False)"
| "class_treatment OcgcoreBufferError = (PATH_FAILURE, REPLACE_WORKER, False)"
| "class_treatment OcgcoreSnapshotError = (PATH_FAILURE, REPLACE_WORKER, False)"
| "class_treatment c = (EXPERIMENT_FAILURE, ABORT_EXPERIMENT, False)"

definition treatment :: "raised \<Rightarrow> failure_disposition \<times> recovery_action \<times> bool" where
  "treatment e =
    (let stops = (if r_class e = InterruptionCandidatePolicyError
           then Some (case r_context e of None \<Rightarrow> False | Some d \<Rightarrow> runtime_candidate_mismatch d)
           else if r_class e = MultiInterruptionRuntimeError \<or> category_of e = ''multi_turn_lifecycle''
           then Some (r_path_failure e) else None)
     in case stops of
          None \<Rightarrow> class_treatment (r_class e)
        | Some on_path \<Rightarrow> if on_path then (PATH_FAILURE, STOP_PATH, False) else (EXPERIMENT_FAILURE, ABORT_EXPERIMENT, False))"

definition record_of_exception :: "raised \<Rightarrow> pydict \<Rightarrow> failure_record" where
  "record_of_exception e ctx =
    (let (disp, rec, again) = treatment e in
     \<lparr>f_category = category_of e, f_disposition = disp, f_recovery = rec, f_retryable = again, f_message = r_text e,
      f_exception_type = Some (r_type_name e), f_context = dict_update (case r_context e of None \<Rightarrow> [] | Some d \<Rightarrow> d) ctx\<rparr>)"

lemma class_treatment_allowed:
  "class_treatment c = (d, r, again) \<Longrightarrow> r \<in> set (allowed_recoveries d) \<and> (if again then r = REPLACE_WORKER else True)"
  by (cases c) auto

lemma treatment_allowed:
  "treatment e = (d, r, again) \<Longrightarrow> r \<in> set (allowed_recoveries d) \<and> (if again then r = REPLACE_WORKER else True)"
  using class_treatment_allowed [of "r_class e"] by (auto simp: treatment_def Let_def split: if_splits option.splits)

lemma record_of_exception_valid:
  "failure_valid (record_of_exception e ctx) \<longleftrightarrow> category_of e \<noteq> [] \<and> r_type_name e \<noteq> []"
  using treatment_allowed [of e] by (cases "treatment e") (auto simp: failure_valid_def record_of_exception_def)

lemma classify_raised: "classify_failure (Raised e) ctx = build_failure (record_of_exception e ctx)"
  by (cases "r_class e"; cases "r_context e"; cases "r_path_failure e"; cases "category_of e = ''multi_turn_lifecycle''")
    (simp_all add: classify_failure_def Let_def isinstance_def record_of_exception_def treatment_def
      runtime_candidate_mismatch_def)

lemma classify_carried:
  "classify_failure (FailureRecordError g) ctx = Inr f \<longleftrightarrow>
    (if ctx = [] then True else failure_valid g) \<and> f = g\<lparr>f_context := dict_update (f_context g) ctx\<rparr>"
  by (auto simp: classify_failure_def build_failure_Inr failure_valid_def dict_update_def)

lemma classify_total:
  "(\<exists>f. classify_failure (Raised e) ctx = Inr f) \<longleftrightarrow> category_of e \<noteq> [] \<and> r_type_name e \<noteq> []"
  by (auto simp: classify_failure_def Let_def build_failure_eq failure_valid_def)

end
