(* ===== verification/Turn_Lifecycle.thy ===== *)
theory Turn_Lifecycle
  imports Action_Model
begin

text \<open>
  \<open>engine/search/lifecycle.py\<close>: what the search may do at a decision of a multi-turn duel. The
  lifecycle decision is evidence that is checked when it is constructed; \<open>apply_turn_lifecycle\<close>
  computes it and suppresses the action that would end the last turn.
\<close>

section \<open>The lifecycle decision\<close>

definition MULTI_TURN_LIFECYCLE_SCHEMA_VERSION :: string where
  "MULTI_TURN_LIFECYCLE_SCHEMA_VERSION = ''multi-turn-lifecycle-v1''"

record lifecycle_decision =
  l_turn :: int
  l_phase :: string
  l_turn_limit :: int
  l_request_type :: string
  l_process_state :: string
  l_chain_count :: int
  l_legal_stop :: bool
  l_forced_response :: bool
  l_duel_ended :: bool
  l_core_end_turn_offered :: bool
  l_end_turn_allowed :: bool
  l_turn_limit_reached :: bool
  l_mandatory_response_pending :: bool
  l_boundary_reason :: string
  l_schema_version :: string

definition boundary_reason :: "bool \<Rightarrow> bool \<Rightarrow> bool \<Rightarrow> int \<Rightarrow> bool \<Rightarrow> string" where
  "boundary_reason legal_stop duel_ended turn_limit_reached chain_count forced_response =
    (if duel_ended then ''duel_end''
     else if legal_stop \<and> turn_limit_reached then ''turn_limit''
     else if legal_stop then ''legal_stop''
     else if chain_count > 0 then ''pending_chain''
     else if forced_response then ''mandatory_response''
     else ''pending_process'')"

text \<open>
  The constructor with \<open>__post_init__\<close>, on arguments of any type: \<open>v name\<close> is the argument
  \<open>name\<close>. The first failing test raises; what is left is the typed record.
\<close>

fun str_val :: "pyval \<Rightarrow> string" where
  "str_val (PStr s) = s"
| "str_val v = []"

fun is_bool :: "pyval \<Rightarrow> bool" where
  "is_bool (PBool b) = True"
| "is_bool v = False"

definition lifecycle_flags :: "string list" where
  "lifecycle_flags =
    [''legal_stop'', ''forced_response'', ''duel_ended'', ''core_end_turn_offered'',
     ''end_turn_allowed'', ''turn_limit_reached'', ''mandatory_response_pending'']"

definition typed_lifecycle :: "(string \<Rightarrow> pyval) \<Rightarrow> lifecycle_decision" where
  "typed_lifecycle v =
    \<lparr>l_turn = int_val (v ''turn''), l_phase = str_val (v ''phase''),
     l_turn_limit = int_val (v ''turn_limit''), l_request_type = str_val (v ''request_type''),
     l_process_state = str_val (v ''process_state''), l_chain_count = int_val (v ''chain_count''),
     l_legal_stop = (v ''legal_stop'' = PBool True),
     l_forced_response = (v ''forced_response'' = PBool True),
     l_duel_ended = (v ''duel_ended'' = PBool True),
     l_core_end_turn_offered = (v ''core_end_turn_offered'' = PBool True),
     l_end_turn_allowed = (v ''end_turn_allowed'' = PBool True),
     l_turn_limit_reached = (v ''turn_limit_reached'' = PBool True),
     l_mandatory_response_pending = (v ''mandatory_response_pending'' = PBool True),
     l_boundary_reason = str_val (v ''boundary_reason''),
     l_schema_version = str_val (v ''schema_version'')\<rparr>"

definition value_error :: "string \<Rightarrow> py_error + 'a" where
  "value_error m = Inl (ValueError m)"

lemma if_value_error_eq_Inr [monad_simps]:
  "(if c then value_error m else k) = Inr y \<longleftrightarrow> \<not> c \<and> k = Inr y"
  by (simp add: value_error_def)

definition make_lifecycle :: "(string \<Rightarrow> pyval) \<Rightarrow> py_error + lifecycle_decision" where
  "make_lifecycle v =
    (let d = typed_lifecycle v in
     if v ''schema_version'' \<noteq> PStr MULTI_TURN_LIFECYCLE_SCHEMA_VERSION
     then value_error ''unsupported multi-turn lifecycle schema''
     else if \<not> is_strict_int (v ''turn'') \<or> l_turn d < 1
     then value_error ''turn must be an integer >= 1''
     else if \<not> is_strict_int (v ''turn_limit'') \<or> l_turn_limit d < 1
     then value_error ''turn_limit must be an integer >= 1''
     else if l_turn d > l_turn_limit d
     then value_error ''turn cannot exceed turn_limit in lifecycle evidence''
     else if l_phase d = [] then value_error ''phase must be a non-empty string''
     else if l_request_type d = [] then value_error ''request_type must be a non-empty string''
     else if l_process_state d = [] then value_error ''process_state must be a non-empty string''
     else if \<not> is_strict_int (v ''chain_count'') \<or> l_chain_count d < 0
     then value_error ''chain_count must be an integer >= 0''
     else case find (\<lambda>k. \<not> is_bool (v k)) lifecycle_flags of
       Some k \<Rightarrow> value_error (k @ '' must be a boolean'')
     | None \<Rightarrow>
     if l_boundary_reason d = [] then value_error ''boundary_reason must be a non-empty string''
     else if l_duel_ended d \<noteq> (l_process_state d = ''ended'')
     then value_error ''duel_ended does not match process_state''
     else if l_duel_ended d \<and> \<not> l_legal_stop d then value_error ''duel end must be a legal stop''
     else if l_turn_limit_reached d \<noteq> (l_turn d = l_turn_limit d)
     then value_error ''turn_limit_reached does not match turn and turn_limit''
     else if l_end_turn_allowed d \<noteq>
         (l_core_end_turn_offered d \<and> \<not> l_turn_limit_reached d \<and> \<not> l_duel_ended d)
     then value_error ''end_turn_allowed is inconsistent with lifecycle state''
     else if l_mandatory_response_pending d \<noteq>
         (\<not> l_legal_stop d \<and> (l_forced_response d \<or> l_chain_count d > 0))
     then value_error ''mandatory_response_pending is inconsistent with lifecycle state''
     else if l_boundary_reason d \<noteq> boundary_reason (l_legal_stop d) (l_duel_ended d)
         (l_turn_limit_reached d) (l_chain_count d) (l_forced_response d)
     then value_error ''boundary_reason is inconsistent with lifecycle state''
     else Inr d)"

definition semantic_dict :: "lifecycle_decision \<Rightarrow> pydict" where
  "semantic_dict d =
    [(''boundary_reason'', PStr (l_boundary_reason d)),
     (''chain_count'', PInt (l_chain_count d)),
     (''core_end_turn_offered'', PBool (l_core_end_turn_offered d)),
     (''duel_ended'', PBool (l_duel_ended d)),
     (''end_turn_allowed'', PBool (l_end_turn_allowed d)),
     (''forced_response'', PBool (l_forced_response d)),
     (''legal_stop'', PBool (l_legal_stop d)),
     (''mandatory_response_pending'', PBool (l_mandatory_response_pending d)),
     (''phase'', PStr (l_phase d)),
     (''process_state'', PStr (l_process_state d)),
     (''request_type'', PStr (l_request_type d)),
     (''schema_version'', PStr (l_schema_version d)),
     (''turn'', PInt (l_turn d)),
     (''turn_limit'', PInt (l_turn_limit d)),
     (''turn_limit_reached'', PBool (l_turn_limit_reached d))]"

definition lifecycle_id :: "lifecycle_decision \<Rightarrow> py_error + string" where
  "lifecycle_id d = stable_digest (PDict (semantic_dict d)) ''turnlifecycle_''"

definition lifecycle_to_dict :: "lifecycle_decision \<Rightarrow> py_error + pydict" where
  "lifecycle_to_dict d =
    sbind (lifecycle_id d) (\<lambda>i. Inr (semantic_dict d @ [(''lifecycle_id'', PStr i)]))"

text \<open>\<open>from_dict\<close>: every field is looked up in the order of the call, a missing one raises.\<close>

definition lifecycle_fields :: "string list" where
  "lifecycle_fields =
    [''turn'', ''phase'', ''turn_limit'', ''request_type'', ''process_state'', ''chain_count'',
     ''legal_stop'', ''forced_response'', ''duel_ended'', ''core_end_turn_offered'',
     ''end_turn_allowed'', ''turn_limit_reached'', ''mandatory_response_pending'',
     ''boundary_reason'', ''schema_version'']"

definition lifecycle_from_dict :: "pyval \<Rightarrow> py_error + lifecycle_decision" where
  "lifecycle_from_dict value =
    (case value of
       PDict d \<Rightarrow>
         (case find (\<lambda>k. map_of d k = None) lifecycle_fields of
            Some k \<Rightarrow> value_error (''multi-turn lifecycle evidence is missing '' @ k)
          | None \<Rightarrow>
              sbind (make_lifecycle (dict_get d)) (\<lambda>decision.
              sbind (lifecycle_id decision) (\<lambda>i.
                if dict_get d ''lifecycle_id'' \<noteq> PStr i
                then value_error ''multi-turn lifecycle evidence ID mismatch''
                else Inr decision)))
     | _ \<Rightarrow> value_error ''multi-turn lifecycle evidence must be a mapping'')"

section \<open>Applying the turn limit\<close>

text \<open>\<open>MultiTurnLifecycleError\<close>: code, message, whether only the path failed, and context.\<close>

datatype lifecycle_error =
    LifecycleError string string bool pydict
  | ConstructorError py_error

text \<open>
  \<open>apply_turn_lifecycle\<close> on a state of the core; the numbers are integers, as the core's session
  reports them, so that their type tests hold.
\<close>

record turn_state =
  t_turn :: int
  t_phase :: string
  t_turn_limit :: int
  t_request_type :: string
  t_process_state :: string
  t_chain_count :: int
  t_legal_stop :: bool
  t_forced_response :: bool

definition lifecycle_of :: "turn_state \<Rightarrow> bool \<Rightarrow> lifecycle_decision" where
  "lifecycle_of t core_end_turn_offered =
    (let duel_ended = (t_process_state t = ''ended'');
         turn_limit_reached = (t_turn t = t_turn_limit t)
     in \<lparr>l_turn = t_turn t, l_phase = t_phase t, l_turn_limit = t_turn_limit t,
       l_request_type = t_request_type t, l_process_state = t_process_state t,
       l_chain_count = t_chain_count t, l_legal_stop = t_legal_stop t,
       l_forced_response = t_forced_response t, l_duel_ended = duel_ended,
       l_core_end_turn_offered = core_end_turn_offered,
       l_end_turn_allowed = (core_end_turn_offered \<and> \<not> turn_limit_reached \<and> \<not> duel_ended),
       l_turn_limit_reached = turn_limit_reached,
       l_mandatory_response_pending =
         (\<not> t_legal_stop t \<and> (t_forced_response t \<or> t_chain_count t > 0)),
       l_boundary_reason = boundary_reason (t_legal_stop t) duel_ended turn_limit_reached
         (t_chain_count t) (t_forced_response t),
       l_schema_version = MULTI_TURN_LIFECYCLE_SCHEMA_VERSION\<rparr>)"

definition apply_turn_lifecycle ::
  "action list \<Rightarrow> turn_state \<Rightarrow> lifecycle_error + action list \<times> lifecycle_decision"
where
  "apply_turn_lifecycle actions t =
    (if t_turn_limit t < 1
     then Inl (LifecycleError ''invalid_turn_limit'' ''turn_limit must be an integer >= 1'' False
            [(''turn_limit'', PInt (t_turn_limit t))])
     else if t_turn t < 1
     then Inl (LifecycleError ''invalid_turn_counter'' ''core turn counter must be an integer >= 1'' True
            [(''turn'', PInt (t_turn t))])
     else if t_turn t > t_turn_limit t
     then Inl (LifecycleError ''turn_limit_exceeded''
            ''Action prefix advanced beyond the Experiment turn_limit'' True
            [(''turn'', PInt (t_turn t)), (''turn_limit'', PInt (t_turn_limit t))])
     else if t_process_state t = ''ended'' \<and> actions \<noteq> []
     then Inl (LifecycleError ''terminal_actions_present''
            ''core duel end cannot expose further Actions'' True
            [(''action_count'', PInt (int (length actions))), (''turn'', PInt (t_turn t))])
     else let offered = list_ex (\<lambda>a. a_kind a = END_TURN) actions;
              normalized = (if t_turn t = t_turn_limit t
                 then filter (\<lambda>a. a_kind a \<noteq> END_TURN) actions else actions)
       in case make_lifecycle (dict_get (semantic_dict (lifecycle_of t offered))) of
            Inl e \<Rightarrow> Inl (ConstructorError e)
          | Inr d \<Rightarrow> Inr (normalized, d))"

definition search_budget_ownership_contract :: "py_error + pydict" where
  "search_budget_ownership_contract =
    (let entries =
       [(''core_owned'', PList (map PStr [''phase'', ''draw'', ''turn_counter'', ''duel_end''])),
        (''executor_owned'', PList (map PStr [''max_seconds'', ''max_nodes'', ''max_replays'', ''max_depth''])),
        (''priority'', PList (map PStr
           [''max_seconds'', ''max_nodes'', ''max_replays'', ''max_depth'', ''turn_limit''])),
        (''scenario_adapter_owned'', PList (map PStr [''turn_limit''])),
        (''schema_version'', PStr ''search-budget-ownership-v1''),
        (''stop_policy'', PDict
           [(''duel_end'', PStr ''terminal_when_core_reports_supported_terminal''),
            (''legal_stop'', PStr ''STOP_LINE_may_be_recorded''),
            (''pending_chain_or_mandatory_response'', PStr ''must_continue''),
            (''turn_limit'', PStr ''suppress_END_TURN_at_last_turn'')])]
     in sbind (stable_digest (PDict entries) ''budgetownership_'')
          (\<lambda>i. Inr (entries @ [(''contract_id'', PStr i)])))"

section \<open>What the constructor accepts\<close>

definition lifecycle_valid :: "lifecycle_decision \<Rightarrow> bool" where
  "lifecycle_valid d \<longleftrightarrow>
    l_schema_version d = MULTI_TURN_LIFECYCLE_SCHEMA_VERSION \<and>
    1 \<le> l_turn d \<and> l_turn d \<le> l_turn_limit d \<and>
    l_phase d \<noteq> [] \<and> l_request_type d \<noteq> [] \<and> l_process_state d \<noteq> [] \<and> 0 \<le> l_chain_count d \<and>
    (l_duel_ended d = (l_process_state d = ''ended'')) \<and>
    (if l_duel_ended d then l_legal_stop d else True) \<and>
    (l_turn_limit_reached d = (l_turn d = l_turn_limit d)) \<and>
    (l_end_turn_allowed d = (l_core_end_turn_offered d \<and> l_turn d < l_turn_limit d \<and> l_process_state d \<noteq> ''ended'')) \<and>
    (l_mandatory_response_pending d = (\<not> l_legal_stop d \<and> (l_forced_response d \<or> 0 < l_chain_count d))) \<and>
    l_boundary_reason d = boundary_reason (l_legal_stop d) (l_duel_ended d) (l_turn_limit_reached d)
      (l_chain_count d) (l_forced_response d)"

lemma boundary_reason_nonempty [simp]: "boundary_reason a b c n e \<noteq> []"
  by (simp add: boundary_reason_def)

lemma typed_semantic: "typed_lifecycle (dict_get (semantic_dict d)) = d"
  by (cases d) (simp add: typed_lifecycle_def semantic_dict_def)

lemma make_lifecycle_valid:
  assumes "make_lifecycle v = Inr d"
  shows "lifecycle_valid d \<and> d = typed_lifecycle v"
proof -
  define t where "t = typed_lifecycle v"
  have schema: "v ''schema_version'' = PStr s \<Longrightarrow> l_schema_version t = s" for s
    by (simp add: t_def typed_lifecycle_def)
  have flags: "(case find P ks of Some k \<Rightarrow> value_error (m k) | None \<Rightarrow> x) = Inr y \<longleftrightarrow> find P ks = None \<and> x = Inr y"
    for P m x y and ks :: "string list"
    by (auto simp: value_error_def split: option.splits)
  from assms show ?thesis
    unfolding make_lifecycle_def Let_def t_def [symmetric] if_value_error_eq_Inr flags
    using schema by (auto simp: lifecycle_valid_def)
qed

lemma semantic_flags: "find (\<lambda>k. \<not> is_bool (dict_get (semantic_dict d) k)) lifecycle_flags = None"
  by (simp add: lifecycle_flags_def semantic_dict_def)

lemma make_lifecycle_semantic:
  "make_lifecycle (dict_get (semantic_dict d)) = Inr e \<longleftrightarrow> lifecycle_valid d \<and> e = d"
proof
  assume "make_lifecycle (dict_get (semantic_dict d)) = Inr e"
  then show "lifecycle_valid d \<and> e = d"
    using make_lifecycle_valid typed_semantic by metis
next
  assume "lifecycle_valid d \<and> e = d"
  moreover have "dict_get (semantic_dict d) ''schema_version'' = PStr (l_schema_version d)"
    "dict_get (semantic_dict d) ''turn'' = PInt (l_turn d)"
    "dict_get (semantic_dict d) ''turn_limit'' = PInt (l_turn_limit d)"
    "dict_get (semantic_dict d) ''chain_count'' = PInt (l_chain_count d)"
    by (simp_all add: semantic_dict_def)
  ultimately show "make_lifecycle (dict_get (semantic_dict d)) = Inr e"
    unfolding make_lifecycle_def Let_def typed_semantic semantic_flags
    by (auto simp: lifecycle_valid_def)
qed

lemma semantic_safe: "dict_safe (semantic_dict d)"
  by (simp add: semantic_dict_def)

lemma lifecycle_id_total: "\<exists>i. lifecycle_id d = Inr i"
  using stable_digest_total [of "PDict (semantic_dict d)" "''turnlifecycle_''"]
  by (simp add: lifecycle_id_def semantic_safe)

lemma lifecycle_fields_present:
  "find (\<lambda>k. map_of (semantic_dict d @ [(''lifecycle_id'', PStr i)]) k = None) lifecycle_fields = None"
  by (simp add: lifecycle_fields_def semantic_dict_def)

lemma dict_get_append:
  "k \<in> set (map fst d) \<Longrightarrow> dict_get (d @ e) k = dict_get d k"
proof (induction d)
  case (Cons kv d)
  then show ?case by (cases kv; cases "fst kv = k") simp_all
qed simp

text \<open>The constructor reads only the arguments it has.\<close>

lemma make_lifecycle_cong:
  assumes "\<And>k. k \<in> set lifecycle_fields \<Longrightarrow> v k = w k"
  shows "make_lifecycle v = make_lifecycle w"
proof -
  have "typed_lifecycle v = typed_lifecycle w"
    by (simp add: typed_lifecycle_def assms lifecycle_fields_def)
  moreover have "find (\<lambda>k. \<not> is_bool (v k)) lifecycle_flags = find (\<lambda>k. \<not> is_bool (w k)) lifecycle_flags"
    by (simp add: lifecycle_flags_def assms lifecycle_fields_def)
  ultimately show ?thesis
    by (simp add: make_lifecycle_def assms lifecycle_fields_def Let_def)
qed

lemma lifecycle_roundtrip:
  "sbind (lifecycle_to_dict d) (\<lambda>doc. lifecycle_from_dict (PDict doc)) = Inr e \<longleftrightarrow>
    lifecycle_valid d \<and> e = d"
proof -
  obtain i where i: "lifecycle_id d = Inr i" using lifecycle_id_total by blast
  have mem: "set lifecycle_fields \<subseteq> set (map fst (semantic_dict d))"
    by (simp add: lifecycle_fields_def semantic_dict_def)
  then have same: "make_lifecycle (dict_get (semantic_dict d @ [(''lifecycle_id'', PStr i)])) =
      make_lifecycle (dict_get (semantic_dict d))"
    by (intro make_lifecycle_cong dict_get_append) blast
  have "dict_get (semantic_dict d @ [(''lifecycle_id'', PStr i)]) ''lifecycle_id'' = PStr i"
    by (simp add: semantic_dict_def)
  then show ?thesis
    using i lifecycle_fields_present [of d i]
    by (auto simp: lifecycle_to_dict_def lifecycle_from_dict_def same make_lifecycle_semantic monad_simps)
qed

lemma lifecycle_of_valid:
  "lifecycle_valid (lifecycle_of t b) \<longleftrightarrow>
    1 \<le> t_turn t \<and> t_turn t \<le> t_turn_limit t \<and> t_phase t \<noteq> [] \<and> t_request_type t \<noteq> [] \<and>
    t_process_state t \<noteq> [] \<and> 0 \<le> t_chain_count t \<and>
    (if t_process_state t = ''ended'' then t_legal_stop t else True)"
  by (auto simp: lifecycle_valid_def lifecycle_of_def Let_def)

lemma apply_turn_lifecycle_iff:
  "apply_turn_lifecycle actions t = Inr (kept, d) \<longleftrightarrow>
    1 \<le> t_turn t \<and> t_turn t \<le> t_turn_limit t \<and>
    (if t_process_state t = ''ended'' then actions = [] \<and> t_legal_stop t else True) \<and>
    t_phase t \<noteq> [] \<and> t_request_type t \<noteq> [] \<and> t_process_state t \<noteq> [] \<and> 0 \<le> t_chain_count t \<and>
    kept = filter (\<lambda>a. t_turn t < t_turn_limit t \<or> a_kind a \<noteq> END_TURN) actions \<and>
    d = lifecycle_of t (list_ex (\<lambda>a. a_kind a = END_TURN) actions)" (is "?l \<longleftrightarrow> ?r")
proof -
  define b where "b = list_ex (\<lambda>a. a_kind a = END_TURN) actions"
  have kept: "(if t_turn t = t_turn_limit t then filter (\<lambda>a. a_kind a \<noteq> END_TURN) actions else actions) =
      filter (\<lambda>a. t_turn t < t_turn_limit t \<or> a_kind a \<noteq> END_TURN) actions" if "t_turn t \<le> t_turn_limit t"
    using that by (auto simp: filter_True)
  have result: "(case make_lifecycle (dict_get (semantic_dict (lifecycle_of t b))) of
      Inl e \<Rightarrow> Inl (ConstructorError e) | Inr d \<Rightarrow> Inr (ks, d)) = Inr (kept, d) \<longleftrightarrow>
      lifecycle_valid (lifecycle_of t b) \<and> kept = ks \<and> d = lifecycle_of t b" for ks
    using make_lifecycle_semantic [of "lifecycle_of t b"] by (auto split: sum.splits)
  show ?thesis
    unfolding apply_turn_lifecycle_def Let_def b_def [symmetric] result lifecycle_of_valid if_Inl_eq_Inr
    using kept by auto
qed

end
