(* ===== verification/Termination_Monitor.thy ===== *)
theory Termination_Monitor
  imports Complex_Main Decision
begin

text \<open>
  \<open>engine/search/termination.py\<close>: the search budget with its validation, and the monitor that
  counts nodes and replays, follows the best score and decides when the search stops. The clock
  is an argument: \<open>clock k\<close> is what its \<open>k\<close>-th call returns.
\<close>

section \<open>Values\<close>

text \<open>
  A Python value as the tests of this module see it. A finite float is its exact value, with which
  Python compares it; infinities and not-a-number are \<open>ANonFinite\<close>. The subtraction of two clock
  readings is exact here.
\<close>

datatype arg =
    ANone
  | ABool bool
  | AInt int
  | AFloat rat
  | ANonFinite
  | AStr string
  | ATuple "arg list"
  | AList "arg list"
  | AMap "(string \<times> arg) list"
  | AOther string

fun is_number :: "arg \<Rightarrow> bool" where
  "is_number (AInt i) = True"
| "is_number (AFloat x) = True"
| "is_number ANonFinite = True"
| "is_number v = False"

text \<open>\<open>math.isfinite\<close> converts to a double first, which overflows for an \<open>int\<close> beyond its range.\<close>

fun finite_number :: "arg \<Rightarrow> py_error + bool" where
  "finite_number (AInt i) =
     (if \<bar>i\<bar> \<ge> 2 ^ 1024 - 2 ^ 970 then Inl (OverflowError ''int too large to convert to float'') else Inr True)"
| "finite_number (AFloat x) = Inr True"
| "finite_number v = Inr False"

fun num_value :: "arg \<Rightarrow> rat" where
  "num_value (AInt i) = of_int i"
| "num_value (AFloat x) = x"
| "num_value v = 0"

definition bad_value :: "string \<Rightarrow> py_error + 'a" where
  "bad_value m = Inl (ValueError m)"

section \<open>The budget\<close>

record search_budget =
  max_depth :: "int option"
  max_nodes :: "int option"
  max_replays :: "int option"
  max_seconds :: arg
  stagnation_nodes :: "int option"
  max_transition_repetitions :: "int option"
  target_score :: arg
  stop_on_success :: bool

definition positive_integer :: "arg \<Rightarrow> string \<Rightarrow> py_error + int option" where
  "positive_integer v name =
    (case v of
       ANone \<Rightarrow> Inr None
     | AInt i \<Rightarrow> if i < 1 then bad_value (name @ '' must be an integer >= 1 or None'') else Inr (Some i)
     | _ \<Rightarrow> bad_value (name @ '' must be an integer >= 1 or None''))"

text \<open>The two number fields: \<open>None\<close>, or a finite number, which \<open>ok\<close> restricts further.\<close>

definition number_field :: "arg \<Rightarrow> (rat \<Rightarrow> bool) \<Rightarrow> string \<Rightarrow> py_error + arg" where
  "number_field v ok m =
    (if v = ANone then Inr v
     else if \<not> is_number v then bad_value m
     else sbind (finite_number v) (\<lambda>fin.
       if \<not> fin \<or> \<not> ok (num_value v) then bad_value m else Inr v))"

text \<open>The constructor, on the arguments by name.\<close>

definition make_budget :: "(string \<Rightarrow> arg) \<Rightarrow> py_error + search_budget" where
  "make_budget v =
    sbind (positive_integer (v ''max_depth'') ''max_depth'') (\<lambda>depth.
    sbind (positive_integer (v ''max_nodes'') ''max_nodes'') (\<lambda>nodes.
    sbind (positive_integer (v ''max_replays'') ''max_replays'') (\<lambda>replays.
    sbind (positive_integer (v ''stagnation_nodes'') ''stagnation_nodes'') (\<lambda>stagnation.
    sbind (positive_integer (v ''max_transition_repetitions'') ''max_transition_repetitions'') (\<lambda>repetitions.
    sbind (number_field (v ''max_seconds'') (\<lambda>x. 0 < x) ''max_seconds must be a finite number > 0 or None'') (\<lambda>seconds.
    sbind (number_field (v ''target_score'') (\<lambda>x. True) ''target_score must be a finite number or None'') (\<lambda>target.
    case v ''stop_on_success'' of
      ABool stop \<Rightarrow>
        if depth = None \<and> nodes = None \<and> replays = None \<and> seconds = ANone \<and> stagnation = None
           \<and> repetitions = None \<and> target = ANone \<and> \<not> stop
        then bad_value ''SearchBudget requires at least one termination condition''
        else Inr \<lparr>max_depth = depth, max_nodes = nodes, max_replays = replays, max_seconds = seconds,
               stagnation_nodes = stagnation, max_transition_repetitions = repetitions,
               target_score = target, stop_on_success = stop\<rparr>
    | _ \<Rightarrow> bad_value ''stop_on_success must be boolean'')))))))"

definition budget_fields :: "string list" where
  "budget_fields = [''max_depth'', ''max_nodes'', ''max_replays'', ''max_seconds'',
     ''stagnation_nodes'', ''max_transition_repetitions'', ''target_score'', ''stop_on_success'']"

definition arg_get :: "(string \<times> arg) list \<Rightarrow> string \<Rightarrow> arg \<Rightarrow> arg" where
  "arg_get d k other = (case map_of d k of None \<Rightarrow> other | Some v \<Rightarrow> v)"

definition budget_from_mapping :: "arg \<Rightarrow> py_error + search_budget" where
  "budget_from_mapping value =
    (case value of
       AMap d \<Rightarrow>
         let unknown = sort (remdups (filter (\<lambda>k. k \<notin> set budget_fields) (map fst d)))
         in if unknown \<noteq> []
            then bad_value (''unknown search termination fields: '' @ repr_strs unknown)
            else make_budget (\<lambda>k. arg_get d k (if k = ''stop_on_success'' then ABool False else ANone))
     | _ \<Rightarrow> bad_value ''search termination config must be a mapping'')"

definition core_budget_fields :: "string list" where
  "core_budget_fields = [''max_depth'', ''max_nodes'', ''max_replays'', ''max_seconds'']"

definition budget_from_experiment :: "(string \<times> arg) list \<Rightarrow> py_error + search_budget" where
  "budget_from_experiment experiment =
    (case arg_get experiment ''search'' ANone of
       AMap search \<Rightarrow>
         (case (arg_get search ''budget'' ANone, arg_get search ''parameters'' (AMap [])) of
            (AMap raw_budget, AMap parameters) \<Rightarrow>
              (case arg_get parameters ''termination'' (AMap []) of
                 AMap raw_termination \<Rightarrow>
                   let duplicates = sort (filter (\<lambda>k. k \<in> set (map fst raw_termination)
                         \<and> k \<in> set (map fst raw_budget)) core_budget_fields)
                   in if duplicates \<noteq> []
                      then bad_value (''core budget fields must not be duplicated across budget and termination: ''
                             @ repr_strs duplicates)
                      else budget_from_mapping (AMap (raw_termination @
                             map (\<lambda>k. (k, arg_get raw_budget k ANone))
                               (filter (\<lambda>k. k \<in> set (map fst raw_budget)) core_budget_fields)))
               | _ \<Rightarrow> bad_value ''search.parameters.termination must be a mapping'')
          | _ \<Rightarrow> bad_value ''search budget and parameters must be mappings'')
     | _ \<Rightarrow> bad_value ''experiment.search must be a mapping'')"

definition opt_arg :: "int option \<Rightarrow> arg" where
  "opt_arg i = (case i of None \<Rightarrow> ANone | Some i \<Rightarrow> AInt i)"

definition budget_to_dict :: "search_budget \<Rightarrow> (string \<times> arg) list" where
  "budget_to_dict b =
    [(''max_depth'', opt_arg (max_depth b)),
     (''max_nodes'', opt_arg (max_nodes b)),
     (''max_replays'', opt_arg (max_replays b)),
     (''max_seconds'', max_seconds b),
     (''max_transition_repetitions'', opt_arg (max_transition_repetitions b)),
     (''stagnation_nodes'', opt_arg (stagnation_nodes b)),
     (''stop_on_success'', ABool (stop_on_success b)),
     (''target_score'', target_score b)]"

section \<open>The monitor\<close>

datatype termination_reason =
    GOAL_REACHED
  | MAX_DEPTH
  | MAX_NODES
  | MAX_REPLAYS
  | MAX_SECONDS
  | STAGNATION
  | REPEATED_TRANSITION
  | EXHAUSTED

record termination_decision =
  td_reason :: termination_reason
  td_depth :: int
  td_nodes :: int
  td_replays :: int
  td_elapsed_seconds :: rat
  td_best_score :: arg
  td_detail :: "(string \<times> arg) list"

text \<open>\<open>m_ticks\<close> counts the calls of the clock.\<close>

record monitor =
  m_budget :: search_budget
  m_started_at :: rat
  m_ticks :: nat
  m_nodes :: int
  m_replays :: int
  m_best_score :: arg
  m_nodes_since_improvement :: int
  m_transition_visits :: "(arg list \<times> int) list"
  m_decision :: "termination_decision option"

definition start_monitor :: "(nat \<Rightarrow> rat) \<Rightarrow> search_budget \<Rightarrow> monitor" where
  "start_monitor clock b =
    \<lparr>m_budget = b, m_started_at = clock 0, m_ticks = 1, m_nodes = 0, m_replays = 0,
     m_best_score = ANone, m_nodes_since_improvement = 0, m_transition_visits = [],
     m_decision = None\<rparr>"

definition elapsed :: "(nat \<Rightarrow> rat) \<Rightarrow> monitor \<Rightarrow> rat \<times> monitor" where
  "elapsed clock m = (max 0 (clock (m_ticks m) - m_started_at m), m\<lparr>m_ticks := Suc (m_ticks m)\<rparr>)"

type_synonym monitor_result = "monitor \<times> (py_error + termination_decision option)"

text \<open>\<open>_stop\<close>: the first decision stays.\<close>

definition stop ::
  "(nat \<Rightarrow> rat) \<Rightarrow> termination_reason \<Rightarrow> int \<Rightarrow> (string \<times> arg) list \<Rightarrow> monitor \<Rightarrow> monitor_result"
where
  "stop clock reason depth detail m =
    (case m_decision m of
       Some d \<Rightarrow> (m, Inr (Some d))
     | None \<Rightarrow>
         let (seconds, m) = elapsed clock m;
             d = \<lparr>td_reason = reason, td_depth = depth, td_nodes = m_nodes m,
                  td_replays = m_replays m, td_elapsed_seconds = seconds,
                  td_best_score = m_best_score m, td_detail = detail\<rparr>
         in (m\<lparr>m_decision := Some d\<rparr>, Inr (Some d)))"

text \<open>The time test, with which both operations end.\<close>

definition check_seconds :: "(nat \<Rightarrow> rat) \<Rightarrow> int \<Rightarrow> monitor \<Rightarrow> monitor_result" where
  "check_seconds clock depth m =
    (if max_seconds (m_budget m) = ANone then (m, Inr None)
     else let (seconds, m) = elapsed clock m
       in if seconds \<ge> num_value (max_seconds (m_budget m))
          then stop clock MAX_SECONDS depth [(''limit'', max_seconds (m_budget m))] m
          else (m, Inr None))"

fun depth_ok :: "arg \<Rightarrow> bool" where
  "depth_ok (AInt i) = (0 \<le> i)"
| "depth_ok v = False"

fun arg_int :: "arg \<Rightarrow> int" where
  "arg_int (AInt i) = i"
| "arg_int v = 0"

definition check_before_expand :: "(nat \<Rightarrow> rat) \<Rightarrow> arg \<Rightarrow> monitor \<Rightarrow> monitor_result" where
  "check_before_expand clock depth m =
    (case m_decision m of
       Some d \<Rightarrow> (m, Inr (Some d))
     | None \<Rightarrow>
         if \<not> depth_ok depth then (m, bad_value ''depth must be a non-negative integer'')
         else let d = arg_int depth in
           case max_depth (m_budget m) of
             Some k \<Rightarrow>
               if d \<ge> k then stop clock MAX_DEPTH d [(''limit'', AInt k)] m
               else check_seconds clock d m
           | None \<Rightarrow> check_seconds clock d m)"

text \<open>The counters after a node, before any test.\<close>

definition count_node :: "arg \<Rightarrow> int \<Rightarrow> monitor \<Rightarrow> monitor" where
  "count_node score replay_count m =
    (let m = m\<lparr>m_nodes := m_nodes m + 1, m_replays := m_replays m + replay_count\<rparr>
     in if m_best_score m = ANone \<or> num_value score > num_value (m_best_score m)
        then m\<lparr>m_best_score := score, m_nodes_since_improvement := 0\<rparr>
        else m\<lparr>m_nodes_since_improvement := m_nodes_since_improvement m + 1\<rparr>)"

fun nonempty_string :: "arg \<Rightarrow> bool" where
  "nonempty_string (AStr s) = (s \<noteq> [])"
| "nonempty_string v = False"

text \<open>The tests of the limits, after the transition has been counted.\<close>

definition check_limits :: "(nat \<Rightarrow> rat) \<Rightarrow> int \<Rightarrow> monitor \<Rightarrow> monitor_result" where
  "check_limits clock depth m =
    (let b = m_budget m;
         over = (\<lambda>limit n. case limit of None \<Rightarrow> False | Some k \<Rightarrow> n \<ge> k)
     in if over (max_nodes b) (m_nodes m)
        then stop clock MAX_NODES depth [(''limit'', opt_arg (max_nodes b))] m
        else if over (max_replays b) (m_replays m)
        then stop clock MAX_REPLAYS depth [(''limit'', opt_arg (max_replays b))] m
        else if over (stagnation_nodes b) (m_nodes_since_improvement m)
        then stop clock STAGNATION depth
               [(''nodes_since_improvement'', AInt (m_nodes_since_improvement m))] m
        else check_seconds clock depth m)"

definition observe_transition :: "(nat \<Rightarrow> rat) \<Rightarrow> int \<Rightarrow> arg \<Rightarrow> monitor \<Rightarrow> monitor_result" where
  "observe_transition clock depth transition m =
    (case transition of
       ANone \<Rightarrow> check_limits clock depth m
     | ATuple items \<Rightarrow>
         if length items \<noteq> 3 \<or> \<not> list_all nonempty_string items
         then (m, bad_value ''transition must be (state_before, action_id, state_after)'')
         else let visits = (case map_of (m_transition_visits m) items of None \<Rightarrow> 0 | Some n \<Rightarrow> n) + 1;
                  m = m\<lparr>m_transition_visits := AList.update items visits (m_transition_visits m)\<rparr>
           in if (case max_transition_repetitions (m_budget m) of None \<Rightarrow> False | Some k \<Rightarrow> visits \<ge> k)
              then stop clock REPEATED_TRANSITION depth
                     [(''transition'', AList items), (''visits'', AInt visits)] m
              else check_limits clock depth m
     | _ \<Rightarrow> (m, bad_value ''transition must be (state_before, action_id, state_after)''))"

definition observe_node ::
  "(nat \<Rightarrow> rat) \<Rightarrow> arg \<Rightarrow> arg \<Rightarrow> arg \<Rightarrow> arg \<Rightarrow> arg \<Rightarrow> monitor \<Rightarrow> monitor_result"
where
  "observe_node clock depth score success replay_count transition m =
    (case m_decision m of
       Some d \<Rightarrow> (m, Inr (Some d))
     | None \<Rightarrow>
         if \<not> depth_ok depth then (m, bad_value ''depth must be a non-negative integer'')
         else if \<not> is_number score then (m, bad_value ''score must be a finite number'')
         else case finite_number score of
           Inl e \<Rightarrow> (m, Inl e)
         | Inr fin \<Rightarrow>
           if \<not> fin then (m, bad_value ''score must be a finite number'')
           else case success of
             ABool won \<Rightarrow>
               if \<not> depth_ok replay_count
               then (m, bad_value ''replay_count must be a non-negative integer'')
               else let m = count_node score (arg_int replay_count) m; d = arg_int depth in
                 if won \<and> stop_on_success (m_budget m)
                 then stop clock GOAL_REACHED d [(''success'', ABool True)] m
                 else if target_score (m_budget m) \<noteq> ANone
                    \<and> num_value score \<ge> num_value (target_score (m_budget m))
                 then stop clock GOAL_REACHED d
                        [(''score'', score), (''target_score'', target_score (m_budget m))] m
                 else observe_transition clock d transition m
           | _ \<Rightarrow> (m, bad_value ''success must be boolean''))"

definition mark_exhausted :: "(nat \<Rightarrow> rat) \<Rightarrow> int \<Rightarrow> monitor \<Rightarrow> monitor_result" where
  "mark_exhausted clock depth m = stop clock EXHAUSTED depth [] m"

end
