(* ===== verification/Monitor_Laws.thy ===== *)
theory Monitor_Laws
  imports Termination_Monitor
begin

text \<open>
  The monitor as a state machine: its calls, the states a run of returning calls can reach, and the
  invariants of those states. That the first decision stays is the contract of a sticky machine,
  stated as an interface and met by the monitor's calls.
\<close>

section \<open>Sticky machines\<close>

locale sticky =
  fixes perform :: "'c \<Rightarrow> 's \<Rightarrow> 's \<times> ('e + 'd option)"
    and verdict :: "'s \<Rightarrow> 'd option"
  assumes decided: "verdict s = Some d \<Longrightarrow> perform c s = (s, Inr (Some d))"
    and reported: "perform c s = (s', Inr r) \<Longrightarrow> r = verdict s'"
begin

definition run :: "'c list \<Rightarrow> 's \<Rightarrow> 's" where
  "run cs s = foldl (\<lambda>s c. fst (perform c s)) s cs"

lemma run_decided: "verdict s = Some d \<Longrightarrow> run cs s = s"
  by (induction cs) (simp_all add: run_def decided)

lemma run_append: "run (cs @ ds) s = run ds (run cs s)"
  by (simp add: run_def)

lemma verdict_stays: "verdict (run cs s) = Some d \<Longrightarrow> verdict (run (cs @ ds) s) = Some d"
  by (simp add: run_append run_decided)

end

section \<open>The monitor's calls\<close>

datatype monitor_call =
    CheckBeforeExpand arg
  | ObserveNode arg arg arg arg arg
  | MarkExhausted int

fun perform :: "(nat \<Rightarrow> rat) \<Rightarrow> monitor_call \<Rightarrow> monitor \<Rightarrow> monitor_result" where
  "perform clock (CheckBeforeExpand depth) m = check_before_expand clock depth m"
| "perform clock (ObserveNode depth score success replay_count transition) m =
     observe_node clock depth score success replay_count transition m"
| "perform clock (MarkExhausted depth) m = mark_exhausted clock depth m"

text \<open>
  What a stopping test may do: nothing but advance the clock, or record the decision with the
  counters as they are.
\<close>

definition same_counters :: "monitor \<Rightarrow> monitor \<Rightarrow> bool" where
  "same_counters m m' \<longleftrightarrow> m_budget m' = m_budget m \<and> m_started_at m' = m_started_at m \<and>
    m_nodes m' = m_nodes m \<and> m_replays m' = m_replays m \<and> m_best_score m' = m_best_score m \<and>
    m_nodes_since_improvement m' = m_nodes_since_improvement m \<and> m_ticks m \<le> m_ticks m'"

definition limit_met :: "int option \<Rightarrow> int \<Rightarrow> bool" where
  "limit_met limit n \<longleftrightarrow> (case limit of None \<Rightarrow> False | Some k \<Rightarrow> k \<le> n)"

text \<open>Why a decision was taken, in terms of the budget and the counters it records.\<close>

fun reason_holds :: "search_budget \<Rightarrow> monitor \<Rightarrow> termination_decision \<Rightarrow> bool" where
  "reason_holds b m d =
    (case td_reason d of
       GOAL_REACHED \<Rightarrow> stop_on_success b \<or> target_score b \<noteq> ANone \<and>
         num_value (target_score b) \<le> num_value (td_best_score d)
     | MAX_DEPTH \<Rightarrow> limit_met (max_depth b) (td_depth d)
     | MAX_NODES \<Rightarrow> limit_met (max_nodes b) (td_nodes d)
     | MAX_REPLAYS \<Rightarrow> limit_met (max_replays b) (td_replays d)
     | MAX_SECONDS \<Rightarrow> max_seconds b \<noteq> ANone \<and> num_value (max_seconds b) \<le> td_elapsed_seconds d
     | STAGNATION \<Rightarrow> limit_met (stagnation_nodes b) (m_nodes_since_improvement m)
     | REPEATED_TRANSITION \<Rightarrow> max_transition_repetitions b \<noteq> None
     | EXHAUSTED \<Rightarrow> True)"

definition records :: "monitor \<Rightarrow> termination_decision \<Rightarrow> bool" where
  "records m d \<longleftrightarrow> td_nodes d = m_nodes m \<and> td_replays d = m_replays m \<and> td_best_score d = m_best_score m"

lemma stop_fresh:
  assumes "m_decision m = None"
  shows "\<exists>d m'. stop clock reason depth detail m = (m', Inr (Some d)) \<and> m_decision m' = Some d \<and>
    same_counters m m' \<and> records m' d \<and> td_reason d = reason \<and> td_depth d = depth \<and>
    td_elapsed_seconds d = max 0 (clock (m_ticks m) - m_started_at m)"
  using assms by (simp add: stop_def elapsed_def same_counters_def records_def Let_def)

lemma stop_decided: "m_decision m = Some d \<Longrightarrow> stop clock reason depth detail m = (m, Inr (Some d))"
  by (simp add: stop_def)

text \<open>
  The outcome of the tests of one call on an undecided monitor: no decision and only the clock has
  moved, or a decision whose reason holds.
\<close>

definition outcome_ok :: "search_budget \<Rightarrow> monitor \<Rightarrow> monitor_result \<Rightarrow> bool" where
  "outcome_ok b m res \<longleftrightarrow> same_counters m (fst res) \<and> snd res = Inr (m_decision (fst res)) \<and>
    (case m_decision (fst res) of None \<Rightarrow> True
     | Some d \<Rightarrow> records (fst res) d \<and> reason_holds b (fst res) d)"

lemma stop_outcome:
  assumes "m_decision m = None"
    and "\<And>d m'. td_reason d = reason \<Longrightarrow> td_depth d = depth \<Longrightarrow> records m' d \<Longrightarrow> same_counters m m' \<Longrightarrow>
      td_elapsed_seconds d = max 0 (clock (m_ticks m) - m_started_at m) \<Longrightarrow> reason_holds b m' d"
  shows "outcome_ok b m (stop clock reason depth detail m)"
proof -
  from stop_fresh [OF assms(1)] obtain d m' where
    "stop clock reason depth detail m = (m', Inr (Some d))" "m_decision m' = Some d"
    "same_counters m m'" "records m' d" "td_reason d = reason" "td_depth d = depth"
    "td_elapsed_seconds d = max 0 (clock (m_ticks m) - m_started_at m)" by blast
  with assms(2) [of d m'] show ?thesis by (simp add: outcome_ok_def)
qed

lemma outcome_none: "m_decision m = None \<Longrightarrow> outcome_ok b m (m, Inr None)"
  by (simp add: outcome_ok_def same_counters_def)

lemma check_seconds_outcome:
  assumes "m_decision m = None" and "m_budget m = b" and "mono clock"
  shows "outcome_ok b m (check_seconds clock depth m)"
proof -
  let ?m = "m\<lparr>m_ticks := Suc (m_ticks m)\<rparr>"
  have step: "outcome_ok b ?m res \<Longrightarrow> outcome_ok b m res" for res
    by (auto simp: outcome_ok_def same_counters_def)
  have later: "clock (m_ticks m) \<le> clock (Suc (m_ticks m))" using assms(3) by (simp add: monoD)
  have "outcome_ok b ?m (stop clock MAX_SECONDS depth detail ?m)"
    if "max_seconds b \<noteq> ANone" "num_value (max_seconds b) \<le> max 0 (clock (m_ticks m) - m_started_at m)" for detail
    using assms(1) that later by (intro stop_outcome) auto
  moreover have "outcome_ok b ?m (?m, Inr None)" using assms(1) by (intro outcome_none) simp
  ultimately show ?thesis
    using assms(1,2) step outcome_none [OF assms(1)] by (auto simp: check_seconds_def elapsed_def)
qed

lemma check_before_expand_outcome:
  assumes "m_decision m = None" and "m_budget m = b" and "mono clock" and "depth_ok depth"
  shows "outcome_ok b m (check_before_expand clock depth m)"
proof (cases "limit_met (max_depth b) (arg_int depth)")
  case True
  then have "outcome_ok b m (stop clock MAX_DEPTH (arg_int depth) detail m)" for detail
    using assms(1) by (intro stop_outcome) auto
  with True assms show ?thesis by (auto simp: check_before_expand_def limit_met_def split: option.splits)
next
  case False
  then show ?thesis
    using assms check_seconds_outcome [OF assms(1-3)]
    by (auto simp: check_before_expand_def limit_met_def split: option.splits)
qed

lemma mark_exhausted_outcome: "m_decision m = None \<Longrightarrow> outcome_ok b m (mark_exhausted clock depth m)"
  unfolding mark_exhausted_def by (intro stop_outcome) auto

text \<open>After the limits have been tested without a decision, the counters are below them.\<close>

definition below_limits :: "search_budget \<Rightarrow> monitor \<Rightarrow> bool" where
  "below_limits b m \<longleftrightarrow> \<not> limit_met (max_nodes b) (m_nodes m) \<and> \<not> limit_met (max_replays b) (m_replays m) \<and>
    \<not> limit_met (stagnation_nodes b) (m_nodes_since_improvement m)"

lemma below_limits_same: "same_counters m m' \<Longrightarrow> below_limits b m' \<longleftrightarrow> below_limits b m"
  by (simp add: below_limits_def same_counters_def)

definition tested_ok :: "search_budget \<Rightarrow> monitor \<Rightarrow> monitor_result \<Rightarrow> bool" where
  "tested_ok b m res \<longleftrightarrow> outcome_ok b m res \<and> (m_decision (fst res) = None \<longrightarrow> below_limits b m)"

lemma stop_tested:
  assumes "m_decision m = None" and "outcome_ok b m (stop clock reason depth detail m)"
  shows "tested_ok b m (stop clock reason depth detail m)"
  using stop_fresh [OF assms(1), of clock reason depth detail] assms(2) by (auto simp: tested_ok_def)

lemma check_limits_tested:
  assumes "m_decision m = None" and "m_budget m = b" and "mono clock"
  shows "tested_ok b m (check_limits clock depth m)"
proof -
  have nodes: "tested_ok b m (stop clock MAX_NODES depth detail m)" if "limit_met (max_nodes b) (m_nodes m)" for detail
    using assms(1) that by (intro stop_tested stop_outcome) (auto simp: records_def same_counters_def)
  have replays: "tested_ok b m (stop clock MAX_REPLAYS depth detail m)" if "limit_met (max_replays b) (m_replays m)" for detail
    using assms(1) that by (intro stop_tested stop_outcome) (auto simp: records_def same_counters_def)
  have stagnation: "tested_ok b m (stop clock STAGNATION depth detail m)"
    if "limit_met (stagnation_nodes b) (m_nodes_since_improvement m)" for detail
    using assms(1) that by (intro stop_tested stop_outcome) (auto simp: same_counters_def)
  have seconds: "tested_ok b m (check_seconds clock depth m)" if "below_limits b m"
    using that check_seconds_outcome [OF assms] by (simp add: tested_ok_def)
  have over: "(case limit of None \<Rightarrow> False | Some k \<Rightarrow> k \<le> n) = limit_met limit n" for limit :: "int option" and n
    by (simp add: limit_met_def)
  show ?thesis
    using nodes replays stagnation seconds assms(2)
    by (auto simp: check_limits_def Let_def over below_limits_def)
qed

section \<open>One call\<close>

definition node_ok :: "arg \<Rightarrow> arg \<Rightarrow> arg \<Rightarrow> arg \<Rightarrow> arg \<Rightarrow> bool" where
  "node_ok depth score success replay_count transition \<longleftrightarrow>
    depth_ok depth \<and> is_number score \<and> finite_number score = Inr True \<and> success \<in> {ABool True, ABool False} \<and>
    depth_ok replay_count \<and>
    (transition = ANone \<or> (\<exists>items. transition = ATuple items \<and> length items = 3 \<and> list_all nonempty_string items))"

lemma count_node_simps [simp]:
  "m_budget (count_node s n m) = m_budget m"
  "m_started_at (count_node s n m) = m_started_at m"
  "m_decision (count_node s n m) = m_decision m"
  "m_nodes (count_node s n m) = m_nodes m + 1"
  "m_replays (count_node s n m) = m_replays m + n"
  by (simp_all add: count_node_def Let_def)

lemma observe_transition_tested:
  assumes "m_decision m = None" and "m_budget m = b" and "mono clock"
    and "observe_transition clock depth transition m = (m', Inr r)"
  shows "tested_ok b m (m', Inr r)"
proof (cases transition)
  case (ATuple items)
  define m1 where "m1 v = m\<lparr>m_transition_visits := v\<rparr>" for v
  have step: "tested_ok b (m1 v) res \<Longrightarrow> tested_ok b m res" for res v
    by (auto simp: m1_def tested_ok_def outcome_ok_def same_counters_def below_limits_def)
  have limits: "tested_ok b (m1 v) (check_limits clock depth (m1 v))" for v
    using assms(1-3) by (intro check_limits_tested) (simp_all add: m1_def)
  have rep: "tested_ok b (m1 v) (stop clock REPEATED_TRANSITION depth detail (m1 v))"
    if "max_transition_repetitions b \<noteq> None" for v detail
    using assms(1) that by (intro stop_tested stop_outcome) (auto simp: m1_def)
  have lim: "check_limits clock depth (m1 v) = res \<Longrightarrow> tested_ok b m res" for v res
    using step [OF limits] by blast
  have more: "stop clock REPEATED_TRANSITION depth detail (m1 v) = res \<Longrightarrow>
      max_transition_repetitions b \<noteq> None \<Longrightarrow> tested_ok b m res" for detail v res
    using step [OF rep] by blast
  define visits where "visits = (case map_of (m_transition_visits m) items of None \<Rightarrow> 0 | Some n \<Rightarrow> n) + 1"
  let ?v = "AList.update items visits (m_transition_visits m)"
  have budget: "m_budget (m1 v) = b" for v using assms(2) by (simp add: m1_def)
  have "(if length items \<noteq> 3 \<or> \<not> list_all nonempty_string items
      then (m, bad_value ''transition must be (state_before, action_id, state_after)'')
      else if (case max_transition_repetitions b of None \<Rightarrow> False | Some k \<Rightarrow> visits \<ge> k)
      then stop clock REPEATED_TRANSITION depth [(''transition'', AList items), (''visits'', AInt visits)] (m1 ?v)
      else check_limits clock depth (m1 ?v)) = (m', Inr r)"
    using assms(4) unfolding ATuple observe_transition_def Let_def arg.case visits_def [symmetric]
      m1_def [symmetric] budget .
  then show ?thesis
    using lim [of ?v] more [of "[(''transition'', AList items), (''visits'', AInt visits)]" ?v]
    by (cases "max_transition_repetitions b") (auto simp: bad_value_def split: if_splits)
qed (use assms check_limits_tested [OF assms(1-3), of depth] in \<open>auto simp: observe_transition_def bad_value_def\<close>)

lemma observe_node_returns:
  assumes "m_decision m = None"
    and "observe_node clock depth score success replay_count transition m = (m', Inr r)"
  obtains won where "depth_ok depth" "is_number score" "finite_number score = Inr True"
    "success = ABool won" "depth_ok replay_count"
    "let m1 = count_node score (arg_int replay_count) m; d = arg_int depth in
      (if won \<and> stop_on_success (m_budget m1)
       then stop clock GOAL_REACHED d [(''success'', ABool True)] m1
       else if target_score (m_budget m1) \<noteq> ANone \<and> num_value score \<ge> num_value (target_score (m_budget m1))
       then stop clock GOAL_REACHED d [(''score'', score), (''target_score'', target_score (m_budget m1))] m1
       else observe_transition clock d transition m1) = (m', Inr r)"
proof -
  from assms have "depth_ok depth" and "is_number score"
    by (auto simp: observe_node_def bad_value_def split: if_splits)
  moreover from assms calculation have "finite_number score = Inr True"
    by (auto simp: observe_node_def bad_value_def split: sum.splits if_splits)
  moreover from assms calculation obtain won where "success = ABool won"
    by (cases success) (auto simp: observe_node_def bad_value_def)
  moreover from assms calculation have "depth_ok replay_count"
    by (auto simp: observe_node_def bad_value_def split: if_splits)
  ultimately show thesis using assms that [of won] by (simp add: observe_node_def Let_def del: count_node_simps)
qed

lemma count_node_best: "num_value score \<le> num_value (m_best_score (count_node score n m))"
  by (auto simp: count_node_def Let_def)

lemma observe_node_tested:
  assumes "m_decision m = None" and "m_budget m = b" and "mono clock"
    and "observe_node clock depth score success replay_count transition m = (m', Inr r)"
  shows "tested_ok b (count_node score (arg_int replay_count) m) (m', Inr r)"
proof -
  let ?m = "count_node score (arg_int replay_count) m"
  have undecided: "m_decision ?m = None" using assms(1) by simp
  have won: "tested_ok b ?m (stop clock GOAL_REACHED d detail ?m)" if "stop_on_success b" for d detail
    using undecided that by (intro stop_tested stop_outcome) auto
  have target: "tested_ok b ?m (stop clock GOAL_REACHED d detail ?m)"
    if "target_score b \<noteq> ANone" "num_value score \<ge> num_value (target_score b)" for d detail
    using undecided that count_node_best [of score "arg_int replay_count" m]
    by (intro stop_tested stop_outcome) (auto simp: records_def same_counters_def)
  have transition: "tested_ok b ?m (m', Inr r)"
    if "observe_transition clock d transition ?m = (m', Inr r)" for d
    using observe_transition_tested [OF undecided _ assms(3) that] assms(2) by simp
  obtain won where eq: "(if won \<and> stop_on_success b
       then stop clock GOAL_REACHED (arg_int depth) [(''success'', ABool True)] ?m
       else if target_score b \<noteq> ANone \<and> num_value score \<ge> num_value (target_score b)
       then stop clock GOAL_REACHED (arg_int depth) [(''score'', score), (''target_score'', target_score b)] ?m
       else observe_transition clock (arg_int depth) transition ?m) = (m', Inr r)"
  proof -
    from observe_node_returns [OF assms(1,4)] show thesis
      unfolding Let_def count_node_simps assms(2) using that by blast
  qed
  show ?thesis
  proof (cases "won \<and> stop_on_success b")
    case True
    with eq won [of "arg_int depth"] show ?thesis by (simp add: if_P) metis
  next
    case lost: False
    show ?thesis
    proof (cases "target_score b \<noteq> ANone \<and> num_value score \<ge> num_value (target_score b)")
      case True
      with eq lost target [of "arg_int depth"] show ?thesis by (simp add: if_not_P) metis
    next
      case False
      with eq lost transition show ?thesis by (simp only: if_False)
    qed
  qed
qed

section \<open>Runs\<close>

text \<open>The nodes of a run, as the scores and replay counts the counters have taken in.\<close>

fun call_nodes :: "monitor_call \<Rightarrow> (arg \<times> int) list" where
  "call_nodes (ObserveNode depth score success replay_count transition) = [(score, arg_int replay_count)]"
| "call_nodes c = []"

text \<open>The monitors that calls which return can produce.\<close>

inductive reachable :: "(nat \<Rightarrow> rat) \<Rightarrow> search_budget \<Rightarrow> (arg \<times> int) list \<Rightarrow> monitor \<Rightarrow> bool"
  for clock :: "nat \<Rightarrow> rat" and b :: search_budget
where
  start: "reachable clock b [] (start_monitor clock b)"
| call: "reachable clock b ns m \<Longrightarrow> perform clock c m = (m', Inr r) \<Longrightarrow>
    reachable clock b (if m_decision m = None then ns @ call_nodes c else ns) m'"

inductive_cases reachable_startE: "reachable clock b [] m"

text \<open>The least number of nodes since the best score appeared.\<close>

definition best_of :: "(arg \<times> int) list \<Rightarrow> arg \<Rightarrow> bool" where
  "best_of ns best \<longleftrightarrow>
    (if ns = [] then best = ANone
     else best \<in> fst ` set ns \<and> list_all (\<lambda>(s, n). num_value s \<le> num_value best) ns)"

definition monitor_inv :: "search_budget \<Rightarrow> (arg \<times> int) list \<Rightarrow> monitor \<Rightarrow> bool" where
  "monitor_inv b ns m \<longleftrightarrow>
    m_budget m = b \<and> m_nodes m = int (length ns) \<and> m_replays m = sum_list (map snd ns) \<and>
    list_all (\<lambda>(s, n). is_number s \<and> 0 \<le> n) ns \<and> best_of ns (m_best_score m) \<and>
    0 \<le> m_nodes_since_improvement m \<and> m_nodes_since_improvement m \<le> m_nodes m \<and>
    (case m_decision m of None \<Rightarrow> below_limits b m \<or> ns = []
     | Some d \<Rightarrow> records m d \<and> reason_holds b m d)"

lemma monitor_inv_outcome:
  assumes "monitor_inv b ns m" and "m_decision m = None" and "outcome_ok b m (m', Inr r)"
  shows "monitor_inv b ns m'"
  using assms below_limits_same [of m m' b]
  by (auto simp: monitor_inv_def outcome_ok_def same_counters_def split: option.splits)

lemma best_of_count:
  assumes "best_of ns (m_best_score m)" and "list_all (\<lambda>(s, n). is_number s \<and> 0 \<le> n) ns"
    and "is_number score"
  shows "best_of (ns @ [(score, k)]) (m_best_score (count_node score k m))"
proof (cases "ns = []")
  case True
  with assms show ?thesis by (simp add: best_of_def count_node_def Let_def)
next
  case False
  with assms(1) have mem: "m_best_score m \<in> fst ` set ns"
    and le: "list_all (\<lambda>(s, n). num_value s \<le> num_value (m_best_score m)) ns"
    by (simp_all add: best_of_def)
  from mem assms(2) have "m_best_score m \<noteq> ANone" by (auto simp: list_all_iff)
  show ?thesis
  proof (cases "num_value (m_best_score m) < num_value score")
    case True
    then have "m_best_score (count_node score k m) = score" by (simp add: count_node_def Let_def)
    with le True show ?thesis by (auto simp: best_of_def list_all_iff)
  next
    case below: False
    then have "m_best_score (count_node score k m) = m_best_score m"
      using \<open>m_best_score m \<noteq> ANone\<close> by (simp add: count_node_def Let_def)
    with mem le below show ?thesis by (auto simp: best_of_def list_all_iff)
  qed
qed

lemma depth_ok_nonneg: "depth_ok v \<Longrightarrow> 0 \<le> arg_int v"
  by (cases v) simp_all

lemma monitor_inv_count:
  assumes "monitor_inv b ns m" and "m_decision m = None" and "is_number score" and "depth_ok n"
    and "tested_ok b (count_node score (arg_int n) m) (m', Inr r)"
  shows "monitor_inv b (ns @ [(score, arg_int n)]) m'"
proof -
  let ?m = "count_node score (arg_int n) m"
  have best: "best_of (ns @ [(score, arg_int n)]) (m_best_score ?m)"
    using assms(1,3) by (intro best_of_count) (simp_all add: monitor_inv_def)
  have since: "0 \<le> m_nodes_since_improvement ?m" "m_nodes_since_improvement ?m \<le> m_nodes ?m"
    using assms(1) by (auto simp: monitor_inv_def count_node_def Let_def)
  show ?thesis
    using assms best since depth_ok_nonneg [OF assms(4)] below_limits_same [of ?m m' b]
    by (auto simp: monitor_inv_def tested_ok_def outcome_ok_def same_counters_def split: option.splits)
qed

lemma monitor_inv_start: "monitor_inv b [] (start_monitor clock b)"
  by (simp add: monitor_inv_def start_monitor_def best_of_def)

lemma perform_decided: "m_decision m = Some d \<Longrightarrow> perform clock c m = (m, Inr (Some d))"
  by (cases c) (simp_all add: check_before_expand_def observe_node_def mark_exhausted_def stop_def)

lemma reachable_inv:
  assumes "reachable clock b ns m" and "mono clock"
  shows "monitor_inv b ns m"
  using assms(1)
proof induction
  case start
  show ?case by (rule monitor_inv_start)
next
  case (call ns m c m' r)
  show ?case
  proof (cases "m_decision m")
    case (Some d)
    with call show ?thesis by (auto simp: perform_decided)
  next
    case None
    have b: "m_budget m = b" using call.IH by (simp add: monitor_inv_def)
    show ?thesis
    proof (cases c)
      case (CheckBeforeExpand depth)
      with call.hyps None have "depth_ok depth"
        by (auto simp: check_before_expand_def bad_value_def split: if_splits)
      with CheckBeforeExpand call.hyps None show ?thesis
        using monitor_inv_outcome [OF call.IH None] check_before_expand_outcome [OF None b assms(2)]
        by (metis append_Nil2 call_nodes.simps(2) perform.simps(1))
    next
      case (ObserveNode depth score success replay_count transition)
      with call.hyps have obs: "observe_node clock depth score success replay_count transition m = (m', Inr r)" by simp
      from observe_node_returns [OF None obs] have "is_number score" "depth_ok replay_count" by blast+
      then show ?thesis
        using monitor_inv_count [OF call.IH None _ _ observe_node_tested [OF None b assms(2) obs]] None ObserveNode
        by simp
    next
      case (MarkExhausted depth)
      with call.hyps None show ?thesis
        using monitor_inv_outcome [OF call.IH None] mark_exhausted_outcome [OF None, of b clock depth]
        by simp
    qed
  qed
qed

section \<open>The monitor is sticky\<close>

definition reports :: "monitor_result \<Rightarrow> bool" where
  "reports res \<longleftrightarrow> (case snd res of Inl _ \<Rightarrow> True | Inr r \<Rightarrow> r = m_decision (fst res))"

lemma reports_simps [simp]:
  "reports (m, Inl e)" "reports (m, bad_value t)" "reports (m, Inr r) \<longleftrightarrow> r = m_decision m"
  by (simp_all add: reports_def bad_value_def)

lemma stop_reports [simp]: "reports (stop clock reason depth detail m)"
  by (simp add: stop_def elapsed_def Let_def split: option.splits)

lemma check_seconds_reports [simp]: "m_decision m = None \<Longrightarrow> reports (check_seconds clock depth m)"
  by (simp add: check_seconds_def elapsed_def)

lemma check_limits_reports [simp]: "m_decision m = None \<Longrightarrow> reports (check_limits clock depth m)"
  by (simp add: check_limits_def Let_def)

lemma observe_transition_reports [simp]:
  "m_decision m = None \<Longrightarrow> reports (observe_transition clock depth t m)"
  by (simp add: observe_transition_def Let_def split: arg.splits)

lemma observe_node_reports: "reports (observe_node clock depth score success n t m)"
  by (simp add: observe_node_def Let_def split: option.splits sum.splits arg.splits)

lemma check_before_expand_reports: "reports (check_before_expand clock depth m)"
  by (simp add: check_before_expand_def Let_def split: option.splits)

lemma perform_reports: "perform clock c m = (m', Inr r) \<Longrightarrow> r = m_decision m'"
proof -
  have "reports (perform clock c m)"
    by (cases c) (simp_all add: observe_node_reports check_before_expand_reports mark_exhausted_def)
  then show "perform clock c m = (m', Inr r) \<Longrightarrow> r = m_decision m'" by simp
qed

interpretation monitor: sticky "perform clock" m_decision for clock
  by unfold_locales (auto simp: perform_decided dest: perform_reports)

text \<open>A whole search: the calls one after the other, whatever they return.\<close>

definition run_monitor :: "(nat \<Rightarrow> rat) \<Rightarrow> monitor_call list \<Rightarrow> monitor \<Rightarrow> monitor" where
  "run_monitor clock cs m = foldl (\<lambda>m c. fst (perform clock c m)) m cs"

lemma run_monitor_eq: "run_monitor clock cs m = monitor.run clock cs m"
  by (simp add: run_monitor_def monitor.run_def)

end
