(* ===== verification/Budget_Laws.thy ===== *)
theory Budget_Laws
  imports Termination_Monitor
begin

text \<open>What \<open>SearchBudget\<close> accepts, and that its dictionary form is read back as the same budget.\<close>

definition positive_limit :: "int option \<Rightarrow> bool" where
  "positive_limit k \<longleftrightarrow> (case k of None \<Rightarrow> True | Some n \<Rightarrow> 1 \<le> n)"

definition number_ok :: "arg \<Rightarrow> (rat \<Rightarrow> bool) \<Rightarrow> bool" where
  "number_ok v ok \<longleftrightarrow> v = ANone \<or> is_number v \<and> finite_number v = Inr True \<and> ok (num_value v)"

definition budget_valid :: "search_budget \<Rightarrow> bool" where
  "budget_valid b \<longleftrightarrow>
    positive_limit (max_depth b) \<and> positive_limit (max_nodes b) \<and> positive_limit (max_replays b) \<and>
    positive_limit (stagnation_nodes b) \<and> positive_limit (max_transition_repetitions b) \<and>
    number_ok (max_seconds b) (\<lambda>x. 0 < x) \<and> number_ok (target_score b) (\<lambda>x. True) \<and>
    (max_depth b \<noteq> None \<or> max_nodes b \<noteq> None \<or> max_replays b \<noteq> None \<or> max_seconds b \<noteq> ANone \<or>
     stagnation_nodes b \<noteq> None \<or> max_transition_repetitions b \<noteq> None \<or> target_score b \<noteq> ANone \<or>
     stop_on_success b)"

lemma opt_arg_inject [simp]: "opt_arg i = opt_arg j \<longleftrightarrow> i = j"
  by (auto simp: opt_arg_def split: option.splits)

lemma positive_integer_Inr:
  "positive_integer v name = Inr k \<longleftrightarrow> positive_limit k \<and> v = opt_arg k"
  by (cases v) (auto simp: positive_integer_def positive_limit_def opt_arg_def bad_value_def split: option.splits)

lemma number_field_Inr: "number_field v ok m = Inr w \<longleftrightarrow> number_ok v ok \<and> w = v"
  by (auto simp: number_field_def number_ok_def bad_value_def monad_simps split: if_splits)

lemma if_bad_value_Inr: "(if c then bad_value m else k) = Inr y \<longleftrightarrow> \<not> c \<and> k = Inr y"
  by (simp add: bad_value_def)

lemma make_budget_Inr:
  "make_budget v = Inr b \<longleftrightarrow> budget_valid b \<and>
    v ''max_depth'' = opt_arg (max_depth b) \<and> v ''max_nodes'' = opt_arg (max_nodes b) \<and>
    v ''max_replays'' = opt_arg (max_replays b) \<and> v ''max_seconds'' = max_seconds b \<and>
    v ''stagnation_nodes'' = opt_arg (stagnation_nodes b) \<and>
    v ''max_transition_repetitions'' = opt_arg (max_transition_repetitions b) \<and>
    v ''target_score'' = target_score b \<and> v ''stop_on_success'' = ABool (stop_on_success b)"
proof (cases "\<exists>s. v ''stop_on_success'' = ABool s")
  case True
  then obtain s where s: "v ''stop_on_success'' = ABool s" by blast
  show ?thesis
    unfolding make_budget_def s arg.case sbind_eq_Inr positive_integer_Inr number_field_Inr
      if_bad_value_Inr
    by (cases b) (auto simp: budget_valid_def)
next
  case False
  then have "(case v ''stop_on_success'' of ABool s \<Rightarrow> f s | _ \<Rightarrow> bad_value m) = bad_value m"
    for f :: "bool \<Rightarrow> py_error + search_budget" and m
    by (cases "v ''stop_on_success''") auto
  then have "make_budget v \<noteq> Inr b"
    unfolding make_budget_def by (auto simp: monad_simps bad_value_def)
  with False show ?thesis by auto
qed

lemma from_mapping_valid: "budget_from_mapping v = Inr b \<Longrightarrow> budget_valid b"
  by (cases v) (auto simp: budget_from_mapping_def Let_def bad_value_def make_budget_Inr split: if_splits)

lemma budget_fields_dict: "map fst (budget_to_dict b) = sort budget_fields"
  by (simp add: budget_to_dict_def budget_fields_def)

lemma budget_roundtrip:
  "budget_from_mapping (AMap (budget_to_dict b)) = Inr b' \<longleftrightarrow> budget_valid b \<and> b' = b"
proof -
  have known: "filter (\<lambda>k. k \<notin> set budget_fields) (map fst (budget_to_dict b)) = []"
    by (simp add: budget_to_dict_def budget_fields_def)
  have eq: "budget_from_mapping (AMap (budget_to_dict b)) =
      make_budget (\<lambda>k. arg_get (budget_to_dict b) k (if k = ''stop_on_success'' then ABool False else ANone))"
    unfolding budget_from_mapping_def arg.case known by simp
  show ?thesis
    unfolding eq make_budget_Inr
    by (cases b; cases b') (auto simp: arg_get_def budget_to_dict_def)
qed

end
