(* ===== verification/Replay_Difference.thy ===== *)
theory Replay_Difference
  imports Failures
begin

text \<open>
  \<open>engine/replay/verifier.py\<close>: the first place at which two canonical values differ, the identity
  of a recorded request, and the check that two replays meet the same requests.
\<close>

section \<open>Equality of values\<close>

text \<open>
  \<open>==\<close> on values that are not both mappings or both sequences. Numbers compare by value, so that
  \<open>True == 1\<close> (a float and an integer by their texts, which decides below \<open>10 ^ 16\<close>); two floats are
  equal when their texts are, the zeros of both signs are equal, and \<open>NaN\<close> differs from everything.
\<close>

fun scalar_eq :: "pyval \<Rightarrow> pyval \<Rightarrow> bool" where
  "scalar_eq (PInt i) w = eq_int w i"
| "scalar_eq (PBool b) w = eq_int w (of_bool b)"
| "scalar_eq v (PInt j) = eq_int v j"
| "scalar_eq v (PBool b) = eq_int v (of_bool b)"
| "scalar_eq (PFloat s) (PFloat t) =
     (s = t \<and> s \<noteq> ''NaN'' \<or> s \<in> {''0.0'', ''-0.0''} \<and> t \<in> {''0.0'', ''-0.0''})"
| "scalar_eq v w = (v = w)"

fun is_sequence :: "pyval \<Rightarrow> bool" where
  "is_sequence (PList xs) = True"
| "is_sequence (PTuple xs) = True"
| "is_sequence v = False"

fun items :: "pyval \<Rightarrow> pyval list" where
  "items (PList xs) = xs"
| "items (PTuple xs) = xs"
| "items v = []"

section \<open>The first difference\<close>

text \<open>A missing entry is \<open>None\<close>.\<close>

type_synonym difference = "string \<times> pyval option \<times> pyval option"

definition next_path :: "string \<Rightarrow> string \<Rightarrow> string" where
  "next_path path k = (if path = [] then k else path @ ''.'' @ k)"

definition item_path :: "string \<Rightarrow> nat \<Rightarrow> string" where
  "item_path path i = path @ ''['' @ str_nat i @ '']''"

definition all_keys :: "pydict \<Rightarrow> pydict \<Rightarrow> string list" where
  "all_keys l r = sort (remdups (map fst l @ map fst r))"

lemma size_dict_value: "map_of d k = Some v \<Longrightarrow> size v < size (PDict d)"
  by (induction d) (auto split: if_splits)

lemma size_items: "is_sequence v \<Longrightarrow> size_list size (items v) < size v"
  by (cases v) simp_all

function (sequential) value_difference :: "pyval \<Rightarrow> pyval \<Rightarrow> string \<Rightarrow> difference option"
  and entry_difference :: "pydict \<Rightarrow> pydict \<Rightarrow> string list \<Rightarrow> string \<Rightarrow> difference option"
  and item_difference :: "pyval list \<Rightarrow> pyval list \<Rightarrow> nat \<Rightarrow> string \<Rightarrow> difference option"
where
  "value_difference (PDict l) (PDict r) path = entry_difference l r (all_keys l r) path"
| "value_difference left right path =
     (if is_sequence left \<and> is_sequence right
      then if length (items left) \<noteq> length (items right)
        then Some (path @ ''.length'', Some (PInt (int (length (items left)))),
               Some (PInt (int (length (items right)))))
        else item_difference (items left) (items right) 0 path
      else if \<not> scalar_eq left right then Some (path, Some left, Some right) else None)"
| "entry_difference l r [] path = None"
| "entry_difference l r (k # ks) path =
     (case map_of l k of
        None \<Rightarrow> Some (next_path path k, None, map_of r k)
      | Some a \<Rightarrow>
          (case map_of r k of
             None \<Rightarrow> Some (next_path path k, Some a, None)
           | Some b \<Rightarrow>
               (case value_difference a b (next_path path k) of
                  Some d \<Rightarrow> Some d
                | None \<Rightarrow> entry_difference l r ks path)))"
| "item_difference (x # xs) (y # ys) i path =
     (case value_difference x y (item_path path i) of
        Some d \<Rightarrow> Some d
      | None \<Rightarrow> item_difference xs ys (Suc i) path)"
| "item_difference xs ys i path = None"
  by pat_completeness auto

termination
  by (relation "measures
        [(\<lambda>x. case x of Inl (l, r, path) \<Rightarrow> size l
          | Inr (Inl (l, r, ks, path)) \<Rightarrow> size (PDict l)
          | Inr (Inr (xs, ys, i, path)) \<Rightarrow> size_list size xs),
         (\<lambda>x. case x of Inl (l, r, path) \<Rightarrow> 1 | _ \<Rightarrow> 0),
         (\<lambda>x. case x of Inr (Inl (l, r, ks, path)) \<Rightarrow> length ks | _ \<Rightarrow> 0)]")
    (auto dest: size_dict_value intro: size_items)

text \<open>When there is no difference: the same keys with the same values, sequences of the same length with
  the same items, equal scalars.\<close>

inductive same :: "pyval \<Rightarrow> pyval \<Rightarrow> bool" where
  dict: "(\<And>k. rel_option same (map_of l k) (map_of r k)) \<Longrightarrow> same (PDict l) (PDict r)"
| sequence: "is_sequence v \<Longrightarrow> is_sequence w \<Longrightarrow> list_all2 same (items v) (items w) \<Longrightarrow> same v w"
| scalar: "scalar_eq v w \<Longrightarrow> \<not> (is_sequence v \<and> is_sequence w) \<Longrightarrow> (\<And>l r. (v, w) \<noteq> (PDict l, PDict r)) \<Longrightarrow> same v w"

inductive_simps same_dict: "same (PDict l) (PDict r)"

lemma not_both_dicts:
  "(\<And>l r. (v, w) \<noteq> (PDict l, PDict r)) \<Longrightarrow>
    same v w \<longleftrightarrow> (if is_sequence v \<and> is_sequence w then list_all2 same (items v) (items w) else scalar_eq v w)"
  by (auto simp: same.simps [of v w])

lemma entry_step:
  assumes "k \<in> set (all_keys l r)"
  shows "entry_difference l r (k # ks) p = None \<longleftrightarrow>
      (\<exists>a b. map_of l k = Some a \<and> map_of r k = Some b \<and> value_difference a b (next_path p k) = None) \<and>
      entry_difference l r ks p = None"
    and "rel_option same (map_of l k) (map_of r k) \<longleftrightarrow>
      (\<exists>a b. map_of l k = Some a \<and> map_of r k = Some b \<and> same a b)"
proof -
  show "entry_difference l r (k # ks) p = None \<longleftrightarrow>
      (\<exists>a b. map_of l k = Some a \<and> map_of r k = Some b \<and> value_difference a b (next_path p k) = None) \<and>
      entry_difference l r ks p = None"
    by (auto split: option.splits)
  have "map_of l k \<noteq> None \<or> map_of r k \<noteq> None"
    using assms by (auto simp: all_keys_def map_of_eq_None_iff)
  then show "rel_option same (map_of l k) (map_of r k) \<longleftrightarrow>
      (\<exists>a b. map_of l k = Some a \<and> map_of r k = Some b \<and> same a b)"
    by (cases "map_of l k"; cases "map_of r k") auto
qed

lemma difference_None:
  "value_difference v w p = None \<longleftrightarrow> same v w"
  "set ks \<subseteq> set (all_keys l r) \<Longrightarrow>
    entry_difference l r ks p = None \<longleftrightarrow> (\<forall>k \<in> set ks. rel_option same (map_of l k) (map_of r k))"
  "length xs = length ys \<Longrightarrow> item_difference xs ys i p = None \<longleftrightarrow> list_all2 same xs ys"
proof (induction v w p and l r ks p and xs ys i p rule: value_difference_entry_difference_item_difference.induct)
  case (1 l r p)
  have "rel_option same (map_of l k) (map_of r k)" if "k \<notin> set (all_keys l r)" for k
  proof -
    have "map_of l k = None" "map_of r k = None"
      using that by (auto simp: all_keys_def map_of_eq_None_iff)
    then show ?thesis by simp
  qed
  then show ?case using 1 by (auto simp: same_dict)
next
  case (4 l r k ks p)
  then have "k \<in> set (all_keys l r)" "set ks \<subseteq> set (all_keys l r)" by auto
  note step = entry_step [OF this(1)] and rest = this(2)
  show ?case
  proof (cases "map_of l k = None \<or> map_of r k = None")
    case True
    then show ?thesis unfolding step(1) by (auto simp: step(2))
  next
    case False
    then obtain a b where ab: "map_of l k = Some a" "map_of r k = Some b" by auto
    show ?thesis
    proof (cases "value_difference a b (next_path p k)")
      case None
      have same: "same a b" using "4.IH"(1) [OF ab] None by simp
      have "entry_difference l r (k # ks) p = entry_difference l r ks p" using None ab by simp
      also have "\<dots> = None \<longleftrightarrow> (\<forall>k \<in> set ks. rel_option same (map_of l k) (map_of r k))"
        by (rule "4.IH"(2) [OF ab None rest])
      finally show ?thesis using same ab by simp
    next
      case (Some d)
      then have "\<not> same a b" using "4.IH"(1) [OF ab] by simp
      with Some ab show ?thesis by (auto simp: step(1))
    qed
  qed
qed (auto simp: not_both_dicts dest: list_all2_lengthD split: option.splits)

text \<open>The first of the sorted keys whose values differ is the one reported.\<close>

definition agree_at :: "pydict \<Rightarrow> pydict \<Rightarrow> string \<Rightarrow> bool" where
  "agree_at l r k = (case (map_of l k, map_of r k) of
      (Some a, Some b) \<Rightarrow> value_difference a b [] = None
    | (Some a, None) \<Rightarrow> False
    | (None, Some b) \<Rightarrow> False
    | (None, None) \<Rightarrow> True)"

lemma agree_at_same: "agree_at l r k \<longleftrightarrow> rel_option same (map_of l k) (map_of r k)"
  by (auto simp: agree_at_def difference_None(1) split: option.splits)

lemma entry_difference_first:
  assumes "entry_difference l r ks p = Some d" and "set ks \<subseteq> set (all_keys l r)"
  obtains ks1 k ks2 where "ks = ks1 @ k # ks2"
    and "list_all (agree_at l r) ks1" and "\<not> agree_at l r k"
    and "entry_difference l r [k] p = Some d"
  using assms
proof (induction ks arbitrary: thesis)
  case Nil
  then show ?case by simp
next
  case (Cons k ks)
  then have k: "k \<in> set (all_keys l r)" and ks: "set ks \<subseteq> set (all_keys l r)" by auto
  show ?case
  proof (cases "agree_at l r k")
    case True
    then obtain a b where ab: "map_of l k = Some a" "map_of r k = Some b" "same a b"
      using k by (auto simp: agree_at_same entry_step(2))
    then have "value_difference a b (next_path p k) = None" by (simp add: difference_None(1))
    with ab Cons.prems(2) have "entry_difference l r ks p = Some d" by simp
    from Cons.IH [OF _ this ks] obtain ks1 j ks2 where *: "ks = ks1 @ j # ks2"
        "list_all (agree_at l r) ks1" "\<not> agree_at l r j" "entry_difference l r [j] p = Some d"
      by blast
    show ?thesis
      by (rule Cons.prems(1) [of "k # ks1" j ks2]) (use * True in simp_all)
  next
    case False
    then have "entry_difference l r [k] p \<noteq> None"
      by (simp add: difference_None(2) [of "[k]"] k agree_at_same del: entry_difference.simps)
    moreover have "entry_difference l r [k] p = Some d \<or> entry_difference l r [k] p = None"
      using Cons.prems(2) by (auto split: option.splits)
    ultimately show ?thesis
      by (intro Cons.prems(1) [of "[]" k ks]) (use False in auto)
  qed
qed

section \<open>Equality of any two values\<close>

fun py_eq :: "pyval \<Rightarrow> pyval \<Rightarrow> bool" where
  "py_eq (PDict l) (PDict r) =
     (length l = length r \<and>
      list_all (\<lambda>(k, a). case map_of r k of None \<Rightarrow> False | Some b \<Rightarrow> py_eq a b) l)"
| "py_eq (PList xs) (PList ys) = list_all2 py_eq xs ys"
| "py_eq (PTuple xs) (PTuple ys) = list_all2 py_eq xs ys"
| "py_eq v w = scalar_eq v w"

section \<open>The requests of two replays\<close>

text \<open>\<open>d.get(k, v)\<close>.\<close>

definition get_or :: "pydict \<Rightarrow> string \<Rightarrow> pyval \<Rightarrow> pyval" where
  "get_or d k v = (case map_of d k of None \<Rightarrow> v | Some w \<Rightarrow> w)"

fun type_name :: "pyval \<Rightarrow> string" where
  "type_name PNone = ''NoneType''"
| "type_name (PBool b) = ''bool''"
| "type_name (PInt i) = ''int''"
| "type_name (PFloat t) = ''float''"
| "type_name (PStr s) = ''str''"
| "type_name (PList xs) = ''list''"
| "type_name (PTuple xs) = ''tuple''"
| "type_name (PDict d) = ''dict''"
| "type_name (POpaque t) = t"

fun candidate_identity :: "pyval \<Rightarrow> pyval" where
  "candidate_identity (PDict c) = PDict
     [(''candidate_id'', dict_get c ''candidate_id''),
      (''card_ref'', dict_get c ''card_ref''),
      (''effect_ref'', dict_get c ''effect_ref''),
      (''kind'', dict_get c ''kind''),
      (''payload'', get_or c ''payload'' (PDict []))]"
| "candidate_identity v = v"

definition request_signature_identity :: "pydict \<Rightarrow> pydict" where
  "request_signature_identity request =
    [(''candidates'', PList (case get_or request ''candidates'' (PList []) of
        PList cs \<Rightarrow> map candidate_identity cs | _ \<Rightarrow> [])),
     (''constraints'', dict_get request ''constraints''),
     (''context'', dict_get request ''context''),
     (''player'', dict_get request ''player''),
     (''request_schema_version'', get_or request ''request_schema_version'' (PStr REQUEST_SCHEMA_VERSION)),
     (''request_type'', dict_get request ''request_type'')]"

text \<open>\<open>RequestDifference\<close>: a missing entry is written as the text \<open><missing>\<close>.\<close>

definition or_missing :: "pyval option \<Rightarrow> pyval" where
  "or_missing v = (case v of None \<Rightarrow> PStr ''<missing>'' | Some w \<Rightarrow> w)"

definition first_canonical_difference :: "pyval \<Rightarrow> pyval \<Rightarrow> (string \<times> pyval \<times> pyval) option" where
  "first_canonical_difference recorded current =
    map_option (\<lambda>(path, a, b). (path, or_missing a, or_missing b)) (value_difference recorded current [])"

definition first_request_difference :: "pydict \<Rightarrow> pydict \<Rightarrow> (string \<times> pyval \<times> pyval) option" where
  "first_request_difference recorded current =
    first_canonical_difference (PDict (request_signature_identity recorded))
      (PDict (request_signature_identity current))"

definition request_mismatch :: "nat \<Rightarrow> pyval \<Rightarrow> pyval \<Rightarrow> pyval \<Rightarrow> pyval \<Rightarrow> py_error" where
  "request_mismatch step recorded_signature current_signature recorded_request current_request =
    (let difference = (case (recorded_request, current_request) of
           (PDict r, PDict c) \<Rightarrow> first_request_difference r c
         | _ \<Rightarrow> None);
         (path, recorded, current) =
           (case difference of
              None \<Rightarrow> (''request_signature'', recorded_signature, current_signature)
            | Some d \<Rightarrow> d)
     in ReplaySignatureMismatch
          (''replay request_signature mismatch at step '' @ str_nat step @ ''; first difference at '' @ path @
           '': recorded='' @ py_repr recorded @ '', current='' @ py_repr current)
          (Some (int step)) (Some path) recorded current)"

text \<open>\<open>event.get\<close> on an event that is not a mapping is an \<open>AttributeError\<close>.\<close>

fun as_event :: "pyval \<Rightarrow> py_error + pydict" where
  "as_event (PDict d) = Inr d"
| "as_event v = Inl (AttributeError (repr_str (type_name v) @ '' object has no attribute '' @ repr_str ''get''))"

fun compare_events :: "nat \<Rightarrow> pyval list \<Rightarrow> pyval list \<Rightarrow> py_error + unit" where
  "compare_events step (r # rs) (c # cs) =
     sbind (as_event r) (\<lambda>recorded.
     sbind (as_event c) (\<lambda>current.
     if py_eq (dict_get recorded ''request_signature'') (dict_get current ''request_signature'')
     then compare_events (Suc step) rs cs
     else Inl (request_mismatch step
       (dict_get recorded ''request_signature'') (dict_get current ''request_signature'')
       (dict_get recorded ''request'') (dict_get current ''request''))))"
| "compare_events step rs cs = Inr ()"

definition assert_replay_request_signatures :: "pydict \<Rightarrow> pydict \<Rightarrow> py_error + unit" where
  "assert_replay_request_signatures recorded_replay current_replay =
    (case (dict_get recorded_replay ''events'', dict_get current_replay ''events'') of
       (PList rs, PList cs) \<Rightarrow>
         if length rs \<noteq> length cs
         then Inl (ReplaySignatureMismatch
           (''replay request count mismatch: recorded='' @ str_nat (length rs) @ '', current='' @
            str_nat (length cs)) None (Some ''events.length'')
           (PInt (int (length rs))) (PInt (int (length cs))))
         else compare_events 0 rs cs
     | (r, c) \<Rightarrow> Inl (ReplaySignatureMismatch ''replay events must be lists before request verification''
         None (Some ''events'') (PStr (type_name r)) (PStr (type_name c))))"

section \<open>Facts about the walk and the check\<close>

text \<open>The path of a difference extends the path of the values compared.\<close>

lemma difference_path:
  "value_difference v w p = Some (q, a, b) \<Longrightarrow> take (length p) q = p"
  "entry_difference l r ks p = Some (q, a, b) \<Longrightarrow> take (length p) q = p"
  "item_difference xs ys i p = Some (q, a, b) \<Longrightarrow> take (length p) q = p"
proof (induction v w p and l r ks p and xs ys i p arbitrary: q a b and q a b and q a b
    rule: value_difference_entry_difference_item_difference.induct)
  case (4 l r k ks p)
  have next_path: "take (length p) (next_path p k) = p" by (simp add: next_path_def)
  have extends: "take (length p) q = p" if "take (length (next_path p k)) q = next_path p k" for q
    using next_path that by (metis min_absorb1 take_take length_append le_add1 next_path_def list.size(3) zero_le)
  show ?case
    using 4 next_path extends by (auto split: option.splits)
next
  case (5 x xs y ys i p)
  have "take (length p) q = p" if "take (length (item_path p i)) q = item_path p i" for q
    using that by (metis append_eq_conv_conj append.assoc item_path_def append_take_drop_id)
  with 5 show ?case by (auto split: option.splits)
qed (auto split: if_splits)

fun event_matches :: "pyval \<Rightarrow> pyval \<Rightarrow> bool" where
  "event_matches (PDict r) (PDict c) =
     py_eq (dict_get r ''request_signature'') (dict_get c ''request_signature'')"
| "event_matches r c = False"

lemma as_event_Inr: "as_event v = Inr d \<longleftrightarrow> v = PDict d"
  by (cases v) auto

lemma compare_event_step:
  "compare_events n (r # rs) (c # cs) =
    (if event_matches r c then compare_events (Suc n) rs cs
     else Inl (case (r, c) of
         (PDict r', PDict c') \<Rightarrow> request_mismatch n
           (dict_get r' ''request_signature'') (dict_get c' ''request_signature'')
           (dict_get r' ''request'') (dict_get c' ''request'')
       | (PDict r', _) \<Rightarrow> projl (as_event c)
       | _ \<Rightarrow> projl (as_event r)))"
  by (cases r; cases c) simp_all

lemma compare_events_Inr:
  "length rs = length cs \<Longrightarrow> compare_events n rs cs = Inr () \<longleftrightarrow> list_all2 event_matches rs cs"
  by (induction rs cs arbitrary: n rule: list_induct2)
    (simp_all add: compare_event_step del: compare_events.simps(1))

lemma compare_events_step_found:
  assumes "compare_events n rs cs = Inl (ReplaySignatureMismatch m (Some i) path a b)"
  obtains j where "i = int (n + j)" and "j < length rs" and "j < length cs"
    and "list_all2 event_matches (take j rs) (take j cs)" and "\<not> event_matches (rs ! j) (cs ! j)"
  using assms
proof (induction n rs cs arbitrary: thesis rule: compare_events.induct)
  case (1 n r rs c cs)
  show ?case
  proof (cases "event_matches r c")
    case True
    then obtain r' c' where rc: "r = PDict r'" "c = PDict c'" by (cases r; cases c) auto
    with True "1.prems"(2) have "compare_events (Suc n) rs cs = Inl (ReplaySignatureMismatch m (Some i) path a b)"
      by simp
    with rc True "1.IH" obtain j where "i = int (Suc n + j)" "j < length rs" "j < length cs"
        "list_all2 event_matches (take j rs) (take j cs)" "\<not> event_matches (rs ! j) (cs ! j)"
      by auto
    then show ?thesis using True by (intro "1.prems"(1) [of "Suc j"]) simp_all
  next
    case False
    with "1.prems"(2) have "i = int n"
      by (cases r; cases c) (auto simp: request_mismatch_def Let_def split: option.splits prod.splits)
    then show ?thesis using False by (intro "1.prems"(1) [of 0]) simp_all
  qed
qed auto

lemma first_key_path: "entry_difference l r [k] [] = Some (path, a, b) \<Longrightarrow> \<exists>rest. path = k @ rest"
proof -
  assume *: "entry_difference l r [k] [] = Some (path, a, b)"
  have "\<exists>rest. q = k @ rest" if "take (length k) q = k" for q
    using that by (metis append_take_drop_id)
  with * show ?thesis
    using difference_path(1) [where p = "next_path [] k"]
    by (fastforce simp: next_path_def split: option.splits)
qed

lemma request_check_cases:
  "case assert_replay_request_signatures recorded current of
     Inr u \<Rightarrow> \<exists>rs cs. dict_get recorded ''events'' = PList rs \<and> dict_get current ''events'' = PList cs \<and>
       list_all2 event_matches rs cs
   | Inl err \<Rightarrow>
       \<not> (\<exists>rs cs. dict_get recorded ''events'' = PList rs \<and> dict_get current ''events'' = PList cs \<and>
         list_all2 event_matches rs cs) \<and>
       (case err of
          ReplaySignatureMismatch m (Some i) path a b \<Rightarrow>
            \<exists>rs cs j. dict_get recorded ''events'' = PList rs \<and> dict_get current ''events'' = PList cs \<and>
              i = int j \<and> j < length rs \<and> j < length cs \<and>
              list_all2 event_matches (take j rs) (take j cs) \<and> \<not> event_matches (rs ! j) (cs ! j)
        | _ \<Rightarrow> True)"
proof (cases "\<exists>rs cs. dict_get recorded ''events'' = PList rs \<and> dict_get current ''events'' = PList cs \<and>
    length rs = length cs")
  case True
  then obtain rs cs where rc: "dict_get recorded ''events'' = PList rs" "dict_get current ''events'' = PList cs"
      "length rs = length cs" by blast
  then have eq: "assert_replay_request_signatures recorded current = compare_events 0 rs cs"
    by (simp add: assert_replay_request_signatures_def)
  show ?thesis
  proof (cases "compare_events 0 rs cs")
    case (Inr u)
    then show ?thesis using rc compare_events_Inr [of rs cs 0] by (simp add: eq)
  next
    case (Inl err)
    then have "\<not> list_all2 event_matches rs cs" using rc compare_events_Inr [of rs cs 0] by auto
    moreover have "\<exists>j. i = int j \<and> j < length rs \<and> j < length cs \<and>
        list_all2 event_matches (take j rs) (take j cs) \<and> \<not> event_matches (rs ! j) (cs ! j)"
      if "err = ReplaySignatureMismatch m (Some i) path a b" for m i path a b
      using compare_events_step_found [of 0 rs cs m i path a b] Inl that by (metis add_0)
    ultimately show ?thesis
      using rc by (simp add: eq Inl split: py_error.split option.split) blast
  qed
next
  case False
  then show ?thesis
    by (cases "dict_get recorded ''events''"; cases "dict_get current ''events''")
      (auto simp: assert_replay_request_signatures_def dest: list_all2_lengthD)
qed

end
