(* ===== verification/Canonical_Dicts.thy ===== *)
theory Canonical_Dicts
  imports Canonical
begin

text \<open>
  Dictionaries a routine builds with its keys written in order: their canonical form keeps the
  entries in place, so that what \<open>to_dict\<close> writes is what \<open>from_dict\<close> reads. Shared by the replay
  manifest and the prefix cache.
\<close>

named_theorems key_order \<open>key lists that are sorted as written\<close>

definition canonical_entries :: "pydict \<Rightarrow> pydict" where
  "canonical_entries d = sort_key fst (map (map_prod id to_canonical_data) d)"

lemma canonical_PDict: "to_canonical_data (PDict d) = PDict (canonical_entries d)"
  by (simp add: canonical_entries_def)

text \<open>Sorting is stable, so a lookup finds the same entry even when a key is repeated.\<close>

lemma map_of_insort: "map_of (insort_key fst (k, v) d) = (map_of d)(k \<mapsto> v)"
  by (induction d) (auto simp: fun_eq_iff)

lemma map_of_sort [simp]: "map_of (sort_key fst d) = map_of d"
  by (induction d) (auto simp: map_of_insort)

lemma map_of_map_prod: "map_of (map (map_prod id f) d) k = map_option f (map_of d k)"
  by (induction d) auto

lemma map_of_canonical_entries [simp]:
  "map_of (canonical_entries d) k = map_option to_canonical_data (map_of d k)"
  by (simp add: canonical_entries_def map_of_map_prod)

lemma dict_get_canonical [simp]: "dict_get (canonical_entries d) k = to_canonical_data (dict_get d k)"
  by (simp add: dict_get_def split: option.split)

lemma canonical_scalars [simp]:
  "to_canonical_data v = PNone \<longleftrightarrow> v = PNone"
  "to_canonical_data v = PBool b \<longleftrightarrow> v = PBool b"
  "to_canonical_data v = PStr s \<longleftrightarrow> v = PStr s"
  "to_canonical_data v = PInt i \<longleftrightarrow> v = PInt i"
  by (cases v; simp)+

lemma canonical_entries_sorted:
  "sorted (map fst d) \<Longrightarrow> canonical_entries d = map (map_prod id to_canonical_data) d"
  by (simp add: canonical_entries_def sort_key_id_if_sorted comp_def)

lemma canonical_entries_idem [simp]: "canonical_entries (canonical_entries d) = canonical_entries d"
  using to_canonical_idem [of "PDict d"] by (simp only: canonical_PDict pyval.inject)

lemma keys_canonical_entries [simp]: "fst ` set (canonical_entries d) = fst ` set d"
  by (auto simp: canonical_entries_def image_image)

lemma distinct_canonical_entries [simp]: "distinct (map fst (canonical_entries d)) = distinct (map fst d)"
proof (rule mset_eq_imp_distinct_iff)
  show "mset (map fst (canonical_entries d)) = mset (map fst d)"
    by (simp add: canonical_entries_def image_mset.compositionality comp_def)
qed

lemma dict_safe_canonical_entries [simp]: "dict_safe (canonical_entries d) = dict_safe d"
  using json_safe_canonical [of "PDict d"] unfolding canonical_PDict by simp


end
