(* ===== verification/Replay_Manifest.thy ===== *)
theory Replay_Manifest
  imports Replay_Difference Canonical_Dicts
begin

text \<open>
  \<open>engine/replay/manifest.py\<close>: the environment a replay was recorded in, what it needs to be
  reproducible, its hash, and the comparison with the environment of a playback.
\<close>

section \<open>Paths\<close>

definition REPLAY_MANIFEST_SCHEMA_VERSION :: string where
  "REPLAY_MANIFEST_SCHEMA_VERSION = ''ygo-replay-manifest-v1''"

definition RANDOM_TRACE_POLICY :: string where
  "RANDOM_TRACE_POLICY = ''raw-core-frames-and-script-log-random-events-v3''"

definition REQUIRED_PATHS :: "string list" where
  "REQUIRED_PATHS = [
     ''environment.project.replay_schema'',
     ''environment.project.bridge_protocol'',
     ''environment.project.snapshot_schema'',
     ''environment.core.api'',
     ''environment.core.lock_id'',
     ''environment.core.source_commit'',
     ''environment.core.binary_sha256'',
     ''environment.core.custom_patches'',
     ''environment.assets.lock_id'',
     ''environment.assets.card_scripts_commit'',
     ''environment.assets.card_database_commit'',
     ''environment.assets.constant_sha256'',
     ''environment.assets.utility_sha256'',
     ''environment.assets.database_sha256'',
     ''environment.instrumentation.direct_random_trace.enabled'',
     ''environment.instrumentation.direct_random_trace.script_sha256'',
     ''environment.instrumentation.direct_random_trace.schema_version'',
     ''randomness.core_seed'',
     ''randomness.python_random_used'',
     ''randomness.trace_policy'',
     ''rules.duel_flags'',
     ''rules.master_rule'',
     ''rules.forbidden_limited_list'',
     ''rules.unsafe_lua_libraries'',
     ''initial_conditions.snapshot_hash'',
     ''initial_conditions.snapshot_kind'',
     ''initial_conditions.starting_player'',
     ''initial_conditions.deck_order_in_snapshot'']"

definition SAMPLED_PRIVATE_STATE_REQUIRED_PATHS :: "string list" where
  "SAMPLED_PRIVATE_STATE_REQUIRED_PATHS = [
     ''randomness.opening_hand_sampling.schema_version'',
     ''randomness.opening_hand_sampling.sampler_id'',
     ''randomness.opening_hand_sampling.seed'',
     ''randomness.opening_hand_sampling.sampling_policy_id'',
     ''randomness.opening_hand_sampling.information_policy_id'',
     ''randomness.opening_hand_sampling.selected_index'',
     ''randomness.opening_hand_sampling.result.hands_by_player'',
     ''randomness.opening_hand_sampling.sample_id'',
     ''initial_conditions.opening_hand_kind'']"

text \<open>\<open>path.split(".")\<close> and the walk along it; \<open>None\<close> is the missing marker.\<close>

fun split_dots :: "string \<Rightarrow> string list" where
  "split_dots [] = [[]]"
| "split_dots (c # cs) =
     (if c = CHR ''.'' then [] # split_dots cs
      else (case split_dots cs of [] \<Rightarrow> [[c]] | w # ws \<Rightarrow> (c # w) # ws))"

fun walk :: "pyval \<Rightarrow> string list \<Rightarrow> pyval option" where
  "walk v [] = Some v"
| "walk (PDict d) (p # ps) = (case map_of d p of None \<Rightarrow> None | Some v \<Rightarrow> walk v ps)"
| "walk v (p # ps) = None"

definition at_path :: "pyval \<Rightarrow> string \<Rightarrow> pyval option" where
  "at_path root path = walk root (split_dots path)"

section \<open>Manifests\<close>

record replay_manifest =
  environment :: pydict
  randomness :: pydict
  rules :: pydict
  initial_conditions :: pydict
  m_schema_version :: string

definition manifest_entries :: "replay_manifest \<Rightarrow> pydict" where
  "manifest_entries m =
    [(''environment'', PDict (environment m)),
     (''initial_conditions'', PDict (initial_conditions m)),
     (''randomness'', PDict (randomness m)),
     (''rules'', PDict (rules m)),
     (''schema_version'', PStr (m_schema_version m))]"

definition manifest_identity :: "replay_manifest \<Rightarrow> pydict" where
  "manifest_identity m = canonical_entries (manifest_entries m)"

definition blank :: "pyval option \<Rightarrow> bool" where
  "blank v \<longleftrightarrow> v = None \<or> v = Some PNone \<or> v = Some (PStr [])"

definition required_paths :: "replay_manifest \<Rightarrow> string list" where
  "required_paths m = REQUIRED_PATHS @
    (if dict_get (initial_conditions m) ''snapshot_kind'' = PStr ''sampled_private_state''
     then SAMPLED_PRIVATE_STATE_REQUIRED_PATHS else [])"

definition missing_requirements :: "replay_manifest \<Rightarrow> string list" where
  "missing_requirements m =
    (let missing = filter (\<lambda>path. blank (at_path (PDict (manifest_identity m)) path)) (required_paths m);
         missing =
           (if dict_get (randomness m) ''python_random_used'' = PBool True \<and>
               dict_get (randomness m) ''python_seed'' = PNone
            then missing @ [''randomness.python_seed''] else missing)
     in if dict_get (randomness m) ''trace_policy'' \<noteq> PStr RANDOM_TRACE_POLICY \<and>
           ''randomness.trace_policy'' \<notin> set missing
        then missing @ [''randomness.trace_policy''] else missing)"

definition reproducible :: "replay_manifest \<Rightarrow> bool" where
  "reproducible m \<longleftrightarrow>
    m_schema_version m = REPLAY_MANIFEST_SCHEMA_VERSION \<and> missing_requirements m = []"

definition manifest_hash :: "replay_manifest \<Rightarrow> py_error + string" where
  "manifest_hash m = stable_digest (PDict (manifest_identity m)) ''manifest_''"

definition assert_reproducible :: "replay_manifest \<Rightarrow> py_error + unit" where
  "assert_reproducible m =
    (if m_schema_version m \<noteq> REPLAY_MANIFEST_SCHEMA_VERSION
     then Inl (ReplayManifestIncomplete
       (''unsupported replay manifest schema '' @ repr_str (m_schema_version m)))
     else if missing_requirements m \<noteq> []
     then Inl (ReplayManifestIncomplete
       (''replay manifest is not reproducible; missing: '' @ join '', '' (missing_requirements m)))
     else Inr ())"

definition manifest_to_dict :: "replay_manifest \<Rightarrow> py_error + pydict" where
  "manifest_to_dict m =
    sbind (manifest_hash m) (\<lambda>h. Inr (manifest_identity m @
      [(''manifest_hash'', PStr h),
       (''missing_requirements'', PList (map PStr (missing_requirements m))),
       (''reproducible'', PBool (reproducible m))]))"

text \<open>The two loops of \<open>from_dict\<close> over the fields: the first absent one, the first that is not a
  mapping.\<close>

fun require_fields :: "string list \<Rightarrow> pydict \<Rightarrow> py_error + unit" where
  "require_fields [] d = Inr ()"
| "require_fields (f # fs) d =
     (if map_of d f = None
      then Inl (ReplayManifestIncomplete (''replay manifest is missing '' @ repr_str f))
      else require_fields fs d)"

definition as_mapping :: "pydict \<Rightarrow> string \<Rightarrow> py_error + pydict" where
  "as_mapping d f =
    (case dict_get d f of
       PDict e \<Rightarrow> Inr e
     | _ \<Rightarrow> Inl (ReplayFormat (''replay manifest '' @ f @ '' must be a mapping'')))"

definition manifest_from_dict :: "pydict \<Rightarrow> py_error + replay_manifest" where
  "manifest_from_dict data =
    sbind (require_fields
      [''environment'', ''initial_conditions'', ''randomness'', ''rules'', ''schema_version''] data) (\<lambda>_.
    sbind (as_mapping data ''environment'') (\<lambda>env.
    sbind (as_mapping data ''initial_conditions'') (\<lambda>ini.
    sbind (as_mapping data ''randomness'') (\<lambda>ran.
    sbind (as_mapping data ''rules'') (\<lambda>rul.
    let m = \<lparr>environment = env, randomness = ran, rules = rul, initial_conditions = ini,
             m_schema_version = py_str (dict_get data ''schema_version'')\<rparr>;
        supplied = dict_get data ''manifest_hash''
    in if supplied = PNone then Inr m
       else sbind (manifest_hash m) (\<lambda>h.
         if supplied \<noteq> PStr h
         then Inl (ReplayFormat ''replay manifest hash does not match its identity fields'')
         else Inr m))))))"

section \<open>Comparison\<close>

text \<open>
  The walk of \<open>first_manifest_difference\<close> is the one of the verifier, except that it descends into
  lists only: an identity is canonical and holds no tuples.
\<close>

definition first_manifest_difference :: "replay_manifest \<Rightarrow> replay_manifest \<Rightarrow> difference option" where
  "first_manifest_difference recorded current =
    value_difference (PDict (manifest_identity recorded)) (PDict (manifest_identity current)) []"

definition assert_manifest_matches :: "replay_manifest \<Rightarrow> replay_manifest \<Rightarrow> py_error + unit" where
  "assert_manifest_matches recorded current =
    sbind (assert_reproducible recorded) (\<lambda>_.
    sbind (assert_reproducible current) (\<lambda>_.
    case first_manifest_difference recorded current of
      None \<Rightarrow> Inr ()
    | Some (path, a, b) \<Rightarrow> Inl (ReplayEnvironmentMismatch path (or_missing a) (or_missing b))))"

section \<open>Facts about manifests\<close>

lemma manifest_keys_sorted: "sorted (map fst (manifest_entries m))"
  by (simp add: manifest_entries_def)

lemma manifest_identity_eq:
  "manifest_identity m =
    [(''environment'', PDict (canonical_entries (environment m))),
     (''initial_conditions'', PDict (canonical_entries (initial_conditions m))),
     (''randomness'', PDict (canonical_entries (randomness m))),
     (''rules'', PDict (canonical_entries (rules m))),
     (''schema_version'', PStr (m_schema_version m))]"
  unfolding manifest_identity_def canonical_entries_sorted [OF manifest_keys_sorted]
  by (simp add: manifest_entries_def canonical_PDict del: to_canonical_data.simps(8))

text \<open>A manifest with its dictionaries in canonical form: what a written manifest reads back as.\<close>

definition canonical_manifest :: "replay_manifest \<Rightarrow> replay_manifest" where
  "canonical_manifest m =
    \<lparr>environment = canonical_entries (environment m), randomness = canonical_entries (randomness m),
     rules = canonical_entries (rules m), initial_conditions = canonical_entries (initial_conditions m),
     m_schema_version = m_schema_version m\<rparr>"

lemma identity_canonical_manifest [simp]: "manifest_identity (canonical_manifest m) = manifest_identity m"
  by (simp add: manifest_identity_eq canonical_manifest_def)

lemma missing_canonical_manifest [simp]:
  "missing_requirements (canonical_manifest m) = missing_requirements m"
  by (simp add: missing_requirements_def required_paths_def) (simp add: canonical_manifest_def)

lemma hash_canonical_manifest [simp]: "manifest_hash (canonical_manifest m) = manifest_hash m"
  by (simp add: manifest_hash_def)

lemma reproducible_canonical_manifest [simp]: "reproducible (canonical_manifest m) = reproducible m"
  by (simp add: reproducible_def) (simp add: canonical_manifest_def)

lemma missing_requirements_Nil:
  "missing_requirements m = [] \<longleftrightarrow>
    list_all (\<lambda>path. \<not> blank (at_path (PDict (manifest_identity m)) path)) (required_paths m) \<and>
    (dict_get (randomness m) ''python_random_used'' = PBool True \<longrightarrow>
       dict_get (randomness m) ''python_seed'' \<noteq> PNone) \<and>
    dict_get (randomness m) ''trace_policy'' = PStr RANDOM_TRACE_POLICY"
  by (auto simp: missing_requirements_def Let_def filter_empty_conv list_all_iff)

lemma distinct_required_paths: "distinct (required_paths m)"
proof -
  have "distinct (REQUIRED_PATHS @ SAMPLED_PRIVATE_STATE_REQUIRED_PATHS)"
    unfolding REQUIRED_PATHS_def SAMPLED_PRIVATE_STATE_REQUIRED_PATHS_def by code_simp
  then show ?thesis by (simp add: required_paths_def)
qed

lemma seed_not_required: "''randomness.python_seed'' \<notin> set (required_paths m)"
  by (simp add: required_paths_def REQUIRED_PATHS_def SAMPLED_PRIVATE_STATE_REQUIRED_PATHS_def)

lemma distinct_missing_requirements: "distinct (missing_requirements m)"
  using distinct_required_paths [of m] seed_not_required [of m]
  by (simp add: missing_requirements_def Let_def)

lemma assert_reproducible_Inr: "assert_reproducible m = Inr u \<longleftrightarrow> reproducible m"
  by (simp add: assert_reproducible_def reproducible_def)

lemma manifest_hash_total: "(\<exists>h. manifest_hash m = Inr h) \<longleftrightarrow>
    dict_safe (environment m) \<and> dict_safe (randomness m) \<and> dict_safe (rules m) \<and>
    dict_safe (initial_conditions m)"
  by (auto simp: manifest_hash_def stable_digest_total manifest_identity_eq)

lemma require_fields_Inr: "require_fields fs d = Inr u \<longleftrightarrow> (\<forall>f \<in> set fs. map_of d f \<noteq> None)"
  by (induction fs) auto

lemma manifest_roundtrip_eq:
  assumes "manifest_to_dict m = Inr d"
  shows "manifest_from_dict d = Inr (canonical_manifest m)"
proof -
  obtain h where h: "manifest_hash m = Inr h" and d: "d = manifest_identity m @
      [(''manifest_hash'', PStr h),
       (''missing_requirements'', PList (map PStr (missing_requirements m))),
       (''reproducible'', PBool (reproducible m))]"
    using assms by (auto simp: manifest_to_dict_def monad_simps)
  have "\<lparr>environment = canonical_entries (environment m), randomness = canonical_entries (randomness m),
      rules = canonical_entries (rules m), initial_conditions = canonical_entries (initial_conditions m),
      m_schema_version = m_schema_version m\<rparr> = canonical_manifest m"
    by (simp add: canonical_manifest_def)
  then show ?thesis
    using h by (simp add: manifest_from_dict_def d manifest_identity_eq as_mapping_def)
qed

lemma manifest_from_dict_hash:
  assumes "manifest_from_dict d = Inr m" and "dict_get d ''manifest_hash'' \<noteq> PNone"
  shows "\<exists>h. manifest_hash m = Inr h \<and> dict_get d ''manifest_hash'' = PStr h"
  using assms by (auto simp: manifest_from_dict_def Let_def monad_simps split: if_splits)

lemma manifest_matches_Inr:
  "assert_manifest_matches r c = Inr u \<longleftrightarrow>
    reproducible r \<and> reproducible c \<and> same (PDict (manifest_identity r)) (PDict (manifest_identity c))"
  by (auto simp: assert_manifest_matches_def first_manifest_difference_def monad_simps
      assert_reproducible_Inr difference_None(1) [symmetric, where p = "[]"] split: option.splits)

end
