(* ===== verification/Cache_Model.thy ===== *)
theory Cache_Model
  imports Replay_Manifest
begin

text \<open>
  The data of \<open>engine/search/cache.py\<close>: the policy of the prefix cache, the key of a replay prefix,
  and the entry recorded for it, each with its constructor, its \<open>from_dict\<close> and its \<open>to_dict\<close>. The
  constructors take dynamic values, as the dataclasses do; the records hold the checked ones. The
  schema version of a constructed object is the constant its \<open>__post_init__\<close> demands, \<open>replay_verified\<close>
  is \<open>True\<close> and the reuse mode is the only one there is, so the records do not repeat them.
\<close>

definition PREFIX_CACHE_POLICY_SCHEMA_VERSION :: string where
  "PREFIX_CACHE_POLICY_SCHEMA_VERSION = ''prefix-cache-policy-v1''"
definition PREFIX_CACHE_KEY_SCHEMA_VERSION :: string where
  "PREFIX_CACHE_KEY_SCHEMA_VERSION = ''replay-prefix-cache-key-v1''"
definition PREFIX_CACHE_ENTRY_SCHEMA_VERSION :: string where
  "PREFIX_CACHE_ENTRY_SCHEMA_VERSION = ''replay-prefix-cache-entry-v1''"
definition PREFIX_CACHE_INDEX_SCHEMA_VERSION :: string where
  "PREFIX_CACHE_INDEX_SCHEMA_VERSION = ''replay-prefix-cache-index-v1''"
definition PREFIX_CACHE_VERIFICATION_SCHEMA_VERSION :: string where
  "PREFIX_CACHE_VERIFICATION_SCHEMA_VERSION = ''prefix-cache-verification-v1''"
definition PREFIX_CACHE_RUN_METADATA_SCHEMA_VERSION :: string where
  "PREFIX_CACHE_RUN_METADATA_SCHEMA_VERSION = ''prefix-cache-run-metadata-v1''"

section \<open>Checks of arguments\<close>

definition check_string :: "pyval \<Rightarrow> string \<Rightarrow> py_error + string" where
  "check_string v path =
    (case v of
       PStr s \<Rightarrow> if s = [] then Inl (ValueError (path @ '' must be a non-empty string'')) else Inr s
     | _ \<Rightarrow> Inl (ValueError (path @ '' must be a non-empty string'')))"

definition require_positive :: "pyval \<Rightarrow> string \<Rightarrow> py_error + int" where
  "require_positive v path =
    (case v of
       PInt i \<Rightarrow> if i < 1 then Inl (ValueError (path @ '' must be an integer >= 1'')) else Inr i
     | _ \<Rightarrow> Inl (ValueError (path @ '' must be an integer >= 1'')))"

definition require_non_negative :: "pyval \<Rightarrow> string \<Rightarrow> py_error + int" where
  "require_non_negative v path =
    (case v of
       PInt i \<Rightarrow> if i < 0 then Inl (ValueError (path @ '' must be an integer >= 0'')) else Inr i
     | _ \<Rightarrow> Inl (ValueError (path @ '' must be an integer >= 0'')))"

text \<open>
  Every identity this module hashes itself is built of strings, integers and booleans, for which
  \<open>json.dumps\<close> always returns: \<open>json_text\<close> and \<open>safe_digest\<close> are \<open>canonical_json\<close> and
  \<open>stable_digest\<close> there (\<open>json_text_eq\<close>, \<open>safe_digest_eq\<close> below).
\<close>

definition json_text :: "pydict \<Rightarrow> string" where
  "json_text d = projr (canonical_json (PDict d))"

definition safe_digest :: "pydict \<Rightarrow> string \<Rightarrow> string" where
  "safe_digest d prefix = projr (stable_digest (PDict d) prefix)"

lemma json_text_eq: "dict_safe d \<Longrightarrow> canonical_json (PDict d) = Inr (json_text d)"
  using canonical_json_total [of "PDict d"] by (auto simp: json_text_def)

lemma safe_digest_eq: "dict_safe d \<Longrightarrow> stable_digest (PDict d) prefix = Inr (safe_digest d prefix)"
  using stable_digest_total [of "PDict d" prefix] by (auto simp: safe_digest_def)

section \<open>Policy\<close>

datatype persistence_mode = PERSIST_DISABLED | PERSIST_INDEX_ONLY

fun persistence_value :: "persistence_mode \<Rightarrow> string" where
  "persistence_value PERSIST_DISABLED = ''disabled''"
| "persistence_value PERSIST_INDEX_ONLY = ''index_only''"

definition persistence_of :: "pyval \<Rightarrow> py_error + persistence_mode" where
  "persistence_of v =
    (case find (\<lambda>m. PStr (persistence_value m) = v) [PERSIST_DISABLED, PERSIST_INDEX_ONLY] of
       None \<Rightarrow> Inl (ValueError (py_repr v @ '' is not a valid CachePersistenceMode''))
     | Some m \<Rightarrow> Inr m)"

record cache_policy =
  max_entries :: int
  max_bytes :: int
  max_entry_bytes :: int
  persistence :: persistence_mode
  flush_every :: int

definition make_policy ::
  "pyval \<Rightarrow> pyval \<Rightarrow> pyval \<Rightarrow> pyval \<Rightarrow> pyval \<Rightarrow> pyval \<Rightarrow> py_error + cache_policy"
where
  "make_policy entries bytes entry_bytes mode flush schema =
    sbind (require_positive entries ''max_entries'') (\<lambda>n.
    sbind (require_positive bytes ''max_bytes'') (\<lambda>b.
    sbind (require_positive entry_bytes ''max_entry_bytes'') (\<lambda>eb.
    sbind (require_positive flush ''flush_every_mutations'') (\<lambda>f.
    if eb > b then Inl (ValueError ''max_entry_bytes must not exceed max_bytes'')
    else
    sbind (persistence_of mode) (\<lambda>m.
    if schema \<noteq> PStr PREFIX_CACHE_POLICY_SCHEMA_VERSION
    then Inl (ValueError ''unsupported prefix cache policy schema'')
    else Inr \<lparr>max_entries = n, max_bytes = b, max_entry_bytes = eb, persistence = m,
           flush_every = f\<rparr>)))))"

definition policy_fields :: "string list" where
  "policy_fields = [''flush_every_mutations'', ''max_bytes'', ''max_entries'', ''max_entry_bytes'',
     ''persistence_mode'']"

text \<open>\<open>cls(**dict(value))\<close>: an absent field takes its default.\<close>

definition policy_from_mapping :: "pyval \<Rightarrow> py_error + cache_policy" where
  "policy_from_mapping v =
    (case v of
       PDict d \<Rightarrow>
         let unknown = sort (filter (\<lambda>k. k \<notin> set policy_fields) (remdups (map fst d))) in
         if unknown \<noteq> []
         then Inl (ValueError (''unknown prefix cache policy fields: '' @ repr_strs unknown))
         else make_policy (get_or d ''max_entries'' (PInt 4096))
           (get_or d ''max_bytes'' (PInt (16 * 1024 * 1024)))
           (get_or d ''max_entry_bytes'' (PInt (64 * 1024)))
           (get_or d ''persistence_mode'' (PStr ''index_only''))
           (get_or d ''flush_every_mutations'' (PInt 1000))
           (PStr PREFIX_CACHE_POLICY_SCHEMA_VERSION)
     | _ \<Rightarrow> Inl (ValueError ''prefix cache policy must be a mapping''))"

definition mapping_or :: "pyval \<Rightarrow> string \<Rightarrow> py_error + pydict" where
  "mapping_or v what =
    (case v of PDict d \<Rightarrow> Inr d | _ \<Rightarrow> Inl (ValueError (what @ '' must be a mapping'')))"

definition policy_from_experiment :: "pydict \<Rightarrow> py_error + cache_policy" where
  "policy_from_experiment experiment =
    sbind (mapping_or (dict_get experiment ''search'') ''experiment.search'') (\<lambda>search.
    sbind (mapping_or (get_or search ''parameters'' (PDict [])) ''search.parameters'') (\<lambda>parameters.
    sbind (mapping_or (get_or parameters ''performance'' (PDict []))
      ''search.parameters.performance'') (\<lambda>performance.
    sbind (mapping_or (get_or performance ''prefix_cache'' (PDict []))
      ''search.parameters.performance.prefix_cache'') (\<lambda>prefix_cache.
    policy_from_mapping (PDict prefix_cache)))))"

definition policy_identity :: "cache_policy \<Rightarrow> pydict" where
  "policy_identity p = canonical_entries
    [(''flush_every_mutations'', PInt (flush_every p)),
     (''max_bytes'', PInt (max_bytes p)),
     (''max_entries'', PInt (max_entries p)),
     (''max_entry_bytes'', PInt (max_entry_bytes p)),
     (''persistence_mode'', PStr (persistence_value (persistence p))),
     (''schema_version'', PStr PREFIX_CACHE_POLICY_SCHEMA_VERSION)]"

definition policy_id :: "cache_policy \<Rightarrow> string" where
  "policy_id p = safe_digest (policy_identity p) ''prefixpol_''"

definition policy_to_dict :: "cache_policy \<Rightarrow> pydict" where
  "policy_to_dict p = policy_identity p @ [(''policy_id'', PStr (policy_id p))]"

definition policy_from_dict :: "pydict \<Rightarrow> py_error + cache_policy" where
  "policy_from_dict d =
    (if dict_get d ''schema_version'' \<noteq> PStr PREFIX_CACHE_POLICY_SCHEMA_VERSION
     then Inl (ValueError ''unsupported prefix cache policy schema'')
     else
     sbind (policy_from_mapping (PDict (AList.delete ''schema_version'' (AList.delete ''policy_id'' d)))) (\<lambda>p.
     if dict_get d ''policy_id'' \<noteq> PStr (policy_id p)
     then Inl (ValueError ''prefix cache policy_id does not match content'')
     else Inr p))"

text \<open>\<open>build_prefix_cache_run_metadata\<close>; the policy it is given is one.\<close>

definition run_metadata :: "cache_policy \<Rightarrow> pyval \<Rightarrow> pyval \<Rightarrow> pyval \<Rightarrow> py_error + pydict" where
  "run_metadata p pool_size per_worker main_process =
    sbind (require_positive pool_size ''pool_size'') (\<lambda>n.
    sbind (require_positive per_worker ''per_worker_budget_bytes'') (\<lambda>w.
    sbind (require_non_negative main_process ''main_process_budget_bytes'') (\<lambda>m.
    let identity = canonical_entries
      [(''memory_budget'', PDict
         [(''cache_bytes'', PInt (max_bytes p)),
          (''main_process_bytes'', PInt m),
          (''per_worker_bytes'', PInt w),
          (''total_bytes'', PInt (m + max_bytes p + n * w)),
          (''worker_pool_bytes'', PInt (n * w))]),
       (''policy'', PDict (policy_to_dict p)),
       (''pool_size'', PInt n),
       (''schema_version'', PStr PREFIX_CACHE_RUN_METADATA_SCHEMA_VERSION)]
    in Inr (identity @ [(''metadata_id'', PStr (safe_digest identity ''prefixrun_''))]))))"

section \<open>Keys\<close>

record prefix_key =
  k_manifest_hash :: string
  k_initial_snapshot_hash :: string
  k_replay_schema_version :: string
  k_prefix_length :: int
  k_prefix_digest :: string

definition make_key ::
  "pyval \<Rightarrow> pyval \<Rightarrow> pyval \<Rightarrow> pyval \<Rightarrow> pyval \<Rightarrow> pyval \<Rightarrow> py_error + prefix_key"
where
  "make_key manifest snapshot_hash schema len digest key_schema =
    sbind (check_string manifest ''manifest_hash'') (\<lambda>m.
    sbind (check_string snapshot_hash ''initial_snapshot_hash'') (\<lambda>i.
    sbind (check_string schema ''replay_schema_version'') (\<lambda>r.
    sbind (check_string digest ''prefix_digest'') (\<lambda>d.
    case len of
      PInt n \<Rightarrow>
        if n < 0 then Inl (ValueError ''prefix_length must be a non-negative integer'')
        else if key_schema \<noteq> PStr PREFIX_CACHE_KEY_SCHEMA_VERSION
        then Inl (ValueError ''unsupported prefix cache key schema'')
        else Inr \<lparr>k_manifest_hash = m, k_initial_snapshot_hash = i, k_replay_schema_version = r,
               k_prefix_length = n, k_prefix_digest = d\<rparr>
    | _ \<Rightarrow> Inl (ValueError ''prefix_length must be a non-negative integer'')))))"

definition key_identity :: "prefix_key \<Rightarrow> pydict" where
  "key_identity k = canonical_entries
    [(''initial_snapshot_hash'', PStr (k_initial_snapshot_hash k)),
     (''manifest_hash'', PStr (k_manifest_hash k)),
     (''prefix_digest'', PStr (k_prefix_digest k)),
     (''prefix_length'', PInt (k_prefix_length k)),
     (''replay_schema_version'', PStr (k_replay_schema_version k)),
     (''schema_version'', PStr PREFIX_CACHE_KEY_SCHEMA_VERSION)]"

definition key_id :: "prefix_key \<Rightarrow> string" where
  "key_id k = safe_digest (key_identity k) ''prefixkey_''"

definition key_to_dict :: "prefix_key \<Rightarrow> pydict" where
  "key_to_dict k = key_identity k @ [(''key_id'', PStr (key_id k))]"

definition key_from_dict :: "pyval \<Rightarrow> py_error + prefix_key" where
  "key_from_dict v =
    (case v of
       PDict d \<Rightarrow>
         sbind (make_key (dict_get d ''manifest_hash'') (dict_get d ''initial_snapshot_hash'')
           (dict_get d ''replay_schema_version'') (dict_get d ''prefix_length'')
           (dict_get d ''prefix_digest'') (dict_get d ''schema_version'')) (\<lambda>k.
         if \<not> py_eq (PDict (key_to_dict k)) (to_canonical_data v)
         then Inl (ValueError ''prefix cache key_id does not match content'')
         else Inr k)
     | _ \<Rightarrow> Inl (ValueError ''prefix cache key must be a mapping''))"

text \<open>One event of the prefix of a replay, as it enters the digest of the prefix.\<close>

definition prefix_event :: "nat \<Rightarrow> pyval \<Rightarrow> py_error + pyval" where
  "prefix_event i event =
    (let at = ''replay.events['' @ str_nat i @ '']'' in
     case event of
       PDict e \<Rightarrow>
         if dict_get e ''failure'' \<noteq> PNone
         then Inl (ValueError ''failed Replay prefixes must not be cached'')
         else (case dict_get e ''action'' of
             PDict a \<Rightarrow>
               sbind (check_string (dict_get a ''action_id'') (at @ ''.action.action_id'')) (\<lambda>action_id.
               sbind (check_string (dict_get e ''request_signature'') (at @ ''.request_signature'')) (\<lambda>sig.
               Inr (to_canonical_data (PDict
                 [(''action_id'', PStr action_id),
                  (''core_response'', get_or e ''core_response'' (PDict [])),
                  (''request_signature'', PStr sig),
                  (''step'', PInt (int i))]))))
           | _ \<Rightarrow> Inl (ValueError (at @ ''.action must be a mapping'')))
     | _ \<Rightarrow> Inl (ValueError (at @ '' must be a mapping'')))"

definition as_dict_or_empty :: "pyval \<Rightarrow> pydict" where
  "as_dict_or_empty v = (case v of PDict d \<Rightarrow> d | _ \<Rightarrow> [])"

definition key_from_replay :: "pyval \<Rightarrow> pyval \<Rightarrow> py_error + prefix_key" where
  "key_from_replay replay prefix_length =
    (case replay of
       PDict r \<Rightarrow>
         sbind (manifest_from_dict (as_dict_or_empty (dict_get r ''manifest''))) (\<lambda>manifest.
         sbind (assert_reproducible manifest) (\<lambda>_.
         case dict_get r ''events'' of
           PList events \<Rightarrow>
             (case prefix_length of
                PInt n \<Rightarrow>
                  if n < 0 \<or> n > int (length events)
                  then Inl (ValueError ''prefix_length must be between 0 and replay event count'')
                  else (case dict_get r ''initial_snapshot'' of
                      PDict snapshot \<Rightarrow>
                        sbind (check_string (dict_get snapshot ''state_hash'')
                          ''replay.initial_snapshot.state_hash'') (\<lambda>h.
                        if dict_get (initial_conditions manifest) ''snapshot_hash'' \<noteq> PStr h
                        then Inl (ValueError ''Replay manifest snapshot hash does not match initial snapshot'')
                        else
                        sbind (sseq (map2 prefix_event [0..<nat n] (take (nat n) events))) (\<lambda>prefix.
                        sbind (check_string (dict_get r ''schema_version'') ''replay.schema_version'') (\<lambda>schema.
                        sbind (manifest_hash manifest) (\<lambda>mh.
                        sbind (stable_digest (PDict
                          [(''events'', PList prefix),
                           (''manifest_hash'', PStr mh),
                           (''replay_schema_version'', PStr schema)]) ''prefix_'') (\<lambda>digest.
                        make_key (PStr mh) (PStr h) (PStr schema) (PInt n) (PStr digest)
                          (PStr PREFIX_CACHE_KEY_SCHEMA_VERSION))))))
                    | _ \<Rightarrow> Inl (ValueError ''replay.initial_snapshot must be a mapping''))
              | _ \<Rightarrow> Inl (ValueError ''prefix_length must be between 0 and replay event count''))
         | _ \<Rightarrow> Inl (ValueError ''replay.events must be a list'')))
     | _ \<Rightarrow> Inl (ValueError ''replay must be a mapping''))"

section \<open>Entries\<close>

record prefix_entry =
  e_key :: prefix_key
  e_terminal_state_id :: string
  e_next_request_signature :: "string option"
  e_core_trace_digest :: string
  e_artifact_ref :: string
  e_state_completeness :: string

definition check_reuse_mode :: "pyval \<Rightarrow> py_error + unit" where
  "check_reuse_mode v =
    (case unhashable v of
       Some t \<Rightarrow> Inl (TypeError (''unhashable type: '' @ repr_str t))
     | None \<Rightarrow>
         if v = PStr ''native_clone'' \<or> v = PStr ''native_snapshot''
         then Inl (ValueError
           ''native snapshot/clone prefix reuse is rejected by ADR-0009; use verified_replay_hint'')
         else if v \<noteq> PStr ''verified_replay_hint''
         then Inl (ValueError (py_repr v @ '' is not a valid PrefixReuseMode''))
         else Inr ())"

definition check_optional_string :: "pyval \<Rightarrow> string \<Rightarrow> py_error + string option" where
  "check_optional_string v path =
    (if v = PNone then Inr None else sbind (check_string v path) (\<lambda>s. Inr (Some s)))"

definition make_entry ::
  "prefix_key \<Rightarrow> pyval \<Rightarrow> pyval \<Rightarrow> pyval \<Rightarrow> pyval \<Rightarrow> pyval \<Rightarrow> pyval \<Rightarrow> pyval \<Rightarrow> pyval \<Rightarrow>
    py_error + prefix_entry"
where
  "make_entry key terminal next_signature trace artifact completeness verified mode schema =
    sbind (check_string terminal ''terminal_state_id'') (\<lambda>t.
    sbind (check_string trace ''core_trace_digest'') (\<lambda>c.
    sbind (check_string artifact ''artifact_ref'') (\<lambda>a.
    sbind (check_string completeness ''state_completeness'') (\<lambda>s.
    sbind (check_optional_string next_signature ''next_request_signature'') (\<lambda>n.
    if s \<noteq> ''exact'' \<and> s \<noteq> ''query_api_projection''
    then Inl (ValueError (''state_completeness must be '' @ repr_str ''exact'' @ '' or '' @
      repr_str ''query_api_projection''))
    else if verified \<noteq> PBool True
    then Inl (ValueError ''prefix cache entries require replay_verified=True'')
    else
    sbind (check_reuse_mode mode) (\<lambda>_.
    if schema \<noteq> PStr PREFIX_CACHE_ENTRY_SCHEMA_VERSION
    then Inl (ValueError ''unsupported prefix cache entry schema'')
    else Inr \<lparr>e_key = key, e_terminal_state_id = t, e_next_request_signature = n,
           e_core_trace_digest = c, e_artifact_ref = a, e_state_completeness = s\<rparr>))))))"

definition entry_identity :: "prefix_entry \<Rightarrow> pydict" where
  "entry_identity e = canonical_entries
    [(''artifact_ref'', PStr (e_artifact_ref e)),
     (''core_trace_digest'', PStr (e_core_trace_digest e)),
     (''key'', PDict (key_to_dict (e_key e))),
     (''next_request_signature'', opt_str (e_next_request_signature e)),
     (''replay_verified'', PBool True),
     (''reuse_mode'', PStr ''verified_replay_hint''),
     (''schema_version'', PStr PREFIX_CACHE_ENTRY_SCHEMA_VERSION),
     (''state_completeness'', PStr (e_state_completeness e)),
     (''terminal_state_id'', PStr (e_terminal_state_id e))]"

definition entry_to_dict :: "prefix_entry \<Rightarrow> pydict" where
  "entry_to_dict e = entry_identity e @
    [(''entry_id'', PStr (safe_digest (entry_identity e) ''prefixentry_''))]"

text \<open>The UTF-8 length of the entry's JSON text.\<close>

definition estimated_bytes :: "prefix_entry \<Rightarrow> int" where
  "estimated_bytes e = int (length (json_text (entry_to_dict e)))"

definition entry_from_dict :: "pyval \<Rightarrow> py_error + prefix_entry" where
  "entry_from_dict v =
    (case v of
       PDict d \<Rightarrow>
         sbind (key_from_dict (dict_get d ''key'')) (\<lambda>key.
         sbind (make_entry key (dict_get d ''terminal_state_id'') (dict_get d ''next_request_signature'')
           (dict_get d ''core_trace_digest'') (dict_get d ''artifact_ref'')
           (dict_get d ''state_completeness'') (dict_get d ''replay_verified'')
           (dict_get d ''reuse_mode'') (dict_get d ''schema_version'')) (\<lambda>e.
         if \<not> py_eq (PDict (entry_to_dict e)) (to_canonical_data v)
         then Inl (ValueError ''prefix cache entry_id does not match content'')
         else Inr e))
     | _ \<Rightarrow> Inl (ValueError ''prefix cache entry must be a mapping''))"

text \<open>
  The key has been built by then, so \<open>replay\<close> is a mapping, its events are a list of at least
  \<open>prefix_length\<close> mappings and its initial snapshot is a mapping.
\<close>

definition entry_from_replay ::
  "pyval \<Rightarrow> pyval \<Rightarrow> pyval \<Rightarrow> pyval \<Rightarrow> pyval \<Rightarrow> py_error + prefix_entry"
where
  "entry_from_replay replay prefix_length artifact_ref completeness next_signature =
    sbind (key_from_replay replay prefix_length) (\<lambda>key.
    let r = as_dict_or_empty replay;
        n = nat (k_prefix_length key);
        events = map as_dict_or_empty (items (dict_get r ''events''))
    in
    sbind (if n = 0
      then check_string (dict_get (as_dict_or_empty (dict_get r ''initial_snapshot'')) ''state_hash'')
        ''initial_snapshot.state_hash''
      else check_string (dict_get (events ! (n - 1)) ''state_hash_after'')
        (''events['' @ str_nat (n - 1) @ ''].state_hash_after'')) (\<lambda>terminal.
    sbind (stable_digest (PList (map (\<lambda>e. to_canonical_data (get_or e ''core_output'' (PDict [])))
      (take n events))) ''coretrace_'') (\<lambda>trace.
    make_entry key (PStr terminal) next_signature (PStr trace) artifact_ref completeness
      (PBool True) (PStr ''verified_replay_hint'') (PStr PREFIX_CACHE_ENTRY_SCHEMA_VERSION))))"

end
