(* ===== verification/Prefix_Cache.thy ===== *)
theory Prefix_Cache
  imports Cache_Model
begin

text \<open>
  \<open>ReplayPrefixCache\<close> of \<open>engine/search/cache.py\<close>: the entries by key in order of use, the byte count
  of their texts, the counters, and the operations on them. Writing the index to a file and reading
  it back are not modelled; the dictionaries they move are.
\<close>

section \<open>State\<close>

record prefix_cache =
  policy :: cache_policy
  centries :: "(string \<times> prefix_entry) list"
  cbytes :: int
  hits :: nat
  misses :: nat
  evictions :: nat
  invalidations :: nat
  flushes :: nat
  mutations_since_flush :: nat

definition new_cache :: "cache_policy \<Rightarrow> prefix_cache" where
  "new_cache p = \<lparr>policy = p, centries = [], cbytes = 0, hits = 0, misses = 0, evictions = 0,
     invalidations = 0, flushes = 0, mutations_since_flush = 0\<rparr>"

section \<open>Operations\<close>

definition remove_entry :: "string \<Rightarrow> prefix_cache \<Rightarrow> prefix_cache" where
  "remove_entry k c =
    (case map_of (centries c) k of
       None \<Rightarrow> c
     | Some e \<Rightarrow> c\<lparr>centries := AList.delete k (centries c), cbytes := cbytes c - estimated_bytes e,
                  mutations_since_flush := Suc (mutations_since_flush c)\<rparr>)"

text \<open>The loop of \<open>put\<close>: \<open>popitem(last=False)\<close> takes the oldest entry.\<close>

definition over_limit :: "cache_policy \<Rightarrow> nat \<Rightarrow> int \<Rightarrow> bool" where
  "over_limit p n b \<longleftrightarrow> int n > max_entries p \<or> b > max_bytes p"

fun evict :: "cache_policy \<Rightarrow> (string \<times> prefix_entry) list \<Rightarrow> int \<Rightarrow>
    py_error + ((string \<times> prefix_entry) list \<times> int \<times> string list)" where
  "evict p [] b =
     (if over_limit p 0 b then Inl (KeyError ''dictionary is empty'') else Inr ([], b, []))"
| "evict p ((k, e) # es) b =
     (if over_limit p (Suc (length es)) b
      then sbind (evict p es (b - estimated_bytes e)) (\<lambda>(es', b', ks). Inr (es', b', k # ks))
      else Inr ((k, e) # es, b, []))"

definition put :: "prefix_entry \<Rightarrow> prefix_cache \<Rightarrow> py_error + (prefix_cache \<times> string list)" where
  "put e c =
    (let size = estimated_bytes e; k = key_id (e_key e) in
     if size > max_entry_bytes (policy c)
     then Inl (ValueError (''prefix cache entry is '' @ str_int size @ '' bytes; max_entry_bytes is '' @
       str_int (max_entry_bytes (policy c))))
     else
       let c1 = remove_entry k c;
           c2 = c1\<lparr>centries := AList.update k e (centries c1), cbytes := cbytes c1 + size,
                  mutations_since_flush := Suc (mutations_since_flush c1)\<rparr>
       in sbind (evict (policy c) (centries c2) (cbytes c2)) (\<lambda>(es, b, ks).
          Inr (c2\<lparr>centries := es, cbytes := b, evictions := evictions c2 + length ks,
                 mutations_since_flush := mutations_since_flush c2 + length ks\<rparr>, ks)))"

datatype cache_ref = By_key prefix_key | By_id string

fun ref_id :: "cache_ref \<Rightarrow> string" where
  "ref_id (By_key k) = key_id k"
| "ref_id (By_id s) = s"

definition get :: "cache_ref \<Rightarrow> prefix_cache \<Rightarrow> prefix_cache \<times> prefix_entry option" where
  "get r c =
    (let k = ref_id r in
     case map_of (centries c) k of
       None \<Rightarrow> (c\<lparr>misses := Suc (misses c)\<rparr>, None)
     | Some e \<Rightarrow> (c\<lparr>centries := AList.update k e (AList.delete k (centries c)), hits := Suc (hits c)\<rparr>, Some e))"

datatype verification_status = CACHE_VALID | CACHE_INVALIDATED

fun status_value :: "verification_status \<Rightarrow> string" where
  "status_value CACHE_VALID = ''valid''"
| "status_value CACHE_INVALIDATED = ''invalidated''"

record cache_verification =
  v_key_id :: string
  v_status :: verification_status
  v_expected :: pydict
  v_actual :: pydict

definition verification_to_dict :: "cache_verification \<Rightarrow> pydict" where
  "verification_to_dict v =
    (let identity = canonical_entries
       [(''actual'', PDict (v_actual v)),
        (''expected'', PDict (v_expected v)),
        (''key_id'', PStr (v_key_id v)),
        (''schema_version'', PStr PREFIX_CACHE_VERIFICATION_SCHEMA_VERSION),
        (''status'', PStr (status_value (v_status v)))]
     in identity @ [(''verification_id'', PStr (safe_digest identity ''prefixverify_''))])"

definition prefix_result :: "string \<Rightarrow> string option \<Rightarrow> string \<Rightarrow> pydict" where
  "prefix_result trace next_signature terminal =
    [(''core_trace_digest'', PStr trace),
     (''next_request_signature'', opt_str next_signature),
     (''terminal_state_id'', PStr terminal)]"

text \<open>The look-up has already counted and moved the entry when a bad argument is found.\<close>

definition verify_replayed_prefix ::
  "cache_ref \<Rightarrow> pyval \<Rightarrow> pyval \<Rightarrow> pyval \<Rightarrow> prefix_cache \<Rightarrow>
    prefix_cache \<times> (py_error + cache_verification)"
where
  "verify_replayed_prefix r terminal next_signature trace c =
    (let k = ref_id r; (c1, found) = get (By_id k) c in
     case found of
       None \<Rightarrow> (c1, Inl (KeyError (''prefix cache key '' @ repr_str k @ '' is not present'')))
     | Some e \<Rightarrow>
         let expected = prefix_result (e_core_trace_digest e) (e_next_request_signature e)
               (e_terminal_state_id e)
         in
         case sbind (check_string trace ''core_trace_digest'') (\<lambda>t.
              sbind (check_optional_string next_signature ''next_request_signature'') (\<lambda>n.
              sbind (check_string terminal ''terminal_state_id'') (\<lambda>s.
              Inr (prefix_result t n s)))) of
           Inl err \<Rightarrow> (c1, Inl err)
         | Inr actual \<Rightarrow>
             if to_canonical_data (PDict expected) = to_canonical_data (PDict actual)
             then (c1, Inr \<lparr>v_key_id = k, v_status = CACHE_VALID, v_expected = expected, v_actual = actual\<rparr>)
             else let c2 = remove_entry k c1 in
               (c2\<lparr>invalidations := Suc (invalidations c2)\<rparr>,
                Inr \<lparr>v_key_id = k, v_status = CACHE_INVALIDATED, v_expected = expected, v_actual = actual\<rparr>))"

fun invalidate_all :: "string list \<Rightarrow> prefix_cache \<Rightarrow> prefix_cache" where
  "invalidate_all [] c = c"
| "invalidate_all (k # ks) c =
     (let c1 = remove_entry k c in
      invalidate_all ks (c1\<lparr>invalidations := Suc (invalidations c1)\<rparr>))"

definition retain_manifest :: "pyval \<Rightarrow> prefix_cache \<Rightarrow> py_error + (prefix_cache \<times> string list)" where
  "retain_manifest v c =
    sbind (check_string v ''manifest_hash'') (\<lambda>h.
    let stale = map fst (filter (\<lambda>(k, e). k_manifest_hash (e_key e) \<noteq> h) (centries c))
    in Inr (invalidate_all stale c, stale))"

definition should_flush :: "prefix_cache \<Rightarrow> bool" where
  "should_flush c \<longleftrightarrow> persistence (policy c) = PERSIST_INDEX_ONLY \<and>
     int (mutations_since_flush c) \<ge> flush_every (policy c)"

definition mark_flushed :: "prefix_cache \<Rightarrow> prefix_cache" where
  "mark_flushed c = c\<lparr>mutations_since_flush := 0, flushes := Suc (flushes c)\<rparr>"

definition stats :: "prefix_cache \<Rightarrow> pydict" where
  "stats c =
    [(''bytes'', PInt (cbytes c)),
     (''entries'', PInt (int (length (centries c)))),
     (''evictions'', PInt (int (evictions c))),
     (''flushes'', PInt (int (flushes c))),
     (''hits'', PInt (int (hits c))),
     (''invalidations'', PInt (int (invalidations c))),
     (''misses'', PInt (int (misses c))),
     (''mutations_since_flush'', PInt (int (mutations_since_flush c))),
     (''policy_id'', PStr (policy_id (policy c)))]"

section \<open>The index\<close>

definition to_index_dict :: "prefix_cache \<Rightarrow> pydict" where
  "to_index_dict c =
    (let identity = canonical_entries
       [(''entries'', PList (map (\<lambda>(k, e). PDict (entry_to_dict e)) (centries c))),
        (''policy'', PDict (policy_to_dict (policy c))),
        (''schema_version'', PStr PREFIX_CACHE_INDEX_SCHEMA_VERSION)]
     in identity @ [(''index_id'', PStr (safe_digest identity ''prefixindex_''))])"

fun put_all :: "pyval list \<Rightarrow> prefix_cache \<Rightarrow> py_error + prefix_cache" where
  "put_all [] c = Inr c"
| "put_all (v # vs) c =
     sbind (entry_from_dict v) (\<lambda>e. sbind (put e c) (\<lambda>(c', ks). put_all vs c'))"

definition from_index_dict :: "pyval \<Rightarrow> cache_policy option \<Rightarrow> py_error + prefix_cache" where
  "from_index_dict v override =
    (case v of
       PDict d \<Rightarrow>
         if dict_get d ''schema_version'' \<noteq> PStr PREFIX_CACHE_INDEX_SCHEMA_VERSION
         then Inl (ValueError ''unsupported prefix cache index schema'')
         else
         sbind (stable_digest (PDict
           [(''entries'', dict_get d ''entries''),
            (''policy'', dict_get d ''policy''),
            (''schema_version'', dict_get d ''schema_version'')]) ''prefixindex_'') (\<lambda>digest.
         if dict_get d ''index_id'' \<noteq> PStr digest
         then Inl (ValueError ''prefix cache index_id does not match content'')
         else
         sbind (policy_from_dict (as_dict_or_empty (dict_get d ''policy''))) (\<lambda>persisted.
         case dict_get d ''entries'' of
           PList raw \<Rightarrow>
             sbind (put_all raw (new_cache (case override of None \<Rightarrow> persisted | Some p \<Rightarrow> p))) (\<lambda>c.
             Inr (c\<lparr>mutations_since_flush := 0\<rparr>))
         | _ \<Rightarrow> Inl (ValueError ''prefix cache index entries must be a list'')))
     | _ \<Rightarrow> Inl (ValueError ''prefix cache index must be a mapping''))"

end
