(* ===== verification/Cache_Formats.thy ===== *)
theory Cache_Formats
  imports Prefix_Cache
begin

text \<open>
  The dictionaries of the prefix cache read back as what wrote them. The interface \<open>dict_format\<close>
  states what a pair of \<open>to_dict\<close> and \<open>from_dict\<close> promises; it holds for policies, keys and entries,
  in whatever order the entries of the dictionary come.
\<close>

section \<open>Equality of canonical values\<close>

text \<open>The values \<open>json.loads\<close> and canonical data consist of: no tuples, distinct keys, no \<open>NaN\<close>.\<close>

primrec tidy :: "pyval \<Rightarrow> bool" where
  "tidy PNone = True"
| "tidy (PBool b) = True"
| "tidy (PInt i) = True"
| "tidy (PFloat t) = (t \<noteq> ''NaN'')"
| "tidy (PStr s) = True"
| "tidy (PList xs) = list_all id (map tidy xs)"
| "tidy (PTuple xs) = False"
| "tidy (PDict d) = (distinct (map fst d) \<and> list_all snd (map (map_prod id tidy) d))"
| "tidy (POpaque t) = True"

lemma tidy_PList [simp]: "tidy (PList xs) = list_all tidy xs"
  by (simp add: list_all_iff)

lemma tidy_PDict [simp]: "tidy (PDict d) \<longleftrightarrow> distinct (map fst d) \<and> list_all (tidy \<circ> snd) d"
  by (auto simp: list_all_iff)

declare tidy.simps(6,8) [simp del]

lemma length_canonical_entries [simp]: "length (canonical_entries d) = length d"
  by (simp add: canonical_entries_def)

lemma canonical_eq_PList: "to_canonical_data w = PList ys \<Longrightarrow> tidy w \<Longrightarrow>
    \<exists>zs. w = PList zs \<and> ys = map to_canonical_data zs"
  by (cases w) auto

lemma canonical_eq_PDict: "to_canonical_data w = PDict e \<Longrightarrow> \<exists>d. w = PDict d \<and> e = canonical_entries d"
  by (cases w) (auto simp: canonical_entries_def)

lemma py_eq_canonical: "to_canonical_data v = to_canonical_data w \<Longrightarrow> tidy v \<Longrightarrow> tidy w \<Longrightarrow> py_eq v w"
proof (induction v arbitrary: w)
  case (PList xs)
  then obtain zs where w: "w = PList zs" and zs: "map to_canonical_data xs = map to_canonical_data zs"
    by (metis canonical_eq_PList to_canonical_data.simps(6))
  have "list_all2 py_eq xs zs"
    unfolding list_all2_conv_all_nth
  proof (intro conjI allI impI)
    show len: "length xs = length zs" using zs by (rule map_eq_imp_length_eq)
    fix i assume i: "i < length xs"
    have "to_canonical_data (xs ! i) = to_canonical_data (zs ! i)"
      using zs i len by (metis nth_map)
    then show "py_eq (xs ! i) (zs ! i)"
      using PList i len w by (simp add: list_all_length)
  qed
  then show ?case by (simp add: w)
next
  case (PDict l)
  then obtain r where w: "w = PDict r" and eq: "canonical_entries l = canonical_entries r"
    by (metis canonical_PDict canonical_eq_PDict pyval.inject(7))
  have "case map_of r k of None \<Rightarrow> False | Some b \<Rightarrow> py_eq a b" if ka: "(k, a) \<in> set l" for k a
  proof -
    have "map_of l k = Some a" using ka PDict.prems by simp
    then have "map_option to_canonical_data (map_of r k) = Some (to_canonical_data a)"
      using eq by (metis map_of_canonical_entries option.simps(9))
    then obtain b where b: "map_of r k = Some b" "to_canonical_data a = to_canonical_data b"
      by auto
    have "py_eq a b"
    proof (rule PDict.IH [of "(k, a)" a])
      show "tidy a" using PDict.prems(2) ka by (auto simp: list_all_iff)
      show "tidy b" using PDict.prems(3) map_of_SomeD [OF b(1)] by (auto simp: w list_all_iff)
    qed (use ka b in auto)
    then show ?thesis by (simp add: b)
  qed
  moreover have "length l = length r" using eq by (metis length_canonical_entries)
  ultimately show ?case by (auto simp: w list_all_iff)
next
  case PNone then show ?case by (cases w) auto
next
  case PBool then show ?case by (cases w) auto
next
  case PInt then show ?case by (cases w) auto
next
  case PFloat then show ?case by (cases w) auto
next
  case PStr then show ?case by (cases w) auto
next
  case PTuple then show ?case by simp
next
  case POpaque then show ?case by (cases w) auto
qed

lemma tidy_canonical [simp]: "tidy v \<Longrightarrow> tidy (to_canonical_data v)"
proof (induction v)
  case (PDict d)
  have "tidy (to_canonical_data a)" if "(k, a) \<in> set d" for k a
    using PDict.IH [of "(k, a)" a] PDict.prems that by (auto simp: list_all_iff)
  then show ?case
    using PDict.prems distinct_canonical_entries [of d]
    unfolding canonical_PDict tidy_PDict canonical_entries_def by (auto simp: list_all_iff)
qed (auto simp: list_all_iff)

lemma py_eq_canonical_self: "tidy v \<Longrightarrow> py_eq v (to_canonical_data v)"
  by (rule py_eq_canonical) (simp_all add: to_canonical_idem)

section \<open>Dictionary formats\<close>

locale dict_format =
  fixes "write" :: "'a \<Rightarrow> pydict" and read :: "pydict \<Rightarrow> py_error + 'a" and valid :: "'a \<Rightarrow> bool"
  assumes read_valid: "read d = Inr x \<Longrightarrow> valid x"
    and read_any_order: "valid x \<Longrightarrow> distinct (map fst d) \<Longrightarrow> list_all (tidy \<circ> snd) d \<Longrightarrow>
      canonical_entries d = canonical_entries (write x) \<Longrightarrow> read d = Inr x"
    and write_tidy: "distinct (map fst (write x))" "list_all (tidy \<circ> snd) (write x)"
    and write_safe: "dict_safe (write x)"
begin

lemma roundtrip: "valid x \<Longrightarrow> read (write x) = Inr x"
  by (rule read_any_order) (simp_all add: write_tidy)

lemma tidy_write: "tidy (PDict (write x))"
  by (simp add: write_tidy)

lemma canonical_roundtrip:
  assumes "valid x"
  shows "read (canonical_entries (write x)) = Inr x"
proof (rule read_any_order [OF assms])
  have "tidy (PDict (canonical_entries (write x)))"
    using tidy_canonical [OF tidy_write [of x]] by (simp only: canonical_PDict)
  then show "distinct (map fst (canonical_entries (write x)))"
    and "list_all (tidy \<circ> snd) (canonical_entries (write x))"
    by (simp_all only: tidy_PDict)
qed (rule canonical_entries_idem)

lemma write_inject: "valid x \<Longrightarrow> valid y \<Longrightarrow> canonical_entries (write x) = canonical_entries (write y) \<Longrightarrow> x = y"
  by (metis canonical_roundtrip sum.inject(2))

end

section \<open>Policies, keys and entries\<close>

lemma canonical_entries_lookup:
  assumes "canonical_entries d = canonical_entries e"
  shows "to_canonical_data (dict_get d k) = to_canonical_data (dict_get e k)"
    and "map_option to_canonical_data (map_of d k) = map_option to_canonical_data (map_of e k)"
  using assms by (metis dict_get_canonical, metis map_of_canonical_entries)

text \<open>Looking up a number, a string or nothing is not affected by the order of the entries.\<close>

fun is_scalar :: "pyval \<Rightarrow> bool" where
  "is_scalar (PList xs) = False"
| "is_scalar (PTuple xs) = False"
| "is_scalar (PDict d) = False"
| "is_scalar v = True"

lemma is_scalar_opt_str [simp]: "is_scalar (opt_str t)"
  by (simp add: opt_str_def split: option.split)

lemma scalar_lookup:
  assumes "canonical_entries d = canonical_entries e" and "map_of e k = Some v" and "is_scalar v"
  shows "map_of d k = Some v"
proof -
  have "to_canonical_data w = v \<Longrightarrow> w = v" for w
    using assms(3) by (cases w) auto
  moreover have "to_canonical_data v = v" using assms(3) by (cases v) auto
  ultimately show ?thesis using canonical_entries_lookup(2) [OF assms(1), of k] assms(2) by auto
qed

lemma dict_get_Some: "map_of d k = Some v \<Longrightarrow> dict_get d k = v"
  by (simp add: dict_get_def)

lemma persistence_value_inject [simp]: "persistence_value m = persistence_value n \<longleftrightarrow> m = n"
  by (cases m; cases n) simp_all

lemma opt_str_inject [simp]: "opt_str s = opt_str t \<longleftrightarrow> s = t"
  by (simp add: opt_str_def split: option.split)

definition policy_ok :: "cache_policy \<Rightarrow> bool" where
  "policy_ok p \<longleftrightarrow> 1 \<le> max_entries p \<and> 1 \<le> max_entry_bytes p \<and> max_entry_bytes p \<le> max_bytes p \<and>
     1 \<le> flush_every p"

definition key_ok :: "prefix_key \<Rightarrow> bool" where
  "key_ok k \<longleftrightarrow> k_manifest_hash k \<noteq> [] \<and> k_initial_snapshot_hash k \<noteq> [] \<and>
     k_replay_schema_version k \<noteq> [] \<and> k_prefix_digest k \<noteq> [] \<and> 0 \<le> k_prefix_length k"

definition entry_fields_ok :: "prefix_entry \<Rightarrow> bool" where
  "entry_fields_ok e \<longleftrightarrow> e_terminal_state_id e \<noteq> [] \<and> e_core_trace_digest e \<noteq> [] \<and>
     e_artifact_ref e \<noteq> [] \<and> e_next_request_signature e \<noteq> Some [] \<and>
     (e_state_completeness e = ''exact'' \<or> e_state_completeness e = ''query_api_projection'')"

definition entry_ok :: "prefix_entry \<Rightarrow> bool" where
  "entry_ok e \<longleftrightarrow> key_ok (e_key e) \<and> entry_fields_ok e"

lemma check_string_Inr [monad_simps]: "check_string v path = Inr s \<longleftrightarrow> v = PStr s \<and> s \<noteq> []"
  by (auto simp: check_string_def split: pyval.splits if_splits)

lemma require_positive_Inr [monad_simps]: "require_positive v path = Inr i \<longleftrightarrow> v = PInt i \<and> 1 \<le> i"
  by (auto simp: require_positive_def split: pyval.splits if_splits)

lemma require_non_negative_Inr [monad_simps]: "require_non_negative v path = Inr i \<longleftrightarrow> v = PInt i \<and> 0 \<le> i"
  by (auto simp: require_non_negative_def split: pyval.splits if_splits)

lemma check_optional_string_Inr [monad_simps]:
  "check_optional_string v path = Inr t \<longleftrightarrow> v = opt_str t \<and> t \<noteq> Some []"
  by (cases t) (auto simp: check_optional_string_def opt_str_def monad_simps split: if_splits)

lemma persistence_of_Inr [monad_simps]: "persistence_of v = Inr m \<longleftrightarrow> v = PStr (persistence_value m)"
  by (cases m) (auto simp: persistence_of_def)

lemma persistence_of_value [simp]: "persistence_of (PStr (persistence_value m)) = Inr m"
  by (simp add: monad_simps)

lemma check_reuse_mode_Inr [monad_simps]: "check_reuse_mode v = Inr u \<longleftrightarrow> v = PStr ''verified_replay_hint''"
  by (cases v) (auto simp: check_reuse_mode_def split: option.splits)

lemma make_policy_Inr: "make_policy n b eb m f s = Inr p \<longleftrightarrow> policy_ok p \<and>
    n = PInt (max_entries p) \<and> b = PInt (max_bytes p) \<and> eb = PInt (max_entry_bytes p) \<and>
    m = PStr (persistence_value (persistence p)) \<and> f = PInt (flush_every p) \<and>
    s = PStr PREFIX_CACHE_POLICY_SCHEMA_VERSION"
  by (auto simp: make_policy_def policy_ok_def monad_simps)

lemma make_key_Inr: "make_key m i r n d s = Inr k \<longleftrightarrow> key_ok k \<and>
    m = PStr (k_manifest_hash k) \<and> i = PStr (k_initial_snapshot_hash k) \<and>
    r = PStr (k_replay_schema_version k) \<and> n = PInt (k_prefix_length k) \<and>
    d = PStr (k_prefix_digest k) \<and> s = PStr PREFIX_CACHE_KEY_SCHEMA_VERSION"
  by (cases n) (auto simp: make_key_def key_ok_def monad_simps)

lemma make_entry_Inr: "make_entry k t n c a s v m sv = Inr e \<longleftrightarrow>
    e_key e = k \<and> entry_fields_ok e \<and> t = PStr (e_terminal_state_id e) \<and>
    n = opt_str (e_next_request_signature e) \<and> c = PStr (e_core_trace_digest e) \<and>
    a = PStr (e_artifact_ref e) \<and> s = PStr (e_state_completeness e) \<and> v = PBool True \<and>
    m = PStr ''verified_replay_hint'' \<and> sv = PStr PREFIX_CACHE_ENTRY_SCHEMA_VERSION"
  by (auto simp: make_entry_def entry_fields_ok_def monad_simps)

lemma policy_identity_eq: "policy_identity p =
    [(''flush_every_mutations'', PInt (flush_every p)),
     (''max_bytes'', PInt (max_bytes p)),
     (''max_entries'', PInt (max_entries p)),
     (''max_entry_bytes'', PInt (max_entry_bytes p)),
     (''persistence_mode'', PStr (persistence_value (persistence p))),
     (''schema_version'', PStr PREFIX_CACHE_POLICY_SCHEMA_VERSION)]"
  by (simp add: policy_identity_def canonical_entries_sorted)

lemma policy_keys: "map fst (policy_to_dict p) = policy_fields @ [''schema_version'', ''policy_id'']"
  by (simp add: policy_to_dict_def policy_identity_eq policy_fields_def)

lemma policy_from_mapping_valid: "policy_from_mapping v = Inr p \<Longrightarrow> policy_ok p"
  by (auto simp: policy_from_mapping_def Let_def make_policy_Inr split: pyval.splits if_splits)

interpretation policy_format: dict_format policy_to_dict policy_from_dict policy_ok
proof unfold_locales
  fix d p assume "policy_from_dict d = Inr p"
  then show "policy_ok p"
    by (auto simp: policy_from_dict_def monad_simps split: if_splits dest: policy_from_mapping_valid)
next
  fix p d
  assume ok: "policy_ok p" and "canonical_entries d = canonical_entries (policy_to_dict p)"
  note found = scalar_lookup [OF this(2)]
  have "fst ` set d = fst ` set (policy_to_dict p)"
    by (metis \<open>canonical_entries d = canonical_entries (policy_to_dict p)\<close> keys_canonical_entries)
  also have "\<dots> = set policy_fields \<union> {''schema_version'', ''policy_id''}"
    using arg_cong [OF policy_keys [of p], of set] by simp
  finally have keys: "fst ` set d = set policy_fields \<union> {''schema_version'', ''policy_id''}" .
  let ?e = "AList.delete ''schema_version'' (AList.delete ''policy_id'' d)"
  have unknown: "filter (\<lambda>k. k \<notin> set policy_fields) (remdups (map fst ?e)) = []"
  proof -
    have "fst ` set ?e \<subseteq> fst ` set d - {''schema_version'', ''policy_id''}"
      using dom_delete_subset [of "''schema_version''" "AList.delete ''policy_id'' d"]
        dom_delete_subset [of "''policy_id''" d] delete_notin_dom [of "''policy_id''" d]
        delete_notin_dom [of "''schema_version''" "AList.delete ''policy_id'' d"]
      by blast
    also have "\<dots> \<subseteq> set policy_fields"
      unfolding keys by blast
    finally show ?thesis by (auto simp: filter_empty_conv)
  qed
  have "map_of d ''flush_every_mutations'' = Some (PInt (flush_every p))"
    "map_of d ''max_bytes'' = Some (PInt (max_bytes p))"
    "map_of d ''max_entries'' = Some (PInt (max_entries p))"
    "map_of d ''max_entry_bytes'' = Some (PInt (max_entry_bytes p))"
    "map_of d ''persistence_mode'' = Some (PStr (persistence_value (persistence p)))"
    "map_of d ''schema_version'' = Some (PStr PREFIX_CACHE_POLICY_SCHEMA_VERSION)"
    "map_of d ''policy_id'' = Some (PStr (policy_id p))"
    by (rule found; simp add: policy_to_dict_def policy_identity_eq)+
  with ok show "policy_from_dict d = Inr p"
    using unknown
    by (simp add: policy_from_dict_def policy_from_mapping_def get_or_def dict_get_Some delete_conv'
        make_policy_Inr monad_simps)
qed (simp_all add: policy_to_dict_def policy_identity_eq)

lemma key_identity_eq: "key_identity k =
    [(''initial_snapshot_hash'', PStr (k_initial_snapshot_hash k)),
     (''manifest_hash'', PStr (k_manifest_hash k)),
     (''prefix_digest'', PStr (k_prefix_digest k)),
     (''prefix_length'', PInt (k_prefix_length k)),
     (''replay_schema_version'', PStr (k_replay_schema_version k)),
     (''schema_version'', PStr PREFIX_CACHE_KEY_SCHEMA_VERSION)]"
  by (simp add: key_identity_def canonical_entries_sorted)

lemma key_to_dict_tidy: "distinct (map fst (key_to_dict k))" "list_all (tidy \<circ> snd) (key_to_dict k)"
    "dict_safe (key_to_dict k)"
  by (simp_all add: key_to_dict_def key_identity_eq)

lemma py_eq_any_order:
  assumes "canonical_entries d = canonical_entries e"
    and "tidy (PDict d)" and "tidy (PDict e)"
  shows "py_eq (PDict e) (to_canonical_data (PDict d))"
proof (rule py_eq_canonical [OF _ assms(3) tidy_canonical [OF assms(2)]])
  show "to_canonical_data (PDict e) = to_canonical_data (to_canonical_data (PDict d))"
    by (simp only: canonical_entries_idem canonical_PDict assms(1))
qed

interpretation key_format: dict_format key_to_dict "\<lambda>d. key_from_dict (PDict d)" key_ok
proof unfold_locales
  fix d k assume "key_from_dict (PDict d) = Inr k"
  then show "key_ok k"
    by (auto simp: key_from_dict_def monad_simps make_key_Inr split: if_splits)
next
  fix k d
  assume ok: "key_ok k" and tidy: "distinct (map fst d)" "list_all (tidy \<circ> snd) d"
    and eq: "canonical_entries d = canonical_entries (key_to_dict k)"
  have "py_eq (PDict (key_to_dict k)) (to_canonical_data (PDict d))"
    by (rule py_eq_any_order [OF eq]) (simp_all add: tidy key_to_dict_tidy)
  moreover note found = scalar_lookup [OF eq]
  have "dict_get d ''initial_snapshot_hash'' = PStr (k_initial_snapshot_hash k)"
    "dict_get d ''manifest_hash'' = PStr (k_manifest_hash k)"
    "dict_get d ''prefix_digest'' = PStr (k_prefix_digest k)"
    "dict_get d ''prefix_length'' = PInt (k_prefix_length k)"
    "dict_get d ''replay_schema_version'' = PStr (k_replay_schema_version k)"
    "dict_get d ''schema_version'' = PStr PREFIX_CACHE_KEY_SCHEMA_VERSION"
    by (rule dict_get_Some, rule found; simp add: key_to_dict_def key_identity_eq)+
  ultimately show "key_from_dict (PDict d) = Inr k"
    using ok by (simp add: key_from_dict_def monad_simps make_key_Inr del: to_canonical_data.simps)
qed (simp_all add: key_to_dict_tidy)

lemma entry_identity_eq: "entry_identity e =
    [(''artifact_ref'', PStr (e_artifact_ref e)),
     (''core_trace_digest'', PStr (e_core_trace_digest e)),
     (''key'', PDict (canonical_entries (key_to_dict (e_key e)))),
     (''next_request_signature'', opt_str (e_next_request_signature e)),
     (''replay_verified'', PBool True),
     (''reuse_mode'', PStr ''verified_replay_hint''),
     (''schema_version'', PStr PREFIX_CACHE_ENTRY_SCHEMA_VERSION),
     (''state_completeness'', PStr (e_state_completeness e)),
     (''terminal_state_id'', PStr (e_terminal_state_id e))]"
  by (simp add: entry_identity_def canonical_entries_sorted canonical_PDict opt_str_def
      del: to_canonical_data.simps(8) split: option.split)

lemma tidy_opt_str [simp]: "tidy (opt_str t)"
  by (simp add: opt_str_def split: option.split)

lemma entry_to_dict_tidy: "distinct (map fst (entry_to_dict e))" "list_all (tidy \<circ> snd) (entry_to_dict e)"
    "dict_safe (entry_to_dict e)"
proof -
  have "tidy (PDict (canonical_entries (key_to_dict (e_key e))))"
    using tidy_canonical [OF key_format.tidy_write] by (simp only: canonical_PDict)
  then show "distinct (map fst (entry_to_dict e))" "list_all (tidy \<circ> snd) (entry_to_dict e)"
    "dict_safe (entry_to_dict e)"
    by (simp_all add: entry_to_dict_def entry_identity_eq key_to_dict_tidy)
qed

interpretation entry_format: dict_format entry_to_dict "\<lambda>d. entry_from_dict (PDict d)" entry_ok
proof unfold_locales
  fix d e assume "entry_from_dict (PDict d) = Inr e"
  moreover have "key_from_dict v = Inr k \<Longrightarrow> key_ok k" for v k
    using key_format.read_valid by (cases v) (auto simp: key_from_dict_def)
  ultimately show "entry_ok e"
    by (auto simp: entry_from_dict_def entry_ok_def monad_simps make_entry_Inr split: if_splits)
next
  fix e d
  assume ok: "entry_ok e" and tidy: "distinct (map fst d)" "list_all (tidy \<circ> snd) d"
    and eq: "canonical_entries d = canonical_entries (entry_to_dict e)"
  have eq': "py_eq (PDict (entry_to_dict e)) (to_canonical_data (PDict d))"
    by (rule py_eq_any_order [OF eq]) (simp_all add: tidy entry_to_dict_tidy)
  note found = scalar_lookup [OF eq]
  have fields: "dict_get d ''artifact_ref'' = PStr (e_artifact_ref e)"
    "dict_get d ''core_trace_digest'' = PStr (e_core_trace_digest e)"
    "dict_get d ''next_request_signature'' = opt_str (e_next_request_signature e)"
    "dict_get d ''replay_verified'' = PBool True"
    "dict_get d ''reuse_mode'' = PStr ''verified_replay_hint''"
    "dict_get d ''schema_version'' = PStr PREFIX_CACHE_ENTRY_SCHEMA_VERSION"
    "dict_get d ''state_completeness'' = PStr (e_state_completeness e)"
    "dict_get d ''terminal_state_id'' = PStr (e_terminal_state_id e)"
    by (rule dict_get_Some, rule found; simp add: entry_to_dict_def entry_identity_eq)+
  obtain v where v: "map_of d ''key'' = Some v"
      "to_canonical_data v = to_canonical_data (PDict (canonical_entries (key_to_dict (e_key e))))"
    using canonical_entries_lookup(2) [OF eq, of "''key''"]
    by (auto simp: entry_to_dict_def entry_identity_eq)
  then have "to_canonical_data v = PDict (canonical_entries (key_to_dict (e_key e)))"
    by (simp add: canonical_PDict del: to_canonical_data.simps(8))
  then obtain k where k: "v = PDict k" "canonical_entries k = canonical_entries (key_to_dict (e_key e))"
    using canonical_eq_PDict by metis
  have "tidy v" using map_of_SomeD [OF v(1)] tidy(2) by (auto simp: list_all_iff)
  then have "key_from_dict v = Inr (e_key e)"
    using ok key_format.read_any_order [OF _ _ _ k(2)] by (simp add: k(1) entry_ok_def)
  with eq' fields ok v(1) show "entry_from_dict (PDict d) = Inr e"
    by (simp add: entry_from_dict_def monad_simps make_entry_Inr entry_ok_def dict_get_Some
        del: to_canonical_data.simps)
qed (simp_all add: entry_to_dict_tidy)

end
