(* ===== verification/Cache_Laws.thy ===== *)
theory Cache_Laws
  imports Cache_Formats
begin

text \<open>
  The prefix cache against its specification: a least-recently-used store whose entries are the
  longest recent sequence within both limits. The invariant of the reachable caches, the effect of
  each operation on the entries, and the round trip of the index.
\<close>

section \<open>Sizes\<close>

definition total_bytes :: "(string \<times> prefix_entry) list \<Rightarrow> int" where
  "total_bytes es = sum_list (map (estimated_bytes \<circ> snd) es)"

lemma total_bytes_simps [simp]:
  "total_bytes [] = 0"
  "total_bytes ((k, e) # es) = estimated_bytes e + total_bytes es"
  "total_bytes (es @ fs) = total_bytes es + total_bytes fs"
  by (simp_all add: total_bytes_def)

lemma estimated_bytes_nonneg [simp]: "0 \<le> estimated_bytes e"
  by (simp add: estimated_bytes_def)

lemma total_bytes_nonneg [simp]: "0 \<le> total_bytes es"
  by (induction es) auto

lemma delete_absent: "map_of es k = None \<Longrightarrow> AList.delete k es = es"
  by (simp add: map_of_eq_None_iff)

lemma total_bytes_delete:
  "distinct (map fst es) \<Longrightarrow> map_of es k = Some e \<Longrightarrow>
    total_bytes (AList.delete k es) = total_bytes es - estimated_bytes e"
proof (induction es)
  case (Cons x es)
  show ?case
  proof (cases "fst x = k")
    case True
    then have "k \<notin> fst ` set es" using Cons.prems(1) by auto
    with True Cons.prems show ?thesis by (cases x) simp
  next
    case False
    with Cons show ?thesis by (cases x) simp
  qed
qed simp

lemma update_append: "k \<notin> fst ` set es \<Longrightarrow> AList.update k e es = es @ [(k, e)]"
  by (induction es) auto

lemma update_delete: "AList.update k e (AList.delete k es) = AList.delete k es @ [(k, e)]"
  by (rule update_append) (rule delete_notin_dom)

section \<open>The specification: least recently used\<close>

definition fits :: "cache_policy \<Rightarrow> (string \<times> prefix_entry) list \<Rightarrow> bool" where
  "fits p es \<longleftrightarrow> int (length es) \<le> max_entries p \<and> total_bytes es \<le> max_bytes p"

fun tails :: "'a list \<Rightarrow> 'a list list" where
  "tails [] = [[]]"
| "tails (x # xs) = (x # xs) # tails xs"

text \<open>The longest final segment that is within the limits.\<close>

definition newest_fitting :: "cache_policy \<Rightarrow> (string \<times> prefix_entry) list \<Rightarrow> (string \<times> prefix_entry) list" where
  "newest_fitting p es = hd (filter (fits p) (tails es))"

definition lru_put :: "cache_policy \<Rightarrow> string \<Rightarrow> prefix_entry \<Rightarrow>
    (string \<times> prefix_entry) list \<Rightarrow> (string \<times> prefix_entry) list" where
  "lru_put p k e es = newest_fitting p (AList.delete k es @ [(k, e)])"

lemma over_limit_fits: "over_limit p (length es) (total_bytes es) \<longleftrightarrow> \<not> fits p es"
  by (auto simp: over_limit_def fits_def)

lemma fits_Nil: "policy_ok p \<Longrightarrow> fits p []"
  by (simp add: fits_def policy_ok_def)

lemma newest_fitting_Cons:
  "newest_fitting p (x # es) = (if fits p (x # es) then x # es else newest_fitting p es)"
  by (simp add: newest_fitting_def)

lemma evict_newest_fitting:
  assumes "policy_ok p"
  shows "\<exists>dropped. es = dropped @ newest_fitting p es \<and>
    evict p es (total_bytes es) =
      Inr (newest_fitting p es, total_bytes (newest_fitting p es), map fst dropped)"
proof (induction es)
  case Nil
  then show ?case
    using fits_Nil [OF assms] over_limit_fits [of p "[]"] by (simp add: newest_fitting_def)
next
  case (Cons x es)
  obtain k e where x: "x = (k, e)" by fastforce
  show ?case
  proof (cases "fits p (x # es)")
    case True
    then show ?thesis
      using over_limit_fits [of p "x # es"] by (simp add: newest_fitting_Cons x)
  next
    case False
    obtain dropped where d: "es = dropped @ newest_fitting p es"
        "evict p es (total_bytes es) =
          Inr (newest_fitting p es, total_bytes (newest_fitting p es), map fst dropped)"
      using Cons by blast
    have "over_limit p (Suc (length es)) (estimated_bytes e + total_bytes es)"
      using False over_limit_fits [of p "x # es"] by (simp add: x)
    then have "evict p (x # es) (total_bytes (x # es)) =
        Inr (newest_fitting p es, total_bytes (newest_fitting p es), k # map fst dropped)"
      by (simp add: x d(2))
    moreover have "x # es = (x # dropped) @ newest_fitting p es" using d(1) by simp
    ultimately show ?thesis
      using False by (intro exI [of _ "x # dropped"]) (simp add: newest_fitting_Cons x)
  qed
qed

lemma newest_fitting_fits: "policy_ok p \<Longrightarrow> fits p (newest_fitting p es)"
  by (induction es) (auto simp: newest_fitting_Cons newest_fitting_def fits_Nil)

lemma newest_fitting_id: "fits p es \<Longrightarrow> newest_fitting p es = es"
  by (cases es) (auto simp: newest_fitting_Cons newest_fitting_def)

lemma newest_fitting_last:
  assumes "policy_ok p" and "estimated_bytes e \<le> max_entry_bytes p"
  shows "\<exists>fs. newest_fitting p (es @ [(k, e)]) = fs @ [(k, e)]"
proof (induction es)
  case Nil
  have "fits p [(k, e)]" using assms by (simp add: fits_def policy_ok_def)
  then show ?case by (simp add: newest_fitting_Cons)
qed (simp add: newest_fitting_Cons)

section \<open>The invariant\<close>

definition entry_in_place :: "cache_policy \<Rightarrow> string \<times> prefix_entry \<Rightarrow> bool" where
  "entry_in_place p x \<longleftrightarrow> fst x = key_id (e_key (snd x)) \<and> entry_ok (snd x) \<and>
     estimated_bytes (snd x) \<le> max_entry_bytes p"

definition cache_inv :: "prefix_cache \<Rightarrow> bool" where
  "cache_inv c \<longleftrightarrow> policy_ok (policy c) \<and> distinct (map fst (centries c)) \<and>
     list_all (entry_in_place (policy c)) (centries c) \<and>
     cbytes c = total_bytes (centries c) \<and> fits (policy c) (centries c)"

lemma new_cache_inv: "policy_ok p \<Longrightarrow> cache_inv (new_cache p)"
  by (simp add: cache_inv_def new_cache_def fits_Nil)

lemma centries_remove [simp]: "centries (remove_entry k c) = AList.delete k (centries c)"
  by (auto simp: remove_entry_def delete_absent split: option.split)

lemma policy_remove [simp]: "policy (remove_entry k c) = policy c"
  by (simp add: remove_entry_def split: option.split)

lemma cbytes_remove:
  "distinct (map fst (centries c)) \<Longrightarrow> cbytes c = total_bytes (centries c) \<Longrightarrow>
    cbytes (remove_entry k c) = total_bytes (centries (remove_entry k c))"
  by (auto simp: remove_entry_def total_bytes_delete split: option.split)

lemma total_delete_le: "total_bytes (AList.delete k es) \<le> total_bytes es"
proof (induction es)
  case (Cons x es)
  then show ?case using estimated_bytes_nonneg [of "snd x"] by (cases x) (simp add: add_increasing)
qed simp

lemma length_delete_le: "length (AList.delete k es) \<le> length es"
  by (induction es) auto

lemma fits_delete: "fits p es \<Longrightarrow> fits p (AList.delete k es)"
  using total_delete_le [of k es] length_delete_le [of k es] by (simp add: fits_def)

lemma list_all_delete: "list_all P es \<Longrightarrow> list_all P (AList.delete k es)"
  by (induction es) auto

lemma remove_inv: "cache_inv c \<Longrightarrow> cache_inv (remove_entry k c)"
  by (simp add: cache_inv_def cbytes_remove fits_delete list_all_delete distinct_delete)

text \<open>Only the fields of the store matter.\<close>

lemma cache_inv_cong:
  "policy c = policy d \<Longrightarrow> centries c = centries d \<Longrightarrow> cbytes c = cbytes d \<Longrightarrow> cache_inv c = cache_inv d"
  by (simp add: cache_inv_def)

section \<open>What the operations do\<close>

text \<open>
  \<open>put\<close> refuses an entry that is too large, and otherwise stores what the specification stores and
  returns the keys of the entries it drops, the least recently used first.
\<close>

lemma put_refines:
  assumes "cache_inv c" and "estimated_bytes e \<le> max_entry_bytes (policy c)"
  shows "\<exists>dropped c'. put e c = Inr (c', map fst dropped) \<and> policy c' = policy c \<and>
    centries c' = lru_put (policy c) (key_id (e_key e)) e (centries c) \<and>
    cbytes c' = total_bytes (centries c') \<and>
    evictions c' = evictions c + length dropped \<and>
    AList.delete (key_id (e_key e)) (centries c) @ [(key_id (e_key e), e)] = dropped @ centries c'"
proof -
  let ?p = "policy c" and ?k = "key_id (e_key e)"
  let ?es = "AList.delete ?k (centries c) @ [(?k, e)]"
  have ok: "policy_ok ?p" and bytes: "cbytes (remove_entry ?k c) = total_bytes (AList.delete ?k (centries c))"
    using assms(1) cbytes_remove [of c ?k] by (simp_all add: cache_inv_def)
  obtain dropped where d: "?es = dropped @ newest_fitting ?p ?es"
      "evict ?p ?es (total_bytes ?es) =
        Inr (newest_fitting ?p ?es, total_bytes (newest_fitting ?p ?es), map fst dropped)"
    using evict_newest_fitting [OF ok, of ?es] by blast
  have "evictions (remove_entry ?k c) = evictions c"
    by (simp add: remove_entry_def split: option.split)
  then show ?thesis
    using assms(2) d by (intro exI [of _ dropped]) (simp add: put_def Let_def update_delete bytes lru_put_def)
qed

lemma put_too_large:
  "estimated_bytes e > max_entry_bytes (policy c) \<Longrightarrow>
    put e c = Inl (ValueError (''prefix cache entry is '' @ str_int (estimated_bytes e) @
      '' bytes; max_entry_bytes is '' @ str_int (max_entry_bytes (policy c))))"
  by (simp add: put_def Let_def)

lemma list_all_suffix: "list_all P (xs @ ys) \<Longrightarrow> list_all P ys"
  by simp

lemma put_inv:
  assumes "cache_inv c" and "entry_ok e" and "put e c = Inr (c', ks)"
  shows "cache_inv c'"
proof -
  let ?k = "key_id (e_key e)"
  have size: "estimated_bytes e \<le> max_entry_bytes (policy c)"
    using assms(3) put_too_large [of c e] by (cases "estimated_bytes e \<le> max_entry_bytes (policy c)") auto
  obtain dropped where d: "policy c' = policy c" "cbytes c' = total_bytes (centries c')"
      "centries c' = lru_put (policy c) ?k e (centries c)"
      "AList.delete ?k (centries c) @ [(?k, e)] = dropped @ centries c'"
    using put_refines [OF assms(1) size] assms(3) by auto
  have "distinct (map fst (AList.delete ?k (centries c) @ [(?k, e)]))"
    using assms(1) delete_notin_dom [of ?k "centries c"] by (simp add: cache_inv_def distinct_delete)
  then have "distinct (map fst (centries c'))" unfolding d(4) by simp
  moreover have "list_all (entry_in_place (policy c)) (AList.delete ?k (centries c) @ [(?k, e)])"
    using assms(1,2) size by (simp add: cache_inv_def list_all_delete entry_in_place_def)
  then have "list_all (entry_in_place (policy c)) (centries c')" unfolding d(4) by simp
  moreover have "fits (policy c) (centries c')"
    using assms(1) unfolding d(3) lru_put_def by (simp add: newest_fitting_fits cache_inv_def)
  ultimately show ?thesis using assms(1) d(1,2) by (simp add: cache_inv_def)
qed

lemma get_entries:
  "get r c = (c', found) \<Longrightarrow> found = map_of (centries c) (ref_id r) \<and> policy c' = policy c \<and>
    cbytes c' = cbytes c \<and>
    centries c' = (case found of None \<Rightarrow> centries c
      | Some e \<Rightarrow> AList.delete (ref_id r) (centries c) @ [(ref_id r, e)]) \<and>
    hits c' + misses c' = Suc (hits c + misses c)"
  by (auto simp: get_def Let_def update_delete split: option.splits)

lemma move_to_end_inv:
  assumes "cache_inv c" and "map_of (centries c) k = Some e"
  shows "cache_inv (c\<lparr>centries := AList.delete k (centries c) @ [(k, e)]\<rparr>)"
proof -
  have total: "total_bytes (AList.delete k (centries c)) = cbytes c - estimated_bytes e"
    using assms by (simp add: cache_inv_def total_bytes_delete)
  have "length (AList.delete k es) < length es" if "map_of es k = Some e" for es :: "(string \<times> prefix_entry) list"
    using that length_delete_le [of k] by (induction es) (auto simp: less_Suc_eq_le split: if_splits)
  from this [OF assms(2)] have "fits (policy c) (AList.delete k (centries c) @ [(k, e)])"
    using assms(1) total by (simp add: cache_inv_def fits_def)
  moreover have "entry_in_place (policy c) (k, e)"
    using assms map_of_SomeD [OF assms(2)] by (auto simp: cache_inv_def list_all_iff)
  ultimately show ?thesis
    using assms(1) total delete_notin_dom [of k "centries c"]
    by (simp add: cache_inv_def distinct_delete list_all_delete)
qed

lemma get_inv:
  assumes "cache_inv c" and "get r c = (c', found)"
  shows "cache_inv c'"
proof (cases found)
  case None
  with get_entries [OF assms(2)] assms(1) show ?thesis by (simp add: cache_inv_def)
next
  case (Some e)
  with get_entries [OF assms(2)] move_to_end_inv [OF assms(1), of "ref_id r" e]
  show ?thesis by (simp add: cache_inv_def)
qed

lemma prefix_result_canonical:
  "to_canonical_data (PDict (prefix_result t n s)) = to_canonical_data (PDict (prefix_result t' n' s')) \<longleftrightarrow>
    t = t' \<and> n = n' \<and> s = s'"
proof -
  have "to_canonical_data (opt_str n) = opt_str n" for n
    by (simp add: opt_str_def split: option.split)
  then have "canonical_entries (prefix_result t n s) = prefix_result t n s" for t n s
    by (simp add: canonical_entries_sorted prefix_result_def)
  then show ?thesis unfolding canonical_PDict by (simp add: prefix_result_def)
qed

lemma delete_idem_append: "k \<notin> fst ` set es \<Longrightarrow> AList.delete k (es @ [(k, e)]) = es"
  by (induction es) auto

text \<open>
  A returned verification is valid exactly if the recorded result is the one that was replayed; a valid
  entry stays and becomes the newest, any other is dropped.
\<close>

lemma verify_returns:
  assumes "verify_replayed_prefix r terminal next_signature trace c = (c', Inr v)"
  obtains e t n s where "map_of (centries c) (ref_id r) = Some e"
    and "trace = PStr t" and "next_signature = opt_str n" and "terminal = PStr s"
    and "v_key_id v = ref_id r"
    and "v_status v = (if e_core_trace_digest e = t \<and> e_next_request_signature e = n \<and>
          e_terminal_state_id e = s then CACHE_VALID else CACHE_INVALIDATED)"
    and "centries c' = AList.delete (ref_id r) (centries c) @
      (if v_status v = CACHE_VALID then [(ref_id r, e)] else [])"
    and "invalidations c' = invalidations c + (if v_status v = CACHE_VALID then 0 else 1)"
proof -
  let ?k = "ref_id r"
  obtain e where e: "map_of (centries c) ?k = Some e"
    using assms by (cases "map_of (centries c) ?k") (auto simp: verify_replayed_prefix_def get_def Let_def)
  let ?c1 = "c\<lparr>centries := AList.delete ?k (centries c) @ [(?k, e)], hits := Suc (hits c)\<rparr>"
  have got: "get (By_id ?k) c = (?c1, Some e)"
    by (simp add: get_def e update_delete Let_def)
  obtain t n s where args: "trace = PStr t" "next_signature = opt_str n" "terminal = PStr s"
      "t \<noteq> []" "n \<noteq> Some []" "s \<noteq> []"
    using assms by (auto simp: verify_replayed_prefix_def got Let_def monad_simps split: sum.splits)
  have actual: "sbind (check_string trace ''core_trace_digest'') (\<lambda>t.
      sbind (check_optional_string next_signature ''next_request_signature'') (\<lambda>n.
      sbind (check_string terminal ''terminal_state_id'') (\<lambda>s. Inr (prefix_result t n s)))) =
      Inr (prefix_result t n s)"
    using args by (simp add: monad_simps)
  have "invalidations (remove_entry k d) = invalidations d" for k d
    by (simp add: remove_entry_def split: option.split)
  then have "v_key_id v = ?k \<and>
      v_status v = (if e_core_trace_digest e = t \<and> e_next_request_signature e = n \<and>
        e_terminal_state_id e = s then CACHE_VALID else CACHE_INVALIDATED) \<and>
      centries c' = AList.delete ?k (centries c) @ (if v_status v = CACHE_VALID then [(?k, e)] else []) \<and>
      invalidations c' = invalidations c + (if v_status v = CACHE_VALID then 0 else 1)"
    using assms delete_idem_append [OF delete_notin_dom, of ?k "centries c" e]
    by (auto simp: verify_replayed_prefix_def got Let_def actual prefix_result_canonical
        simp del: to_canonical_data.simps split: if_splits)
  then show thesis using that e args by blast
qed

lemma verify_inv:
  assumes "cache_inv c"
  shows "cache_inv (fst (verify_replayed_prefix r t n s c))"
proof -
  obtain c1 found where g: "get (By_id (ref_id r)) c = (c1, found)" by fastforce
  have "cache_inv c1" by (rule get_inv [OF assms g])
  then show ?thesis
    using remove_inv [of c1 "ref_id r"]
    by (auto simp: verify_replayed_prefix_def g Let_def cache_inv_def split: option.split sum.split)
qed

lemma invalidate_all_inv: "cache_inv c \<Longrightarrow> cache_inv (invalidate_all ks c)"
proof (induction ks arbitrary: c)
  case (Cons k ks)
  have "cache_inv (remove_entry k c)" by (rule remove_inv [OF Cons.prems])
  then show ?case using Cons.IH by (simp add: Let_def cache_inv_def)
qed simp

lemma invalidate_all_effect:
  "centries (invalidate_all ks c) = filter (\<lambda>x. fst x \<notin> set ks) (centries c) \<and>
   policy (invalidate_all ks c) = policy c \<and>
   invalidations (invalidate_all ks c) = invalidations c + length ks"
proof (induction ks arbitrary: c)
  case (Cons k ks)
  have delete: "AList.delete k es = filter (\<lambda>x. fst x \<noteq> k) es" for es :: "(string \<times> prefix_entry) list"
    by (induction es) auto
  have "invalidations (remove_entry k c) = invalidations c"
    by (simp add: remove_entry_def split: option.split)
  then show ?case
    using Cons by (auto simp: Let_def delete intro: filter_cong)
qed simp

lemma retain_manifest_keeps:
  assumes "cache_inv c" and "retain_manifest (PStr h) c = Inr (c', stale)"
  shows "centries c' = filter (\<lambda>x. k_manifest_hash (e_key (snd x)) = h) (centries c)"
    and "stale = map fst (filter (\<lambda>x. k_manifest_hash (e_key (snd x)) \<noteq> h) (centries c))"
    and "cache_inv c'"
proof -
  let ?P = "\<lambda>x. k_manifest_hash (e_key (snd x)) \<noteq> h"
  have stale: "stale = map fst (filter ?P (centries c))" and c': "c' = invalidate_all stale c"
    using assms(2) by (auto simp: retain_manifest_def monad_simps Let_def split_def)
  have "filter (\<lambda>x. fst x \<notin> set (map fst (filter ?P es))) es = filter (\<lambda>x. \<not> ?P x) es"
    if "distinct (map fst es)" for es :: "(string \<times> prefix_entry) list"
    by (rule filter_cong) (use that in \<open>auto dest: eq_key_imp_eq_value\<close>)
  then show "centries c' = filter (\<lambda>x. k_manifest_hash (e_key (snd x)) = h) (centries c)"
    using assms(1) unfolding c' stale by (simp add: cache_inv_def invalidate_all_effect)
  show "stale = map fst (filter ?P (centries c))" by (rule stale)
  show "cache_inv c'" unfolding c' by (rule invalidate_all_inv [OF assms(1)])
qed

section \<open>The index\<close>

lemma put_fresh:
  assumes "cache_inv c" and "entry_in_place (policy c) (k, e)"
    and "k \<notin> fst ` set (centries c)" and "fits (policy c) (centries c @ [(k, e)])"
  shows "\<exists>c'. put e c = Inr (c', []) \<and> cache_inv c' \<and> policy c' = policy c \<and>
    centries c' = centries c @ [(k, e)] \<and> evictions c' = evictions c \<and>
    hits c' = hits c \<and> misses c' = misses c \<and> invalidations c' = invalidations c \<and> flushes c' = flushes c"
proof -
  have k: "k = key_id (e_key e)" and ok: "entry_ok e" and size: "estimated_bytes e \<le> max_entry_bytes (policy c)"
    using assms(2) by (simp_all add: entry_in_place_def)
  have es: "AList.delete k (centries c) @ [(k, e)] = centries c @ [(k, e)]"
    using assms(3) by simp
  obtain dropped c' where c': "put e c = Inr (c', map fst dropped)" "policy c' = policy c"
      "centries c' = lru_put (policy c) k e (centries c)" "evictions c' = evictions c + length dropped"
      "AList.delete k (centries c) @ [(k, e)] = dropped @ centries c'"
    using put_refines [OF assms(1) size] unfolding k by blast
  have "centries c' = centries c @ [(k, e)]"
    unfolding c'(3) lru_put_def es by (rule newest_fitting_id [OF assms(4)])
  moreover from this have "dropped = []" using c'(5) unfolding es by simp
  moreover have "map_of (centries c) k = None" using assms(3) by (simp add: map_of_eq_None_iff)
  then have "remove_entry k c = c" by (simp add: remove_entry_def)
  then have "hits c' = hits c \<and> misses c' = misses c \<and> invalidations c' = invalidations c \<and> flushes c' = flushes c"
    using c'(1) by (auto simp: put_def Let_def monad_simps k [symmetric] split: if_splits prod.splits)
  ultimately show ?thesis using c' put_inv [OF assms(1) ok c'(1)] by simp
qed

lemma fits_prefix: "fits p (es @ fs) \<Longrightarrow> fits p es"
  using total_bytes_nonneg [of fs] by (simp add: fits_def del: total_bytes_nonneg)

lemma put_all_rebuilds:
  assumes "cache_inv c" and "policy c = p" and "distinct (map fst (centries c @ es))"
    and "list_all (entry_in_place p) es" and "fits p (centries c @ es)"
  shows "\<exists>c'. put_all (map (\<lambda>(k, e). PDict (canonical_entries (entry_to_dict e))) es) c = Inr c' \<and>
    policy c' = p \<and> centries c' = centries c @ es \<and> cache_inv c' \<and> evictions c' = evictions c \<and>
    hits c' = hits c \<and> misses c' = misses c \<and> invalidations c' = invalidations c \<and> flushes c' = flushes c"
  using assms
proof (induction es arbitrary: c)
  case (Cons x es)
  obtain k e where x: "x = (k, e)" by fastforce
  have read: "entry_from_dict (PDict (canonical_entries (entry_to_dict e))) = Inr e"
    using Cons.prems(4) by (intro entry_format.canonical_roundtrip) (simp add: x entry_in_place_def)
  have "fits p (centries c @ [x])"
    using fits_prefix [of p "centries c @ [x]" es] Cons.prems(5) by simp
  then obtain c1 where c1: "put e c = Inr (c1, [])" "cache_inv c1" "policy c1 = p"
      "centries c1 = centries c @ [x]" "evictions c1 = evictions c" "hits c1 = hits c"
      "misses c1 = misses c" "invalidations c1 = invalidations c" "flushes c1 = flushes c"
    using put_fresh [of c k e] Cons.prems by (auto simp: x)
  have "distinct (map fst (centries c1 @ es))" "fits p (centries c1 @ es)"
    using Cons.prems(3,5) by (simp_all add: c1(4))
  from Cons.IH [OF c1(2,3) this(1) _ this(2)] Cons.prems(4) obtain c' where
      "put_all (map (\<lambda>(k, e). PDict (canonical_entries (entry_to_dict e))) es) c1 = Inr c'"
      "policy c' = p" "centries c' = centries c1 @ es" "cache_inv c'" "evictions c' = evictions c1"
      "hits c' = hits c1" "misses c' = misses c1" "invalidations c' = invalidations c1"
      "flushes c' = flushes c1"
    by auto
  then show ?case by (simp add: x read c1)
qed simp

lemma index_identity_eq:
  "canonical_entries
     [(''entries'', PList (map (\<lambda>(k, e). PDict (entry_to_dict e)) es)),
      (''policy'', PDict (policy_to_dict p)),
      (''schema_version'', PStr PREFIX_CACHE_INDEX_SCHEMA_VERSION)] =
    [(''entries'', PList (map (\<lambda>(k, e). PDict (canonical_entries (entry_to_dict e))) es)),
     (''policy'', PDict (canonical_entries (policy_to_dict p))),
     (''schema_version'', PStr PREFIX_CACHE_INDEX_SCHEMA_VERSION)]"
  by (simp add: canonical_entries_sorted canonical_PDict split_def del: to_canonical_data.simps(8))

text \<open>What an index gives back: the entries in their order, under the policy, with fresh counters.\<close>

definition reloaded :: "prefix_cache \<Rightarrow> prefix_cache" where
  "reloaded c = (new_cache (policy c))\<lparr>centries := centries c, cbytes := cbytes c\<rparr>"

lemma index_roundtrip_eq:
  assumes "cache_inv c"
  shows "from_index_dict (PDict (to_index_dict c)) None = Inr (reloaded c)"
proof -
  let ?entries = "PList (map (\<lambda>(k, e). PDict (canonical_entries (entry_to_dict e))) (centries c))"
  let ?policy = "PDict (canonical_entries (policy_to_dict (policy c)))"
  let ?identity = "[(''entries'', ?entries), (''policy'', ?policy),
      (''schema_version'', PStr PREFIX_CACHE_INDEX_SCHEMA_VERSION)]"
  have index: "to_index_dict c = ?identity @ [(''index_id'', PStr (safe_digest ?identity ''prefixindex_''))]"
    unfolding to_index_dict_def index_identity_eq Let_def ..
  have "dict_safe ?identity"
    using entry_format.write_safe policy_format.write_safe by (simp add: list_all_iff split_def)
  then have digest: "stable_digest (PDict ?identity) ''prefixindex_'' = Inr (safe_digest ?identity ''prefixindex_'')"
    by (rule safe_digest_eq)
  have policy: "policy_from_dict (canonical_entries (policy_to_dict (policy c))) = Inr (policy c)"
    using assms by (intro policy_format.canonical_roundtrip) (simp add: cache_inv_def)
  obtain c' where c': "put_all (map (\<lambda>(k, e). PDict (canonical_entries (entry_to_dict e))) (centries c))
        (new_cache (policy c)) = Inr c'"
      "policy c' = policy c" "centries c' = centries c" "cache_inv c'"
      "evictions c' = 0" "hits c' = 0" "misses c' = 0" "invalidations c' = 0" "flushes c' = 0"
    using put_all_rebuilds [of "new_cache (policy c)" "policy c" "centries c"] assms
    by (auto simp: cache_inv_def new_cache_def fits_Nil)
  have "cbytes c' = cbytes c" using assms c'(3,4) by (simp add: cache_inv_def)
  then have "c'\<lparr>mutations_since_flush := 0\<rparr> = reloaded c"
    using c' by (simp add: reloaded_def new_cache_def)
  then show ?thesis
    using digest policy c'(1) by (simp add: from_index_dict_def index as_dict_or_empty_def)
qed

lemma put_all_inv: "put_all vs c = Inr c' \<Longrightarrow> cache_inv c \<Longrightarrow> cache_inv c'"
proof (induction vs arbitrary: c)
  case (Cons v vs)
  then obtain e c1 ks where e: "entry_from_dict v = Inr e" "put e c = Inr (c1, ks)" "put_all vs c1 = Inr c'"
    by (auto simp: monad_simps)
  have "entry_ok e"
    using e(1) entry_format.read_valid by (cases v) (auto simp: entry_from_dict_def)
  then show ?case using Cons put_inv e(2,3) by blast
qed simp

lemma from_index_inv:
  assumes "from_index_dict v override = Inr c" and "case override of None \<Rightarrow> True | Some p \<Rightarrow> policy_ok p"
  shows "cache_inv c"
proof -
  obtain d where v: "v = PDict d" using assms(1) by (cases v) (auto simp: from_index_dict_def)
  obtain vs where "dict_get d ''entries'' = PList vs"
    using assms(1) by (cases "dict_get d ''entries''") (auto simp: from_index_dict_def v monad_simps split: if_splits)
  then obtain q c1 where *: "policy_from_dict (as_dict_or_empty (dict_get d ''policy'')) = Inr q"
      "put_all vs (new_cache (case override of None \<Rightarrow> q | Some p \<Rightarrow> p)) = Inr c1"
      "c = c1\<lparr>mutations_since_flush := 0\<rparr>"
    using assms(1) by (auto simp: from_index_dict_def v monad_simps split: if_splits)
  obtain p where "policy_ok p" "put_all vs (new_cache p) = Inr c1"
    using * assms(2) policy_format.read_valid [OF *(1)] by (cases override) auto
  with *(3) show ?thesis using put_all_inv [OF _ new_cache_inv] by (simp add: cache_inv_def)
qed

section \<open>Reachable caches\<close>

datatype cache_op =
    Put prefix_entry
  | Get cache_ref
  | Verify cache_ref pyval pyval pyval
  | Retain pyval
  | Flush

text \<open>The state an operation leaves behind, an exception included.\<close>

fun after_op :: "cache_op \<Rightarrow> prefix_cache \<Rightarrow> prefix_cache" where
  "after_op (Put e) c = (case put e c of Inl err \<Rightarrow> c | Inr (c', ks) \<Rightarrow> c')"
| "after_op (Get r) c = fst (get r c)"
| "after_op (Verify r t n s) c = fst (verify_replayed_prefix r t n s c)"
| "after_op (Retain h) c = (case retain_manifest h c of Inl err \<Rightarrow> c | Inr (c', ks) \<Rightarrow> c')"
| "after_op Flush c = mark_flushed c"

text \<open>The entry of a \<open>put\<close> is a constructed one.\<close>

fun op_ok :: "cache_op \<Rightarrow> bool" where
  "op_ok (Put e) = entry_ok e"
| "op_ok opn = True"

inductive cache_reachable :: "prefix_cache \<Rightarrow> bool" where
  fresh: "policy_ok p \<Longrightarrow> cache_reachable (new_cache p)"
| loaded: "from_index_dict v override = Inr c \<Longrightarrow>
    (case override of None \<Rightarrow> True | Some p \<Rightarrow> policy_ok p) \<Longrightarrow> cache_reachable c"
| step: "cache_reachable c \<Longrightarrow> op_ok opn \<Longrightarrow> cache_reachable (after_op opn c)"

lemma after_op_inv: "cache_inv c \<Longrightarrow> op_ok opn \<Longrightarrow> cache_inv (after_op opn c)"
proof (cases opn)
  case (Put e)
  then show "cache_inv c \<Longrightarrow> op_ok opn \<Longrightarrow> cache_inv (after_op opn c)"
    using put_inv by (auto split: sum.split)
next
  case (Get r)
  then show "cache_inv c \<Longrightarrow> op_ok opn \<Longrightarrow> cache_inv (after_op opn c)"
    using get_inv by (metis after_op.simps(2) prod.collapse)
next
  case (Verify r t n s)
  then show "cache_inv c \<Longrightarrow> op_ok opn \<Longrightarrow> cache_inv (after_op opn c)"
    using verify_inv by simp
next
  case (Retain h)
  then show "cache_inv c \<Longrightarrow> op_ok opn \<Longrightarrow> cache_inv (after_op opn c)"
    using invalidate_all_inv by (auto simp: retain_manifest_def monad_simps Let_def split: sum.split)
next
  case Flush
  then show "cache_inv c \<Longrightarrow> op_ok opn \<Longrightarrow> cache_inv (after_op opn c)"
    by (simp add: mark_flushed_def cache_inv_def)
qed

lemma cache_reachable_inv: "cache_reachable c \<Longrightarrow> cache_inv c"
  by (induction rule: cache_reachable.induct) (auto intro: new_cache_inv from_index_inv after_op_inv)

end
