(* ===== verification/Strategy.thy ===== *)
theory Strategy
  imports Cache_Model Action_Model "HOL-Library.Product_Lexorder"
begin

text \<open>
  \<open>engine/search/strategy.py\<close>: the order in which random and beam search try the actions of a node,
  the report that a strategy keeps the candidates, and the choice of a strategy by an experiment.
  The parameters of \<open>mcts_v1\<close> are floats; their constructor is an argument of
  \<open>strategy_from_experiment\<close>, and its scores are not modelled.
\<close>

definition SEARCH_STRATEGY_CONFORMANCE_SCHEMA_VERSION :: string where
  "SEARCH_STRATEGY_CONFORMANCE_SCHEMA_VERSION = ''search-strategy-conformance-v1''"
definition SEARCH_STRATEGY_CONFORMANCE_REPORT_SCHEMA_VERSION :: string where
  "SEARCH_STRATEGY_CONFORMANCE_REPORT_SCHEMA_VERSION = ''search-strategy-conformance-report-v1''"
definition SEARCH_STRATEGY_EVIDENCE_SCHEMA_VERSION :: string where
  "SEARCH_STRATEGY_EVIDENCE_SCHEMA_VERSION = ''search-strategy-evidence-v1''"
definition RANDOM_SEARCH_STRATEGY_SCHEMA_VERSION :: string where
  "RANDOM_SEARCH_STRATEGY_SCHEMA_VERSION = ''random-search-strategy-v1''"
definition BEAM_SEARCH_STRATEGY_SCHEMA_VERSION :: string where
  "BEAM_SEARCH_STRATEGY_SCHEMA_VERSION = ''beam-search-strategy-v1''"

section \<open>Arguments\<close>

definition require_integer :: "pyval \<Rightarrow> string \<Rightarrow> int \<Rightarrow> py_error + int" where
  "require_integer v name minimum =
    (case v of
       PInt i \<Rightarrow> if i < minimum then Inl (ValueError (name @ '' must be an integer >= '' @ str_int minimum))
                else Inr i
     | _ \<Rightarrow> Inl (ValueError (name @ '' must be an integer >= '' @ str_int minimum)))"

definition check_parameters :: "pydict \<Rightarrow> string list \<Rightarrow> string list \<Rightarrow> py_error + pydict" where
  "check_parameters d known needed =
    (let unknown = sort (filter (\<lambda>k. k \<notin> set known) (remdups (map fst d)));
         missing = sort (filter (\<lambda>k. k \<notin> fst ` set d) needed)
     in if unknown \<noteq> [] then Inl (ValueError (''unknown strategy parameters: '' @ repr_strs unknown))
        else if missing \<noteq> [] then Inl (ValueError (''missing strategy parameters: '' @ repr_strs missing))
        else Inr d)"

fun check_names :: "(string \<times> string) list \<Rightarrow> py_error + unit" where
  "check_names [] = Inr ()"
| "check_names ((name, v) # rest) =
     (if v = [] then Inl (ValueError (name @ '' must be a non-empty string'')) else check_names rest)"

definition deterministic_decision_key ::
  "int \<Rightarrow> string \<Rightarrow> string \<Rightarrow> string \<Rightarrow> string \<Rightarrow> string \<Rightarrow> py_error + string"
where
  "deterministic_decision_key seed strategy version node purpose candidate =
    sbind (require_integer (PInt seed) ''seed'' 0) (\<lambda>_.
    sbind (check_names
      [(''strategy_id'', strategy), (''strategy_version'', version), (''node_id'', node),
       (''purpose'', purpose), (''candidate_id'', candidate)]) (\<lambda>_.
    stable_digest (PDict
      [(''candidate_id'', PStr candidate),
       (''node_id'', PStr node),
       (''purpose'', PStr purpose),
       (''seed'', PInt seed),
       (''strategy_id'', PStr strategy),
       (''strategy_version'', PStr version)]) ''decisionkey_''))"

section \<open>Strategies\<close>

datatype search_strategy =
    Random_Search (seed: int)
  | Beam_Search (beam_width: int) (seed: int)

fun execution_mode :: "search_strategy \<Rightarrow> string" where
  "execution_mode (Random_Search s) = ''depth_first''"
| "execution_mode (Beam_Search w s) = ''beam''"

fun strategy_id :: "search_strategy \<Rightarrow> string" where
  "strategy_id (Random_Search s) = ''random_search_v1''"
| "strategy_id (Beam_Search w s) = ''beam_search_v1''"

fun strategy_version :: "search_strategy \<Rightarrow> string" where
  "strategy_version (Random_Search s) = RANDOM_SEARCH_STRATEGY_SCHEMA_VERSION"
| "strategy_version (Beam_Search w s) = BEAM_SEARCH_STRATEGY_SCHEMA_VERSION"

fun parameters :: "search_strategy \<Rightarrow> pydict" where
  "parameters (Random_Search s) = [(''seed'', PInt s)]"
| "parameters (Beam_Search w s) = [(''beam_width'', PInt w), (''seed'', PInt s)]"

definition make_random :: "pyval \<Rightarrow> py_error + search_strategy" where
  "make_random s = sbind (require_integer s ''Random Search seed'' 0) (\<lambda>s. Inr (Random_Search s))"

definition make_beam :: "pyval \<Rightarrow> pyval \<Rightarrow> py_error + search_strategy" where
  "make_beam w s =
    sbind (require_integer w ''beam_width'' 1) (\<lambda>w.
    sbind (require_integer s ''seed'' 0) (\<lambda>s. Inr (Beam_Search w s)))"

definition beam_from_mapping :: "pydict \<Rightarrow> py_error + search_strategy" where
  "beam_from_mapping d =
    sbind (check_parameters d [''beam_width'', ''seed''] [''beam_width'']) (\<lambda>d.
    make_beam (dict_get d ''beam_width'') (get_or d ''seed'' (PInt 0)))"

text \<open>\<open>sorted(actions, key=...)\<close>: the keys are computed first, for all actions in order.\<close>

definition action_sort_key :: "search_strategy \<Rightarrow> string \<Rightarrow> action \<Rightarrow> py_error + (string \<times> string)" where
  "action_sort_key st node a =
    sbind (deterministic_decision_key (seed st) (strategy_id st) (strategy_version st) node
      ''expand_action_order'' (action_id a)) (\<lambda>k. Inr (k, action_id a))"

definition order_actions :: "search_strategy \<Rightarrow> string \<Rightarrow> action list \<Rightarrow> py_error + action list" where
  "order_actions st node actions =
    sbind (sseq (map (action_sort_key st node) actions)) (\<lambda>ks.
    Inr (map snd (sort_key fst (zip ks actions))))"

section \<open>Reports\<close>

definition conformance_report :: "search_strategy \<Rightarrow> string \<Rightarrow> action list \<Rightarrow> py_error + pydict" where
  "conformance_report st node actions =
    sbind (check_names
      [(''strategy.execution_mode'', execution_mode st), (''strategy.strategy_id'', strategy_id st),
       (''strategy.schema_version'', strategy_version st)]) (\<lambda>_.
    let input = map action_id actions in
    if length input \<noteq> card (set input)
    then Inl (ValueError ''conformance actions must have unique action IDs'')
    else
    sbind (order_actions st node actions) (\<lambda>first.
    sbind (order_actions st node actions) (\<lambda>second.
    let ids = map action_id first in
    if ids \<noteq> map action_id second
    then Inl (ValueError ''strategy action ordering is not deterministic'')
    else if length ids \<noteq> length input \<or> set ids \<noteq> set input
    then Inl (ValueError ''strategy action ordering must preserve candidates exactly'')
    else
    let identity =
      [(''execution_mode'', PStr (execution_mode st)),
       (''ordered_action_ids'', PList (map PStr ids)),
       (''parameters'', to_canonical_data (PDict (parameters st))),
       (''schema_version'', PStr SEARCH_STRATEGY_CONFORMANCE_REPORT_SCHEMA_VERSION),
       (''strategy_conformance_schema_version'', PStr SEARCH_STRATEGY_CONFORMANCE_SCHEMA_VERSION),
       (''strategy_id'', PStr (strategy_id st)),
       (''strategy_schema_version'', PStr (strategy_version st)),
       (''test_node_id'', PStr node)]
    in sbind (stable_digest (PDict identity) ''strategyconf_'') (\<lambda>i.
       Inr (identity @ [(''conformance_id'', PStr i)])))))"

definition strategy_evidence :: "search_strategy \<Rightarrow> pyval list \<Rightarrow> py_error + pydict" where
  "strategy_evidence st updates =
    (let identity =
      [(''execution_mode'', PStr (execution_mode st)),
       (''logical_updates'', PList (map to_canonical_data updates)),
       (''parameters'', to_canonical_data (PDict (parameters st))),
       (''schema_version'', PStr SEARCH_STRATEGY_EVIDENCE_SCHEMA_VERSION),
       (''strategy_id'', PStr (strategy_id st)),
       (''strategy_schema_version'', PStr (strategy_version st))]
     in sbind (stable_digest (PDict identity) ''strategyevidence_'') (\<lambda>i.
        Inr (identity @ [(''evidence_id'', PStr i)])))"

section \<open>The choice of a strategy\<close>

definition shared_parameter_names :: "string list" where
  "shared_parameter_names = [''max_frontier_actions'', ''parallel'', ''termination'']"

definition own_parameters :: "pydict \<Rightarrow> pydict" where
  "own_parameters d = filter (\<lambda>(k, v). k \<notin> set shared_parameter_names) d"

definition strategy_from_experiment ::
  "(pydict \<Rightarrow> py_error + 'm) \<Rightarrow> pydict \<Rightarrow> py_error + (search_strategy + 'm)"
where
  "strategy_from_experiment mcts_parameters experiment =
    sbind (mapping_or (dict_get experiment ''search'') ''experiment.search'') (\<lambda>search.
    let chosen = dict_get search ''strategy'' in
    sbind (mapping_or (get_or search ''parameters'' (PDict [])) ''experiment.search.parameters'') (\<lambda>ps.
    if chosen = PStr ''random_search_v1''
    then sbind (check_parameters ps (''seed'' # shared_parameter_names) []) (\<lambda>checked.
         sbind (require_integer (get_or checked ''seed'' (PInt 0)) ''seed'' 0) (\<lambda>s.
         sbind (make_random (PInt s)) (\<lambda>st. Inr (Inl st))))
    else if chosen = PStr ''beam_search_v1''
    then sbind (check_parameters ps (''beam_width'' # ''seed'' # shared_parameter_names) [''beam_width'']) (\<lambda>checked.
         sbind (beam_from_mapping (own_parameters checked)) (\<lambda>st. Inr (Inl st)))
    else if chosen = PStr ''mcts_v1''
    then sbind (check_parameters ps
           ([''exploration_constant'', ''reward_ceiling'', ''reward_floor'', ''seed'', ''simulations''] @
            shared_parameter_names) [''reward_ceiling'', ''reward_floor'', ''simulations'']) (\<lambda>checked.
         sbind (mcts_parameters (own_parameters checked)) (\<lambda>m. Inr (Inr m)))
    else Inl (NotImplementedError (''unsupported search strategy '' @ py_repr chosen))))"

end
