(* ===== verification/Strategy_Laws.thy ===== *)
theory Strategy_Laws
  imports Strategy
begin

text \<open>
  The orders of the strategies: a permutation of the actions that does not depend on the order in
  which they are given, so that the conformance report accepts it; and what an experiment with an
  accepted strategy can say about the prefix cache.
\<close>

section \<open>Ordering\<close>

definition strategy_ok :: "search_strategy \<Rightarrow> bool" where
  "strategy_ok st \<longleftrightarrow> 0 \<le> seed st"

lemma check_names_Inr: "check_names ns = Inr u \<longleftrightarrow> list_all (\<lambda>(name, v). v \<noteq> []) ns"
  by (induction ns rule: check_names.induct) auto

lemma names_nonempty [simp]: "execution_mode st \<noteq> []" "strategy_id st \<noteq> []" "strategy_version st \<noteq> []"
  by (cases st; simp add: RANDOM_SEARCH_STRATEGY_SCHEMA_VERSION_def BEAM_SEARCH_STRATEGY_SCHEMA_VERSION_def)+

lemma decision_key_total:
  "(\<exists>k. deterministic_decision_key s i v n p c = Inr k) \<longleftrightarrow>
    0 \<le> s \<and> i \<noteq> [] \<and> v \<noteq> [] \<and> n \<noteq> [] \<and> p \<noteq> [] \<and> c \<noteq> []"
proof -
  have "\<exists>k. stable_digest (PDict
      [(''candidate_id'', PStr c), (''node_id'', PStr n), (''purpose'', PStr p), (''seed'', PInt s),
       (''strategy_id'', PStr i), (''strategy_version'', PStr v)]) ''decisionkey_'' = Inr k"
    by (simp add: stable_digest_total)
  then show ?thesis
    by (auto simp: deterministic_decision_key_def require_integer_def monad_simps check_names_Inr)
qed

lemma sort_key_total:
  "(\<exists>k. action_sort_key st n a = Inr k) \<longleftrightarrow> strategy_ok st \<and> n \<noteq> [] \<and> action_id a \<noteq> []"
  using decision_key_total [of "seed st" "strategy_id st" "strategy_version st" n "''expand_action_order''" "action_id a"]
  by (auto simp: action_sort_key_def monad_simps strategy_ok_def)

lemma sort_key_snd: "action_sort_key st n a = Inr k \<Longrightarrow> snd k = action_id a"
  by (cases k) (auto simp: action_sort_key_def monad_simps)

text \<open>The key of an action, when it has one.\<close>

definition rank :: "search_strategy \<Rightarrow> string \<Rightarrow> action \<Rightarrow> string \<times> string" where
  "rank st n a = projr (action_sort_key st n a)"

lemma rank_snd: "\<exists>k. action_sort_key st n a = Inr k \<Longrightarrow> snd (rank st n a) = action_id a"
  using sort_key_snd by (elim exE) (simp add: rank_def)

lemma zip_sort: "map snd (sort_key fst (zip (map f xs) xs)) = sort_key f xs"
proof (induction xs)
  case (Cons x xs)
  have "map snd (insort_key fst (f x, x) zs) = insort_key f x (map snd zs)"
    if "list_all (\<lambda>z. fst z = f (snd z)) zs" for zs :: "('b \<times> 'a) list"
    using that by (induction zs) auto
  moreover have "list_all (\<lambda>z. fst z = f (snd z)) (sort_key fst (zip (map f xs) xs))"
    by (auto simp: list_all_iff set_zip)
  ultimately show ?case using Cons by simp
qed simp

lemma map_Inr_iff: "(\<exists>ys. map f xs = map Inr ys) \<longleftrightarrow> (\<forall>x \<in> set xs. \<exists>y. f x = Inr y)"
proof (induction xs)
  case (Cons x xs)
  have "(\<exists>ys. map f (x # xs) = map Inr ys) \<longleftrightarrow> (\<exists>y. f x = Inr y) \<and> (\<exists>ys. map f xs = map Inr ys)"
  proof safe
    fix ys assume "map f (x # xs) = map Inr ys"
    then show "\<exists>y. f x = Inr y" "\<exists>ys. map f xs = map Inr ys" by (cases ys; auto)+
  next
    fix y ys assume "f x = Inr y" "map f xs = map Inr ys"
    then have "map f (x # xs) = map Inr (y # ys)" by simp
    then show "\<exists>ys. map f (x # xs) = map Inr ys" by blast
  qed
  with Cons show ?case by simp
qed simp

lemma order_actions_Inr:
  "order_actions st n as = Inr bs \<longleftrightarrow>
    list_all (\<lambda>a. strategy_ok st \<and> n \<noteq> [] \<and> action_id a \<noteq> []) as \<and> bs = sort_key (rank st n) as"
proof -
  have "(\<exists>ks. map (action_sort_key st n) as = map Inr ks) \<longleftrightarrow>
      list_all (\<lambda>a. strategy_ok st \<and> n \<noteq> [] \<and> action_id a \<noteq> []) as"
    unfolding map_Inr_iff list_all_iff sort_key_total [symmetric] by simp
  moreover have "map (rank st n) as = ks" if "map (action_sort_key st n) as = map Inr ks" for ks
  proof (rule nth_equalityI)
    show len: "length (map (rank st n) as) = length ks" using map_eq_imp_length_eq [OF that] by simp
    fix i assume "i < length (map (rank st n) as)"
    then show "map (rank st n) as ! i = ks ! i"
      using arg_cong [OF that, of "\<lambda>zs. zs ! i"] len by (simp add: rank_def)
  qed
  ultimately show ?thesis
    by (auto simp: order_actions_def monad_simps sseq_eq_Inr zip_sort)
qed

lemma sort_key_unique:
  assumes "mset xs = mset ys" and "inj_on f (set xs)"
  shows "sort_key f xs = sort_key f ys"
proof (rule properties_for_sort_key)
  show "mset (sort_key f ys) = mset xs" using assms(1) by simp
  show "sorted (map f (sort_key f ys))" by simp
next
  fix k assume "k \<in> set (sort_key f ys)"
  then have k: "k \<in> set xs" using assms(1) by (metis set_mset_mset set_sort)
  have "filter (\<lambda>x. f k = f x) zs = filter (\<lambda>x. x = k) zs" if "set zs \<subseteq> set xs" for zs
    by (rule filter_cong) (use assms(2) k that in \<open>auto dest: inj_onD\<close>)
  moreover have "filter (\<lambda>x. x = k) zs = replicate (count (mset zs) k) k" for zs
    by (induction zs) auto
  moreover have "set (sort_key f ys) = set xs" using assms(1) by (metis set_mset_mset set_sort)
  ultimately show "filter (\<lambda>x. f k = f x) (sort_key f ys) = filter (\<lambda>x. f k = f x) xs"
    using assms(1) by simp
qed

lemma order_ignores_presentation:
  assumes "mset as = mset bs" and "distinct (map action_id as)"
  shows "order_actions st n as = Inr cs \<longleftrightarrow> order_actions st n bs = Inr cs"
proof -
  have set: "set as = set bs" using assms(1) by (rule mset_eq_setD)
  show ?thesis
  proof (cases "list_all (\<lambda>a. strategy_ok st \<and> n \<noteq> [] \<and> action_id a \<noteq> []) as")
    case True
    then have id: "snd (rank st n a) = action_id a" if "a \<in> set as" for a
      using that by (intro rank_snd sort_key_total [THEN iffD2]) (simp add: list_all_iff)
    have "inj_on (rank st n) (set as)"
      using assms(2) id by (auto simp: distinct_map inj_on_def) (metis id)
    from sort_key_unique [OF assms(1) this] True show ?thesis
      unfolding order_actions_Inr using set by (simp add: list_all_iff)
  next
    case False
    then have "\<not> list_all (\<lambda>a. strategy_ok st \<and> n \<noteq> [] \<and> action_id a \<noteq> []) bs"
      using set by (simp add: list_all_iff)
    with False show ?thesis unfolding order_actions_Inr by blast
  qed
qed

section \<open>The report\<close>

lemma parameters_safe [simp]: "dict_safe (parameters st)"
  by (cases st) simp_all

lemma conformance_report_Inr:
  "(\<exists>d. conformance_report st n as = Inr d) \<longleftrightarrow>
    distinct (map action_id as) \<and> list_all (\<lambda>a. strategy_ok st \<and> n \<noteq> [] \<and> action_id a \<noteq> []) as"
proof (cases "distinct (map action_id as) \<and> list_all (\<lambda>a. strategy_ok st \<and> n \<noteq> [] \<and> action_id a \<noteq> []) as")
  case True
  then have "order_actions st n as = Inr (sort_key (rank st n) as)" by (simp add: order_actions_Inr)
  moreover have "card (set (map action_id as)) = length as"
    using True by (metis distinct_card length_map)
  moreover have "\<exists>i. stable_digest (PDict
      [(''execution_mode'', PStr (execution_mode st)),
       (''ordered_action_ids'', PList (map PStr (map action_id (sort_key (rank st n) as)))),
       (''parameters'', to_canonical_data (PDict (parameters st))),
       (''schema_version'', PStr SEARCH_STRATEGY_CONFORMANCE_REPORT_SCHEMA_VERSION),
       (''strategy_conformance_schema_version'', PStr SEARCH_STRATEGY_CONFORMANCE_SCHEMA_VERSION),
       (''strategy_id'', PStr (strategy_id st)),
       (''strategy_schema_version'', PStr (strategy_version st)),
       (''test_node_id'', PStr n)]) ''strategyconf_'' = Inr i"
    by (simp add: stable_digest_total list_all_iff del: to_canonical_data.simps)
  ultimately show ?thesis
    using True by (auto simp: conformance_report_def check_names_Inr monad_simps Let_def
        simp del: to_canonical_data.simps)
next
  case False
  then show ?thesis
    using card_distinct [of "map action_id as"]
    by (auto simp: conformance_report_def monad_simps Let_def order_actions_Inr)
qed

section \<open>Experiments\<close>

lemma check_parameters_known: "check_parameters d known needed = Inr e \<Longrightarrow> e = d \<and> fst ` set d \<subseteq> set known"
proof -
  have sort_Nil: "sort xs = [] \<longleftrightarrow> xs = []" for xs :: "string list"
    by (metis length_0_conv length_sort)
  show "check_parameters d known needed = Inr e \<Longrightarrow> e = d \<and> fst ` set d \<subseteq> set known"
    by (auto simp: check_parameters_def Let_def sort_Nil filter_empty_conv split: if_splits)
qed

lemma strategy_parameters_known:
  assumes "strategy_from_experiment mcts experiment = Inr st"
  obtains search ps where "dict_get experiment ''search'' = PDict search"
    and "get_or search ''parameters'' (PDict []) = PDict ps"
    and "''performance'' \<notin> fst ` set ps"
proof -
  obtain search where s: "dict_get experiment ''search'' = PDict search"
    using assms by (auto simp: strategy_from_experiment_def mapping_or_def monad_simps split: pyval.splits)
  obtain ps where ps: "get_or search ''parameters'' (PDict []) = PDict ps"
    using assms by (auto simp: strategy_from_experiment_def mapping_or_def s monad_simps Let_def split: pyval.splits)
  obtain known needed e where "check_parameters ps known needed = Inr e" and "''performance'' \<notin> set known"
    using assms by (auto simp: strategy_from_experiment_def mapping_or_def s ps monad_simps Let_def
        shared_parameter_names_def split: if_splits)
  with check_parameters_known have "''performance'' \<notin> fst ` set ps" by blast
  with s ps that show thesis by blast
qed

lemma accepted_strategy_default_policy:
  assumes "strategy_from_experiment mcts experiment = Inr st"
  shows "policy_from_experiment experiment = policy_from_mapping (PDict [])"
proof -
  obtain search ps where *: "dict_get experiment ''search'' = PDict search"
      "get_or search ''parameters'' (PDict []) = PDict ps" "''performance'' \<notin> fst ` set ps"
    using strategy_parameters_known [OF assms] .
  then have "get_or ps ''performance'' (PDict []) = PDict []"
    by (simp add: get_or_def map_of_eq_None_iff [THEN iffD2])
  then show ?thesis
    by (simp add: policy_from_experiment_def mapping_or_def *) (simp add: get_or_def)
qed

end
