(* ===== verification/State_Identity.thy ===== *)
theory State_Identity
  imports Replay_Manifest
begin

text \<open>
  \<open>engine/state/identity.py\<close>: the canonical state of a duel as one observer knows it, with its
  identifier, and \<open>engine/state/equivalence.py\<close>: when two states are the same, and the keys under
  which a search may file them, exact or approximate.
\<close>

definition STATE_ID_SCHEMA_VERSION :: string where
  "STATE_ID_SCHEMA_VERSION = ''ygo-state-id-v1''"
definition APPROXIMATION_POLICY_SCHEMA_VERSION :: string where
  "APPROXIMATION_POLICY_SCHEMA_VERSION = ''ygo-state-approximation-policy-v1''"

section \<open>Enumerations\<close>

text \<open>\<open>Class(value)\<close> of a string enumeration.\<close>

definition enum_of :: "string \<Rightarrow> ('a \<Rightarrow> string) \<Rightarrow> 'a list \<Rightarrow> pyval \<Rightarrow> py_error + 'a" where
  "enum_of class val members v =
    (case find (\<lambda>m. PStr (val m) = v) members of
       None \<Rightarrow> Inl (ValueError (py_repr v @ '' is not a valid '' @ class))
     | Some m \<Rightarrow> Inr m)"

datatype information_mode = COMPLETE_INFORMATION | PLAYER_VIEW | SAMPLED_PRIVATE_STATE

fun mode_value :: "information_mode \<Rightarrow> string" where
  "mode_value COMPLETE_INFORMATION = ''complete_information''"
| "mode_value PLAYER_VIEW = ''player_view''"
| "mode_value SAMPLED_PRIVATE_STATE = ''sampled_private_state''"

definition mode_of :: "pyval \<Rightarrow> py_error + information_mode" where
  "mode_of = enum_of ''InformationMode'' mode_value [COMPLETE_INFORMATION, PLAYER_VIEW, SAMPLED_PRIVATE_STATE]"

datatype completeness = EXACT | QUERY_API_PROJECTION

fun completeness_value :: "completeness \<Rightarrow> string" where
  "completeness_value EXACT = ''exact''"
| "completeness_value QUERY_API_PROJECTION = ''query_api_projection''"

definition completeness_of :: "pyval \<Rightarrow> py_error + completeness" where
  "completeness_of = enum_of ''StateIdentityCompleteness'' completeness_value [EXACT, QUERY_API_PROJECTION]"

section \<open>States\<close>

text \<open>The schema version of a constructed state is the constant. The viewer is kept as it was given.\<close>

record canonical_state =
  public_state :: pydict
  private_state :: pydict
  st_constraints :: pydict
  history :: pydict
  pending_request :: "pydict option"
  engine_state :: pydict
  mode :: information_mode
  completeness :: completeness
  viewer :: pyval
  sampling_reference :: "pydict option"
  missing_fields :: "string list"

definition require_mapping :: "string \<Rightarrow> pyval \<Rightarrow> py_error + pydict" where
  "require_mapping name v =
    (case v of PDict d \<Rightarrow> Inr d | _ \<Rightarrow> Inl (ValueError (name @ '' must be a mapping'')))"

definition mapping_or_none :: "string \<Rightarrow> pyval \<Rightarrow> py_error + pydict option" where
  "mapping_or_none name v =
    (case v of PDict d \<Rightarrow> Inr (Some d) | PNone \<Rightarrow> Inr None
     | _ \<Rightarrow> Inl (ValueError (name @ '' must be a mapping or None'')))"

text \<open>The constructor, on the arguments by name; \<open>missing\<close> are the missing fields.\<close>

definition make_state :: "(string \<Rightarrow> pyval) \<Rightarrow> string list \<Rightarrow> py_error + canonical_state" where
  "make_state v missing =
    sbind (mode_of (v ''information_mode'')) (\<lambda>m.
    sbind (completeness_of (v ''completeness'')) (\<lambda>c.
    if v ''schema_version'' \<noteq> PStr STATE_ID_SCHEMA_VERSION
    then Inl (ValueError (''unsupported State ID schema version '' @ py_repr (v ''schema_version'')))
    else
    sbind (require_mapping ''public_state'' (v ''public_state'')) (\<lambda>pub.
    sbind (require_mapping ''private_state'' (v ''private_state'')) (\<lambda>priv.
    sbind (require_mapping ''constraints'' (v ''constraints'')) (\<lambda>con.
    sbind (require_mapping ''history'' (v ''history'')) (\<lambda>his.
    sbind (require_mapping ''engine_state'' (v ''engine_state'')) (\<lambda>eng.
    sbind (mapping_or_none ''pending_request'' (v ''pending_request'')) (\<lambda>pend.
    sbind (mapping_or_none ''sampling_reference'' (v ''sampling_reference'')) (\<lambda>samp.
    if m = PLAYER_VIEW \<and> \<not> (eq_int (v ''viewer'') 0 \<or> eq_int (v ''viewer'') 1)
    then Inl (ValueError ''player_view requires viewer 0 or 1'')
    else if m \<noteq> PLAYER_VIEW \<and> v ''viewer'' \<noteq> PNone
    then Inl (ValueError ''viewer is only valid for player_view'')
    else if m = SAMPLED_PRIVATE_STATE \<and> samp = None
    then Inl (ValueError ''sampled_private_state requires sampling_reference'')
    else if c = EXACT \<and> missing \<noteq> []
    then Inl (ValueError ''exact State identity cannot declare missing_fields'')
    else Inr \<lparr>public_state = pub, private_state = priv, st_constraints = con, history = his,
           pending_request = pend, engine_state = eng, mode = m, completeness = c,
           viewer = v ''viewer'', sampling_reference = samp,
           missing_fields = sort (remdups missing)\<rparr>)))))))))"

definition state_entries :: "canonical_state \<Rightarrow> pydict" where
  "state_entries s =
    [(''completeness'', PStr (completeness_value (completeness s))),
     (''constraints'', PDict (st_constraints s)),
     (''engine_state'', PDict (engine_state s)),
     (''history'', PDict (history s)),
     (''information_mode'', PStr (mode_value (mode s))),
     (''missing_fields'', PList (map PStr (missing_fields s))),
     (''pending_request'', opt_dict (pending_request s)),
     (''private_state'', PDict (private_state s)),
     (''public_state'', PDict (public_state s)),
     (''sampling_reference'', opt_dict (sampling_reference s)),
     (''schema_version'', PStr STATE_ID_SCHEMA_VERSION),
     (''viewer'', viewer s)]"

definition state_identity :: "canonical_state \<Rightarrow> pydict" where
  "state_identity s = canonical_entries (state_entries s)"

definition state_id :: "canonical_state \<Rightarrow> py_error + string" where
  "state_id s = stable_digest (PDict (state_identity s)) ''state_''"

definition state_to_dict :: "canonical_state \<Rightarrow> py_error + pydict" where
  "state_to_dict s = sbind (state_id s) (\<lambda>i. Inr (state_identity s @ [(''state_id'', PStr i)]))"

definition state_fields :: "string list" where
  "state_fields = [''completeness'', ''constraints'', ''engine_state'', ''history'',
     ''information_mode'', ''missing_fields'', ''pending_request'', ''private_state'',
     ''public_state'', ''sampling_reference'', ''schema_version'', ''viewer'']"

fun nonempty_strings :: "pyval list \<Rightarrow> string list option" where
  "nonempty_strings [] = Some []"
| "nonempty_strings (PStr s # vs) =
     (if s = [] then None else map_option ((#) s) (nonempty_strings vs))"
| "nonempty_strings (v # vs) = None"

definition state_from_dict :: "pydict \<Rightarrow> py_error + canonical_state" where
  "state_from_dict d =
    (let missing = filter (\<lambda>f. map_of d f = None) state_fields in
     if missing \<noteq> []
     then Inl (ValueError (''State identity is missing fields: '' @ repr_strs (sort missing)))
     else
     case (case dict_get d ''missing_fields'' of PList vs \<Rightarrow> nonempty_strings vs | _ \<Rightarrow> None) of
       None \<Rightarrow> Inl (ValueError ''missing_fields must be a list of non-empty strings'')
     | Some names \<Rightarrow>
         sbind (make_state
           ((dict_get d)(''information_mode'' := PStr (py_str (dict_get d ''information_mode'')),
             ''completeness'' := PStr (py_str (dict_get d ''completeness'')),
             ''schema_version'' := PStr (py_str (dict_get d ''schema_version'')))) names) (\<lambda>s.
         if dict_get d ''state_id'' = PNone then Inr s
         else sbind (state_id s) (\<lambda>i.
           if dict_get d ''state_id'' \<noteq> PStr i
           then Inl (ValueError ''state_id does not match canonical State identity'')
           else Inr s)))"

section \<open>Keys\<close>

datatype key_purpose = REPLAY_VALIDATION | LEGALITY_CACHE | BRANCH_PRUNING | TRANSPOSITION_HINT
  | EVALUATION_CACHE | SEARCH_ORDERING

fun purpose_value :: "key_purpose \<Rightarrow> string" where
  "purpose_value REPLAY_VALIDATION = ''replay_validation''"
| "purpose_value LEGALITY_CACHE = ''legality_cache''"
| "purpose_value BRANCH_PRUNING = ''branch_pruning''"
| "purpose_value TRANSPOSITION_HINT = ''transposition_hint''"
| "purpose_value EVALUATION_CACHE = ''evaluation_cache''"
| "purpose_value SEARCH_ORDERING = ''search_ordering''"

definition purpose_of :: "string \<Rightarrow> py_error + key_purpose" where
  "purpose_of s = enum_of ''StateKeyPurpose'' purpose_value
    [REPLAY_VALIDATION, LEGALITY_CACHE, BRANCH_PRUNING, TRANSPOSITION_HINT, EVALUATION_CACHE,
     SEARCH_ORDERING] (PStr s)"

definition APPROXIMATE_PURPOSES :: "key_purpose list" where
  "APPROXIMATE_PURPOSES = [TRANSPOSITION_HINT, EVALUATION_CACHE, SEARCH_ORDERING]"

record approximation_policy =
  ap_policy_id :: string
  ap_version :: string
  drop_paths :: "string list list"
  allowed_purposes :: "key_purpose list"
  risk_notes :: "string list"

fun check_paths :: "string list list \<Rightarrow> py_error + unit" where
  "check_paths [] = Inr ()"
| "check_paths (p # ps) =
     (if p = [] \<or> [] \<in> set p
      then Inl (StateEquivalence ''drop paths must contain non-empty string components'')
      else if hd p \<noteq> ''private_state''
      then Inl (StateEquivalence ''approximation may only drop private_state paths'')
      else check_paths ps)"

text \<open>Some path of the list starts with an earlier one.\<close>

fun overlapping :: "string list list \<Rightarrow> string list list \<Rightarrow> bool" where
  "overlapping seen [] = False"
| "overlapping seen (p # ps) =
     (list_ex (\<lambda>q. take (length q) p = q) seen \<or> overlapping (seen @ [p]) ps)"

definition make_approximation ::
  "string \<Rightarrow> string \<Rightarrow> string list list \<Rightarrow> string list \<Rightarrow> string list \<Rightarrow> string \<Rightarrow>
    py_error + approximation_policy"
where
  "make_approximation pid version paths purposes notes schema =
    (if pid = [] then Inl (StateEquivalence ''policy_id must be a non-empty string'')
     else if version = [] then Inl (StateEquivalence ''policy version must be a non-empty string'')
     else if schema \<noteq> APPROXIMATION_POLICY_SCHEMA_VERSION
     then Inl (StateEquivalence (''unsupported approximation policy schema '' @ repr_str schema))
     else
     let sorted_paths = sort paths in
     if sorted_paths = [] then Inl (StateEquivalence ''approximation policy must drop at least one path'')
     else
     sbind (check_paths sorted_paths) (\<lambda>_.
     if overlapping [] sorted_paths then Inl (StateEquivalence ''drop paths must not overlap'')
     else
     sbind (sseq (map purpose_of purposes)) (\<lambda>ps.
     let ps = sort_key purpose_value ps in
     if ps = [] \<or> \<not> list_all (\<lambda>p. p \<in> set APPROXIMATE_PURPOSES) ps
     then Inl (StateEquivalence
       ''approximation is limited to transposition hints, evaluation cache, and search ordering'')
     else if notes = [] \<or> [] \<in> set notes
     then Inl (StateEquivalence ''approximation policy requires non-empty risk notes'')
     else Inr \<lparr>ap_policy_id = pid, ap_version = version, drop_paths = sorted_paths,
            allowed_purposes = ps, risk_notes = sort (remdups notes)\<rparr>)))"

definition approximation_identity :: "approximation_policy \<Rightarrow> pydict" where
  "approximation_identity p =
    [(''allowed_purposes'', PList (map (PStr \<circ> purpose_value) (allowed_purposes p))),
     (''drop_paths'', PList (map (PList \<circ> map PStr) (drop_paths p))),
     (''policy_id'', PStr (ap_policy_id p)),
     (''risk_notes'', PList (map PStr (risk_notes p))),
     (''schema_version'', PStr APPROXIMATION_POLICY_SCHEMA_VERSION),
     (''version'', PStr (ap_version p))]"

definition policy_hash :: "approximation_policy \<Rightarrow> py_error + string" where
  "policy_hash p = stable_digest (PDict (approximation_identity p)) ''state_policy_''"

text \<open>\<open>del current[path[-1]]\<close> at the end of a path; \<open>None\<close> when the path does not exist.\<close>

fun delete_path :: "string list \<Rightarrow> pyval \<Rightarrow> pyval option" where
  "delete_path [k] (PDict d) =
     (if map_of d k = None then None else Some (PDict (AList.delete k d)))"
| "delete_path (k # ks) (PDict d) =
     (case map_of d k of
        None \<Rightarrow> None
      | Some v \<Rightarrow> map_option (\<lambda>w. PDict (AList.update k w d)) (delete_path ks v))"
| "delete_path ks v = None"

fun drop_all :: "string list list \<Rightarrow> pyval \<Rightarrow> py_error + pyval" where
  "drop_all [] v = Inr v"
| "drop_all (p # ps) v =
     (case delete_path p v of
        None \<Rightarrow> Inl (StateEquivalence (''drop path '' @ repr_str (join ''.'' p) @ '' does not exist''))
      | Some w \<Rightarrow> drop_all ps w)"

definition project :: "approximation_policy \<Rightarrow> canonical_state \<Rightarrow> py_error + pyval" where
  "project p s = drop_all (drop_paths p) (PDict (state_identity s))"

record state_key =
  key_text :: string
  purpose :: key_purpose
  exact_key :: bool
  requires_exact_confirmation :: bool
  key_policy_hash :: "string option"

definition state_key_to_dict :: "state_key \<Rightarrow> pydict" where
  "state_key_to_dict k =
    [(''exact'', PBool (exact_key k)),
     (''key'', PStr (key_text k)),
     (''policy_hash'', opt_str (key_policy_hash k)),
     (''purpose'', PStr (purpose_value (purpose k))),
     (''requires_exact_confirmation'', PBool (requires_exact_confirmation k))]"

definition require_exact :: "string \<Rightarrow> canonical_state \<Rightarrow> py_error + unit" where
  "require_exact name s =
    (if completeness s \<noteq> EXACT
     then Inl (StateEquivalence (name @ '' State is '' @ completeness_value (completeness s) @ '', not exact''))
     else Inr ())"

definition matching :: "string \<Rightarrow> pyval \<Rightarrow> pyval \<Rightarrow> py_error + unit" where
  "matching name a b =
    (if \<not> py_eq a b
     then Inl (StateEquivalence (''exact State comparison requires matching '' @ name))
     else Inr ())"

definition exact_state_equivalent :: "canonical_state \<Rightarrow> canonical_state \<Rightarrow> py_error + bool" where
  "exact_state_equivalent l r =
    sbind (require_exact ''left'' l) (\<lambda>_.
    sbind (require_exact ''right'' r) (\<lambda>_.
    sbind (matching ''information_mode'' (PStr (mode_value (mode l))) (PStr (mode_value (mode r)))) (\<lambda>_.
    sbind (matching ''viewer'' (viewer l) (viewer r)) (\<lambda>_.
    sbind (matching ''sampling_reference'' (opt_dict (sampling_reference l))
      (opt_dict (sampling_reference r))) (\<lambda>_.
    sbind (state_id l) (\<lambda>i. sbind (state_id r) (\<lambda>j. Inr (i = j))))))))"

definition build_state_key ::
  "canonical_state \<Rightarrow> key_purpose \<Rightarrow> approximation_policy option \<Rightarrow> py_error + state_key"
where
  "build_state_key s pur approximation =
    (case approximation of
       None \<Rightarrow>
         if completeness s \<noteq> EXACT
         then Inl (StateEquivalence (purpose_value pur @ '' requires exact State identity; got '' @
           completeness_value (completeness s)))
         else sbind (state_id s) (\<lambda>i.
           Inr \<lparr>key_text = i, purpose = pur, exact_key = True, requires_exact_confirmation = False,
                key_policy_hash = None\<rparr>)
     | Some p \<Rightarrow>
         if pur \<notin> set (allowed_purposes p)
         then Inl (StateEquivalence (''approximation policy '' @ repr_str (ap_policy_id p) @
           '' does not allow '' @ purpose_value pur))
         else
         sbind (project p s) (\<lambda>projected.
         sbind (stable_digest (PDict
           [(''policy'', PDict (approximation_identity p)),
            (''projected_state'', projected)]) ''search_state_'') (\<lambda>k.
         sbind (policy_hash p) (\<lambda>h.
         Inr \<lparr>key_text = k, purpose = pur, exact_key = False, requires_exact_confirmation = True,
              key_policy_hash = Some h\<rparr>))))"

end
