(* ===== verification/State_Laws.thy ===== *)
theory State_Laws
  imports State_Identity Cache_Formats
begin

text \<open>
  What state identities and keys promise: a state reads back from its dictionary, a projection removes
  the dropped paths and nothing else, approximate keys are never used where an exact one is needed.
\<close>

section \<open>Dropping paths\<close>

definition starts_with :: "string list \<Rightarrow> string list \<Rightarrow> bool" where
  "starts_with p q \<longleftrightarrow> take (length p) q = p"

lemma starts_with_simps [simp]:
  "starts_with [] q"
  "\<not> starts_with (k # ks) []"
  "starts_with (k # ks) (j # js) \<longleftrightarrow> k = j \<and> starts_with ks js"
  by (auto simp: starts_with_def)

lemma walk_Nil_delete: "map_of (AList.delete k d) k = None"
  by (simp add: delete_conv')

lemma walk_dropped: "delete_path p v = Some w \<Longrightarrow> starts_with p q \<Longrightarrow> walk w q = None"
proof (induction p v arbitrary: w q rule: delete_path.induct)
  case (1 k d)
  then show ?case by (cases q) (auto simp: walk_Nil_delete split: if_splits)
next
  case (2 k k' ks d)
  obtain v where v: "map_of d k = Some v" using "2.prems"(1) by (auto split: option.splits)
  obtain u where u: "delete_path (k' # ks) v = Some u" "w = PDict (AList.update k u d)"
    using "2.prems"(1) v by auto
  obtain js where q: "q = k # js" "starts_with (k' # ks) js"
    using "2.prems"(2) by (cases q) auto
  have "walk u js = None" by (rule "2.IH" [OF v u(1) q(2)])
  then show ?case by (simp add: q(1) u(2) update_conv')
qed auto

lemma walk_kept:
  "delete_path p v = Some w \<Longrightarrow> \<not> starts_with p q \<Longrightarrow> \<not> starts_with q p \<Longrightarrow> walk w q = walk v q"
proof (induction p v arbitrary: w q rule: delete_path.induct)
  case (1 k d)
  then show ?case by (cases q) (auto simp: delete_conv' split: if_splits)
next
  case (2 k k' ks d)
  obtain v where v: "map_of d k = Some v" using "2.prems"(1) by (auto split: option.splits)
  obtain u where u: "delete_path (k' # ks) v = Some u" "w = PDict (AList.update k u d)"
    using "2.prems"(1) v by auto
  obtain j js where q: "q = j # js" using "2.prems"(3) by (cases q) auto
  show ?case
  proof (cases "j = k")
    case True
    have "walk u js = walk v js"
      by (rule "2.IH" [OF v u(1)]) (use "2.prems"(2,3) True q in auto)
    then show ?thesis using True v by (simp add: q u(2) update_conv')
  next
    case False
    then show ?thesis by (simp add: q u(2) update_conv')
  qed
qed auto

lemma delete_path_exists: "delete_path p v = Some w \<Longrightarrow> walk v p \<noteq> None"
  by (induction p v arbitrary: w rule: delete_path.induct) (auto split: option.splits if_splits)

lemma walk_missing: "walk v p = None \<Longrightarrow> starts_with p q \<Longrightarrow> walk v q = None"
  by (induction v p arbitrary: q rule: walk.induct; case_tac q) (auto split: option.splits)

lemma delete_path_present:
  "delete_path p v = Some w \<Longrightarrow> \<not> starts_with p q \<Longrightarrow> walk w q = None \<longleftrightarrow> walk v q = None"
proof (induction p v arbitrary: w q rule: delete_path.induct)
  case (1 k d)
  then show ?case by (cases q) (auto simp: delete_conv' split: if_splits)
next
  case (2 k k' ks d)
  obtain v where v: "map_of d k = Some v" using "2.prems"(1) by (auto split: option.splits)
  obtain u where u: "delete_path (k' # ks) v = Some u" "w = PDict (AList.update k u d)"
    using "2.prems"(1) v by auto
  show ?case
    using "2.IH" [OF v u(1)] "2.prems"(2) v by (cases q) (auto simp: u(2) update_conv')
qed auto

lemma delete_path_gone: "delete_path p v = Some w \<Longrightarrow> walk v q = None \<Longrightarrow> walk w q = None"
  using walk_dropped delete_path_present by (cases "starts_with p q") blast+

lemma drop_all_gone: "drop_all ps v = Inr w \<Longrightarrow> walk v q = None \<Longrightarrow> walk w q = None"
proof (induction ps arbitrary: v)
  case (Cons p ps)
  then obtain u where u: "delete_path p v = Some u" "drop_all ps u = Inr w"
    by (auto split: option.splits)
  show ?case by (rule Cons.IH [OF u(2) delete_path_gone [OF u(1) Cons.prems(2)]])
qed simp

lemma drop_all_dropped: "drop_all ps v = Inr w \<Longrightarrow> list_ex (\<lambda>p. starts_with p q) ps \<Longrightarrow> walk w q = None"
proof (induction ps arbitrary: v)
  case (Cons p ps)
  then obtain u where u: "delete_path p v = Some u" "drop_all ps u = Inr w"
    by (auto split: option.splits)
  show ?case using Cons.IH [OF u(2)] Cons.prems(2) drop_all_gone [OF u(2) walk_dropped [OF u(1), of q]] by auto
qed simp

lemma drop_all_present:
  "drop_all ps v = Inr w \<Longrightarrow> \<not> list_ex (\<lambda>p. starts_with p q) ps \<Longrightarrow> walk w q = None \<longleftrightarrow> walk v q = None"
  by (induction ps arbitrary: v) (auto simp: delete_path_present split: option.splits)

lemma drop_all_kept:
  "drop_all ps v = Inr w \<Longrightarrow> \<not> list_ex (\<lambda>p. starts_with p q) ps \<Longrightarrow> \<not> list_ex (\<lambda>p. starts_with q p) ps \<Longrightarrow>
    walk w q = walk v q"
  by (induction ps arbitrary: v) (auto simp: walk_kept split: option.splits)

lemma drop_all_exists: "drop_all ps v = Inr w \<Longrightarrow> p \<in> set ps \<Longrightarrow> walk v p \<noteq> None"
  by (induction ps arbitrary: v) (use delete_path_exists delete_path_gone in \<open>force split: option.splits\<close>)+

text \<open>A path of the result: gone when it is dropped, present above a dropped one, unchanged elsewhere.\<close>

lemma drop_all_walk:
  assumes "drop_all ps v = Inr w"
  shows "if list_ex (\<lambda>p. starts_with p q) ps then walk w q = None
    else if list_ex (\<lambda>p. starts_with q p) ps then walk w q \<noteq> None
    else walk w q = walk v q"
proof -
  have "walk w q \<noteq> None" if "p \<in> set ps" "starts_with q p" "\<not> list_ex (\<lambda>p. starts_with p q) ps" for p
  proof -
    have "walk v q \<noteq> None" using drop_all_exists [OF assms that(1)] walk_missing [OF _ that(2), of v] by (cases "walk v q") simp_all
    then show ?thesis using drop_all_present [OF assms that(3)] by simp
  qed
  then have above: "list_ex (\<lambda>p. starts_with q p) ps \<Longrightarrow> \<not> list_ex (\<lambda>p. starts_with p q) ps \<Longrightarrow> walk w q \<noteq> None"
    unfolding list_ex_iff by blast
  show ?thesis
  proof (cases "list_ex (\<lambda>p. starts_with p q) ps")
    case True
    then show ?thesis using drop_all_dropped [OF assms] by simp
  next
    case False
    then show ?thesis using drop_all_kept [OF assms False] above by (simp split: if_split)
  qed
qed

section \<open>Policies\<close>

lemma check_paths_Inr: "check_paths ps = Inr u \<longleftrightarrow>
    list_all (\<lambda>p. p \<noteq> [] \<and> [] \<notin> set p \<and> hd p = ''private_state'') ps"
  by (induction ps) auto

definition approximation_ok :: "approximation_policy \<Rightarrow> bool" where
  "approximation_ok p \<longleftrightarrow> drop_paths p \<noteq> [] \<and> allowed_purposes p \<noteq> [] \<and>
     list_all (\<lambda>q. q \<noteq> [] \<and> hd q = ''private_state'') (drop_paths p) \<and>
     list_all (\<lambda>q. q \<in> set APPROXIMATE_PURPOSES) (allowed_purposes p)"

lemma make_approximation_ok: "make_approximation pid v paths ps notes schema = Inr p \<Longrightarrow> approximation_ok p"
  by (auto simp: make_approximation_def approximation_ok_def Let_def monad_simps check_paths_Inr list_all_iff
      split: if_splits)

lemma build_state_key_Inr:
  assumes "build_state_key s pur approximation = Inr k"
  shows "purpose k = pur"
    and "approximation = None \<Longrightarrow> completeness s = EXACT \<and> exact_key k \<and>
      \<not> requires_exact_confirmation k \<and> state_id s = Inr (key_text k)"
    and "approximation = Some p \<Longrightarrow> pur \<in> set (allowed_purposes p) \<and> \<not> exact_key k \<and> requires_exact_confirmation k"
  using assms by (auto simp: build_state_key_def monad_simps split: option.splits if_splits)

section \<open>Reading a state back\<close>

lemma enum_of_Inr:
  assumes "inj_on val (set members)"
  shows "enum_of cls val members v = Inr m \<longleftrightarrow> m \<in> set members \<and> v = PStr (val m)"
proof -
  have "find P xs = Some m \<Longrightarrow> m \<in> set xs \<and> P m" for P and xs :: "'a list"
    by (induction xs) (auto split: if_splits)
  moreover have "find (\<lambda>x. PStr (val x) = PStr (val m)) xs = Some m" if "m \<in> set xs" "set xs \<subseteq> set members" for xs
    using that assms by (induction xs) (auto dest: inj_onD)
  ultimately show ?thesis
    by (auto simp: enum_of_def split: option.splits)
qed

lemma mode_of_Inr [monad_simps]: "mode_of v = Inr m \<longleftrightarrow> v = PStr (mode_value m)"
  unfolding mode_of_def by (subst enum_of_Inr) (auto simp: inj_on_def intro: information_mode.exhaust [of m])

lemma completeness_of_Inr [monad_simps]: "completeness_of v = Inr m \<longleftrightarrow> v = PStr (completeness_value m)"
  unfolding completeness_of_def by (subst enum_of_Inr) (auto simp: inj_on_def intro: completeness.exhaust [of m])

lemma require_mapping_Inr [monad_simps]: "require_mapping n v = Inr d \<longleftrightarrow> v = PDict d"
  by (cases v) (auto simp: require_mapping_def)

lemma mapping_or_none_Inr [monad_simps]: "mapping_or_none n v = Inr d \<longleftrightarrow> v = opt_dict d"
  by (cases v; cases d) (auto simp: mapping_or_none_def opt_dict_def)

definition state_valid :: "canonical_state \<Rightarrow> bool" where
  "state_valid s \<longleftrightarrow>
    (if mode s = PLAYER_VIEW then eq_int (viewer s) 0 \<or> eq_int (viewer s) 1 else viewer s = PNone) \<and>
    (mode s = SAMPLED_PRIVATE_STATE \<longrightarrow> sampling_reference s \<noteq> None) \<and>
    (completeness s = EXACT \<longrightarrow> missing_fields s = []) \<and>
    sorted (missing_fields s) \<and> distinct (missing_fields s)"

text \<open>A state with its dictionaries in canonical form.\<close>

definition canonical_form :: "canonical_state \<Rightarrow> canonical_state" where
  "canonical_form s = s\<lparr>public_state := canonical_entries (public_state s),
     private_state := canonical_entries (private_state s),
     st_constraints := canonical_entries (st_constraints s), history := canonical_entries (history s),
     pending_request := map_option canonical_entries (pending_request s),
     engine_state := canonical_entries (engine_state s),
     sampling_reference := map_option canonical_entries (sampling_reference s)\<rparr>"

lemma canonical_opt_dict: "to_canonical_data (opt_dict d) = opt_dict (map_option canonical_entries d)"
  by (cases d) (simp_all add: opt_dict_def canonical_PDict del: to_canonical_data.simps(8))

lemma eq_int_scalar: "eq_int v i \<Longrightarrow> to_canonical_data v = v"
  by (cases v) auto

lemma state_identity_eq:
  assumes "state_valid s"
  shows "state_identity s = state_entries (canonical_form s)"
proof -
  have "to_canonical_data (viewer s) = viewer s"
    using assms eq_int_scalar by (auto simp: state_valid_def split: if_splits)
  moreover have "sorted (map fst (state_entries s))" by (simp add: state_entries_def)
  ultimately show ?thesis
    unfolding state_identity_def
    by (simp add: canonical_entries_sorted)
      (simp add: state_entries_def canonical_form_def canonical_PDict canonical_opt_dict comp_def
        del: to_canonical_data.simps(8))
qed

lemma identity_canonical_form: "state_valid s \<Longrightarrow> state_identity (canonical_form s) = state_identity s"
  by (metis state_identity_def state_identity_eq canonical_entries_idem)

lemma nonempty_strings_eq: "[] \<notin> set ss \<Longrightarrow> nonempty_strings (map PStr ss) = Some ss"
  by (induction ss) auto

lemma state_entries_lookup:
  "map_of (state_entries s) ''completeness'' = Some (PStr (completeness_value (completeness s)))"
  "map_of (state_entries s) ''constraints'' = Some (PDict (st_constraints s))"
  "map_of (state_entries s) ''engine_state'' = Some (PDict (engine_state s))"
  "map_of (state_entries s) ''history'' = Some (PDict (history s))"
  "map_of (state_entries s) ''information_mode'' = Some (PStr (mode_value (mode s)))"
  "map_of (state_entries s) ''missing_fields'' = Some (PList (map PStr (missing_fields s)))"
  "map_of (state_entries s) ''pending_request'' = Some (opt_dict (pending_request s))"
  "map_of (state_entries s) ''private_state'' = Some (PDict (private_state s))"
  "map_of (state_entries s) ''public_state'' = Some (PDict (public_state s))"
  "map_of (state_entries s) ''sampling_reference'' = Some (opt_dict (sampling_reference s))"
  "map_of (state_entries s) ''schema_version'' = Some (PStr STATE_ID_SCHEMA_VERSION)"
  "map_of (state_entries s) ''viewer'' = Some (viewer s)"
  "map_of (state_entries s) ''state_id'' = None"
  by (simp_all add: state_entries_def)

lemma mapping_or_none_opt: "mapping_or_none n (opt_dict d) = Inr d"
  by (simp add: mapping_or_none_Inr)

lemma make_state_valid:
  assumes "state_valid s"
    and "\<And>f. v f = dict_get (state_entries s) f \<or> f = ''state_id''"
  shows "make_state v (missing_fields s) = Inr s"
proof -
  have get: "f \<noteq> ''state_id'' \<Longrightarrow> v f = dict_get (state_entries s) f" for f using assms(2) by blast
  have mode: "mode_of (PStr (mode_value (mode s))) = Inr (mode s)"
    and complete: "completeness_of (PStr (completeness_value (completeness s))) = Inr (completeness s)"
    by (simp_all add: mode_of_Inr completeness_of_Inr)
  have names: "sort (remdups (missing_fields s)) = missing_fields s"
    using assms(1) by (simp add: state_valid_def sorted_sort_id distinct_remdups_id)
  have whole: "\<lparr>public_state = public_state s, private_state = private_state s,
      st_constraints = st_constraints s, history = history s, pending_request = pending_request s,
      engine_state = engine_state s, mode = mode s, completeness = completeness s, viewer = viewer s,
      sampling_reference = sampling_reference s, missing_fields = missing_fields s\<rparr> = s"
    by (cases s) simp
  show ?thesis
    using assms(1)
    by (simp add: make_state_def get dict_get_def state_entries_lookup mode complete whole names
        require_mapping_def mapping_or_none_opt state_valid_def split: if_split_asm)
qed

lemma state_roundtrip_eq:
  assumes "state_valid s" and "[] \<notin> set (missing_fields s)"
  shows "sbind (state_to_dict s) state_from_dict = sbind (state_id s) (\<lambda>i. Inr (canonical_form s))"
proof (cases "state_id s")
  case (Inr i)
  let ?c = "canonical_form s"
  let ?d = "state_entries ?c @ [(''state_id'', PStr i)]"
  have written: "state_to_dict s = Inr ?d"
    by (simp add: state_to_dict_def Inr state_identity_eq [OF assms(1)])
  have fields: "filter (\<lambda>f. map_of ?d f = None) state_fields = []"
    by (simp add: state_fields_def state_entries_def)
  have id: "state_id ?c = Inr i"
    using Inr identity_canonical_form [OF assms(1)] by (simp add: state_id_def)
  have valid: "state_valid ?c" and names: "[] \<notin> set (missing_fields ?c)"
    using assms by (simp_all add: state_valid_def canonical_form_def)
  have strings: "nonempty_strings (map PStr (missing_fields ?c)) = Some (missing_fields ?c)"
    by (rule nonempty_strings_eq [OF names])
  have made: "make_state ((dict_get ?d)(''information_mode'' := PStr (py_str (dict_get ?d ''information_mode'')),
      ''completeness'' := PStr (py_str (dict_get ?d ''completeness'')),
      ''schema_version'' := PStr (py_str (dict_get ?d ''schema_version'')))) (missing_fields ?c) = Inr ?c"
    by (rule make_state_valid [OF valid])
      (auto simp: dict_get_def map_add_def state_entries_lookup split: option.splits)
  have get: "dict_get ?d ''missing_fields'' = PList (map PStr (missing_fields ?c))"
      "dict_get ?d ''state_id'' = PStr i"
    by (simp_all add: dict_get_def map_add_def state_entries_lookup)
  have "state_from_dict ?d = Inr ?c"
    unfolding state_from_dict_def fields Let_def get pyval.case strings option.case made sbind_Inr id by simp
  then show ?thesis by (simp add: written Inr)
qed (simp add: state_to_dict_def)

lemma make_state_ok:
  assumes "make_state v names = Inr s"
  shows "state_valid s" and "missing_fields s = sort (remdups names)"
  using assms by (auto simp: make_state_def state_valid_def monad_simps split: if_splits)

text \<open>A state and the one read back are equivalent.\<close>

lemma canonical_form_equivalent:
  assumes "state_valid s" and "completeness s = EXACT" and "state_id s = Inr i"
    and "tidy (opt_dict (sampling_reference s))"
  shows "exact_state_equivalent s (canonical_form s) = Inr True"
proof -
  have "py_eq (viewer s) (viewer s)"
    using assms(1) by (cases "viewer s") (auto simp: state_valid_def split: if_splits)
  moreover have "py_eq (opt_dict (sampling_reference s)) (opt_dict (map_option canonical_entries (sampling_reference s)))"
    unfolding canonical_opt_dict [symmetric]
    by (rule py_eq_canonical) (use assms(4) in \<open>simp_all add: to_canonical_idem tidy_canonical\<close>)
  moreover have "state_id (canonical_form s) = Inr i"
    using assms(3) identity_canonical_form [OF assms(1)] by (simp add: state_id_def)
  ultimately show ?thesis
    using assms(2,3)
    by (simp add: exact_state_equivalent_def require_exact_def matching_def canonical_form_def)
qed

end
