(* ===== verification/Information_Access.thy ===== *)
theory Information_Access
  imports State_Identity
begin

text \<open>
  \<open>engine/information/access.py\<close>: the policy that says which private information a search may look
  at, the audit that records every access, and the deterministic draw of an opening hand.
\<close>

definition INFORMATION_AUDIT_SCHEMA_VERSION :: string where
  "INFORMATION_AUDIT_SCHEMA_VERSION = ''information-audit-v1''"
definition INFORMATION_POLICY_SCHEMA_VERSION :: string where
  "INFORMATION_POLICY_SCHEMA_VERSION = ''information-policy-v1''"
definition INFORMATION_POLICY_EXPERIMENT_SCHEMA_VERSION :: string where
  "INFORMATION_POLICY_EXPERIMENT_SCHEMA_VERSION = ''0.3b''"
definition OPENING_HAND_SAMPLING_SCHEMA_VERSION :: string where
  "OPENING_HAND_SAMPLING_SCHEMA_VERSION = ''opening-hand-sampling-v1''"
definition OPENING_HAND_SAMPLER_ID :: string where
  "OPENING_HAND_SAMPLER_ID = ''stable-digest-mod-v1''"

section \<open>Enumerations\<close>

datatype deck_order_knowledge = DECK_KNOWN | DECK_UNKNOWN

fun deck_order_value :: "deck_order_knowledge \<Rightarrow> string" where
  "deck_order_value DECK_KNOWN = ''known''"
| "deck_order_value DECK_UNKNOWN = ''unknown''"

definition deck_order_of :: "pyval \<Rightarrow> py_error + deck_order_knowledge" where
  "deck_order_of = enum_of ''DeckOrderKnowledge'' deck_order_value [DECK_KNOWN, DECK_UNKNOWN]"

datatype opening_hand_policy = HAND_NATURAL | HAND_FIXED | HAND_DISTRIBUTION

fun opening_hand_value :: "opening_hand_policy \<Rightarrow> string" where
  "opening_hand_value HAND_NATURAL = ''natural''"
| "opening_hand_value HAND_FIXED = ''fixed''"
| "opening_hand_value HAND_DISTRIBUTION = ''probability_distribution''"

definition opening_hand_of :: "pyval \<Rightarrow> py_error + opening_hand_policy" where
  "opening_hand_of = enum_of ''OpeningHandPolicy'' opening_hand_value [HAND_NATURAL, HAND_FIXED, HAND_DISTRIBUTION]"

datatype information_field = PUBLIC_STATE | HAND_IDENTITY | SET_CARD_IDENTITY | PRIVATE_EXTRA_DECK
  | DECK_ORDER | PROBABILITY_DISTRIBUTION

fun field_value :: "information_field \<Rightarrow> string" where
  "field_value PUBLIC_STATE = ''public_state''"
| "field_value HAND_IDENTITY = ''hand_identity''"
| "field_value SET_CARD_IDENTITY = ''set_card_identity''"
| "field_value PRIVATE_EXTRA_DECK = ''private_extra_deck''"
| "field_value DECK_ORDER = ''deck_order''"
| "field_value PROBABILITY_DISTRIBUTION = ''probability_distribution''"

datatype access_decision = ACCESS_ALLOWED | DENIED_PRIVATE_OWNER | DENIED_UNKNOWN_DECK_ORDER
  | DENIED_DISTRIBUTION_NOT_CONFIGURED

fun access_value :: "access_decision \<Rightarrow> string" where
  "access_value ACCESS_ALLOWED = ''allowed''"
| "access_value DENIED_PRIVATE_OWNER = ''denied_private_owner''"
| "access_value DENIED_UNKNOWN_DECK_ORDER = ''denied_unknown_deck_order''"
| "access_value DENIED_DISTRIBUTION_NOT_CONFIGURED = ''denied_distribution_not_configured''"

section \<open>Opening hands\<close>

definition sampling_error :: "string \<Rightarrow> string \<Rightarrow> py_error + 'a" where
  "sampling_error path msg = Inl (ValueError (path @ '': '' @ msg))"

text \<open>\<open>owner in (0, 1)\<close> and not a \<open>bool\<close>, and the player a value that passes is equal to.\<close>

definition is_owner :: "pyval \<Rightarrow> bool" where
  "is_owner v \<longleftrightarrow> (eq_int v 0 \<or> eq_int v 1) \<and> (case v of PBool b \<Rightarrow> False | _ \<Rightarrow> True)"

definition player_number :: "pyval \<Rightarrow> nat" where
  "player_number v = (if eq_int v 0 then 0 else 1)"

definition is_positive :: "pyval \<Rightarrow> bool" where
  "is_positive v \<longleftrightarrow> (case v of PInt i \<Rightarrow> i > 0 | _ \<Rightarrow> False)"

definition sampling_owners :: "pyval \<Rightarrow> pyval list option" where
  "sampling_owners v =
    (case v of
       PList os \<Rightarrow>
         if os \<noteq> [] \<and> list_all is_owner os \<and> sorted (map player_number os) \<and> distinct (map player_number os)
         then Some os else None
     | _ \<Rightarrow> None)"

fun normalize_hands :: "string \<Rightarrow> pydict \<Rightarrow> string list \<Rightarrow> py_error + pydict" where
  "normalize_hands path hands [] = Inr []"
| "normalize_hands path hands (p # ps) =
     (case dict_get hands p of
        PList codes \<Rightarrow>
          if codes = [] \<or> \<not> list_all is_positive codes
          then sampling_error (path @ ''.hands_by_player.'' @ p) ''must be a non-empty list of positive card codes''
          else sbind (normalize_hands path hands ps) (\<lambda>rest. Inr ((p, PList codes) # rest))
      | _ \<Rightarrow> sampling_error (path @ ''.hands_by_player.'' @ p) ''must be a non-empty list of positive card codes'')"

definition normalize_candidate :: "string \<Rightarrow> string list \<Rightarrow> nat \<Rightarrow> pyval \<Rightarrow> py_error + pyval" where
  "normalize_candidate path players i v =
    (let at = path @ ''.candidates['' @ str_nat i @ '']'' in
     case v of
       PDict d \<Rightarrow>
         let unknown = sort (filter (\<lambda>k. k \<notin> {''hands_by_player'', ''weight''}) (remdups (map fst d))) in
         if unknown \<noteq> []
         then sampling_error at (''contains unsupported fields '' @ repr_strs unknown)
         else if \<not> is_positive (dict_get d ''weight'')
         then sampling_error (at @ ''.weight'') ''must be a positive integer''
         else (case dict_get d ''hands_by_player'' of
             PDict hands \<Rightarrow>
               if fst ` set hands \<noteq> set players
               then sampling_error (at @ ''.hands_by_player'')
                 (''must contain exactly players '' @ repr_strs (sort players))
               else sbind (normalize_hands at hands (sort players)) (\<lambda>normalized.
                 Inr (PDict [(''hands_by_player'', PDict normalized), (''weight'', dict_get d ''weight'')]))
           | _ \<Rightarrow> sampling_error (at @ ''.hands_by_player'')
               (''must contain exactly players '' @ repr_strs (sort players)))
     | _ \<Rightarrow> sampling_error at ''must be a mapping'')"

definition sampling_identity :: "pyval list \<Rightarrow> pyval list \<Rightarrow> pyval \<Rightarrow> pydict" where
  "sampling_identity cands owners seed = canonical_entries
    [(''candidates'', PList cands),
     (''sampled_owners'', PList owners),
     (''sampler_id'', PStr OPENING_HAND_SAMPLER_ID),
     (''schema_version'', PStr OPENING_HAND_SAMPLING_SCHEMA_VERSION),
     (''seed'', seed)]"

definition sampling_fields :: "string list" where
  "sampling_fields = [''candidates'', ''sampled_owners'', ''sampler_id'', ''sampling_policy_id'',
     ''schema_version'', ''seed'']"

definition validate_sampling_reference :: "pyval \<Rightarrow> py_error + pydict" where
  "validate_sampling_reference v =
    (let path = ''$.information_policy.sampling_reference'' in
     case v of
       PDict d \<Rightarrow>
         let unknown = sort (filter (\<lambda>k. k \<notin> set sampling_fields) (remdups (map fst d))) in
         if unknown \<noteq> [] then sampling_error path (''contains unsupported fields '' @ repr_strs unknown)
         else if dict_get d ''schema_version'' \<noteq> PStr OPENING_HAND_SAMPLING_SCHEMA_VERSION
         then sampling_error (path @ ''.schema_version'') (''must be '' @ repr_str OPENING_HAND_SAMPLING_SCHEMA_VERSION)
         else if dict_get d ''sampler_id'' \<noteq> PStr OPENING_HAND_SAMPLER_ID
         then sampling_error (path @ ''.sampler_id'') (''must be '' @ repr_str OPENING_HAND_SAMPLER_ID)
         else if \<not> (case dict_get d ''seed'' of PInt i \<Rightarrow> i \<ge> 0 | _ \<Rightarrow> False)
         then sampling_error (path @ ''.seed'') ''must be an integer >= 0''
         else (case sampling_owners (dict_get d ''sampled_owners'') of
             None \<Rightarrow> sampling_error (path @ ''.sampled_owners'')
               ''must be a non-empty sorted unique list of players 0 or 1''
           | Some owners \<Rightarrow>
               (case dict_get d ''candidates'' of
                  PList (c # cs) \<Rightarrow>
                    sbind (sseq (map2 (normalize_candidate path (map py_str owners))
                      [0..<Suc (length cs)] (c # cs))) (\<lambda>cands.
                    let identity = sampling_identity cands owners (dict_get d ''seed'') in
                    sbind (stable_digest (PDict identity) ''handsampol_'') (\<lambda>expected.
                    if dict_get d ''sampling_policy_id'' \<noteq> PStr expected
                    then sampling_error (path @ ''.sampling_policy_id'') ''does not match the sampling policy content''
                    else Inr (identity @ [(''sampling_policy_id'', PStr expected)])))
                | _ \<Rightarrow> sampling_error (path @ ''.candidates'') ''must be a non-empty list''))
     | _ \<Rightarrow> sampling_error path ''must be a mapping'')"

definition build_sampling_reference :: "pyval \<Rightarrow> pyval list \<Rightarrow> pyval list \<Rightarrow> py_error + pydict" where
  "build_sampling_reference seed cands owners =
    (let identity = sampling_identity cands owners seed in
     sbind (stable_digest (PDict identity) ''handsampol_'') (\<lambda>i.
     validate_sampling_reference (PDict (identity @ [(''sampling_policy_id'', PStr i)]))))"

text \<open>\<open>int(text, 16)\<close> of a hexadecimal digest.\<close>

definition hex_digit :: "char \<Rightarrow> nat" where
  "hex_digit c = (let n = of_char c in if n < 58 then n - 48 else n - 87)"

definition hex_number :: "string \<Rightarrow> nat" where
  "hex_number s = foldl (\<lambda>n c. 16 * n + hex_digit c) 0 s"

text \<open>The loop over the weights: the first candidate whose weight exceeds what is left of the draw.\<close>

fun select_index :: "nat \<Rightarrow> int \<Rightarrow> int list \<Rightarrow> nat" where
  "select_index i draw [] = 0"
| "select_index i draw (w # ws) = (if draw < w then i else select_index (Suc i) (draw - w) ws)"

definition weight_of :: "pyval \<Rightarrow> int" where
  "weight_of c = (case c of PDict d \<Rightarrow> int_val (dict_get d ''weight'') | _ \<Rightarrow> 0)"

definition hands_of :: "pyval \<Rightarrow> pyval" where
  "hands_of c = (case c of PDict d \<Rightarrow> dict_get d ''hands_by_player'' | _ \<Rightarrow> PNone)"

definition sampling_evidence :: "pyval \<Rightarrow> pyval \<Rightarrow> py_error + pydict" where
  "sampling_evidence reference information_policy_id =
    sbind (validate_sampling_reference reference) (\<lambda>normalized.
    if (case information_policy_id of PStr s \<Rightarrow> s = [] | _ \<Rightarrow> True)
    then Inl (ValueError ''information_policy_id must be a non-empty string'')
    else
    sbind (stable_digest (PDict (canonical_entries
      [(''sampler_id'', dict_get normalized ''sampler_id''),
       (''sampling_policy_id'', dict_get normalized ''sampling_policy_id''),
       (''seed'', dict_get normalized ''seed'')])) ''handdraw_'') (\<lambda>draw_id.
    let cands = items (dict_get normalized ''candidates'');
        weights = map weight_of cands;
        draw = int (hex_number (drop (length ''handdraw_'') draw_id)) mod sum_list weights;
        selected = select_index 0 draw weights;
        identity = canonical_entries
          [(''information_policy_id'', information_policy_id),
           (''result'', PDict [(''hands_by_player'', hands_of (cands ! selected))]),
           (''sampled_owners'', dict_get normalized ''sampled_owners''),
           (''sampler_id'', dict_get normalized ''sampler_id''),
           (''sampling_policy_id'', dict_get normalized ''sampling_policy_id''),
           (''schema_version'', dict_get normalized ''schema_version''),
           (''seed'', dict_get normalized ''seed''),
           (''selected_index'', PInt (int selected))]
    in sbind (stable_digest (PDict identity) ''handsample_'') (\<lambda>i.
       Inr (identity @ [(''sample_id'', PStr i)]))))"

section \<open>The policy\<close>

record information_policy =
  ip_mode :: information_mode
  deck_order :: deck_order_knowledge
  opening_hand :: opening_hand_policy
  ip_viewer :: pyval
  ip_sampling :: "pydict option"

definition make_information_policy ::
  "pyval \<Rightarrow> pyval \<Rightarrow> pyval \<Rightarrow> pyval \<Rightarrow> pyval \<Rightarrow> py_error + information_policy"
where
  "make_information_policy m deck hand view sampling =
    sbind (mode_of m) (\<lambda>m.
    sbind (deck_order_of deck) (\<lambda>deck.
    sbind (opening_hand_of hand) (\<lambda>hand.
    if m = PLAYER_VIEW \<and> \<not> (eq_int view 0 \<or> eq_int view 1)
    then Inl (ValueError ''player_view information policy requires viewer 0 or 1'')
    else if m \<noteq> PLAYER_VIEW \<and> view \<noteq> PNone
    then Inl (ValueError ''viewer is only valid for player_view'')
    else
    let needed = (m = SAMPLED_PRIVATE_STATE \<or> hand = HAND_DISTRIBUTION);
        policy = \<lparr>ip_mode = m, deck_order = deck, opening_hand = hand, ip_viewer = view,
                  ip_sampling = None\<rparr>
    in if needed
       then (case sampling of
           PDict d \<Rightarrow> sbind (validate_sampling_reference sampling) (\<lambda>s. Inr (policy\<lparr>ip_sampling := Some s\<rparr>))
         | _ \<Rightarrow> Inl (ValueError ''sampled/distribution policy requires sampling_reference''))
       else if sampling \<noteq> PNone
       then Inl (ValueError ''sampling_reference requires sampled or distribution policy'')
       else Inr policy)))"

definition private_decision :: "information_policy \<Rightarrow> pyval \<Rightarrow> py_error + access_decision" where
  "private_decision p owner =
    (if \<not> (eq_int owner 0 \<or> eq_int owner 1)
     then Inl (ValueError ''private information access requires owner 0 or 1'')
     else if ip_mode p = COMPLETE_INFORMATION \<or> ip_mode p = SAMPLED_PRIVATE_STATE then Inr ACCESS_ALLOWED
     else if py_eq owner (ip_viewer p) then Inr ACCESS_ALLOWED
     else Inr DENIED_PRIVATE_OWNER)"

definition decide :: "information_policy \<Rightarrow> information_field \<Rightarrow> pyval \<Rightarrow> py_error + access_decision" where
  "decide p field owner =
    (if owner \<noteq> PNone \<and> \<not> (eq_int owner 0 \<or> eq_int owner 1)
     then Inl (ValueError ''information field owner must be 0, 1, or None'')
     else case field of
       PUBLIC_STATE \<Rightarrow> Inr ACCESS_ALLOWED
     | DECK_ORDER \<Rightarrow>
         if deck_order p = DECK_UNKNOWN then Inr DENIED_UNKNOWN_DECK_ORDER else private_decision p owner
     | PROBABILITY_DISTRIBUTION \<Rightarrow>
         if opening_hand p \<noteq> HAND_DISTRIBUTION then Inr DENIED_DISTRIBUTION_NOT_CONFIGURED
         else Inr ACCESS_ALLOWED
     | _ \<Rightarrow> private_decision p owner)"

definition information_identity :: "information_policy \<Rightarrow> pydict" where
  "information_identity p = canonical_entries
    [(''deck_order'', PStr (deck_order_value (deck_order p))),
     (''information_mode'', PStr (mode_value (ip_mode p))),
     (''opening_hand'', PStr (opening_hand_value (opening_hand p))),
     (''sampling_reference'', opt_dict (ip_sampling p)),
     (''schema_version'', PStr INFORMATION_POLICY_SCHEMA_VERSION),
     (''viewer'', ip_viewer p)]"

definition information_policy_to_dict :: "information_policy \<Rightarrow> py_error + pydict" where
  "information_policy_to_dict p =
    sbind (stable_digest (PDict (information_identity p)) ''infopol_'') (\<lambda>i.
    Inr (information_identity p @ [(''policy_id'', PStr i)]))"

definition to_experiment_dict :: "information_policy \<Rightarrow> py_error + pydict" where
  "to_experiment_dict p =
    sbind (information_policy_to_dict p) (\<lambda>d.
    Inr (AList.delete ''viewer'' (AList.delete ''information_mode'' d)))"

definition information_policy_from_experiment :: "pydict \<Rightarrow> py_error + information_policy" where
  "information_policy_from_experiment experiment =
    (if unhashable (dict_get experiment ''schema_version'') \<noteq> None
     then Inl (TypeError (''unhashable type: '' @ repr_str (the (unhashable (dict_get experiment ''schema_version'')))))
     else if dict_get experiment ''schema_version'' \<noteq> PStr INFORMATION_POLICY_EXPERIMENT_SCHEMA_VERSION \<and>
       dict_get experiment ''schema_version'' \<noteq> PStr ''0.4''
     then Inl (ValueError ''information policy requires Experiment 0.3b or later'')
     else
     case (dict_get experiment ''information_policy'', dict_get experiment ''player'') of
       (PDict raw, PDict who) \<Rightarrow>
         sbind (mode_of (PStr (py_str (dict_get experiment ''information_mode'')))) (\<lambda>m.
         sbind (make_information_policy (PStr (mode_value m))
           (PStr (py_str (dict_get raw ''deck_order''))) (PStr (py_str (dict_get raw ''opening_hand'')))
           (if m = PLAYER_VIEW then dict_get who ''perspective'' else PNone)
           (dict_get raw ''sampling_reference'')) (\<lambda>p.
         if dict_get raw ''schema_version'' \<noteq> PStr INFORMATION_POLICY_SCHEMA_VERSION
         then Inl (ValueError (''information_policy.schema_version must be '' @
           repr_str INFORMATION_POLICY_SCHEMA_VERSION))
         else
         sbind (information_policy_to_dict p) (\<lambda>d.
         if dict_get raw ''policy_id'' \<noteq> dict_get d ''policy_id''
         then Inl (ValueError ''information_policy.policy_id does not match policy content'')
         else Inr p)))
     | _ \<Rightarrow> Inl (ValueError ''Experiment information_policy and player must be mappings''))"

section \<open>The audit\<close>

record information_access =
  acc_sequence :: nat
  acc_field :: information_field
  acc_owner :: pyval
  acc_purpose :: string
  acc_decision :: access_decision

definition access_to_dict :: "information_access \<Rightarrow> pydict" where
  "access_to_dict a =
    [(''decision'', PStr (access_value (acc_decision a))),
     (''field'', PStr (field_value (acc_field a))),
     (''owner'', acc_owner a),
     (''purpose'', PStr (acc_purpose a)),
     (''sequence'', PInt (int (acc_sequence a)))]"

record information_audit =
  au_policy :: information_policy
  accesses :: "information_access list"

definition new_audit :: "information_policy \<Rightarrow> information_audit" where
  "new_audit p = \<lparr>au_policy = p, accesses = []\<rparr>"

text \<open>Nothing is recorded when an argument is rejected.\<close>

definition record_access :: "information_field \<Rightarrow> pyval \<Rightarrow> pyval \<Rightarrow> information_audit \<Rightarrow>
    information_audit \<times> (py_error + access_decision)" where
  "record_access field owner why au =
    (case why of
       PStr s \<Rightarrow>
         if s = [] then (au, Inl (ValueError ''information access purpose must be non-empty''))
         else (case decide (au_policy au) field owner of
             Inl err \<Rightarrow> (au, Inl err)
           | Inr d \<Rightarrow> (au\<lparr>accesses := accesses au @ [\<lparr>acc_sequence = length (accesses au), acc_field = field,
                  acc_owner = owner, acc_purpose = s, acc_decision = d\<rparr>]\<rparr>, Inr d))
     | _ \<Rightarrow> (au, Inl (ValueError ''information access purpose must be non-empty'')))"

definition require_access :: "information_field \<Rightarrow> pyval \<Rightarrow> pyval \<Rightarrow> information_audit \<Rightarrow>
    information_audit \<times> (py_error + unit)" where
  "require_access field owner why au =
    (case record_access field owner why au of
       (au', Inl err) \<Rightarrow> (au', Inl err)
     | (au', Inr d) \<Rightarrow> (au',
         if d \<noteq> ACCESS_ALLOWED
         then Inl (InformationLeak (''information access denied: field='' @ field_value field @ '' owner='' @
           py_str owner @ '' purpose='' @ py_repr why @ '' decision='' @ access_value d))
         else Inr ()))"

definition leaks :: "information_audit \<Rightarrow> information_access list" where
  "leaks au = filter (\<lambda>a. acc_decision a \<noteq> ACCESS_ALLOWED) (accesses au)"

definition audit_to_dict :: "information_audit \<Rightarrow> py_error + pydict" where
  "audit_to_dict au =
    sbind (information_policy_to_dict (au_policy au)) (\<lambda>policy.
    let identity = canonical_entries
      [(''accesses'', PList (map (PDict \<circ> access_to_dict) (accesses au))),
       (''leak_count'', PInt (int (length (leaks au)))),
       (''leaks'', PList (map (PDict \<circ> access_to_dict) (leaks au))),
       (''policy'', PDict policy),
       (''schema_version'', PStr INFORMATION_AUDIT_SCHEMA_VERSION)]
    in sbind (stable_digest (PDict identity) ''infoaudit_'') (\<lambda>i.
       Inr (identity @ [(''audit_id'', PStr i)])))"

definition assert_no_leaks :: "information_audit \<Rightarrow> py_error + unit" where
  "assert_no_leaks au =
    sbind (audit_to_dict au) (\<lambda>report.
    case leaks au of
      [] \<Rightarrow> Inr ()
    | a # rest \<Rightarrow> Inl (InformationLeak (''information audit detected forbidden access at sequence '' @
        str_nat (acc_sequence a) @ '': '' @ access_value (acc_decision a))))"

end
