(* ===== verification/Information_Laws.thy ===== *)
theory Information_Laws
  imports Information_Access State_Laws
begin

text \<open>
  What the information policy lets through, what the audit remembers, and that the draw of an opening
  hand follows the weights.
\<close>

section \<open>Access\<close>

definition same_player :: "pyval \<Rightarrow> pyval \<Rightarrow> bool" where
  "same_player v w \<longleftrightarrow> eq_int v 0 \<and> eq_int w 0 \<or> eq_int v 1 \<and> eq_int w 1"

lemma str_int_01 [simp]: "str_int 0 = ''0''" "str_int 1 = ''1''"
  by code_simp+

lemma py_eq_player:
  "eq_int v 0 \<or> eq_int v 1 \<Longrightarrow> eq_int w 0 \<or> eq_int w 1 \<Longrightarrow> py_eq v w \<longleftrightarrow> same_player v w"
  by (cases v; cases w) (auto simp: same_player_def)

definition information_ok :: "information_policy \<Rightarrow> bool" where
  "information_ok p \<longleftrightarrow>
    (if ip_mode p = PLAYER_VIEW then eq_int (ip_viewer p) 0 \<or> eq_int (ip_viewer p) 1
     else ip_viewer p = PNone) \<and> dict_safe (information_identity p)"

fun is_private :: "information_field \<Rightarrow> bool" where
  "is_private PUBLIC_STATE = False"
| "is_private PROBABILITY_DISTRIBUTION = False"
| "is_private f = True"

lemma decide_private:
  assumes "information_ok p" and "is_private f"
  shows "decide p f owner = Inr ACCESS_ALLOWED \<longleftrightarrow>
    (eq_int owner 0 \<or> eq_int owner 1) \<and>
    (if f = DECK_ORDER then deck_order p = DECK_KNOWN else True) \<and>
    (if ip_mode p = PLAYER_VIEW then same_player owner (ip_viewer p) else True)"
proof -
  have "private_decision p owner = Inr ACCESS_ALLOWED \<longleftrightarrow> (eq_int owner 0 \<or> eq_int owner 1) \<and>
      (if ip_mode p = PLAYER_VIEW then same_player owner (ip_viewer p) else True)"
    using assms(1) py_eq_player [of owner "ip_viewer p"]
    by (cases "ip_mode p") (auto simp: private_decision_def information_ok_def)
  moreover have "deck_order p = DECK_UNKNOWN \<longleftrightarrow> deck_order p \<noteq> DECK_KNOWN"
    by (cases "deck_order p") simp_all
  ultimately show ?thesis
    using assms(2) by (cases f) (auto simp: decide_def)
qed

lemma validated_safe: "validate_sampling_reference v = Inr d \<Longrightarrow> dict_safe d"
proof -
  assume "validate_sampling_reference v = Inr d"
  then obtain identity i where "stable_digest (PDict identity) ''handsampol_'' = Inr i"
      "d = identity @ [(''sampling_policy_id'', PStr i)]"
    by (auto simp: validate_sampling_reference_def sampling_error_def Let_def monad_simps
        split: pyval.splits if_splits option.splits list.splits)
  then show "dict_safe d" using stable_digest_total [of "PDict identity"] by auto
qed

lemma eq_int_safe: "eq_int v i \<Longrightarrow> json_safe v"
  by (cases v) auto

lemma make_information_policy_ok: "make_information_policy m deck hand view sampling = Inr p \<Longrightarrow> information_ok p"
  by (auto simp: make_information_policy_def information_ok_def information_identity_def Let_def monad_simps
      opt_dict_def validated_safe eq_int_safe split: if_splits pyval.splits)

section \<open>The audit\<close>

datatype audit_call =
    Record_Access information_field pyval pyval
  | Require_Access information_field pyval pyval

fun after_call :: "audit_call \<Rightarrow> information_audit \<Rightarrow> information_audit" where
  "after_call (Record_Access f w s) au = fst (record_access f w s au)"
| "after_call (Require_Access f w s) au = fst (require_access f w s au)"

definition run_audit :: "information_policy \<Rightarrow> audit_call list \<Rightarrow> information_audit" where
  "run_audit p calls = foldl (\<lambda>au c. after_call c au) (new_audit p) calls"

definition audit_inv :: "information_policy \<Rightarrow> information_audit \<Rightarrow> bool" where
  "audit_inv p au \<longleftrightarrow> au_policy au = p \<and> map acc_sequence (accesses au) = [0..<length (accesses au)] \<and>
     list_all (\<lambda>a. decide p (acc_field a) (acc_owner a) = Inr (acc_decision a) \<and> acc_purpose a \<noteq> []) (accesses au)"

lemma record_access_inv: "audit_inv p au \<Longrightarrow> audit_inv p (fst (record_access f w s au))"
  by (auto simp: record_access_def audit_inv_def split: pyval.split sum.split)

lemma require_record: "fst (require_access f w s au) = fst (record_access f w s au)"
  by (auto simp: require_access_def split: prod.split sum.split)

lemma run_audit_inv: "audit_inv p (run_audit p calls)"
proof (induction calls rule: rev_induct)
  case Nil
  then show ?case by (simp add: run_audit_def new_audit_def audit_inv_def)
next
  case (snoc c calls)
  then show ?case
    using record_access_inv [of p "run_audit p calls"]
    by (cases c) (simp_all add: run_audit_def require_record)
qed

text \<open>The log is what the accepted calls ask for, in order, with the decisions of the policy.\<close>

definition logged :: "information_policy \<Rightarrow> information_field \<Rightarrow> pyval \<Rightarrow> pyval \<Rightarrow>
    (information_field \<times> pyval \<times> string \<times> access_decision) option" where
  "logged p f w why =
    (case why of
       PStr s \<Rightarrow> if s = [] then None else (case decide p f w of Inl err \<Rightarrow> None | Inr d \<Rightarrow> Some (f, w, s, d))
     | _ \<Rightarrow> None)"

fun logged_call :: "information_policy \<Rightarrow> audit_call \<Rightarrow>
    (information_field \<times> pyval \<times> string \<times> access_decision) option" where
  "logged_call p (Record_Access f w s) = logged p f w s"
| "logged_call p (Require_Access f w s) = logged p f w s"

definition access_entry :: "information_access \<Rightarrow> information_field \<times> pyval \<times> string \<times> access_decision" where
  "access_entry a = (acc_field a, acc_owner a, acc_purpose a, acc_decision a)"

lemma record_access_log:
  "map access_entry (accesses (fst (record_access f w s au))) =
    map access_entry (accesses au) @ (case logged (au_policy au) f w s of None \<Rightarrow> [] | Some e \<Rightarrow> [e])"
  by (auto simp: record_access_def logged_def access_entry_def split: pyval.split sum.split)

lemma run_audit_log:
  "map access_entry (accesses (run_audit p calls)) = List.map_filter (logged_call p) calls"
proof (induction calls rule: rev_induct)
  case Nil
  then show ?case by (simp add: run_audit_def new_audit_def map_filter_simps)
next
  case (snoc c calls)
  have "au_policy (run_audit p calls) = p" using run_audit_inv [of p calls] by (simp add: audit_inv_def)
  then show ?case
    using snoc
    by (cases c) (simp_all add: run_audit_def require_record record_access_log List.map_filter_def split: option.split)
qed

lemma decide_owner_safe: "decide p f w = Inr d \<Longrightarrow> json_safe w"
  by (auto simp: decide_def eq_int_safe split: if_splits)

lemma audit_to_dict_total:
  assumes "information_ok p" and "audit_inv p au"
  shows "\<exists>d. audit_to_dict au = Inr d"
proof -
  have safe: "dict_safe (access_to_dict a)" if "a \<in> set (accesses au)" for a
    using assms(2) that decide_owner_safe by (auto simp: audit_inv_def list_all_iff access_to_dict_def)
  obtain i where i: "stable_digest (PDict (information_identity p)) ''infopol_'' = Inr i"
    using assms(1) stable_digest_total [of "PDict (information_identity p)"] by (auto simp: information_ok_def)
  have "\<exists>j. stable_digest (PDict (canonical_entries
      [(''accesses'', PList (map (PDict \<circ> access_to_dict) (accesses au))),
       (''leak_count'', PInt (int (length (leaks au)))),
       (''leaks'', PList (map (PDict \<circ> access_to_dict) (leaks au))),
       (''policy'', PDict (information_identity p @ [(''policy_id'', PStr i)])),
       (''schema_version'', PStr INFORMATION_AUDIT_SCHEMA_VERSION)])) ''infoaudit_'' = Inr j"
    using assms(1) safe by (simp add: stable_digest_total list_all_iff leaks_def information_ok_def)
  then show ?thesis
    using assms(2) i by (auto simp: audit_to_dict_def information_policy_to_dict_def audit_inv_def)
qed

lemma assert_no_leaks_Inr:
  assumes "information_ok p" and "audit_inv p au"
  shows "assert_no_leaks au = Inr u \<longleftrightarrow> list_all (\<lambda>a. acc_decision a = ACCESS_ALLOWED) (accesses au)"
proof -
  obtain d where "audit_to_dict au = Inr d" using audit_to_dict_total [OF assms] by blast
  then show ?thesis
    using filter_empty_conv [of "\<lambda>a. acc_decision a \<noteq> ACCESS_ALLOWED" "accesses au"]
    by (cases "leaks au") (simp_all add: assert_no_leaks_def leaks_def list_all_iff)
qed

section \<open>The draw\<close>

lemma select_index_found:
  assumes "list_all (\<lambda>w. 0 < w) ws" and "0 \<le> draw" and "draw < sum_list ws"
  shows "\<exists>j. select_index i draw ws = i + j \<and> j < length ws \<and>
    sum_list (take j ws) \<le> draw \<and> draw < sum_list (take (Suc j) ws)"
  using assms
proof (induction i draw ws rule: select_index.induct)
  case (2 i draw w ws)
  show ?case
  proof (cases "draw < w")
    case True
    then show ?thesis using 2 by (intro exI [of _ 0]) simp
  next
    case False
    then obtain j where "select_index (Suc i) (draw - w) ws = Suc i + j" "j < length ws"
        "sum_list (take j ws) \<le> draw - w" "draw - w < sum_list (take (Suc j) ws)"
      using 2 by auto
    then show ?thesis using False by (intro exI [of _ "Suc j"]) simp
  qed
qed simp

lemma sum_take_mono:
  "list_all (\<lambda>w. 0 < w) ws \<Longrightarrow> i \<le> j \<Longrightarrow> sum_list (take i ws) \<le> sum_list (take j (ws :: int list))"
proof (induction ws arbitrary: i j)
  case (Cons w ws)
  have "0 \<le> sum_list (take k ws)" for k
    using Cons.prems(1) by (intro sum_list_nonneg) (auto simp: list_all_iff dest!: in_set_takeD)
  with Cons show ?case by (cases i; cases j) auto
qed simp

lemma select_index_iff:
  assumes "list_all (\<lambda>w. 0 < w) ws" and "0 \<le> draw" and "draw < sum_list ws" and "j < length ws"
  shows "select_index 0 draw ws = j \<longleftrightarrow> sum_list (take j ws) \<le> draw \<and> draw < sum_list (take (Suc j) ws)"
proof -
  obtain k where k: "select_index 0 draw ws = k" "k < length ws"
      "sum_list (take k ws) \<le> draw" "draw < sum_list (take (Suc k) ws)"
    using select_index_found [OF assms(1-3), of 0] by auto
  show ?thesis
  proof
    assume "sum_list (take j ws) \<le> draw \<and> draw < sum_list (take (Suc j) ws)"
    then have "\<not> Suc j \<le> k" "\<not> Suc k \<le> j"
      using k(3,4) sum_take_mono [OF assms(1), of "Suc j" k] sum_take_mono [OF assms(1), of "Suc k" j] by auto
    then show "select_index 0 draw ws = j" using k(1) by simp
  qed (use k in simp)
qed

text \<open>Of all possible draws exactly as many fall on a candidate as its weight says.\<close>

lemma draws_of_candidate:
  assumes "list_all (\<lambda>w. 0 < w) ws" and "j < length ws"
  shows "card {draw \<in> {0..<sum_list ws}. select_index 0 draw ws = j} = nat (ws ! j)"
proof -
  have bounds: "0 \<le> sum_list (take j ws)" "sum_list (take (Suc j) ws) \<le> sum_list ws"
    using sum_take_mono [OF assms(1), of 0 j] sum_take_mono [OF assms(1), of "Suc j" "length ws"] assms(2)
    by simp_all
  then have "{draw \<in> {0..<sum_list ws}. select_index 0 draw ws = j} =
      {sum_list (take j ws)..<sum_list (take (Suc j) ws)}"
    using select_index_iff [OF assms(1) _ _ assms(2)] by (force simp del: take_Suc_conv_app_nth)
  then show ?thesis using assms(2) by (simp add: take_Suc_conv_app_nth)
qed

end
