(* ===== verification/Sampling_Laws.thy ===== *)
theory Sampling_Laws
  imports Information_Laws
begin

text \<open>
  Sampling references and information policies read back: what validation returns is canonical and
  validates to itself, so that the policy an experiment records is the policy it was written from.
\<close>

section \<open>Candidates\<close>

definition good_hand :: "pyval \<Rightarrow> bool" where
  "good_hand v \<longleftrightarrow> (case v of PList codes \<Rightarrow> codes \<noteq> [] \<and> list_all is_positive codes | _ \<Rightarrow> False)"

lemma is_positive_canonical: "is_positive v \<Longrightarrow> to_canonical_data v = v"
  by (cases v) (auto simp: is_positive_def)

lemma good_hand_canonical: "good_hand v \<Longrightarrow> to_canonical_data v = v"
  by (cases v) (auto simp: good_hand_def list_all_iff is_positive_canonical intro: map_idI)

definition chosen_hands :: "pydict \<Rightarrow> string list \<Rightarrow> pydict" where
  "chosen_hands hands ps = map (\<lambda>p. (p, dict_get hands p)) ps"

lemma chosen_hands_simps [simp]:
  "map fst (chosen_hands hands ps) = ps" "fst ` set (chosen_hands hands ps) = set ps"
  by (auto simp: chosen_hands_def comp_def image_image)

lemma dict_get_chosen: "p \<in> set ps \<Longrightarrow> dict_get (chosen_hands hands ps) p = dict_get hands p"
  by (induction ps) (auto simp: chosen_hands_def)

lemma normalize_hands_Inr:
  "normalize_hands path hands ps = Inr h \<longleftrightarrow>
    list_all (\<lambda>p. good_hand (dict_get hands p)) ps \<and> h = chosen_hands hands ps"
  by (induction ps arbitrary: h)
    (auto simp: good_hand_def chosen_hands_def sampling_error_def monad_simps split: pyval.split if_splits)

lemma no_unknown: "sort (filter P (remdups xs)) = [] \<longleftrightarrow> list_all (\<lambda>k. \<not> P k) xs"
proof -
  have "sort ys = [] \<longleftrightarrow> ys = []" for ys :: "'a list" by (metis set_sort set_empty)
  then show ?thesis by (auto simp: filter_empty_conv list_all_iff)
qed

definition candidate_with :: "string list \<Rightarrow> pyval \<Rightarrow> pyval \<Rightarrow> bool" where
  "candidate_with players v c \<longleftrightarrow> (case v of
     PDict d \<Rightarrow> (case dict_get d ''hands_by_player'' of
        PDict hands \<Rightarrow> list_all (\<lambda>k. k \<in> {''hands_by_player'', ''weight''}) (map fst d) \<and>
          is_positive (dict_get d ''weight'') \<and> fst ` set hands = set players \<and>
          list_all (\<lambda>p. good_hand (dict_get hands p)) (sort players) \<and>
          c = PDict [(''hands_by_player'', PDict (chosen_hands hands (sort players))),
                     (''weight'', dict_get d ''weight'')]
      | _ \<Rightarrow> False)
   | _ \<Rightarrow> False)"

lemma normalize_candidate_Inr:
  "normalize_candidate path players i v = Inr c \<longleftrightarrow> candidate_with players v c"
proof (cases v)
  case (PDict d)
  show ?thesis
  proof (cases "dict_get d ''hands_by_player''")
    case (PDict hands)
    then show ?thesis
      by (auto simp: \<open>v = PDict d\<close> normalize_candidate_def candidate_with_def Let_def sampling_error_def
          no_unknown monad_simps normalize_hands_Inr)
  qed (simp_all add: PDict normalize_candidate_def candidate_with_def Let_def sampling_error_def)
qed (simp_all add: normalize_candidate_def candidate_with_def Let_def sampling_error_def)

lemma candidate_with_again:
  assumes "candidate_with players v c"
  shows "candidate_with players c c" and "to_canonical_data c = c" and "0 < weight_of c"
proof -
  obtain hands w where c: "c = PDict [(''hands_by_player'', PDict (chosen_hands hands (sort players))),
      (''weight'', w)]" and w: "is_positive w" and good: "list_all (\<lambda>p. good_hand (dict_get hands p)) (sort players)"
    using assms(1) by (auto simp: candidate_with_def split: pyval.splits)
  have same: "dict_get (chosen_hands hands (sort players)) p = dict_get hands p" if "p \<in> set players" for p
    using that by (simp add: dict_get_chosen)
  show "candidate_with players c c"
    using w good same
    by (auto simp: c candidate_with_def list_all_iff chosen_hands_def [of "chosen_hands hands (sort players)"])
      (simp add: chosen_hands_def)
  have "canonical_entries (chosen_hands hands (sort players)) = chosen_hands hands (sort players)"
    using good by (simp add: canonical_entries_sorted)
      (auto simp: chosen_hands_def list_all_iff good_hand_canonical)
  then show "to_canonical_data c = c"
    using w by (simp add: c is_positive_canonical canonical_PDict del: to_canonical_data.simps(8))
      (simp add: canonical_entries_sorted canonical_PDict is_positive_canonical del: to_canonical_data.simps(8))
  show "0 < weight_of c"
    using w by (cases w) (auto simp: c weight_of_def is_positive_def)
qed

section \<open>References\<close>

lemma normalized_candidates:
  assumes "sseq (map2 (normalize_candidate path players) [0..<length cs] cs) = Inr cands"
  shows "sseq (map2 (normalize_candidate path players) [0..<length cands] cands) = Inr cands"
    and "map to_canonical_data cands = cands" and "length cands = length cs"
    and "list_all (\<lambda>w. 0 < w) (map weight_of cands)"
proof -
  have eq: "map2 (normalize_candidate path players) [0..<length cs] cs = map Inr cands"
    using assms by (simp add: sseq_eq_Inr)
  from arg_cong [OF eq, of length] show len: "length cands = length cs" by simp
  have nth: "candidate_with players (cs ! i) (cands ! i)" if "i < length cands" for i
    using arg_cong [OF eq, of "\<lambda>xs. xs ! i"] that len by (simp add: normalize_candidate_Inr)
  show "sseq (map2 (normalize_candidate path players) [0..<length cands] cands) = Inr cands"
    unfolding sseq_eq_Inr
    by (rule nth_equalityI) (use nth candidate_with_again(1) in \<open>auto simp: normalize_candidate_Inr\<close>)
  show "map to_canonical_data cands = cands"
    by (rule nth_equalityI) (use nth candidate_with_again(2) in auto)
  show "list_all (\<lambda>w. 0 < w) (map weight_of cands)"
    using nth candidate_with_again(3) by (auto simp: list_all_length)
qed

lemma sampling_owners_Some:
  assumes "sampling_owners v = Some owners"
  shows "v = PList owners" and "map to_canonical_data owners = owners"
proof -
  show v: "v = PList owners"
    using assms by (cases v) (auto simp: sampling_owners_def split: if_splits)
  have "list_all is_owner owners"
    using assms by (simp add: v sampling_owners_def split: if_splits)
  then show "map to_canonical_data owners = owners"
    by (intro map_idI) (auto simp: list_all_iff is_owner_def eq_int_scalar)
qed

text \<open>What a validated reference is made of.\<close>

definition reference_with :: "pydict \<Rightarrow> pyval list \<Rightarrow> pyval list \<Rightarrow> pyval \<Rightarrow> string \<Rightarrow> bool" where
  "reference_with d cands owners sd i \<longleftrightarrow>
     d = sampling_identity cands owners sd @ [(''sampling_policy_id'', PStr i)] \<and>
     stable_digest (PDict (sampling_identity cands owners sd)) ''handsampol_'' = Inr i \<and>
     (case sd of PInt n \<Rightarrow> 0 \<le> n | _ \<Rightarrow> False) \<and>
     sampling_owners (PList owners) = Some owners \<and> cands \<noteq> [] \<and>
     sseq (map2 (normalize_candidate ''$.information_policy.sampling_reference'' (map py_str owners))
       [0..<length cands] cands) = Inr cands \<and>
     map to_canonical_data cands = cands \<and> list_all (\<lambda>w. 0 < w) (map weight_of cands)"

lemma validated_reference:
  assumes "validate_sampling_reference v = Inr d"
  shows "\<exists>cands owners sd i. reference_with d cands owners sd i"
proof -
  obtain e where e: "v = PDict e"
    using assms by (cases v) (auto simp: validate_sampling_reference_def sampling_error_def)
  obtain owners c cs where parts: "sampling_owners (dict_get e ''sampled_owners'') = Some owners"
      "dict_get e ''candidates'' = PList (c # cs)"
    using assms
    by (auto simp: e validate_sampling_reference_def sampling_error_def Let_def
        split: if_splits option.splits pyval.splits list.splits)
  define sd where "sd = dict_get e ''seed''"
  have sd: "case sd of PInt n \<Rightarrow> 0 \<le> n | _ \<Rightarrow> False"
    using assms by (auto simp: e sd_def validate_sampling_reference_def sampling_error_def Let_def split: if_splits)
  obtain cands i where read: "sseq (map2 (normalize_candidate ''$.information_policy.sampling_reference''
      (map py_str owners)) [0..<length (c # cs)] (c # cs)) = Inr cands"
      "stable_digest (PDict (sampling_identity cands owners sd)) ''handsampol_'' = Inr i"
      "d = sampling_identity cands owners sd @ [(''sampling_policy_id'', PStr i)]"
    using assms sd
    by (auto simp: e sd_def parts validate_sampling_reference_def sampling_error_def Let_def monad_simps
        simp del: map2_map_map upt_Suc split: if_splits)
  note again = normalized_candidates [OF read(1)]
  have "cands \<noteq> []" using again(3) by auto
  moreover have "sampling_owners (PList owners) = Some owners" using parts(1) sampling_owners_Some(1) by metis
  ultimately show ?thesis
    unfolding reference_with_def using read(2,3) sd again by blast
qed

lemma identity_entries:
  assumes "reference_with d cands owners sd i"
  shows "sampling_identity cands owners sd =
    [(''candidates'', PList cands), (''sampled_owners'', PList owners),
     (''sampler_id'', PStr OPENING_HAND_SAMPLER_ID),
     (''schema_version'', PStr OPENING_HAND_SAMPLING_SCHEMA_VERSION), (''seed'', sd)]"
proof -
  have "map to_canonical_data owners = owners" "map to_canonical_data cands = cands" "to_canonical_data sd = sd"
    using assms sampling_owners_Some(2) by (auto simp: reference_with_def split: pyval.splits)
  then show ?thesis by (simp add: sampling_identity_def canonical_entries_sorted)
qed

lemma reference_again:
  assumes ref: "reference_with d cands owners sd i"
    and keys: "fst ` set e = fst ` set d" and get: "\<And>f. dict_get e f = dict_get d f"
  shows "validate_sampling_reference (PDict e) = Inr d"
proof -
  note entries = identity_entries [OF ref]
  have d: "d = sampling_identity cands owners sd @ [(''sampling_policy_id'', PStr i)]"
    and digest: "stable_digest (PDict (sampling_identity cands owners sd)) ''handsampol_'' = Inr i"
    and sd: "case sd of PInt n \<Rightarrow> 0 \<le> n | _ \<Rightarrow> False"
    and owners: "sampling_owners (PList owners) = Some owners"
    and read: "sseq (map2 (normalize_candidate ''$.information_policy.sampling_reference'' (map py_str owners))
       [0..<length cands] cands) = Inr cands"
    using ref by (simp_all add: reference_with_def)
  have gets: "dict_get e ''schema_version'' = PStr OPENING_HAND_SAMPLING_SCHEMA_VERSION"
      "dict_get e ''sampler_id'' = PStr OPENING_HAND_SAMPLER_ID" "dict_get e ''seed'' = sd"
      "dict_get e ''sampled_owners'' = PList owners" "dict_get e ''candidates'' = PList cands"
      "dict_get e ''sampling_policy_id'' = PStr i"
    unfolding get d entries by simp_all
  have known: "list_all (\<lambda>k. k \<in> set sampling_fields) (map fst e)"
  proof -
    have "fst ` set d \<subseteq> set sampling_fields" unfolding d entries by (simp add: sampling_fields_def)
    then show ?thesis using keys by (auto simp: list_all_iff)
  qed
  obtain c cs where cands: "cands = c # cs" using ref by (cases cands) (simp_all add: reference_with_def)
  have read': "sseq (map2 (normalize_candidate ''$.information_policy.sampling_reference'' (map py_str owners))
       [0..<Suc (length cs)] (c # cs)) = Inr (c # cs)"
    using read by (simp only: cands list.size add_0_right add_Suc_right)
  from sd obtain n where n: "sd = PInt n" "0 \<le> n" by (cases sd) simp_all
  show ?thesis
    unfolding validate_sampling_reference_def Let_def pyval.case gets no_unknown owners option.case cands
      list.case read' sbind_Inr digest [unfolded cands]
    using known n by (simp add: d cands list_all_iff)
qed

text \<open>A validated reference is its own validation, in whatever order its entries are read back.\<close>

lemma validate_again:
  assumes "validate_sampling_reference v = Inr d"
  shows "validate_sampling_reference (PDict d) = Inr d"
    and "validate_sampling_reference (to_canonical_data (PDict d)) = Inr d"
proof -
  obtain cands owners sd i where ref: "reference_with d cands owners sd i"
    using validated_reference [OF assms] by blast
  show "validate_sampling_reference (PDict d) = Inr d" by (rule reference_again [OF ref]) simp_all
  have canonical: "map to_canonical_data cands = cands" "map to_canonical_data owners = owners" "to_canonical_data sd = sd"
    using ref sampling_owners_Some(2) by (auto simp: reference_with_def split: pyval.splits)
  have "to_canonical_data (dict_get d f) = dict_get d f" for f
    using ref canonical unfolding reference_with_def identity_entries [OF ref] by auto
  then show "validate_sampling_reference (to_canonical_data (PDict d)) = Inr d"
    unfolding canonical_PDict by (intro reference_again [OF ref]) simp_all
qed

section \<open>Policies\<close>

lemma enum_of_value: "inj_on val (set members) \<Longrightarrow> m \<in> set members \<Longrightarrow>
    enum_of cls val members (PStr (val m)) = Inr m"
  by (simp add: enum_of_Inr)

lemma deck_order_of_value [simp]: "deck_order_of (PStr (deck_order_value m)) = Inr m"
  unfolding deck_order_of_def by (rule enum_of_value) (cases m; auto simp: inj_on_def)+

lemma opening_hand_of_value [simp]: "opening_hand_of (PStr (opening_hand_value m)) = Inr m"
  unfolding opening_hand_of_def by (rule enum_of_value) (cases m; auto simp: inj_on_def)+

lemma mode_of_value [simp]: "mode_of (PStr (mode_value m)) = Inr m"
  by (simp add: mode_of_Inr)

lemma dict_get_delete [simp]: "dict_get (AList.delete k d) f = (if f = k then PNone else dict_get d f)"
  by (simp add: dict_get_def delete_conv')

lemma dict_get_either: "dict_get (d @ e) f = (if f \<in> fst ` set d then dict_get d f else dict_get e f)"
proof (cases "map_of d f")
  case None
  with map_of_eq_None_iff [of d f] show ?thesis by (simp add: dict_get_def map_add_def)
next
  case (Some v)
  then show ?thesis using map_of_SomeD [OF Some] by (force simp: dict_get_def map_add_def)
qed

text \<open>What the constructor accepts, and that it accepts it again from the values it stored.\<close>

definition sampling_needed :: "information_policy \<Rightarrow> bool" where
  "sampling_needed p \<longleftrightarrow> ip_mode p = SAMPLED_PRIVATE_STATE \<or> opening_hand p = HAND_DISTRIBUTION"

lemma make_information_policy_stored:
  assumes "make_information_policy m deck hand view sampling = Inr p"
  shows "(if ip_mode p = PLAYER_VIEW then eq_int (ip_viewer p) 0 \<or> eq_int (ip_viewer p) 1 else ip_viewer p = PNone)"
    and "case ip_sampling p of None \<Rightarrow> \<not> sampling_needed p
      | Some s \<Rightarrow> sampling_needed p \<and> validate_sampling_reference (to_canonical_data (PDict s)) = Inr s"
  using assms validate_again(2)
  by (auto simp: make_information_policy_def sampling_needed_def Let_def monad_simps split: if_splits pyval.splits
      simp del: to_canonical_data.simps(8))

lemma make_information_policy_again:
  assumes "make_information_policy m deck hand view sampling = Inr p"
  shows "make_information_policy (PStr (mode_value (ip_mode p))) (PStr (deck_order_value (deck_order p)))
    (PStr (opening_hand_value (opening_hand p))) (ip_viewer p) (to_canonical_data (opt_dict (ip_sampling p))) = Inr p"
proof (cases "ip_sampling p")
  case None
  then show ?thesis
    using make_information_policy_stored [OF assms]
    by (cases p) (auto simp: make_information_policy_def sampling_needed_def opt_dict_def split: if_splits)
next
  case (Some s)
  then show ?thesis
    using make_information_policy_stored [OF assms]
    by (cases p) (auto simp: make_information_policy_def sampling_needed_def opt_dict_def canonical_PDict Let_def
      simp del: to_canonical_data.simps(8) split: if_splits)
qed

lemma identity_get:
  "dict_get (information_identity p) f = to_canonical_data (dict_get
    [(''deck_order'', PStr (deck_order_value (deck_order p))),
     (''information_mode'', PStr (mode_value (ip_mode p))),
     (''opening_hand'', PStr (opening_hand_value (opening_hand p))),
     (''sampling_reference'', opt_dict (ip_sampling p)),
     (''schema_version'', PStr INFORMATION_POLICY_SCHEMA_VERSION),
     (''viewer'', ip_viewer p)] f)"
  unfolding information_identity_def by (rule dict_get_canonical)

lemma identity_keys: "fst ` set (information_identity p) =
    {''deck_order'', ''information_mode'', ''opening_hand'', ''sampling_reference'', ''schema_version'', ''viewer''}"
  by (auto simp: information_identity_def)

lemma information_policy_read_back:
  assumes made: "make_information_policy m deck hand view sampling = Inr p"
    and raw: "to_experiment_dict p = Inr raw"
    and version: "dict_get experiment ''schema_version'' = PStr ''0.3b'' \<or>
      dict_get experiment ''schema_version'' = PStr ''0.4''"
    and mode: "dict_get experiment ''information_mode'' = PStr (mode_value (ip_mode p))"
    and policy: "dict_get experiment ''information_policy'' = PDict raw"
    and player: "dict_get experiment ''player'' = PDict who" "dict_get who ''perspective'' = ip_viewer p"
  shows "information_policy_from_experiment experiment = Inr p"
proof -
  obtain d where d: "information_policy_to_dict p = Inr d"
      "raw = AList.delete ''viewer'' (AList.delete ''information_mode'' d)"
    using raw by (auto simp: to_experiment_dict_def monad_simps)
  obtain i where i: "d = information_identity p @ [(''policy_id'', PStr i)]"
    using d(1) by (auto simp: information_policy_to_dict_def monad_simps)
  have gets: "dict_get raw ''deck_order'' = PStr (deck_order_value (deck_order p))"
      "dict_get raw ''opening_hand'' = PStr (opening_hand_value (opening_hand p))"
      "dict_get raw ''sampling_reference'' = to_canonical_data (opt_dict (ip_sampling p))"
      "dict_get raw ''schema_version'' = PStr INFORMATION_POLICY_SCHEMA_VERSION"
      "dict_get raw ''policy_id'' = dict_get d ''policy_id''"
    unfolding d(2) i by (simp_all add: dict_get_either identity_keys identity_get)
  have viewed: "(if ip_mode p = PLAYER_VIEW then dict_get who ''perspective'' else PNone) = ip_viewer p"
    using make_information_policy_stored(1) [OF made] player(2) by (simp split: if_splits)
  have known: "unhashable (dict_get experiment ''schema_version'') = None" using version by auto
  show ?thesis
    unfolding information_policy_from_experiment_def known mode policy player(1) prod.case pyval.case py_str.simps
      mode_of_value sbind_Inr gets viewed make_information_policy_again [OF made] d(1)
    using version by (auto simp: INFORMATION_POLICY_EXPERIMENT_SCHEMA_VERSION_def)
qed

section \<open>Drawn hands\<close>

lemma canonical_hands: "to_canonical_data c = c \<Longrightarrow> to_canonical_data (hands_of c) = hands_of c"
proof (cases c)
  case (PDict d)
  assume "to_canonical_data c = c"
  then have "canonical_entries d = d" by (simp add: PDict canonical_PDict del: to_canonical_data.simps(8))
  then show ?thesis using dict_get_canonical [of d "''hands_by_player''"] by (simp add: hands_of_def PDict)
qed (simp_all add: hands_of_def)

text \<open>The candidate a digest selects.\<close>

definition drawn_index :: "pyval list \<Rightarrow> string \<Rightarrow> nat" where
  "drawn_index cands draw_id = select_index 0
    (int (hex_number (drop (length ''handdraw_'') draw_id)) mod sum_list (map weight_of cands)) (map weight_of cands)"

lemma drawn_index_bound:
  assumes "cands \<noteq> []" and "list_all (\<lambda>w. 0 < w) (map weight_of cands)"
  shows "drawn_index cands draw_id < length cands"
proof -
  have "0 < sum_list (map weight_of cands)"
    using assms by (cases cands) (auto simp: list_all_iff less_imp_le intro!: add_pos_nonneg sum_list_nonneg)
  then show ?thesis
    unfolding drawn_index_def using select_index_found [OF assms(2), of _ 0] by fastforce
qed

lemma evidence_Inr:
  assumes "sampling_evidence reference pid = Inr e"
  shows "\<exists>d draw_id i. validate_sampling_reference reference = Inr d \<and>
    e = canonical_entries
      [(''information_policy_id'', pid),
       (''result'', PDict [(''hands_by_player'', hands_of (items (dict_get d ''candidates'') !
          drawn_index (items (dict_get d ''candidates'')) draw_id))]),
       (''sampled_owners'', dict_get d ''sampled_owners''), (''sampler_id'', dict_get d ''sampler_id''),
       (''sampling_policy_id'', dict_get d ''sampling_policy_id''),
       (''schema_version'', dict_get d ''schema_version''), (''seed'', dict_get d ''seed''),
       (''selected_index'', PInt (int (drawn_index (items (dict_get d ''candidates'')) draw_id)))] @
      [(''sample_id'', PStr i)]"
  using assms
  by (auto simp: sampling_evidence_def drawn_index_def Let_def monad_simps split: if_splits)

lemma evidence_candidate:
  assumes "sampling_evidence reference pid = Inr e"
  shows "\<exists>d cands j. validate_sampling_reference reference = Inr d \<and> dict_get d ''candidates'' = PList cands \<and>
    j < length cands \<and> dict_get e ''selected_index'' = PInt (int j) \<and>
    dict_get e ''result'' = PDict [(''hands_by_player'', hands_of (cands ! j))]"
proof -
  obtain d draw_id i where valid: "validate_sampling_reference reference = Inr d"
    and e: "e = canonical_entries
      [(''information_policy_id'', pid),
       (''result'', PDict [(''hands_by_player'', hands_of (items (dict_get d ''candidates'') !
          drawn_index (items (dict_get d ''candidates'')) draw_id))]),
       (''sampled_owners'', dict_get d ''sampled_owners''), (''sampler_id'', dict_get d ''sampler_id''),
       (''sampling_policy_id'', dict_get d ''sampling_policy_id''),
       (''schema_version'', dict_get d ''schema_version''), (''seed'', dict_get d ''seed''),
       (''selected_index'', PInt (int (drawn_index (items (dict_get d ''candidates'')) draw_id)))] @
      [(''sample_id'', PStr i)]"
    using evidence_Inr [OF assms] by blast
  obtain cands owners sd k where ref: "reference_with d cands owners sd k"
    using validated_reference [OF valid] by blast
  have cands: "dict_get d ''candidates'' = PList cands" "cands \<noteq> []" "map to_canonical_data cands = cands"
      "list_all (\<lambda>w. 0 < w) (map weight_of cands)"
    using identity_entries [OF ref] ref by (simp_all add: reference_with_def)
  let ?j = "drawn_index cands draw_id"
  have j: "?j < length cands" by (rule drawn_index_bound [OF cands(2,4)])
  have "to_canonical_data (cands ! ?j) = cands ! ?j" using cands(3) j by (metis nth_map)
  then have hands: "to_canonical_data (hands_of (cands ! ?j)) = hands_of (cands ! ?j)" by (rule canonical_hands)
  have "dict_get e ''selected_index'' = PInt (int ?j)"
      "dict_get e ''result'' = PDict [(''hands_by_player'', hands_of (cands ! ?j))]"
    unfolding e by (simp_all add: dict_get_either cands(1) hands canonical_PDict canonical_entries_sorted
        del: to_canonical_data.simps(8))
  with valid cands(1) j show ?thesis by blast
qed

lemma evidence_total:
  assumes "validate_sampling_reference reference = Inr d" and "pname \<noteq> []"
  shows "\<exists>e. sampling_evidence reference (PStr pname) = Inr e"
proof -
  have safe: "dict_safe d" by (rule validated_safe [OF assms(1)])
  then have gets: "json_safe (dict_get d f)" for f by (rule dict_safe_get)
  obtain cands owners sd k where ref: "reference_with d cands owners sd k"
    using validated_reference [OF assms(1)] by blast
  have cands: "dict_get d ''candidates'' = PList cands" "cands \<noteq> []" "list_all (\<lambda>w. 0 < w) (map weight_of cands)"
    using identity_entries [OF ref] ref by (simp_all add: reference_with_def)
  have hands: "json_safe (hands_of (cands ! drawn_index cands x))" for x
  proof -
    have "json_safe (cands ! drawn_index cands x)"
      using gets [of "''candidates''"] drawn_index_bound [OF cands(2,3)] by (simp add: cands(1) list_all_length)
    then show ?thesis by (cases "cands ! drawn_index cands x") (simp_all add: hands_of_def dict_safe_get)
  qed
  obtain draw_id where draw: "stable_digest (PDict (canonical_entries
      [(''sampler_id'', dict_get d ''sampler_id''), (''sampling_policy_id'', dict_get d ''sampling_policy_id''),
       (''seed'', dict_get d ''seed'')])) ''handdraw_'' = Inr draw_id"
    using stable_digest_total gets by (metis dict_safe_Cons dict_safe_Nil dict_safe_canonical_entries json_safe_PDict)
  have "\<exists>i. stable_digest (PDict (canonical_entries
      [(''information_policy_id'', PStr pname),
       (''result'', PDict [(''hands_by_player'', hands_of (cands ! drawn_index cands draw_id))]),
       (''sampled_owners'', dict_get d ''sampled_owners''), (''sampler_id'', dict_get d ''sampler_id''),
       (''sampling_policy_id'', dict_get d ''sampling_policy_id''),
       (''schema_version'', dict_get d ''schema_version''), (''seed'', dict_get d ''seed''),
       (''selected_index'', PInt (int (drawn_index cands draw_id)))])) ''handsample_'' = Inr i"
    by (simp add: stable_digest_total gets hands)
  then show ?thesis
    using assms draw cands(1)
    by (auto simp: sampling_evidence_def drawn_index_def Let_def)
qed

end
