(* ===== verification/Search_Frontier.thy ===== *)
theory Search_Frontier
  imports Turn_Lifecycle Termination_Monitor Strategy Replay_Manifest
begin

text \<open>
  \<open>engine/search/executor.py\<close>, first part: what a replayed prefix shows (\<open>SearchFrontier\<close>), the
  summary of a finished route, and the evidence about candidates with its coverage certificate; the
  summary of a route's randomness from \<open>engine/evaluation/randomness.py\<close> and the identifier of a node
  from \<open>engine/search/parallel.py\<close>.
\<close>

definition SEARCH_FRONTIER_SCHEMA_VERSION :: string where
  "SEARCH_FRONTIER_SCHEMA_VERSION = ''search-frontier-v2''"
definition SEARCH_CANDIDATE_EVIDENCE_SCHEMA_VERSION :: string where
  "SEARCH_CANDIDATE_EVIDENCE_SCHEMA_VERSION = ''search-candidate-evidence-v1''"
definition SEARCH_COVERAGE_SCHEMA_VERSION :: string where
  "SEARCH_COVERAGE_SCHEMA_VERSION = ''search-coverage-v1''"
definition ROUTE_RANDOMNESS_SUMMARY_SCHEMA_VERSION :: string where
  "ROUTE_RANDOMNESS_SUMMARY_SCHEMA_VERSION = ''route-randomness-summary-v1''"

fun reason_value :: "termination_reason \<Rightarrow> string" where
  "reason_value GOAL_REACHED = ''goal_reached''"
| "reason_value MAX_DEPTH = ''max_depth''"
| "reason_value MAX_NODES = ''max_nodes''"
| "reason_value MAX_REPLAYS = ''max_replays''"
| "reason_value MAX_SECONDS = ''max_seconds''"
| "reason_value STAGNATION = ''stagnation''"
| "reason_value REPEATED_TRANSITION = ''repeated_transition''"
| "reason_value EXHAUSTED = ''exhausted''"

definition CENSORING_TERMINATIONS :: "termination_reason list" where
  "CENSORING_TERMINATIONS = [GOAL_REACHED, MAX_DEPTH, MAX_NODES, MAX_REPLAYS, MAX_SECONDS,
     REPEATED_TRANSITION, STAGNATION]"

definition COVERAGE_CAPABLE_MODES :: "string list" where
  "COVERAGE_CAPABLE_MODES = [''depth_first'', ''beam'']"

text \<open>A finite score: its exact value, with which Python compares it, and the number as data.\<close>

record score =
  amount :: rat
  shown :: pyval

section \<open>Frontiers\<close>

record frontier =
  fr_state_id :: string
  fr_completeness :: string
  fr_request :: "pydict option"
  fr_actions :: "action list"
  fr_score :: score
  fr_peak :: score
  fr_success :: bool
  fr_legal_stop :: bool
  fr_stop_reason :: string
  fr_document :: "pydict option"
  fr_replays :: int
  fr_observation :: "pydict option"

definition with_lifecycle :: "pydict \<Rightarrow> pydict \<Rightarrow> pydict" where
  "with_lifecycle d l = dict_set ''turn_lifecycle'' (PDict l) d"

definition normalize_request :: "pydict option \<Rightarrow> py_error + pydict option" where
  "normalize_request request =
    (case request of
       None \<Rightarrow> Inr None
     | Some d \<Rightarrow>
         (case map_of d ''turn_lifecycle'' of
            None \<Rightarrow> Inr (Some d)
          | Some v \<Rightarrow>
              sbind (lifecycle_from_dict v) (\<lambda>l. sbind (lifecycle_to_dict l) (\<lambda>e. Inr (Some (with_lifecycle d e))))))"

definition normalize_observation :: "pydict option \<Rightarrow> py_error + pydict option" where
  "normalize_observation observation =
    (case observation of
       None \<Rightarrow> Inr None
     | Some d \<Rightarrow>
         sbind (lifecycle_from_dict (dict_get d ''turn_lifecycle'')) (\<lambda>l.
         if \<not> l_duel_ended l
         then value_error ''terminal_observation requires a duel-ended lifecycle''
         else sbind (lifecycle_to_dict l) (\<lambda>e. Inr (Some (with_lifecycle d e)))))"

text \<open>The constructor; the observation and the replay count are tested and dynamic.\<close>

definition make_frontier :: "frontier \<Rightarrow> pyval \<Rightarrow> pyval \<Rightarrow> string \<Rightarrow> py_error + frontier" where
  "make_frontier f observation replays schema =
    (if schema \<noteq> SEARCH_FRONTIER_SCHEMA_VERSION
     then value_error (''unsupported SearchFrontier schema '' @ repr_str schema)
     else if fr_completeness f \<noteq> ''exact'' \<and> fr_completeness f \<noteq> ''query_api_projection''
     then value_error (''state_completeness must be '' @ repr_str ''exact'' @ '' or '' @ repr_str ''query_api_projection'')
     else if fr_request f = None \<and> observation = PNone
     then value_error ''SearchFrontier requires a request or terminal_observation''
     else if fr_request f \<noteq> None \<and> observation \<noteq> PNone
     then value_error ''SearchFrontier request and terminal_observation are mutually exclusive''
     else if observation \<noteq> PNone \<and> (case observation of PDict d \<Rightarrow> False | _ \<Rightarrow> True)
     then value_error ''terminal_observation must be a mapping or None''
     else if observation \<noteq> PNone \<and> fr_actions f \<noteq> []
     then value_error ''a terminal SearchFrontier cannot expose Actions''
     else if observation \<noteq> PNone \<and> \<not> fr_legal_stop f
     then value_error ''a terminal SearchFrontier must be a legal stop''
     else if fr_document f \<noteq> None \<and> \<not> fr_legal_stop f
     then value_error ''route_document requires a legal stop''
     else if fr_legal_stop f \<and> fr_document f = None
     then value_error ''a legal stop requires a replayable route_document''
     else if \<not> is_int replays \<or> int_val replays < 1
     then value_error ''replay_count must be an integer >= 1''
     else
     sbind (normalize_request (fr_request f)) (\<lambda>request.
     sbind (normalize_observation (case observation of PDict d \<Rightarrow> Some d | _ \<Rightarrow> None)) (\<lambda>obs.
     Inr (f\<lparr>fr_request := request, fr_replays := int_val replays, fr_observation := obs\<rparr>))))"

section \<open>The randomness of a route\<close>

definition need_string :: "pyval \<Rightarrow> string \<Rightarrow> py_error + string" where
  "need_string v path =
    (case v of
       PStr s \<Rightarrow> if s = [] then value_error (path @ '' must be a non-empty string'') else Inr s
     | _ \<Rightarrow> value_error (path @ '' must be a non-empty string''))"

definition need_mapping :: "pyval \<Rightarrow> string \<Rightarrow> py_error + pydict" where
  "need_mapping v path = (case v of PDict d \<Rightarrow> Inr d | _ \<Rightarrow> value_error (path @ '' must be a mapping''))"

fun finite_float_text :: "pyval \<Rightarrow> bool" where
  "finite_float_text (PInt i) = True"
| "finite_float_text (PFloat t) = (t \<notin> {''NaN'', ''Infinity'', ''-Infinity''})"
| "finite_float_text v = False"

definition random_event_entry :: "pydict \<Rightarrow> nat \<Rightarrow> py_error + pydict" where
  "random_event_entry event index =
    (let here = ''random_events['' @ str_nat index @ '']'' in
     sbind (need_string (get_or event ''random_event_id'' (dict_get event ''event_id''))
       (here @ ''.random_event_id'')) (\<lambda>event_id.
     sbind (need_string (dict_get event ''kind'') (here @ ''.kind'')) (\<lambda>kind.
     let probability = dict_get event ''probability'';
         step = get_or event ''after_response_step'' (dict_get event ''step'') in
     if probability \<noteq> PNone \<and> (case probability of PInt i \<Rightarrow> \<bar>i\<bar> \<ge> 2 ^ 1024 - 2 ^ 970 | _ \<Rightarrow> False)
     then Inl (OverflowError ''int too large to convert to float'')
     else if probability \<noteq> PNone \<and> \<not> finite_float_text probability
     then value_error (here @ ''.probability must be a finite number'')
     else if step \<noteq> PNone \<and> (case step of PInt i \<Rightarrow> i < 0 | _ \<Rightarrow> True)
     then value_error (here @ ''.step must be an integer >= 0'')
     else Inr (canonical_entries
       [(''event_id'', PStr event_id), (''kind'', PStr kind),
        (''outcome_observed'', PBool (map_of event ''outcome'' \<noteq> None)),
        (''probability'', probability), (''step'', step)]))))"

definition summary_with_id :: "pydict \<Rightarrow> py_error + pydict" where
  "summary_with_id identity =
    sbind (stable_digest (PDict identity) ''rngsum_'') (\<lambda>i. Inr (identity @ [(''summary_id'', PStr i)]))"

definition route_randomness_summary :: "pydict \<Rightarrow> py_error + pydict" where
  "route_randomness_summary route =
    sbind (need_string (dict_get route ''route_id'') ''route.route_id'') (\<lambda>route_id.
    case (case dict_get route ''replay'' of PDict replay \<Rightarrow> map_of replay ''random_events'' | _ \<Rightarrow> None) of
      None \<Rightarrow> summary_with_id (canonical_entries
        [(''evidence_completeness'', PStr ''missing_replay_random_events''),
         (''gameplay_random_event_count'', PNone),
         (''has_gameplay_randomness'', PNone),
         (''random_events'', PList []),
         (''reliability_class'', PStr ''unknown''),
         (''replay_determinism'', PStr ''unknown''),
         (''route_id'', PStr route_id),
         (''schema_version'', PStr ROUTE_RANDOMNESS_SUMMARY_SCHEMA_VERSION)])
    | Some raw \<Rightarrow>
        (case raw of
           PList events \<Rightarrow>
             sbind (sseq (map (\<lambda>(index, event).
               sbind (need_mapping event (''route.replay.random_events['' @ str_nat index @ '']'')) (\<lambda>d.
               random_event_entry d index)) (enumerate 0 events))) (\<lambda>entries.
             summary_with_id (canonical_entries
               [(''evidence_completeness'', PStr ''complete''),
                (''gameplay_random_event_count'', PInt (int (length entries))),
                (''has_gameplay_randomness'', PBool (entries \<noteq> [])),
                (''random_events'', PList (map PDict entries)),
                (''reliability_class'', PStr (if entries \<noteq> [] then ''stochastic'' else ''deterministic'')),
                (''replay_determinism'', PStr ''indexed_core_output_trace''),
                (''route_id'', PStr route_id),
                (''schema_version'', PStr ROUTE_RANDOMNESS_SUMMARY_SCHEMA_VERSION)]))
         | _ \<Rightarrow> value_error ''route.replay.random_events must be a list''))"

section \<open>Routes\<close>

record route_summary =
  rs_route_id :: string
  rs_success :: bool
  rs_peak :: score
  rs_terminal :: score
  rs_action_ids :: "string list"
  rs_document :: pydict
  rs_boundary :: "pydict option"
  rs_randomness :: pydict
  rs_preference :: "pydict option"

text \<open>The constructor, with the randomness summary built from the document.\<close>

definition make_route ::
  "string \<Rightarrow> bool \<Rightarrow> score \<Rightarrow> score \<Rightarrow> string list \<Rightarrow> pydict \<Rightarrow> pydict option \<Rightarrow> pydict option \<Rightarrow>
    py_error + route_summary"
where
  "make_route route_id success peak terminal ids document preference boundary =
    sbind (route_randomness_summary document) (\<lambda>randomness.
    sbind (case boundary of
        None \<Rightarrow> Inr None
      | Some b \<Rightarrow>
          sbind (lifecycle_from_dict (PDict b)) (\<lambda>l.
          if \<not> l_legal_stop l then value_error ''route lifecycle_boundary must be a legal stop''
          else sbind (lifecycle_to_dict l) (\<lambda>e. Inr (Some e)))) (\<lambda>checked.
    Inr \<lparr>rs_route_id = route_id, rs_success = success, rs_peak = peak, rs_terminal = terminal,
         rs_action_ids = ids, rs_document = document, rs_boundary = checked,
         rs_randomness = randomness, rs_preference = preference\<rparr>))"

type_synonym rank_key = "int \<times> rat \<times> rat \<times> int \<times> string"

definition route_rank_key :: "route_summary \<Rightarrow> rank_key" where
  "route_rank_key r =
    (- of_bool (rs_success r), - amount (rs_peak r), - amount (rs_terminal r),
     int (length (rs_action_ids r)), rs_route_id r)"

definition route_to_dict :: "route_summary \<Rightarrow> bool \<Rightarrow> pydict" where
  "route_to_dict r include_document =
    [(''action_count'', PInt (int (length (rs_action_ids r)))),
     (''action_ids'', PList (map PStr (rs_action_ids r))),
     (''peak_score'', shown (rs_peak r)),
     (''randomness_summary'', to_canonical_data (PDict (rs_randomness r))),
     (''route_id'', PStr (rs_route_id r)),
     (''success'', PBool (rs_success r)),
     (''terminal_score'', shown (rs_terminal r))] @
    (case rs_preference r of None \<Rightarrow> [] | Some p \<Rightarrow>
       [(''terminal_preference_evaluation'', to_canonical_data (PDict p))]) @
    (case rs_boundary r of None \<Rightarrow> [] | Some b \<Rightarrow> [(''lifecycle_boundary'', to_canonical_data (PDict b))]) @
    (if include_document then [(''route_document'', to_canonical_data (PDict (rs_document r)))] else [])"

section \<open>Nodes\<close>

definition search_node_id ::
  "string \<Rightarrow> string \<Rightarrow> int \<Rightarrow> string option \<Rightarrow> string option \<Rightarrow> py_error + string"
where
  "search_node_id experiment state depth parent act =
    sbind (need_string (PStr experiment) ''experiment_id'') (\<lambda>_.
    sbind (need_string (PStr state) ''state_id'') (\<lambda>_.
    if depth < 0 then value_error ''depth must be a non-negative integer''
    else if depth = 0 \<and> (parent \<noteq> None \<or> act \<noteq> None)
    then value_error ''root node must not have parent_node_id or action_id''
    else if depth \<noteq> 0 \<and> (parent = None \<or> act = None)
    then value_error ''non-root node requires parent_node_id and action_id''
    else
    sbind (if depth = 0 then Inr [] else need_string (opt_str parent) ''parent_node_id'') (\<lambda>_.
    sbind (if depth = 0 then Inr [] else need_string (opt_str act) ''action_id'') (\<lambda>_.
    stable_digest (PDict
      [(''action_id'', opt_str act), (''depth'', PInt depth), (''experiment_id'', PStr experiment),
       (''parent_node_id'', opt_str parent), (''state_id'', PStr state)]) ''searchnode_''))))"

section \<open>Evidence and coverage\<close>

definition candidate_statuses :: "string list" where
  "candidate_statuses = [''censored'', ''explored'', ''failed'', ''pruned'', ''unexplored'']"

definition count_status :: "string \<Rightarrow> pydict list \<Rightarrow> int" where
  "count_status status cands = int (length (filter (\<lambda>c. dict_get c ''status'' = PStr status) cands))"

definition candidate_counts :: "pydict list \<Rightarrow> pydict" where
  "candidate_counts cands =
    [(''censored'', PInt (count_status ''censored'' cands)),
     (''explored'', PInt (count_status ''explored'' cands)),
     (''failed'', PInt (count_status ''failed'' cands)),
     (''pruned'', PInt (count_status ''pruned'' cands)),
     (''total'', PInt (int (length cands))),
     (''unexplored'', PInt (count_status ''unexplored'' cands))]"

definition candidate_order :: "pydict \<Rightarrow> int \<times> string \<times> string \<times> string" where
  "candidate_order c =
    (int_val (dict_get c ''depth''), str_val (dict_get c ''parent_prefix_id''),
     str_val (dict_get c ''action_id''), str_val (dict_get c ''prefix_id''))"

definition build_search_evidence :: "pydict list \<Rightarrow> py_error + pydict" where
  "build_search_evidence cands =
    (let ordered = sort_key candidate_order (map canonical_entries cands);
         identity = canonical_entries
           [(''candidate_counts'', PDict (candidate_counts ordered)),
            (''candidates'', PList (map PDict ordered)),
            (''schema_version'', PStr SEARCH_CANDIDATE_EVIDENCE_SCHEMA_VERSION)]
     in sbind (stable_digest (PDict identity) ''searchev_'') (\<lambda>i.
        Inr (identity @ [(''evidence_id'', PStr i)])))"

definition frontier_exhausted :: "termination_reason \<Rightarrow> string \<Rightarrow> pydict list \<Rightarrow> bool" where
  "frontier_exhausted reason mode cands \<longleftrightarrow>
    reason = EXHAUSTED \<and> mode \<in> set COVERAGE_CAPABLE_MODES \<and> count_status ''unexplored'' cands = 0 \<and>
    count_status ''censored'' cands = 0 \<and> count_status ''pruned'' cands = 0"

fun mappings_of :: "pyval list \<Rightarrow> pydict list" where
  "mappings_of [] = []"
| "mappings_of (PDict d # vs) = d # mappings_of vs"
| "mappings_of (v # vs) = mappings_of vs"

definition coverage_certificate :: "termination_reason \<Rightarrow> string \<Rightarrow> pydict \<Rightarrow> py_error + pydict" where
  "coverage_certificate reason mode evidence =
    (let cands = mappings_of (items (dict_get evidence ''candidates''));
         exhausted = frontier_exhausted reason mode cands;
         identity = canonical_entries
           [(''candidate_accounting_complete'', PBool True),
            (''candidate_counts'', PDict (candidate_counts cands)),
            (''coverage_status'', PStr (if exhausted then ''frontier_exhausted'' else ''best_observed'')),
            (''frontier_exhausted'', PBool exhausted),
            (''pending_frontier_count'', PInt (count_status ''unexplored'' cands)),
            (''schema_version'', PStr SEARCH_COVERAGE_SCHEMA_VERSION),
            (''termination_reason'', PStr (reason_value reason)),
            (''unknown_candidate_count'', PInt 0)]
     in sbind (stable_digest (PDict identity) ''searchcoverage_'') (\<lambda>i.
        Inr (identity @ [(''coverage_id'', PStr i)])))"

end
