(* ===== verification/Search_Runtime.thy ===== *)
theory Search_Runtime
  imports Search_Frontier Failures
begin

text \<open>
  \<open>engine/search/executor.py\<close>, second part: the state of a run (\<open>_SearchRuntime\<close>) and the steps that
  replay a prefix and record what it shows. The adapter that replays prefixes, the clock and the
  evaluation of terminal preferences are fields of the setup. A step that raises ends the run, so
  that its state is not returned; an adapter that raises is a value the executor handles.
\<close>

record failed_replay =
  x_type :: string
  x_message :: string
  x_failure :: "failure_record option"

datatype search_error = Replay_Raised failed_replay | Search_Raised py_error

definition raising :: "py_error + 'a \<Rightarrow> search_error + 'a" where
  "raising m = (case m of Inl err \<Rightarrow> Inl (Search_Raised err) | Inr x \<Rightarrow> Inr x)"

text \<open>
  \<open>replays prefix\<close> is the adapter on the experiment; \<open>preference document base\<close> is the terminal score
  and the evaluation, if the experiment has preferences; \<open>pool\<close> is the pool size of a parallel policy.
\<close>

record search_setup =
  experiment_name :: string
  strategy :: search_strategy
  budget :: search_budget
  replays :: "action list \<Rightarrow> failed_replay + frontier"
  search_clock :: "nat \<Rightarrow> rat"
  preference :: "pydict \<Rightarrow> score \<Rightarrow> py_error + (score \<times> pydict) option"
  pool :: "nat option"

type_synonym action_path = "string list"

record search_runtime =
  r_started :: rat
  r_ticks :: nat
  r_cache :: "(action_path \<times> frontier) list"
  r_prefetched :: "(action_path \<times> (failed_replay + frontier)) list"
  r_node_ids :: "(action_path \<times> string) list"
  r_seen :: "string list"
  r_candidates :: "(action_path \<times> pydict) list"
  r_routes :: "route_summary list"
  r_route_prefixes :: "action_path list"
  r_path_failures :: "pydict list"
  r_updates :: "pyval list"
  r_nodes :: int
  r_replays :: int
  r_cache_hits :: int
  r_duplicates :: int
  r_max_depth :: int
  r_termination :: termination_reason

record observed_node =
  ob_prefix :: "action list"
  ob_prefix_id :: string
  ob_node_id :: string
  ob_frontier :: frontier
  ob_duplicate :: bool

definition new_runtime :: "search_setup \<Rightarrow> search_runtime" where
  "new_runtime S =
    \<lparr>r_started = search_clock S 0, r_ticks = 1, r_cache = [], r_prefetched = [], r_node_ids = [], r_seen = [],
     r_candidates = [], r_routes = [], r_route_prefixes = [], r_path_failures = [], r_updates = [],
     r_nodes = 0, r_replays = 0, r_cache_hits = 0, r_duplicates = 0, r_max_depth = 0,
     r_termination = EXHAUSTED\<rparr>"

definition path_key :: "action list \<Rightarrow> action_path" where
  "path_key prefix = map action_id prefix"

definition search_prefix_id :: "search_setup \<Rightarrow> action_path \<Rightarrow> py_error + string" where
  "search_prefix_id S key =
    stable_digest (PDict [(''action_ids'', PList (map PStr key)), (''experiment_id'', PStr (experiment_name S))])
      ''searchprefix_''"

section \<open>The budget\<close>

definition reached :: "int option \<Rightarrow> int \<Rightarrow> bool" where
  "reached limit n = (case limit of None \<Rightarrow> False | Some k \<Rightarrow> k \<le> n)"

text \<open>
  Every call reads the clock once, and no other step of a run does: \<open>search_clock S k\<close> is what the \<open>k\<close>-th
  reading shows. The time that replays take between two readings is part of these values, so that any
  course of time in one run is such a function; two runs whose replays take different times have
  different functions.
\<close>

definition hard_budget_reason :: "search_setup \<Rightarrow> search_runtime \<Rightarrow> search_runtime \<times> termination_reason option" where
  "hard_budget_reason S r =
    (let seconds = search_clock S (r_ticks r) - r_started r; limit = max_seconds (budget S) in
     (r\<lparr>r_ticks := Suc (r_ticks r)\<rparr>,
      if limit \<noteq> ANone \<and> num_value limit \<le> seconds then Some MAX_SECONDS
      else if reached (max_nodes (budget S)) (r_nodes r) then Some MAX_NODES
      else if reached (max_replays (budget S)) (r_replays r) then Some MAX_REPLAYS
      else None))"

definition remaining_slots :: "search_setup \<Rightarrow> search_runtime \<Rightarrow> int option" where
  "remaining_slots S r =
    (case (max_nodes (budget S), max_replays (budget S)) of
       (None, None) \<Rightarrow> None
     | (Some n, None) \<Rightarrow> Some (max 0 (n - r_nodes r))
     | (None, Some k) \<Rightarrow> Some (max 0 (k - r_replays r))
     | (Some n, Some k) \<Rightarrow> Some (max 0 (min (n - r_nodes r) (k - r_replays r))))"

section \<open>Candidates\<close>

definition new_candidate :: "search_setup \<Rightarrow> action_path \<Rightarrow> py_error + pydict" where
  "new_candidate S key =
    sbind (search_prefix_id S (butlast key)) (\<lambda>parent.
    sbind (search_prefix_id S key) (\<lambda>own. Inr
      [(''action_id'', PStr (last key)),
       (''action_ids'', PList (map PStr key)),
       (''depth'', PInt (int (length key))),
       (''parent_prefix_id'', PStr parent),
       (''prefix_id'', PStr own),
       (''status'', PStr ''unexplored'')]))"

definition ensure_candidate :: "search_setup \<Rightarrow> action list \<Rightarrow> search_runtime \<Rightarrow> py_error + search_runtime" where
  "ensure_candidate S prefix r =
    (let key = path_key prefix in
     if prefix = [] \<or> map_of (r_candidates r) key \<noteq> None then Inr r
     else sbind (new_candidate S key) (\<lambda>c. Inr (r\<lparr>r_candidates := AList.update key c (r_candidates r)\<rparr>)))"

fun ensure_candidates :: "search_setup \<Rightarrow> action list list \<Rightarrow> search_runtime \<Rightarrow> py_error + search_runtime" where
  "ensure_candidates S [] r = Inr r"
| "ensure_candidates S (p # ps) r = sbind (ensure_candidate S p r) (ensure_candidates S ps)"

text \<open>Details that are \<open>None\<close> are left out; the status is written last.\<close>

definition mark_record :: "string \<Rightarrow> pydict \<Rightarrow> pydict \<Rightarrow> pydict" where
  "mark_record status details c =
    dict_set ''status'' (PStr status)
      (dict_update c (map (map_prod id to_canonical_data) (filter (\<lambda>(k, v). v \<noteq> PNone) details)))"

definition mark_key :: "action_path \<Rightarrow> string \<Rightarrow> pydict \<Rightarrow> search_runtime \<Rightarrow> search_runtime" where
  "mark_key key status details r =
    (case map_of (r_candidates r) key of
       None \<Rightarrow> r
     | Some c \<Rightarrow> r\<lparr>r_candidates := AList.update key (mark_record status details c) (r_candidates r)\<rparr>)"

definition mark_candidate ::
  "search_setup \<Rightarrow> action list \<Rightarrow> string \<Rightarrow> pydict \<Rightarrow> search_runtime \<Rightarrow> py_error + search_runtime"
where
  "mark_candidate S prefix status details r =
    (if prefix = [] then Inr r
     else sbind (ensure_candidate S prefix r) (\<lambda>r. Inr (mark_key (path_key prefix) status details r)))"

definition censored :: "termination_reason \<Rightarrow> pydict \<Rightarrow> pydict" where
  "censored reason c =
    (if reason \<in> set CENSORING_TERMINATIONS \<and> dict_get c ''status'' = PStr ''unexplored''
     then dict_set ''censor_reason'' (PStr (reason_value reason)) (dict_set ''status'' (PStr ''censored'') c)
     else c)"

definition search_evidence :: "search_runtime \<Rightarrow> py_error + pydict" where
  "search_evidence r = build_search_evidence (map (censored (r_termination r) \<circ> snd) (r_candidates r))"

section \<open>Routes and failures\<close>

definition route_id_of :: "search_setup \<Rightarrow> action_path \<Rightarrow> pydict \<Rightarrow> string \<Rightarrow> py_error + string" where
  "route_id_of S key document state =
    (let named = py_str (get_or document ''route_id'' (PStr [])) in
     if named \<noteq> [] then Inr named
     else stable_digest (PDict
       [(''experiment_id'', PStr (experiment_name S)), (''prefix'', PList (map PStr key)),
        (''state_id'', PStr state)]) ''route_'')"

definition boundary_of :: "frontier \<Rightarrow> pydict option" where
  "boundary_of f =
    (case (if fr_observation f \<noteq> None then fr_observation f else fr_request f) of
       None \<Rightarrow> None
     | Some d \<Rightarrow> (case dict_get d ''turn_lifecycle'' of PDict b \<Rightarrow> Some b | _ \<Rightarrow> None))"

definition add_route ::
  "search_setup \<Rightarrow> action_path \<Rightarrow> frontier \<Rightarrow> pydict \<Rightarrow> string \<Rightarrow> search_runtime \<Rightarrow> py_error + search_runtime"
where
  "add_route S key f document route_id r =
    (if key \<in> set (r_route_prefixes r) then Inr r
     else
     sbind (preference S document (fr_score f)) (\<lambda>evaluated.
     sbind (make_route route_id (fr_success f) (fr_peak f)
       (case evaluated of None \<Rightarrow> fr_score f | Some (composite, p) \<Rightarrow> composite)
       key document (map_option snd evaluated) (boundary_of f)) (\<lambda>route.
     Inr (r\<lparr>r_route_prefixes := r_route_prefixes r @ [key], r_routes := r_routes r @ [route]\<rparr>))))"

definition goal_met :: "search_budget \<Rightarrow> frontier \<Rightarrow> bool" where
  "goal_met b f \<longleftrightarrow> (fr_success f \<and> stop_on_success b) \<or>
     (target_score b \<noteq> ANone \<and> num_value (target_score b) \<le> amount (fr_score f))"

definition record_route ::
  "search_setup \<Rightarrow> action list \<Rightarrow> frontier \<Rightarrow> search_runtime \<Rightarrow> py_error + search_runtime"
where
  "record_route S prefix f r =
    (case fr_document f of
       Some document \<Rightarrow>
         if \<not> fr_legal_stop f \<or> prefix = [] then Inr r
         else
         sbind (route_id_of S (path_key prefix) document (fr_state_id f)) (\<lambda>route_id.
         sbind (add_route S (path_key prefix) f document route_id r) (\<lambda>r.
         Inr (if goal_met (budget S) f then r\<lparr>r_termination := GOAL_REACHED\<rparr> else r)))
     | None \<Rightarrow> if \<not> fr_legal_stop f \<or> prefix = [] then Inr r else Inl (AssertionError []))"

definition path_failure :: "action list \<Rightarrow> failed_replay \<Rightarrow> pydict" where
  "path_failure prefix x =
    [(''action_ids'', PList (map PStr (path_key prefix))),
     (''depth'', PInt (int (length prefix))),
     (''exception_type'', PStr (x_type x)),
     (''message'', PStr (x_message x)),
     (''status'', PStr ''path_failure'')] @
    (case x_failure x of None \<Rightarrow> [] | Some f \<Rightarrow> [(''failure'', PDict (failure_to_dict f))])"

definition record_failure ::
  "search_setup \<Rightarrow> action list \<Rightarrow> failed_replay \<Rightarrow> search_runtime \<Rightarrow> py_error + search_runtime"
where
  "record_failure S prefix x r =
    mark_candidate S prefix ''failed''
      [(''exception_type'', PStr (x_type x)), (''failure_category'', opt_str (map_option f_category (x_failure x)))]
      (r\<lparr>r_nodes := r_nodes r + 1, r_replays := r_replays r + 1,
         r_path_failures := r_path_failures r @ [path_failure prefix x]\<rparr>)"

section \<open>Replaying\<close>

definition count_frontier :: "action_path \<Rightarrow> frontier \<Rightarrow> bool \<Rightarrow> search_runtime \<Rightarrow> search_runtime" where
  "count_frontier key f cache_hit r =
    (let r = (if cache_hit then r\<lparr>r_cache_hits := r_cache_hits r + 1\<rparr>
              else r\<lparr>r_cache := AList.update key f (r_cache r), r_replays := r_replays r + fr_replays f\<rparr>)
     in r\<lparr>r_nodes := r_nodes r + 1\<rparr>)"

definition is_duplicate :: "frontier \<Rightarrow> search_runtime \<Rightarrow> bool" where
  "is_duplicate f r \<longleftrightarrow> fr_completeness f = ''exact'' \<and> fr_state_id f \<in> set (r_seen r)"

definition note_state :: "frontier \<Rightarrow> search_runtime \<Rightarrow> search_runtime" where
  "note_state f r =
    (if fr_completeness f \<noteq> ''exact'' then r
     else if fr_state_id f \<in> set (r_seen r) then r\<lparr>r_duplicates := r_duplicates r + 1\<rparr>
     else r\<lparr>r_seen := r_seen r @ [fr_state_id f]\<rparr>)"

definition explored_details :: "frontier \<Rightarrow> bool \<Rightarrow> string \<Rightarrow> pydict" where
  "explored_details f duplicate node =
    [(''duplicate'', PBool duplicate),
     (''legal_stop'', PBool (fr_legal_stop f)),
     (''node_id'', PStr node),
     (''route_id'', (case fr_document f of Some d \<Rightarrow> if fr_legal_stop f then dict_get d ''route_id'' else PNone
        | None \<Rightarrow> PNone)),
     (''state_completeness'', PStr (fr_completeness f)),
     (''state_id'', PStr (fr_state_id f)),
     (''success'', PBool (fr_success f))]"

definition commit_frontier ::
  "search_setup \<Rightarrow> action list \<Rightarrow> frontier \<Rightarrow> bool \<Rightarrow> search_runtime \<Rightarrow> py_error + (search_runtime \<times> observed_node)"
where
  "commit_frontier S prefix f cache_hit r =
    (let key = path_key prefix in
     sbind (record_route S prefix f (count_frontier key f cache_hit r)) (\<lambda>r.
     let duplicate = is_duplicate f r; r = note_state f r in
     sbind (search_node_id (experiment_name S) (fr_state_id f) (int (length prefix))
       (if prefix = [] then None else map_of (r_node_ids r) (butlast key))
       (if prefix = [] then None else Some (action_id (last prefix)))) (\<lambda>node.
     sbind (mark_candidate S prefix ''explored'' (explored_details f duplicate node)
       (r\<lparr>r_node_ids := AList.update key node (r_node_ids r)\<rparr>)) (\<lambda>r.
     sbind (search_prefix_id S key) (\<lambda>i.
     Inr (r, \<lparr>ob_prefix = prefix, ob_prefix_id = i, ob_node_id = node, ob_frontier = f,
              ob_duplicate = duplicate\<rparr>))))))"

definition commit_replay ::
  "search_setup \<Rightarrow> action list \<Rightarrow> failed_replay + frontier \<Rightarrow> bool \<Rightarrow> search_runtime \<Rightarrow>
    search_error + (search_runtime \<times> observed_node option)"
where
  "commit_replay S prefix outcome cache_hit r =
    (case outcome of
       Inl x \<Rightarrow>
         if prefix = [] then Inl (Replay_Raised x)
         else sbind (raising (record_failure S prefix x r)) (\<lambda>r. Inr (r, None))
     | Inr f \<Rightarrow> sbind (raising (commit_frontier S prefix f cache_hit r)) (\<lambda>(r, ob). Inr (r, Some ob)))"

definition replay_prefix ::
  "search_setup \<Rightarrow> action list \<Rightarrow> search_runtime \<Rightarrow> search_error + (search_runtime \<times> observed_node option)"
where
  "replay_prefix S prefix r =
    (let r = r\<lparr>r_max_depth := max (r_max_depth r) (int (length prefix))\<rparr>; key = path_key prefix in
     case map_of (r_cache r) key of
       Some f \<Rightarrow> commit_replay S prefix (Inr f) True r
     | None \<Rightarrow>
         (case map_of (r_prefetched r) key of
            Some outcome \<Rightarrow>
              commit_replay S prefix outcome False (r\<lparr>r_prefetched := AList.delete key (r_prefetched r)\<rparr>)
          | None \<Rightarrow> commit_replay S prefix (replays S prefix) False r))"

text \<open>
  The thread pool of \<open>_prefetch_prefixes_parallel\<close> returns one outcome for each dispatched prefix, and
  the outcomes are stored in the order of dispatch.
\<close>

definition prefetch_window :: "search_setup \<Rightarrow> search_runtime \<Rightarrow> nat \<Rightarrow> nat" where
  "prefetch_window S r n =
    (case pool S of
       None \<Rightarrow> 0
     | Some p \<Rightarrow>
         if p \<le> 1 \<or> n \<le> 1 then 0
         else (case remaining_slots S r of None \<Rightarrow> p | Some k \<Rightarrow> min p (nat k)))"

definition dispatched :: "search_runtime \<Rightarrow> action list list \<Rightarrow> action list list" where
  "dispatched r ps =
    filter (\<lambda>p. map_of (r_cache r) (path_key p) = None \<and> map_of (r_prefetched r) (path_key p) = None) ps"

definition store_outcomes :: "search_setup \<Rightarrow> action list list \<Rightarrow> search_runtime \<Rightarrow> search_runtime" where
  "store_outcomes S ps r =
    r\<lparr>r_prefetched := foldl (\<lambda>m p. AList.update (path_key p) (replays S p) m) (r_prefetched r) ps\<rparr>"

definition prefetch :: "search_setup \<Rightarrow> action list list \<Rightarrow> search_runtime \<Rightarrow> py_error + search_runtime" where
  "prefetch S ps r =
    (let window = prefetch_window S r (length ps); ds = dispatched r (take window ps) in
     if window \<le> 1 then Inr r
     else sbind (ensure_candidates S ds r) (\<lambda>r.
       Inr (if length ds \<le> 1 then r else store_outcomes S ds r)))"

end
