(* ===== verification/Search_Executor.thy ===== *)
theory Search_Executor
  imports Search_Runtime
begin

text \<open>
  \<open>engine/search/executor.py\<close>, third part: the depth-first and the beam loop of \<open>SearchExecutor\<close> and
  what a run returns. A search over an unbounded tree without a limit does not end, so the loops take
  fuel and return \<open>None\<close> when it runs out.
\<close>

section \<open>Depth first\<close>

datatype loop_step = Finished search_runtime | Pending "action list list" search_runtime

definition expansion_update :: "observed_node \<Rightarrow> action list \<Rightarrow> pyval" where
  "expansion_update ob sorted_actions = PDict
    [(''action_ids'', PList (map PStr (path_key (ob_prefix ob)))),
     (''node_id'', PStr (ob_node_id ob)),
     (''ordered_action_ids'', PList (map (PStr \<circ> action_id) sorted_actions)),
     (''prefix_id'', PStr (ob_prefix_id ob)),
     (''update_type'', PStr ''depth_first_expansion'')]"

text \<open>The stack of the loop, its top first.\<close>

definition expand_node ::
  "search_setup \<Rightarrow> observed_node \<Rightarrow> action list list \<Rightarrow> search_runtime \<Rightarrow> py_error + loop_step"
where
  "expand_node S ob rest r =
    sbind (order_actions (strategy S) (ob_node_id ob) (fr_actions (ob_frontier ob))) (\<lambda>sorted_actions.
    let children = map (\<lambda>a. ob_prefix ob @ [a]) sorted_actions in
    sbind (prefetch S children (r\<lparr>r_updates := r_updates r @ [expansion_update ob sorted_actions]\<rparr>)) (\<lambda>r.
    sbind (ensure_candidates S (rev children) r) (\<lambda>r.
    Inr (Pending (children @ rest) r))))"

definition visit_prefix ::
  "search_setup \<Rightarrow> action list \<Rightarrow> action list list \<Rightarrow> search_runtime \<Rightarrow> search_error + loop_step"
where
  "visit_prefix S prefix rest r =
    sbind (replay_prefix S prefix r) (\<lambda>(r, node).
    case node of
      None \<Rightarrow> Inr (Pending rest r)
    | Some ob \<Rightarrow>
        if r_termination r = GOAL_REACHED then Inr (Finished r)
        else if ob_duplicate ob then Inr (Pending rest r)
        else if reached (max_depth (budget S)) (int (length prefix))
        then Inr (Pending rest (r\<lparr>r_termination := MAX_DEPTH\<rparr>))
        else raising (expand_node S ob rest r))"

fun depth_first :: "nat \<Rightarrow> search_setup \<Rightarrow> action list list \<Rightarrow> search_runtime \<Rightarrow> (search_error + search_runtime) option"
where
  "depth_first n S [] r = Some (Inr r)"
| "depth_first 0 S (p # ps) r = None"
| "depth_first (Suc n) S (p # ps) r =
     (case hard_budget_reason S r of
        (r, Some reason) \<Rightarrow> Some (Inr (r\<lparr>r_termination := reason\<rparr>))
      | (r, None) \<Rightarrow>
          (case visit_prefix S p ps r of
             Inl err \<Rightarrow> Some (Inl err)
           | Inr (Finished r) \<Rightarrow> Some (Inr r)
           | Inr (Pending qs r) \<Rightarrow> depth_first n S qs r))"

section \<open>Beam\<close>

definition beam_sort_key :: "observed_node \<Rightarrow> rank_key" where
  "beam_sort_key ob =
    (- of_bool (fr_success (ob_frontier ob)), - amount (fr_peak (ob_frontier ob)),
     - amount (fr_score (ob_frontier ob)), int (length (ob_prefix ob)), ob_prefix_id ob)"

text \<open>What a parent adds to the plan of a layer: the prefixes, the slots left, and why planning stopped.\<close>

fun plan_actions ::
  "search_setup \<Rightarrow> action list \<Rightarrow> action list \<Rightarrow> int option \<Rightarrow> action list list \<Rightarrow> search_runtime \<Rightarrow>
    py_error + (action list list \<times> int option \<times> termination_reason option \<times> search_runtime)"
where
  "plan_actions S prefix [] slots planned r = Inr (planned, slots, None, r)"
| "plan_actions S prefix (a # as) slots planned r =
     (case hard_budget_reason S r of
        (r, Some reason) \<Rightarrow> Inr (planned, slots, Some reason, r)
      | (r, None) \<Rightarrow>
          if (case slots of None \<Rightarrow> False | Some k \<Rightarrow> k \<le> 0)
          then Inr (planned, slots,
            Some (if reached (max_nodes (budget S)) (r_nodes r + int (length planned)) then MAX_NODES else MAX_REPLAYS), r)
          else sbind (ensure_candidate S (prefix @ [a]) r) (\<lambda>r.
            plan_actions S prefix as (map_option (\<lambda>k. k - 1) slots) (planned @ [prefix @ [a]]) r))"

fun plan_layer ::
  "search_setup \<Rightarrow> observed_node list \<Rightarrow> int option \<Rightarrow> action list list \<Rightarrow> bool \<Rightarrow> search_runtime \<Rightarrow>
    py_error + (action list list \<times> bool \<times> termination_reason option \<times> search_runtime)"
where
  "plan_layer S [] slots planned limited r = Inr (planned, limited, None, r)"
| "plan_layer S (ob # obs) slots planned limited r =
     (if reached (max_depth (budget S)) (int (length (ob_prefix ob)))
      then plan_layer S obs slots planned True r
      else
      sbind (order_actions (strategy S) (ob_node_id ob) (fr_actions (ob_frontier ob))) (\<lambda>sorted_actions.
      sbind (plan_actions S (ob_prefix ob) sorted_actions slots planned r) (\<lambda>(planned, slots, halt, r).
      case halt of
        Some reason \<Rightarrow> Inr (planned, limited, Some reason, r)
      | None \<Rightarrow> plan_layer S obs slots planned limited r)))"

fun replay_each ::
  "search_setup \<Rightarrow> action list list \<Rightarrow> search_runtime \<Rightarrow> search_error + (search_runtime \<times> observed_node option list)"
where
  "replay_each S [] r = Inr (r, [])"
| "replay_each S (p # ps) r =
     sbind (replay_prefix S p r) (\<lambda>(r, ob). sbind (replay_each S ps r) (\<lambda>(r, obs). Inr (r, ob # obs)))"

text \<open>The pool: outcomes by key first, then committed in the order of the prefixes.\<close>

fun note_depths :: "action list list \<Rightarrow> search_runtime \<Rightarrow> search_runtime" where
  "note_depths [] r = r"
| "note_depths (p # ps) r = note_depths ps (r\<lparr>r_max_depth := max (r_max_depth r) (int (length p))\<rparr>)"

definition pool_outcomes ::
  "search_setup \<Rightarrow> (action_path \<times> frontier) list \<Rightarrow> action list list \<Rightarrow> (action_path \<times> (failed_replay + frontier)) list"
where
  "pool_outcomes S cached ps = foldl (\<lambda>m p. AList.update (path_key p)
     (case map_of cached (path_key p) of Some f \<Rightarrow> Inr f | None \<Rightarrow> replays S p) m) [] ps"

fun commit_each ::
  "search_setup \<Rightarrow> (action_path \<times> (failed_replay + frontier)) list \<Rightarrow> action list list \<Rightarrow> search_runtime \<Rightarrow>
    py_error + (search_runtime \<times> observed_node option list)"
where
  "commit_each S outcomes [] r = Inr (r, [])"
| "commit_each S outcomes (p # ps) r =
     sbind (case the (map_of outcomes (path_key p)) of
         Inl x \<Rightarrow> sbind (record_failure S p x r) (\<lambda>r. Inr (r, None))
       | Inr f \<Rightarrow> sbind (commit_frontier S p f (map_of (r_cache r) (path_key p) \<noteq> None) r) (\<lambda>(r, ob). Inr (r, Some ob)))
       (\<lambda>(r, ob). sbind (commit_each S outcomes ps r) (\<lambda>(r, obs). Inr (r, ob # obs)))"

definition replay_prefixes ::
  "search_setup \<Rightarrow> action list list \<Rightarrow> search_runtime \<Rightarrow> search_error + (search_runtime \<times> observed_node option list)"
where
  "replay_prefixes S ps r =
    (if (case pool S of None \<Rightarrow> True | Some k \<Rightarrow> k \<le> 1) \<or> length ps \<le> 1 then replay_each S ps r
     else raising (sbind (ensure_candidates S ps (note_depths ps r)) (\<lambda>r.
       commit_each S (pool_outcomes S (r_cache r) ps) ps r)))"

definition failure_child :: "action_path \<Rightarrow> string \<Rightarrow> pydict" where
  "failure_child key i =
    [(''action_ids'', PList (map PStr key)), (''prefix_id'', PStr i), (''selected'', PBool False),
     (''status'', PStr ''path_failure'')]"

definition observed_child :: "observed_node \<Rightarrow> bool \<Rightarrow> pydict" where
  "observed_child ob expandable =
    [(''action_ids'', PList (map PStr (path_key (ob_prefix ob)))),
     (''duplicate'', PBool (ob_duplicate ob)),
     (''expandable'', PBool expandable),
     (''peak_score'', shown (fr_peak (ob_frontier ob))),
     (''prefix_id'', PStr (ob_prefix_id ob)),
     (''score'', shown (fr_score (ob_frontier ob))),
     (''selected'', PBool False),
     (''state_completeness'', PStr (fr_completeness (ob_frontier ob))),
     (''state_id'', PStr (fr_state_id (ob_frontier ob))),
     (''status'', PStr ''observed''),
     (''success'', PBool (fr_success (ob_frontier ob)))]"

record beam_children =
  bc_nodes :: "observed_node list"
  bc_records :: "pydict list"
  bc_limited :: bool
  bc_goal :: bool

fun collect_children ::
  "search_setup \<Rightarrow> bool \<Rightarrow> (action list \<times> observed_node option) list \<Rightarrow> beam_children \<Rightarrow> py_error + beam_children"
where
  "collect_children S goal [] c = Inr c"
| "collect_children S goal ((p, None) # rest) c =
     sbind (search_prefix_id S (path_key p)) (\<lambda>i.
     collect_children S goal rest (c\<lparr>bc_records := bc_records c @ [failure_child (path_key p) i]\<rparr>))"
| "collect_children S goal ((p, Some ob) # rest) c =
     (let limit = reached (max_depth (budget S)) (int (length p));
          expandable = (fr_actions (ob_frontier ob) \<noteq> [] \<and> \<not> (ob_duplicate ob \<or> limit));
          c = c\<lparr>bc_nodes := (if expandable then bc_nodes c @ [ob] else bc_nodes c),
                bc_records := bc_records c @ [observed_child ob expandable],
                bc_limited := (bc_limited c \<or> limit)\<rparr>
      in if goal then Inr (c\<lparr>bc_goal := True\<rparr>) else collect_children S goal rest c)"

definition to_prune :: "string list \<Rightarrow> pydict \<Rightarrow> bool" where
  "to_prune chosen d \<longleftrightarrow> dict_get d ''status'' = PStr ''observed'' \<and>
     dict_get d ''expandable'' = PBool True \<and> str_val (dict_get d ''prefix_id'') \<notin> set chosen"

definition record_key :: "pydict \<Rightarrow> action_path" where
  "record_key d = map py_str (items (dict_get d ''action_ids''))"

definition prune_children :: "string list \<Rightarrow> pydict list \<Rightarrow> search_runtime \<Rightarrow> search_runtime" where
  "prune_children chosen records r =
    foldl (\<lambda>r d. if to_prune chosen d then mark_key (record_key d) ''pruned'' [] r else r) r records"

definition layer_update ::
  "bool \<Rightarrow> nat \<Rightarrow> pydict list \<Rightarrow> observed_node list \<Rightarrow> observed_node list \<Rightarrow> termination_reason \<Rightarrow> pyval"
where
  "layer_update finished depth records parents selected reason = PDict
    [(''complete'', PBool finished),
     (''depth'', PInt (int depth)),
     (''observed_children'', PList (map PDict records)),
     (''parent_prefix_ids'', PList (map (PStr \<circ> ob_prefix_id) parents)),
     (''selected_prefix_ids'', PList (map (PStr \<circ> ob_prefix_id) selected)),
     (''termination_reason'', if finished then PNone else PStr (reason_value reason)),
     (''update_type'', PStr ''beam_layer'')]"

definition halt_run :: "termination_reason option \<Rightarrow> search_runtime \<Rightarrow> search_runtime" where
  "halt_run halt r =
    (if r_termination r = GOAL_REACHED then r
     else case halt of None \<Rightarrow> r | Some reason \<Rightarrow> r\<lparr>r_termination := reason\<rparr>)"

text \<open>The end of a layer: the parents of the next one, none when the search is over.\<close>

definition close_layer ::
  "nat \<Rightarrow> observed_node list \<Rightarrow> termination_reason option \<Rightarrow> beam_children \<Rightarrow> search_runtime \<Rightarrow>
    observed_node list \<times> search_runtime"
where
  "close_layer width current halt c r =
    (let finished = (halt = None \<and> \<not> bc_goal c);
         r = halt_run halt r;
         selected = (if finished then take width (sort_key beam_sort_key (bc_nodes c)) else []);
         chosen = map ob_prefix_id selected;
         records = map (\<lambda>d. dict_set ''selected'' (PBool (str_val (dict_get d ''prefix_id'') \<in> set chosen)) d)
           (bc_records c);
         r = prune_children chosen records r;
         r = r\<lparr>r_updates := r_updates r @
           [layer_update finished (Suc (length (ob_prefix (hd current)))) records current selected (r_termination r)]\<rparr>
     in (selected, if finished \<and> selected = [] \<and> bc_limited c then r\<lparr>r_termination := MAX_DEPTH\<rparr> else r))"

definition beam_layer ::
  "search_setup \<Rightarrow> nat \<Rightarrow> observed_node list \<Rightarrow> search_runtime \<Rightarrow> search_error + (observed_node list \<times> search_runtime)"
where
  "beam_layer S width current r =
    sbind (raising (plan_layer S current (remaining_slots S r) [] False r)) (\<lambda>(children, limited, halt, r).
    sbind (replay_prefixes S children r) (\<lambda>(r, obs).
    sbind (raising (collect_children S (r_termination r = GOAL_REACHED) (zip children obs)
      \<lparr>bc_nodes = [], bc_records = [], bc_limited = limited, bc_goal = False\<rparr>)) (\<lambda>c.
    Inr (close_layer width current halt c r))))"

fun beam_layers ::
  "nat \<Rightarrow> search_setup \<Rightarrow> nat \<Rightarrow> observed_node list \<Rightarrow> search_runtime \<Rightarrow> (search_error + search_runtime) option"
where
  "beam_layers n S width [] r = Some (Inr r)"
| "beam_layers 0 S width (ob # obs) r = None"
| "beam_layers (Suc n) S width (ob # obs) r =
     (if r_termination r = GOAL_REACHED then Some (Inr r)
      else case beam_layer S width (ob # obs) r of
        Inl err \<Rightarrow> Some (Inl err)
      | Inr (chosen, r) \<Rightarrow> beam_layers n S width chosen r)"

definition run_beam :: "nat \<Rightarrow> search_setup \<Rightarrow> search_runtime \<Rightarrow> (search_error + search_runtime) option" where
  "run_beam n S r =
    (case dict_get (parameters (strategy S)) ''beam_width'' of
       PInt width \<Rightarrow>
         if width < 1
         then Some (Inl (Search_Raised (ValueError ''beam strategy requires an integer beam_width >= 1'')))
         else (case hard_budget_reason S r of
             (r, Some reason) \<Rightarrow> Some (Inr (r\<lparr>r_termination := reason\<rparr>))
           | (r, None) \<Rightarrow>
               (case replay_prefix S [] r of
                  Inl err \<Rightarrow> Some (Inl err)
                | Inr (r, None) \<Rightarrow> Some (Inr r)
                | Inr (r, Some start) \<Rightarrow>
                    beam_layers n S (nat width) (if ob_duplicate start then [] else [start]) r))
     | _ \<Rightarrow> Some (Inl (Search_Raised (ValueError ''beam strategy requires an integer beam_width >= 1''))))"

section \<open>Runs\<close>

text \<open>
  A mode the executor does not know is refused. The loop of the mode \<open>mcts\<close> (\<open>_run_mcts\<close>) is not modelled:
  the model has no result for it.
\<close>

definition run_search :: "nat \<Rightarrow> search_setup \<Rightarrow> (search_error + search_runtime) option" where
  "run_search n S =
    (if experiment_name S = []
     then Some (Inl (Search_Raised (ValueError ''experiment_id must be a non-empty string'')))
     else if execution_mode (strategy S) = ''depth_first'' then depth_first n S [[]] (new_runtime S)
     else if execution_mode (strategy S) = ''beam'' then run_beam n S (new_runtime S)
     else if execution_mode (strategy S) = ''mcts'' then None
     else Some (Inl (Search_Raised (NotImplementedError
       (''unsupported search execution mode '' @ repr_str (execution_mode (strategy S)))))))"

text \<open>What \<open>_result\<close> makes of the final state, as far as it is modelled.\<close>

record search_result =
  res_routes :: "route_summary list"
  res_best :: "route_summary option"
  res_evidence :: pydict
  res_coverage :: pydict
  res_strategy :: pydict

definition search_result_of :: "search_setup \<Rightarrow> search_runtime \<Rightarrow> py_error + search_result" where
  "search_result_of S r =
    (let routes = sort_key route_rank_key (r_routes r) in
     sbind (search_evidence r) (\<lambda>evidence.
     sbind (coverage_certificate (r_termination r) (execution_mode (strategy S)) evidence) (\<lambda>coverage.
     sbind (strategy_evidence (strategy S) (r_updates r)) (\<lambda>used.
     Inr \<lparr>res_routes = routes, res_best = (case routes of [] \<Rightarrow> None | b # rest \<Rightarrow> Some b),
          res_evidence = evidence, res_coverage = coverage, res_strategy = used\<rparr>))))"

end
