(* ===== verification/Executor_Frames.thy ===== *)
theory Executor_Frames
  imports Search_Executor
begin

text \<open>
  What each step of the executor leaves alone: the frames with which the properties of the loops are
  proved.
\<close>

lemma raising_Inr [monad_simps]: "raising m = Inr x \<longleftrightarrow> m = Inr x"
  by (cases m) (simp_all add: raising_def)

lemma raising_simps [simp]: "raising (Inr x) = Inr x" "raising (Inl err) = Inl (Search_Raised err)"
  by (simp_all add: raising_def)

section \<open>Candidates\<close>

lemma prefix_id_total: "\<exists>i. search_prefix_id S key = Inr i"
  unfolding search_prefix_id_def stable_digest_total by (simp add: list_all_iff)

lemma new_candidate_total: "\<exists>c. new_candidate S key = Inr c"
  using prefix_id_total [of S key] prefix_id_total [of S "butlast key"] by (auto simp: new_candidate_def)

text \<open>Candidates can always be created, so that these steps do not raise.\<close>

definition candidate_for :: "search_setup \<Rightarrow> action_path \<Rightarrow> pydict" where
  "candidate_for S key = (case new_candidate S key of Inl err \<Rightarrow> [] | Inr c \<Rightarrow> c)"

lemma new_candidate_eq: "new_candidate S key = Inr (candidate_for S key)"
  using new_candidate_total [of S key] by (auto simp: candidate_for_def)

definition with_candidate :: "search_setup \<Rightarrow> action list \<Rightarrow> (action_path \<times> pydict) list \<Rightarrow> (action_path \<times> pydict) list" where
  "with_candidate S p cs =
    (if p = [] \<or> map_of cs (path_key p) \<noteq> None then cs
     else AList.update (path_key p) (candidate_for S (path_key p)) cs)"

definition with_candidates :: "search_setup \<Rightarrow> action list list \<Rightarrow> (action_path \<times> pydict) list \<Rightarrow> (action_path \<times> pydict) list" where
  "with_candidates S ps cs = foldl (\<lambda>cs p. with_candidate S p cs) cs ps"

lemma ensure_candidate_eq: "ensure_candidate S p r = Inr (r\<lparr>r_candidates := with_candidate S p (r_candidates r)\<rparr>)"
  by (simp add: ensure_candidate_def with_candidate_def new_candidate_eq Let_def)

lemma ensure_candidates_eq:
  "ensure_candidates S ps r = Inr (r\<lparr>r_candidates := with_candidates S ps (r_candidates r)\<rparr>)"
  by (induction ps arbitrary: r) (simp_all add: ensure_candidate_eq with_candidates_def)

definition marked :: "search_setup \<Rightarrow> action list \<Rightarrow> string \<Rightarrow> pydict \<Rightarrow> (action_path \<times> pydict) list \<Rightarrow> (action_path \<times> pydict) list" where
  "marked S p status details cs =
    (if p = [] then cs
     else (let cs = with_candidate S p cs in
       AList.update (path_key p) (mark_record status details (the (map_of cs (path_key p)))) cs))"

lemma with_candidate_present: "p \<noteq> [] \<Longrightarrow> map_of (with_candidate S p cs) (path_key p) \<noteq> None"
  by (simp add: with_candidate_def update_conv')

lemma mark_candidate_eq:
  "mark_candidate S p status details r = Inr (r\<lparr>r_candidates := marked S p status details (r_candidates r)\<rparr>)"
proof (cases "p = []")
  case False
  then obtain c where "map_of (with_candidate S p (r_candidates r)) (path_key p) = Some c"
    using with_candidate_present by blast
  then show ?thesis
    using False by (simp add: mark_candidate_def marked_def ensure_candidate_eq mark_key_def Let_def)
qed (simp add: mark_candidate_def marked_def)

lemma prefetch_eq:
  "prefetch S ps r = Inr (case prefetch_window S r (length ps) of n \<Rightarrow>
     let ds = dispatched r (take n ps) in
     if n \<le> 1 then r
     else let r = r\<lparr>r_candidates := with_candidates S ds (r_candidates r)\<rparr>
       in if length ds \<le> 1 then r else store_outcomes S ds r)"
  by (simp add: prefetch_def Let_def ensure_candidates_eq)

lemma prefetch_frame:
  assumes "prefetch S ps r = Inr r'"
  shows "r_nodes r' = r_nodes r" "r_replays r' = r_replays r" "r_cache r' = r_cache r" "r_seen r' = r_seen r"
    "r_node_ids r' = r_node_ids r" "r_routes r' = r_routes r" "r_route_prefixes r' = r_route_prefixes r"
    "r_path_failures r' = r_path_failures r" "r_updates r' = r_updates r" "r_cache_hits r' = r_cache_hits r"
    "r_duplicates r' = r_duplicates r" "r_max_depth r' = r_max_depth r" "r_ticks r' = r_ticks r"
    "r_started r' = r_started r" "r_termination r' = r_termination r"
  using assms unfolding prefetch_eq Let_def store_outcomes_def by (auto split: if_split_asm)

section \<open>Routes\<close>

text \<open>Only the routes and the reason to stop may differ.\<close>

definition routes_only :: "search_runtime \<Rightarrow> search_runtime \<Rightarrow> bool" where
  "routes_only r r' \<longleftrightarrow> r_nodes r' = r_nodes r \<and> r_replays r' = r_replays r \<and> r_cache r' = r_cache r \<and>
    r_seen r' = r_seen r \<and> r_node_ids r' = r_node_ids r \<and> r_candidates r' = r_candidates r \<and>
    r_prefetched r' = r_prefetched r \<and> r_path_failures r' = r_path_failures r \<and> r_updates r' = r_updates r \<and>
    r_cache_hits r' = r_cache_hits r \<and> r_duplicates r' = r_duplicates r \<and> r_max_depth r' = r_max_depth r \<and>
    r_ticks r' = r_ticks r \<and> r_started r' = r_started r \<and>
    (r_termination r' = r_termination r \<or> r_termination r' = GOAL_REACHED)"

lemma routes_only_refl: "routes_only r r"
  by (simp add: routes_only_def)

lemma add_route_only: "add_route S key f d i r = Inr r' \<Longrightarrow> routes_only r r'"
  by (cases "key \<in> set (r_route_prefixes r)") (auto simp: add_route_def sbind_eq_Inr routes_only_def)

lemma record_route_only:
  assumes "record_route S p f r = Inr r'"
  shows "routes_only r r'"
proof (cases "fr_document f = None \<or> \<not> fr_legal_stop f \<or> p = []")
  case True
  then show ?thesis
    using assms by (cases "fr_document f") (auto simp: record_route_def routes_only_refl split: if_split_asm)
next
  case False
  then obtain d where d: "fr_document f = Some d" "fr_legal_stop f" "p \<noteq> []" by auto
  obtain i r1 where r1: "add_route S (path_key p) f d i r = Inr r1"
      "r' = (if goal_met (budget S) f then r1\<lparr>r_termination := GOAL_REACHED\<rparr> else r1)"
    using assms d by (auto simp: record_route_def sbind_eq_Inr)
  then show ?thesis using add_route_only [OF r1(1)] by (simp add: routes_only_def)
qed

lemma record_route_frame:
  assumes "record_route S p f r = Inr r'"
  shows "r_nodes r' = r_nodes r" "r_replays r' = r_replays r" "r_cache r' = r_cache r" "r_seen r' = r_seen r"
    "r_node_ids r' = r_node_ids r" "r_candidates r' = r_candidates r" "r_prefetched r' = r_prefetched r"
    "r_path_failures r' = r_path_failures r" "r_updates r' = r_updates r" "r_cache_hits r' = r_cache_hits r"
    "r_duplicates r' = r_duplicates r" "r_max_depth r' = r_max_depth r" "r_ticks r' = r_ticks r"
    "r_started r' = r_started r" "r_termination r' = r_termination r \<or> r_termination r' = GOAL_REACHED"
  using record_route_only [OF assms] by (simp_all add: routes_only_def)

section \<open>Replays\<close>

text \<open>A commit: the route, the counters, then the identifier of the node and the candidate.\<close>

lemma commit_frontier_shape:
  assumes "commit_frontier S p f hit r = Inr (r', ob)"
  shows "\<exists>r1 node i. record_route S p f (count_frontier (path_key p) f hit r) = Inr r1 \<and>
    r' = (note_state f r1)
        \<lparr>r_node_ids := AList.update (path_key p) node (r_node_ids (note_state f r1)),
         r_candidates := marked S p ''explored'' (explored_details f (is_duplicate f r1) node) (r_candidates r1)\<rparr> \<and>
    ob = \<lparr>ob_prefix = p, ob_prefix_id = i, ob_node_id = node, ob_frontier = f,
        ob_duplicate = is_duplicate f r1\<rparr>"
proof -
  obtain r1 where r1: "record_route S p f (count_frontier (path_key p) f hit r) = Inr r1"
    and rest: "sbind (search_node_id (experiment_name S) (fr_state_id f) (int (length p))
       (if p = [] then None else map_of (r_node_ids (note_state f r1)) (butlast (path_key p)))
       (if p = [] then None else Some (action_id (last p)))) (\<lambda>node.
     sbind (mark_candidate S p ''explored'' (explored_details f (is_duplicate f r1) node)
       ((note_state f r1)\<lparr>r_node_ids := AList.update (path_key p) node (r_node_ids (note_state f r1))\<rparr>)) (\<lambda>x.
     sbind (search_prefix_id S (path_key p)) (\<lambda>i.
     Inr (x, \<lparr>ob_prefix = p, ob_prefix_id = i, ob_node_id = node, ob_frontier = f,
              ob_duplicate = is_duplicate f r1\<rparr>)))) = Inr (r', ob)"
    using assms unfolding commit_frontier_def Let_def sbind_eq_Inr by blast
  obtain node i where r'0: "r' = (note_state f r1)
        \<lparr>r_node_ids := AList.update (path_key p) node (r_node_ids (note_state f r1)),
         r_candidates := marked S p ''explored'' (explored_details f (is_duplicate f r1) node)
           (r_candidates (note_state f r1))\<rparr>"
    and ob: "ob = \<lparr>ob_prefix = p, ob_prefix_id = i, ob_node_id = node, ob_frontier = f,
        ob_duplicate = is_duplicate f r1\<rparr>"
    using rest by (auto simp: sbind_eq_Inr mark_candidate_eq)
  have r': "r' = (note_state f r1)
        \<lparr>r_node_ids := AList.update (path_key p) node (r_node_ids (note_state f r1)),
         r_candidates := marked S p ''explored'' (explored_details f (is_duplicate f r1) node) (r_candidates r1)\<rparr>"
    unfolding r'0 by (simp add: note_state_def)
  show ?thesis using r1 r' ob by blast
qed

lemma commit_frontier_route:
  assumes "commit_frontier S p f hit r = Inr (r', ob)"
  shows "\<exists>r1. record_route S p f (count_frontier (path_key p) f hit r) = Inr r1 \<and>
    r_routes r' = r_routes r1 \<and> r_route_prefixes r' = r_route_prefixes r1"
  using commit_frontier_shape [OF assms] by (auto simp: note_state_def)

text \<open>What a committed frontier changes.\<close>

lemma commit_frontier_effect:
  assumes "commit_frontier S p f hit r = Inr (r', ob)"
  shows "r_nodes r' = r_nodes r + 1"
    and "r_replays r' = (if hit then r_replays r else r_replays r + fr_replays f)"
    and "r_cache r' = (if hit then r_cache r else AList.update (path_key p) f (r_cache r))"
    and "r_cache_hits r' = (if hit then r_cache_hits r + 1 else r_cache_hits r)"
    and "r_seen r' = r_seen (note_state f r)" and "r_duplicates r' = r_duplicates (note_state f r)"
    and "r_path_failures r' = r_path_failures r" and "r_max_depth r' = r_max_depth r"
    and "r_updates r' = r_updates r" and "r_prefetched r' = r_prefetched r" and "r_ticks r' = r_ticks r"
    and "r_started r' = r_started r"
    and "r_termination r' = r_termination r \<or> r_termination r' = GOAL_REACHED"
    and "\<exists>details. r_candidates r' = marked S p ''explored'' details (r_candidates r)"
    and "ob_prefix ob = p" and "ob_frontier ob = f" and "ob_duplicate ob = is_duplicate f r"
proof -
  obtain r1 node i where r1: "record_route S p f (count_frontier (path_key p) f hit r) = Inr r1"
    and r': "r' = (note_state f r1)
        \<lparr>r_node_ids := AList.update (path_key p) node (r_node_ids (note_state f r1)),
         r_candidates := marked S p ''explored'' (explored_details f (is_duplicate f r1) node) (r_candidates r1)\<rparr>"
    and ob: "ob = \<lparr>ob_prefix = p, ob_prefix_id = i, ob_node_id = node, ob_frontier = f,
        ob_duplicate = is_duplicate f r1\<rparr>"
    using commit_frontier_shape [OF assms] by blast
  note frame = record_route_frame [OF r1]
  have note_fields: "r_nodes (note_state f x) = r_nodes x" "r_replays (note_state f x) = r_replays x"
      "r_cache (note_state f x) = r_cache x" "r_cache_hits (note_state f x) = r_cache_hits x"
      "r_path_failures (note_state f x) = r_path_failures x" "r_max_depth (note_state f x) = r_max_depth x"
      "r_updates (note_state f x) = r_updates x" "r_prefetched (note_state f x) = r_prefetched x"
      "r_ticks (note_state f x) = r_ticks x" "r_started (note_state f x) = r_started x"
      "r_termination (note_state f x) = r_termination x" for x
    by (simp_all add: note_state_def)
  have count_fields: "r_seen (count_frontier k f hit x) = r_seen x" "r_duplicates (count_frontier k f hit x) = r_duplicates x"
      "r_nodes (count_frontier k f hit x) = r_nodes x + 1"
      "r_replays (count_frontier k f hit x) = (if hit then r_replays x else r_replays x + fr_replays f)"
      "r_cache (count_frontier k f hit x) = (if hit then r_cache x else AList.update k f (r_cache x))"
      "r_cache_hits (count_frontier k f hit x) = (if hit then r_cache_hits x + 1 else r_cache_hits x)"
      "r_path_failures (count_frontier k f hit x) = r_path_failures x" "r_max_depth (count_frontier k f hit x) = r_max_depth x"
      "r_updates (count_frontier k f hit x) = r_updates x" "r_prefetched (count_frontier k f hit x) = r_prefetched x"
      "r_ticks (count_frontier k f hit x) = r_ticks x" "r_started (count_frontier k f hit x) = r_started x"
      "r_termination (count_frontier k f hit x) = r_termination x" "r_candidates (count_frontier k f hit x) = r_candidates x" for k x
    by (simp_all add: count_frontier_def)
  have dup: "is_duplicate f r1 = is_duplicate f r" by (simp add: is_duplicate_def frame count_fields)
  have seen: "r_seen (note_state f r1) = r_seen (note_state f r)" "r_duplicates (note_state f r1) = r_duplicates (note_state f r)"
    by (simp_all add: note_state_def frame count_fields)
  note all = r' ob note_fields frame(1-14) count_fields dup seen
  show "r_termination r' = r_termination r \<or> r_termination r' = GOAL_REACHED"
    using frame(15) by (simp add: r' note_fields count_fields)
  show "\<exists>details. r_candidates r' = marked S p ''explored'' details (r_candidates r)"
    by (auto simp: r' frame count_fields)
  show "r_nodes r' = r_nodes r + 1" "r_replays r' = (if hit then r_replays r else r_replays r + fr_replays f)"
    "r_cache r' = (if hit then r_cache r else AList.update (path_key p) f (r_cache r))"
    "r_cache_hits r' = (if hit then r_cache_hits r + 1 else r_cache_hits r)"
    "r_seen r' = r_seen (note_state f r)" "r_duplicates r' = r_duplicates (note_state f r)"
    "r_path_failures r' = r_path_failures r" "r_max_depth r' = r_max_depth r"
    "r_updates r' = r_updates r" "r_prefetched r' = r_prefetched r" "r_ticks r' = r_ticks r"
    "r_started r' = r_started r" "ob_prefix ob = p" "ob_frontier ob = f" "ob_duplicate ob = is_duplicate f r"
    by (simp_all add: all)
qed

lemma record_failure_effect:
  assumes "record_failure S p x r = Inr r'"
  shows "r_nodes r' = r_nodes r + 1" and "r_replays r' = r_replays r + 1" and "r_cache r' = r_cache r"
    and "r_cache_hits r' = r_cache_hits r" and "r_seen r' = r_seen r" and "r_duplicates r' = r_duplicates r"
    and "r_path_failures r' = r_path_failures r @ [path_failure p x]" and "r_max_depth r' = r_max_depth r"
    and "r_updates r' = r_updates r" and "r_prefetched r' = r_prefetched r" and "r_ticks r' = r_ticks r"
    and "r_started r' = r_started r" and "r_termination r' = r_termination r"
    and "\<exists>details. r_candidates r' = marked S p ''failed'' details (r_candidates r)"
  using assms by (auto simp: record_failure_def mark_candidate_eq)

text \<open>Where the outcome of a prefix comes from: the cache, the prefetched outcomes or the adapter.\<close>

definition outcome_of :: "search_setup \<Rightarrow> action list \<Rightarrow> search_runtime \<Rightarrow> failed_replay + frontier" where
  "outcome_of S p r =
    (case map_of (r_cache r) (path_key p) of
       Some f \<Rightarrow> Inr f
     | None \<Rightarrow> (case map_of (r_prefetched r) (path_key p) of Some outcome \<Rightarrow> outcome | None \<Rightarrow> replays S p))"

definition cached :: "action list \<Rightarrow> search_runtime \<Rightarrow> bool" where
  "cached p r \<longleftrightarrow> map_of (r_cache r) (path_key p) \<noteq> None"

definition started_replay :: "action list \<Rightarrow> search_runtime \<Rightarrow> search_runtime" where
  "started_replay p r =
    (let r = r\<lparr>r_max_depth := max (r_max_depth r) (int (length p))\<rparr> in
     if cached p r \<or> map_of (r_prefetched r) (path_key p) = None then r
     else r\<lparr>r_prefetched := AList.delete (path_key p) (r_prefetched r)\<rparr>)"

lemma replay_prefix_eq:
  "replay_prefix S p r = commit_replay S p (outcome_of S p r) (cached p r) (started_replay p r)"
  by (auto simp: replay_prefix_def outcome_of_def cached_def started_replay_def Let_def split: option.split)

lemma started_replay_frame:
  "r_nodes (started_replay p r) = r_nodes r" "r_replays (started_replay p r) = r_replays r"
  "r_cache (started_replay p r) = r_cache r" "r_cache_hits (started_replay p r) = r_cache_hits r"
  "r_seen (started_replay p r) = r_seen r" "r_duplicates (started_replay p r) = r_duplicates r"
  "r_path_failures (started_replay p r) = r_path_failures r" "r_updates (started_replay p r) = r_updates r"
  "r_ticks (started_replay p r) = r_ticks r" "r_started (started_replay p r) = r_started r"
  "r_termination (started_replay p r) = r_termination r" "r_candidates (started_replay p r) = r_candidates r"
  "r_max_depth (started_replay p r) = max (r_max_depth r) (int (length p))"
  by (simp_all add: started_replay_def Let_def)

lemma note_state_seen:
  "r_seen (note_state f (started_replay p r)) = r_seen (note_state f r)"
  "r_duplicates (note_state f (started_replay p r)) = r_duplicates (note_state f r)"
  "is_duplicate f (started_replay p r) = is_duplicate f r"
  by (simp_all add: note_state_def is_duplicate_def started_replay_frame)

lemma replay_prefix_failed:
  assumes "replay_prefix S p r = Inr (r', node)" and "outcome_of S p r = Inl x"
  shows "record_failure S p x (started_replay p r) = Inr r'" and "p \<noteq> []" and "node = None"
  using assms by (auto simp: replay_prefix_eq commit_replay_def monad_simps split: if_split_asm)

lemma replay_prefix_shown:
  assumes "replay_prefix S p r = Inr (r', node)" and "outcome_of S p r = Inr f"
  shows "\<exists>ob. node = Some ob \<and> commit_frontier S p f (cached p r) (started_replay p r) = Inr (r', ob)"
  using assms by (auto simp: replay_prefix_eq commit_replay_def monad_simps)

lemma replay_prefix_counts:
  assumes "replay_prefix S p r = Inr (r', node)"
  shows "r_nodes r' = r_nodes r + 1" and "r_max_depth r' = max (r_max_depth r) (int (length p))"
    and "r_ticks r' = r_ticks r" and "r_started r' = r_started r" and "r_updates r' = r_updates r"
    and "r_termination r' = r_termination r \<or> r_termination r' = GOAL_REACHED"
    and "case node of None \<Rightarrow> True | Some ob \<Rightarrow> ob_prefix ob = p"
proof -
  have "r_nodes r' = r_nodes r + 1 \<and> r_max_depth r' = max (r_max_depth r) (int (length p)) \<and>
    r_ticks r' = r_ticks r \<and> r_started r' = r_started r \<and> r_updates r' = r_updates r \<and>
    (r_termination r' = r_termination r \<or> r_termination r' = GOAL_REACHED) \<and>
    (case node of None \<Rightarrow> True | Some ob \<Rightarrow> ob_prefix ob = p)"
  proof (cases "outcome_of S p r")
    case (Inl x)
    note failed = replay_prefix_failed [OF assms Inl]
    show ?thesis
      using record_failure_effect [OF failed(1)] failed(3) by (simp add: started_replay_frame)
  next
    case (Inr f)
    then obtain ob where ob: "node = Some ob" "commit_frontier S p f (cached p r) (started_replay p r) = Inr (r', ob)"
      using replay_prefix_shown [OF assms Inr] by blast
    show ?thesis
      using commit_frontier_effect [OF ob(2)] by (simp add: ob(1) started_replay_frame)
  qed
  then show "r_nodes r' = r_nodes r + 1" and "r_max_depth r' = max (r_max_depth r) (int (length p))"
    and "r_ticks r' = r_ticks r" and "r_started r' = r_started r" and "r_updates r' = r_updates r"
    and "r_termination r' = r_termination r \<or> r_termination r' = GOAL_REACHED"
    and "case node of None \<Rightarrow> True | Some ob \<Rightarrow> ob_prefix ob = p" by blast+
qed

section \<open>Accounting\<close>

text \<open>Every node is a cached frontier, a hit in the cache or a failed path.\<close>

definition accounted :: "search_runtime \<Rightarrow> bool" where
  "accounted r \<longleftrightarrow> r_nodes r = int (length (r_cache r)) + r_cache_hits r + int (length (r_path_failures r)) \<and>
     r_duplicates r \<ge> 0 \<and> distinct (r_seen r) \<and> distinct (map fst (r_cache r))"

lemma length_update_new: "map_of d k = None \<Longrightarrow> length (AList.update k v d) = Suc (length d)"
  by (induction d) (auto split: if_splits)

lemma accounted_commit:
  assumes "accounted r" and "commit_frontier S p f (cached p r) r = Inr (r', ob)"
  shows "accounted r'"
proof -
  note effect = commit_frontier_effect [OF assms(2)]
  have cache: "int (length (r_cache r')) = int (length (r_cache r)) + (if cached p r then 0 else 1) \<and>
    distinct (map fst (r_cache r'))"
  proof (cases "cached p r")
    case True
    then show ?thesis using assms(1) by (simp add: effect(3) accounted_def)
  next
    case False
    then have "map_of (r_cache r) (path_key p) = None" by (simp only: cached_def not_not)
    from length_update_new [OF this] show ?thesis
      using assms(1) False by (simp add: effect(3) accounted_def distinct_update)
  qed
  have seen: "r_duplicates r' \<ge> 0" "distinct (r_seen r')"
    using assms(1) effect(5,6) by (auto simp: accounted_def note_state_def split: if_splits)
  show ?thesis
    using assms(1) effect(1,4,7) cache seen by (simp add: accounted_def split: if_split_asm)
qed

lemma accounted_failure: "accounted r \<Longrightarrow> record_failure S p x r = Inr r' \<Longrightarrow> accounted r'"
  by (simp add: accounted_def record_failure_effect)

lemma accounted_started: "accounted (started_replay p r) = accounted r" "cached p (started_replay q r) = cached p r"
  by (simp_all add: accounted_def started_replay_frame cached_def)

lemma accounted_replay:
  assumes "accounted r" and "replay_prefix S p r = Inr (r', node)"
  shows "accounted r'"
proof (cases "outcome_of S p r")
  case (Inl x)
  show ?thesis
    by (rule accounted_failure [OF _ replay_prefix_failed(1) [OF assms(2) Inl]]) (simp add: accounted_started assms(1))
next
  case (Inr f)
  then obtain ob where "commit_frontier S p f (cached p r) (started_replay p r) = Inr (r', ob)"
    using replay_prefix_shown [OF assms(2) Inr] by blast
  then have "commit_frontier S p f (cached p (started_replay p r)) (started_replay p r) = Inr (r', ob)"
    by (simp add: accounted_started)
  then show ?thesis by (rule accounted_commit [rotated]) (simp add: accounted_started assms(1))
qed

end
