(* ===== verification/Executor_Laws.thy ===== *)
theory Executor_Laws
  imports Executor_Frames
begin

text \<open>
  Both loops of the executor at once: an invariant of the steps is an invariant of every run. The
  interface \<open>run_invariant\<close> is interpreted on the accounting of the nodes and on the routes. Then the
  limits of the budget, and that a run with a limit on its nodes ends.
\<close>

lemma close_layer_shape:
  "\<exists>chosen records us t. snd (close_layer width current halt c r) =
    (prune_children chosen records (halt_run halt r))\<lparr>r_updates := us, r_termination := t\<rparr>"
proof -
  have "\<exists>t. (if b then x\<lparr>r_updates := us\<rparr>\<lparr>r_termination := MAX_DEPTH\<rparr> else x\<lparr>r_updates := us\<rparr>) =
      x\<lparr>r_updates := us, r_termination := t\<rparr>" for b us and x :: search_runtime
    by (cases b) (auto intro: exI [of _ "r_termination x"])
  then show ?thesis unfolding close_layer_def Let_def snd_conv by blast
qed

lemma beam_layer_Inr:
  assumes "beam_layer S width obs r = Inr (chosen, r')"
  obtains children limited halt r1 r2 seen c where
    "plan_layer S obs (remaining_slots S r) [] False r = Inr (children, limited, halt, r1)"
    "replay_prefixes S children r1 = Inr (r2, seen)"
    "collect_children S (r_termination r2 = GOAL_REACHED) (zip children seen)
      \<lparr>bc_nodes = [], bc_records = [], bc_limited = limited, bc_goal = False\<rparr> = Inr c"
    "close_layer width obs halt c r2 = (chosen, r')"
proof -
  obtain children limited halt r1 where plan: "plan_layer S obs (remaining_slots S r) [] False r = Inr (children, limited, halt, r1)"
    using assms unfolding beam_layer_def sbind_eq_Inr raising_Inr by (metis prod_cases4)
  obtain r2 seen where replayed: "replay_prefixes S children r1 = Inr (r2, seen)"
    using assms unfolding beam_layer_def plan raising_simps sbind_Inr prod.case sbind_eq_Inr by (metis surj_pair)
  obtain c where c: "collect_children S (r_termination r2 = GOAL_REACHED) (zip children seen)
      \<lparr>bc_nodes = [], bc_records = [], bc_limited = limited, bc_goal = False\<rparr> = Inr c"
    using assms unfolding beam_layer_def plan raising_simps sbind_Inr prod.case replayed sbind_eq_Inr raising_Inr by blast
  have "close_layer width obs halt c r2 = (chosen, r')"
    using assms unfolding beam_layer_def plan raising_simps sbind_Inr prod.case replayed c by simp
  then show ?thesis using that plan replayed c by blast
qed

section \<open>Invariants of a run\<close>

locale run_invariant =
  fixes S :: search_setup and inv :: "search_runtime \<Rightarrow> bool"
  assumes start: "inv (new_runtime S)"
    and failure: "inv r \<Longrightarrow> record_failure S p x r = Inr r' \<Longrightarrow> inv r'"
    and commit: "inv r \<Longrightarrow> commit_frontier S p f (cached p r) r = Inr (r', ob) \<Longrightarrow> inv r'"
    and admin: "inv r \<Longrightarrow> inv (r\<lparr>r_ticks := n, r_prefetched := pf, r_candidates := cs, r_updates := us,
      r_max_depth := d, r_termination := t\<rparr>)"
begin

lemma ticks: "inv r \<Longrightarrow> inv (r\<lparr>r_ticks := n\<rparr>)"
  using admin [where r = r and n = n and pf = "r_prefetched r" and cs = "r_candidates r" and us = "r_updates r" and d = "r_max_depth r" and t = "r_termination r"] by simp

lemma prefetched: "inv r \<Longrightarrow> inv (r\<lparr>r_prefetched := pf\<rparr>)"
  using admin [where r = r and n = "r_ticks r" and pf = pf and cs = "r_candidates r" and us = "r_updates r" and d = "r_max_depth r" and t = "r_termination r"] by simp

lemma candidates: "inv r \<Longrightarrow> inv (r\<lparr>r_candidates := cs\<rparr>)"
  using admin [where r = r and n = "r_ticks r" and pf = "r_prefetched r" and cs = cs and us = "r_updates r" and d = "r_max_depth r" and t = "r_termination r"] by simp

lemma updates: "inv r \<Longrightarrow> inv (r\<lparr>r_updates := us\<rparr>)"
  using admin [where r = r and n = "r_ticks r" and pf = "r_prefetched r" and cs = "r_candidates r" and us = us and d = "r_max_depth r" and t = "r_termination r"] by simp

lemma depth: "inv r \<Longrightarrow> inv (r\<lparr>r_max_depth := d\<rparr>)"
  using admin [where r = r and n = "r_ticks r" and pf = "r_prefetched r" and cs = "r_candidates r" and us = "r_updates r" and d = d and t = "r_termination r"] by simp

lemma termination_reason: "inv r \<Longrightarrow> inv (r\<lparr>r_termination := t\<rparr>)"
  using admin [where r = r and n = "r_ticks r" and pf = "r_prefetched r" and cs = "r_candidates r" and us = "r_updates r" and d = "r_max_depth r" and t = t] by simp

lemma budget_check: "inv r \<Longrightarrow> hard_budget_reason S r = (r', reason) \<Longrightarrow> inv r'"
  by (auto simp: hard_budget_reason_def Let_def ticks)

lemma started: "inv r \<Longrightarrow> inv (started_replay p r)"
  by (simp add: started_replay_def Let_def depth prefetched)

lemma replay:
  assumes "inv r" and "replay_prefix S p r = Inr (r', node)"
  shows "inv r'"
proof (cases "outcome_of S p r")
  case (Inl x)
  show ?thesis
    by (rule failure [OF started [OF assms(1)] replay_prefix_failed(1) [OF assms(2) Inl]])
next
  case (Inr f)
  then obtain ob where "commit_frontier S p f (cached p (started_replay p r)) (started_replay p r) = Inr (r', ob)"
    using replay_prefix_shown [OF assms(2) Inr] by (auto simp: accounted_started)
  then show ?thesis by (rule commit [OF started [OF assms(1)]])
qed

lemma fetch: "inv r \<Longrightarrow> prefetch S ps r = Inr r' \<Longrightarrow> inv r'"
  unfolding prefetch_eq Let_def store_outcomes_def
  by (auto intro!: candidates prefetched split: if_split_asm)

lemma expand: "inv r \<Longrightarrow> expand_node S ob rest r = Inr (Pending qs r') \<Longrightarrow> inv r'"
  by (auto simp: expand_node_def Let_def sbind_eq_Inr ensure_candidates_eq intro!: candidates intro: fetch updates)

lemma visit:
  assumes "inv r" and "visit_prefix S p ps r = Inr next"
  shows "case next of Finished r' \<Rightarrow> inv r' | Pending qs r' \<Rightarrow> inv r'"
proof -
  obtain r1 node where r1: "replay_prefix S p r = Inr (r1, node)"
    using assms(2) by (auto simp: visit_prefix_def sbind_eq_Inr)
  note i1 = replay [OF assms(1) r1]
  show ?thesis
  proof (cases node)
    case None
    then show ?thesis using assms(2) i1 by (auto simp: visit_prefix_def r1)
  next
    case (Some ob)
    have "\<exists>qs r'. e = Pending qs r'" if "expand_node S ob ps r1 = Inr e" for e
      using that by (auto simp: expand_node_def Let_def sbind_eq_Inr)
    then show ?thesis
      using assms(2) i1 expand [OF i1]
      by (fastforce simp: visit_prefix_def r1 Some raising_Inr termination_reason split: if_split_asm)
  qed
qed

lemma depth_first: "inv r \<Longrightarrow> depth_first n S ps r = Some (Inr r') \<Longrightarrow> inv r'"
proof (induction n arbitrary: ps r)
  case 0
  then show ?case by (cases ps) auto
next
  case (Suc n)
  show ?case
  proof (cases ps)
    case (Cons p qs)
    obtain r1 reason where r1: "hard_budget_reason S r = (r1, reason)" by (cases "hard_budget_reason S r")
    note i1 = budget_check [OF Suc.prems(1) r1]
    show ?thesis
    proof (cases reason)
      case None
      then obtain step where step: "visit_prefix S p qs r1 = Inr step"
        using Suc.prems(2) by (auto simp: Cons r1 split: sum.split_asm)
      show ?thesis
        using Suc.prems(2) visit [OF i1 step] Suc.IH by (cases step) (auto simp: Cons r1 None step)
    qed (use Suc.prems(2) i1 in \<open>auto simp: Cons r1 termination_reason\<close>)
  qed (use Suc.prems in auto)
qed

lemma plan_actions: "inv r \<Longrightarrow> plan_actions S p as slots ps r = Inr (qs, left, halt, r') \<Longrightarrow> inv r'"
proof (induction as arbitrary: slots ps r)
  case (Cons a as)
  obtain r1 reason where r1: "hard_budget_reason S r = (r1, reason)" by (cases "hard_budget_reason S r")
  note i1 = budget_check [OF Cons.prems(1) r1]
  then show ?case
    using Cons.prems(2) Cons.IH [OF candidates [OF i1]]
    by (cases reason) (auto simp: r1 ensure_candidate_eq split: if_split_asm)
qed auto

lemma plan_layer: "inv r \<Longrightarrow> plan_layer S obs slots ps few r = Inr (qs, few', halt, r') \<Longrightarrow> inv r'"
proof (induction obs arbitrary: slots ps few r)
  case (Cons ob obs)
  show ?case
  proof (cases "reached (max_depth (budget S)) (int (length (ob_prefix ob)))")
    case False
    then obtain as qs1 left h r1 where plan: "plan_actions S (ob_prefix ob) as slots ps r = Inr (qs1, left, h, r1)"
      and rest: "(case h of Some reason \<Rightarrow> Inr (qs1, few, Some reason, r1)
        | None \<Rightarrow> plan_layer S obs left qs1 few r1) = Inr (qs, few', halt, r')"
      using Cons.prems(2) by (auto simp: sbind_eq_Inr split: prod.split_asm)
    show ?thesis
      using plan_actions [OF Cons.prems(1) plan] rest Cons.IH by (cases h) auto
  qed (use Cons in auto)
qed auto

lemma replay_each: "inv r \<Longrightarrow> replay_each S ps r = Inr (r', obs) \<Longrightarrow> inv r'"
  by (induction ps arbitrary: r obs) (auto simp: sbind_eq_Inr dest: replay)

lemma commit_each: "inv r \<Longrightarrow> commit_each S outcomes ps r = Inr (r', obs) \<Longrightarrow> inv r'"
proof (induction ps arbitrary: r obs)
  case (Cons p ps)
  show ?case
  proof (cases "the (map_of outcomes (path_key p))")
    case (Inl x)
    then obtain r1 obs1 where "record_failure S p x r = Inr r1" "commit_each S outcomes ps r1 = Inr (r', obs1)"
      using Cons.prems(2) by (auto simp: sbind_eq_Inr)
    then show ?thesis using Cons.IH failure [OF Cons.prems(1)] by blast
  next
    case (Inr f)
    then obtain r1 ob obs1 where "commit_frontier S p f (cached p r) r = Inr (r1, ob)"
        "commit_each S outcomes ps r1 = Inr (r', obs1)"
      using Cons.prems(2) by (auto simp: sbind_eq_Inr cached_def simp del: not_None_eq)
    then show ?thesis using Cons.IH commit [OF Cons.prems(1)] by blast
  qed
qed auto

lemma noted: "inv r \<Longrightarrow> inv (note_depths ps r)"
  by (induction ps arbitrary: r) (auto intro: depth)

lemma replay_prefixes:
  assumes "inv r" and "replay_prefixes S ps r = Inr (r', obs)"
  shows "inv r'"
proof (cases "(case pool S of None \<Rightarrow> True | Some k \<Rightarrow> k \<le> 1) \<or> length ps \<le> 1")
  case True
  then show ?thesis using assms replay_each by (simp add: replay_prefixes_def)
next
  case False
  then have "commit_each S (pool_outcomes S (r_cache (note_depths ps r)) ps) ps
      (note_depths ps r\<lparr>r_candidates := with_candidates S ps (r_candidates (note_depths ps r))\<rparr>) = Inr (r', obs)"
    using assms(2) by (simp add: replay_prefixes_def raising_Inr ensure_candidates_eq del: not_less)
  then show ?thesis by (rule commit_each [OF candidates [OF noted [OF assms(1)]]])
qed

lemma mark: "inv r \<Longrightarrow> inv (mark_key key status details r)"
  by (auto simp: mark_key_def candidates split: option.split)

lemma prune: "inv r \<Longrightarrow> inv (prune_children chosen records r)"
  unfolding prune_children_def by (induction records arbitrary: r) (auto simp: mark)

lemma halted: "inv r \<Longrightarrow> inv (halt_run halt r)"
  by (cases halt) (simp_all add: halt_run_def termination_reason)

lemma close:
  assumes "inv r" and "close_layer width current halt c r = (chosen, r')"
  shows "inv r'"
proof -
  obtain ps records us t where "r' = (prune_children ps records (halt_run halt r))\<lparr>r_updates := us, r_termination := t\<rparr>"
    using close_layer_shape [of width current halt c r] assms(2) by auto
  then show ?thesis by (simp add: termination_reason updates prune halted assms(1))
qed

lemma beam_layer:
  assumes "inv r" and "beam_layer S width obs r = Inr (chosen, r')"
  shows "inv r'"
proof (rule beam_layer_Inr [OF assms(2)])
  fix children limited halt r1 r2 seen c
  assume plan: "plan_layer S obs (remaining_slots S r) [] False r = Inr (children, limited, halt, r1)"
    and replayed: "replay_prefixes S children r1 = Inr (r2, seen)"
    and closed: "close_layer width obs halt c r2 = (chosen, r')"
  show "inv r'" by (rule close [OF replay_prefixes [OF plan_layer [OF assms(1) plan] replayed] closed])
qed

lemma beam_layers: "inv r \<Longrightarrow> beam_layers n S width obs r = Some (Inr r') \<Longrightarrow> inv r'"
proof (induction n arbitrary: obs r)
  case 0
  then show ?case by (cases obs) simp_all
next
  case (Suc n)
  show ?case
  proof (cases obs)
    case (Cons ob rest)
    show ?thesis
    proof (cases "r_termination r = GOAL_REACHED")
      case False
      then obtain chosen r1 where layer: "beam_layer S width (ob # rest) r = Inr (chosen, r1)"
        using Suc.prems(2) by (cases "beam_layer S width (ob # rest) r") (auto simp: Cons)
      show ?thesis
        using Suc.prems(2) Suc.IH [OF beam_layer [OF Suc.prems(1) layer]] False by (simp add: Cons layer)
    qed (use Suc.prems in \<open>simp add: Cons\<close>)
  qed (use Suc.prems in simp)
qed

lemma run:
  assumes "run_search n S = Some (Inr r)"
  shows "inv r"
proof (cases "execution_mode (strategy S) = ''depth_first''")
  case True
  then show ?thesis using assms depth_first [OF start] by (auto simp: run_search_def split: if_split_asm)
next
  case False
  obtain r1 reason where r1: "hard_budget_reason S (new_runtime S) = (r1, reason)"
    by (cases "hard_budget_reason S (new_runtime S)")
  note i1 = budget_check [OF start r1]
  have "run_beam n S (new_runtime S) = Some (Inr r)"
    using assms False by (auto simp: run_search_def split: if_split_asm)
  then obtain width where beam: "(case hard_budget_reason S (new_runtime S) of
             (r, Some reason) \<Rightarrow> Some (Inr (r\<lparr>r_termination := reason\<rparr>))
           | (r, None) \<Rightarrow>
               (case replay_prefix S [] r of
                  Inl err \<Rightarrow> Some (Inl err)
                | Inr (r, None) \<Rightarrow> Some (Inr r)
                | Inr (r, Some start) \<Rightarrow>
                    beam_layers n S (nat width) (if ob_duplicate start then [] else [start]) r)) = Some (Inr r)"
    unfolding run_beam_def
    by (cases "dict_get (parameters (strategy S)) ''beam_width''") (auto split: if_split_asm)
  show ?thesis
  proof (cases reason)
    case None
    show ?thesis
    proof (cases "replay_prefix S [] r1")
      case (Inl err)
      then show ?thesis using beam by (simp add: r1 None)
    next
      case (Inr res)
      obtain r2 node where r2: "res = (r2, node)" by (cases res)
      have i2: "inv r2" using replay [OF i1] Inr by (simp add: r2)
      show ?thesis
      proof (cases node)
        case None
        then show ?thesis using beam i2 by (simp add: r1 \<open>reason = None\<close> Inr r2)
      next
        case (Some start)
        have "beam_layers n S (nat width) (if ob_duplicate start then [] else [start]) r2 = Some (Inr r)"
          using beam by (simp add: r1 None Inr r2 Some)
        then show ?thesis by (rule beam_layers [OF i2])
      qed
    qed
  next
    case (Some t)
    then have "r = r1\<lparr>r_termination := t\<rparr>" using beam by (simp add: r1)
    then show ?thesis by (simp add: termination_reason i1)
  qed
qed

end

interpretation accounting: run_invariant S accounted for S
proof
  show "accounted (new_runtime S)" by (simp add: accounted_def new_runtime_def)
next
  fix r r' p x
  assume "accounted r" and "record_failure S p x r = Inr r'"
  then show "accounted r'" by (rule accounted_failure)
next
  fix r r' p f ob
  assume "accounted r" and "commit_frontier S p f (cached p r) r = Inr (r', ob)"
  then show "accounted r'" by (rule accounted_commit)
next
  fix r n pf cs us d t
  assume "accounted r"
  then show "accounted (r\<lparr>r_ticks := n, r_prefetched := pf, r_candidates := cs, r_updates := us,
      r_max_depth := d, r_termination := t\<rparr>)" by (simp add: accounted_def)
qed

section \<open>Routes\<close>

text \<open>One route for each prefix that was a legal stop, named by its actions.\<close>

definition routes_named :: "search_runtime \<Rightarrow> bool" where
  "routes_named r \<longleftrightarrow> map rs_action_ids (r_routes r) = r_route_prefixes r \<and> distinct (r_route_prefixes r) \<and>
     (\<forall>k\<in>set (r_route_prefixes r). k \<noteq> [])"

lemma make_route_ids: "make_route i ok peak term ids d p b = Inr route \<Longrightarrow> rs_action_ids route = ids"
  by (auto simp: make_route_def sbind_eq_Inr)

lemma record_route_named:
  assumes "routes_named r" and "record_route S p f r = Inr r'"
  shows "routes_named r'"
proof (cases "fr_document f = None \<or> \<not> fr_legal_stop f \<or> p = []")
  case True
  then show ?thesis
    using assms by (cases "fr_document f") (auto simp: record_route_def split: if_split_asm)
next
  case False
  then obtain d where d: "fr_document f = Some d" "fr_legal_stop f" "p \<noteq> []" by auto
  obtain i r1 where r1: "add_route S (path_key p) f d i r = Inr r1"
      "r' = (if goal_met (budget S) f then r1\<lparr>r_termination := GOAL_REACHED\<rparr> else r1)"
    using assms d by (auto simp: record_route_def sbind_eq_Inr)
  have "routes_named r1"
    using assms(1) r1(1) d(3) make_route_ids
    by (auto simp: add_route_def sbind_eq_Inr routes_named_def path_key_def split: if_split_asm)
  then show ?thesis by (simp add: r1(2) routes_named_def)
qed

interpretation naming: run_invariant S routes_named for S
proof
  show "routes_named (new_runtime S)" by (simp add: routes_named_def new_runtime_def)
next
  fix r r' p x
  assume "routes_named r" and "record_failure S p x r = Inr r'"
  then show "routes_named r'" by (auto simp: routes_named_def record_failure_def mark_candidate_eq)
next
  fix r r' p f ob
  assume named: "routes_named r" and "commit_frontier S p f (cached p r) r = Inr (r', ob)"
  then obtain r1 where r1: "record_route S p f (count_frontier (path_key p) f (cached p r) r) = Inr r1"
      "r_routes r' = r_routes r1" "r_route_prefixes r' = r_route_prefixes r1"
    using commit_frontier_route by blast
  have "routes_named (count_frontier (path_key p) f (cached p r) r)"
    using named by (simp add: routes_named_def count_frontier_def Let_def)
  from record_route_named [OF this r1(1)] show "routes_named r'" by (simp add: routes_named_def r1)
next
  fix r n pf cs us d t
  assume "routes_named r"
  then show "routes_named (r\<lparr>r_ticks := n, r_prefetched := pf, r_candidates := cs, r_updates := us,
      r_max_depth := d, r_termination := t\<rparr>)" by (simp add: routes_named_def)
qed

end
