(* ===== verification/Executor_Limits.thy ===== *)
theory Executor_Limits
  imports Executor_Laws Budget_Laws
begin

text \<open>
  The limits of the budget in a run: no more nodes than \<open>max_nodes\<close>, no prefix longer than
  \<open>max_depth\<close>, and a run with a limit on its nodes ends within that many rounds of its loop.
\<close>

section \<open>What the limits say of a state\<close>

definition in_limits :: "search_budget \<Rightarrow> search_runtime \<Rightarrow> bool" where
  "in_limits b r \<longleftrightarrow> (case max_nodes b of None \<Rightarrow> True | Some k \<Rightarrow> r_nodes r \<le> k) \<and>
     (case max_depth b of None \<Rightarrow> True | Some d \<Rightarrow> r_max_depth r \<le> d)"

lemma in_limits_same: "r_nodes r' = r_nodes r \<Longrightarrow> r_max_depth r' = r_max_depth r \<Longrightarrow> in_limits b r' = in_limits b r"
  by (simp add: in_limits_def split: option.split)

definition depth_fits :: "search_budget \<Rightarrow> action list \<Rightarrow> bool" where
  "depth_fits b p \<longleftrightarrow> (case max_depth b of None \<Rightarrow> True | Some d \<Rightarrow> int (length p) \<le> d)"

lemma budget_check_frame:
  assumes "hard_budget_reason S r = (r', reason)"
  shows "r_nodes r' = r_nodes r" "r_max_depth r' = r_max_depth r" "r_termination r' = r_termination r"
    "r_cache r' = r_cache r" "r_prefetched r' = r_prefetched r" "r_seen r' = r_seen r"
    "r_candidates r' = r_candidates r" "r_replays r' = r_replays r"
    "reason = None \<Longrightarrow> \<not> reached (max_nodes (budget S)) (r_nodes r)"
  using assms by (auto simp: hard_budget_reason_def Let_def split: if_split_asm)

lemma visit_prefix_Inr:
  assumes "visit_prefix S p ps r = Inr step"
  obtains (failed) r1 where "replay_prefix S p r = Inr (r1, None)" "step = Pending ps r1"
  | (goal) r1 ob where "replay_prefix S p r = Inr (r1, Some ob)" "r_termination r1 = GOAL_REACHED" "step = Finished r1"
  | (duplicate) r1 ob where "replay_prefix S p r = Inr (r1, Some ob)" "r_termination r1 \<noteq> GOAL_REACHED"
      "ob_duplicate ob" "step = Pending ps r1"
  | (deep) r1 ob where "replay_prefix S p r = Inr (r1, Some ob)" "\<not> ob_duplicate ob"
      "reached (max_depth (budget S)) (int (length p))" "step = Pending ps (r1\<lparr>r_termination := MAX_DEPTH\<rparr>)"
  | (expanded) r1 ob where "replay_prefix S p r = Inr (r1, Some ob)" "r_termination r1 \<noteq> GOAL_REACHED"
      "\<not> ob_duplicate ob" "\<not> reached (max_depth (budget S)) (int (length p))" "expand_node S ob ps r1 = Inr step"
proof -
  obtain r1 node where r1: "replay_prefix S p r = Inr (r1, node)"
    using assms by (auto simp: visit_prefix_def sbind_eq_Inr)
  show thesis
  proof (cases node)
    case None
    then show thesis using assms failed r1 by (simp add: visit_prefix_def)
  next
    case (Some ob)
    have "(if r_termination r1 = GOAL_REACHED then Inr (Finished r1)
        else if ob_duplicate ob then Inr (Pending ps r1)
        else if reached (max_depth (budget S)) (int (length p)) then Inr (Pending ps (r1\<lparr>r_termination := MAX_DEPTH\<rparr>))
        else raising (expand_node S ob ps r1)) = Inr step"
      using assms by (simp add: visit_prefix_def r1 Some)
    then show thesis
      using goal duplicate deep expanded r1 Some by (simp add: raising_Inr split: if_split_asm)
  qed
qed

lemma expand_node_Inr:
  assumes "expand_node S ob rest r = Inr step"
  obtains as r1 where "order_actions (strategy S) (ob_node_id ob) (fr_actions (ob_frontier ob)) = Inr as"
    "prefetch S (map (\<lambda>a. ob_prefix ob @ [a]) as) (r\<lparr>r_updates := r_updates r @ [expansion_update ob as]\<rparr>) = Inr r1"
    "step = Pending (map (\<lambda>a. ob_prefix ob @ [a]) as @ rest)
      (r1\<lparr>r_candidates := with_candidates S (rev (map (\<lambda>a. ob_prefix ob @ [a]) as)) (r_candidates r1)\<rparr>)"
proof -
  obtain as where as: "order_actions (strategy S) (ob_node_id ob) (fr_actions (ob_frontier ob)) = Inr as"
    using assms by (auto simp: expand_node_def sbind_eq_Inr)
  obtain r1 where r1: "prefetch S (map (\<lambda>a. ob_prefix ob @ [a]) as)
      (r\<lparr>r_updates := r_updates r @ [expansion_update ob as]\<rparr>) = Inr r1"
    using assms unfolding expand_node_def as sbind_Inr Let_def sbind_eq_Inr by blast
  show thesis
    using assms that [OF as r1] unfolding expand_node_def as sbind_Inr Let_def r1 ensure_candidates_eq by simp
qed

section \<open>Depth first\<close>

lemma visit_prefix_step:
  assumes "visit_prefix S p ps r = Inr step"
  shows "case step of
      Finished r' \<Rightarrow> r_nodes r' = r_nodes r + 1 \<and> r_max_depth r' = max (r_max_depth r) (int (length p))
    | Pending qs r' \<Rightarrow> r_nodes r' = r_nodes r + 1 \<and> r_max_depth r' = max (r_max_depth r) (int (length p)) \<and>
        (qs = ps \<or> \<not> reached (max_depth (budget S)) (int (length p)) \<and> (\<exists>as. qs = map (\<lambda>a. p @ [a]) as @ ps))"
  using assms
proof (cases rule: visit_prefix_Inr)
  case (expanded r1 ob)
  note counts = replay_prefix_counts [OF expanded(1)]
  then have ob: "ob_prefix ob = p" by simp
  obtain as r2 where "prefetch S (map (\<lambda>a. ob_prefix ob @ [a]) as) (r1\<lparr>r_updates := r_updates r1 @ [expansion_update ob as]\<rparr>) = Inr r2"
    and step: "step = Pending (map (\<lambda>a. ob_prefix ob @ [a]) as @ ps)
      (r2\<lparr>r_candidates := with_candidates S (rev (map (\<lambda>a. ob_prefix ob @ [a]) as)) (r_candidates r2)\<rparr>)"
    by (rule expand_node_Inr [OF expanded(5)])
  note frame = prefetch_frame [OF this(1)]
  show ?thesis using counts expanded(4) frame(1,12) by (auto simp: step ob)
qed (use replay_prefix_counts in \<open>auto\<close>)

lemma depth_first_within:
  assumes "depth_first n S ps r = Some (Inr r')" and "in_limits (budget S) r" and "list_all (depth_fits (budget S)) ps"
  shows "in_limits (budget S) r'"
  using assms
proof (induction n arbitrary: ps r)
  case 0
  then show ?case by (cases ps) simp_all
next
  case (Suc n)
  show ?case
  proof (cases ps)
    case (Cons p qs)
    obtain r1 reason where r1: "hard_budget_reason S r = (r1, reason)" by (cases "hard_budget_reason S r")
    note frame = budget_check_frame [OF r1]
    show ?thesis
    proof (cases reason)
      case None
      then obtain step where step: "visit_prefix S p qs r1 = Inr step"
        using Suc.prems(1) by (cases "visit_prefix S p qs r1") (simp_all add: Cons r1)
      note shape = visit_prefix_step [OF step]
      have grown: "in_limits (budget S) x" if "r_nodes x = r_nodes r1 + 1" "r_max_depth x = max (r_max_depth r1) (int (length p))" for x
        using that Suc.prems(2,3) frame(1,2,9) None
        by (auto simp: in_limits_def depth_fits_def Cons reached_def split: option.splits)
      show ?thesis
      proof (cases step)
        case (Finished x)
        then show ?thesis using Suc.prems(1) shape grown by (simp add: Cons r1 None step)
      next
        case (Pending qs' x)
        have "list_all (depth_fits (budget S)) qs'"
          using shape Suc.prems(3)
          by (auto simp: Pending Cons depth_fits_def reached_def list_all_iff split: option.splits)
        then show ?thesis
          using Suc.prems(1) shape grown [of x] Suc.IH [of qs' x] by (simp add: Cons r1 None step Pending)
      qed
    next
      case (Some t)
      then have "r' = r1\<lparr>r_termination := t\<rparr>" using Suc.prems(1) by (simp add: Cons r1)
      then show ?thesis using Suc.prems(2) frame(1,2) in_limits_same [of r' r] by simp
    qed
  qed (use Suc.prems in simp)
qed

lemma depth_first_returns:
  assumes "max_nodes (budget S) = Some k" and "r_nodes r \<le> k" and "k - r_nodes r < int n"
  shows "depth_first n S ps r \<noteq> None"
  using assms(2,3)
proof (induction n arbitrary: ps r)
  case (Suc n)
  show ?case
  proof (cases ps)
    case (Cons p qs)
    obtain r1 reason where r1: "hard_budget_reason S r = (r1, reason)" by (cases "hard_budget_reason S r")
    show ?thesis
    proof (cases reason)
      case None
      show ?thesis
      proof (cases "visit_prefix S p qs r1")
        case (Inr step)
        note shape = visit_prefix_step [OF Inr]
        have free: "r_nodes r1 < k"
          using budget_check_frame(1,9) [OF r1] assms(1) by (simp add: None reached_def)
        show ?thesis
        proof (cases step)
          case (Pending qs' x)
          then have "depth_first n S qs' x \<noteq> None"
            using shape Suc.IH [of x qs'] Suc.prems free budget_check_frame(1) [OF r1] by simp
          then show ?thesis by (simp add: Cons r1 None Inr Pending)
        qed (simp add: Cons r1 None Inr)
      qed (simp add: Cons r1 None)
    qed (simp add: Cons r1)
  qed simp
qed simp

section \<open>Beam\<close>

lemma remaining_slots_nodes:
  assumes "max_nodes (budget S) = Some k"
  shows "\<exists>x. remaining_slots S r = Some x \<and> 0 \<le> x \<and> x \<le> max 0 (k - r_nodes r)"
  using assms by (auto simp: remaining_slots_def split: option.split)

lemma ensure_candidate_frame:
  assumes "ensure_candidate S p r = Inr r'"
  shows "r_nodes r' = r_nodes r" "r_max_depth r' = r_max_depth r"
  using assms by (auto simp: ensure_candidate_eq)

text \<open>A plan takes no more prefixes than there are slots, and only children of a parent that may have them.\<close>

lemma plan_actions_shape:
  assumes "plan_actions S p as slots ps r = Inr (qs, left, halt, r')"
  shows "(\<exists>bs. qs = ps @ map (\<lambda>a. p @ [a]) bs \<and>
      (case slots of None \<Rightarrow> left = None | Some x \<Rightarrow> left = Some (x - int (length bs)) \<and> (0 \<le> x \<longrightarrow> int (length bs) \<le> x))) \<and>
    r_nodes r' = r_nodes r \<and> r_max_depth r' = r_max_depth r"
  using assms
proof (induction as arbitrary: slots ps r)
  case Nil
  then show ?case by (auto intro!: exI [of _ "[]"] split: option.split)
next
  case (Cons a as)
  obtain r1 reason where r1: "hard_budget_reason S r = (r1, reason)" by (cases "hard_budget_reason S r")
  note frame = budget_check_frame(1,2) [OF r1]
  let ?full = "case slots of None \<Rightarrow> False | Some k \<Rightarrow> k \<le> 0"
  show ?case
  proof (cases "reason = None \<and> \<not> ?full")
    case True
    let ?x = "r1\<lparr>r_candidates := with_candidate S (p @ [a]) (r_candidates r1)\<rparr>"
    have "plan_actions S p as (map_option (\<lambda>k. k - 1) slots) (ps @ [p @ [a]]) ?x = Inr (qs, left, halt, r')"
      using Cons.prems True by (simp add: r1 ensure_candidate_eq)
    from Cons.IH [OF this] obtain bs where bs: "qs = (ps @ [p @ [a]]) @ map (\<lambda>a. p @ [a]) bs"
        "case map_option (\<lambda>k. k - 1) slots of None \<Rightarrow> left = None
          | Some x \<Rightarrow> left = Some (x - int (length bs)) \<and> (0 \<le> x \<longrightarrow> int (length bs) \<le> x)"
        "r_nodes r' = r_nodes ?x" "r_max_depth r' = r_max_depth ?x"
      by blast
    show ?thesis
      using bs frame True by (intro conjI exI [of _ "a # bs"]) (auto split: option.splits)
  next
    case False
    then have "qs = ps \<and> left = slots \<and> r' = r1"
      using Cons.prems by (cases reason) (auto simp: r1)
    then show ?thesis using frame by (auto intro!: exI [of _ "[]"] split: option.split)
  qed
qed

lemma plan_layer_shape:
  assumes "plan_layer S obs slots ps few r = Inr (qs, few', halt, r')"
    and "list_all (\<lambda>ob. depth_fits (budget S) (ob_prefix ob)) obs" and "list_all (depth_fits (budget S)) ps"
  shows "list_all (depth_fits (budget S)) qs \<and> r_nodes r' = r_nodes r \<and> r_max_depth r' = r_max_depth r \<and>
    (case slots of None \<Rightarrow> True | Some x \<Rightarrow> 0 \<le> x \<longrightarrow> int (length qs) \<le> int (length ps) + x)"
  using assms
proof (induction obs arbitrary: slots ps few r)
  case (Cons ob obs)
  show ?case
  proof (cases "reached (max_depth (budget S)) (int (length (ob_prefix ob)))")
    case True
    then show ?thesis using Cons by simp
  next
    case False
    obtain as where as: "order_actions (strategy S) (ob_node_id ob) (fr_actions (ob_frontier ob)) = Inr as"
      using Cons.prems(1) False by (auto simp: sbind_eq_Inr)
    obtain qs1 left h r1 where plan: "plan_actions S (ob_prefix ob) as slots ps r = Inr (qs1, left, h, r1)"
      using Cons.prems(1) False as by (auto simp: sbind_eq_Inr)
    obtain bs where bs: "qs1 = ps @ map (\<lambda>a. ob_prefix ob @ [a]) bs"
        "case slots of None \<Rightarrow> left = None | Some x \<Rightarrow> left = Some (x - int (length bs)) \<and> (0 \<le> x \<longrightarrow> int (length bs) \<le> x)"
        "r_nodes r1 = r_nodes r" "r_max_depth r1 = r_max_depth r"
      using plan_actions_shape [OF plan] by blast
    have fits: "list_all (depth_fits (budget S)) qs1"
      using Cons.prems(3) False by (auto simp: bs(1) list_all_iff depth_fits_def reached_def split: option.splits)
    show ?thesis
    proof (cases h)
      case None
      then have "plan_layer S obs left qs1 few r1 = Inr (qs, few', halt, r')"
        using Cons.prems(1) False by (simp add: as plan)
      from Cons.IH [OF this _ fits] Cons.prems(2) show ?thesis
        using bs by (auto split: option.splits)
    next
      case (Some t)
      then have "qs = qs1 \<and> r' = r1" using Cons.prems(1) False by (simp add: as plan)
      then show ?thesis using bs fits by (auto split: option.splits)
    qed
  qed
qed (auto split: option.split)

lemma replay_each_counts:
  "replay_each S ps r = Inr (r', obs) \<Longrightarrow> r_nodes r' = r_nodes r + int (length ps) \<and> length obs = length ps \<and>
    list_all2 (\<lambda>p ob. case ob of None \<Rightarrow> True | Some ob \<Rightarrow> ob_prefix ob = p) ps obs \<and>
    (\<forall>d. r_max_depth r \<le> d \<longrightarrow> list_all (\<lambda>p. int (length p) \<le> d) ps \<longrightarrow> r_max_depth r' \<le> d)"
proof (induction ps arbitrary: r obs)
  case (Cons p ps)
  obtain r1 ob obs1 where step: "replay_prefix S p r = Inr (r1, ob)" "replay_each S ps r1 = Inr (r', obs1)" "obs = ob # obs1"
    using Cons.prems by (auto simp: sbind_eq_Inr)
  show ?case
    using Cons.IH [OF step(2)] replay_prefix_counts(1,2,7) [OF step(1)] by (auto simp: step(3))
qed simp

lemma note_depths_frame:
  "r_nodes (note_depths ps r) = r_nodes r" "r_cache (note_depths ps r) = r_cache r"
  "r_max_depth r \<le> d \<Longrightarrow> list_all (\<lambda>p. int (length p) \<le> d) ps \<Longrightarrow> r_max_depth (note_depths ps r) \<le> d"
  by (induction ps arbitrary: r) auto

lemma commit_each_counts:
  "commit_each S outcomes ps r = Inr (r', obs) \<Longrightarrow> r_nodes r' = r_nodes r + int (length ps) \<and>
    list_all2 (\<lambda>p ob. case ob of None \<Rightarrow> True | Some ob \<Rightarrow> ob_prefix ob = p) ps obs \<and> r_max_depth r' = r_max_depth r"
proof (induction ps arbitrary: r obs)
  case (Cons p ps)
  show ?case
  proof (cases "the (map_of outcomes (path_key p))")
    case (Inl x)
    then obtain r1 obs1 where step: "record_failure S p x r = Inr r1" "commit_each S outcomes ps r1 = Inr (r', obs1)"
        "obs = None # obs1"
      using Cons.prems by (auto simp: sbind_eq_Inr)
    show ?thesis
      using Cons.IH [OF step(2)] record_failure_effect(1,8) [OF step(1)] by (simp add: step(3))
  next
    case (Inr f)
    then obtain r1 ob obs1 hit where step: "commit_frontier S p f hit r = Inr (r1, ob)"
        "commit_each S outcomes ps r1 = Inr (r', obs1)" "obs = Some ob # obs1"
      using Cons.prems by (auto simp: sbind_eq_Inr simp del: not_None_eq)
    show ?thesis
      using Cons.IH [OF step(2)] commit_frontier_effect(1,8,15) [OF step(1)] by (simp add: step(3))
  qed
qed simp

lemma replay_prefixes_counts:
  assumes "replay_prefixes S ps r = Inr (r', obs)"
  shows "r_nodes r' = r_nodes r + int (length ps)"
    and "list_all2 (\<lambda>p ob. case ob of None \<Rightarrow> True | Some ob \<Rightarrow> ob_prefix ob = p) ps obs"
    and "r_max_depth r \<le> d \<Longrightarrow> list_all (\<lambda>p. int (length p) \<le> d) ps \<Longrightarrow> r_max_depth r' \<le> d"
proof -
  have "r_nodes r' = r_nodes r + int (length ps) \<and>
    list_all2 (\<lambda>p ob. case ob of None \<Rightarrow> True | Some ob \<Rightarrow> ob_prefix ob = p) ps obs \<and>
    (r_max_depth r \<le> d \<longrightarrow> list_all (\<lambda>p. int (length p) \<le> d) ps \<longrightarrow> r_max_depth r' \<le> d)"
  proof (cases "(case pool S of None \<Rightarrow> True | Some k \<Rightarrow> k \<le> 1) \<or> length ps \<le> 1")
    case True
    then show ?thesis using assms replay_each_counts [of S ps r r' obs] by (simp add: replay_prefixes_def)
  next
    case False
    then have "commit_each S (pool_outcomes S (r_cache (note_depths ps r)) ps) ps
        (note_depths ps r\<lparr>r_candidates := with_candidates S ps (r_candidates (note_depths ps r))\<rparr>) = Inr (r', obs)"
      using assms by (simp add: replay_prefixes_def raising_Inr ensure_candidates_eq del: not_less)
    from commit_each_counts [OF this] show ?thesis using note_depths_frame by simp
  qed
  then show "r_nodes r' = r_nodes r + int (length ps)"
    and "list_all2 (\<lambda>p ob. case ob of None \<Rightarrow> True | Some ob \<Rightarrow> ob_prefix ob = p) ps obs"
    and "r_max_depth r \<le> d \<Longrightarrow> list_all (\<lambda>p. int (length p) \<le> d) ps \<Longrightarrow> r_max_depth r' \<le> d"
    by blast+
qed

lemma prune_frame:
  "r_nodes (prune_children chosen records r) = r_nodes r"
  "r_max_depth (prune_children chosen records r) = r_max_depth r"
  unfolding prune_children_def
  by (induction records arbitrary: r) (auto simp: mark_key_def split: option.split)

lemma close_frame:
  assumes "close_layer width obs halt c r = (chosen, r')"
  shows "r_nodes r' = r_nodes r" "r_max_depth r' = r_max_depth r" "set chosen \<subseteq> set (bc_nodes c)"
    "bc_nodes c = [] \<Longrightarrow> chosen = []"
proof -
  obtain ps records us t where r': "r' = (prune_children ps records (halt_run halt r))\<lparr>r_updates := us, r_termination := t\<rparr>"
    using close_layer_shape [of width obs halt c r] assms by auto
  show "r_nodes r' = r_nodes r" "r_max_depth r' = r_max_depth r"
    by (auto simp: r' prune_frame halt_run_def split: option.split)
  have "chosen = take width (sort_key beam_sort_key (bc_nodes c)) \<or> chosen = []"
    using assms by (auto simp: close_layer_def Let_def split: if_split_asm)
  then show "set chosen \<subseteq> set (bc_nodes c)" "bc_nodes c = [] \<Longrightarrow> chosen = []"
    using set_take_subset [of width "sort_key beam_sort_key (bc_nodes c)"] by auto
qed

lemma collect_children_nodes:
  assumes "collect_children S goal xs c = Inr c'"
    and "list_all (\<lambda>(p, ob). case ob of None \<Rightarrow> True | Some ob \<Rightarrow> ob_prefix ob = p) xs"
  shows "list_all (\<lambda>ob. ob_prefix ob \<in> ob_prefix ` set (bc_nodes c) \<union> fst ` set xs) (bc_nodes c')"
    and "xs = [] \<Longrightarrow> bc_nodes c' = bc_nodes c"
  using assms
  by (induction S goal xs c rule: collect_children.induct)
    (fastforce simp: Let_def sbind_eq_Inr list_all_iff split: if_split_asm)+

text \<open>One layer replays its plan; the layer after it is empty when there was nothing to replay.\<close>

lemma beam_layer_shape:
  assumes layer: "beam_layer S width obs r = Inr (chosen, r')" and ok: "in_limits (budget S) r"
    and fits: "list_all (\<lambda>ob. depth_fits (budget S) (ob_prefix ob)) obs"
  shows "in_limits (budget S) r'" and "list_all (\<lambda>ob. depth_fits (budget S) (ob_prefix ob)) chosen"
    and "r_nodes r \<le> r_nodes r'" and "chosen = [] \<or> r_nodes r < r_nodes r'"
proof -
  obtain children few halt r1 r2 seen c where plan: "plan_layer S obs (remaining_slots S r) [] False r = Inr (children, few, halt, r1)"
    and replayed: "replay_prefixes S children r1 = Inr (r2, seen)"
    and collected: "collect_children S (r_termination r2 = GOAL_REACHED) (zip children seen)
      \<lparr>bc_nodes = [], bc_records = [], bc_limited = few, bc_goal = False\<rparr> = Inr c"
    and closed: "close_layer width obs halt c r2 = (chosen, r')"
    using beam_layer_Inr [OF layer] by blast
  have planned: "list_all (depth_fits (budget S)) children" "r_nodes r1 = r_nodes r" "r_max_depth r1 = r_max_depth r"
      "case remaining_slots S r of None \<Rightarrow> True | Some x \<Rightarrow> 0 \<le> x \<longrightarrow> int (length children) \<le> x"
    using plan_layer_shape [OF plan fits] by (auto split: option.splits)
  note counts = replay_prefixes_counts [OF replayed]
  note frame = close_frame [OF closed]
  show "in_limits (budget S) r'"
    unfolding in_limits_def
  proof (intro conjI)
    show "case max_nodes (budget S) of None \<Rightarrow> True | Some k \<Rightarrow> r_nodes r' \<le> k"
    proof (cases "max_nodes (budget S)")
      case (Some k)
      obtain x where "remaining_slots S r = Some x" "0 \<le> x" "x \<le> max 0 (k - r_nodes r)"
        using remaining_slots_nodes [OF Some] by blast
      then show ?thesis
        using planned ok counts(1) frame(1) by (simp add: Some in_limits_def)
    qed simp
    show "case max_depth (budget S) of None \<Rightarrow> True | Some d \<Rightarrow> r_max_depth r' \<le> d"
    proof (cases "max_depth (budget S)")
      case (Some d)
      have "list_all (\<lambda>p. int (length p) \<le> d) children"
        using planned(1) by (auto simp: list_all_iff depth_fits_def Some)
      then show ?thesis using counts(3) [of d] planned(3) ok frame(2) by (simp add: Some in_limits_def)
    qed simp
  qed
  have zipped: "list_all (\<lambda>(p, ob). case ob of None \<Rightarrow> True | Some ob \<Rightarrow> ob_prefix ob = p) (zip children seen)"
    using counts(2) by (auto simp: list_all_iff list_all2_iff)
  have nodes: "ob_prefix ob \<in> set children" if "ob \<in> set (bc_nodes c)" for ob
  proof -
    have "fst ` set (zip children seen) \<subseteq> set children" by (auto dest: set_zip_leftD)
    then show ?thesis using collect_children_nodes(1) [OF collected zipped] that by (auto simp: list_all_iff)
  qed
  then show "list_all (\<lambda>ob. depth_fits (budget S) (ob_prefix ob)) chosen"
    using frame(3) planned(1) by (auto simp: list_all_iff)
  show "r_nodes r \<le> r_nodes r'" using planned(2) counts(1) frame(1) by simp
  show "chosen = [] \<or> r_nodes r < r_nodes r'"
    using frame(1,4) planned(2) counts(1) collect_children_nodes(2) [OF collected zipped] by (cases children) auto
qed

lemma beam_layers_in_limits:
  "in_limits (budget S) r \<Longrightarrow> list_all (\<lambda>ob. depth_fits (budget S) (ob_prefix ob)) obs \<Longrightarrow>
    beam_layers n S width obs r = Some (Inr r') \<Longrightarrow> in_limits (budget S) r'"
proof (induction n arbitrary: obs r)
  case 0
  then show ?case by (cases obs) simp_all
next
  case (Suc n)
  show ?case
  proof (cases obs)
    case (Cons ob rest)
    show ?thesis
    proof (cases "r_termination r = GOAL_REACHED")
      case False
      then obtain chosen r1 where layer: "beam_layer S width (ob # rest) r = Inr (chosen, r1)"
        using Suc.prems(3) by (cases "beam_layer S width (ob # rest) r") (auto simp: Cons)
      note shape = beam_layer_shape [OF layer Suc.prems(1) Suc.prems(2) [unfolded Cons]]
      show ?thesis
        using Suc.prems(3) Suc.IH [OF shape(1,2)] False by (simp add: Cons layer)
    qed (use Suc.prems in \<open>simp add: Cons\<close>)
  qed (use Suc.prems in simp)
qed

lemma beam_layers_return:
  assumes "max_nodes (budget S) = Some k" and "in_limits (budget S) r"
    and "list_all (\<lambda>ob. depth_fits (budget S) (ob_prefix ob)) obs" and "k - r_nodes r < int n"
  shows "beam_layers n S width obs r \<noteq> None"
  using assms(2-4)
proof (induction n arbitrary: obs r)
  case 0
  then show ?case using assms(1) by (simp add: in_limits_def)
next
  case (Suc n)
  show ?case
  proof (cases obs)
    case (Cons ob rest)
    show ?thesis
    proof (cases "beam_layer S width (ob # rest) r")
      case (Inr res)
      obtain chosen r1 where res: "res = (chosen, r1)" by (cases res)
      note shape = beam_layer_shape [OF Inr [unfolded res] Suc.prems(1) Suc.prems(2) [unfolded Cons]]
      have "beam_layers n S width chosen r1 \<noteq> None"
      proof (cases "chosen = []")
        case False
        then show ?thesis using Suc.IH [OF shape(1,2)] shape(4) Suc.prems(3) by simp
      qed simp
      then show ?thesis by (simp add: Cons Inr res)
    qed (simp add: Cons)
  qed simp
qed

section \<open>Runs\<close>

definition budget_ok :: "search_budget \<Rightarrow> bool" where
  "budget_ok b \<longleftrightarrow> (case max_nodes b of None \<Rightarrow> True | Some k \<Rightarrow> 1 \<le> k) \<and>
     (case max_depth b of None \<Rightarrow> True | Some d \<Rightarrow> 1 \<le> d)"

lemma valid_budget_ok: "budget_valid b \<Longrightarrow> budget_ok b"
  by (auto simp: budget_valid_def budget_ok_def positive_limit_def split: option.splits)

lemma root_in_limits:
  assumes "budget_ok (budget S)" and "hard_budget_reason S (new_runtime S) = (r1, None)"
    and "replay_prefix S [] r1 = Inr (r2, node)"
  shows "in_limits (budget S) r2" and "r_nodes r2 = 1"
    and "case node of None \<Rightarrow> True | Some ob \<Rightarrow> depth_fits (budget S) (ob_prefix ob)"
proof -
  note frame = budget_check_frame(1,2) [OF assms(2)]
  note counts = replay_prefix_counts(1,2,7) [OF assms(3)]
  show "in_limits (budget S) r2" "r_nodes r2 = 1"
    using assms(1) frame counts by (auto simp: in_limits_def new_runtime_def budget_ok_def split: option.splits)
  show "case node of None \<Rightarrow> True | Some ob \<Rightarrow> depth_fits (budget S) (ob_prefix ob)"
    using counts(3) assms(1) by (auto simp: depth_fits_def budget_ok_def split: option.splits)
qed

lemma new_in_limits: "budget_ok (budget S) \<Longrightarrow> in_limits (budget S) (new_runtime S)"
  by (auto simp: in_limits_def new_runtime_def budget_ok_def split: option.splits)

lemma run_beam_cases:
  assumes "run_beam n S r0 = Some (Inr r)"
  obtains (stopped) r1 t where "hard_budget_reason S r0 = (r1, Some t)" "r = r1\<lparr>r_termination := t\<rparr>"
  | (failed) r1 where "hard_budget_reason S r0 = (r1, None)" "replay_prefix S [] r1 = Inr (r, None)"
  | (layers) r1 r2 start width where "hard_budget_reason S r0 = (r1, None)"
      "replay_prefix S [] r1 = Inr (r2, Some start)"
      "beam_layers n S width (if ob_duplicate start then [] else [start]) r2 = Some (Inr r)"
proof -
  obtain w where "dict_get (parameters (strategy S)) ''beam_width'' = PInt w" and "\<not> w < 1"
    using assms unfolding run_beam_def
    by (cases "dict_get (parameters (strategy S)) ''beam_width''") (auto split: if_split_asm)
  then have beam: "(case hard_budget_reason S r0 of
             (r, Some reason) \<Rightarrow> Some (Inr (r\<lparr>r_termination := reason\<rparr>))
           | (r, None) \<Rightarrow>
               (case replay_prefix S [] r of
                  Inl err \<Rightarrow> Some (Inl err)
                | Inr (r, None) \<Rightarrow> Some (Inr r)
                | Inr (r, Some start) \<Rightarrow>
                    beam_layers n S (nat w) (if ob_duplicate start then [] else [start]) r)) = Some (Inr r)"
    using assms unfolding run_beam_def by simp
  obtain r1 reason where r1: "hard_budget_reason S r0 = (r1, reason)" by (cases "hard_budget_reason S r0")
  show thesis
  proof (cases reason)
    case (Some t)
    then show thesis using stopped r1 beam by simp
  next
    case None
    show thesis
    proof (cases "replay_prefix S [] r1")
      case (Inr res)
      obtain r2 node where res: "res = (r2, node)" by (cases res)
      show thesis
        using failed layers r1 beam by (cases node) (auto simp: None Inr res)
    qed (use beam in \<open>simp add: r1 None\<close>)
  qed
qed

lemma run_in_limits:
  assumes "budget_ok (budget S)" and "run_search n S = Some (Inr r)"
  shows "in_limits (budget S) r"
proof (cases "execution_mode (strategy S) = ''depth_first''")
  case True
  then have "depth_first n S [[]] (new_runtime S) = Some (Inr r)"
    using assms(2) by (simp add: run_search_def split: if_split_asm)
  then show ?thesis
    by (rule depth_first_within [OF _ new_in_limits [OF assms(1)]])
      (use assms(1) in \<open>auto simp: depth_fits_def budget_ok_def split: option.splits\<close>)
next
  case False
  then have "run_beam n S (new_runtime S) = Some (Inr r)"
    using assms(2) by (simp add: run_search_def split: if_split_asm)
  then show ?thesis
  proof (cases rule: run_beam_cases)
    case (stopped r1 t)
    then show ?thesis
      using new_in_limits [OF assms(1)] in_limits_same [of r "new_runtime S"] budget_check_frame(1,2) [OF stopped(1)] by simp
  next
    case (failed r1)
    then show ?thesis using root_in_limits(1) [OF assms(1)] by blast
  next
    case (layers r1 r2 start width)
    show ?thesis
      by (rule beam_layers_in_limits [OF root_in_limits(1) [OF assms(1) layers(1,2)] _ layers(3)])
        (use root_in_limits(3) [OF assms(1) layers(1,2)] in simp)
  qed
qed

lemma run_returns:
  assumes "budget_ok (budget S)" and "max_nodes (budget S) = Some k" and "execution_mode (strategy S) \<noteq> ''mcts''"
  shows "run_search (Suc (nat k)) S \<noteq> None"
proof (cases "execution_mode (strategy S) = ''depth_first''")
  case True
  have "depth_first (Suc (nat k)) S [[]] (new_runtime S) \<noteq> None"
    by (rule depth_first_returns [OF assms(2)]) (use assms in \<open>auto simp: new_runtime_def budget_ok_def\<close>)
  then show ?thesis using True by (simp add: run_search_def)
next
  case False
  have "run_beam (Suc (nat k)) S (new_runtime S) \<noteq> None"
  proof -
    obtain r1 reason where r1: "hard_budget_reason S (new_runtime S) = (r1, reason)"
      by (cases "hard_budget_reason S (new_runtime S)")
    have "beam_layers (Suc (nat k)) S w (if ob_duplicate start then [] else [start]) r2 \<noteq> None"
      if "reason = None" "replay_prefix S [] r1 = Inr (r2, Some start)" for w start r2
    proof -
      note top = root_in_limits [OF assms(1) r1 [unfolded that(1)] that(2)]
      show ?thesis
        by (rule beam_layers_return [OF assms(2) top(1)]) (use top(2,3) in auto)
    qed
    then show ?thesis
      unfolding run_beam_def
      by (cases reason) (auto simp: r1 simp del: beam_layers.simps split: pyval.split sum.split option.split)
  qed
  then show ?thesis using False assms(3) by (simp add: run_search_def)
qed

end
