(* ===== verification/Search_Coverage.thy ===== *)
theory Search_Coverage
  imports Executor_Limits Strategy_Laws
begin

text \<open>
  What an exhausted depth-first run has seen. Equal states are expanded once, so the run does not replay
  every prefix; the invariant says that every replayed prefix has its children tried or waiting, or
  shows the state of one that has.
\<close>

section \<open>The tree of legal prefixes\<close>

inductive legal_prefix :: "search_setup \<Rightarrow> action list \<Rightarrow> bool" for S where
  legal_root: "legal_prefix S []"
| legal_child: "legal_prefix S p \<Longrightarrow> replays S p = Inr f \<Longrightarrow> a \<in> set (fr_actions f) \<Longrightarrow> legal_prefix S (p @ [a])"

text \<open>The adapter replays actions by their identifiers.\<close>

definition replays_by_key :: "search_setup \<Rightarrow> bool" where
  "replays_by_key S \<longleftrightarrow> (\<forall>p q. path_key p = path_key q \<longrightarrow> replays S p = replays S q)"

text \<open>Every frontier has an exact state, and an exact state decides how the duel goes on.\<close>

definition shown_state :: "failed_replay + frontier \<Rightarrow> string option" where
  "shown_state outcome = (case outcome of Inl x \<Rightarrow> None | Inr f \<Rightarrow> Some (fr_state_id f))"

definition states_decide :: "search_setup \<Rightarrow> bool" where
  "states_decide S \<longleftrightarrow> (\<forall>p f. replays S p = Inr f \<longrightarrow> fr_completeness f = ''exact'') \<and>
     (\<forall>p q f g a. replays S p = Inr f \<longrightarrow> replays S q = Inr g \<longrightarrow> fr_state_id f = fr_state_id g \<longrightarrow>
        a \<in> set (fr_actions f) \<longrightarrow>
        (\<exists>b\<in>set (fr_actions g). shown_state (replays S (q @ [b])) = shown_state (replays S (p @ [a]))))"

section \<open>The invariant of the loop\<close>

definition coherent :: "search_setup \<Rightarrow> search_runtime \<Rightarrow> bool" where
  "coherent S r \<longleftrightarrow>
    (\<forall>p f. map_of (r_cache r) (path_key p) = Some f \<longrightarrow> replays S p = Inr f) \<and>
    (\<forall>p x. map_of (r_prefetched r) (path_key p) = Some x \<longrightarrow> replays S p = x) \<and>
    (\<forall>d\<in>set (r_path_failures r). \<forall>p. record_key d = path_key p \<longrightarrow> (\<exists>x. replays S p = Inl x))"

definition tried :: "search_runtime \<Rightarrow> action_path set" where
  "tried r = dom (map_of (r_cache r)) \<union> record_key ` set (r_path_failures r)"

definition expanded_in :: "action_path set \<Rightarrow> action_path \<Rightarrow> frontier \<Rightarrow> bool" where
  "expanded_in T k f \<longleftrightarrow> (\<forall>a\<in>set (fr_actions f). k @ [action_id a] \<in> T)"

definition state_expanded :: "action_path set \<Rightarrow> search_runtime \<Rightarrow> string \<Rightarrow> bool" where
  "state_expanded T r s \<longleftrightarrow> (\<exists>k f. map_of (r_cache r) k = Some f \<and> fr_completeness f = ''exact'' \<and>
     fr_state_id f = s \<and> expanded_in T k f)"

definition closed_in :: "action_path set \<Rightarrow> search_runtime \<Rightarrow> bool" where
  "closed_in T r \<longleftrightarrow>
    (\<forall>k f. map_of (r_cache r) k = Some f \<longrightarrow>
       expanded_in T k f \<or> fr_completeness f = ''exact'' \<and> state_expanded T r (fr_state_id f)) \<and>
    (\<forall>s\<in>set (r_seen r). state_expanded T r s)"

definition rooted :: "search_setup \<Rightarrow> action list list \<Rightarrow> search_runtime \<Rightarrow> bool" where
  "rooted S ps r \<longleftrightarrow> list_all (legal_prefix S) ps \<and> [] \<in> tried r \<union> path_key ` set ps \<and>
     (\<forall>k\<in>dom (map_of (r_cache r)). \<exists>q. legal_prefix S q \<and> path_key q = k)"

definition covering :: "search_setup \<Rightarrow> action list list \<Rightarrow> search_runtime \<Rightarrow> bool" where
  "covering S ps r \<longleftrightarrow> coherent S r \<and> rooted S ps r \<and>
     (r_termination r = EXHAUSTED \<longrightarrow> closed_in (tried r \<union> path_key ` set ps) r)"

section \<open>Its parts\<close>

lemma path_key_simps [simp]: "path_key [] = []" "path_key (p @ [a]) = path_key p @ [action_id a]"
  by (simp_all add: path_key_def)

lemma failure_key [simp]: "record_key (path_failure p x) = path_key p"
  by (simp add: record_key_def path_failure_def comp_def)

lemma coherent_outcome: "coherent S r \<Longrightarrow> outcome_of S p r = replays S p"
  by (auto simp: coherent_def outcome_of_def split: option.split)

lemma expanded_mono: "expanded_in T k f \<Longrightarrow> T \<subseteq> T' \<Longrightarrow> expanded_in T' k f"
  by (auto simp: expanded_in_def)

lemma state_expanded_mono:
  "state_expanded T r s \<Longrightarrow> T \<subseteq> T' \<Longrightarrow> map_of (r_cache r) \<subseteq>\<^sub>m map_of (r_cache r') \<Longrightarrow> state_expanded T' r' s"
  unfolding state_expanded_def map_le_def by (metis domI expanded_mono)

lemma same_books:
  assumes "r_cache r' = r_cache r" "r_path_failures r' = r_path_failures r" "r_seen r' = r_seen r"
  shows "tried r' = tried r" "rooted S ps r' = rooted S ps r" "closed_in T r' = closed_in T r"
  by (simp_all add: assms tried_def rooted_def closed_in_def state_expanded_def)

lemma coherent_started: "coherent S r \<Longrightarrow> coherent S (started_replay p r)"
  by (auto simp: coherent_def started_replay_def Let_def delete_conv' split: if_split_asm)

lemma coherentI:
  assumes "\<And>p f. map_of (r_cache r) (path_key p) = Some f \<Longrightarrow> replays S p = Inr f"
    and "\<And>p x. map_of (r_prefetched r) (path_key p) = Some x \<Longrightarrow> replays S p = x"
    and "\<And>d p. d \<in> set (r_path_failures r) \<Longrightarrow> record_key d = path_key p \<Longrightarrow> \<exists>x. replays S p = Inl x"
  shows "coherent S r"
  unfolding coherent_def using assms by blast

lemma coherentD:
  assumes "coherent S r"
  shows "map_of (r_cache r) (path_key p) = Some f \<Longrightarrow> replays S p = Inr f"
    and "map_of (r_prefetched r) (path_key p) = Some x \<Longrightarrow> replays S p = x"
    and "d \<in> set (r_path_failures r) \<Longrightarrow> record_key d = path_key p \<Longrightarrow> \<exists>x. replays S p = Inl x"
  using assms unfolding coherent_def by blast+

lemma by_key: "replays_by_key S \<Longrightarrow> path_key p = path_key q \<Longrightarrow> replays S p = replays S q"
  unfolding replays_by_key_def by blast

lemma coherent_failure:
  assumes "coherent S r" and "record_failure S p x r = Inr r'" and "replays S p = Inl x" and "replays_by_key S"
  shows "coherent S r'"
proof -
  note effect = record_failure_effect(3,7,10) [OF assms(2)]
  show ?thesis
  proof (rule coherentI)
    fix d q assume "d \<in> set (r_path_failures r')" and key: "record_key d = path_key q"
    then consider "d \<in> set (r_path_failures r)" | "d = path_failure p x" by (auto simp: effect(2))
    then show "\<exists>x. replays S q = Inl x"
    proof cases
      case 2
      then have "path_key p = path_key q" using key by simp
      then show ?thesis using by_key [OF assms(4)] assms(3) by metis
    qed (use coherentD(3) [OF assms(1)] key in blast)
  qed (use coherentD(1,2) [OF assms(1)] in \<open>simp_all only: effect\<close>)
qed

lemma coherent_commit:
  assumes "coherent S r" and "commit_frontier S p f hit r = Inr (r', ob)" and "replays S p = Inr f" and "replays_by_key S"
  shows "coherent S r'"
proof -
  note effect = commit_frontier_effect(3,7,10) [OF assms(2)]
  show ?thesis
  proof (rule coherentI)
    fix q g assume found: "map_of (r_cache r') (path_key q) = Some g"
    show "replays S q = Inr g"
    proof (cases "hit \<or> path_key q \<noteq> path_key p")
      case True
      then have "map_of (r_cache r) (path_key q) = Some g"
        using found by (auto simp: effect(1) update_conv' split: if_split_asm)
      then show ?thesis by (rule coherentD(1) [OF assms(1)])
    next
      case False
      then have "g = f" using found by (simp add: effect(1) update_conv')
      then show ?thesis using by_key [OF assms(4)] assms(3) False by metis
    qed
  qed (use coherentD(2,3) [OF assms(1)] in \<open>simp_all only: effect\<close>)
qed

lemma coherent_prefetch:
  assumes "coherent S r" and "prefetch S ps r = Inr r'" and "replays_by_key S"
  shows "coherent S r'"
proof -
  have stored: "\<forall>p x. map_of (foldl (\<lambda>m p. AList.update (path_key p) (replays S p) m) m ds) (path_key p) = Some x \<longrightarrow>
      replays S p = x" if "\<forall>p x. map_of m (path_key p) = Some x \<longrightarrow> replays S p = x" for m ds
    using that
  proof (induction ds arbitrary: m)
    case (Cons q ds)
    have "\<forall>p x. map_of (AList.update (path_key q) (replays S q) m) (path_key p) = Some x \<longrightarrow> replays S p = x"
    proof (intro allI impI)
      fix p x assume found: "map_of (AList.update (path_key q) (replays S q) m) (path_key p) = Some x"
      show "replays S p = x"
      proof (cases "path_key p = path_key q")
        case True
        then have "x = replays S q" using found by (simp add: update_conv')
        then show ?thesis using by_key [OF assms(3) True] by (simp only:)
      next
        case False
        then have "map_of m (path_key p) = Some x" using found by (simp add: update_conv')
        then show ?thesis using Cons.prems by blast
      qed
    qed
    from Cons.IH [OF this] show ?case unfolding foldl_Cons .
  qed simp
  have was: "\<forall>p x. map_of (r_prefetched r) (path_key p) = Some x \<longrightarrow> replays S p = x"
    using coherentD(2) [OF assms(1)] by (intro allI impI)
  have "r_prefetched r' = r_prefetched r \<or> (\<exists>ds. r_prefetched r' =
      foldl (\<lambda>m p. AList.update (path_key p) (replays S p) m) (r_prefetched r) ds)"
    using assms(2) unfolding prefetch_eq Let_def store_outcomes_def by (auto split: if_split_asm)
  then have pre: "\<forall>p x. map_of (r_prefetched r') (path_key p) = Some x \<longrightarrow> replays S p = x"
  proof (elim disjE exE)
    fix ds assume "r_prefetched r' = foldl (\<lambda>m p. AList.update (path_key p) (replays S p) m) (r_prefetched r) ds"
    then show ?thesis using stored [OF was] by (simp only:)
  next
    assume "r_prefetched r' = r_prefetched r"
    then show ?thesis using was by (simp only:)
  qed
  show ?thesis
  proof (rule coherentI)
    fix p x assume "map_of (r_prefetched r') (path_key p) = Some x"
    then show "replays S p = x" using pre by blast
  qed (use coherentD(1,3) [OF assms(1)] in \<open>simp_all only: prefetch_frame [OF assms(2)]\<close>)
qed

lemma coherent_same:
  "coherent S r \<Longrightarrow> r_cache r' = r_cache r \<Longrightarrow> r_prefetched r' = r_prefetched r \<Longrightarrow>
    r_path_failures r' = r_path_failures r \<Longrightarrow> coherent S r'"
  by (simp only: coherent_def)

section \<open>Steps\<close>

lemma closed_mono: "closed_in T r \<Longrightarrow> T \<subseteq> T' \<Longrightarrow> closed_in T' r"
  unfolding closed_in_def by (meson expanded_mono map_le_refl state_expanded_mono)

text \<open>A frontier that was expanded, or whose state was, leaves the books closed.\<close>

lemma closed_commit:
  assumes closed: "closed_in T r" and more: "T \<subseteq> T'"
    and cache: "r_cache r' = r_cache r \<or> r_cache r' = AList.update k f (r_cache r)"
    and old: "map_of (r_cache r) k = None \<or> map_of (r_cache r) k = Some f" and present: "map_of (r_cache r') k = Some f"
    and seen: "r_seen r' = r_seen (note_state f r)"
    and settled: "expanded_in T' k f \<or> is_duplicate f r"
  shows "closed_in T' r'"
proof -
  have le: "map_of (r_cache r) \<subseteq>\<^sub>m map_of (r_cache r')"
    using cache old by (auto simp: map_le_def update_conv')
  have states: "state_expanded T' r' s" if "s \<in> set (r_seen r)" for s
    using closed that state_expanded_mono [OF _ more le] by (auto simp: closed_in_def)
  have new: "expanded_in T' k f \<or> fr_completeness f = ''exact'' \<and> state_expanded T' r' (fr_state_id f)"
    using settled states by (auto simp: is_duplicate_def)
  show ?thesis
    unfolding closed_in_def
  proof (intro conjI allI impI ballI)
    fix k' f' assume found: "map_of (r_cache r') k' = Some f'"
    show "expanded_in T' k' f' \<or> fr_completeness f' = ''exact'' \<and> state_expanded T' r' (fr_state_id f')"
    proof (cases "k' = k")
      case True
      then show ?thesis using new present found by simp
    next
      case False
      then have "map_of (r_cache r) k' = Some f'" using found cache by (auto simp: update_conv')
      then have "expanded_in T k' f' \<or> fr_completeness f' = ''exact'' \<and> state_expanded T r (fr_state_id f')"
        using closed by (simp add: closed_in_def)
      then show ?thesis using expanded_mono [OF _ more] state_expanded_mono [OF _ more le] by blast
    qed
  next
    fix s assume s: "s \<in> set (r_seen r')"
    show "state_expanded T' r' s"
    proof (cases "s \<in> set (r_seen r)")
      case False
      then have exact: "fr_completeness f = ''exact''" "fr_state_id f = s" "s \<notin> set (r_seen r)"
        using s by (auto simp: seen note_state_def split: if_split_asm)
      then have "expanded_in T' k f" using settled by (auto simp: is_duplicate_def)
      then show ?thesis using exact present by (auto simp: state_expanded_def)
    qed (rule states)
  qed
qed

lemma failure_covering:
  assumes cover: "covering S (p # ps) r" and fails: "replays S p = Inl x" and key: "replays_by_key S"
    and step: "record_failure S p x (started_replay p r) = Inr r'"
  shows "covering S ps r'"
proof -
  note effect = record_failure_effect(3,5,7,13) [OF step, unfolded started_replay_frame]
  have tried: "tried r' = insert (path_key p) (tried r)" by (simp add: tried_def effect)
  have "coherent S r'"
    using coherent_failure [OF coherent_started step fails key] cover by (simp add: covering_def)
  moreover have "rooted S ps r'"
    using cover unfolding covering_def rooted_def tried effect(1) by auto
  moreover have "closed_in (tried r' \<union> path_key ` set ps) r'" if "r_termination r' = EXHAUSTED"
  proof -
    have "closed_in (tried r \<union> path_key ` set (p # ps)) r"
      using cover that effect(4) unfolding covering_def by simp
    then show ?thesis by (simp add: tried closed_in_def state_expanded_def effect(1,2))
  qed
  ultimately show ?thesis by (simp add: covering_def)
qed

lemma commit_covering:
  assumes cover: "covering S (p # ps) r" and shows_it: "replays S p = Inr f" and key: "replays_by_key S"
    and step: "commit_frontier S p f (cached p r) (started_replay p r) = Inr (r', ob)"
    and cs: "is_duplicate f r \<and> cs = [] \<or> (\<exists>as. cs = map (\<lambda>a. p @ [a]) as \<and> set as = set (fr_actions f))"
  shows "covering S (cs @ ps) r'"
proof -
  note effect = commit_frontier_effect(3,5,7,13) [OF step, unfolded started_replay_frame note_state_seen]
  have coherent: "coherent S r" and rooted: "rooted S (p # ps) r" using cover by (simp_all add: covering_def)
  have old: "map_of (r_cache r) (path_key p) = None \<or> map_of (r_cache r) (path_key p) = Some f"
    using coherentD(1) [OF coherent, of p] shows_it by (cases "map_of (r_cache r) (path_key p)") auto
  have present: "map_of (r_cache r') (path_key p) = Some f"
    using old by (auto simp: effect(1) cached_def update_conv')
  have dom: "dom (map_of (r_cache r')) = insert (path_key p) (dom (map_of (r_cache r)))"
    proof (cases "cached p r")
    case False
    then show ?thesis by (simp add: effect(1) update_conv' dom_fun_upd)
  qed (use old in \<open>auto simp: effect(1) cached_def\<close>)
  have tried: "tried r' = insert (path_key p) (tried r)" by (simp add: tried_def dom effect(3))
  have "coherent S r'" by (rule coherent_commit [OF coherent_started [OF coherent] step shows_it key])
  moreover have "rooted S (cs @ ps) r'"
  proof -
    have legal: "legal_prefix S p" using rooted by (simp add: rooted_def)
    then have "list_all (legal_prefix S) cs"
      using cs legal_child [OF _ shows_it] by (auto simp: list_all_iff)
    then show ?thesis using rooted legal unfolding rooted_def tried dom by auto
  qed
  moreover have "closed_in (tried r' \<union> path_key ` set (cs @ ps)) r'" if "r_termination r' = EXHAUSTED"
  proof (rule closed_commit [where f = f])
    show "closed_in (tried r \<union> path_key ` set (p # ps)) r"
      using cover that effect(4) by (auto simp: covering_def)
    show "tried r \<union> path_key ` set (p # ps) \<subseteq> tried r' \<union> path_key ` set (cs @ ps)" by (auto simp: tried)
    show "r_cache r' = r_cache r \<or> r_cache r' = AList.update (path_key p) f (r_cache r)" by (simp add: effect(1))
    show "expanded_in (tried r' \<union> path_key ` set (cs @ ps)) (path_key p) f \<or> is_duplicate f r"
      using cs by (auto simp: expanded_in_def image_Un image_image)
  qed (use old present effect(2) in simp_all)
  ultimately show ?thesis by (simp add: covering_def)
qed

lemma covering_same:
  assumes "covering S ps r" and "coherent S r'"
    and "r_cache r' = r_cache r" "r_path_failures r' = r_path_failures r" "r_seen r' = r_seen r"
    and "r_termination r' = r_termination r \<or> r_termination r' \<noteq> EXHAUSTED"
  shows "covering S ps r'"
  using assms(1,2,6) same_books [OF assms(3-5)] by (auto simp: covering_def)

lemma covering_expand:
  assumes cover: "covering S (map (\<lambda>a. ob_prefix ob @ [a]) as @ ps) r" and key: "replays_by_key S"
    and fetched: "prefetch S (map (\<lambda>a. ob_prefix ob @ [a]) as) (r\<lparr>r_updates := us\<rparr>) = Inr r1"
  shows "covering S (map (\<lambda>a. ob_prefix ob @ [a]) as @ ps) (r1\<lparr>r_candidates := cs\<rparr>)"
proof -
  note frame = prefetch_frame [OF fetched]
  have "coherent S (r\<lparr>r_updates := us\<rparr>)"
    using cover coherent_same [of S r "r\<lparr>r_updates := us\<rparr>"] by (simp add: covering_def)
  from coherent_prefetch [OF this fetched key] have "coherent S (r1\<lparr>r_candidates := cs\<rparr>)"
    by (rule coherent_same) simp_all
  then show ?thesis by (rule covering_same [OF cover]) (simp_all add: frame)
qed

lemma ordered_set: "order_actions st n as = Inr bs \<Longrightarrow> set bs = set as"
  unfolding order_actions_Inr by auto

lemma seen_covering:
  assumes cover: "covering S (p # ps) r" and key: "replays_by_key S" and seen: "replay_prefix S p r = Inr (r1, Some ob)"
  shows "replays S p = Inr (ob_frontier ob)" and "ob_prefix ob = p"
    and "ob_duplicate ob \<Longrightarrow> covering S ps r1"
    and "set as = set (fr_actions (ob_frontier ob)) \<Longrightarrow> covering S (map (\<lambda>a. p @ [a]) as @ ps) r1"
proof -
  have outcome: "outcome_of S p r = replays S p" using cover by (simp add: covering_def coherent_outcome)
  obtain f where f: "replays S p = Inr f"
    using replay_prefix_failed(3) [OF seen] outcome by (cases "replays S p") auto
  then have step: "commit_frontier S p f (cached p r) (started_replay p r) = Inr (r1, ob)"
    using replay_prefix_shown [OF seen] outcome by simp
  note fields = commit_frontier_effect(15-17) [OF step, unfolded note_state_seen(3)]
  note covers = commit_covering [OF cover f key step]
  show "replays S p = Inr (ob_frontier ob)" "ob_prefix ob = p" using f fields by simp_all
  show "covering S ps r1" if "ob_duplicate ob" using covers [of "[]"] that fields(3) by simp
  show "covering S (map (\<lambda>a. p @ [a]) as @ ps) r1" if "set as = set (fr_actions (ob_frontier ob))"
    by (rule covers) (use that fields(2) in blast)
qed

lemma visit_covering:
  assumes cover: "covering S (p # ps) r" and key: "replays_by_key S" and visit: "visit_prefix S p ps r = Inr step"
  shows "case step of Finished r' \<Rightarrow> r_termination r' = GOAL_REACHED | Pending qs r' \<Rightarrow> covering S qs r'"
  using visit
proof (cases rule: visit_prefix_Inr)
  case (failed r1)
  have outcome: "outcome_of S p r = replays S p" using cover by (simp add: covering_def coherent_outcome)
  then obtain x where x: "replays S p = Inl x"
    using replay_prefix_shown [OF failed(1)] by (cases "replays S p") auto
  show ?thesis
    using failure_covering [OF cover x key replay_prefix_failed(1) [OF failed(1)]] outcome x by (simp add: failed(2))
next
  case (duplicate r1 ob)
  have "covering S ps r1" by (rule seen_covering(3) [OF cover key duplicate(1,3)])
  then show ?thesis by (simp add: duplicate(4))
next
  case (deep r1 ob)
  have "covering S (map (\<lambda>a. p @ [a]) (fr_actions (ob_frontier ob)) @ ps) r1"
    by (rule seen_covering(4) [OF cover key deep(1) refl])
  then have cover1: "coherent S r1" "rooted S ps r1" by (auto simp: covering_def rooted_def)
  have "coherent S (r1\<lparr>r_termination := MAX_DEPTH\<rparr>)" by (rule coherent_same [OF cover1(1)]) simp_all
  moreover have "rooted S ps (r1\<lparr>r_termination := MAX_DEPTH\<rparr>)"
    using cover1(2) same_books(2) [of "r1\<lparr>r_termination := MAX_DEPTH\<rparr>" r1] by simp
  ultimately show ?thesis by (simp add: deep(4) covering_def)
next
  case (expanded r1 ob)
  note seen = seen_covering [OF cover key expanded(1)]
  obtain as r2 where as: "order_actions (strategy S) (ob_node_id ob) (fr_actions (ob_frontier ob)) = Inr as"
    and fetched: "prefetch S (map (\<lambda>a. ob_prefix ob @ [a]) as) (r1\<lparr>r_updates := r_updates r1 @ [expansion_update ob as]\<rparr>) = Inr r2"
    and step: "step = Pending (map (\<lambda>a. ob_prefix ob @ [a]) as @ ps)
      (r2\<lparr>r_candidates := with_candidates S (rev (map (\<lambda>a. ob_prefix ob @ [a]) as)) (r_candidates r2)\<rparr>)"
    by (rule expand_node_Inr [OF expanded(5)])
  have "covering S (map (\<lambda>a. ob_prefix ob @ [a]) as @ ps) r1"
    using seen(4) [OF ordered_set [OF as]] by (simp only: seen(2))
  from covering_expand [OF this key fetched] show ?thesis by (simp add: step)
qed simp

lemma depth_first_covering:
  assumes "depth_first n S ps r = Some (Inr r')" and "covering S ps r" and "replays_by_key S"
    and "r_termination r' = EXHAUSTED"
  shows "covering S [] r'"
  using assms(1,2)
proof (induction n arbitrary: ps r)
  case 0
  then show ?case by (cases ps) simp_all
next
  case (Suc n)
  show ?case
  proof (cases ps)
    case (Cons p qs)
    obtain r1 reason where r1: "hard_budget_reason S r = (r1, reason)" by (cases "hard_budget_reason S r")
    note frame = budget_check_frame [OF r1]
    have r1_eq: "r1 = r\<lparr>r_ticks := Suc (r_ticks r)\<rparr>" using r1 by (simp add: hard_budget_reason_def Let_def)
    show ?thesis
    proof (cases reason)
      case None
      then obtain step where step: "visit_prefix S p qs r1 = Inr step"
        using Suc.prems(1) by (cases "visit_prefix S p qs r1") (simp_all add: Cons r1)
      have "coherent S r1"
        using Suc.prems(2) coherent_same [of S r r1] by (simp add: covering_def r1_eq)
      then have "covering S (p # qs) r1"
        by (rule covering_same [OF Suc.prems(2) [unfolded Cons]]) (simp_all add: r1_eq)
      note next_step = visit_covering [OF this assms(3) step]
      show ?thesis
        using next_step Suc.prems(1) Suc.IH assms(4) by (cases step) (auto simp: Cons r1 None step)
    next
      case (Some t)
      then have "r_termination r' = t" using Suc.prems(1) by (auto simp: Cons r1)
      then have False
        using r1 assms(4) by (auto simp: Some hard_budget_reason_def Let_def split: if_split_asm)
      then show ?thesis ..
    qed
  qed (use Suc.prems in simp)
qed

lemma start_covering: "covering S [[]] (new_runtime S)"
  by (simp add: covering_def coherent_def rooted_def closed_in_def new_runtime_def tried_def legal_root)

section \<open>What a closed run has seen\<close>

lemma exhausted_closed:
  assumes "run_search n S = Some (Inr r)" and "execution_mode (strategy S) = ''depth_first''"
    and "replays_by_key S" and "r_termination r = EXHAUSTED"
  shows "coherent S r" and "rooted S [] r" and "closed_in (tried r) r"
proof -
  have "depth_first n S [[]] (new_runtime S) = Some (Inr r)"
    using assms(1,2) by (simp add: run_search_def split: if_split_asm)
  from depth_first_covering [OF this start_covering assms(3,4)]
  show "coherent S r" and "rooted S [] r" and "closed_in (tried r) r"
    using assms(4) by (simp_all add: covering_def)
qed

text \<open>A prefix that was tried shows its frontier in the cache.\<close>

lemma tried_shown:
  assumes "coherent S r" and "path_key p \<in> tried r" and "replays S p = Inr f"
  shows "map_of (r_cache r) (path_key p) = Some f"
proof -
  have "path_key p \<notin> record_key ` set (r_path_failures r)"
    using coherentD(3) [OF assms(1)] assms(3) by (metis imageE sum.distinct(1))
  then obtain g where "map_of (r_cache r) (path_key p) = Some g"
    using assms(2) by (auto simp: tried_def)
  then show ?thesis using coherentD(1) [OF assms(1)] assms(3) by fastforce
qed

lemma tried_state_expanded:
  assumes "coherent S r" and "closed_in (tried r) r" and "path_key p \<in> tried r" and "replays S p = Inr f"
    and "fr_completeness f = ''exact''"
  shows "state_expanded (tried r) r (fr_state_id f)"
  using assms(2,5) tried_shown [OF assms(1,3,4)] unfolding closed_in_def state_expanded_def by blast

lemma legal_state_expanded:
  assumes coherent: "coherent S r" and rooted: "rooted S [] r" and closed: "closed_in (tried r) r"
    and decide: "states_decide S" and legal: "legal_prefix S p"
  shows "replays S p = Inr f \<Longrightarrow> state_expanded (tried r) r (fr_state_id f)"
  using legal
proof (induction arbitrary: f rule: legal_prefix.induct)
  case legal_root
  have "path_key [] \<in> tried r" using rooted by (simp add: rooted_def)
  moreover have "fr_completeness f = ''exact''" using decide legal_root by (simp add: states_decide_def)
  ultimately show ?case using tried_state_expanded [OF coherent closed _ legal_root] by simp
next
  case (legal_child p g a)
  from legal_child.IH [OF legal_child.hyps(2)] obtain k h
    where h: "map_of (r_cache r) k = Some h" "fr_state_id h = fr_state_id g" "expanded_in (tried r) k h"
    by (auto simp: state_expanded_def)
  obtain q where q: "path_key q = k" using rooted h(1) by (auto simp: rooted_def)
  then have shown_h: "replays S q = Inr h" using coherentD(1) [OF coherent] h(1) by blast
  obtain b where b: "b \<in> set (fr_actions h)" "shown_state (replays S (q @ [b])) = shown_state (replays S (p @ [a]))"
    using decide legal_child.hyps(2,3) shown_h h(2) unfolding states_decide_def by metis
  obtain f' where f': "replays S (q @ [b]) = Inr f'" "fr_state_id f' = fr_state_id f"
    using b(2) legal_child.prems by (cases "replays S (q @ [b])") (auto simp: shown_state_def)
  have "path_key (q @ [b]) \<in> tried r" using h(3) b(1) q by (simp add: expanded_in_def)
  moreover have "fr_completeness f' = ''exact''" using decide f'(1) by (simp add: states_decide_def)
  ultimately show ?case using tried_state_expanded [OF coherent closed _ f'(1)] f'(2) by simp
qed

text \<open>Everything that was seen is legal.\<close>

lemma cached_legal:
  assumes "coherent S r" and "rooted S [] r" and "map_of (r_cache r) k = Some f"
  shows "\<exists>q. legal_prefix S q \<and> path_key q = k \<and> replays S q = Inr f"
proof -
  obtain q where "legal_prefix S q" "path_key q = k" using assms(2,3) by (auto simp: rooted_def)
  then show ?thesis using coherentD(1) [OF assms(1)] assms(3) by blast
qed

end
