(* ===== verification/Search_Results.thy ===== *)
theory Search_Results
  imports Search_Coverage
begin

text \<open>
  What a run returns: the best route, the coverage certificate, a route whose document has no
  identifier; and a small tree on which the runs can be computed.
\<close>

section \<open>The best route\<close>

lemma best_of_sorted:
  "sort_key f xs = b # rest \<Longrightarrow> b \<in> set xs \<and> list_all (\<lambda>x. f b \<le> f x) xs"
proof -
  assume eq: "sort_key f xs = b # rest"
  then have "sorted (map f (b # rest))" by (metis sorted_sort_key)
  moreover have "set xs = set (b # rest)" using eq by (metis set_sort)
  ultimately show ?thesis by (auto simp: list_all_iff)
qed

text \<open>Which of two routes is better, said in words: success, then the scores, then brevity, then the name.\<close>

definition beats :: "route_summary \<Rightarrow> route_summary \<Rightarrow> bool" where
  "beats q b \<longleftrightarrow>
    (if rs_success q \<noteq> rs_success b then rs_success q
     else if amount (rs_peak q) \<noteq> amount (rs_peak b) then amount (rs_peak q) > amount (rs_peak b)
     else if amount (rs_terminal q) \<noteq> amount (rs_terminal b) then amount (rs_terminal q) > amount (rs_terminal b)
     else if length (rs_action_ids q) \<noteq> length (rs_action_ids b) then length (rs_action_ids q) < length (rs_action_ids b)
     else rs_route_id q < rs_route_id b)"

lemma rank_key_beats: "route_rank_key q < route_rank_key b \<longleftrightarrow> beats q b"
  by (cases "rs_success q"; cases "rs_success b") (auto simp: route_rank_key_def beats_def)

lemma sorted_unbeaten: "sorted_wrt (\<lambda>a b. \<not> beats b a) (sort_key route_rank_key rs)"
proof -
  have "sorted_wrt (\<lambda>a b. route_rank_key a \<le> route_rank_key b) (sort_key route_rank_key rs)"
    using sorted_sort_key [of route_rank_key rs] by (simp only: sorted_map)
  then show ?thesis by (rule sorted_wrt_mono_rel [rotated]) (simp add: rank_key_beats [symmetric])
qed

lemma search_result_fields:
  assumes "search_result_of S r = Inr res"
  shows "res_routes res = sort_key route_rank_key (r_routes r)"
    and "res_best res = (case sort_key route_rank_key (r_routes r) of [] \<Rightarrow> None | b # rest \<Rightarrow> Some b)"
    and "search_evidence r = Inr (res_evidence res)"
    and "coverage_certificate (r_termination r) (execution_mode (strategy S)) (res_evidence res) = Inr (res_coverage res)"
  using assms by (auto simp: search_result_of_def sbind_eq_Inr Let_def)

section \<open>The certificate\<close>

lemma certificate_flag:
  assumes "coverage_certificate t mode evidence = Inr c"
  shows "dict_get c ''frontier_exhausted'' =
    PBool (frontier_exhausted t mode (mappings_of (items (dict_get evidence ''candidates''))))"
  using assms
  by (auto simp: coverage_certificate_def Let_def sbind_eq_Inr canonical_entries_def dict_get_def split: option.splits)

lemma certificate_total: "\<exists>c. coverage_certificate t mode evidence = Inr c"
  using stable_digest_total by (auto simp: coverage_certificate_def Let_def sbind_eq_Inr canonical_entries_def candidate_counts_def)

lemma no_candidates: "\<exists>e. build_search_evidence [] = Inr e"
  using stable_digest_total by (auto simp: build_search_evidence_def Let_def sbind_eq_Inr canonical_entries_def candidate_counts_def)

section \<open>A route without an identifier\<close>

lemma unnamed_document:
  "map_of d ''route_id'' = None \<Longrightarrow> route_randomness_summary d = Inl (ValueError ''route.route_id must be a non-empty string'')"
  by (simp add: route_randomness_summary_def need_string_def dict_get_def value_error_def)

lemma unnamed_make_route:
  "map_of d ''route_id'' = None \<Longrightarrow> make_route i ok peak term ids d p b = Inl (ValueError ''route.route_id must be a non-empty string'')"
  by (simp add: make_route_def unnamed_document)

lemma unnamed_route_id:
  "map_of d ''route_id'' = None \<Longrightarrow> \<exists>i. route_id_of S key d state = Inr i"
  by (simp add: route_id_of_def get_or_def stable_digest_total list_all_iff)

section \<open>A small tree\<close>

text \<open>One action, which leads back to the state it was taken in: the tree is infinite, its states are not.\<close>

definition sample_move :: action where
  "sample_move = \<lparr>a_kind = PASS, a_player = 0, selections = [], a_request_signature = ''req_1'',
     source = None, a_effect_ref = None, action_id = ''a''\<rparr>"

definition sample_frontier :: frontier where
  "sample_frontier = \<lparr>fr_state_id = ''s'', fr_completeness = ''exact'', fr_request = Some [], fr_actions = [sample_move],
     fr_score = \<lparr>amount = 0, shown = PInt 0\<rparr>, fr_peak = \<lparr>amount = 0, shown = PInt 0\<rparr>, fr_success = False,
     fr_legal_stop = False, fr_stop_reason = [], fr_document = None, fr_replays = 1, fr_observation = None\<rparr>"

definition sample_setup :: search_setup where
  "sample_setup = \<lparr>experiment_name = ''e'', strategy = Random_Search 0,
     budget = \<lparr>max_depth = Some 9, max_nodes = Some 9, max_replays = None, max_seconds = ANone,
       stagnation_nodes = None, max_transition_repetitions = None, target_score = ANone, stop_on_success = False\<rparr>,
     replays = \<lambda>p. Inr sample_frontier, search_clock = \<lambda>t. 0, preference = \<lambda>d s. Inr None, pool = None\<rparr>"

lemma digest_named: "json_safe v \<Longrightarrow> \<exists>s. stable_digest v (x # xs) = Inr s \<and> s \<noteq> []"
  using stable_digest_total [of v "x # xs"] by (force simp: stable_digest_def sbind_eq_Inr)

lemma sample_root_id: "\<exists>i. search_node_id ''e'' ''s'' 0 None None = Inr i \<and> i \<noteq> []"
  using digest_named [of "PDict [(''action_id'', PNone), (''depth'', PInt 0), (''experiment_id'', PStr ''e''),
       (''parent_node_id'', PNone), (''state_id'', PStr ''s'')]"]
  by (simp add: search_node_id_def need_string_def opt_str_def)

lemma sample_child_id: "i \<noteq> [] \<Longrightarrow> \<exists>j. search_node_id ''e'' ''s'' 1 (Some i) (Some ''a'') = Inr j \<and> j \<noteq> []"
  using digest_named [of "PDict [(''action_id'', PStr ''a''), (''depth'', PInt 1), (''experiment_id'', PStr ''e''),
       (''parent_node_id'', PStr i), (''state_id'', PStr ''s'')]"]
  by (simp add: search_node_id_def need_string_def opt_str_def)

lemma sample_order: "i \<noteq> [] \<Longrightarrow> order_actions (Random_Search 0) i [sample_move] = Inr [sample_move]"
  by (simp add: order_actions_Inr strategy_ok_def sample_move_def)

lemma sample_by_key: "replays_by_key sample_setup"
  by (simp add: replays_by_key_def sample_setup_def)

lemma sample_decide: "states_decide sample_setup"
  by (simp add: states_decide_def sample_setup_def sample_frontier_def)

lemma sample_mode: "execution_mode (strategy sample_setup) = ''depth_first''"
  by (simp add: sample_setup_def)

lemma sample_search: "\<exists>r. run_search (Suc (Suc n)) sample_setup = Some (Inr r) \<and> r_termination r = EXHAUSTED \<and> r_nodes r = 2 \<and>
    r_duplicates r = 1 \<and> map fst (r_cache r) = [[], [''a'']]"
proof -
  obtain i where i: "search_node_id ''e'' ''s'' 0 None None = Inr i" "i \<noteq> []" using sample_root_id by blast
  obtain j where j: "search_node_id ''e'' ''s'' 1 (Some i) (Some ''a'') = Inr j" using sample_child_id [OF i(2)] by blast
  obtain p q where p: "search_prefix_id sample_setup [] = Inr p" and q: "search_prefix_id sample_setup [''a''] = Inr q"
    using prefix_id_total by blast
  note order = sample_order [OF i(2)]
  have fields: "experiment_name sample_setup = ''e''" "strategy sample_setup = Random_Search 0"
    "replays sample_setup p = Inr sample_frontier" "search_clock sample_setup t = 0" "pool sample_setup = None"
    "max_depth (budget sample_setup) = Some 9" "max_nodes (budget sample_setup) = Some 9"
    "max_replays (budget sample_setup) = None" "max_seconds (budget sample_setup) = ANone" for p t
    by (simp_all add: sample_setup_def)
  show ?thesis
    by (simp add: run_search_def fields new_runtime_def hard_budget_reason_def reached_def visit_prefix_def
        replay_prefix_eq outcome_of_def cached_def started_replay_def commit_replay_def commit_frontier_def
        record_route_def count_frontier_def is_duplicate_def note_state_def mark_candidate_eq
        expand_node_def prefetch_eq prefetch_window_def ensure_candidates_eq
        sample_frontier_def sample_move_def Let_def path_key_def i j p q order [unfolded sample_move_def])
qed

text \<open>
  Two actions lead to leaves whose replays cost five each, and four replays are allowed: the search ends
  after the first leaf. A pool of two has replayed both.
\<close>

definition sample_leaf :: frontier where
  "sample_leaf = sample_frontier\<lparr>fr_state_id := ''t'', fr_actions := [], fr_replays := 5\<rparr>"

definition fork_frontier :: frontier where
  "fork_frontier = sample_frontier\<lparr>fr_actions := [sample_move, sample_move\<lparr>action_id := ''b''\<rparr>]\<rparr>"

definition fork_setup :: search_setup where
  "fork_setup = sample_setup
    \<lparr>budget := \<lparr>max_depth = None, max_nodes = None, max_replays = Some 4, max_seconds = ANone, stagnation_nodes = None,
       max_transition_repetitions = None, target_score = ANone, stop_on_success = False\<rparr>,
     replays := \<lambda>p. Inr (if p = [] then fork_frontier else sample_leaf)\<rparr>"

lemma fork_by_key: "replays_by_key fork_setup"
  by (auto simp: replays_by_key_def fork_setup_def path_key_def)

lemma fork_order:
  assumes "i \<noteq> []"
  shows "\<exists>u v. order_actions (Random_Search 0) i (fr_actions fork_frontier) =
    Inr [sample_move\<lparr>action_id := [u]\<rparr>, sample_move\<lparr>action_id := [v]\<rparr>] \<and> u \<noteq> v"
proof -
  have a: "sample_move = sample_move\<lparr>action_id := ''a''\<rparr>" by (simp add: sample_move_def)
  have "order_actions (Random_Search 0) i (fr_actions fork_frontier) = Inr (sort_key (rank (Random_Search 0) i)
      [sample_move\<lparr>action_id := ''a''\<rparr>, sample_move\<lparr>action_id := ''b''\<rparr>])"
    using assms a by (simp add: order_actions_Inr strategy_ok_def fork_frontier_def) (simp add: sample_move_def)
  then show ?thesis
    by (cases "rank (Random_Search 0) i (sample_move\<lparr>action_id := ''a''\<rparr>) \<le> rank (Random_Search 0) i (sample_move\<lparr>action_id := ''b''\<rparr>)")
      (auto intro!: exI)
qed

lemma no_order: "i \<noteq> [] \<Longrightarrow> order_actions (Random_Search 0) i [] = Inr []"
  by (simp add: order_actions_Inr)

lemma fork_search:
  assumes "k = None \<or> k = Some 2"
  shows "\<exists>r. run_search 3 (fork_setup\<lparr>pool := k\<rparr>) = Some (Inr r) \<and> r_termination r = MAX_REPLAYS \<and> r_nodes r = 2 \<and>
    length (r_prefetched r) = (if k = None then 0 else 1)"
proof -
  obtain i where i: "search_node_id ''e'' ''s'' 0 None None = Inr i" "i \<noteq> []" using sample_root_id by blast
  obtain u v where order: "order_actions (Random_Search 0) i (fr_actions fork_frontier) =
    Inr [sample_move\<lparr>action_id := [u]\<rparr>, sample_move\<lparr>action_id := [v]\<rparr>]" "u \<noteq> v"
    using fork_order [OF i(2)] by blast
  obtain j where j: "search_node_id ''e'' ''t'' 1 (Some i) (Some [u]) = Inr j" "j \<noteq> []"
    using digest_named [of "PDict [(''action_id'', PStr [u]), (''depth'', PInt 1), (''experiment_id'', PStr ''e''),
       (''parent_node_id'', PStr i), (''state_id'', PStr ''t'')]"] i(2)
    by (force simp: search_node_id_def need_string_def opt_str_def)
  obtain S where S: "S = fork_setup\<lparr>pool := k\<rparr>" by blast
  obtain p q where p: "search_prefix_id S [] = Inr p" and q: "search_prefix_id S [[u]] = Inr q"
    using prefix_id_total by metis
  have fields: "experiment_name S = ''e''" "strategy S = Random_Search 0"
    "replays S p = Inr (if p = [] then fork_frontier else sample_leaf)" "search_clock S t = 0" "pool S = k"
    "max_depth (budget S) = None" "max_nodes (budget S) = None" "max_replays (budget S) = Some 4"
    "max_seconds (budget S) = ANone" for p t
    by (simp_all add: S fork_setup_def sample_setup_def)
  have f: "fr_state_id fork_frontier = ''s''" "fr_completeness fork_frontier = ''exact''" "\<not> fr_legal_stop fork_frontier"
    "fr_document fork_frontier = None" "fr_replays fork_frontier = 1"
    "fr_state_id sample_leaf = ''t''" "fr_completeness sample_leaf = ''exact''" "\<not> fr_legal_stop sample_leaf"
    "fr_document sample_leaf = None" "fr_replays sample_leaf = 5" "fr_actions sample_leaf = []"
    by (simp_all add: fork_frontier_def sample_leaf_def sample_frontier_def)
  have three: "3 = Suc (Suc (Suc 0))" by simp
  show ?thesis
    using assms order(2) unfolding three S [symmetric]
    by (elim disjE; simp add: run_search_def fields f new_runtime_def hard_budget_reason_def reached_def visit_prefix_def
        replay_prefix_eq outcome_of_def cached_def started_replay_def commit_replay_def commit_frontier_def
        record_route_def count_frontier_def is_duplicate_def note_state_def mark_candidate_eq
        expand_node_def prefetch_eq prefetch_window_def ensure_candidates_eq remaining_slots_def dispatched_def store_outcomes_def
        Let_def path_key_def i j p q order(1) no_order [OF j(2)])
qed

end
