(* ===== verification/Parallel_Laws.thy ===== *)
theory Parallel_Laws
  imports Search_Coverage
begin

text \<open>
  A pool of workers replays prefixes ahead of the loop. When an action is replayed by its identifier,
  the run is the one without a pool: the same counters, states, routes, updates and reason to stop, and
  the same candidates, created in another order.
\<close>

definition same_search :: "search_runtime \<Rightarrow> search_runtime \<Rightarrow> bool" where
  "same_search r r' \<longleftrightarrow>
    (\<exists>pf cs. r' = r\<lparr>r_prefetched := pf, r_candidates := cs\<rparr> \<and> map_of cs = map_of (r_candidates r))"

section \<open>A pool is read by the prefetching only\<close>

lemma pool_fields [simp]:
  "experiment_name (S\<lparr>pool := k\<rparr>) = experiment_name S" "strategy (S\<lparr>pool := k\<rparr>) = strategy S"
  "budget (S\<lparr>pool := k\<rparr>) = budget S" "replays (S\<lparr>pool := k\<rparr>) = replays S" "search_clock (S\<lparr>pool := k\<rparr>) = search_clock S"
  "preference (S\<lparr>pool := k\<rparr>) = preference S"
  by simp_all

lemma pool_steps [simp]:
  "new_runtime (S\<lparr>pool := k\<rparr>) = new_runtime S"
  "search_prefix_id (S\<lparr>pool := k\<rparr>) = search_prefix_id S"
  "hard_budget_reason (S\<lparr>pool := k\<rparr>) = hard_budget_reason S"
  "remaining_slots (S\<lparr>pool := k\<rparr>) = remaining_slots S"
  "add_route (S\<lparr>pool := k\<rparr>) = add_route S"
  "outcome_of (S\<lparr>pool := k\<rparr>) = outcome_of S"
  "route_id_of (S\<lparr>pool := k\<rparr>) = route_id_of S"
  by (simp_all add: fun_eq_iff new_runtime_def search_prefix_id_def hard_budget_reason_def remaining_slots_def
      add_route_def outcome_of_def route_id_of_def Let_def split: option.split)

lemma pool_candidates [simp]:
  "candidate_for (S\<lparr>pool := k\<rparr>) = candidate_for S"
  "with_candidate (S\<lparr>pool := k\<rparr>) = with_candidate S"
  "with_candidates (S\<lparr>pool := k\<rparr>) = with_candidates S"
  "marked (S\<lparr>pool := k\<rparr>) = marked S"
proof -
  show c: "candidate_for (S\<lparr>pool := k\<rparr>) = candidate_for S"
    by (intro ext) (simp add: candidate_for_def new_candidate_def)
  show w: "with_candidate (S\<lparr>pool := k\<rparr>) = with_candidate S"
    by (intro ext) (simp add: with_candidate_def c)
  show "with_candidates (S\<lparr>pool := k\<rparr>) = with_candidates S"
    by (intro ext) (simp add: with_candidates_def w)
  show "marked (S\<lparr>pool := k\<rparr>) = marked S"
    by (intro ext) (simp add: marked_def w)
qed

lemma pool_commits [simp]:
  "record_route (S\<lparr>pool := k\<rparr>) = record_route S"
  "record_failure (S\<lparr>pool := k\<rparr>) = record_failure S"
  "commit_frontier (S\<lparr>pool := k\<rparr>) = commit_frontier S"
  "commit_replay (S\<lparr>pool := k\<rparr>) = commit_replay S"
  "replay_prefix (S\<lparr>pool := k\<rparr>) = replay_prefix S"
proof -
  show r: "record_route (S\<lparr>pool := k\<rparr>) = record_route S"
    by (intro ext) (simp add: record_route_def cong: option.case_cong)
  show f: "record_failure (S\<lparr>pool := k\<rparr>) = record_failure S"
    by (intro ext) (simp add: record_failure_def mark_candidate_eq)
  show c: "commit_frontier (S\<lparr>pool := k\<rparr>) = commit_frontier S"
    by (intro ext) (simp add: commit_frontier_def r mark_candidate_eq)
  show "commit_replay (S\<lparr>pool := k\<rparr>) = commit_replay S"
    by (intro ext) (simp add: commit_replay_def f c split: sum.split)
  then show "replay_prefix (S\<lparr>pool := k\<rparr>) = replay_prefix S"
    by (intro ext) (simp add: replay_prefix_eq)
qed

lemma pool_coherent: "coherent (S\<lparr>pool := k\<rparr>) r = coherent S r" "replays_by_key (S\<lparr>pool := k\<rparr>) = replays_by_key S"
  by (simp_all add: coherent_def replays_by_key_def)

section \<open>Steps do not read what a pool changes\<close>

definition shift :: "int \<Rightarrow> (action_path \<times> (failed_replay + frontier)) list \<Rightarrow> (action_path \<times> pydict) list \<Rightarrow>
  search_runtime \<Rightarrow> search_runtime" where
  "shift d pf cs r = r\<lparr>r_max_depth := d, r_prefetched := pf, r_candidates := cs\<rparr>"

lemma shift_fields [simp]:
  "r_cache (shift d pf cs r) = r_cache r" "r_nodes (shift d pf cs r) = r_nodes r" "r_replays (shift d pf cs r) = r_replays r"
  "r_node_ids (shift d pf cs r) = r_node_ids r" "r_seen (shift d pf cs r) = r_seen r"
  "r_candidates (shift d pf cs r) = cs" "r_prefetched (shift d pf cs r) = pf" "r_max_depth (shift d pf cs r) = d"
  "r_routes (shift d pf cs r) = r_routes r" "r_route_prefixes (shift d pf cs r) = r_route_prefixes r"
  "r_termination (shift d pf cs r) = r_termination r" "r_path_failures (shift d pf cs r) = r_path_failures r"
  by (simp_all add: shift_def)

lemma record_route_shift:
  "record_route S p f (shift d pf cs r) = map_sum id (shift d pf cs) (record_route S p f r)"
proof (cases "fr_document f")
  case (Some doc)
  show ?thesis
  proof (cases "route_id_of S (path_key p) doc (fr_state_id f)")
    case (Inr i)
    have "add_route S key f doc i (shift d pf cs r) = map_sum id (shift d pf cs) (add_route S key f doc i r)" for key
    proof (cases "preference S doc (fr_score f)")
      case (Inr evaluated)
      show ?thesis
        by (cases "make_route i (fr_success f) (fr_peak f)
            (case evaluated of None \<Rightarrow> fr_score f | Some (composite, p) \<Rightarrow> composite)
            key doc (map_option snd evaluated) (boundary_of f)")
          (simp_all add: add_route_def Inr shift_def)
    qed (simp add: add_route_def shift_def)
    then show ?thesis
      by (cases "add_route S (path_key p) f doc i r") (simp_all add: record_route_def Some Inr shift_def)
  qed (simp add: record_route_def Some)
qed (simp add: record_route_def)

lemma count_shift: "count_frontier k f hit (shift d pf cs r) = shift d pf cs (count_frontier k f hit r)"
  by (simp add: count_frontier_def shift_def)

lemma note_shift:
  "is_duplicate f (shift d pf cs r) = is_duplicate f r" "note_state f (shift d pf cs r) = shift d pf cs (note_state f r)"
  by (simp_all add: is_duplicate_def note_state_def shift_def)

definition explored_mark :: "search_setup \<Rightarrow> action list \<Rightarrow> observed_node \<Rightarrow> (action_path \<times> pydict) list \<Rightarrow> (action_path \<times> pydict) list"
where
  "explored_mark S p ob cs =
    marked S p ''explored'' (explored_details (ob_frontier ob) (ob_duplicate ob) (ob_node_id ob)) cs"

definition failed_mark :: "search_setup \<Rightarrow> action list \<Rightarrow> failed_replay \<Rightarrow> (action_path \<times> pydict) list \<Rightarrow> (action_path \<times> pydict) list"
where
  "failed_mark S p x cs = marked S p ''failed''
     [(''exception_type'', PStr (x_type x)), (''failure_category'', opt_str (map_option f_category (x_failure x)))] cs"

lemma commit_shift:
  "commit_frontier S p f hit (shift d pf cs r) =
    (case commit_frontier S p f hit r of
       Inl err \<Rightarrow> Inl err
     | Inr (r', ob) \<Rightarrow> Inr (shift d pf (explored_mark S p ob cs) r', ob))"
proof (cases "record_route S p f (count_frontier (path_key p) f hit r)")
  case (Inl err)
  then show ?thesis by (simp add: commit_frontier_def count_shift record_route_shift)
next
  case (Inr r1)
  have moved: "record_route S p f (count_frontier (path_key p) f hit (shift d pf cs r)) = Inr (shift d pf cs r1)"
    by (simp add: count_shift record_route_shift Inr)
  have ids: "r_node_ids (note_state f r1) = r_node_ids r1" by (simp add: note_state_def)
  let ?node = "search_node_id (experiment_name S) (fr_state_id f) (int (length p))
       (if p = [] then None else map_of (r_node_ids r1) (butlast (path_key p)))
       (if p = [] then None else Some (action_id (last p)))"
  obtain i where i: "search_prefix_id S (path_key p) = Inr i" using prefix_id_total by blast
  show ?thesis
  proof (cases ?node)
    case (Inl err)
    then show ?thesis
      by (simp add: commit_frontier_def moved \<open>record_route S p f _ = Inr r1\<close> Let_def note_shift ids
          split del: if_split cong: if_cong)
  next
    case node: (Inr node)
    show ?thesis
      by (simp add: commit_frontier_def moved Inr Let_def note_shift ids node mark_candidate_eq i explored_mark_def
          split del: if_split cong: if_cong) (simp add: shift_def)
  qed
qed

lemma commit_candidates:
  assumes "commit_frontier S p f hit r = Inr (r', ob)"
  shows "r_candidates r' = explored_mark S p ob (r_candidates r)" and "r_prefetched r' = r_prefetched r"
    and "r_max_depth r' = r_max_depth r"
proof -
  have same: "shift (r_max_depth r) (r_prefetched r) (r_candidates r) r = r" by (simp add: shift_def)
  have "commit_frontier S p f hit (shift (r_max_depth r) (r_prefetched r) (r_candidates r) r) =
      Inr (shift (r_max_depth r) (r_prefetched r) (explored_mark S p ob (r_candidates r)) r', ob)"
    unfolding commit_shift assms by simp
  from this [unfolded same assms]
  have eq: "r' = shift (r_max_depth r) (r_prefetched r) (explored_mark S p ob (r_candidates r)) r'"
    unfolding sum.inject prod.inject by (rule conjunct1)
  show "r_candidates r' = explored_mark S p ob (r_candidates r)" "r_prefetched r' = r_prefetched r"
    "r_max_depth r' = r_max_depth r"
    using arg_cong [OF eq, of r_candidates] arg_cong [OF eq, of r_prefetched] arg_cong [OF eq, of r_max_depth]
    by (simp_all only: shift_fields)
qed

lemma failure_shift:
  "record_failure S p x r = Inr (r\<lparr>r_nodes := r_nodes r + 1, r_replays := r_replays r + 1,
     r_path_failures := r_path_failures r @ [path_failure p x], r_candidates := failed_mark S p x (r_candidates r)\<rparr>)"
  by (simp add: record_failure_def mark_candidate_eq failed_mark_def)

section \<open>Candidates are compared as maps\<close>

lemma with_candidate_map: "map_of cs = map_of cs' \<Longrightarrow> map_of (with_candidate S p cs) = map_of (with_candidate S p cs')"
  by (auto simp: with_candidate_def update_conv' fun_eq_iff)

lemma with_candidates_map: "map_of cs = map_of cs' \<Longrightarrow> map_of (with_candidates S ps cs) = map_of (with_candidates S ps cs')"
  unfolding with_candidates_def
proof (induction ps arbitrary: cs cs')
  case (Cons p ps)
  show ?case unfolding foldl_Cons by (rule Cons.IH [OF with_candidate_map [OF Cons.prems]])
qed simp

lemma marked_map:
  assumes "map_of cs = map_of cs'"
  shows "map_of (marked S p status details cs) = map_of (marked S p status details cs')"
  using with_candidate_map [OF assms, of S p] assms by (simp add: marked_def Let_def update_conv')

lemma marked_maps:
  assumes "map_of cs = map_of cs'"
  shows "map_of (explored_mark S p ob cs) = map_of (explored_mark S p ob cs')"
    and "map_of (failed_mark S p x cs) = map_of (failed_mark S p x cs')"
  unfolding explored_mark_def failed_mark_def by (rule marked_map [OF assms])+

text \<open>A candidate that is there is not created again.\<close>

definition listed :: "action list list \<Rightarrow> (action_path \<times> pydict) list \<Rightarrow> bool" where
  "listed ps cs \<longleftrightarrow> list_all (\<lambda>p. p \<noteq> [] \<and> map_of cs (path_key p) \<noteq> None) ps"

lemma listed_with: "listed ps cs \<Longrightarrow> with_candidates S ps cs = cs"
  unfolding with_candidates_def listed_def by (induction ps) (auto simp: with_candidate_def)

lemma with_candidate_keeps: "map_of cs k \<noteq> None \<Longrightarrow> map_of (with_candidate S p cs) k = map_of cs k"
  by (auto simp: with_candidate_def update_conv')

lemma with_candidates_absorb:
  "map_of (with_candidates S qs (with_candidates S ps cs)) = map_of (with_candidates S (ps @ qs) cs)"
  by (simp add: with_candidates_def)

lemma with_candidates_map_of:
  "map_of (with_candidates S ps cs) k =
    (if map_of cs k = None \<and> (\<exists>p\<in>set ps. p \<noteq> [] \<and> path_key p = k) then Some (candidate_for S k) else map_of cs k)"
  unfolding with_candidates_def
proof (induction ps arbitrary: cs)
  case (Cons p ps)
  show ?case
    unfolding foldl_Cons Cons.IH by (auto simp: with_candidate_def update_conv' path_key_def)
qed simp

lemma with_candidates_set:
  "set ps = set qs \<Longrightarrow> map_of (with_candidates S ps cs) = map_of (with_candidates S qs cs)"
  by (intro ext) (simp add: with_candidates_map_of)

lemma with_candidates_more:
  "set qs \<subseteq> set ps \<Longrightarrow> map_of (with_candidates S ps (with_candidates S qs cs)) = map_of (with_candidates S ps cs)"
  by (intro ext) (auto simp: with_candidates_map_of)

lemma marked_keeps: "map_of cs k \<noteq> None \<Longrightarrow> map_of (marked S p status details cs) k \<noteq> None"
  by (auto simp: marked_def Let_def update_conv' with_candidate_keeps)

lemma listed_marked: "listed ps cs \<Longrightarrow> listed ps (marked S p status details cs)"
  using marked_keeps by (simp add: listed_def list_all_iff)

section \<open>Depth first\<close>

lemma same_shift: "shift (r_max_depth r) pf cs r = r\<lparr>r_prefetched := pf, r_candidates := cs\<rparr>"
  by (simp add: shift_def)

lemma sameI: "map_of cs = map_of (r_candidates r) \<Longrightarrow> same_search r (r\<lparr>r_prefetched := pf, r_candidates := cs\<rparr>)"
  unfolding same_search_def by blast

lemma started_same:
  "\<exists>pf'. started_replay p (r\<lparr>r_prefetched := pf, r_candidates := cs\<rparr>) = shift (max (r_max_depth r) (int (length p))) pf' cs (started_replay p r)"
  by (rule exI [of _ "r_prefetched (started_replay p (r\<lparr>r_prefetched := pf, r_candidates := cs\<rparr>))"])
    (simp add: started_replay_def shift_def Let_def cached_def)

lemma replay_same:
  assumes "coherent S r" and "coherent S r'" and "same_search r r'"
  shows "case replay_prefix S p r of Inl err \<Rightarrow> replay_prefix S p r' = Inl err
    | Inr (x, node) \<Rightarrow> \<exists>x'. replay_prefix S p r' = Inr (x', node) \<and> same_search x x'"
proof -
  obtain pf cs where r': "r' = r\<lparr>r_prefetched := pf, r_candidates := cs\<rparr>" and cs: "map_of cs = map_of (r_candidates r)"
    using assms(3) unfolding same_search_def by blast
  have hit: "cached p r' = cached p r" by (simp add: cached_def r')
  obtain pf' where start: "started_replay p r' = shift (max (r_max_depth r) (int (length p))) pf' cs (started_replay p r)"
    using started_same unfolding r' by blast
  show ?thesis
  proof (cases "replays S p")
    case (Inl x)
    define z where "z = started_replay p r"
    define w where "w = z\<lparr>r_nodes := r_nodes z + 1, r_replays := r_replays z + 1,
      r_path_failures := r_path_failures z @ [path_failure p x], r_candidates := failed_mark S p x (r_candidates z)\<rparr>"
    define w' where "w' = w\<lparr>r_prefetched := pf', r_candidates := failed_mark S p x cs\<rparr>"
    have same: "same_search w w'"
      unfolding w'_def by (rule sameI) (simp add: w_def z_def marked_maps(2) [OF cs] started_replay_frame)
    have failed: "record_failure S p x (started_replay p r) = Inr w"
      unfolding failure_shift w_def z_def ..
    have moved: "record_failure S p x (started_replay p r') = Inr w'"
      unfolding failure_shift start w'_def w_def z_def by (simp add: shift_def started_replay_frame)
    have "replay_prefix S p r = (if p = [] then Inl (Replay_Raised x) else Inr (w, None))"
      by (simp add: replay_prefix_eq coherent_outcome [OF assms(1)] Inl commit_replay_def failed split del: if_split cong: if_cong)
    moreover have "replay_prefix S p r' = (if p = [] then Inl (Replay_Raised x) else Inr (w', None))"
      by (simp add: replay_prefix_eq coherent_outcome [OF assms(2)] Inl commit_replay_def moved split del: if_split cong: if_cong)
    ultimately show ?thesis using same by auto
  next
    case (Inr f)
    show ?thesis
    proof (cases "commit_frontier S p f (cached p r) (started_replay p r)")
      case (Inl err)
      then show ?thesis
        by (simp add: replay_prefix_eq coherent_outcome assms(1,2) Inr commit_replay_def hit start commit_shift)
    next
      case committed: (Inr res)
      obtain x ob where res: "res = (x, ob)" by (cases res)
      note fields = commit_candidates [OF committed [unfolded res]]
      have "same_search x (shift (max (r_max_depth r) (int (length p))) pf' (explored_mark S p ob cs) x)"
        unfolding same_search_def
        by (intro exI [of _ pf'] exI [of _ "explored_mark S p ob cs"])
          (simp add: shift_def fields started_replay_frame marked_maps(1) [OF cs])
      then show ?thesis
        by (simp add: replay_prefix_eq coherent_outcome assms(1,2) Inr commit_replay_def hit start commit_shift committed res)
    qed
  qed
qed

fun same_step :: "loop_step \<Rightarrow> loop_step \<Rightarrow> bool" where
  "same_step (Finished r) (Finished r') = same_search r r'"
| "same_step (Pending ps r) (Pending ps' r') = (ps = ps' \<and> same_search r r')"
| "same_step a b = False"

text \<open>Prefetching adds candidates that the expansion adds anyway.\<close>

lemma prefetch_shape:
  "\<exists>ds pf. prefetch S ps r = Inr (r\<lparr>r_prefetched := pf, r_candidates := with_candidates S ds (r_candidates r)\<rparr>) \<and> set ds \<subseteq> set ps"
proof -
  define n where "n = prefetch_window S r (length ps)"
  define ds where "ds = dispatched r (take n ps)"
  have sub: "set ds \<subseteq> set ps" using set_take_subset [of n ps] by (auto simp: ds_def dispatched_def)
  have eq: "prefetch S ps r = Inr (if n \<le> 1 then r
      else let x = r\<lparr>r_candidates := with_candidates S ds (r_candidates r)\<rparr>
        in if length ds \<le> 1 then x else store_outcomes S ds x)"
    by (simp add: prefetch_eq n_def ds_def Let_def)
  show ?thesis
  proof (cases "n \<le> 1")
    case True
    then show ?thesis
      by (intro exI [of _ "[]"] exI [of _ "r_prefetched r"]) (simp add: eq with_candidates_def)
  next
    case False
    let ?x = "r\<lparr>r_candidates := with_candidates S ds (r_candidates r)\<rparr>"
    show ?thesis
      using False sub
      by (intro exI [of _ ds] exI [of _ "r_prefetched (if length ds \<le> 1 then ?x else store_outcomes S ds ?x)"])
        (simp add: eq Let_def store_outcomes_def)
  qed
qed

lemma expand_same:
  assumes "same_search r r'"
  shows "case expand_node S ob rest r of Inl err \<Rightarrow> expand_node (S\<lparr>pool := k\<rparr>) ob rest r' = Inl err
    | Inr step \<Rightarrow> \<exists>step'. expand_node (S\<lparr>pool := k\<rparr>) ob rest r' = Inr step' \<and> same_step step step'"
proof (cases "order_actions (strategy S) (ob_node_id ob) (fr_actions (ob_frontier ob))")
  case (Inl err)
  then show ?thesis by (simp add: expand_node_def)
next
  case (Inr as)
  define children where "children = map (\<lambda>a. ob_prefix ob @ [a]) as"
  obtain pf cs where r': "r' = r\<lparr>r_prefetched := pf, r_candidates := cs\<rparr>" and cs: "map_of cs = map_of (r_candidates r)"
    using assms unfolding same_search_def by blast
  define x where "x = r\<lparr>r_updates := r_updates r @ [expansion_update ob as]\<rparr>"
  define x' where "x' = r'\<lparr>r_updates := r_updates r' @ [expansion_update ob as]\<rparr>"
  obtain ds qf where fetched: "prefetch S children x = Inr (x\<lparr>r_prefetched := qf, r_candidates := with_candidates S ds (r_candidates x)\<rparr>)"
      "set ds \<subseteq> set children"
    using prefetch_shape by blast
  obtain ds' qf' where fetched': "prefetch (S\<lparr>pool := k\<rparr>) children x' =
        Inr (x'\<lparr>r_prefetched := qf', r_candidates := with_candidates S ds' (r_candidates x')\<rparr>)" "set ds' \<subseteq> set children"
    using prefetch_shape [of "S\<lparr>pool := k\<rparr>" children x'] by (auto simp only: pool_candidates)
  have maps: "map_of (with_candidates S (rev children) (with_candidates S es ds)) = map_of (with_candidates S children ds)"
    if "set es \<subseteq> set children" for es ds
    using with_candidates_more [of es "rev children" S ds] with_candidates_set [of "rev children" children S ds] that by simp
  define c where "c = with_candidates S (rev children) (with_candidates S ds (r_candidates r))"
  define c' where "c' = with_candidates S (rev children) (with_candidates S ds' cs)"
  have "map_of c' = map_of c"
    unfolding c_def c'_def maps [OF fetched(2)] maps [OF fetched'(2)] by (rule with_candidates_map [OF cs])
  then have same: "same_search (x\<lparr>r_prefetched := qf, r_candidates := c\<rparr>) (x'\<lparr>r_prefetched := qf', r_candidates := c'\<rparr>)"
    unfolding same_search_def
    by (intro exI [of _ qf'] exI [of _ c']) (simp add: x_def x'_def r')
  have "expand_node S ob rest r = Inr (Pending (children @ rest) (x\<lparr>r_prefetched := qf, r_candidates := c\<rparr>))"
    using fetched(1) by (simp add: expand_node_def Inr Let_def ensure_candidates_eq children_def x_def c_def)
  moreover have "expand_node (S\<lparr>pool := k\<rparr>) ob rest r' =
      Inr (Pending (children @ rest) (x'\<lparr>r_prefetched := qf', r_candidates := c'\<rparr>))"
    using fetched'(1) by (simp add: expand_node_def Inr Let_def ensure_candidates_eq children_def x'_def r' c'_def)
  ultimately show ?thesis using same by simp
qed

lemma same_termination:
  assumes "same_search x x'"
  shows "same_search (x\<lparr>r_termination := t\<rparr>) (x'\<lparr>r_termination := t\<rparr>)"
proof -
  obtain pf cs where "x' = x\<lparr>r_prefetched := pf, r_candidates := cs\<rparr>" "map_of cs = map_of (r_candidates x)"
    using assms unfolding same_search_def by blast
  then show ?thesis unfolding same_search_def by (intro exI [of _ pf] exI [of _ cs]) simp
qed

lemma visit_same:
  assumes "coherent S r" and "coherent S r'" and "same_search r r'"
  shows "case visit_prefix S p ps r of Inl err \<Rightarrow> visit_prefix (S\<lparr>pool := k\<rparr>) p ps r' = Inl err
    | Inr step \<Rightarrow> \<exists>step'. visit_prefix (S\<lparr>pool := k\<rparr>) p ps r' = Inr step' \<and> same_step step step'"
proof (cases "replay_prefix S p r")
  case (Inl err)
  then show ?thesis using replay_same [OF assms, of p] by (simp add: visit_prefix_def)
next
  case (Inr res)
  obtain x node where res: "res = (x, node)" by (cases res)
  obtain x' where x': "replay_prefix S p r' = Inr (x', node)" "same_search x x'"
    using replay_same [OF assms, of p] by (auto simp: Inr res)
  have fields: "r_termination x' = r_termination x" using x'(2) by (auto simp: same_search_def)
  note deep = same_termination [OF x'(2)]
  show ?thesis
  proof (cases node)
    case None
    then show ?thesis using x' by (simp add: visit_prefix_def Inr res)
  next
    case (Some ob)
    have visit: "visit_prefix T p ps z = (if r_termination y = GOAL_REACHED then Inr (Finished y)
        else if ob_duplicate ob then Inr (Pending ps y)
        else if reached (max_depth (budget T)) (int (length p)) then Inr (Pending ps (y\<lparr>r_termination := MAX_DEPTH\<rparr>))
        else raising (expand_node T ob ps y))" if "replay_prefix T p z = Inr (y, Some ob)" for T z y
      using that by (simp add: visit_prefix_def)
    have first: "visit_prefix S p ps r = (if r_termination x = GOAL_REACHED then Inr (Finished x)
        else if ob_duplicate ob then Inr (Pending ps x)
        else if reached (max_depth (budget S)) (int (length p)) then Inr (Pending ps (x\<lparr>r_termination := MAX_DEPTH\<rparr>))
        else raising (expand_node S ob ps x))"
      by (rule visit) (simp add: Inr res Some)
    have second: "visit_prefix (S\<lparr>pool := k\<rparr>) p ps r' = (if r_termination x = GOAL_REACHED then Inr (Finished x')
        else if ob_duplicate ob then Inr (Pending ps x')
        else if reached (max_depth (budget S)) (int (length p)) then Inr (Pending ps (x'\<lparr>r_termination := MAX_DEPTH\<rparr>))
        else raising (expand_node (S\<lparr>pool := k\<rparr>) ob ps x'))"
      using visit [of "S\<lparr>pool := k\<rparr>" r' x'] x'(1) by (simp add: Some fields cong: if_cong)
    consider (simple) "r_termination x = GOAL_REACHED \<or> ob_duplicate ob \<or> reached (max_depth (budget S)) (int (length p))"
      | (expand) "r_termination x \<noteq> GOAL_REACHED" "\<not> ob_duplicate ob" "\<not> reached (max_depth (budget S)) (int (length p))"
      by blast
    then show ?thesis
    proof cases
      case simple
      then show ?thesis unfolding first second using x'(2) deep by auto
    next
      case expand
      then show ?thesis
        using expand_same [OF x'(2), where S = S and ob = ob and rest = ps and k = k] unfolding first second
        by (cases "expand_node S ob ps x") auto
    qed
  qed
qed

lemma same_budget_check:
  assumes "same_search r r'" and "hard_budget_reason S r = (x, reason)"
  shows "\<exists>x'. hard_budget_reason S r' = (x', reason) \<and> same_search x x' \<and> x = r\<lparr>r_ticks := Suc (r_ticks r)\<rparr> \<and>
    x' = r'\<lparr>r_ticks := Suc (r_ticks r')\<rparr>"
proof -
  obtain pf cs where r': "r' = r\<lparr>r_prefetched := pf, r_candidates := cs\<rparr>" and cs: "map_of cs = map_of (r_candidates r)"
    using assms(1) unfolding same_search_def by blast
  have x: "x = r\<lparr>r_ticks := Suc (r_ticks r)\<rparr>" using assms(2) by (simp add: hard_budget_reason_def Let_def)
  have "hard_budget_reason S r' = (r'\<lparr>r_ticks := Suc (r_ticks r')\<rparr>, reason)"
    using assms(2) by (auto simp: hard_budget_reason_def Let_def r')
  moreover have "same_search x (r'\<lparr>r_ticks := Suc (r_ticks r')\<rparr>)"
    unfolding same_search_def x r' by (intro exI [of _ pf] exI [of _ cs]) (simp add: cs)
  ultimately show ?thesis using x by blast
qed

text \<open>Two runs agree when they end alike.\<close>

fun same_end :: "(search_error + search_runtime) option \<Rightarrow> (search_error + search_runtime) option \<Rightarrow> bool" where
  "same_end (Some (Inr r)) other = (case other of Some (Inr r') \<Rightarrow> same_search r r' | _ \<Rightarrow> False)"
| "same_end other other' = (other' = other)"

lemma depth_first_same:
  assumes "covering S ps r" and "covering (S\<lparr>pool := k\<rparr>) ps r'" and "same_search r r'" and "replays_by_key S"
  shows "same_end (depth_first n S ps r) (depth_first n (S\<lparr>pool := k\<rparr>) ps r')"
  using assms(1-3)
proof (induction n arbitrary: ps r r')
  case 0
  then show ?case by (cases ps) simp_all
next
  case (Suc n)
  show ?case
  proof (cases ps)
    case (Cons p qs)
    obtain x reason where x: "hard_budget_reason S r = (x, reason)" by (cases "hard_budget_reason S r")
    obtain x' where x': "hard_budget_reason S r' = (x', reason)" "same_search x x'"
        "x = r\<lparr>r_ticks := Suc (r_ticks r)\<rparr>" "x' = r'\<lparr>r_ticks := Suc (r_ticks r')\<rparr>"
      using same_budget_check [OF Suc.prems(3) x] by blast
    have ticked: "covering T (p # qs) (z\<lparr>r_ticks := t\<rparr>)" if "covering T (p # qs) z" for T z t
      by (rule covering_same [OF that]) (use that coherent_same [of T z "z\<lparr>r_ticks := t\<rparr>"] in \<open>simp_all add: covering_def\<close>)
    have cover: "covering S (p # qs) x" using ticked Suc.prems(1) by (simp add: Cons x'(3))
    have cover': "covering (S\<lparr>pool := k\<rparr>) (p # qs) x'" using ticked Suc.prems(2) by (simp add: Cons x'(4))
    have coherent: "coherent S x" "coherent S x'" using cover cover' by (simp_all add: covering_def pool_coherent)
    show ?thesis
    proof (cases reason)
      case None
      note visits = visit_same [OF coherent x'(2), where p = p and ps = qs and k = k]
      show ?thesis
      proof (cases "visit_prefix S p qs x")
        case (Inl err)
        then show ?thesis using visits by (simp add: Cons x x'(1) None)
      next
        case (Inr step)
        then obtain step' where step': "visit_prefix (S\<lparr>pool := k\<rparr>) p qs x' = Inr step'" "same_step step step'"
          using visits by auto
        have next_cover: "case step of Finished y \<Rightarrow> True | Pending zs y \<Rightarrow> covering S zs y"
          using visit_covering [OF cover assms(4) Inr] by (cases step) simp_all
        show ?thesis
        proof (cases step)
          case (Finished y)
          then show ?thesis using step' by (cases step') (simp_all add: Cons x x'(1) None Inr)
        next
          case (Pending zs y)
          then obtain y' where y': "step' = Pending zs y'" "same_search y y'" using step'(2) by (cases step') auto
          have "covering (S\<lparr>pool := k\<rparr>) zs y'"
            using visit_covering [OF cover' _ step'(1)] assms(4) by (simp add: y'(1) pool_coherent)
          then show ?thesis
            using Suc.IH [of zs y y'] next_cover y' step'(1) by (simp add: Cons x x'(1) None Inr Pending)
        qed
      qed
    next
      case (Some t)
      have "same_search (x\<lparr>r_termination := t\<rparr>) (x'\<lparr>r_termination := t\<rparr>)" by (rule same_termination [OF x'(2)])
      then show ?thesis by (simp add: Cons x x'(1) Some)
    qed
  qed (use Suc.prems in simp)
qed

end
