(* ===== verification/Parallel_Beam.thy ===== *)
theory Parallel_Beam
  imports Parallel_Laws
begin

text \<open>
  The pool in beam search: the prefixes of a layer are replayed at once and committed in their order,
  with the state that the replays one by one would leave.
\<close>

section \<open>A layer's replays\<close>

lemma note_depths_eq:
  "note_depths ps r = r\<lparr>r_max_depth := foldl (\<lambda>d p. max d (int (length p))) (r_max_depth r) ps\<rparr>"
  by (induction ps arbitrary: r) simp_all

definition beam_books :: "search_setup \<Rightarrow> search_runtime \<Rightarrow> bool" where
  "beam_books S r \<longleftrightarrow> coherent S r \<and> r_prefetched r = []"

lemma started_books: "beam_books S r \<Longrightarrow> started_replay p r = r\<lparr>r_max_depth := max (r_max_depth r) (int (length p))\<rparr>"
  by (simp add: started_replay_def beam_books_def)

lemma replay_books:
  assumes books: "beam_books S r" and key: "replays_by_key S" and step: "replay_prefix S p r = Inr (r', ob)"
  shows "beam_books S r'"
proof -
  have start: "coherent S (started_replay p r)" using books coherent_started by (simp only: beam_books_def)
  have empty: "r_prefetched (started_replay p r) = []"
    using books by (simp add: started_books [OF books]) (simp add: beam_books_def)
  have outcome: "outcome_of S p r = replays S p" using books by (simp add: beam_books_def coherent_outcome)
  show ?thesis
  proof (cases "replays S p")
    case (Inl x)
    note failed = replay_prefix_failed(1) [OF step, of x, unfolded outcome, OF Inl]
    show ?thesis
      using coherent_failure [OF start failed Inl key] record_failure_effect(10) [OF failed] empty
      by (simp add: beam_books_def)
  next
    case (Inr f)
    then obtain o1 where committed: "commit_frontier S p f (cached p r) (started_replay p r) = Inr (r', o1)"
      using replay_prefix_shown [OF step] outcome by auto
    show ?thesis
      using coherent_commit [OF start committed Inr key] commit_candidates(2) [OF committed] empty
      by (simp add: beam_books_def)
  qed
qed

lemma replay_each_books:
  "beam_books S r \<Longrightarrow> replays_by_key S \<Longrightarrow> replay_each S ps r = Inr (r', obs) \<Longrightarrow> beam_books S r'"
  by (induction ps arbitrary: r obs) (auto simp: sbind_eq_Inr dest: replay_books)

lemma replay_each_depth:
  "replay_each S ps r = Inr (r', obs) \<Longrightarrow> r_max_depth r' = foldl (\<lambda>d p. max d (int (length p))) (r_max_depth r) ps"
  by (induction ps arbitrary: r obs) (auto simp: sbind_eq_Inr dest: replay_prefix_counts(2))

text \<open>Committing in order is replaying in order, but for the depth, which is noted before.\<close>

lemma commit_each_replays:
  assumes "beam_books S r" and "replays_by_key S" and "list_all (\<lambda>p. p \<noteq> []) ps"
    and "list_all (\<lambda>p. map_of outs (path_key p) = Some (replays S p)) ps"
  shows "raising (commit_each S outs ps (r\<lparr>r_max_depth := d\<rparr>)) =
    map_sum id (\<lambda>(x, obs). (x\<lparr>r_max_depth := d\<rparr>, obs)) (replay_each S ps r)"
  using assms(1,3,4)
proof (induction ps arbitrary: r)
  case (Cons p ps)
  have p: "p \<noteq> []" "map_of outs (path_key p) = Some (replays S p)" using Cons.prems by simp_all
  have outcome: "outcome_of S p r = replays S p" using Cons.prems(1) by (simp add: beam_books_def coherent_outcome)
  define z where "z = r\<lparr>r_max_depth := max (r_max_depth r) (int (length p))\<rparr>"
  have start: "started_replay p r = z" unfolding z_def by (rule started_books [OF Cons.prems(1)])
  have rz: "r\<lparr>r_max_depth := d\<rparr> = shift d (r_prefetched z) (r_candidates z) z"
    by (simp add: shift_def z_def)
  show ?case
  proof (cases "replays S p")
    case (Inl x)
    obtain w where failed: "record_failure S p x z = Inr w" using failure_shift by blast
    have moved: "record_failure S p x (r\<lparr>r_max_depth := d\<rparr>) = Inr (w\<lparr>r_max_depth := d\<rparr>)"
      using failed by (auto simp: failure_shift z_def)
    have step: "replay_prefix S p r = Inr (w, None)"
      using p(1) failed by (simp add: replay_prefix_eq outcome Inl commit_replay_def start)
    have "beam_books S w" by (rule replay_books [OF Cons.prems(1) assms(2) step])
    note IH = Cons.IH [OF this]
    show ?thesis
      using IH Cons.prems(2,3) by (cases "replay_each S ps w"; cases "commit_each S outs ps (w\<lparr>r_max_depth := d\<rparr>)")
        (auto simp: p(2) Inl moved step)
  next
    case (Inr f)
    have hit: "map_of (r_cache (r\<lparr>r_max_depth := d\<rparr>)) (path_key p) \<noteq> None \<longleftrightarrow> cached p r" by (simp add: cached_def)
    have moved0: "commit_frontier S p f (map_of (r_cache (r\<lparr>r_max_depth := d\<rparr>)) (path_key p) \<noteq> None) (r\<lparr>r_max_depth := d\<rparr>) =
      (case commit_frontier S p f (cached p r) z of Inl err \<Rightarrow> Inl err
       | Inr (r', ob) \<Rightarrow> Inr (shift d (r_prefetched z) (explored_mark S p ob (r_candidates z)) r', ob))"
      unfolding hit unfolding rz by (rule commit_shift)
    show ?thesis
    proof (cases "commit_frontier S p f (cached p r) z")
      case Inl': (Inl err)
      then show ?thesis
        unfolding commit_each.simps p(2) option.sel Inr sum.case moved0 Inl'
        by (simp add: replay_prefix_eq outcome Inr commit_replay_def start Inl')
    next
      case committed: (Inr res)
      obtain w ob where res: "res = (w, ob)" by (cases res)
      note fields = commit_candidates [OF committed [unfolded res]]
      have moved: "shift d (r_prefetched z) (explored_mark S p ob (r_candidates z)) w = w\<lparr>r_max_depth := d\<rparr>"
        using fields by (simp add: shift_def)
      have step: "replay_prefix S p r = Inr (w, Some ob)"
        by (simp add: replay_prefix_eq outcome Inr commit_replay_def start committed res)
      have "beam_books S w" by (rule replay_books [OF Cons.prems(1) assms(2) step])
      note IH = Cons.IH [OF this]
      show ?thesis
        unfolding commit_each.simps p(2) option.sel Inr sum.case moved0 committed res prod.case moved
        using IH Cons.prems(2,3)
        by (cases "replay_each S ps w"; cases "commit_each S outs ps (w\<lparr>r_max_depth := d\<rparr>)") (auto simp: step)
    qed
  qed
qed simp

lemma pool_outcomes_found:
  assumes "coherent S r" and "replays_by_key S"
  shows "list_all (\<lambda>p. map_of (pool_outcomes S (r_cache r) ps) (path_key p) = Some (replays S p)) ps"
proof -
  have outcome: "(case map_of (r_cache r) (path_key p) of Some f \<Rightarrow> Inr f | None \<Rightarrow> replays S p) = replays S p" for p
    using coherentD(1) [OF assms(1), of p] by (cases "map_of (r_cache r) (path_key p)") auto
  have "map_of (foldl (\<lambda>m p. AList.update (path_key p) (replays S p) m) m ps) k =
      (if \<exists>p\<in>set ps. path_key p = k then Some (replays S (SOME p. path_key p = k)) else map_of m k)" for m k
  proof (induction ps arbitrary: m)
    case (Cons q ps)
    have same: "replays S q = replays S (SOME p. path_key p = path_key q)"
      by (rule by_key [OF assms(2)]) (rule someI [of "\<lambda>p. path_key p = path_key q", OF refl, symmetric])
    show ?case unfolding foldl_Cons Cons.IH using same by (auto simp: update_conv')
  qed simp
  moreover have "replays S (SOME q. path_key q = path_key p) = replays S p" for p
    by (rule by_key [OF assms(2)]) (rule someI [of "\<lambda>q. path_key q = path_key p", OF refl])
  ultimately show ?thesis unfolding pool_outcomes_def outcome by (auto simp: list_all_iff)
qed

lemma replay_prefixes_each:
  assumes books: "beam_books S r" and key: "replays_by_key S" and listed: "listed ps (r_candidates r)"
  shows "replay_prefixes S ps r = replay_each S ps r"
proof (cases "(case pool S of None \<Rightarrow> True | Some k \<Rightarrow> k \<le> 1) \<or> length ps \<le> 1")
  case True
  then show ?thesis by (simp add: replay_prefixes_def)
next
  case False
  define d where "d = foldl (\<lambda>d p. max d (int (length p))) (r_max_depth r) ps"
  have noted: "note_depths ps r = r\<lparr>r_max_depth := d\<rparr>" by (simp add: note_depths_eq d_def)
  have kept: "ensure_candidates S ps (r\<lparr>r_max_depth := d\<rparr>) = Inr (r\<lparr>r_max_depth := d\<rparr>)"
    by (simp add: ensure_candidates_eq listed_with [OF listed])
  have "replay_prefixes S ps r = raising (sbind (ensure_candidates S ps (note_depths ps r)) (\<lambda>r.
       commit_each S (pool_outcomes S (r_cache r) ps) ps r))"
    using False unfolding replay_prefixes_def by (rule if_not_P)
  also have "\<dots> = raising (commit_each S (pool_outcomes S (r_cache r) ps) ps (r\<lparr>r_max_depth := d\<rparr>))"
    by (simp add: noted kept)
  also have "\<dots> = map_sum id (\<lambda>(x, obs). (x\<lparr>r_max_depth := d\<rparr>, obs)) (replay_each S ps r)"
    by (rule commit_each_replays [OF books key])
      (use listed pool_outcomes_found [OF _ key] books in \<open>auto simp: listed_def list_all_iff beam_books_def\<close>)
  also have "\<dots> = replay_each S ps r"
    using replay_each_depth [of S ps r] by (cases "replay_each S ps r") (auto simp: d_def)
  finally show ?thesis .
qed

section \<open>A layer\<close>

lemma ensure_candidate_pool: "ensure_candidate (S\<lparr>pool := k\<rparr>) p r = ensure_candidate S p r"
  by (simp add: ensure_candidate_eq)

lemma plan_actions_pool: "plan_actions (S\<lparr>pool := k\<rparr>) p as slots ps r = plan_actions S p as slots ps r"
  by (induction as arbitrary: slots ps r) (simp_all add: ensure_candidate_eq split: prod.split option.split)

lemma plan_layer_pool: "plan_layer (S\<lparr>pool := k\<rparr>) obs slots ps few r = plan_layer S obs slots ps few r"
  by (induction obs arbitrary: slots ps few r) (simp_all add: plan_actions_pool cong: option.case_cong)

lemma collect_pool: "collect_children (S\<lparr>pool := k\<rparr>) goal xs c = collect_children S goal xs c"
proof (induction xs arbitrary: goal c)
  case (Cons x xs)
  obtain p ob where x: "x = (p, ob)" by (cases x)
  show ?case by (cases ob) (simp_all add: x Cons.IH Let_def)
qed simp

lemma replay_each_pool: "replay_each (S\<lparr>pool := k\<rparr>) ps r = replay_each S ps r"
  by (induction ps arbitrary: r) simp_all

text \<open>Planning lists the prefixes it takes, and changes nothing that a replay reads.\<close>

definition plan_frame :: "search_runtime \<Rightarrow> search_runtime \<Rightarrow> bool" where
  "plan_frame r r' \<longleftrightarrow> r_cache r' = r_cache r \<and> r_prefetched r' = r_prefetched r \<and> r_path_failures r' = r_path_failures r"

lemma listed_more: "listed ps cs \<Longrightarrow> listed ps (with_candidate S q cs)"
  by (simp add: listed_def list_all_iff with_candidate_keeps)

lemma plan_actions_listed:
  assumes "plan_actions S p as slots ps r = Inr (qs, left, halt, r')" and "listed ps (r_candidates r)"
  shows "listed qs (r_candidates r') \<and> plan_frame r r'"
  using assms
proof (induction as arbitrary: slots ps r)
  case (Cons a as)
  obtain r1 reason where r1: "hard_budget_reason S r = (r1, reason)" by (cases "hard_budget_reason S r")
  have r1_eq: "r1 = r\<lparr>r_ticks := Suc (r_ticks r)\<rparr>" using r1 by (simp add: hard_budget_reason_def Let_def)
  let ?full = "case slots of None \<Rightarrow> False | Some k \<Rightarrow> k \<le> 0"
  show ?case
  proof (cases "reason = None \<and> \<not> ?full")
    case True
    let ?x = "r1\<lparr>r_candidates := with_candidate S (p @ [a]) (r_candidates r1)\<rparr>"
    have step: "plan_actions S p as (map_option (\<lambda>k. k - 1) slots) (ps @ [p @ [a]]) ?x = Inr (qs, left, halt, r')"
      using Cons.prems True by (simp add: r1 ensure_candidate_eq)
    have "listed (ps @ [p @ [a]]) (r_candidates ?x)"
      using listed_more [OF Cons.prems(2), of S "p @ [a]"] with_candidate_present [of "p @ [a]" S "r_candidates r"]
      by (simp add: listed_def r1_eq)
    from Cons.IH [OF step this] show ?thesis by (simp add: plan_frame_def r1_eq)
  next
    case False
    then have "qs = ps \<and> r' = r1"
      using Cons.prems by (cases reason) (auto simp: r1)
    then show ?thesis using Cons.prems(2) by (simp add: plan_frame_def r1_eq)
  qed
qed (simp add: plan_frame_def)

lemma plan_layer_listed:
  assumes "plan_layer S obs slots ps few r = Inr (qs, few', halt, r')" and "listed ps (r_candidates r)"
  shows "listed qs (r_candidates r') \<and> plan_frame r r'"
  using assms
proof (induction obs arbitrary: slots ps few r)
  case (Cons ob obs)
  show ?case
  proof (cases "reached (max_depth (budget S)) (int (length (ob_prefix ob)))")
    case True
    then show ?thesis using Cons by simp
  next
    case False
    obtain as where as: "order_actions (strategy S) (ob_node_id ob) (fr_actions (ob_frontier ob)) = Inr as"
      using Cons.prems(1) False by (auto simp: sbind_eq_Inr)
    obtain qs1 left h r1 where plan: "plan_actions S (ob_prefix ob) as slots ps r = Inr (qs1, left, h, r1)"
      using Cons.prems(1) False as by (auto simp: sbind_eq_Inr)
    note taken = plan_actions_listed [OF plan Cons.prems(2)]
    show ?thesis
    proof (cases h)
      case None
      then have "plan_layer S obs left qs1 few r1 = Inr (qs, few', halt, r')"
        using Cons.prems(1) False by (simp add: as plan)
      from Cons.IH [OF this] taken show ?thesis by (simp add: plan_frame_def)
    next
      case (Some t)
      then have "qs = qs1 \<and> r' = r1" using Cons.prems(1) False by (simp add: as plan)
      then show ?thesis using taken by simp
    qed
  qed
qed (simp add: plan_frame_def)

lemma planned_books: "beam_books S r \<Longrightarrow> plan_frame r r' \<Longrightarrow> beam_books S r'"
  using coherent_same [of S r r'] by (simp add: beam_books_def plan_frame_def)

lemma prune_books: "plan_frame r (prune_children chosen records r)"
proof -
  have "plan_frame x (mark_key key status details x)" for x key status details
    by (auto simp: plan_frame_def mark_key_def split: option.split)
  then show ?thesis
    unfolding prune_children_def
    by (induction records arbitrary: r) (auto simp: plan_frame_def)
qed

lemma close_books:
  assumes "beam_books S r" and "close_layer width obs halt c r = (chosen, r')"
  shows "beam_books S r'"
proof -
  obtain ps records us t where r': "r' = (prune_children ps records (halt_run halt r))\<lparr>r_updates := us, r_termination := t\<rparr>"
    using close_layer_shape [of width obs halt c r] assms(2) by auto
  have "plan_frame r (halt_run halt r)" by (simp add: plan_frame_def halt_run_def split: option.split)
  then have "plan_frame r r'"
    using prune_books [of "halt_run halt r" ps records] by (simp add: plan_frame_def r')
  then show ?thesis by (rule planned_books [OF assms(1)])
qed

lemma layer_pool:
  assumes books: "beam_books S r" and key: "replays_by_key S"
  shows "beam_layer (S\<lparr>pool := k\<rparr>) width obs r = beam_layer S width obs r"
proof (cases "plan_layer S obs (remaining_slots S r) [] False r")
  case (Inl err)
  then show ?thesis by (simp add: beam_layer_def plan_layer_pool)
next
  case (Inr plan)
  obtain children limited halt r1 where plan: "plan = (children, limited, halt, r1)" by (cases plan)
  have r1: "listed children (r_candidates r1)" "beam_books S r1"
    using plan_layer_listed [OF Inr [unfolded plan]] planned_books [OF books] by (simp_all add: listed_def)
  have "replay_prefixes (S\<lparr>pool := k\<rparr>) children r1 = replay_prefixes S children r1"
    using replay_prefixes_each [OF r1(2) key r1(1)]
      replay_prefixes_each [of "S\<lparr>pool := k\<rparr>" r1 children] r1 key
    by (simp add: beam_books_def pool_coherent replay_each_pool)
  then show ?thesis by (simp add: beam_layer_def plan_layer_pool collect_pool Inr plan)
qed

lemma layer_books:
  assumes books: "beam_books S r" and key: "replays_by_key S" and layer: "beam_layer S width obs r = Inr (chosen, r')"
  shows "beam_books S r'"
proof (rule beam_layer_Inr [OF layer])
  fix children limited halt r1 r2 seen c
  assume plan: "plan_layer S obs (remaining_slots S r) [] False r = Inr (children, limited, halt, r1)"
    and replayed: "replay_prefixes S children r1 = Inr (r2, seen)"
    and closed: "close_layer width obs halt c r2 = (chosen, r')"
  have r1: "listed children (r_candidates r1)" "beam_books S r1"
    using plan_layer_listed [OF plan] planned_books [OF books] by (simp_all add: listed_def)
  have "replay_each S children r1 = Inr (r2, seen)"
    using replayed replay_prefixes_each [OF r1(2) key r1(1)] by simp
  from replay_each_books [OF r1(2) key this] closed show "beam_books S r'" by (rule close_books)
qed

lemma layers_pool:
  "beam_books S r \<Longrightarrow> replays_by_key S \<Longrightarrow> beam_layers n (S\<lparr>pool := k\<rparr>) width obs r = beam_layers n S width obs r"
proof (induction n arbitrary: obs r)
  case 0
  then show ?case by (cases obs) simp_all
next
  case (Suc n)
  show ?case
  proof (cases obs)
    case (Cons ob rest)
    show ?thesis
    proof (cases "beam_layer S width (ob # rest) r")
      case (Inl err)
      then show ?thesis by (simp add: Cons layer_pool [OF Suc.prems])
    next
      case (Inr res)
      obtain chosen r1 where res: "res = (chosen, r1)" by (cases res)
      have "beam_books S r1" by (rule layer_books [OF Suc.prems Inr [unfolded res]])
      from Suc.IH [OF this Suc.prems(2)] show ?thesis by (simp add: Cons layer_pool [OF Suc.prems] Inr res)
    qed
  qed simp
qed

section \<open>Runs\<close>

lemma beam_pool:
  assumes key: "replays_by_key S"
  shows "run_beam n (S\<lparr>pool := k\<rparr>) (new_runtime S) = run_beam n S (new_runtime S)"
proof -
  obtain r1 reason where r1: "hard_budget_reason S (new_runtime S) = (r1, reason)"
    by (cases "hard_budget_reason S (new_runtime S)")
  have "plan_frame (new_runtime S) r1" using r1 by (auto simp: hard_budget_reason_def Let_def plan_frame_def)
  then have books: "beam_books S r1"
    by (rule planned_books [rotated]) (simp add: beam_books_def coherent_def new_runtime_def)
  have layers: "beam_layers n (S\<lparr>pool := k\<rparr>) width obs r2 = beam_layers n S width obs r2"
    if "replay_prefix S [] r1 = Inr (r2, Some start)" for width obs r2 start
    by (rule layers_pool [OF replay_books [OF books key that] key])
  show ?thesis
  proof (cases "replay_prefix S [] r1")
    case (Inl err)
    then show ?thesis
      by (cases "dict_get (parameters (strategy S)) ''beam_width''"; cases reason) (simp_all add: run_beam_def r1)
  next
    case (Inr res)
    obtain r2 node where res: "res = (r2, node)" by (cases res)
    show ?thesis
      using layers
      by (cases "dict_get (parameters (strategy S)) ''beam_width''"; cases reason; cases node) (simp_all add: run_beam_def r1 Inr res)
  qed
qed

lemma same_search_refl: "same_search r r"
  unfolding same_search_def by (intro exI [of _ "r_prefetched r"] exI [of _ "r_candidates r"]) simp

lemma same_end_refl: "same_end x x"
  by (cases x; cases "the x") (simp_all add: same_search_refl)

lemma run_pool:
  assumes key: "replays_by_key S"
  shows "same_end (run_search n S) (run_search n (S\<lparr>pool := k\<rparr>))"
proof (cases "execution_mode (strategy S) = ''depth_first''")
  case True
  have "same_end (depth_first n S [[]] (new_runtime S)) (depth_first n (S\<lparr>pool := k\<rparr>) [[]] (new_runtime S))"
    by (rule depth_first_same [OF start_covering _ same_search_refl key])
      (use start_covering [of "S\<lparr>pool := k\<rparr>"] in simp)
  then show ?thesis using True by (simp add: run_search_def)
next
  case False
  then show ?thesis using beam_pool [OF key] same_end_refl by (simp add: run_search_def)
qed

end
