(* ===== verification/Player_View.thy ===== *)
theory Player_View
  imports Action_Model State_Identity Failures "HOL-Library.Product_Lexorder"
begin

text \<open>
  \<open>engine/replay/player_view.py\<close>: what one player may see of a duel that was recorded with complete
  information; with \<open>CompleteSnapshot\<close> of \<open>engine/bridge/ocgcore/state.py\<close> and the event record of
  \<open>engine/replay/v03a.py\<close>. The projection rejects every shape it does not know.
\<close>

unbundle bit_operations_syntax

section \<open>Constants\<close>

definition PLAYER_VIEW_REPLAY_SCHEMA_VERSION :: string where
  "PLAYER_VIEW_REPLAY_SCHEMA_VERSION = ''player-view-replay-v1''"
definition PLAYER_VIEW_MANIFEST_SCHEMA_VERSION :: string where
  "PLAYER_VIEW_MANIFEST_SCHEMA_VERSION = ''player-view-manifest-v1''"
definition PLAYER_VIEW_OBSERVATION_SCHEMA_VERSION :: string where
  "PLAYER_VIEW_OBSERVATION_SCHEMA_VERSION = ''player-view-observation-v1''"
definition PLAYER_VIEW_EVENT_SCHEMA_VERSION :: string where
  "PLAYER_VIEW_EVENT_SCHEMA_VERSION = ''player-view-event-v1''"
definition PLAYER_VIEW_PROJECTOR_ID :: string where
  "PLAYER_VIEW_PROJECTOR_ID = ''ocgcore-player-view-projector-v1''"
definition CARD_INSTANCE_SNAPSHOT_SCHEMA_VERSION :: string where
  "CARD_INSTANCE_SNAPSHOT_SCHEMA_VERSION = ''ocgcore-card-instance-snapshot-v2''"

definition LOCATION_DECK :: int where "LOCATION_DECK = 1"
definition LOCATION_HAND :: int where "LOCATION_HAND = 2"
definition LOCATION_MZONE :: int where "LOCATION_MZONE = 4"
definition LOCATION_SZONE :: int where "LOCATION_SZONE = 8"
definition LOCATION_GRAVE :: int where "LOCATION_GRAVE = 16"
definition LOCATION_REMOVED :: int where "LOCATION_REMOVED = 32"
definition LOCATION_EXTRA :: int where "LOCATION_EXTRA = 64"

lemmas location_defs = LOCATION_DECK_def LOCATION_HAND_def LOCATION_MZONE_def LOCATION_SZONE_def
  LOCATION_GRAVE_def LOCATION_REMOVED_def LOCATION_EXTRA_def

definition LOCATION_ORDER :: "int list" where
  "LOCATION_ORDER = [LOCATION_DECK, LOCATION_HAND, LOCATION_MZONE, LOCATION_SZONE, LOCATION_GRAVE,
     LOCATION_REMOVED, LOCATION_EXTRA]"

definition location_label :: "int \<Rightarrow> string" where
  "location_label l =
    the (map_of (zip LOCATION_ORDER
      [''deck'', ''hand'', ''monster_zone'', ''spell_trap_zone'', ''graveyard'', ''banished'', ''extra_deck'']) l)"

definition CARD_TOP_LEVEL_FIELDS :: "string list" where
  "CARD_TOP_LEVEL_FIELDS = [''controller'', ''fields'', ''instance_key'', ''location'', ''persistent_instance_id'',
     ''player_view_instance_ids'', ''slot'']"

definition KNOWN_QUERY_FIELDS :: "string list" where
  "KNOWN_QUERY_FIELDS = [''alias'', ''attack'', ''attribute'', ''base_attack'', ''base_defense'', ''code'',
     ''counters'', ''cover'', ''defense'', ''end'', ''equip_card'', ''is_hidden'', ''is_public'', ''left_scale'',
     ''level'', ''link'', ''overlay_cards'', ''owner'', ''position'', ''race'', ''rank'', ''reason'',
     ''reason_card'', ''right_scale'', ''status'', ''target_cards'', ''type'']"

definition PUBLIC_CARD_FIELDS :: "string list" where
  "PUBLIC_CARD_FIELDS = [''alias'', ''attack'', ''attribute'', ''base_attack'', ''base_defense'', ''code'',
     ''defense'', ''is_public'', ''left_scale'', ''level'', ''link'', ''owner'', ''position'', ''race'', ''rank'',
     ''right_scale'', ''status'', ''type'']"

definition KNOWN_REQUEST_TYPES :: "string list" where
  "KNOWN_REQUEST_TYPES = [''announce_attribute'', ''announce_card'', ''announce_number'', ''announce_race'',
     ''rock_paper_scissors'', ''select_battle_command'', ''select_card'', ''select_chain'', ''select_counter'',
     ''select_disfield'', ''select_effect_yes_no'', ''select_idle_command'', ''select_option'', ''select_place'',
     ''select_position'', ''select_sum'', ''select_tribute'', ''select_unselect_card'', ''select_yes_no'',
     ''sort_card'', ''sort_chain'']"

definition KNOWN_PROCESS_STATES :: "string list" where
  "KNOWN_PROCESS_STATES = [''awaiting_response'', ''cards_loaded'', ''duel_created'', ''ended'', ''failed'',
     ''processing'', ''started'', ''version_checked'']"

definition FIELD_STATE_FIELDS :: "string list" where
  "FIELD_STATE_FIELDS = [''chain'', ''chain_count'', ''duel_options'', ''players'']"

definition PLAYER_FIELD_FIELDS :: "string list" where
  "PLAYER_FIELD_FIELDS = [''banished_count'', ''deck_count'', ''extra_deck_count'', ''face_up_extra_count'',
     ''graveyard_count'', ''hand_count'', ''life_points'', ''monster_zones'', ''player'', ''spell_trap_zones'']"

definition CHAIN_FIELDS :: "string list" where
  "CHAIN_FIELDS = [''description'', ''handler'', ''triggering_controller'', ''triggering_location'',
     ''triggering_sequence'']"

definition CHAIN_HANDLER_FIELDS :: "string list" where
  "CHAIN_HANDLER_FIELDS = [''code'', ''controller'', ''location'', ''position'', ''sequence'']"

section \<open>Snapshots and events\<close>

record snapshot =
  sn_environment :: pydict
  sn_field_state :: pyval
  sn_zones :: "pyval list"
  sn_process :: string
  sn_request :: pyval
  sn_completeness :: string
  sn_missing :: "string list"
  sn_display :: pydict
  sn_mode :: information_mode
  sn_sampling :: "pydict option"
  sn_instances :: "string option"

record replay_event =
  re_step :: int
  re_request_signature :: string
  re_action :: action
  re_node_id :: string
  re_request :: pydict
  re_core_input_ref :: string
  re_core_response :: pydict
  re_core_output :: pydict
  re_state_before :: string
  re_state_after :: string
  re_turn :: "int option"
  re_turn_action_index :: "int option"
  re_chain_index :: "int option"
  re_timestamp :: "string option"
  re_failure :: "pydict option"

section \<open>Shapes\<close>

definition reject :: "string \<Rightarrow> string \<Rightarrow> string \<Rightarrow> py_error + 'a" where
  "reject code path message = Inl (PlayerViewProjection code path message)"

definition bad_shape :: "string \<Rightarrow> string \<Rightarrow> py_error + 'a" where
  "bad_shape path message = reject ''unprojectable_shape'' path message"

definition pv_mapping :: "pyval \<Rightarrow> string \<Rightarrow> py_error + pydict" where
  "pv_mapping v path = (case v of PDict d \<Rightarrow> Inr d | _ \<Rightarrow> bad_shape path ''expected a mapping'')"

definition pv_integer :: "pyval \<Rightarrow> string \<Rightarrow> int \<Rightarrow> py_error + int" where
  "pv_integer v path minimum =
    (case v of
       PInt i \<Rightarrow> if i < minimum then bad_shape path (''expected an integer >= '' @ str_int minimum) else Inr i
     | _ \<Rightarrow> bad_shape path (''expected an integer >= '' @ str_int minimum))"

definition pv_sequence :: "pyval \<Rightarrow> string \<Rightarrow> string \<Rightarrow> py_error + pyval list" where
  "pv_sequence v path message =
    (case v of PList xs \<Rightarrow> Inr xs | PTuple xs \<Rightarrow> Inr xs | _ \<Rightarrow> bad_shape path message)"

definition check_fields :: "string \<Rightarrow> pydict \<Rightarrow> string list \<Rightarrow> string list \<Rightarrow> string \<Rightarrow> py_error + unit" where
  "check_fields label d allowed needed path =
    (let unknown = sort (filter (\<lambda>k. k \<notin> set allowed) (remdups (map fst d)));
         missing = sort (filter (\<lambda>k. k \<notin> fst ` set d) needed)
     in if unknown \<noteq> [] \<or> missing \<noteq> []
        then bad_shape path (label @ ''field mismatch; unknown='' @ repr_strs unknown @ '', missing='' @ repr_strs missing)
        else Inr ())"

definition exact_fields :: "pydict \<Rightarrow> string list \<Rightarrow> string \<Rightarrow> py_error + unit" where
  "exact_fields d expected path = check_fields [] d expected expected path"

definition at_index :: "string \<Rightarrow> nat \<Rightarrow> string" where
  "at_index path i = path @ ''['' @ str_nat i @ '']''"

section \<open>Cards\<close>

fun read_fields :: "string \<Rightarrow> nat \<Rightarrow> pyval list \<Rightarrow> pydict \<Rightarrow> py_error + pydict" where
  "read_fields path i [] known = Inr known"
| "read_fields path i (v # vs) known =
     (let here = at_index (path @ ''.fields'') i in
      sbind (pv_mapping v here) (\<lambda>f.
      sbind (exact_fields f [''flag'', ''name'', ''value''] here) (\<lambda>_.
      case dict_get f ''name'' of
        PStr name \<Rightarrow>
          if name \<notin> set KNOWN_QUERY_FIELDS
          then bad_shape (here @ ''.name'') (''unsupported query field '' @ repr_str name)
          else if map_of known name \<noteq> None
          then bad_shape (path @ ''.fields'') (''duplicate field '' @ repr_str name)
          else read_fields path (Suc i) vs (known @ [(name, dict_get f ''value'')])
      | v \<Rightarrow> bad_shape (here @ ''.name'') (''unsupported query field '' @ py_repr v))))"

definition card_fields :: "pydict \<Rightarrow> string \<Rightarrow> py_error + pydict" where
  "card_fields entry path =
    sbind (check_fields ''card '' entry CARD_TOP_LEVEL_FIELDS
      [''controller'', ''fields'', ''instance_key'', ''location'', ''slot''] path) (\<lambda>_.
    sbind (pv_sequence (dict_get entry ''fields'') (path @ ''.fields'') ''expected a sequence'') (\<lambda>raw.
    read_fields path 0 raw []))"

definition viewer_alias :: "string option \<Rightarrow> pydict \<Rightarrow> int \<Rightarrow> string \<Rightarrow> py_error + string option" where
  "viewer_alias instances entry who path =
    (let aliases = dict_get entry ''player_view_instance_ids'' in
     case instances of
       None \<Rightarrow>
         if aliases \<noteq> PNone \<or> map_of entry ''persistent_instance_id'' \<noteq> None
         then bad_shape path ''v1 snapshot contains v2 identity fields'' else Inr None
     | Some schema \<Rightarrow>
         if schema \<noteq> CARD_INSTANCE_SNAPSHOT_SCHEMA_VERSION
         then bad_shape path ''unsupported card instance schema''
         else (case aliases of
             PDict d \<Rightarrow>
               (case dict_get d (str_int who) of
                  PStr s \<Rightarrow>
                    if take 9 s = ''viewcard_'' then Inr (Some s)
                    else reject ''missing_viewer_alias'' path ''visible card has no valid viewer alias''
                | _ \<Rightarrow> reject ''missing_viewer_alias'' path ''visible card has no valid viewer alias'')
           | _ \<Rightarrow> reject ''missing_viewer_alias'' path ''visible card has no viewer alias mapping''))"

definition public_fields :: "pydict \<Rightarrow> pydict" where
  "public_fields facts =
    concat (map (\<lambda>name. case map_of facts name of None \<Rightarrow> [] | Some v \<Rightarrow> [(name, to_canonical_data v)]) PUBLIC_CARD_FIELDS)"

definition public_card ::
  "string option \<Rightarrow> pydict \<Rightarrow> pydict \<Rightarrow> int \<Rightarrow> bool \<Rightarrow> string \<Rightarrow> py_error + pydict"
where
  "public_card instances entry facts who include_sequence path =
    (if map_of facts ''code'' = None then bad_shape path ''visible card has no card code''
     else
     sbind (pv_integer (dict_get entry ''controller'') (path @ ''.controller'') 0) (\<lambda>controller.
     sbind (pv_integer (dict_get entry ''location'') (path @ ''.location'') 0) (\<lambda>location.
     sbind (if include_sequence then sbind (pv_integer (dict_get entry ''slot'') (path @ ''.slot'') 0) (\<lambda>i. Inr [(''sequence'', PInt i)])
            else Inr []) (\<lambda>sequence.
     sbind (viewer_alias instances entry who path) (\<lambda>alias_id.
     Inr (public_fields facts @ [(''controller'', PInt controller), (''location'', PInt location)] @ sequence @
       (case alias_id of None \<Rightarrow> [] | Some s \<Rightarrow> [(''viewer_instance_alias'', PStr s)])))))))"

definition is_hidden :: "pydict \<Rightarrow> bool" where
  "is_hidden facts \<longleftrightarrow>
    eq_int (dict_get facts ''is_hidden'') 1 \<or>
    (is_int (dict_get facts ''position'') \<and> int_val (dict_get facts ''position'') AND 10 \<noteq> 0)"

section \<open>The field\<close>

fun project_slots :: "string \<Rightarrow> int \<Rightarrow> pyval list \<Rightarrow> py_error + pyval list" where
  "project_slots path n [] = Inr []"
| "project_slots path n (v # vs) =
     (if v = PNone then project_slots path (n + 1) vs
      else let here = path @ ''['' @ str_int n @ '']'' in
        sbind (pv_mapping v here) (\<lambda>slot.
        sbind (exact_fields slot [''overlay_count'', ''position''] here) (\<lambda>_.
        sbind (pv_integer (dict_get slot ''overlay_count'') (here @ ''.overlay_count'') 0) (\<lambda>overlays.
        sbind (pv_integer (dict_get slot ''position'') (here @ ''.position'') 0) (\<lambda>position.
        sbind (project_slots path (n + 1) vs) (\<lambda>rest.
        Inr (PDict [(''overlay_count'', PInt overlays), (''position'', PInt position), (''sequence'', PInt n)] # rest)))))))"

definition project_zone_slots :: "pydict \<Rightarrow> string \<Rightarrow> string \<Rightarrow> nat \<Rightarrow> py_error + pyval" where
  "project_zone_slots side path name width =
    (let message = ''expected '' @ str_nat width @ '' slots'' in
     sbind (pv_sequence (dict_get side name) (path @ ''.'' @ name) message) (\<lambda>slots.
     if length slots \<noteq> width then bad_shape (path @ ''.'' @ name) message
     else sbind (project_slots (path @ ''.'' @ name) 0 slots) (\<lambda>vs. Inr (PList vs))))"

text \<open>A player's life points and occupied zones.\<close>

definition project_player :: "pyval \<Rightarrow> nat \<Rightarrow> py_error + (pyval \<times> pyval)" where
  "project_player v index =
    (let path = at_index ''field_state.players'' index in
     sbind (pv_mapping v path) (\<lambda>player.
     sbind (exact_fields player PLAYER_FIELD_FIELDS path) (\<lambda>_.
     sbind (pv_integer (dict_get player ''player'') (path @ ''.player'') 0) (\<lambda>i.
     if i \<noteq> int index then bad_shape (path @ ''.player'') ''unexpected player order''
     else
     sbind (pv_integer (dict_get player ''life_points'') (path @ ''.life_points'') 0) (\<lambda>points.
     sbind (project_zone_slots player path ''monster_zones'' 7) (\<lambda>monsters.
     sbind (project_zone_slots player path ''spell_trap_zones'' 8) (\<lambda>spells.
     Inr (PInt points, PDict [(''monster_zones'', monsters), (''spell_trap_zones'', spells)]))))))))"

definition project_link :: "pyval \<Rightarrow> nat \<Rightarrow> py_error + pyval" where
  "project_link v index =
    (let path = at_index ''field_state.chain'' index in
     sbind (pv_mapping v path) (\<lambda>link.
     sbind (exact_fields link CHAIN_FIELDS path) (\<lambda>_.
     sbind (pv_mapping (dict_get link ''handler'') (path @ ''.handler'')) (\<lambda>handler.
     sbind (exact_fields handler CHAIN_HANDLER_FIELDS (path @ ''.handler'')) (\<lambda>_.
     sbind (sseq (map (\<lambda>(k, v). sbind (pv_integer v (path @ ''.handler.'' @ k) 0) (\<lambda>i. Inr (k, PInt i))) handler)) (\<lambda>shown.
     sbind (pv_integer (dict_get link ''triggering_controller'') (path @ ''.triggering_controller'') 0) (\<lambda>c.
     sbind (pv_integer (dict_get link ''triggering_location'') (path @ ''.triggering_location'') 0) (\<lambda>l.
     sbind (pv_integer (dict_get link ''triggering_sequence'') (path @ ''.triggering_sequence'') 0) (\<lambda>n.
     Inr (PDict [(''handler'', PDict shown), (''triggering_controller'', PInt c), (''triggering_location'', PInt l),
       (''triggering_sequence'', PInt n)]))))))))))"

definition project_field_state :: "pyval \<Rightarrow> py_error + pydict" where
  "project_field_state v =
    sbind (pv_mapping v ''field_state'') (\<lambda>d.
    sbind (exact_fields d FIELD_STATE_FIELDS ''field_state'') (\<lambda>_.
    sbind (pv_sequence (dict_get d ''players'') ''field_state.players'' ''expected two players'') (\<lambda>players.
    if length players \<noteq> 2 then bad_shape ''field_state.players'' ''expected two players''
    else
    sbind (project_player (players ! 0) 0) (\<lambda>(points0, zones0).
    sbind (project_player (players ! 1) 1) (\<lambda>(points1, zones1).
    sbind (pv_sequence (dict_get d ''chain'') ''field_state.chain'' ''expected a sequence'') (\<lambda>chain.
    sbind (sseq (map (\<lambda>(i, link). project_link link i) (enumerate 0 chain))) (\<lambda>links.
    sbind (pv_integer (dict_get d ''chain_count'') ''field_state.chain_count'' 0) (\<lambda>n.
    if n \<noteq> int (length links) then bad_shape ''field_state.chain_count'' ''does not match chain length''
    else Inr
      [(''chain'', PList links),
       (''chain_count'', PInt n),
       (''life_points'', PDict [(''0'', points0), (''1'', points1)]),
       (''occupied_zones'', PDict [(''0'', zones0), (''1'', zones1)])]))))))))"

section \<open>The pending request\<close>

definition REQUEST_FIELDS :: "string list" where
  "REQUEST_FIELDS = [''candidate_action_kinds'', ''candidate_ids'', ''forced'', ''player'', ''request_signature'',
     ''request_type'']"

definition check_request_type :: "pyval \<Rightarrow> string \<Rightarrow> py_error + string" where
  "check_request_type v path =
    (case v of
       PStr t \<Rightarrow> if t \<notin> set KNOWN_REQUEST_TYPES then bad_shape path (''unsupported request type '' @ repr_str t) else Inr t
     | _ \<Rightarrow> bad_shape path (''unsupported request type '' @ py_repr v))"

definition action_category :: "pyval \<Rightarrow> nat \<Rightarrow> py_error + string" where
  "action_category v index =
    (case v of
       PNone \<Rightarrow> Inr ''UNSPECIFIED''
     | PStr s \<Rightarrow>
         if s = [] then bad_shape (at_index ''pending_request.candidate_action_kinds'' index) ''expected a non-empty string or legacy null''
         else Inr s
     | _ \<Rightarrow> bad_shape (at_index ''pending_request.candidate_action_kinds'' index) ''expected a non-empty string or legacy null'')"

definition project_pending_request :: "pyval \<Rightarrow> int \<Rightarrow> py_error + pyval" where
  "project_pending_request v who =
    (if v = PNone then Inr PNone
     else
     sbind (pv_mapping v ''pending_request'') (\<lambda>d.
     sbind (check_fields [] d (''request_observation_id'' # REQUEST_FIELDS) REQUEST_FIELDS ''pending_request'') (\<lambda>_.
     sbind (pv_integer (dict_get d ''player'') ''pending_request.player'' 0) (\<lambda>player.
     if player \<noteq> who then Inr PNone
     else
     sbind (check_request_type (dict_get d ''request_type'') ''pending_request.request_type'') (\<lambda>t.
     sbind (pv_sequence (dict_get d ''candidate_action_kinds'') ''pending_request.candidate_action_kinds'' ''expected a sequence'') (\<lambda>kinds.
     sbind (sseq (map (\<lambda>(i, k). action_category k i) (enumerate 0 kinds))) (\<lambda>categories.
     case dict_get d ''forced'' of
       PBool forced \<Rightarrow> Inr (PDict
         [(''action_categories'', PList (map PStr (sort (remdups categories)))),
          (''forced'', PBool forced),
          (''player'', PInt player),
          (''request_type'', PStr t)])
     | _ \<Rightarrow> bad_shape ''pending_request.forced'' ''expected a boolean'')))))))"

section \<open>Zones\<close>

record zone_view =
  zv_controller :: int
  zv_location :: int
  zv_count :: nat
  zv_cards :: "pydict list option"
  zv_hidden :: nat

definition on_field :: "int \<Rightarrow> bool" where
  "on_field zone \<longleftrightarrow> zone \<in> {LOCATION_MZONE, LOCATION_SZONE}"

definition count_only :: "int \<Rightarrow> int \<Rightarrow> int \<Rightarrow> bool" where
  "count_only who side zone \<longleftrightarrow>
    zone = LOCATION_DECK \<or> (side \<noteq> who \<and> zone \<in> {LOCATION_HAND, LOCATION_EXTRA})"

definition hidden_card :: "int \<Rightarrow> int \<Rightarrow> int \<Rightarrow> pyval \<Rightarrow> pydict" where
  "hidden_card side zone i posture =
    [(''controller'', PInt side), (''hidden'', PBool True), (''location'', PInt zone),
     (''position'', posture), (''sequence'', PInt i)]"

text \<open>What a card adds to its zone: \<open>None\<close> for a hidden card that is only counted.\<close>

definition project_card ::
  "string option \<Rightarrow> int \<Rightarrow> int \<Rightarrow> int \<Rightarrow> string \<Rightarrow> pyval \<Rightarrow> py_error + pydict option"
where
  "project_card instances who side zone path v =
    sbind (pv_mapping v path) (\<lambda>card.
    sbind (card_fields card path) (\<lambda>facts.
    sbind (pv_integer (dict_get card ''controller'') (path @ ''.controller'') 0) (\<lambda>c.
    sbind (pv_integer (dict_get card ''location'') (path @ ''.location'') 0) (\<lambda>l.
    if c \<noteq> side \<or> l \<noteq> zone then bad_shape path ''card coordinate disagrees with zone''
    else
    sbind (pv_integer (dict_get card ''slot'') (path @ ''.slot'') 0) (\<lambda>sequence.
    if side \<noteq> who \<and> is_hidden facts
    then (if \<not> on_field zone then Inr None
          else case map_of facts ''position'' of
            None \<Rightarrow> Inl (KeyError ''position'')
          | Some position \<Rightarrow> Inr (Some (hidden_card side zone sequence position)))
    else sbind (public_card instances card facts who (on_field zone) path) (\<lambda>shown. Inr (Some shown)))))))"

definition sort_by_text :: "pydict list \<Rightarrow> py_error + pydict list" where
  "sort_by_text cards =
    sbind (sseq (map (\<lambda>c. canonical_json (PDict c)) cards)) (\<lambda>texts.
    Inr (map snd (sort_key fst (zip texts cards))))"

definition project_cards ::
  "string option \<Rightarrow> int \<Rightarrow> int \<Rightarrow> int \<Rightarrow> string \<Rightarrow> pyval list \<Rightarrow> py_error + (pydict list \<times> nat)"
where
  "project_cards instances who side zone path cards =
    sbind (sseq (map (\<lambda>(i, v). project_card instances who side zone (at_index (path @ ''.cards'') i) v)
      (enumerate 0 cards))) (\<lambda>shown.
    sbind (if on_field zone then Inr (List.map_filter id shown) else sort_by_text (List.map_filter id shown)) (\<lambda>in_order.
    Inr (in_order, length (filter (\<lambda>c. c = None) shown))))"

definition project_zone ::
  "string option \<Rightarrow> int \<Rightarrow> (int \<times> int) list \<Rightarrow> nat \<Rightarrow> pyval \<Rightarrow> py_error + zone_view"
where
  "project_zone instances who seen index v =
    (let path = at_index ''zones'' index in
     sbind (pv_mapping v path) (\<lambda>zone.
     sbind (exact_fields zone [''cards'', ''controller'', ''location'', ''location_name''] path) (\<lambda>_.
     sbind (pv_integer (dict_get zone ''controller'') (path @ ''.controller'') 0) (\<lambda>controller.
     sbind (pv_integer (dict_get zone ''location'') (path @ ''.location'') 0) (\<lambda>location.
     if controller \<notin> {0, 1} \<or> location \<notin> set LOCATION_ORDER then bad_shape path ''unknown controller or location''
     else if (controller, location) \<in> set seen then bad_shape path ''duplicate zone''
     else if dict_get zone ''location_name'' \<noteq> PStr (location_label location)
     then bad_shape (path @ ''.location_name'') ''location name mismatch''
     else
     sbind (pv_sequence (dict_get zone ''cards'') (path @ ''.cards'') ''expected a sequence'') (\<lambda>raw.
     let cards = filter (\<lambda>c. c \<noteq> PNone) raw;
         view = \<lparr>zv_controller = controller, zv_location = location, zv_count = length cards, zv_cards = None,
           zv_hidden = 0\<rparr>
     in if count_only who controller location then Inr view
        else sbind (project_cards instances who controller location path cards) (\<lambda>(shown, hidden).
          Inr (view\<lparr>zv_cards := Some shown, zv_hidden := hidden\<rparr>))))))))"

fun project_zones ::
  "string option \<Rightarrow> int \<Rightarrow> (int \<times> int) list \<Rightarrow> nat \<Rightarrow> pyval list \<Rightarrow> py_error + zone_view list"
where
  "project_zones instances who seen index [] = Inr []"
| "project_zones instances who seen index (v # vs) =
     sbind (project_zone instances who seen index v) (\<lambda>z.
     sbind (project_zones instances who ((zv_controller z, zv_location z) # seen) (Suc index) vs) (\<lambda>zs. Inr (z # zs)))"

definition zone_to_dict :: "zone_view \<Rightarrow> pydict" where
  "zone_to_dict z =
    [(''controller'', PInt (zv_controller z)),
     (''count'', PInt (int (zv_count z))),
     (''location'', PInt (zv_location z)),
     (''location_name'', PStr (location_label (zv_location z)))] @
    (case zv_cards z of None \<Rightarrow> [] | Some cards \<Rightarrow> [(''cards'', PList (map PDict cards))]) @
    (if zv_hidden z = 0 then [] else [(''hidden_count'', PInt (int (zv_hidden z)))])"

section \<open>Observations\<close>

text \<open>A marker names a hidden card within one observation; it is written into the payload.\<close>

definition mark_hidden :: "string \<Rightarrow> int \<Rightarrow> pydict \<Rightarrow> py_error + pydict" where
  "mark_hidden scope who entry =
    (if dict_get entry ''hidden'' \<noteq> PBool True then Inr entry
     else
     sbind (stable_digest (PDict
       [(''coordinate'', PTuple [dict_get entry ''controller'', dict_get entry ''location'', dict_get entry ''sequence'']),
        (''scope'', PStr scope), (''viewer'', PInt who)]) ''hidden_'') (\<lambda>marker.
     Inr (dict_set ''hidden_marker'' (PStr marker) entry)))"

definition mark_zone :: "string \<Rightarrow> int \<Rightarrow> zone_view \<Rightarrow> py_error + zone_view" where
  "mark_zone scope who z =
    (case zv_cards z of
       None \<Rightarrow> Inr z
     | Some cards \<Rightarrow> sbind (sseq (map (mark_hidden scope who) cards)) (\<lambda>marked. Inr (z\<lparr>zv_cards := Some marked\<rparr>)))"

definition observation_payload ::
  "pydict \<Rightarrow> pyval \<Rightarrow> string \<Rightarrow> string \<Rightarrow> int \<Rightarrow> int \<Rightarrow> zone_view list \<Rightarrow> pydict"
where
  "observation_payload field request ph process n who zones =
    [(''field_state'', PDict field),
     (''pending_request'', request),
     (''phase'', PStr ph),
     (''process_category'', PStr process),
     (''schema_version'', PStr PLAYER_VIEW_OBSERVATION_SCHEMA_VERSION),
     (''turn'', PInt n),
     (''viewer'', PInt who),
     (''zones'', PList (map (PDict \<circ> zone_to_dict) zones))]"

definition zone_order :: "zone_view \<Rightarrow> int \<times> int" where
  "zone_order z = (zv_controller z, zv_location z)"

definition finish_observation :: "(zone_view list \<Rightarrow> pydict) \<Rightarrow> int \<Rightarrow> zone_view list \<Rightarrow> py_error + pydict" where
  "finish_observation payload who zones =
    sbind (stable_digest (PDict (payload zones)) ''obsscope_'') (\<lambda>scope.
    sbind (sseq (map (mark_zone scope who) zones)) (\<lambda>marked.
    sbind (stable_digest (PDict (payload marked)) ''observation_'') (\<lambda>i.
    Inr ((''observation_id'', PStr i) # canonical_entries (payload marked)))))"

definition project_observation :: "snapshot \<Rightarrow> int \<Rightarrow> pyval \<Rightarrow> pyval \<Rightarrow> py_error + pydict" where
  "project_observation s who n ph =
    (if who \<notin> {0, 1} then Inl (ValueError ''viewer must be 0 or 1'')
     else
     sbind (pv_integer n ''turn'' 1) (\<lambda>n.
     sbind (case ph of
         PStr p \<Rightarrow> if p = [] then bad_shape ''phase'' ''expected a non-empty string'' else Inr p
       | _ \<Rightarrow> bad_shape ''phase'' ''expected a non-empty string'') (\<lambda>ph.
     if sn_process s \<notin> set KNOWN_PROCESS_STATES then bad_shape ''process_state'' ''unsupported process state''
     else if length (sn_zones s) \<noteq> length LOCATION_ORDER * 2
     then bad_shape ''zones'' ''complete canonical zone set is required''
     else
     sbind (project_field_state (sn_field_state s)) (\<lambda>field.
     sbind (project_pending_request (sn_request s) who) (\<lambda>request.
     sbind (project_zones (sn_instances s) who [] 0 (sn_zones s)) (\<lambda>zones.
     if set (map zone_order zones) \<noteq> set (List.product [0, 1] LOCATION_ORDER)
     then bad_shape ''zones'' ''canonical zone coverage is incomplete''
     else finish_observation (observation_payload field request ph (sn_process s) n who) who
       (sort_key zone_order zones)))))))"

end
