(* ===== verification/Player_Replay.thy ===== *)
theory Player_Replay
  imports Player_View
begin

text \<open>
  \<open>engine/replay/player_view.py\<close>, second half: the events, the manifest and the result a player may
  see, the replay built from them and the check of its identity.
\<close>

section \<open>Events\<close>

definition CONSTRAINT_FIELDS :: "string list" where
  "CONSTRAINT_FIELDS = [''allow_duplicates'', ''max_selections'', ''min_selections'', ''ordered'', ''required'']"

fun check_booleans :: "pydict \<Rightarrow> string \<Rightarrow> string list \<Rightarrow> py_error + unit" where
  "check_booleans d path [] = Inr ()"
| "check_booleans d path (name # names) =
     (case dict_get d name of
        PBool b \<Rightarrow> check_booleans d path names
      | _ \<Rightarrow> bad_shape (path @ ''.'' @ name) ''expected a boolean'')"

definition event_path :: "replay_event \<Rightarrow> string" where
  "event_path event = ''events['' @ str_int (re_step event) @ '']''"

definition event_request :: "replay_event \<Rightarrow> int \<Rightarrow> py_error + pyval" where
  "event_request event who =
    (if a_player (re_action event) \<noteq> who then Inr PNone
     else
     let request = re_request event;
         path = event_path event @ ''.request'';
         limits = path @ ''.constraints''
     in
     sbind (check_request_type (dict_get request ''request_type'') (path @ ''.request_type'')) (\<lambda>t.
     sbind (pv_mapping (dict_get request ''constraints'') limits) (\<lambda>d.
     sbind (exact_fields d CONSTRAINT_FIELDS limits) (\<lambda>_.
     sbind (check_booleans d limits [''allow_duplicates'', ''ordered'', ''required'']) (\<lambda>_.
     sbind (pv_integer (dict_get d ''max_selections'') (limits @ ''.max_selections'') 0) (\<lambda>most.
     sbind (pv_integer (dict_get d ''min_selections'') (limits @ ''.min_selections'') 0) (\<lambda>least.
     Inr (PDict
       [(''constraints'', PDict
          [(''allow_duplicates'', dict_get d ''allow_duplicates''),
           (''max_selections'', PInt most),
           (''min_selections'', PInt least),
           (''ordered'', dict_get d ''ordered''),
           (''required'', dict_get d ''required'')]),
        (''request_type'', PStr t)]))))))))"

definition event_payload :: "replay_event \<Rightarrow> int \<Rightarrow> pyval \<Rightarrow> pyval \<Rightarrow> pyval \<Rightarrow> pyval \<Rightarrow> pydict" where
  "event_payload event who before after ph request =
    (let own = a_player (re_action event) = who in
     [(''action_category'', PStr (if own then action_kind_value (a_kind (re_action event)) else ''OPPONENT_ACTION'')),
      (''actor'', PInt (a_player (re_action event))),
      (''after_observation_id'', after),
      (''before_observation_id'', before),
      (''chain_index'', opt_int (re_chain_index event)),
      (''phase'', ph),
      (''request'', request),
      (''response'', if own then PDict [(''submitted'', PBool True)] else PNone),
      (''schema_version'', PStr PLAYER_VIEW_EVENT_SCHEMA_VERSION),
      (''step'', PInt (re_step event)),
      (''turn'', opt_int (re_turn event))])"

definition project_event ::
  "replay_event \<Rightarrow> int \<Rightarrow> pyval \<Rightarrow> pyval \<Rightarrow> pyval \<Rightarrow> py_error + pydict"
where
  "project_event event who before after ph =
    (if who \<notin> {0, 1} then Inl (ValueError ''viewer must be 0 or 1'')
     else if re_turn event = None then bad_shape (event_path event @ ''.turn'') ''turn is required''
     else if a_player (re_action event) \<notin> {0, 1} then bad_shape (event_path event @ ''.actor'') ''unknown actor''
     else
     sbind (event_request event who) (\<lambda>request.
     let payload = event_payload event who before after ph request in
     sbind (stable_digest (PDict payload) ''playerviewevent_'') (\<lambda>i.
     Inr ((''event_id'', PStr i) # canonical_entries payload))))"

section \<open>Manifest and result\<close>

text \<open>\<open>isinstance(v, (str, int, list, tuple))\<close> and not the empty string.\<close>

fun public_metadata :: "pyval \<Rightarrow> bool" where
  "public_metadata (PStr s) = (s \<noteq> [])"
| "public_metadata (PInt i) = True"
| "public_metadata (PBool b) = True"
| "public_metadata (PList vs) = True"
| "public_metadata (PTuple vs) = True"
| "public_metadata v = False"

fun check_metadata :: "(pyval \<times> string) list \<Rightarrow> py_error + unit" where
  "check_metadata [] = Inr ()"
| "check_metadata ((v, path) # vs) =
     (if public_metadata v then check_metadata vs
      else bad_shape (''source_route.replay.manifest.environment.'' @ path) ''missing public version metadata'')"

definition view_manifest :: "pydict \<Rightarrow> py_error + pydict" where
  "view_manifest route =
    sbind (pv_mapping (dict_get route ''replay'') ''source_route.replay'') (\<lambda>replay.
    sbind (pv_mapping (dict_get replay ''manifest'') ''source_route.replay.manifest'') (\<lambda>manifest.
    sbind (pv_mapping (dict_get manifest ''environment'') ''source_route.replay.manifest.environment'') (\<lambda>environment.
    sbind (pv_mapping (dict_get environment ''project'') ''source_route.replay.manifest.environment.project'') (\<lambda>project.
    sbind (pv_mapping (dict_get environment ''core'') ''source_route.replay.manifest.environment.core'') (\<lambda>core.
    sbind (pv_mapping (dict_get environment ''assets'') ''source_route.replay.manifest.environment.assets'') (\<lambda>assets.
    sbind (check_metadata
       [(dict_get project ''replay_schema'', ''project.replay_schema''),
        (dict_get project ''snapshot_schema'', ''project.snapshot_schema''),
        (dict_get core ''api'', ''core.api''),
        (dict_get core ''lock_id'', ''core.lock_id''),
        (dict_get assets ''lock_id'', ''assets.lock_id'')]) (\<lambda>_.
    Inr (canonical_entries
      [(''asset_lock_id'', dict_get assets ''lock_id''),
       (''core_api'', dict_get core ''api''),
       (''core_lock_id'', dict_get core ''lock_id''),
       (''projector_id'', PStr PLAYER_VIEW_PROJECTOR_ID),
       (''schema_version'', PStr PLAYER_VIEW_MANIFEST_SCHEMA_VERSION),
       (''source_replay_schema_version'', dict_get replay ''schema_version''),
       (''source_route_schema_version'', dict_get route ''schema_version''),
       (''source_snapshot_schema_version'', dict_get project ''snapshot_schema'')]))))))))"

text \<open>\<open>bool(v)\<close>; an object of another class is true, as Python has it unless the class says otherwise.\<close>

fun py_bool :: "pyval \<Rightarrow> bool" where
  "py_bool PNone = False"
| "py_bool (PBool b) = b"
| "py_bool (PInt i) = (i \<noteq> 0)"
| "py_bool (PFloat t) = (\<not> eq_int (PFloat t) 0)"
| "py_bool (PStr s) = (s \<noteq> [])"
| "py_bool (PList vs) = (vs \<noteq> [])"
| "py_bool (PTuple vs) = (vs \<noteq> [])"
| "py_bool (PDict d) = (d \<noteq> [])"
| "py_bool (POpaque t) = True"

definition BOARD_FIELDS :: "string list" where
  "BOARD_FIELDS = [''phase'', ''score'', ''stop_reason'', ''success'', ''turn'']"

fun check_boards :: "pydict \<Rightarrow> pydict \<Rightarrow> string list \<Rightarrow> py_error + unit" where
  "check_boards terminal peak [] = Inr ()"
| "check_boards terminal peak (name # names) =
     (if map_of terminal name = None \<or> map_of peak name = None
      then bad_shape ''source_route.result'' (''missing public result field '' @ repr_str name)
      else check_boards terminal peak names)"

definition board_view :: "pydict \<Rightarrow> pyval" where
  "board_view board = PDict (map (\<lambda>name. (name, dict_get board name)) BOARD_FIELDS)"

definition view_result :: "pydict \<Rightarrow> py_error + pydict" where
  "view_result route =
    sbind (pv_mapping (dict_get route ''result'') ''source_route.result'') (\<lambda>result.
    sbind (pv_mapping (dict_get result ''terminal_board'') ''source_route.result.terminal_board'') (\<lambda>terminal.
    sbind (pv_mapping (dict_get result ''peak_board'') ''source_route.result.peak_board'') (\<lambda>peak.
    sbind (check_boards terminal peak BOARD_FIELDS) (\<lambda>_.
    Inr (canonical_entries
      [(''peak'', board_view peak),
       (''success'', PBool (py_bool (dict_get result ''success''))),
       (''terminal'', board_view terminal)])))))"

section \<open>The replay\<close>

record projection_input =
  pi_route :: pydict
  pi_initial :: snapshot
  pi_turn :: pyval
  pi_phase :: pyval
  pi_checkpoints :: "(snapshot \<times> pyval \<times> pyval) list"
  pi_events :: "replay_event list"
  pi_viewer :: int
  pi_parent :: "string option"
  pi_fork_step :: "int option"

fun project_events :: "int \<Rightarrow> nat \<Rightarrow> pydict list \<Rightarrow> replay_event list \<Rightarrow> py_error + pydict list" where
  "project_events who i observations [] = Inr []"
| "project_events who i observations (event # events) =
     (if re_step event \<noteq> int i then bad_shape (at_index ''events'' i @ ''.step'') ''event steps must be contiguous''
      else
      sbind (project_event event who (dict_get (observations ! i) ''observation_id'')
        (dict_get (observations ! Suc i) ''observation_id'') (dict_get (observations ! i) ''phase'')) (\<lambda>shown.
      sbind (project_events who (Suc i) observations events) (\<lambda>rest. Inr (shown # rest))))"

definition view_payload :: "projection_input \<Rightarrow> pydict list \<Rightarrow> pydict list \<Rightarrow> pydict \<Rightarrow> pydict \<Rightarrow> pydict" where
  "view_payload data observations events manifest result =
    [(''events'', PList (map PDict events)),
     (''initial_observation'', PDict (hd observations)),
     (''lineage'', PDict
       [(''fork_step'', opt_int (pi_fork_step data)),
        (''parent_player_view_id'', opt_str (pi_parent data))]),
     (''manifest'', PDict manifest),
     (''result'', PDict result),
     (''schema_version'', PStr PLAYER_VIEW_REPLAY_SCHEMA_VERSION),
     (''viewer'', PInt (pi_viewer data))]"

definition build_player_view_replay :: "projection_input \<Rightarrow> py_error + pydict" where
  "build_player_view_replay data =
    (let who = pi_viewer data in
     if who \<notin> {0, 1} then Inl (ValueError ''viewer must be 0 or 1'')
     else if length (pi_events data) \<noteq> length (pi_checkpoints data)
     then bad_shape ''events'' ''event and checkpoint counts differ''
     else
     sbind (sseq (map (\<lambda>(s, n, ph). project_observation s who n ph)
       ((pi_initial data, pi_turn data, pi_phase data) # pi_checkpoints data))) (\<lambda>observations.
     sbind (project_events who 0 observations (pi_events data)) (\<lambda>events.
     sbind (view_manifest (pi_route data)) (\<lambda>manifest.
     sbind (view_result (pi_route data)) (\<lambda>result.
     let payload = view_payload data observations events manifest result in
     sbind (stable_digest (PDict payload) ''playerview_'') (\<lambda>i.
     Inr ((''player_view_id'', PStr i) # canonical_entries payload)))))))"

definition VIEW_FIELDS :: "string list" where
  "VIEW_FIELDS = [''events'', ''initial_observation'', ''lineage'', ''manifest'', ''player_view_id'', ''result'',
     ''schema_version'', ''viewer'']"

definition assert_valid_player_view_replay :: "pydict \<Rightarrow> py_error + unit" where
  "assert_valid_player_view_replay document =
    sbind (exact_fields document VIEW_FIELDS ''player_view'') (\<lambda>_.
    if dict_get document ''schema_version'' \<noteq> PStr PLAYER_VIEW_REPLAY_SCHEMA_VERSION
    then bad_shape ''player_view.schema_version'' ''unsupported schema''
    else
    sbind (stable_digest (PDict (AList.delete ''player_view_id'' document)) ''playerview_'') (\<lambda>expected.
    if dict_get document ''player_view_id'' \<noteq> PStr expected
    then reject ''identity_mismatch'' ''player_view.player_view_id'' ''digest mismatch''
    else Inr ()))"

end
