(* ===== verification/Player_View_Laws.thy ===== *)
theory Player_View_Laws
  imports Player_Replay
begin

text \<open>
  Noninterference of the player view: \<open>same_view\<close> relates two snapshots that agree on what the
  redaction contract lets one player see, written over the raw snapshot and not over the
  projection; two related snapshots have the same observation.
\<close>

section \<open>What a card shows\<close>

definition raw_fact :: "pyval \<Rightarrow> string \<times> pyval" where
  "raw_fact v =
    (case v of
       PDict f \<Rightarrow> (case dict_get f ''name'' of PStr name \<Rightarrow> (name, dict_get f ''value'') | _ \<Rightarrow> ([], PNone))
     | _ \<Rightarrow> ([], PNone))"

fun entry_of :: "pyval \<Rightarrow> string \<Rightarrow> pyval" where
  "entry_of (PDict d) k = dict_get d k"
| "entry_of v k = PNone"

fun items_of :: "pyval \<Rightarrow> pyval list" where
  "items_of (PList vs) = vs"
| "items_of (PTuple vs) = vs"
| "items_of v = []"

definition card_fact :: "pyval \<Rightarrow> string \<Rightarrow> pyval option" where
  "card_fact v name = map_of (map raw_fact (items_of (entry_of v ''fields''))) name"

text \<open>Face down, or marked hidden by the core.\<close>

definition face_down :: "pyval \<Rightarrow> bool" where
  "face_down v \<longleftrightarrow>
    (case card_fact v ''is_hidden'' of None \<Rightarrow> False | Some x \<Rightarrow> eq_int x 1) \<or>
    (case card_fact v ''position'' of None \<Rightarrow> False | Some p \<Rightarrow> is_int p \<and> int_val p AND 10 \<noteq> 0)"

definition alias_of :: "int \<Rightarrow> pyval \<Rightarrow> pyval" where
  "alias_of who v = entry_of (entry_of v ''player_view_instance_ids'') (str_int who)"

text \<open>
  A face-down card of the opponent shows at most that it is there: on the field its slot and
  position, elsewhere nothing. Any other card shows its public fields, its slot when on the field, and
  the viewer's own name for it.
\<close>

definition same_card :: "int \<Rightarrow> int \<Rightarrow> int \<Rightarrow> pyval \<Rightarrow> pyval \<Rightarrow> bool" where
  "same_card who side zone v w \<longleftrightarrow>
    (if side \<noteq> who \<and> face_down v
     then face_down w \<and>
       (if on_field zone
        then entry_of v ''slot'' = entry_of w ''slot'' \<and> card_fact v ''position'' = card_fact w ''position''
        else True)
     else \<not> (side \<noteq> who \<and> face_down w) \<and>
       list_all (\<lambda>name. card_fact v name = card_fact w name) PUBLIC_CARD_FIELDS \<and>
       (if on_field zone then entry_of v ''slot'' = entry_of w ''slot'' else True) \<and>
       alias_of who v = alias_of who w)"

text \<open>Decks, and the hand and extra deck of the opponent, show how many cards they hold.\<close>

definition zone_cards :: "pyval \<Rightarrow> pyval list" where
  "zone_cards v = filter (\<lambda>c. c \<noteq> PNone) (items_of (entry_of v ''cards''))"

definition same_zone :: "int \<Rightarrow> pyval \<Rightarrow> pyval \<Rightarrow> bool" where
  "same_zone who v w \<longleftrightarrow>
    entry_of v ''controller'' = entry_of w ''controller'' \<and> entry_of v ''location'' = entry_of w ''location'' \<and>
    (let side = int_val (entry_of v ''controller''); zone = int_val (entry_of v ''location'') in
     if count_only who side zone then length (zone_cards v) = length (zone_cards w)
     else list_all2 (same_card who side zone) (zone_cards v) (zone_cards w))"

definition same_board :: "pyval \<Rightarrow> pyval \<Rightarrow> bool" where
  "same_board v w \<longleftrightarrow>
    list_all (\<lambda>k. entry_of v k = entry_of w k) [''life_points'', ''monster_zones'', ''spell_trap_zones'']"

definition same_link :: "pyval \<Rightarrow> pyval \<Rightarrow> bool" where
  "same_link v w \<longleftrightarrow>
    list_all (\<lambda>k. entry_of v k = entry_of w k)
      [''handler'', ''triggering_controller'', ''triggering_location'', ''triggering_sequence'']"

definition same_field :: "pyval \<Rightarrow> pyval \<Rightarrow> bool" where
  "same_field v w \<longleftrightarrow>
    list_all2 same_board (items_of (entry_of v ''players'')) (items_of (entry_of w ''players'')) \<and>
    list_all2 same_link (items_of (entry_of v ''chain'')) (items_of (entry_of w ''chain''))"

text \<open>A decision of the opponent is not shown at all.\<close>

definition same_request :: "int \<Rightarrow> pyval \<Rightarrow> pyval \<Rightarrow> bool" where
  "same_request who v w \<longleftrightarrow>
    (if entry_of v ''player'' = PInt who
     then list_all (\<lambda>k. entry_of v k = entry_of w k)
       [''player'', ''request_type'', ''forced'', ''candidate_action_kinds'']
     else entry_of w ''player'' \<noteq> PInt who)"

definition same_view :: "int \<Rightarrow> snapshot \<Rightarrow> snapshot \<Rightarrow> bool" where
  "same_view who s t \<longleftrightarrow>
    sn_process s = sn_process t \<and> sn_instances s = sn_instances t \<and>
    same_field (sn_field_state s) (sn_field_state t) \<and>
    same_request who (sn_request s) (sn_request t) \<and>
    list_all2 (same_zone who) (sn_zones s) (sn_zones t)"

section \<open>Shapes\<close>

lemma pv_mapping_Inr [monad_simps]: "pv_mapping v path = Inr d \<longleftrightarrow> v = PDict d"
  by (cases v) (simp_all add: pv_mapping_def bad_shape_def reject_def)

lemma pv_integer_Inr [monad_simps]: "pv_integer v path m = Inr i \<longleftrightarrow> v = PInt i \<and> m \<le> i"
  by (cases v) (auto simp: pv_integer_def bad_shape_def reject_def)

lemma pv_sequence_Inr [monad_simps]: "pv_sequence v path msg = Inr vs \<longleftrightarrow> v = PList vs \<or> v = PTuple vs"
  by (cases v) (auto simp: pv_sequence_def bad_shape_def reject_def)

lemma bad_shape_Inr [monad_simps]: "bad_shape path msg \<noteq> Inr x"
  by (simp add: bad_shape_def reject_def)

lemma reject_Inr [monad_simps]: "reject code path msg \<noteq> Inr x"
  by (simp add: reject_def)

lemma pv_sequence_items: "pv_sequence v path msg = Inr vs \<Longrightarrow> items_of v = vs"
  by (auto simp: pv_sequence_Inr)

lemma check_fields_Inr:
  "check_fields label d allowed needed path = Inr u \<longleftrightarrow> fst ` set d \<subseteq> set allowed \<and> set needed \<subseteq> fst ` set d"
proof -
  have "sort ks = [] \<longleftrightarrow> ks = []" for ks :: "string list"
    by (metis length_0_conv length_sort)
  then have *: "sort (filter P ks) = [] \<longleftrightarrow> (\<forall>k \<in> set ks. \<not> P k)" for P :: "string \<Rightarrow> bool" and ks
    by (simp add: filter_empty_conv)
  have "sort (filter (\<lambda>k. k \<notin> set allowed) (remdups (map fst d))) = [] \<longleftrightarrow> fst ` set d \<subseteq> set allowed"
    unfolding * by auto
  moreover have "sort (filter (\<lambda>k. k \<notin> fst ` set d) needed) = [] \<longleftrightarrow> set needed \<subseteq> fst ` set d"
    unfolding * by blast
  ultimately show ?thesis
    unfolding check_fields_def Let_def by (cases u) (simp only: bad_shape_Inr split: if_split, simp)
qed

section \<open>Cards\<close>

lemma read_fields_fact:
  "read_fields path i vs known = Inr facts \<Longrightarrow>
    map_of facts name = (case map_of known name of None \<Rightarrow> map_of (map raw_fact vs) name | Some v \<Rightarrow> Some v)"
proof (induction vs arbitrary: i known)
  case Nil
  then show ?case by (simp split: option.split)
next
  case (Cons v vs)
  then obtain f where v: "v = PDict f"
    by (auto simp: Let_def sbind_eq_Inr pv_mapping_Inr)
  with Cons.prems obtain k where k: "dict_get f ''name'' = PStr k"
    by (cases "dict_get f ''name''") (simp_all add: Let_def sbind_eq_Inr pv_mapping_Inr bad_shape_Inr)
  from Cons.prems have rest: "read_fields path (Suc i) vs (known @ [(k, dict_get f ''value'')]) = Inr facts"
    and new: "map_of known k = None"
    by (simp_all add: v k Let_def sbind_eq_Inr pv_mapping_Inr bad_shape_Inr split: if_splits)
  have "raw_fact v = (k, dict_get f ''value'')" by (simp add: raw_fact_def v k)
  with Cons.IH [OF rest] new show ?case
    by (auto simp: map_add_def split: option.splits)
qed

lemma card_fields_fact: "card_fields c path = Inr facts \<Longrightarrow> map_of facts = card_fact (PDict c)"
  unfolding card_fields_def sbind_eq_Inr
  by (auto simp: card_fact_def fun_eq_iff read_fields_fact dest!: pv_sequence_items)

lemma is_hidden_face_down: "map_of facts = card_fact v \<Longrightarrow> is_hidden facts \<longleftrightarrow> face_down v"
  by (auto simp: is_hidden_def face_down_def dict_get_def split: option.splits)

lemma public_fields_cong:
  assumes "list_all (\<lambda>name. map_of d name = map_of e name) PUBLIC_CARD_FIELDS"
  shows "public_fields d = public_fields e"
  unfolding public_fields_def using assms by (intro arg_cong [where f = concat] map_cong) (auto simp: list_all_iff)

lemma viewer_alias_alias:
  "viewer_alias inst c who path = Inr a \<Longrightarrow>
    a = (case inst of None \<Rightarrow> None | Some _ \<Rightarrow> (case alias_of who (PDict c) of PStr s \<Rightarrow> Some s | _ \<Rightarrow> None))"
  by (auto simp: viewer_alias_def alias_of_def Let_def bad_shape_Inr reject_Inr
      split: option.splits if_splits pyval.splits)

lemma public_card_same:
  assumes v: "public_card inst c facts who seq path = Inr a" and w: "public_card inst c' facts' who seq path' = Inr b"
    and facts: "list_all (\<lambda>name. map_of facts name = map_of facts' name) PUBLIC_CARD_FIELDS"
    and place: "dict_get c ''controller'' = dict_get c' ''controller''" "dict_get c ''location'' = dict_get c' ''location''"
    and slot: "seq \<Longrightarrow> dict_get c ''slot'' = dict_get c' ''slot''"
    and names: "alias_of who (PDict c) = alias_of who (PDict c')"
  shows "a = b"
proof -
  obtain i l p x where 1: "dict_get c ''controller'' = PInt i" "dict_get c ''location'' = PInt l"
    "p = (if seq then [(''sequence'', dict_get c ''slot'')] else [])"
    "viewer_alias inst c who path = Inr x"
    "a = public_fields facts @ [(''controller'', PInt i), (''location'', PInt l)] @ p @
       (case x of None \<Rightarrow> [] | Some s \<Rightarrow> [(''viewer_instance_alias'', PStr s)])"
    using v by (auto simp: public_card_def sbind_eq_Inr pv_integer_Inr bad_shape_Inr split: if_splits)
  obtain i' l' p' x' where 2: "dict_get c' ''controller'' = PInt i'" "dict_get c' ''location'' = PInt l'"
    "p' = (if seq then [(''sequence'', dict_get c' ''slot'')] else [])"
    "viewer_alias inst c' who path' = Inr x'"
    "b = public_fields facts' @ [(''controller'', PInt i'), (''location'', PInt l')] @ p' @
       (case x' of None \<Rightarrow> [] | Some s \<Rightarrow> [(''viewer_instance_alias'', PStr s)])"
    using w by (auto simp: public_card_def sbind_eq_Inr pv_integer_Inr bad_shape_Inr split: if_splits)
  have "x = x'"
    unfolding viewer_alias_alias [OF 1(4)] viewer_alias_alias [OF 2(4)] names ..
  moreover have "i = i'" "l = l'" using 1 2 place by simp_all
  moreover have "p = p'" using 1(3) 2(3) slot by simp
  ultimately show ?thesis using 1(5) 2(5) public_fields_cong [OF facts] by simp
qed

lemma project_card_same:
  assumes v: "project_card inst who side zone path v = Inr a" and w: "project_card inst who side zone path' w = Inr b"
    and same: "same_card who side zone v w"
  shows "a = b"
proof -
  obtain c facts where c: "v = PDict c" "card_fields c path = Inr facts"
    "dict_get c ''controller'' = PInt side" "dict_get c ''location'' = PInt zone"
    using v by (auto simp: project_card_def sbind_eq_Inr pv_mapping_Inr pv_integer_Inr bad_shape_Inr split: if_splits)
  obtain c' facts' where c': "w = PDict c'" "card_fields c' path' = Inr facts'"
    "dict_get c' ''controller'' = PInt side" "dict_get c' ''location'' = PInt zone"
    using w by (auto simp: project_card_def sbind_eq_Inr pv_mapping_Inr pv_integer_Inr bad_shape_Inr split: if_splits)
  note fact = card_fields_fact [OF c(2)] card_fields_fact [OF c'(2)]
  note down = is_hidden_face_down [OF fact(1)] is_hidden_face_down [OF fact(2)]
  show ?thesis
  proof (cases "side \<noteq> who \<and> face_down v")
    case True
    then have "face_down w" and place: "on_field zone \<Longrightarrow> entry_of v ''slot'' = entry_of w ''slot'' \<and>
        card_fact v ''position'' = card_fact w ''position''"
      using same by (auto simp: same_card_def)
    then show ?thesis
      using True v w c c' down fact
      by (cases "on_field zone")
        (auto simp: project_card_def sbind_eq_Inr pv_mapping_Inr pv_integer_Inr split: option.splits)
  next
    case False
    then have open_w: "\<not> (side \<noteq> who \<and> face_down w)"
      and facts: "list_all (\<lambda>name. map_of facts name = map_of facts' name) PUBLIC_CARD_FIELDS"
      and slot: "on_field zone \<Longrightarrow> dict_get c ''slot'' = dict_get c' ''slot''"
      and names: "alias_of who (PDict c) = alias_of who (PDict c')"
      using same by (auto simp: same_card_def c c' fact)
    have shown: "\<not> (side \<noteq> who \<and> is_hidden facts)" "\<not> (side \<noteq> who \<and> is_hidden facts')"
      using False open_w unfolding down c(1) c'(1) by blast+
    obtain a' where a: "public_card inst c facts who (on_field zone) path = Inr a'" "a = Some a'"
      using v unfolding project_card_def c(1) sbind_eq_Inr pv_mapping_Inr
      by (auto simp: c shown(1) sbind_eq_Inr pv_integer_Inr simp del: de_Morgan_conj)
    obtain b' where b: "public_card inst c' facts' who (on_field zone) path' = Inr b'" "b = Some b'"
      using w unfolding project_card_def c'(1) sbind_eq_Inr pv_mapping_Inr
      by (auto simp: c' shown(2) sbind_eq_Inr pv_integer_Inr simp del: de_Morgan_conj)
    from public_card_same [OF a(1) b(1) facts _ _ slot names] a b c c' show ?thesis by simp
  qed
qed

section \<open>Zones\<close>

lemma sseq_same:
  assumes "sseq (map f xs) = Inr as" and "sseq (map g ys) = Inr bs" and "list_all2 R xs ys"
    and "\<And>x y a b. R x y \<Longrightarrow> f x = Inr a \<Longrightarrow> g y = Inr b \<Longrightarrow> a = b"
  shows "as = bs"
proof -
  have 1: "map f xs = map Inr as" "map g ys = map Inr bs" using assms(1,2) by (simp_all add: sseq_eq_Inr)
  then have len: "length as = length xs" "length bs = length ys" by (metis length_map)+
  show ?thesis
  proof (rule nth_equalityI)
    show "length as = length bs" using len list_all2_lengthD [OF assms(3)] by simp
    fix i assume i: "i < length as"
    have "f (xs ! i) = Inr (as ! i)" using 1(1) i len by (metis nth_map)
    moreover have "g (ys ! i) = Inr (bs ! i)"
      using 1(2) i len list_all2_lengthD [OF assms(3)] by (metis nth_map)
    moreover have "R (xs ! i) (ys ! i)" using i len list_all2_nthD [OF assms(3)] by simp
    ultimately show "as ! i = bs ! i" by (blast intro: assms(4))
  qed
qed

lemma list_all2_enumerate:
  "list_all2 R xs ys \<Longrightarrow> list_all2 (\<lambda>(i, x) (j, y). i = j \<and> R x y) (enumerate n xs) (enumerate n ys)"
  by (induction xs ys arbitrary: n rule: list_all2_induct) simp_all

lemma project_cards_same:
  assumes "project_cards inst who side zone path cs = Inr a" and "project_cards inst who side zone path' ds = Inr b"
    and same: "list_all2 (same_card who side zone) cs ds"
  shows "a = b"
proof -
  obtain as where as: "sseq (map (\<lambda>(i, v). project_card inst who side zone (at_index (path @ ''.cards'') i) v)
      (enumerate 0 cs)) = Inr as"
    using assms(1) unfolding project_cards_def sbind_eq_Inr by blast
  obtain bs where bs: "sseq (map (\<lambda>(i, v). project_card inst who side zone (at_index (path' @ ''.cards'') i) v)
      (enumerate 0 ds)) = Inr bs"
    using assms(2) unfolding project_cards_def sbind_eq_Inr by blast
  have "as = bs"
    using as bs list_all2_enumerate [OF same] by (rule sseq_same) (auto intro: project_card_same)
  then show ?thesis using assms(1,2) by (simp add: project_cards_def as bs)
qed

definition shown_zone :: "string option \<Rightarrow> int \<Rightarrow> string \<Rightarrow> int \<Rightarrow> int \<Rightarrow> pyval list \<Rightarrow> py_error + zone_view" where
  "shown_zone inst who path side zone cs =
    (let view = \<lparr>zv_controller = side, zv_location = zone, zv_count = length cs, zv_cards = None, zv_hidden = 0\<rparr>
     in if count_only who side zone then Inr view
        else sbind (project_cards inst who side zone path cs) (\<lambda>(shown, hidden).
          Inr (view\<lparr>zv_cards := Some shown, zv_hidden := hidden\<rparr>)))"

lemma project_zone_shown:
  assumes "project_zone inst who seen i v = Inr a"
  obtains side zone where "entry_of v ''controller'' = PInt side" "entry_of v ''location'' = PInt zone"
    "shown_zone inst who (at_index ''zones'' i) side zone (zone_cards v) = Inr a"
proof -
  let ?path = "at_index ''zones'' i"
  from assms obtain d side zone raw where v: "v = PDict d" and place: "dict_get d ''controller'' = PInt side"
    "dict_get d ''location'' = PInt zone"
    and raw: "pv_sequence (dict_get d ''cards'') (?path @ ''.cards'') ''expected a sequence'' = Inr raw"
    and a: "shown_zone inst who ?path side zone (filter (\<lambda>c. c \<noteq> PNone) raw) = Inr a"
    unfolding project_zone_def Let_def sbind_eq_Inr pv_mapping_Inr pv_integer_Inr shown_zone_def
    by (auto simp: bad_shape_Inr sbind_eq_Inr split: if_splits)
  have "zone_cards v = filter (\<lambda>c. c \<noteq> PNone) raw"
    using pv_sequence_items [OF raw] by (simp add: zone_cards_def v)
  with that place a v show thesis by simp
qed

lemma project_zone_same:
  assumes "project_zone inst who seen i v = Inr a" and "project_zone inst who seen' i w = Inr b"
    and same: "same_zone who v w"
  shows "a = b"
proof -
  let ?path = "at_index ''zones'' i"
  obtain side zone where v: "entry_of v ''controller'' = PInt side" "entry_of v ''location'' = PInt zone"
    "shown_zone inst who ?path side zone (zone_cards v) = Inr a"
    using assms(1) by (rule project_zone_shown)
  obtain side' zone' where w: "entry_of w ''controller'' = PInt side'" "entry_of w ''location'' = PInt zone'"
    "shown_zone inst who ?path side' zone' (zone_cards w) = Inr b"
    using assms(2) by (rule project_zone_shown)
  have place: "side' = side" "zone' = zone" using same v w by (auto simp: same_zone_def)
  show ?thesis
  proof (cases "count_only who side zone")
    case True
    then show ?thesis using v w same place by (simp add: same_zone_def shown_zone_def)
  next
    case False
    then have rel: "list_all2 (same_card who side zone) (zone_cards v) (zone_cards w)"
      using same v by (simp add: same_zone_def)
    obtain x where x: "project_cards inst who side zone ?path (zone_cards v) = Inr x"
      using v(3) False by (auto simp: sbind_eq_Inr shown_zone_def Let_def)
    obtain y where y: "project_cards inst who side zone ?path (zone_cards w) = Inr y"
      using w(3) False place by (auto simp: sbind_eq_Inr shown_zone_def Let_def)
    have "x = y" using x y rel by (rule project_cards_same)
    then show ?thesis
      using v(3) w(3) False list_all2_lengthD [OF rel] place x y
      by (simp add: shown_zone_def Let_def split: prod.splits)
  qed
qed

lemma project_zones_same:
  "list_all2 (same_zone who) vs ws \<Longrightarrow> project_zones inst who seen i vs = Inr a \<Longrightarrow>
    project_zones inst who seen' i ws = Inr b \<Longrightarrow> a = b"
proof (induction vs ws arbitrary: i seen seen' a b rule: list_all2_induct)
  case Nil
  then show ?case by simp
next
  case (Cons v vs w ws)
  obtain z zs where z: "project_zone inst who seen i v = Inr z" "a = z # zs"
    "project_zones inst who ((zv_controller z, zv_location z) # seen) (Suc i) vs = Inr zs"
    using Cons.prems(1) by (auto simp: sbind_eq_Inr)
  obtain y ys where y: "project_zone inst who seen' i w = Inr y" "b = y # ys"
    "project_zones inst who ((zv_controller y, zv_location y) # seen') (Suc i) ws = Inr ys"
    using Cons.prems(2) by (auto simp: sbind_eq_Inr)
  from project_zone_same [OF z(1) y(1) Cons.hyps(1)] Cons.IH [OF z(3) y(3)] z y show ?case by simp
qed

section \<open>The field and the pending request\<close>

lemma project_player_same:
  assumes "project_player v i = Inr a" and "project_player w i = Inr b" and "same_board v w"
  shows "a = b"
proof -
  let ?path = "at_index ''field_state.players'' i"
  obtain d p m s where v: "v = PDict d" "dict_get d ''life_points'' = PInt p"
    "project_zone_slots d ?path ''monster_zones'' 7 = Inr m" "project_zone_slots d ?path ''spell_trap_zones'' 8 = Inr s"
    "a = (PInt p, PDict [(''monster_zones'', m), (''spell_trap_zones'', s)])"
    using assms(1) unfolding project_player_def Let_def sbind_eq_Inr pv_mapping_Inr
    by (auto simp: bad_shape_Inr sbind_eq_Inr pv_integer_Inr split: if_splits)
  obtain e q m' s' where w: "w = PDict e" "dict_get e ''life_points'' = PInt q"
    "project_zone_slots e ?path ''monster_zones'' 7 = Inr m'" "project_zone_slots e ?path ''spell_trap_zones'' 8 = Inr s'"
    "b = (PInt q, PDict [(''monster_zones'', m'), (''spell_trap_zones'', s')])"
    using assms(2) unfolding project_player_def Let_def sbind_eq_Inr pv_mapping_Inr
    by (auto simp: bad_shape_Inr sbind_eq_Inr pv_integer_Inr split: if_splits)
  show ?thesis
    using assms(3) v w by (simp add: same_board_def project_zone_slots_def)
qed

lemma project_link_same:
  assumes "project_link v i = Inr a" and "project_link w i = Inr b" and "same_link v w"
  shows "a = b"
proof -
  let ?read = "\<lambda>handler. sseq (map (\<lambda>(k, v). sbind (pv_integer v (at_index ''field_state.chain'' i @ ''.handler.'' @ k) 0)
    (\<lambda>i. Inr (k, PInt i))) handler)"
  obtain d h s c l n where v: "v = PDict d" "dict_get d ''handler'' = PDict h" "?read h = Inr s"
    "dict_get d ''triggering_controller'' = PInt c" "dict_get d ''triggering_location'' = PInt l"
    "dict_get d ''triggering_sequence'' = PInt n"
    "a = PDict [(''handler'', PDict s), (''triggering_controller'', PInt c), (''triggering_location'', PInt l),
       (''triggering_sequence'', PInt n)]"
    using assms(1) unfolding project_link_def Let_def sbind_eq_Inr pv_mapping_Inr pv_integer_Inr by blast
  obtain e h' s' c' l' n' where w: "w = PDict e" "dict_get e ''handler'' = PDict h'" "?read h' = Inr s'"
    "dict_get e ''triggering_controller'' = PInt c'" "dict_get e ''triggering_location'' = PInt l'"
    "dict_get e ''triggering_sequence'' = PInt n'"
    "b = PDict [(''handler'', PDict s'), (''triggering_controller'', PInt c'), (''triggering_location'', PInt l'),
       (''triggering_sequence'', PInt n')]"
    using assms(2) unfolding project_link_def Let_def sbind_eq_Inr pv_mapping_Inr pv_integer_Inr by blast
  have "h = h'" using assms(3) v w by (simp add: same_link_def)
  with v(3) w(3) have "s = s'" by simp
  then show ?thesis using assms(3) v w by (simp add: same_link_def)
qed

lemma project_field_state_same:
  assumes "project_field_state v = Inr a" and "project_field_state w = Inr b" and same: "same_field v w"
  shows "a = b"
proof -
  have *: "\<exists>ps x0 y0 x1 y1 ls. items_of (entry_of v ''players'') = ps \<and> length ps = 2 \<and>
      project_player (ps ! 0) 0 = Inr (x0, y0) \<and> project_player (ps ! 1) 1 = Inr (x1, y1) \<and>
      sseq (map (\<lambda>(i, link). project_link link i) (enumerate 0 (items_of (entry_of v ''chain'')))) = Inr ls \<and>
      a = [(''chain'', PList ls), (''chain_count'', PInt (int (length ls))),
       (''life_points'', PDict [(''0'', x0), (''1'', x1)]), (''occupied_zones'', PDict [(''0'', y0), (''1'', y1)])]"
    if eq: "project_field_state v = Inr a" for v a
  proof -
    obtain d ps where d: "v = PDict d" and ps: "items_of (dict_get d ''players'') = ps" "length ps = 2"
      and rest: "sbind (project_player (ps ! 0) 0) (\<lambda>(points0, zones0).
        sbind (project_player (ps ! 1) 1) (\<lambda>(points1, zones1).
        sbind (pv_sequence (dict_get d ''chain'') ''field_state.chain'' ''expected a sequence'') (\<lambda>chain.
        sbind (sseq (map (\<lambda>(i, link). project_link link i) (enumerate 0 chain))) (\<lambda>links.
        sbind (pv_integer (dict_get d ''chain_count'') ''field_state.chain_count'' 0) (\<lambda>n.
        if n \<noteq> int (length links) then bad_shape ''field_state.chain_count'' ''does not match chain length''
        else Inr
          [(''chain'', PList links),
           (''chain_count'', PInt n),
           (''life_points'', PDict [(''0'', points0), (''1'', points1)]),
           (''occupied_zones'', PDict [(''0'', zones0), (''1'', zones1)])]))))) = Inr a"
      using eq unfolding project_field_state_def sbind_eq_Inr [of "pv_mapping _ _"] sbind_eq_Inr [of "exact_fields _ _ _"]
        sbind_eq_Inr [of "pv_sequence _ _ _"] pv_mapping_Inr
      by (auto simp: bad_shape_Inr pv_sequence_Inr split: if_splits)
    from rest obtain x0 y0 x1 y1 where 1: "project_player (ps ! 0) 0 = Inr (x0, y0)"
      "project_player (ps ! 1) 1 = Inr (x1, y1)"
      by (auto simp: sbind_eq_Inr)
    from rest obtain ch ls where 2: "pv_sequence (dict_get d ''chain'') ''field_state.chain'' ''expected a sequence'' = Inr ch"
      "sseq (map (\<lambda>(i, link). project_link link i) (enumerate 0 ch)) = Inr ls"
      by (auto simp: sbind_eq_Inr)
    have "a = [(''chain'', PList ls), (''chain_count'', PInt (int (length ls))),
       (''life_points'', PDict [(''0'', x0), (''1'', x1)]), (''occupied_zones'', PDict [(''0'', y0), (''1'', y1)])]"
      using rest by (auto simp: 1 2 sbind_eq_Inr bad_shape_Inr simp del: One_nat_def split: if_splits)
    with d ps 1 2 pv_sequence_items [OF 2(1)] show ?thesis by auto
  qed
  from * [OF assms(1)] obtain ps x0 y0 x1 y1 ls where v: "items_of (entry_of v ''players'') = ps" "length ps = 2"
    "project_player (ps ! 0) 0 = Inr (x0, y0)" "project_player (ps ! 1) 1 = Inr (x1, y1)"
    "sseq (map (\<lambda>(i, link). project_link link i) (enumerate 0 (items_of (entry_of v ''chain'')))) = Inr ls"
    "a = [(''chain'', PList ls), (''chain_count'', PInt (int (length ls))),
       (''life_points'', PDict [(''0'', x0), (''1'', x1)]), (''occupied_zones'', PDict [(''0'', y0), (''1'', y1)])]"
    by blast
  from * [OF assms(2)] obtain qs u0 t0 u1 t1 ms where w: "items_of (entry_of w ''players'') = qs" "length qs = 2"
    "project_player (qs ! 0) 0 = Inr (u0, t0)" "project_player (qs ! 1) 1 = Inr (u1, t1)"
    "sseq (map (\<lambda>(i, link). project_link link i) (enumerate 0 (items_of (entry_of w ''chain'')))) = Inr ms"
    "b = [(''chain'', PList ms), (''chain_count'', PInt (int (length ms))),
       (''life_points'', PDict [(''0'', u0), (''1'', u1)]), (''occupied_zones'', PDict [(''0'', t0), (''1'', t1)])]"
    by blast
  have players: "list_all2 same_board ps qs" using same v(1) w(1) by (simp add: same_field_def)
  have "(x0, y0) = (u0, t0)"
    using v(2,3) w(3) list_all2_nthD [OF players, of 0] by (intro project_player_same) simp_all
  moreover have "(x1, y1) = (u1, t1)"
    using v(2,4) w(4) list_all2_nthD [OF players, of 1] by (intro project_player_same) simp_all
  moreover have "ls = ms"
  proof (rule sseq_same [OF v(5) w(5)])
    show "list_all2 (\<lambda>(i, x) (j, y). i = j \<and> same_link x y) (enumerate 0 (items_of (entry_of v ''chain'')))
        (enumerate 0 (items_of (entry_of w ''chain'')))"
      using same by (intro list_all2_enumerate) (simp add: same_field_def)
  qed (auto intro: project_link_same)
  ultimately show ?thesis using v(6) w(6) by simp
qed

lemma project_pending_request_same:
  assumes "project_pending_request v who = Inr a" and "project_pending_request w who = Inr b"
    and same: "same_request who v w"
  shows "a = b"
proof (cases "entry_of v ''player'' = PInt who")
  case False
  have *: "project_pending_request v who = Inr a \<Longrightarrow> entry_of v ''player'' \<noteq> PInt who \<Longrightarrow> a = PNone" for v a
    unfolding project_pending_request_def
    by (cases "v = PNone") (auto simp: sbind_eq_Inr pv_mapping_Inr pv_integer_Inr split: if_splits)
  from False same have "entry_of w ''player'' \<noteq> PInt who" by (simp add: same_request_def)
  with * False assms show ?thesis by metis
next
  case True
  define shown where "shown = (\<lambda>d. sbind (check_request_type (dict_get d ''request_type'') ''pending_request.request_type'') (\<lambda>t.
     sbind (pv_sequence (dict_get d ''candidate_action_kinds'') ''pending_request.candidate_action_kinds'' ''expected a sequence'') (\<lambda>kinds.
     sbind (sseq (map (\<lambda>(i, k). action_category k i) (enumerate 0 kinds))) (\<lambda>categories.
     case dict_get d ''forced'' of
       PBool forced \<Rightarrow> Inr (PDict
         [(''action_categories'', PList (map PStr (sort (remdups categories)))),
          (''forced'', PBool forced),
          (''player'', PInt who),
          (''request_type'', PStr t)])
     | _ \<Rightarrow> bad_shape ''pending_request.forced'' ''expected a boolean''))))"
  have *: "\<exists>d. v = PDict d \<and> shown d = Inr a"
    if "project_pending_request v who = Inr a" "entry_of v ''player'' = PInt who" for v a
  proof -
    have "v \<noteq> PNone" using that by auto
    with that(1) obtain d where d: "v = PDict d"
      unfolding project_pending_request_def if_not_P [OF \<open>v \<noteq> PNone\<close>] sbind_eq_Inr pv_mapping_Inr by blast
    with that have "shown d = Inr a"
      unfolding project_pending_request_def shown_def
      by (simp add: sbind_eq_Inr [of "pv_mapping _ _"] sbind_eq_Inr [of "check_fields _ _ _ _ _"]
          sbind_eq_Inr [of "pv_integer _ _ _"] pv_mapping_Inr pv_integer_Inr)
    with d show ?thesis by blast
  qed
  from * [OF assms(1) True] obtain d where d: "v = PDict d" "shown d = Inr a" by blast
  have "entry_of w ''player'' = PInt who" using same True by (simp add: same_request_def)
  from * [OF assms(2) this] obtain e where e: "w = PDict e" "shown e = Inr b" by blast
  have "shown d = shown e" using same True d e by (simp add: same_request_def shown_def)
  with d e show ?thesis by simp
qed

section \<open>Observations\<close>

lemma project_observation_parts:
  assumes "project_observation s who n ph = Inr a"
  obtains field request zones turn_no words where
    "project_field_state (sn_field_state s) = Inr field" "project_pending_request (sn_request s) who = Inr request"
    "project_zones (sn_instances s) who [] 0 (sn_zones s) = Inr zones" "n = PInt turn_no" "ph = PStr words"
    "finish_observation (observation_payload field request words (sn_process s) turn_no who) who (sort_key zone_order zones) = Inr a"
using assms that
  by (auto simp: project_observation_def sbind_eq_Inr pv_integer_Inr bad_shape_Inr split: if_splits pyval.splits)

lemma observation_same:
  assumes "same_view who s t" and s: "project_observation s who n ph = Inr a" and t: "project_observation t who n ph = Inr b"
  shows "a = b"
proof -
  obtain f r z i x where 1: "project_field_state (sn_field_state s) = Inr f" "project_pending_request (sn_request s) who = Inr r"
    "project_zones (sn_instances s) who [] 0 (sn_zones s) = Inr z" "n = PInt i" "ph = PStr x"
    "finish_observation (observation_payload f r x (sn_process s) i who) who (sort_key zone_order z) = Inr a"
    using s by (rule project_observation_parts)
  obtain g q y j u where 2: "project_field_state (sn_field_state t) = Inr g" "project_pending_request (sn_request t) who = Inr q"
    "project_zones (sn_instances t) who [] 0 (sn_zones t) = Inr y" "n = PInt j" "ph = PStr u"
    "finish_observation (observation_payload g q u (sn_process t) j who) who (sort_key zone_order y) = Inr b"
    using t by (rule project_observation_parts)
  have same: "sn_process s = sn_process t" "sn_instances s = sn_instances t"
    "same_field (sn_field_state s) (sn_field_state t)" "same_request who (sn_request s) (sn_request t)"
    "list_all2 (same_zone who) (sn_zones s) (sn_zones t)"
    using assms(1) by (simp_all add: same_view_def)
  have "f = g" using 1(1) 2(1) same(3) by (rule project_field_state_same)
  moreover have "r = q" using 1(2) 2(2) same(4) by (rule project_pending_request_same)
  moreover have "z = y" using same(5) 1(3) 2(3) unfolding same(2) by (rule project_zones_same)
  ultimately show ?thesis using 1(4-6) 2(4-6) same(1) by simp
qed

end
