(* ===== verification/Player_Replay_Laws.thy ===== *)
theory Player_Replay_Laws
  imports Player_View_Laws
begin

text \<open>
  Noninterference of the whole player view replay, the identity it carries, and a pair of recordings
  with different secrets on which the laws apply.
\<close>

section \<open>Events\<close>

text \<open>An action of the opponent shows when it happened and who acted.\<close>

definition same_event :: "int \<Rightarrow> replay_event \<Rightarrow> replay_event \<Rightarrow> bool" where
  "same_event who e f \<longleftrightarrow>
    re_step e = re_step f \<and> re_turn e = re_turn f \<and> re_chain_index e = re_chain_index f \<and>
    a_player (re_action e) = a_player (re_action f) \<and>
    (if a_player (re_action e) = who
     then a_kind (re_action e) = a_kind (re_action f) \<and>
       list_all (\<lambda>k. dict_get (re_request e) k = dict_get (re_request f) k) [''request_type'', ''constraints'']
     else True)"

lemma event_request_same: "same_event who e f \<Longrightarrow> event_request e who = event_request f who"
  by (cases "a_player (re_action e) = who")
    (auto simp: event_request_def same_event_def event_path_def Let_def)

lemma project_event_same: "same_event who e f \<Longrightarrow> project_event e who b a ph = project_event f who b a ph"
  using event_request_same [of who e f]
  by (cases "a_player (re_action e) = who")
    (auto simp: project_event_def same_event_def event_payload_def event_path_def)

lemma project_events_same:
  "list_all2 (same_event who) es fs \<Longrightarrow> project_events who i obs es = project_events who i obs fs"
proof (induction es fs arbitrary: i rule: list_all2_induct)
  case Nil
  then show ?case by simp
next
  case (Cons e es f fs)
  moreover have "re_step e = re_step f" using Cons.hyps(1) by (simp add: same_event_def)
  ultimately show ?case by (simp add: project_event_same)
qed

section \<open>The route\<close>

text \<open>The places of the source route a player view reads.\<close>

definition route_at :: "pydict \<Rightarrow> string list \<Rightarrow> pyval" where
  "route_at route ks = foldl entry_of (PDict route) ks"

definition PUBLIC_PLACES :: "string list list" where
  "PUBLIC_PLACES =
    map (\<lambda>k. [''replay'', ''manifest'', ''environment''] @ k)
      [[''project'', ''snapshot_schema''], [''core'', ''api''], [''core'', ''lock_id''], [''assets'', ''lock_id'']] @
    [[''replay'', ''schema_version''], [''schema_version''], [''result'', ''success'']] @
    concat (map (\<lambda>b. map (\<lambda>k. [''result'', b, k]) BOARD_FIELDS) [''terminal_board'', ''peak_board''])"

definition same_route :: "pydict \<Rightarrow> pydict \<Rightarrow> bool" where
  "same_route r s \<longleftrightarrow> list_all (\<lambda>ks. route_at r ks = route_at s ks) PUBLIC_PLACES"

lemma view_manifest_places:
  assumes "view_manifest route = Inr m"
  shows "m = canonical_entries
      [(''asset_lock_id'', route_at route [''replay'', ''manifest'', ''environment'', ''assets'', ''lock_id'']),
       (''core_api'', route_at route [''replay'', ''manifest'', ''environment'', ''core'', ''api'']),
       (''core_lock_id'', route_at route [''replay'', ''manifest'', ''environment'', ''core'', ''lock_id'']),
       (''projector_id'', PStr PLAYER_VIEW_PROJECTOR_ID),
       (''schema_version'', PStr PLAYER_VIEW_MANIFEST_SCHEMA_VERSION),
       (''source_replay_schema_version'', route_at route [''replay'', ''schema_version'']),
       (''source_route_schema_version'', route_at route [''schema_version'']),
       (''source_snapshot_schema_version'',
         route_at route [''replay'', ''manifest'', ''environment'', ''project'', ''snapshot_schema''])]"
  using assms unfolding view_manifest_def sbind_eq_Inr pv_mapping_Inr route_at_def
  by auto

lemma view_result_places:
  assumes "view_result route = Inr r"
  shows "r = canonical_entries
      [(''peak'', PDict (map (\<lambda>k. (k, route_at route [''result'', ''peak_board'', k])) BOARD_FIELDS)),
       (''success'', PBool (py_bool (route_at route [''result'', ''success'']))),
       (''terminal'', PDict (map (\<lambda>k. (k, route_at route [''result'', ''terminal_board'', k])) BOARD_FIELDS))]"
  using assms unfolding view_result_def sbind_eq_Inr pv_mapping_Inr route_at_def board_view_def
  by auto

lemma view_route_same:
  assumes "same_route r s" "view_manifest r = Inr m" "view_manifest s = Inr m'" "view_result r = Inr x" "view_result s = Inr x'"
  shows "m = m'" "x = x'"
  using assms(1) view_manifest_places [OF assms(2)] view_manifest_places [OF assms(3)]
    view_result_places [OF assms(4)] view_result_places [OF assms(5)]
  by (simp_all add: same_route_def PUBLIC_PLACES_def BOARD_FIELDS_def)

section \<open>The replay\<close>

definition same_checkpoint :: "int \<Rightarrow> snapshot \<times> pyval \<times> pyval \<Rightarrow> snapshot \<times> pyval \<times> pyval \<Rightarrow> bool" where
  "same_checkpoint who a b \<longleftrightarrow> same_view who (fst a) (fst b) \<and> snd a = snd b"

definition same_input :: "projection_input \<Rightarrow> projection_input \<Rightarrow> bool" where
  "same_input d e \<longleftrightarrow>
    pi_viewer d = pi_viewer e \<and> pi_parent d = pi_parent e \<and> pi_fork_step d = pi_fork_step e \<and>
    same_route (pi_route d) (pi_route e) \<and>
    list_all2 (same_checkpoint (pi_viewer d)) ((pi_initial d, pi_turn d, pi_phase d) # pi_checkpoints d)
      ((pi_initial e, pi_turn e, pi_phase e) # pi_checkpoints e) \<and>
    list_all2 (same_event (pi_viewer d)) (pi_events d) (pi_events e)"

definition view_observations :: "projection_input \<Rightarrow> py_error + pydict list" where
  "view_observations d =
    sseq (map (\<lambda>(s, turn, phase). project_observation s (pi_viewer d) turn phase)
       ((pi_initial d, pi_turn d, pi_phase d) # pi_checkpoints d))"

lemma build_view_parts:
  assumes "build_player_view_replay d = Inr r"
  obtains obs es m x i where "view_observations d = Inr obs" "project_events (pi_viewer d) 0 obs (pi_events d) = Inr es"
    "view_manifest (pi_route d) = Inr m" "view_result (pi_route d) = Inr x"
    "stable_digest (PDict (view_payload d obs es m x)) ''playerview_'' = Inr i"
    "r = (''player_view_id'', PStr i) # canonical_entries (view_payload d obs es m x)"
  using assms that
  by (auto simp: build_player_view_replay_def view_observations_def Let_def sbind_eq_Inr bad_shape_Inr split: if_splits)

lemma view_replay_same:
  assumes same: "same_input d e" and d: "build_player_view_replay d = Inr a" and e: "build_player_view_replay e = Inr b"
  shows "a = b"
proof -
  obtain obs es m x i where 1: "view_observations d = Inr obs" "project_events (pi_viewer d) 0 obs (pi_events d) = Inr es"
    "view_manifest (pi_route d) = Inr m" "view_result (pi_route d) = Inr x"
    "stable_digest (PDict (view_payload d obs es m x)) ''playerview_'' = Inr i"
    "a = (''player_view_id'', PStr i) # canonical_entries (view_payload d obs es m x)"
    using d by (rule build_view_parts)
  obtain obs' es' m' x' i' where 2: "view_observations e = Inr obs'" "project_events (pi_viewer e) 0 obs' (pi_events e) = Inr es'"
    "view_manifest (pi_route e) = Inr m'" "view_result (pi_route e) = Inr x'"
    "stable_digest (PDict (view_payload e obs' es' m' x')) ''playerview_'' = Inr i'"
    "b = (''player_view_id'', PStr i') # canonical_entries (view_payload e obs' es' m' x')"
    using e by (rule build_view_parts)
  have who: "pi_viewer d = pi_viewer e" using same by (simp add: same_input_def)
  have "obs = obs'"
  proof (rule sseq_same [OF 1(1) [unfolded view_observations_def] 2(1) [unfolded view_observations_def]])
    show "list_all2 (same_checkpoint (pi_viewer d)) ((pi_initial d, pi_turn d, pi_phase d) # pi_checkpoints d)
      ((pi_initial e, pi_turn e, pi_phase e) # pi_checkpoints e)"
      using same unfolding same_input_def by blast
  qed (use who in \<open>auto simp: same_checkpoint_def intro: observation_same\<close>)
  moreover have "es = es'"
    using 1(2) 2(2) project_events_same [of "pi_viewer d" "pi_events d" "pi_events e"] same \<open>obs = obs'\<close> who
    by (simp add: same_input_def)
  moreover have "m = m'" "x = x'"
    using same view_route_same [OF _ 1(3) 2(3) 1(4) 2(4)] by (simp_all add: same_input_def)
  moreover have "view_payload d obs es m x = view_payload e obs es m x"
    using same by (simp add: view_payload_def same_input_def)
  ultimately show ?thesis using 1(5,6) 2(5,6) by simp
qed

section \<open>The identity of a replay\<close>

lemma canonical_entries_delete:
  "k \<notin> fst ` set d \<Longrightarrow> AList.delete k ((k, v) # canonical_entries d) = canonical_entries d"
  by (simp add: delete_notin_dom keys_canonical_entries) 

lemma build_view_valid:
  assumes "build_player_view_replay d = Inr r"
  shows "assert_valid_player_view_replay r = Inr ()"
proof -
  obtain obs es m x i where r: "stable_digest (PDict (view_payload d obs es m x)) ''playerview_'' = Inr i"
    "r = (''player_view_id'', PStr i) # canonical_entries (view_payload d obs es m x)"
    using assms by (rule build_view_parts)
  let ?p = "view_payload d obs es m x"
  have keys: "fst ` set r = set VIEW_FIELDS"
    unfolding r(2) by (simp add: keys_canonical_entries) (auto simp: view_payload_def VIEW_FIELDS_def)
  then have "exact_fields r VIEW_FIELDS ''player_view'' = Inr ()"
    by (simp add: exact_fields_def check_fields_Inr)
  moreover have "dict_get r ''schema_version'' = PStr PLAYER_VIEW_REPLAY_SCHEMA_VERSION"
    unfolding r(2) by (simp add: view_payload_def)
  moreover have "AList.delete ''player_view_id'' r = canonical_entries ?p"
    unfolding r(2) by (rule canonical_entries_delete) (simp add: view_payload_def)
  moreover have "stable_digest (PDict (canonical_entries ?p)) ''playerview_'' = Inr i"
    using r(1) stable_digest_eq_canonical [of "PDict (canonical_entries ?p)" "PDict ?p"]
    by (simp add: canonical_PDict del: to_canonical_data.simps(8))
  moreover have "dict_get r ''player_view_id'' = PStr i" unfolding r(2) by simp
  ultimately show ?thesis by (simp add: assert_valid_player_view_replay_def)
qed

section \<open>When a view can be built\<close>

definition zone_safe :: "zone_view \<Rightarrow> bool" where
  "zone_safe z = (case zv_cards z of None \<Rightarrow> True | Some cs \<Rightarrow> list_all dict_safe cs)"

lemma mark_hidden_total: "dict_safe c \<Longrightarrow> \<exists>c'. mark_hidden scope who c = Inr c' \<and> dict_safe c'"
proof (cases "dict_get c ''hidden'' = PBool True")
  case True
  assume c: "dict_safe c"
  then have "json_safe (PDict
       [(''coordinate'', PTuple [dict_get c ''controller'', dict_get c ''location'', dict_get c ''sequence'']),
        (''scope'', PStr scope), (''viewer'', PInt who)])"
    by (simp add: dict_safe_get)
  then obtain m where "stable_digest (PDict
       [(''coordinate'', PTuple [dict_get c ''controller'', dict_get c ''location'', dict_get c ''sequence'']),
        (''scope'', PStr scope), (''viewer'', PInt who)]) ''hidden_'' = Inr m"
    using stable_digest_total by blast
  then show ?thesis using True c by (simp add: mark_hidden_def dict_safe_set)
qed (simp add: mark_hidden_def)

lemma sseq_total_all:
  "(\<And>x. x \<in> set xs \<Longrightarrow> \<exists>y. f x = Inr y \<and> P y) \<Longrightarrow> \<exists>ys. sseq (map f xs) = Inr ys \<and> list_all P ys"
proof (induction xs)
  case (Cons x xs)
  obtain y where "f x = Inr y" "P y" using Cons.prems [of x] by auto
  moreover obtain ys where "sseq (map f xs) = Inr ys" "list_all P ys" using Cons by auto
  ultimately show ?case by simp
qed simp

lemma mark_zone_total: "zone_safe z \<Longrightarrow> \<exists>z'. mark_zone scope who z = Inr z' \<and> zone_safe z'"
proof (cases "zv_cards z")
  case (Some cs)
  assume "zone_safe z"
  then have "\<exists>ds. sseq (map (mark_hidden scope who) cs) = Inr ds \<and> list_all dict_safe ds"
    by (intro sseq_total_all mark_hidden_total) (simp add: Some zone_safe_def list_all_iff)
  then show ?thesis by (auto simp: mark_zone_def Some zone_safe_def)
qed (simp add: mark_zone_def)

lemma zone_to_dict_safe: "zone_safe z \<Longrightarrow> dict_safe (zone_to_dict z)"
  by (cases "zv_cards z") (auto simp: zone_to_dict_def zone_safe_def list_all_iff)

lemma observation_payload_safe:
  "dict_safe field \<Longrightarrow> json_safe request \<Longrightarrow> list_all zone_safe zones \<Longrightarrow>
    dict_safe (observation_payload field request ph process n who zones)"
  by (simp add: observation_payload_def list_all_iff zone_to_dict_safe)

lemma finish_observation_total:
  assumes "dict_safe field" and "json_safe request" and "list_all zone_safe zones"
  shows "\<exists>a. finish_observation (observation_payload field request ph process n who) who zones = Inr a \<and> dict_safe a"
proof -
  let ?payload = "observation_payload field request ph process n who"
  obtain scope where scope: "stable_digest (PDict (?payload zones)) ''obsscope_'' = Inr scope"
    using stable_digest_total [THEN iffD2] observation_payload_safe [OF assms] by fastforce
  obtain marked where marked: "sseq (map (mark_zone scope who) zones) = Inr marked" "list_all zone_safe marked"
    using sseq_total_all [of zones "mark_zone scope who" zone_safe] assms(3) mark_zone_total by (auto simp: list_all_iff)
  obtain i where "stable_digest (PDict (?payload marked)) ''observation_'' = Inr i"
    using stable_digest_total [THEN iffD2] observation_payload_safe [OF assms(1,2) marked(2)] by fastforce
  then show ?thesis
    using observation_payload_safe [OF assms(1,2) marked(2)] by (simp add: finish_observation_def scope marked)
qed

definition observable :: "snapshot \<Rightarrow> int \<Rightarrow> bool" where
  "observable s who \<longleftrightarrow>
    who \<in> {0, 1} \<and> sn_process s \<in> set KNOWN_PROCESS_STATES \<and> length (sn_zones s) = length LOCATION_ORDER * 2 \<and>
    (case project_field_state (sn_field_state s) of Inl _ \<Rightarrow> False | Inr f \<Rightarrow> dict_safe f) \<and>
    (case project_pending_request (sn_request s) who of Inl _ \<Rightarrow> False | Inr r \<Rightarrow> json_safe r) \<and>
    (case project_zones (sn_instances s) who [] 0 (sn_zones s) of Inl _ \<Rightarrow> False
     | Inr zs \<Rightarrow> list_all zone_safe zs \<and> set (map zone_order zs) = set (List.product [0, 1] LOCATION_ORDER))"

lemma project_observation_total:
  assumes "observable s who" and "1 \<le> n" and "p \<noteq> []"
  shows "\<exists>a. project_observation s who (PInt n) (PStr p) = Inr a \<and> dict_safe a"
proof -
  obtain f where f: "project_field_state (sn_field_state s) = Inr f" "dict_safe f"
    using assms(1) by (auto simp: observable_def split: sum.splits)
  obtain r where r: "project_pending_request (sn_request s) who = Inr r" "json_safe r"
    using assms(1) by (auto simp: observable_def split: sum.splits)
  obtain zs where zs: "project_zones (sn_instances s) who [] 0 (sn_zones s) = Inr zs" "list_all zone_safe zs"
    "set (map zone_order zs) = set (List.product [0, 1] LOCATION_ORDER)"
    using assms(1) by (auto simp: observable_def split: sum.splits)
  have "list_all zone_safe (sort_key zone_order zs)" using zs(2) by (simp add: list_all_iff)
  from finish_observation_total [OF f(2) r(2) this] show ?thesis
    using assms f(1) r(1) zs by (simp add: project_observation_def observable_def pv_integer_def)
qed

section \<open>Two recordings with different secrets\<close>

text \<open>
  The secret is the opponent's hand, a face-down monster, the top of a deck and the action the opponent
  takes; player 0 watches.
\<close>

definition sample_monster :: "string \<Rightarrow> pyval" where
  "sample_monster secret =
    PDict [(''controller'', PInt 1), (''location'', PInt LOCATION_MZONE), (''slot'', PInt 2), (''instance_key'', PStr secret),
      (''fields'', PList (map (\<lambda>(k, v). PDict [(''flag'', PInt 0), (''name'', PStr k), (''value'', v)])
        [(''code'', PStr secret), (''position'', PInt 8)]))]"

definition sample_zone :: "string \<Rightarrow> int \<times> int \<Rightarrow> pyval" where
  "sample_zone secret place =
    (case place of (c, l) \<Rightarrow> PDict
      [(''cards'', PList
         (if l = LOCATION_DECK then [PStr secret, PStr ''card'']
          else if c = 1 \<and> l = LOCATION_HAND then [PStr secret]
          else if c = 1 \<and> l = LOCATION_MZONE then [sample_monster secret] else [])),
       (''controller'', PInt c), (''location'', PInt l), (''location_name'', PStr (location_label l))])"

definition sample_field_player :: "int \<Rightarrow> pyval" where
  "sample_field_player i =
    PDict (map (\<lambda>k. (k, PInt 1)) [''banished_count'', ''deck_count'', ''extra_deck_count'', ''face_up_extra_count'',
        ''graveyard_count'', ''hand_count'', ''life_points''] @
      [(''monster_zones'', PList (replicate 7 PNone)), (''player'', PInt i), (''spell_trap_zones'', PList (replicate 8 PNone))])"

definition sample_snapshot :: "string \<Rightarrow> snapshot" where
  "sample_snapshot secret =
    \<lparr>sn_environment = [],
     sn_field_state = PDict [(''chain'', PList []), (''chain_count'', PInt 0), (''duel_options'', PInt 0),
       (''players'', PList (map sample_field_player [0, 1]))],
     sn_zones = map (sample_zone secret) (List.product [0, 1] LOCATION_ORDER),
     sn_process = ''awaiting_response'', sn_request = PNone, sn_completeness = ''partial'', sn_missing = [],
     sn_display = [], sn_mode = COMPLETE_INFORMATION, sn_sampling = None, sn_instances = None\<rparr>"

definition sample_event :: "action_kind \<Rightarrow> replay_event" where
  "sample_event k =
    \<lparr>re_step = 0, re_request_signature = [],
     re_action = \<lparr>a_kind = k, a_player = 1, selections = [], a_request_signature = [], source = None, a_effect_ref = None,
       action_id = []\<rparr>,
     re_node_id = [], re_request = [], re_core_input_ref = [], re_core_response = [], re_core_output = [],
     re_state_before = [], re_state_after = [], re_turn = Some 1, re_turn_action_index = None, re_chain_index = None,
     re_timestamp = None, re_failure = None\<rparr>"

definition recorded_route :: pydict where
  "recorded_route =
    [(''replay'', PDict [(''manifest'', PDict [(''environment'', PDict
        [(''project'', PDict [(''replay_schema'', PStr ''0.3a''), (''snapshot_schema'', PStr ''1'')]),
         (''core'', PDict [(''api'', PStr ''11.0''), (''lock_id'', PStr ''core'')]),
         (''assets'', PDict [(''lock_id'', PStr ''assets'')])])])]),
     (''result'', PDict (map (\<lambda>b. (b, PDict (map (\<lambda>k. (k, PInt 1)) BOARD_FIELDS))) [''terminal_board'', ''peak_board'']))]"

definition sample_recording :: "string \<Rightarrow> action_kind \<Rightarrow> projection_input" where
  "sample_recording secret k =
    \<lparr>pi_route = recorded_route, pi_initial = sample_snapshot secret, pi_turn = PInt 1, pi_phase = PStr ''main1'',
     pi_checkpoints = [(sample_snapshot secret, PInt 1, PStr ''main1'')], pi_events = [sample_event k],
     pi_viewer = 0, pi_parent = None, pi_fork_step = None\<rparr>"

lemma sample_same: "same_input (sample_recording ''alpha'' PASS) (sample_recording ''beta'' ATTACK)"
  by code_simp

lemma sample_observable: "observable (sample_snapshot ''alpha'') 0" "observable (sample_snapshot ''beta'') 0"
  by code_simp+

lemma recorded_route_view: "\<exists>m. view_manifest recorded_route = Inr m \<and> dict_safe m" "\<exists>x. view_result recorded_route = Inr x \<and> dict_safe x"
proof -
  have "(case view_manifest recorded_route of Inl _ \<Rightarrow> False | Inr m \<Rightarrow> dict_safe m)"
    "(case view_result recorded_route of Inl _ \<Rightarrow> False | Inr m \<Rightarrow> dict_safe m)"
    by code_simp+
  then show "\<exists>m. view_manifest recorded_route = Inr m \<and> dict_safe m" "\<exists>x. view_result recorded_route = Inr x \<and> dict_safe x"
    by (auto split: sum.splits)
qed

lemma sample_event_view:
  assumes "json_safe b" "json_safe a" "json_safe p"
  shows "\<exists>e. project_event (sample_event k) 0 b a p = Inr e \<and> dict_safe e"
proof -
  have safe: "dict_safe (event_payload (sample_event k) 0 b a p PNone)"
    using assms by (simp add: event_payload_def sample_event_def)
  then obtain i where "stable_digest (PDict (event_payload (sample_event k) 0 b a p PNone)) ''playerviewevent_'' = Inr i"
    using stable_digest_total [THEN iffD2] by fastforce
  then show ?thesis using safe by (simp add: project_event_def event_request_def) (simp add: sample_event_def)
qed

lemma sample_build:
  assumes "observable (sample_snapshot s) 0"
  shows "\<exists>r. build_player_view_replay (sample_recording s k) = Inr r"
proof -
  obtain o1 where o1: "project_observation (sample_snapshot s) 0 (PInt 1) (PStr ''main1'') = Inr o1" "dict_safe o1"
    using project_observation_total [OF assms, of 1 "''main1''"] by auto
  obtain e where e: "project_event (sample_event k) 0 (dict_get o1 ''observation_id'') (dict_get o1 ''observation_id'')
      (dict_get o1 ''phase'') = Inr e" "dict_safe e"
    using sample_event_view o1(2) dict_safe_get by metis
  obtain m where m: "view_manifest recorded_route = Inr m" "dict_safe m" using recorded_route_view(1) by auto
  obtain x where x: "view_result recorded_route = Inr x" "dict_safe x" using recorded_route_view(2) by auto
  have "dict_safe (view_payload (sample_recording s k) [o1, o1] [e] m x)"
    using o1 e m x by (simp add: view_payload_def sample_recording_def)
  then obtain i where "stable_digest (PDict (view_payload (sample_recording s k) [o1, o1] [e] m x)) ''playerview_'' = Inr i"
    using stable_digest_total [THEN iffD2] by fastforce
  moreover have "re_step (sample_event k) = 0" by (simp add: sample_event_def)
  ultimately show ?thesis
    using o1 e m x by (auto simp: build_player_view_replay_def) (simp_all add: sample_recording_def o1 e m x)
qed

end
