(* ===== verification/Job_Spec.thy ===== *)
theory Job_Spec
  imports Cache_Formats State_Identity Failures
begin

text \<open>
  The data of \<open>storage/jobs.py\<close>: kinds and states of a job with the allowed transitions, the retry
  policy, the specification of a job with its identifier, artifacts and checkpoints. Constructors take
  dynamic values where the dataclasses check them.
\<close>

definition JOB_CATALOG_SCHEMA_VERSION :: string where
  "JOB_CATALOG_SCHEMA_VERSION = ''job-catalog-v2''"
definition JOB_SPEC_SCHEMA_VERSION :: string where
  "JOB_SPEC_SCHEMA_VERSION = ''job-spec-v2''"
definition JOB_STATE_MACHINE_SCHEMA_VERSION :: string where
  "JOB_STATE_MACHINE_SCHEMA_VERSION = ''job-state-machine-v1''"
definition JOB_RETRY_POLICY_SCHEMA_VERSION :: string where
  "JOB_RETRY_POLICY_SCHEMA_VERSION = ''job-retry-policy-v1''"
definition JOB_CHECKPOINT_SCHEMA_VERSION :: string where
  "JOB_CHECKPOINT_SCHEMA_VERSION = ''job-checkpoint-v1''"
definition JOB_CHECKPOINT_MAX_BYTES :: nat where
  "JOB_CHECKPOINT_MAX_BYTES = 1048576"

section \<open>Kinds and states\<close>

datatype job_kind = JOB_SEARCH | JOB_REPLAY | JOB_IMPORT | JOB_AGGREGATE | JOB_EXPORT

fun job_kind_value :: "job_kind \<Rightarrow> string" where
  "job_kind_value JOB_SEARCH = ''search''"
| "job_kind_value JOB_REPLAY = ''replay''"
| "job_kind_value JOB_IMPORT = ''import''"
| "job_kind_value JOB_AGGREGATE = ''aggregate''"
| "job_kind_value JOB_EXPORT = ''export''"

definition all_job_kinds :: "job_kind list" where
  "all_job_kinds = [JOB_SEARCH, JOB_REPLAY, JOB_IMPORT, JOB_AGGREGATE, JOB_EXPORT]"

definition job_kind_of :: "pyval \<Rightarrow> py_error + job_kind" where
  "job_kind_of = enum_of ''JobKind'' job_kind_value all_job_kinds"

datatype job_state = QUEUED | RUNNING | CANCELLING | CANCELLED | SUCCEEDED | FAILED | RETRYING | QUARANTINED

fun job_state_value :: "job_state \<Rightarrow> string" where
  "job_state_value QUEUED = ''queued''"
| "job_state_value RUNNING = ''running''"
| "job_state_value CANCELLING = ''cancelling''"
| "job_state_value CANCELLED = ''cancelled''"
| "job_state_value SUCCEEDED = ''succeeded''"
| "job_state_value FAILED = ''failed''"
| "job_state_value RETRYING = ''retrying''"
| "job_state_value QUARANTINED = ''quarantined''"

definition all_job_states :: "job_state list" where
  "all_job_states = [QUEUED, RUNNING, CANCELLING, CANCELLED, SUCCEEDED, FAILED, RETRYING, QUARANTINED]"

fun allowed_targets :: "job_state \<Rightarrow> job_state list" where
  "allowed_targets QUEUED = [RUNNING, CANCELLING, FAILED, QUARANTINED]"
| "allowed_targets RUNNING = [CANCELLING, SUCCEEDED, FAILED, RETRYING, QUARANTINED]"
| "allowed_targets CANCELLING = [CANCELLED, FAILED, QUARANTINED]"
| "allowed_targets CANCELLED = []"
| "allowed_targets SUCCEEDED = []"
| "allowed_targets FAILED = [RETRYING, QUARANTINED]"
| "allowed_targets RETRYING = [RUNNING, CANCELLING, FAILED, QUARANTINED]"
| "allowed_targets QUARANTINED = []"

definition is_job_transition_allowed :: "job_state \<Rightarrow> job_state \<Rightarrow> bool" where
  "is_job_transition_allowed previous target \<longleftrightarrow> target \<in> set (allowed_targets previous)"

definition job_state_machine_document :: pydict where
  "job_state_machine_document =
    [(''schema_version'', PStr JOB_STATE_MACHINE_SCHEMA_VERSION),
     (''states'', PList (map (PStr \<circ> job_state_value) all_job_states)),
     (''transitions'', PDict (map (\<lambda>s. (job_state_value s,
        PList (map PStr (sort (map job_state_value (allowed_targets s)))))) all_job_states))]"

section \<open>Times and numbers\<close>

text \<open>
  What the module uses of \<open>datetime\<close>, of floating-point arithmetic and of SQLite's \<open>julianday\<close>, whose
  accepted texts and rounding depend on the installed versions. An instant is a number of microseconds,
  a float is given by its text.
\<close>

record clockwork =
  cw_instant :: "string \<Rightarrow> int option"
  cw_text :: "int \<Rightarrow> string"
  cw_after :: "int \<Rightarrow> string \<Rightarrow> py_error + int"
  cw_float :: "int \<Rightarrow> string option"
  cw_less :: "string \<Rightarrow> string \<Rightarrow> bool"
  cw_scale :: "string \<Rightarrow> string \<Rightarrow> int \<Rightarrow> string option"
  cw_julian :: "string \<Rightarrow> int option"

definition require_string :: "string \<Rightarrow> string \<Rightarrow> py_error + unit" where
  "require_string s name = (if s = [] then Inl (ValueError (name @ '' must be a non-empty string'')) else Inr ())"

definition prefixed_digest :: "string \<Rightarrow> string \<Rightarrow> bool" where
  "prefixed_digest p s \<longleftrightarrow>
    take (length p) s = p \<and> length (drop (length p) s) = 64 \<and> list_all lower_hex (drop (length p) s)"

definition content_id :: "pyval \<Rightarrow> string \<Rightarrow> string \<Rightarrow> py_error + string" where
  "content_id v name p =
    sbind (check_string v name) (\<lambda>s.
    if \<not> prefixed_digest p s then Inl (ValueError (name @ '' must be a '' @ p @ '' content ID'')) else Inr s)"

definition sha256_text :: "string \<Rightarrow> string \<Rightarrow> py_error + unit" where
  "sha256_text s name =
    sbind (require_string s name) (\<lambda>_.
    if length s \<noteq> 64 \<or> \<not> list_all lower_hex s then Inl (ValueError (name @ '' must be a lowercase SHA-256'')) else Inr ())"

text \<open>\<open>datetime.fromisoformat\<close> on the text with its \<open>Z\<close> written as an offset, which is then zero.\<close>

definition zulu :: "string \<Rightarrow> bool" where
  "zulu s \<longleftrightarrow> s \<noteq> [] \<and> last s = CHR ''Z''"

definition instant_of :: "clockwork \<Rightarrow> string \<Rightarrow> int option" where
  "instant_of W s = (if zulu s then cw_instant W (butlast s @ ''+00:00'') else None)"

definition check_timestamp :: "clockwork \<Rightarrow> string \<Rightarrow> string \<Rightarrow> py_error + unit" where
  "check_timestamp W s name =
    sbind (require_string s name) (\<lambda>_.
    if instant_of W s = None then Inl (ValueError (name @ '' must be an ISO-8601 UTC timestamp ending in Z'')) else Inr ())"

definition parsed_timestamp :: "clockwork \<Rightarrow> string \<Rightarrow> py_error + int" where
  "parsed_timestamp W s = sbind (check_timestamp W s ''timestamp'') (\<lambda>_. Inr (the (instant_of W s)))"

definition plus_seconds :: "clockwork \<Rightarrow> string \<Rightarrow> string \<Rightarrow> py_error + string" where
  "plus_seconds W s seconds =
    sbind (parsed_timestamp W s) (\<lambda>t. sbind (cw_after W t seconds) (\<lambda>u. Inr (cw_text W u @ ''Z'')))"

definition float_finite :: "string \<Rightarrow> bool" where
  "float_finite t \<longleftrightarrow> t \<notin> {''NaN'', ''Infinity'', ''-Infinity''}"

definition float_zero :: "string \<Rightarrow> bool" where
  "float_zero t \<longleftrightarrow> t \<in> {''0.0'', ''-0.0''}"

definition float_negative :: "string \<Rightarrow> bool" where
  "float_negative t \<longleftrightarrow> take 1 t = ''-'' \<and> t \<noteq> ''-0.0''"

fun is_float :: "pyval \<Rightarrow> bool" where
  "is_float (PFloat t) = True"
| "is_float v = False"

text \<open>\<open>float(v)\<close> of an \<open>int\<close> or a \<open>float\<close>.\<close>

definition to_float :: "clockwork \<Rightarrow> pyval \<Rightarrow> py_error + string" where
  "to_float W v =
    (case v of
       PFloat t \<Rightarrow> Inr t
     | _ \<Rightarrow> (case cw_float W (int_val v) of None \<Rightarrow> Inl (OverflowError ''int too large to convert to float'') | Some t \<Rightarrow> Inr t))"

definition non_negative_number :: "clockwork \<Rightarrow> pyval \<Rightarrow> string \<Rightarrow> bool \<Rightarrow> py_error + string" where
  "non_negative_number W v name positive =
    (if \<not> (is_strict_int v \<or> is_float v) then Inl (ValueError (name @ '' must be a finite number''))
     else
     sbind (to_float W v) (\<lambda>t.
     if \<not> float_finite t then Inl (ValueError (name @ '' must be a finite number''))
     else if float_negative t \<or> (positive \<and> float_zero t)
     then Inl (ValueError (name @ '' must be '' @ (if positive then ''> 0'' else ''>= 0'')))
     else Inr t))"

section \<open>Retry policies\<close>

record retry_policy =
  rp_timeout :: string
  rp_initial :: string
  rp_multiplier :: string
  rp_maximum :: string
  rp_codes :: "string list"

definition make_retry_policy :: "clockwork \<Rightarrow> (string \<Rightarrow> pyval) \<Rightarrow> pyval list \<Rightarrow> py_error + retry_policy" where
  "make_retry_policy W v raw =
    (if v ''schema_version'' \<noteq> PStr JOB_RETRY_POLICY_SCHEMA_VERSION
     then Inl (ValueError ''unsupported JobRetryPolicy schema'')
     else
     sbind (non_negative_number W (v ''attempt_timeout_seconds'') ''attempt_timeout_seconds'' True) (\<lambda>timeout.
     sbind (non_negative_number W (v ''initial_backoff_seconds'') ''initial_backoff_seconds'' False) (\<lambda>initial.
     sbind (non_negative_number W (v ''backoff_multiplier'') ''backoff_multiplier'' True) (\<lambda>multiplier.
     if cw_less W multiplier ''1.0'' then Inl (ValueError ''backoff_multiplier must be >= 1'')
     else
     sbind (non_negative_number W (v ''max_backoff_seconds'') ''max_backoff_seconds'' False) (\<lambda>maximum.
     if cw_less W maximum initial
     then Inl (ValueError ''max_backoff_seconds must be >= initial_backoff_seconds'')
     else
     sbind (sseq (map (\<lambda>c. check_string c ''retryable_error_codes[]'') raw)) (\<lambda>codes.
     if \<not> distinct codes then Inl (ValueError ''retryable_error_codes must be unique'')
     else Inr \<lparr>rp_timeout = timeout, rp_initial = initial, rp_multiplier = multiplier, rp_maximum = maximum,
       rp_codes = sort codes\<rparr>))))))"

definition backoff_after :: "clockwork \<Rightarrow> retry_policy \<Rightarrow> int \<Rightarrow> py_error + string" where
  "backoff_after W p n =
    (if n < 1 then Inl (ValueError ''attempt must be an integer >= 1'')
     else if float_zero (rp_initial p) then Inr ''0.0''
     else case cw_scale W (rp_initial p) (rp_multiplier p) (n - 1) of
       None \<Rightarrow> Inr (rp_maximum p)
     | Some t \<Rightarrow> Inr (if cw_less W (rp_maximum p) t then rp_maximum p else t))"

definition retry_policy_to_dict :: "retry_policy \<Rightarrow> pydict" where
  "retry_policy_to_dict p =
    [(''attempt_timeout_seconds'', PFloat (rp_timeout p)),
     (''backoff_multiplier'', PFloat (rp_multiplier p)),
     (''initial_backoff_seconds'', PFloat (rp_initial p)),
     (''max_backoff_seconds'', PFloat (rp_maximum p)),
     (''retryable_error_codes'', PList (map PStr (rp_codes p))),
     (''schema_version'', PStr JOB_RETRY_POLICY_SCHEMA_VERSION)]"

definition RETRY_POLICY_FIELDS :: "string list" where
  "RETRY_POLICY_FIELDS = [''attempt_timeout_seconds'', ''backoff_multiplier'', ''initial_backoff_seconds'',
     ''max_backoff_seconds'', ''retryable_error_codes'', ''schema_version'']"

definition retry_policy_from_dict :: "clockwork \<Rightarrow> pyval \<Rightarrow> py_error + retry_policy" where
  "retry_policy_from_dict W v =
    (case v of
       PDict d \<Rightarrow>
         if fst ` set d \<noteq> set RETRY_POLICY_FIELDS
         then Inl (ValueError (''JobRetryPolicy fields must be exactly '' @ repr_strs RETRY_POLICY_FIELDS))
         else (case dict_get d ''retryable_error_codes'' of
             PList raw \<Rightarrow> make_retry_policy W (dict_get d) raw
           | _ \<Rightarrow> Inl (ValueError ''retryable_error_codes must be a list''))
     | _ \<Rightarrow> Inl (ValueError (''JobRetryPolicy fields must be exactly '' @ repr_strs RETRY_POLICY_FIELDS)))"

section \<open>Specifications\<close>

record job_spec =
  js_kind :: job_kind
  js_key :: string
  js_input :: string
  js_payload :: pydict
  js_priority :: int
  js_max :: int
  js_deps :: "string list"
  js_deadline :: "string option"
  js_retry :: retry_policy

definition exact_payload :: "pydict \<Rightarrow> string list \<Rightarrow> job_kind \<Rightarrow> py_error + pydict" where
  "exact_payload d expected kind =
    (if fst ` set d \<noteq> set expected
     then Inl (ValueError (job_kind_value kind @ '' payload fields must be exactly '' @ repr_strs expected))
     else Inr (canonical_entries d))"

definition check_entry :: "pydict \<Rightarrow> string \<Rightarrow> py_error + string" where
  "check_entry d k = check_string (dict_get d k) (''payload.'' @ k)"

definition check_entry_id :: "pydict \<Rightarrow> string \<Rightarrow> string \<Rightarrow> py_error + string" where
  "check_entry_id d k p = content_id (dict_get d k) (''payload.'' @ k) p"

text \<open>A \<open>ValueError\<close> of the first snapshot check starts the second one.\<close>

definition snapshot_reference :: "pydict \<Rightarrow> py_error + string" where
  "snapshot_reference d =
    (case check_entry_id d ''query_snapshot_id'' ''analyticssnapshot_'' of
       Inl (ValueError _) \<Rightarrow> check_entry_id d ''query_snapshot_id'' ''querysnapshot_''
     | r \<Rightarrow> r)"

definition corpus_ids :: "pydict \<Rightarrow> py_error + string list" where
  "corpus_ids d =
    (case dict_get d ''corpus_item_ids'' of
       PList vs \<Rightarrow>
         if vs = [] then Inl (ValueError ''payload.corpus_item_ids must be a non-empty list'')
         else
         sbind (sseq (map (\<lambda>v. content_id v ''payload.corpus_item_ids[]'' ''corpusitem_'') vs)) (\<lambda>ids.
         if \<not> distinct ids then Inl (ValueError ''payload.corpus_item_ids must be unique'') else Inr (sort ids))
     | _ \<Rightarrow> Inl (ValueError ''payload.corpus_item_ids must be a non-empty list''))"

definition validate_payload :: "job_kind \<Rightarrow> pyval \<Rightarrow> py_error + pydict" where
  "validate_payload kind v =
    (case v of
       PDict raw \<Rightarrow>
        (case kind of
           JOB_SEARCH \<Rightarrow>
             sbind (exact_payload raw [''experiment_digest'', ''experiment_id''] kind) (\<lambda>d.
             sbind (check_entry d ''experiment_id'') (\<lambda>_.
             sbind (check_entry_id d ''experiment_digest'' ''experiment_'') (\<lambda>_. Inr d)))
         | JOB_REPLAY \<Rightarrow>
             sbind (exact_payload raw [''replay_manifest_hash'', ''route_id''] kind) (\<lambda>d.
             sbind (check_entry_id d ''route_id'' ''route_'') (\<lambda>_.
             sbind (check_entry_id d ''replay_manifest_hash'' ''manifest_'') (\<lambda>_. Inr d)))
         | JOB_IMPORT \<Rightarrow>
             sbind (exact_payload raw [''corpus_item_id'', ''source_uri''] kind) (\<lambda>d.
             sbind (check_entry_id d ''corpus_item_id'' ''corpusitem_'') (\<lambda>_.
             sbind (check_entry d ''source_uri'') (\<lambda>_. Inr d)))
         | JOB_AGGREGATE \<Rightarrow>
             sbind (exact_payload raw [''corpus_item_ids'', ''evaluator_id'', ''evaluator_version''] kind) (\<lambda>d.
             sbind (corpus_ids d) (\<lambda>ids.
             sbind (check_entry d ''evaluator_id'') (\<lambda>_.
             sbind (check_entry d ''evaluator_version'') (\<lambda>_.
             Inr (dict_set ''corpus_item_ids'' (PList (map PStr ids)) d)))))
         | JOB_EXPORT \<Rightarrow>
             sbind (exact_payload raw [''format'', ''query_snapshot_id''] kind) (\<lambda>d.
             case unhashable (dict_get d ''format'') of
               Some t \<Rightarrow> Inl (TypeError (''unhashable type: '' @ repr_str t))
             | None \<Rightarrow>
                 if dict_get d ''format'' \<notin> {PStr ''csv'', PStr ''json'', PStr ''parquet''}
                 then Inl (ValueError ''payload.format must be csv, json, or parquet'')
                 else sbind (snapshot_reference d) (\<lambda>_. Inr d)))
     | _ \<Rightarrow> Inl (ValueError ''job payload must be a mapping''))"

text \<open>The constructor, on the arguments by name, with the dependencies and the retry policy given.\<close>

definition deadline_text :: "clockwork \<Rightarrow> pyval \<Rightarrow> py_error + string option" where
  "deadline_text W v =
    (case v of
       PNone \<Rightarrow> Inr None
     | PStr s \<Rightarrow> sbind (check_timestamp W s ''deadline_at'') (\<lambda>_. Inr (Some s))
     | _ \<Rightarrow> Inl (ValueError ''deadline_at must be a non-empty string''))"

definition priority_of :: "pyval \<Rightarrow> py_error + int" where
  "priority_of v =
    (case v of
       PInt i \<Rightarrow> if \<not> (-1000 \<le> i \<and> i \<le> 1000) then Inl (ValueError ''priority must be an integer between -1000 and 1000'')
         else Inr i
     | _ \<Rightarrow> Inl (ValueError ''priority must be an integer between -1000 and 1000''))"

definition make_job_spec ::
  "clockwork \<Rightarrow> (string \<Rightarrow> pyval) \<Rightarrow> job_kind \<Rightarrow> pyval list \<Rightarrow> retry_policy \<Rightarrow> py_error + job_spec"
where
  "make_job_spec W v kind deps retry =
    (if v ''schema_version'' \<noteq> PStr JOB_SPEC_SCHEMA_VERSION then Inl (ValueError ''unsupported JobSpec schema'')
     else
     sbind (deadline_text W (v ''deadline_at'')) (\<lambda>deadline.
     sbind (check_string (v ''idempotency_key'') ''idempotency_key'') (\<lambda>key.
     sbind (content_id (v ''input_digest'') ''input_digest'' ''jobinput_'') (\<lambda>digest.
     sbind (priority_of (v ''priority'')) (\<lambda>prio.
     sbind (require_positive (v ''max_attempts'') ''max_attempts'') (\<lambda>most.
     sbind (sseq (map (\<lambda>d. content_id d ''dependency_ids[]'' ''job_'') deps)) (\<lambda>ids.
     if \<not> distinct ids then Inl (ValueError ''dependency_ids must be unique'')
     else
     sbind (validate_payload kind (v ''payload'')) (\<lambda>p.
     Inr \<lparr>js_kind = kind, js_key = key, js_input = digest, js_payload = p, js_priority = prio, js_max = most,
       js_deps = sort ids, js_deadline = deadline, js_retry = retry\<rparr>))))))))"

definition job_spec_entries :: "job_spec \<Rightarrow> pydict" where
  "job_spec_entries s =
    [(''deadline_at'', opt_str (js_deadline s)),
     (''dependency_ids'', PList (map PStr (js_deps s))),
     (''idempotency_key'', PStr (js_key s)),
     (''input_digest'', PStr (js_input s)),
     (''kind'', PStr (job_kind_value (js_kind s))),
     (''max_attempts'', PInt (js_max s)),
     (''payload'', PDict (js_payload s)),
     (''priority'', PInt (js_priority s)),
     (''retry_policy'', PDict (retry_policy_to_dict (js_retry s))),
     (''schema_version'', PStr JOB_SPEC_SCHEMA_VERSION)]"

text \<open>The identifier is the digest of strings, integers and float texts, for which it is defined.\<close>

definition job_id_of :: "job_spec \<Rightarrow> string" where
  "job_id_of s = safe_digest (job_spec_entries s) ''job_''"

definition job_spec_to_dict :: "job_spec \<Rightarrow> pydict" where
  "job_spec_to_dict s = canonical_entries ((''job_id'', PStr (job_id_of s)) # job_spec_entries s)"

definition spec_json :: "job_spec \<Rightarrow> string" where
  "spec_json s = json_text (job_spec_to_dict s)"

definition JOB_SPEC_FIELDS :: "string list" where
  "JOB_SPEC_FIELDS = [''deadline_at'', ''dependency_ids'', ''idempotency_key'', ''input_digest'', ''job_id'', ''kind'',
     ''max_attempts'', ''payload'', ''priority'', ''retry_policy'', ''schema_version'']"

definition job_spec_from_dict :: "clockwork \<Rightarrow> pydict \<Rightarrow> py_error + job_spec" where
  "job_spec_from_dict W d =
    (if fst ` set d \<noteq> set JOB_SPEC_FIELDS
     then Inl (ValueError (''JobSpec fields must be exactly '' @ repr_strs JOB_SPEC_FIELDS @ ''; observed '' @
       repr_strs (sort (remdups (map fst d)))))
     else case dict_get d ''dependency_ids'' of
       PList deps \<Rightarrow>
         sbind (job_kind_of (dict_get d ''kind'')) (\<lambda>kind.
         sbind (retry_policy_from_dict W (dict_get d ''retry_policy'')) (\<lambda>retry.
         sbind (make_job_spec W (dict_get d) kind deps retry) (\<lambda>s.
         if dict_get d ''job_id'' \<noteq> PStr (job_id_of s)
         then Inl (ValueError ''JobSpec job_id does not match its semantic content'')
         else Inr s)))
     | _ \<Rightarrow> Inl (ValueError ''dependency_ids must be a list''))"

section \<open>Artifacts and checkpoints\<close>

record job_artifact =
  ja_kind :: string
  ja_path :: string
  ja_sha256 :: string
  ja_schema :: string
  ja_rows :: "int option"

definition make_job_artifact :: "string \<Rightarrow> string \<Rightarrow> string \<Rightarrow> string \<Rightarrow> pyval \<Rightarrow> py_error + job_artifact" where
  "make_job_artifact kind path sha schema row_count =
    sbind (require_string kind ''kind'') (\<lambda>_.
    sbind (require_string path ''path'') (\<lambda>_.
    sbind (require_string schema ''schema_version'') (\<lambda>_.
    sbind (sha256_text sha ''sha256'') (\<lambda>_.
    let artifact = \<lparr>ja_kind = kind, ja_path = path, ja_sha256 = sha, ja_schema = schema, ja_rows = None\<rparr> in
    case row_count of
      PNone \<Rightarrow> Inr artifact
    | PInt i \<Rightarrow> if i < 0 then Inl (ValueError ''row_count must be an integer >= 0 or None'')
        else Inr (artifact\<lparr>ja_rows := Some i\<rparr>)
    | _ \<Rightarrow> Inl (ValueError ''row_count must be an integer >= 0 or None'')))))"

definition artifact_entries :: "job_artifact \<Rightarrow> pydict" where
  "artifact_entries a =
    [(''kind'', PStr (ja_kind a)), (''path'', PStr (ja_path a)), (''row_count'', opt_int (ja_rows a)),
     (''schema_version'', PStr (ja_schema a)), (''sha256'', PStr (ja_sha256 a))]"

definition artifact_id :: "job_artifact \<Rightarrow> string" where
  "artifact_id a = safe_digest (artifact_entries a) ''jobartifact_''"

definition artifact_to_dict :: "job_artifact \<Rightarrow> pydict" where
  "artifact_to_dict a = (''artifact_id'', PStr (artifact_id a)) # artifact_entries a"

record job_checkpoint =
  jc_job :: string
  jc_attempt :: int
  jc_sequence :: int
  jc_input :: string
  jc_position :: string
  jc_completed :: int
  jc_total :: "int option"
  jc_payload :: pydict
  jc_created :: string
  jc_result :: "string option"

text \<open>\<open>__post_init__\<close> of a checkpoint whose fields have the annotated types.\<close>

definition make_job_checkpoint :: "clockwork \<Rightarrow> job_checkpoint \<Rightarrow> py_error + job_checkpoint" where
  "make_job_checkpoint W c =
    sbind (content_id (PStr (jc_job c)) ''job_id'' ''job_'') (\<lambda>_.
    sbind (content_id (PStr (jc_input c)) ''input_digest'' ''jobinput_'') (\<lambda>_.
    sbind (require_string (jc_position c) ''recovery_position'') (\<lambda>_.
    sbind (check_timestamp W (jc_created c) ''created_at'') (\<lambda>_.
    if jc_attempt c < 1 then Inl (ValueError ''attempt must be an integer >= 1'')
    else if jc_sequence c < 0 then Inl (ValueError ''sequence must be an integer >= 0'')
    else if jc_completed c < 0 then Inl (ValueError ''completed_units must be an integer >= 0'')
    else if (case jc_total c of None \<Rightarrow> False | Some t \<Rightarrow> t < jc_completed c)
    then Inl (ValueError ''total_units must be None or >= completed_units'')
    else
    sbind (case jc_result c of None \<Rightarrow> Inr [] | Some r \<Rightarrow> content_id (PStr r) ''semantic_result_digest'' ''jobsemantic_'') (\<lambda>_.
    Inr (c\<lparr>jc_payload := canonical_entries (jc_payload c)\<rparr>))))))"

definition checkpoint_entries :: "job_checkpoint \<Rightarrow> pydict" where
  "checkpoint_entries c = canonical_entries
    [(''attempt'', PInt (jc_attempt c)), (''completed_units'', PInt (jc_completed c)), (''created_at'', PStr (jc_created c)),
     (''input_digest'', PStr (jc_input c)), (''job_id'', PStr (jc_job c)), (''payload'', PDict (jc_payload c)),
     (''recovery_position'', PStr (jc_position c)), (''schema_version'', PStr JOB_CHECKPOINT_SCHEMA_VERSION),
     (''semantic_result_digest'', opt_str (jc_result c)), (''sequence'', PInt (jc_sequence c)),
     (''total_units'', opt_int (jc_total c))]"

definition checkpoint_id :: "job_checkpoint \<Rightarrow> py_error + string" where
  "checkpoint_id c = stable_digest (PDict (checkpoint_entries c)) ''jobcheckpoint_''"

end
