(* ===== verification/Job_Catalog.thy ===== *)
theory Job_Catalog
  imports Job_Spec "HOL-Library.Product_Lexorder" "HOL-Library.Option_ord"
begin

text \<open>
  \<open>JobCatalog\<close> of \<open>storage/jobs.py\<close>. The tables of the SQLite file are lists of rows; an operation
  returns the catalog after its transaction, or the exception, after which the transaction is rolled
  back and the catalog is the one before. The columns of a job that the insertion copies from the
  specification and no operation changes are read from the specification.
\<close>

section \<open>Rows\<close>

record job_record =
  jr_id :: string
  jr_spec :: job_spec
  jr_state :: job_state
  jr_attempt :: int
  jr_created :: string
  jr_updated :: string
  jr_owner :: "string option"
  jr_token :: "string option"
  jr_acquired :: "string option"
  jr_heartbeat :: "string option"
  jr_expires :: "string option"
  jr_attempt_deadline :: "string option"
  jr_not_before :: "string option"
  jr_checkpoint :: "string option"
  jr_position :: "string option"
  jr_artifact_set :: "string option"
  jr_error :: "string option"
  jr_message :: "string option"

record job_transition =
  jt_job :: string
  jt_sequence :: int
  jt_from :: "job_state option"
  jt_to :: job_state
  jt_attempt :: int
  jt_actor :: string
  jt_at :: string
  jt_reason :: string

record catalog =
  ct_schema :: "string option option"
  ct_jobs :: "job_record list"
  ct_deps :: "(string \<times> string) list"
  ct_transitions :: "job_transition list"
  ct_artifacts :: "(string \<times> job_artifact) list"
  ct_checkpoints :: "job_checkpoint list"

text \<open>A fresh file, without tables.\<close>

definition empty_catalog :: catalog where
  "empty_catalog = \<lparr>ct_schema = None, ct_jobs = [], ct_deps = [], ct_transitions = [], ct_artifacts = [], ct_checkpoints = []\<rparr>"

text \<open>\<open>None\<close>: no table of versions; \<open>Some None\<close>: the table has no version row.\<close>

definition initialize :: "catalog \<Rightarrow> py_error + catalog" where
  "initialize c =
    (case ct_schema c of
       None \<Rightarrow> Inr (c\<lparr>ct_schema := Some (Some JOB_CATALOG_SCHEMA_VERSION)\<rparr>)
     | Some v \<Rightarrow>
         if v \<noteq> Some JOB_CATALOG_SCHEMA_VERSION
         then Inl (ValueError (''job catalog schema '' @ (case v of None \<Rightarrow> ''None'' | Some s \<Rightarrow> repr_str s) @
           '' requires explicit migration to '' @ repr_str JOB_CATALOG_SCHEMA_VERSION))
         else Inr c)"

definition find_job :: "string \<Rightarrow> catalog \<Rightarrow> job_record option" where
  "find_job i c = find (\<lambda>r. jr_id r = i) (ct_jobs c)"

definition job_row :: "catalog \<Rightarrow> string \<Rightarrow> py_error + job_record" where
  "job_row c i =
    (case find_job i c of
       None \<Rightarrow> Inl (ValueError (''job '' @ repr_str i @ '' does not exist''))
     | Some r \<Rightarrow> Inr r)"

definition update_job :: "string \<Rightarrow> (job_record \<Rightarrow> job_record) \<Rightarrow> catalog \<Rightarrow> catalog" where
  "update_job i f c = c\<lparr>ct_jobs := map (\<lambda>r. if jr_id r = i then f r else r) (ct_jobs c)\<rparr>"

definition transitions_of :: "string \<Rightarrow> catalog \<Rightarrow> job_transition list" where
  "transitions_of i c = filter (\<lambda>t. jt_job t = i) (ct_transitions c)"

text \<open>\<open>COALESCE(MAX(sequence), -1) + 1\<close>.\<close>

definition next_sequence :: "string \<Rightarrow> catalog \<Rightarrow> int" where
  "next_sequence i c = foldl (\<lambda>m t. max m (jt_sequence t)) (-1) (transitions_of i c) + 1"

definition insert_transition ::
  "string \<Rightarrow> job_state option \<Rightarrow> job_state \<Rightarrow> int \<Rightarrow> string \<Rightarrow> string \<Rightarrow> string \<Rightarrow> catalog \<Rightarrow> catalog"
where
  "insert_transition i previous target n actor time reason c =
    c\<lparr>ct_transitions := ct_transitions c @
      [\<lparr>jt_job = i, jt_sequence = next_sequence i c, jt_from = previous, jt_to = target, jt_attempt = n,
        jt_actor = actor, jt_at = time, jt_reason = reason\<rparr>]\<rparr>"

text \<open>The \<open>UPDATE\<close> of a row together with its transition record.\<close>

definition move_job ::
  "job_record \<Rightarrow> (job_record \<Rightarrow> job_record) \<Rightarrow> job_state \<Rightarrow> int \<Rightarrow> string \<Rightarrow> string \<Rightarrow> string \<Rightarrow> catalog \<Rightarrow> catalog"
where
  "move_job r f target n actor time reason c =
    insert_transition (jr_id r) (Some (jr_state r)) target n actor time reason
      (update_job (jr_id r) (\<lambda>r. (f r)\<lparr>jr_state := target, jr_updated := time\<rparr>) c)"

definition release :: "job_record \<Rightarrow> job_record" where
  "release r = r\<lparr>jr_owner := None, jr_token := None, jr_acquired := None, jr_heartbeat := None, jr_expires := None,
     jr_attempt_deadline := None\<rparr>"

definition with_error :: "string option \<Rightarrow> string option \<Rightarrow> string option \<Rightarrow> job_record \<Rightarrow> job_record" where
  "with_error not_before code message r = r\<lparr>jr_not_before := not_before, jr_error := code, jr_message := message\<rparr>"

definition assert_transition :: "job_state \<Rightarrow> job_state \<Rightarrow> py_error + unit" where
  "assert_transition previous target =
    (if \<not> is_job_transition_allowed previous target
     then Inl (JobStateTransition (''invalid job transition '' @ repr_str (job_state_value previous) @ '' -> '' @
       repr_str (job_state_value target)))
     else Inr ())"

text \<open>\<open>v is not None and at >= v\<close> for two timestamps.\<close>

definition time_reached :: "clockwork \<Rightarrow> string \<Rightarrow> string option \<Rightarrow> py_error + bool" where
  "time_reached W time v =
    (case v of
       None \<Rightarrow> Inr False
     | Some s \<Rightarrow> sbind (parsed_timestamp W time) (\<lambda>a. sbind (parsed_timestamp W s) (\<lambda>b. Inr (b \<le> a))))"

definition assert_lease :: "clockwork \<Rightarrow> job_record \<Rightarrow> string \<Rightarrow> string \<Rightarrow> py_error + unit" where
  "assert_lease W r token time =
    (if jr_token r \<noteq> Some token
     then Inl (JobLease ''job lease token does not match the active attempt'')
     else if jr_expires r = None then Inl (JobLease ''job lease has expired'')
     else sbind (time_reached W time (jr_expires r)) (\<lambda>expired.
       if expired then Inl (JobLease ''job lease has expired'') else Inr ()))"

section \<open>Creating and claiming\<close>

fun check_dependencies :: "catalog \<Rightarrow> string list \<Rightarrow> py_error + unit" where
  "check_dependencies c [] = Inr ()"
| "check_dependencies c (i # is) =
     (if find_job i c = None then Inl (ValueError (''dependency job '' @ repr_str i @ '' does not exist''))
      else check_dependencies c is)"

definition new_job :: "job_spec \<Rightarrow> string \<Rightarrow> job_record" where
  "new_job s time =
    \<lparr>jr_id = job_id_of s, jr_spec = s, jr_state = QUEUED, jr_attempt = 0, jr_created = time, jr_updated = time,
     jr_owner = None, jr_token = None, jr_acquired = None, jr_heartbeat = None, jr_expires = None,
     jr_attempt_deadline = None, jr_not_before = None, jr_checkpoint = None, jr_position = None,
     jr_artifact_set = None, jr_error = None, jr_message = None\<rparr>"

definition insert_job :: "job_spec \<Rightarrow> string \<Rightarrow> string \<Rightarrow> catalog \<Rightarrow> catalog" where
  "insert_job s time actor c =
    insert_transition (job_id_of s) None QUEUED 0 actor time ''created''
      (c\<lparr>ct_jobs := ct_jobs c @ [new_job s time], ct_deps := ct_deps c @ map (Pair (job_id_of s)) (js_deps s)\<rparr>)"

text \<open>\<open>sqlite3\<close> binds an integer of at most 64 bits; the columns that take a count are not negative.\<close>

definition unbindable :: "int option \<Rightarrow> bool" where
  "unbindable v \<longleftrightarrow> (case v of None \<Rightarrow> False | Some i \<Rightarrow> 2 ^ 63 \<le> i)"

definition bind_error :: py_error where
  "bind_error = OverflowError ''Python int too large to convert to SQLite INTEGER''"

definition create_job :: "clockwork \<Rightarrow> job_spec \<Rightarrow> string \<Rightarrow> string \<Rightarrow> catalog \<Rightarrow> py_error + job_record \<times> catalog" where
  "create_job W s time actor c =
    sbind (check_timestamp W time ''created_at'') (\<lambda>_.
    sbind (require_string actor ''actor'') (\<lambda>_.
    sbind (initialize c) (\<lambda>c.
    case find (\<lambda>r. js_key (jr_spec r) = js_key s) (ct_jobs c) of
      Some r \<Rightarrow>
        if spec_json (jr_spec r) \<noteq> spec_json s
        then Inl (JobIdempotencyConflict ''idempotency key already belongs to another JobSpec'')
        else Inr (r, c)
    | None \<Rightarrow>
        sbind (check_dependencies c (js_deps s)) (\<lambda>_.
        if unbindable (Some (js_max s)) then Inl bind_error
        else if find_job (job_id_of s) c \<noteq> None then Inl (IntegrityError ''UNIQUE constraint failed: jobs.job_id'')
        else Inr (new_job s time, insert_job s time actor c)))))"

text \<open>The \<open>WHERE\<close> clause of the claim; a comparison with \<open>NULL\<close> is not true.\<close>

definition julian_less :: "clockwork \<Rightarrow> string \<Rightarrow> string \<Rightarrow> bool" where
  "julian_less W s t = (case (cw_julian W s, cw_julian W t) of (Some a, Some b) \<Rightarrow> a < b | _ \<Rightarrow> False)"

definition julian_leq :: "clockwork \<Rightarrow> string \<Rightarrow> string \<Rightarrow> bool" where
  "julian_leq W s t = (case (cw_julian W s, cw_julian W t) of (Some a, Some b) \<Rightarrow> a \<le> b | _ \<Rightarrow> False)"

definition waits :: "catalog \<Rightarrow> job_record \<Rightarrow> bool" where
  "waits c r \<longleftrightarrow>
    list_ex (\<lambda>(i, d). i = jr_id r \<and> list_ex (\<lambda>p. jr_id p = d \<and> jr_state p \<noteq> SUCCEEDED) (ct_jobs c)) (ct_deps c)"

definition runnable :: "clockwork \<Rightarrow> job_kind list \<Rightarrow> string \<Rightarrow> catalog \<Rightarrow> job_record \<Rightarrow> bool" where
  "runnable W kinds time c r \<longleftrightarrow>
    jr_state r \<in> {QUEUED, RETRYING} \<and> js_kind (jr_spec r) \<in> set kinds \<and> jr_attempt r < js_max (jr_spec r) \<and>
    (case js_deadline (jr_spec r) of None \<Rightarrow> True | Some d \<Rightarrow> julian_less W time d) \<and>
    (case jr_not_before r of None \<Rightarrow> True | Some n \<Rightarrow> julian_leq W n time) \<and>
    \<not> waits c r"

definition claim_order :: "clockwork \<Rightarrow> job_record \<Rightarrow> int \<times> int option \<times> string \<times> string" where
  "claim_order W r = (- js_priority (jr_spec r), cw_julian W (jr_created r), jr_created r, jr_id r)"

definition next_runnable :: "clockwork \<Rightarrow> job_kind list \<Rightarrow> string \<Rightarrow> catalog \<Rightarrow> job_record option" where
  "next_runnable W kinds time c =
    (case sort_key (claim_order W) (filter (runnable W kinds time c) (ct_jobs c)) of [] \<Rightarrow> None | r # _ \<Rightarrow> Some r)"

text \<open>\<open>isinstance(v, (int, float)) and v > 0\<close>, and the number as a \<open>float\<close>.\<close>

definition positive_seconds :: "clockwork \<Rightarrow> pyval \<Rightarrow> py_error + unit" where
  "positive_seconds W v =
    (if \<not> (is_int v \<or> is_float v) \<or> (is_int v \<and> int_val v \<le> 0) \<or>
        (case v of PFloat t \<Rightarrow> float_negative t \<or> float_zero t | _ \<Rightarrow> False)
     then Inl (ValueError ''lease_seconds must be > 0'') else Inr ())"

definition earlier_of :: "clockwork \<Rightarrow> string option \<Rightarrow> string \<Rightarrow> py_error + string" where
  "earlier_of W limit time =
    (case limit of
       None \<Rightarrow> Inr time
     | Some d \<Rightarrow> sbind (parsed_timestamp W d) (\<lambda>a. sbind (parsed_timestamp W time) (\<lambda>b. Inr (if a < b then d else time))))"

definition lease_token :: "string \<Rightarrow> int \<Rightarrow> string \<Rightarrow> string \<Rightarrow> string" where
  "lease_token i n time owner =
    safe_digest [(''attempt'', PInt n), (''job_id'', PStr i), (''lease_acquired_at'', PStr time), (''worker_id'', PStr owner)]
      ''lease_''"

definition leased :: "string \<Rightarrow> int \<Rightarrow> string \<Rightarrow> string \<Rightarrow> string \<Rightarrow> job_record \<Rightarrow> job_record" where
  "leased owner n time expires limit r = r\<lparr>jr_attempt := n, jr_owner := Some owner,
     jr_token := Some (lease_token (jr_id r) n time owner), jr_acquired := Some time, jr_heartbeat := Some time,
     jr_expires := Some expires, jr_attempt_deadline := Some limit, jr_not_before := None, jr_error := None,
     jr_message := None\<rparr>"

definition claim_job ::
  "clockwork \<Rightarrow> string \<Rightarrow> string \<Rightarrow> pyval \<Rightarrow> job_record \<Rightarrow> catalog \<Rightarrow> py_error + job_record option \<times> catalog"
where
  "claim_job W worker time seconds r c =
    (let n = jr_attempt r + 1 in
     sbind (to_float W seconds) (\<lambda>lease.
     sbind (plus_seconds W time lease) (\<lambda>expires.
     sbind (plus_seconds W time (rp_timeout (js_retry (jr_spec r)))) (\<lambda>end_of_attempt.
     sbind (earlier_of W (js_deadline (jr_spec r)) end_of_attempt) (\<lambda>limit.
     let c' = move_job r (leased worker n time expires limit) RUNNING n worker time ''lease_acquired'' c in
     Inr (find_job (jr_id r) c', c'))))))"

definition claim_next ::
  "clockwork \<Rightarrow> string \<Rightarrow> string \<Rightarrow> pyval \<Rightarrow> pyval list option \<Rightarrow> catalog \<Rightarrow> py_error + job_record option \<times> catalog"
where
  "claim_next W worker time seconds kinds c =
    sbind (require_string worker ''worker_id'') (\<lambda>_.
    sbind (check_timestamp W time ''now'') (\<lambda>_.
    sbind (positive_seconds W seconds) (\<lambda>_.
    sbind (case kinds of None \<Rightarrow> Inr all_job_kinds | Some vs \<Rightarrow> sseq (map job_kind_of vs)) (\<lambda>accepted.
    if accepted = [] then Inl (ValueError ''kinds must contain at least one JobKind'')
    else if \<not> distinct accepted then Inl (ValueError ''kinds must not contain duplicates'')
    else
    sbind (initialize c) (\<lambda>c.
    case next_runnable W accepted time c of
      None \<Rightarrow> Inr (None, c)
    | Some r \<Rightarrow> claim_job W worker time seconds r c)))))"

section \<open>Working on a job\<close>

definition heartbeat ::
  "clockwork \<Rightarrow> string \<Rightarrow> string \<Rightarrow> string \<Rightarrow> pyval \<Rightarrow> catalog \<Rightarrow> py_error + job_record \<times> catalog"
where
  "heartbeat W i token time seconds c =
    sbind (check_timestamp W time ''now'') (\<lambda>_.
    sbind (positive_seconds W seconds) (\<lambda>_.
    sbind (initialize c) (\<lambda>c.
    sbind (job_row c i) (\<lambda>r.
    sbind (assert_lease W r token time) (\<lambda>_.
    if jr_state r \<notin> {RUNNING, CANCELLING} then Inl (JobLease ''heartbeat requires a running or cancelling job'')
    else
    sbind (time_reached W time (jr_attempt_deadline r)) (\<lambda>late.
    if late then Inl (JobLease ''job attempt deadline has expired'')
    else
    sbind (to_float W seconds) (\<lambda>lease.
    sbind (plus_seconds W time lease) (\<lambda>requested.
    sbind (earlier_of W (jr_attempt_deadline r) requested) (\<lambda>expires.
    let c' = update_job i (\<lambda>r. r\<lparr>jr_heartbeat := Some time, jr_expires := Some expires, jr_updated := time\<rparr>) c in
    sbind (job_row c' i) (\<lambda>r'. Inr (r', c')))))))))))"

record control_signal =
  cs_job :: string
  cs_attempt :: int
  cs_state :: job_state
  cs_checked :: string
  cs_cancel :: bool
  cs_lease_expired :: bool
  cs_attempt_timeout :: bool
  cs_deadline :: bool
  cs_position :: "string option"

definition should_stop :: "control_signal \<Rightarrow> bool" where
  "should_stop s \<longleftrightarrow> cs_cancel s \<or> cs_lease_expired s \<or> cs_attempt_timeout s \<or> cs_deadline s"

definition control_signal_of :: "clockwork \<Rightarrow> string \<Rightarrow> string \<Rightarrow> string \<Rightarrow> catalog \<Rightarrow> py_error + control_signal" where
  "control_signal_of W i token time c =
    sbind (check_timestamp W time ''now'') (\<lambda>_.
    sbind (initialize c) (\<lambda>c.
    sbind (job_row c i) (\<lambda>r.
    if jr_token r \<noteq> Some token then Inl (JobLease ''job lease token does not match the active attempt'')
    else if jr_state r \<notin> {RUNNING, CANCELLING} then Inl (JobLease ''job no longer has an active attempt'')
    else
    sbind (case jr_acquired r of None \<Rightarrow> Inr False
      | Some s \<Rightarrow> sbind (parsed_timestamp W time) (\<lambda>a. sbind (parsed_timestamp W s) (\<lambda>b. Inr (a < b)))) (\<lambda>early.
    if early then Inl (JobLease ''control timestamp predates the active lease'')
    else
    sbind (time_reached W time (jr_expires r)) (\<lambda>expired.
    sbind (time_reached W time (jr_attempt_deadline r)) (\<lambda>timeout.
    sbind (time_reached W time (js_deadline (jr_spec r))) (\<lambda>late.
    Inr \<lparr>cs_job = i, cs_attempt = jr_attempt r, cs_state = jr_state r, cs_checked = time,
      cs_cancel = (jr_state r = CANCELLING), cs_lease_expired = expired, cs_attempt_timeout = timeout,
      cs_deadline = late, cs_position = jr_position r\<rparr>)))))))"

definition active_rows :: "catalog \<Rightarrow> job_record list" where
  "active_rows c = sort_key jr_id (filter (\<lambda>r. jr_state r \<in> {RUNNING, CANCELLING}) (ct_jobs c))"

definition overdue :: "clockwork \<Rightarrow> string \<Rightarrow> job_record \<Rightarrow> py_error + bool" where
  "overdue W time r =
    sbind (time_reached W time (jr_attempt_deadline r)) (\<lambda>timeout.
    if timeout then Inr True else time_reached W time (js_deadline (jr_spec r)))"

definition overdue_attempts :: "clockwork \<Rightarrow> string \<Rightarrow> catalog \<Rightarrow> py_error + job_record list" where
  "overdue_attempts W time c =
    sbind (check_timestamp W time ''now'') (\<lambda>_.
    sbind (initialize c) (\<lambda>c.
    sbind (sseq (map (\<lambda>r. sbind (overdue W time r) (\<lambda>b. Inr (b, r))) (active_rows c))) (\<lambda>rows.
    Inr (map snd (filter fst rows)))))"

end
