(* ===== verification/Job_Operations.thy ===== *)
theory Job_Operations
  imports Job_Catalog
begin

text \<open>
  \<open>storage/jobs.py\<close>, continued: the ends of an attempt (cancel, fail, retry, quarantine, succeed), the
  recovery of attempts whose worker is lost or late, and the checkpoints.
\<close>

section \<open>Transitions of a worker or an operator\<close>

definition simple_transition ::
  "clockwork \<Rightarrow> string \<Rightarrow> job_state \<Rightarrow> string \<Rightarrow> string \<Rightarrow> string \<Rightarrow> string option \<Rightarrow> bool \<Rightarrow>
    string option \<Rightarrow> string option \<Rightarrow> string option \<Rightarrow> catalog \<Rightarrow> py_error + job_record \<times> catalog"
where
  "simple_transition W i target actor time reason token clear code message not_before c =
    sbind (check_timestamp W time ''now'') (\<lambda>_.
    sbind (require_string actor ''actor'') (\<lambda>_.
    sbind (require_string reason ''reason'') (\<lambda>_.
    sbind (initialize c) (\<lambda>c.
    sbind (job_row c i) (\<lambda>r.
    sbind (assert_transition (jr_state r) target) (\<lambda>_.
    sbind (if jr_token r \<noteq> None \<and> target \<noteq> CANCELLING
      then (case token of
          None \<Rightarrow> Inl (JobLease ''lease token is required for worker transition'')
        | Some t \<Rightarrow> assert_lease W r t time)
      else Inr ()) (\<lambda>_.
    let c' = move_job r (\<lambda>r. with_error not_before code message (if clear then release r else r)) target
          (jr_attempt r) actor time reason c
    in sbind (job_row c' i) (\<lambda>r'. Inr (r', c')))))))))"

definition request_cancel ::
  "clockwork \<Rightarrow> string \<Rightarrow> string \<Rightarrow> string \<Rightarrow> string \<Rightarrow> catalog \<Rightarrow> py_error + job_record \<times> catalog"
where
  "request_cancel W i actor time reason c =
    simple_transition W i CANCELLING actor time reason None False None None None c"

definition finish_cancelled ::
  "clockwork \<Rightarrow> string \<Rightarrow> string \<Rightarrow> string \<Rightarrow> string \<Rightarrow> string option \<Rightarrow> catalog \<Rightarrow> py_error + job_record \<times> catalog"
where
  "finish_cancelled W i actor time reason token c =
    simple_transition W i CANCELLED actor time reason token True None None None c"

definition fail_job ::
  "clockwork \<Rightarrow> string \<Rightarrow> string \<Rightarrow> string \<Rightarrow> string \<Rightarrow> string \<Rightarrow> string option \<Rightarrow> catalog \<Rightarrow> py_error + job_record \<times> catalog"
where
  "fail_job W i actor time code message token c =
    sbind (require_string code ''error_code'') (\<lambda>_.
    sbind (require_string message ''error_message'') (\<lambda>_.
    simple_transition W i FAILED actor time code token True (Some code) (Some message) None c))"

text \<open>
  \<open>schedule_retry\<close> reads the job and decides in one transaction and writes in a second one; \<open>plan_retry\<close>
  is the first part.
\<close>

definition plan_retry ::
  "clockwork \<Rightarrow> string \<Rightarrow> string \<Rightarrow> string \<Rightarrow> string option \<Rightarrow> catalog \<Rightarrow> py_error + string \<times> string"
where
  "plan_retry W i time reason code c =
    sbind (initialize c) (\<lambda>c.
    sbind (job_row c i) (\<lambda>r.
    if js_max (jr_spec r) \<le> jr_attempt r then Inl (JobStateTransition ''job has exhausted max_attempts'')
    else
    sbind (assert_transition (jr_state r) RETRYING) (\<lambda>_.
    let retry_code = (case code of None \<Rightarrow> reason | Some s \<Rightarrow> if s = [] then reason else s) in
    sbind (require_string retry_code ''error_code'') (\<lambda>_.
    if retry_code \<notin> set (rp_codes (js_retry (jr_spec r)))
    then Inl (JobStateTransition (''error code '' @ repr_str retry_code @ '' is not retryable by policy''))
    else
    sbind (check_timestamp W time ''now'') (\<lambda>_.
    sbind (backoff_after W (js_retry (jr_spec r)) (jr_attempt r)) (\<lambda>pause.
    sbind (plus_seconds W time pause) (\<lambda>not_before.
    sbind (time_reached W not_before (js_deadline (jr_spec r))) (\<lambda>late.
    if late then Inl (JobStateTransition ''retry backoff exceeds the job deadline'')
    else Inr (retry_code, not_before)))))))))"

definition schedule_retry ::
  "clockwork \<Rightarrow> string \<Rightarrow> string \<Rightarrow> string \<Rightarrow> string \<Rightarrow> string option \<Rightarrow> string option \<Rightarrow> catalog \<Rightarrow> py_error + job_record \<times> catalog"
where
  "schedule_retry W i actor time reason code token c =
    sbind (plan_retry W i time reason code c) (\<lambda>(retry_code, not_before).
    simple_transition W i RETRYING actor time reason token True (Some retry_code) (Some reason) (Some not_before) c)"

definition quarantine_job ::
  "clockwork \<Rightarrow> string \<Rightarrow> string \<Rightarrow> string \<Rightarrow> string \<Rightarrow> string option \<Rightarrow> catalog \<Rightarrow> py_error + job_record \<times> catalog"
where
  "quarantine_job W i actor time reason token c =
    simple_transition W i QUARANTINED actor time reason token True (Some ''quarantined'') (Some reason) None c"

section \<open>Success\<close>

definition artifact_set_id :: "job_artifact list \<Rightarrow> string" where
  "artifact_set_id artifacts =
    projr (stable_digest (PList (map (PDict \<circ> artifact_to_dict) artifacts)) ''jobartifacts_'')"

text \<open>The table demands unique identifiers, and unique paths within one job.\<close>

fun insert_artifacts :: "string \<Rightarrow> job_artifact list \<Rightarrow> (string \<times> job_artifact) list \<Rightarrow> py_error + (string \<times> job_artifact) list" where
  "insert_artifacts i [] rows = Inr rows"
| "insert_artifacts i (a # as) rows =
     (if unbindable (ja_rows a) then Inl bind_error
      else if list_ex (\<lambda>(j, b). artifact_id b = artifact_id a) rows
      then Inl (IntegrityError ''UNIQUE constraint failed: job_artifacts.artifact_id'')
      else if list_ex (\<lambda>(j, b). j = i \<and> ja_path b = ja_path a) rows
      then Inl (IntegrityError ''UNIQUE constraint failed: job_artifacts.job_id, job_artifacts.path'')
      else insert_artifacts i as (rows @ [(i, a)]))"

definition succeed_job ::
  "clockwork \<Rightarrow> string \<Rightarrow> string \<Rightarrow> string \<Rightarrow> string \<Rightarrow> job_artifact list \<Rightarrow> catalog \<Rightarrow> py_error + job_record \<times> catalog"
where
  "succeed_job W i actor time token artifacts c =
    sbind (check_timestamp W time ''now'') (\<lambda>_.
    sbind (require_string actor ''actor'') (\<lambda>_.
    let in_order = sort_key artifact_id artifacts in
    if in_order = [] then Inl (ValueError ''a succeeded job must commit at least one artifact'')
    else
    let set_id = artifact_set_id in_order in
    sbind (initialize c) (\<lambda>c.
    sbind (job_row c i) (\<lambda>r.
    if jr_state r = SUCCEEDED
    then (if jr_artifact_set r \<noteq> Some set_id
          then Inl (JobIdempotencyConflict ''succeeded job cannot commit a different artifact set'')
          else Inr (r, c))
    else
    sbind (assert_transition (jr_state r) SUCCEEDED) (\<lambda>_.
    sbind (assert_lease W r token time) (\<lambda>_.
    sbind (insert_artifacts i in_order (ct_artifacts c)) (\<lambda>rows.
    let c' = move_job r (\<lambda>r. (with_error None None None (release r))\<lparr>jr_artifact_set := Some set_id\<rparr>) SUCCEEDED
          (jr_attempt r) actor time ''artifact_commit'' (c\<lparr>ct_artifacts := rows\<rparr>)
    in sbind (job_row c' i) (\<lambda>r'. Inr (r', c')))))))))"

section \<open>Recovery by the scheduler\<close>

text \<open>The rows are read once; each overdue one is moved.\<close>

definition expire_job :: "string \<Rightarrow> string \<Rightarrow> job_record \<Rightarrow> catalog \<Rightarrow> catalog" where
  "expire_job time actor r c =
    move_job r (with_error None (Some ''deadline_exceeded'') (Some ''job deadline expired before execution'')) FAILED
      (jr_attempt r) actor time ''deadline_exceeded'' c"

fun expire_each ::
  "clockwork \<Rightarrow> string \<Rightarrow> string \<Rightarrow> job_record list \<Rightarrow> catalog \<Rightarrow> py_error + job_record list \<times> catalog"
where
  "expire_each W time actor [] c = Inr ([], c)"
| "expire_each W time actor (r # rs) c =
     sbind (time_reached W time (js_deadline (jr_spec r))) (\<lambda>late.
     if \<not> late then expire_each W time actor rs c
     else
     sbind (assert_transition (jr_state r) FAILED) (\<lambda>_.
     let c' = expire_job time actor r c in
     sbind (job_row c' (jr_id r)) (\<lambda>r'.
     sbind (expire_each W time actor rs c') (\<lambda>(expired, c''). Inr (r' # expired, c'')))))"

definition pending_deadlines :: "catalog \<Rightarrow> job_record list" where
  "pending_deadlines c =
    sort_key jr_id (filter (\<lambda>r. jr_state r \<in> {QUEUED, RETRYING} \<and> js_deadline (jr_spec r) \<noteq> None) (ct_jobs c))"

definition expire_pending_deadlines ::
  "clockwork \<Rightarrow> string \<Rightarrow> string \<Rightarrow> catalog \<Rightarrow> py_error + job_record list \<times> catalog"
where
  "expire_pending_deadlines W time actor c =
    sbind (check_timestamp W time ''now'') (\<lambda>_.
    sbind (require_string actor ''actor'') (\<lambda>_.
    sbind (initialize c) (\<lambda>c. expire_each W time actor (pending_deadlines c) c)))"

text \<open>What becomes of an attempt: target, time of the retry, error code and message, reason.\<close>

type_synonym verdict = "job_state \<times> string option \<times> string option \<times> string option \<times> string"

definition timeout_verdict :: "clockwork \<Rightarrow> string \<Rightarrow> job_record \<Rightarrow> bool \<Rightarrow> py_error + verdict" where
  "timeout_verdict W time r late =
    (if jr_state r = CANCELLING then Inr (CANCELLED, None, None, None, ''cancel_timeout'')
     else if late
     then Inr (FAILED, None, Some ''deadline_exceeded'', Some ''job deadline exceeded'', ''deadline_exceeded'')
     else if jr_attempt r < js_max (jr_spec r) \<and> ''hard_timeout'' \<in> set (rp_codes (js_retry (jr_spec r)))
     then
       sbind (backoff_after W (js_retry (jr_spec r)) (jr_attempt r)) (\<lambda>pause.
       sbind (plus_seconds W time pause) (\<lambda>retry.
       sbind (time_reached W retry (js_deadline (jr_spec r))) (\<lambda>too_late.
       if too_late
       then Inr (FAILED, None, Some ''deadline_exceeded'', Some ''hard-timeout retry exceeds the job deadline'', ''deadline_exceeded'')
       else Inr (RETRYING, Some retry, Some ''hard_timeout'', Some ''attempt exceeded its hard timeout'', ''hard_timeout''))))
     else if js_max (jr_spec r) \<le> jr_attempt r
     then Inr (FAILED, None, Some ''attempts_exhausted'', Some ''hard timeout exhausted the final attempt'', ''attempts_exhausted'')
     else Inr (FAILED, None, Some ''hard_timeout'', Some ''hard timeout is not retryable'', ''hard_timeout''))"

definition give_up :: "string \<Rightarrow> string \<Rightarrow> job_record \<Rightarrow> verdict \<Rightarrow> catalog \<Rightarrow> catalog" where
  "give_up time actor r v c =
    (case v of (target, not_before, code, message, reason) \<Rightarrow>
      move_job r (\<lambda>r. with_error not_before code message (release r)) target (jr_attempt r) actor time reason c)"

definition recover_timed_out_attempt ::
  "clockwork \<Rightarrow> string \<Rightarrow> string \<Rightarrow> string \<Rightarrow> string \<Rightarrow> catalog \<Rightarrow> py_error + job_record \<times> catalog"
where
  "recover_timed_out_attempt W i token time actor c =
    sbind (check_timestamp W time ''now'') (\<lambda>_.
    sbind (require_string actor ''actor'') (\<lambda>_.
    sbind (initialize c) (\<lambda>c.
    sbind (job_row c i) (\<lambda>r.
    if jr_token r \<noteq> Some token then Inl (JobLease ''job lease token does not match the timed-out attempt'')
    else if jr_state r \<notin> {RUNNING, CANCELLING} then Inl (JobStateTransition ''job has no active attempt to recover'')
    else
    sbind (time_reached W time (js_deadline (jr_spec r))) (\<lambda>late.
    sbind (time_reached W time (jr_attempt_deadline r)) (\<lambda>timeout.
    if \<not> late \<and> \<not> timeout then Inl (JobStateTransition ''job attempt has not timed out'')
    else
    sbind (timeout_verdict W time r late) (\<lambda>v.
    sbind (assert_transition (jr_state r) (fst v)) (\<lambda>_.
    let c' = give_up time actor r v c in
    sbind (job_row c' i) (\<lambda>r'. Inr (r', c'))))))))))"

definition orphan_verdict :: "clockwork \<Rightarrow> string \<Rightarrow> job_record \<Rightarrow> py_error + verdict" where
  "orphan_verdict W time r =
    (if jr_state r = CANCELLING then Inr (CANCELLED, None, None, None, ''cancel_after_lease_expired'')
     else
     sbind (time_reached W time (js_deadline (jr_spec r))) (\<lambda>late.
     if late
     then Inr (FAILED, None, Some ''deadline_exceeded'', Some ''job deadline expired while the worker was lost'', ''deadline_exceeded'')
     else if jr_attempt r < js_max (jr_spec r) \<and> ''lease_expired'' \<in> set (rp_codes (js_retry (jr_spec r)))
     then
       sbind (backoff_after W (js_retry (jr_spec r)) (jr_attempt r)) (\<lambda>pause.
       sbind (plus_seconds W time pause) (\<lambda>retry.
       sbind (time_reached W retry (js_deadline (jr_spec r))) (\<lambda>too_late.
       if too_late
       then Inr (FAILED, None, Some ''deadline_exceeded'', Some ''retry backoff exceeds the job deadline'', ''deadline_exceeded'')
       else Inr (RETRYING, Some retry, Some ''lease_expired'', Some ''worker lease expired; job is retryable'', ''lease_expired''))))
     else if js_max (jr_spec r) \<le> jr_attempt r
     then Inr (FAILED, None, Some ''attempts_exhausted'', Some ''worker lease expired after the final attempt'', ''attempts_exhausted'')
     else Inr (FAILED, None, Some ''lease_expired'', Some ''worker lease expiry is not retryable by policy'', ''lease_expired'')))"

fun reclaim_each ::
  "clockwork \<Rightarrow> string \<Rightarrow> string \<Rightarrow> job_record list \<Rightarrow> catalog \<Rightarrow> py_error + job_record list \<times> catalog"
where
  "reclaim_each W time actor [] c = Inr ([], c)"
| "reclaim_each W time actor (r # rs) c =
     sbind (time_reached W time (jr_expires r)) (\<lambda>expired.
     if \<not> expired then reclaim_each W time actor rs c
     else
     sbind (orphan_verdict W time r) (\<lambda>v.
     sbind (assert_transition (jr_state r) (fst v)) (\<lambda>_.
     let c' = give_up time actor r v c in
     sbind (job_row c' (jr_id r)) (\<lambda>r'.
     sbind (reclaim_each W time actor rs c') (\<lambda>(reclaimed, c''). Inr (r' # reclaimed, c''))))))"

definition leased_rows :: "catalog \<Rightarrow> job_record list" where
  "leased_rows c =
    sort_key jr_id (filter (\<lambda>r. jr_state r \<in> {RUNNING, CANCELLING} \<and> jr_expires r \<noteq> None) (ct_jobs c))"

definition reclaim_orphans ::
  "clockwork \<Rightarrow> string \<Rightarrow> string \<Rightarrow> catalog \<Rightarrow> py_error + job_record list \<times> catalog"
where
  "reclaim_orphans W time actor c =
    sbind (check_timestamp W time ''now'') (\<lambda>_.
    sbind (require_string actor ''actor'') (\<lambda>_.
    sbind (initialize c) (\<lambda>c. reclaim_each W time actor (leased_rows c) c)))"

section \<open>Checkpoints\<close>

definition checkpoints_of :: "string \<Rightarrow> catalog \<Rightarrow> job_checkpoint list" where
  "checkpoints_of i c = sort_key jc_sequence (filter (\<lambda>k. jc_job k = i) (ct_checkpoints c))"

definition latest_checkpoint :: "string \<Rightarrow> catalog \<Rightarrow> job_checkpoint option" where
  "latest_checkpoint i c = (case rev (checkpoints_of i c) of [] \<Rightarrow> None | k # _ \<Rightarrow> Some k)"

definition same_checkpoint_content ::
  "job_checkpoint \<Rightarrow> int \<Rightarrow> int option \<Rightarrow> pydict \<Rightarrow> string option \<Rightarrow> bool"
where
  "same_checkpoint_content k completed units payload result \<longleftrightarrow>
    jc_completed k = completed \<and> jc_total k = units \<and> py_eq (PDict (jc_payload k)) (PDict payload) \<and> jc_result k = result"

definition insert_checkpoint ::
  "clockwork \<Rightarrow> job_checkpoint \<Rightarrow> catalog \<Rightarrow> py_error + job_checkpoint \<times> catalog"
where
  "insert_checkpoint W k c =
    sbind (make_job_checkpoint W k) (\<lambda>k.
    sbind (checkpoint_id k) (\<lambda>i.
    if unbindable (Some (jc_completed k)) \<or> unbindable (jc_total k) then Inl bind_error
    else if list_ex (\<lambda>k'. checkpoint_id k' = Inr i) (ct_checkpoints c)
    then Inl (IntegrityError ''UNIQUE constraint failed: job_checkpoints.checkpoint_id'')
    else Inr (k, update_job (jc_job k)
        (\<lambda>r. r\<lparr>jr_checkpoint := Some i, jr_position := Some (jc_position k), jr_updated := jc_created k\<rparr>)
        (c\<lparr>ct_checkpoints := ct_checkpoints c @ [k]\<rparr>))))"

definition save_checkpoint ::
  "clockwork \<Rightarrow> string \<Rightarrow> string \<Rightarrow> string \<Rightarrow> string \<Rightarrow> int \<Rightarrow> int option \<Rightarrow> pydict \<Rightarrow> string option \<Rightarrow> catalog \<Rightarrow>
    py_error + job_checkpoint \<times> catalog"
where
  "save_checkpoint W i token time position completed units payload result c =
    sbind (check_timestamp W time ''now'') (\<lambda>_.
    sbind (require_string position ''recovery_position'') (\<lambda>_.
    let canonical = canonical_entries payload in
    sbind (canonical_json (PDict canonical)) (\<lambda>text_of_payload.
    if JOB_CHECKPOINT_MAX_BYTES < length text_of_payload
    then Inl (ValueError ''checkpoint payload exceeds the 1 MiB limit'')
    else
    sbind (initialize c) (\<lambda>c.
    sbind (job_row c i) (\<lambda>r.
    sbind (assert_lease W r token time) (\<lambda>_.
    if jr_state r \<notin> {RUNNING, CANCELLING}
    then Inl (JobStateTransition ''checkpoint requires a running or cancelling job'')
    else case find (\<lambda>k. jc_position k = position) (checkpoints_of i c) of
      Some k \<Rightarrow>
        if \<not> same_checkpoint_content k completed units canonical result
        then Inl (JobCheckpointConflict ''recovery position already has different checkpoint content'')
        else Inr (k, c)
    | None \<Rightarrow>
        let latest = latest_checkpoint i c in
        if (case latest of None \<Rightarrow> False | Some k \<Rightarrow> completed < jc_completed k)
        then Inl (JobCheckpointConflict ''checkpoint progress cannot move backwards'')
        else if (case latest of None \<Rightarrow> False | Some k \<Rightarrow> jc_total k \<noteq> None \<and> units \<noteq> jc_total k)
        then Inl (JobCheckpointConflict ''known checkpoint total_units cannot change'')
        else insert_checkpoint W
          \<lparr>jc_job = i, jc_attempt = jr_attempt r, jc_sequence = (case latest of None \<Rightarrow> 0 | Some k \<Rightarrow> jc_sequence k + 1),
           jc_input = js_input (jr_spec r), jc_position = position, jc_completed = completed, jc_total = units,
           jc_payload = canonical, jc_created = time, jc_result = result\<rparr> c))))))"

definition resume_checkpoint ::
  "string \<Rightarrow> pyval \<Rightarrow> catalog \<Rightarrow> py_error + job_checkpoint option"
where
  "resume_checkpoint i expected c =
    sbind (content_id expected ''expected_input_digest'' ''jobinput_'') (\<lambda>digest.
    sbind (initialize c) (\<lambda>c.
    sbind (job_row c i) (\<lambda>r.
    if js_input (jr_spec r) \<noteq> digest
    then Inl (JobCheckpointConflict ''resume input digest does not match the immutable JobSpec'')
    else case latest_checkpoint i c of
      None \<Rightarrow> Inr None
    | Some k \<Rightarrow>
        if jc_input k \<noteq> digest
        then Inl (JobCheckpointConflict ''checkpoint input digest does not match the requested resume input'')
        else Inr (Some k))))"

section \<open>Reading\<close>

definition get_job :: "string \<Rightarrow> catalog \<Rightarrow> py_error + job_record option" where
  "get_job i c = sbind (initialize c) (\<lambda>c. Inr (find_job i c))"

definition transitions_in_order :: "string \<Rightarrow> catalog \<Rightarrow> job_transition list" where
  "transitions_in_order i c = sort_key jt_sequence (transitions_of i c)"

definition artifacts_of :: "string \<Rightarrow> catalog \<Rightarrow> job_artifact list" where
  "artifacts_of i c = sort_key artifact_id (map snd (filter (\<lambda>(j, a). j = i) (ct_artifacts c)))"

definition artifact_references :: "catalog \<Rightarrow> (string \<times> job_artifact) list" where
  "artifact_references c = sort_key (\<lambda>(i, a). (i, artifact_id a)) (ct_artifacts c)"

definition status_snapshot ::
  "string \<Rightarrow> catalog \<Rightarrow> py_error + job_record \<times> job_checkpoint option \<times> job_transition list \<times> job_artifact list"
where
  "status_snapshot i c =
    sbind (initialize c) (\<lambda>c.
    sbind (job_row c i) (\<lambda>r. Inr (r, latest_checkpoint i c, transitions_in_order i c, artifacts_of i c)))"

section \<open>Reports\<close>

definition JOB_RECORD_SCHEMA_VERSION :: string where
  "JOB_RECORD_SCHEMA_VERSION = ''job-record-v2''"
definition JOB_TRANSITION_SCHEMA_VERSION :: string where
  "JOB_TRANSITION_SCHEMA_VERSION = ''job-transition-v1''"
definition JOB_CONTROL_SCHEMA_VERSION :: string where
  "JOB_CONTROL_SCHEMA_VERSION = ''job-control-v1''"

definition control_signal_to_dict :: "control_signal \<Rightarrow> pydict" where
  "control_signal_to_dict s =
    [(''attempt'', PInt (cs_attempt s)),
     (''attempt_timeout_exceeded'', PBool (cs_attempt_timeout s)),
     (''cancel_requested'', PBool (cs_cancel s)),
     (''checked_at'', PStr (cs_checked s)),
     (''job_deadline_exceeded'', PBool (cs_deadline s)),
     (''job_id'', PStr (cs_job s)),
     (''lease_expired'', PBool (cs_lease_expired s)),
     (''recovery_position'', opt_str (cs_position s)),
     (''schema_version'', PStr JOB_CONTROL_SCHEMA_VERSION),
     (''should_stop'', PBool (should_stop s)),
     (''state'', PStr (job_state_value (cs_state s)))]"

definition job_record_to_dict :: "job_record \<Rightarrow> pydict" where
  "job_record_to_dict r = canonical_entries
    [(''artifact_set_id'', opt_str (jr_artifact_set r)),
     (''attempt'', PInt (jr_attempt r)),
     (''created_at'', PStr (jr_created r)),
     (''error_code'', opt_str (jr_error r)),
     (''error_message'', opt_str (jr_message r)),
     (''heartbeat_at'', opt_str (jr_heartbeat r)),
     (''job_id'', PStr (jr_id r)),
     (''kind'', PStr (job_kind_value (js_kind (jr_spec r)))),
     (''lease_expires_at'', opt_str (jr_expires r)),
     (''lease_acquired_at'', opt_str (jr_acquired r)),
     (''lease_owner'', opt_str (jr_owner r)),
     (''lease_token'', opt_str (jr_token r)),
     (''latest_checkpoint_id'', opt_str (jr_checkpoint r)),
     (''max_attempts'', PInt (js_max (jr_spec r))),
     (''priority'', PInt (js_priority (jr_spec r))),
     (''recovery_position'', opt_str (jr_position r)),
     (''retry_not_before_at'', opt_str (jr_not_before r)),
     (''schema_version'', PStr JOB_RECORD_SCHEMA_VERSION),
     (''spec'', PDict (job_spec_to_dict (jr_spec r))),
     (''state'', PStr (job_state_value (jr_state r))),
     (''attempt_deadline_at'', opt_str (jr_attempt_deadline r)),
     (''deadline_at'', opt_str (js_deadline (jr_spec r))),
     (''updated_at'', PStr (jr_updated r))]"

definition job_transition_to_dict :: "job_transition \<Rightarrow> pydict" where
  "job_transition_to_dict t =
    [(''actor'', PStr (jt_actor t)),
     (''attempt'', PInt (jt_attempt t)),
     (''from_state'', opt_str (map_option job_state_value (jt_from t))),
     (''job_id'', PStr (jt_job t)),
     (''occurred_at'', PStr (jt_at t)),
     (''reason'', PStr (jt_reason t)),
     (''schema_version'', PStr JOB_TRANSITION_SCHEMA_VERSION),
     (''sequence'', PInt (jt_sequence t)),
     (''to_state'', PStr (job_state_value (jt_to t)))]"

definition job_checkpoint_to_dict :: "job_checkpoint \<Rightarrow> py_error + pydict" where
  "job_checkpoint_to_dict k =
    sbind (checkpoint_id k) (\<lambda>i. Inr (dict_set ''checkpoint_id'' (PStr i) (checkpoint_entries k)))"

definition status_snapshot_to_dict ::
  "job_record \<times> job_checkpoint option \<times> job_transition list \<times> job_artifact list \<Rightarrow> py_error + pydict"
where
  "status_snapshot_to_dict s = (case s of (r, k, ts, as) \<Rightarrow>
    sbind (case k of None \<Rightarrow> Inr PNone | Some k \<Rightarrow> sbind (job_checkpoint_to_dict k) (\<lambda>d. Inr (PDict d))) (\<lambda>latest.
    Inr [(''artifacts'', PList (map (PDict \<circ> artifact_to_dict) as)),
      (''job'', PDict (job_record_to_dict r)),
      (''latest_checkpoint'', latest),
      (''transitions'', PList (map (PDict \<circ> job_transition_to_dict) ts))]))"

end
