(* ===== verification/Job_Steps.thy ===== *)
theory Job_Steps
  imports Job_Operations
begin

text \<open>
  The job catalog as a transition system: \<open>catalog_change\<close> says what one statement group of the catalog
  may do to it, and every operation is a sequence of such changes. The laws of the catalog are laws of
  the changes.
\<close>

section \<open>Changes\<close>

definition final_state :: "job_state \<Rightarrow> bool" where
  "final_state s \<longleftrightarrow> s \<in> {CANCELLED, SUCCEEDED, QUARANTINED}"

text \<open>
  A created job is new under its key and its identifier and depends on jobs that exist. A claim starts the
  next attempt. A heartbeat and a checkpoint touch a leased row. A cancellation keeps the lease. An end of
  an attempt releases it, and only a retry names a time to wait for. A success commits artifacts.
\<close>

inductive catalog_change :: "catalog \<Rightarrow> catalog \<Rightarrow> bool" where
  Opened: "ct_schema c = None \<Longrightarrow> catalog_change c (c\<lparr>ct_schema := Some (Some JOB_CATALOG_SCHEMA_VERSION)\<rparr>)"
| Created: "find (\<lambda>r. js_key (jr_spec r) = js_key s) (ct_jobs c) = None \<Longrightarrow> find_job (job_id_of s) c = None \<Longrightarrow>
    list_all (\<lambda>i. find_job i c \<noteq> None) (js_deps s) \<Longrightarrow> catalog_change c (insert_job s time actor c)"
| Claimed: "find_job (jr_id r) c = Some r \<Longrightarrow> jr_state r \<in> {QUEUED, RETRYING} \<Longrightarrow> jr_attempt r < js_max (jr_spec r) \<Longrightarrow>
    \<not> waits c r \<Longrightarrow> n = jr_attempt r + 1 \<Longrightarrow>
    catalog_change c (move_job r (leased owner n time expires limit) RUNNING n actor time reason c)"
| Kept: "find_job (jr_id r) c = Some r \<Longrightarrow> jr_state r \<in> {RUNNING, CANCELLING} \<Longrightarrow> jr_expires r \<noteq> None \<Longrightarrow>
    catalog_change c (update_job (jr_id r) (\<lambda>r. r\<lparr>jr_heartbeat := Some time, jr_expires := Some expires, jr_updated := time\<rparr>) c)"
| Cancelling: "find_job (jr_id r) c = Some r \<Longrightarrow> is_job_transition_allowed (jr_state r) CANCELLING \<Longrightarrow>
    catalog_change c (move_job r (with_error None None None) CANCELLING (jr_attempt r) actor time reason c)"
| Ended: "find_job (jr_id r) c = Some r \<Longrightarrow> is_job_transition_allowed (jr_state r) target \<Longrightarrow>
    target \<in> {CANCELLED, FAILED, RETRYING, QUARANTINED} \<Longrightarrow> (if target = RETRYING then True else not_before = None) \<Longrightarrow>
    catalog_change c (move_job r (\<lambda>r. with_error not_before code message (release r)) target (jr_attempt r) actor time reason c)"
| Expired: "find_job (jr_id r) c = Some r \<Longrightarrow> jr_state r \<in> {QUEUED, RETRYING} \<Longrightarrow>
    catalog_change c (move_job r (with_error None code message) FAILED (jr_attempt r) actor time reason c)"
| Succeeded: "find_job (jr_id r) c = Some r \<Longrightarrow> jr_state r = RUNNING \<Longrightarrow> artifacts \<noteq> [] \<Longrightarrow>
    sorted (map artifact_id artifacts) \<Longrightarrow> insert_artifacts (jr_id r) artifacts (ct_artifacts c) = Inr rows \<Longrightarrow>
    catalog_change c (move_job r (\<lambda>r. (with_error None None None (release r))\<lparr>jr_artifact_set := Some (artifact_set_id artifacts)\<rparr>)
      SUCCEEDED (jr_attempt r) actor time reason (c\<lparr>ct_artifacts := rows\<rparr>))"
| Checkpointed: "find_job (jc_job k) c = Some r \<Longrightarrow> jr_state r \<in> {RUNNING, CANCELLING} \<Longrightarrow> jr_expires r \<noteq> None \<Longrightarrow>
    jc_attempt k = jr_attempt r \<Longrightarrow> jc_input k = js_input (jr_spec r) \<Longrightarrow>
    find (\<lambda>k'. jc_position k' = jc_position k) (checkpoints_of (jc_job k) c) = None \<Longrightarrow>
    (case latest_checkpoint (jc_job k) c of
       None \<Rightarrow> jc_sequence k = 0
     | Some l \<Rightarrow> jc_sequence k = jc_sequence l + 1 \<and> jc_completed l \<le> jc_completed k \<and>
         (case jc_total l of None \<Rightarrow> True | Some t \<Rightarrow> jc_total k = Some t)) \<Longrightarrow>
    0 \<le> jc_completed k \<Longrightarrow> (case jc_total k of None \<Rightarrow> True | Some t \<Rightarrow> jc_completed k \<le> t) \<Longrightarrow>
    catalog_change c (update_job (jc_job k)
      (\<lambda>r. r\<lparr>jr_checkpoint := Some i, jr_position := Some (jc_position k), jr_updated := jc_created k\<rparr>)
      (c\<lparr>ct_checkpoints := ct_checkpoints c @ [k]\<rparr>))"

inductive_cases catalog_changeE: "catalog_change c c'"

abbreviation catalog_changes :: "catalog \<Rightarrow> catalog \<Rightarrow> bool" where
  "catalog_changes \<equiv> catalog_change\<^sup>*\<^sup>*"

section \<open>Rows\<close>

lemma find_job_id: "find_job i c = Some r \<Longrightarrow> jr_id r = i"
  by (auto simp: find_job_def find_Some_iff)

lemma find_job_member: "find_job i c = Some r \<Longrightarrow> r \<in> set (ct_jobs c)"
  by (auto simp: find_job_def find_Some_iff)

lemma find_map_at:
  assumes "\<And>r. jr_id (f r) = jr_id r"
  shows "find (\<lambda>r. jr_id r = j) (map (\<lambda>r. if jr_id r = i then f r else r) rs) =
    (if j = i then map_option f (find (\<lambda>r. jr_id r = j) rs) else find (\<lambda>r. jr_id r = j) rs)"
  by (induction rs) (auto simp: assms)

lemma find_job_update:
  "(\<And>r. jr_id (f r) = jr_id r) \<Longrightarrow>
    find_job j (update_job i f c) = (if j = i then map_option f (find_job j c) else find_job j c)"
  unfolding find_job_def update_job_def by (simp add: find_map_at)

lemma find_job_schema [simp]:
  "find_job i (c\<lparr>ct_schema := v\<rparr>) = find_job i c"
  "find_job i (c\<lparr>ct_artifacts := rows\<rparr>) = find_job i c"
  "find_job i (c\<lparr>ct_checkpoints := ks\<rparr>) = find_job i c"
  "find_job i (c\<lparr>ct_transitions := ts\<rparr>) = find_job i c"
  by (simp_all add: find_job_def)

lemma find_job_transition [simp]: "find_job j (insert_transition i p t n actor time reason c) = find_job j c"
  by (simp add: insert_transition_def)

lemma find_job_move:
  "(\<And>r. jr_id (f r) = jr_id r) \<Longrightarrow>
    find_job j (move_job r f target n actor time reason c) =
      (if j = jr_id r then map_option (\<lambda>r. (f r)\<lparr>jr_state := target, jr_updated := time\<rparr>) (find_job j c) else find_job j c)"
  by (simp add: move_job_def find_job_update)

lemma job_row_Inr [monad_simps]: "job_row c i = Inr r \<longleftrightarrow> find_job i c = Some r"
  by (simp add: job_row_def split: option.split)

lemma changed_fields [simp]:
  "jr_id (release r) = jr_id r" "jr_id (with_error n e m r) = jr_id r" "jr_id (leased owner k time expires limit r) = jr_id r"
  by (simp_all add: release_def with_error_def leased_def)

section \<open>Operations are sequences of changes\<close>

lemma opened: "initialize c = Inr c' \<Longrightarrow> catalog_changes c c'"
  using catalog_change.Opened [of c]
  by (auto simp: initialize_def split: option.splits if_splits intro: r_into_rtranclp)

lemma after_opened:
  "catalog_changes c d \<Longrightarrow> catalog_change d e \<Longrightarrow> catalog_changes c e"
  by (rule rtranclp.rtrancl_into_rtrancl)

lemma check_dependencies_Inr: "check_dependencies c is = Inr u \<longleftrightarrow> list_all (\<lambda>i. find_job i c \<noteq> None) is"
  by (induction "is") auto

lemma create_job_changes:
  assumes "create_job W s time actor c = Inr (r, c')"
  shows "catalog_changes c c'"
proof -
  obtain d where d: "initialize c = Inr d"
    using assms unfolding create_job_def sbind_eq_Inr by blast
  show ?thesis
  proof (cases "find (\<lambda>r. js_key (jr_spec r) = js_key s) (ct_jobs d)")
    case None
    then have "check_dependencies d (js_deps s) = Inr ()" "find_job (job_id_of s) d = None" "c' = insert_job s time actor d"
      using assms by (auto simp: create_job_def sbind_eq_Inr d split: if_splits)
    then have "catalog_change d c'"
      using None catalog_change.Created [of s d time actor] by (simp add: check_dependencies_Inr)
    with opened [OF d] show ?thesis by (rule after_opened)
  next
    case (Some r)
    then have "c' = d" using assms by (auto simp: create_job_def sbind_eq_Inr d split: if_splits)
    then show ?thesis using opened [OF d] by simp
  qed
qed

lemma next_runnable_Some:
  assumes "next_runnable W kinds time c = Some r"
  shows "r \<in> set (ct_jobs c)" and "runnable W kinds time c r"
    and "s \<in> set (ct_jobs c) \<Longrightarrow> runnable W kinds time c s \<Longrightarrow> claim_order W r \<le> claim_order W s"
proof -
  obtain rs where rs: "sort_key (claim_order W) (filter (runnable W kinds time c) (ct_jobs c)) = r # rs"
    using assms by (auto simp: next_runnable_def split: list.splits)
  then have set: "set (r # rs) = {r \<in> set (ct_jobs c). runnable W kinds time c r}"
    by (metis set_filter set_sort)
  then show "r \<in> set (ct_jobs c)" and "runnable W kinds time c r" by auto
  have "sorted (map (claim_order W) (r # rs))" by (metis rs sorted_sort_key)
  then show "claim_order W r \<le> claim_order W s" if "s \<in> set (ct_jobs c)" "runnable W kinds time c s"
    using set that by auto
qed

lemma next_runnable_None: "next_runnable W kinds time c = None \<longleftrightarrow> \<not> list_ex (runnable W kinds time c) (ct_jobs c)"
proof -
  let ?rs = "filter (runnable W kinds time c) (ct_jobs c)"
  have "next_runnable W kinds time c = None \<longleftrightarrow> sort_key (claim_order W) ?rs = []"
    unfolding next_runnable_def by (cases "sort_key (claim_order W) ?rs") simp_all
  also have "\<dots> \<longleftrightarrow> ?rs = []" by (metis length_0_conv length_sort)
  finally show ?thesis by (simp add: filter_empty_conv list_ex_iff)
qed

text \<open>Identifiers are primary keys.\<close>

definition distinct_ids :: "catalog \<Rightarrow> bool" where
  "distinct_ids c \<longleftrightarrow> distinct (map jr_id (ct_jobs c))"

lemma find_job_of_member: "distinct_ids c \<Longrightarrow> r \<in> set (ct_jobs c) \<Longrightarrow> find_job (jr_id r) c = Some r"
  proof -
  have "distinct (map jr_id rs) \<Longrightarrow> r \<in> set rs \<Longrightarrow> find (\<lambda>s. jr_id s = jr_id r) rs = Some r" for rs
    by (induction rs) (auto simp: rev_image_eqI)
  then show "distinct_ids c \<Longrightarrow> r \<in> set (ct_jobs c) \<Longrightarrow> find_job (jr_id r) c = Some r"
    by (simp add: distinct_ids_def find_job_def)
qed

lemma distinct_ids_schema [simp]: "distinct_ids (c\<lparr>ct_schema := v\<rparr>) = distinct_ids c"
  by (simp add: distinct_ids_def)

lemma initialize_jobs: "initialize c = Inr d \<Longrightarrow> ct_jobs d = ct_jobs c \<and> ct_deps d = ct_deps c \<and> ct_transitions d = ct_transitions c \<and>
    ct_artifacts d = ct_artifacts c \<and> ct_checkpoints d = ct_checkpoints c"
  by (auto simp: initialize_def split: option.splits if_splits)

lemma initialize_find: "initialize c = Inr d \<Longrightarrow> find_job i d = find_job i c"
  using initialize_jobs by (auto simp: find_job_def)

lemma claim_next_changes:
  assumes "distinct_ids c" and "claim_next W worker time seconds kinds c = Inr (x, c')"
  shows "catalog_changes c c'"
proof -
  obtain d accepted where d: "initialize c = Inr d" and rest: "(case next_runnable W accepted time d of
      None \<Rightarrow> Inr (None, d) | Some r \<Rightarrow> claim_job W worker time seconds r d) = Inr (x, c')"
    using assms(2) by (auto simp: claim_next_def sbind_eq_Inr split: if_splits)
  show ?thesis
  proof (cases "next_runnable W accepted time d")
    case None
    then show ?thesis using rest opened [OF d] by simp
  next
    case (Some r)
    obtain expires limit where c': "c' = move_job r (leased worker (jr_attempt r + 1) time expires limit) RUNNING (jr_attempt r + 1) worker time ''lease_acquired'' d"
      using rest by (auto simp: Some claim_job_def Let_def sbind_eq_Inr)
    have "distinct_ids d" using assms(1) initialize_jobs [OF d] by (simp add: distinct_ids_def)
    then have "find_job (jr_id r) d = Some r" using next_runnable_Some(1) [OF Some] by (rule find_job_of_member)
    then have "catalog_change d c'"
      using next_runnable_Some(2) [OF Some] unfolding c' by (intro catalog_change.Claimed) (auto simp: runnable_def)
    with opened [OF d] show ?thesis by (rule after_opened)
  qed
qed

lemma assert_lease_Inr:
  "assert_lease W r token time = Inr u \<Longrightarrow> jr_token r = Some token \<and> jr_expires r \<noteq> None \<and> time_reached W time (jr_expires r) = Inr False"
  by (auto simp: assert_lease_def sbind_eq_Inr split: if_splits)

lemma heartbeat_changes:
  assumes "heartbeat W i token time seconds c = Inr (x, c')"
  shows "catalog_changes c c'"
proof -
  obtain d r expires where d: "initialize c = Inr d" and r: "find_job i d = Some r" and lease: "assert_lease W r token time = Inr ()"
    and st: "jr_state r \<in> {RUNNING, CANCELLING}"
    and c': "c' = update_job i (\<lambda>r. r\<lparr>jr_heartbeat := Some time, jr_expires := Some expires, jr_updated := time\<rparr>) d"
    using assms unfolding heartbeat_def sbind_eq_Inr job_row_Inr
    by (auto simp: sbind_eq_Inr job_row_Inr Let_def split: if_splits)
  have "jr_id r = i" using r by (rule find_job_id)
  then have "catalog_change d c'"
    using r st assert_lease_Inr [OF lease] catalog_change.Kept [of r d time expires] by (simp add: c')
  with opened [OF d] show ?thesis by (rule after_opened)
qed

text \<open>Every target of a simple transition but \<open>CANCELLING\<close> ends the attempt.\<close>

lemma simple_transition_Inr:
  assumes "simple_transition W i target actor time reason token clear code message not_before c = Inr (x, c')"
  obtains d r where "initialize c = Inr d" "find_job i d = Some r" "is_job_transition_allowed (jr_state r) target"
    "jr_token r \<noteq> None \<Longrightarrow> target \<noteq> CANCELLING \<Longrightarrow> \<exists>t. token = Some t \<and> assert_lease W r t time = Inr ()"
    "c' = move_job r (\<lambda>r. with_error not_before code message (if clear then release r else r)) target
       (jr_attempt r) actor time reason d"
    "find_job i c' = Some x"
proof -
  obtain d r where d: "initialize c = Inr d" "find_job i d = Some r" "assert_transition (jr_state r) target = Inr ()"
    and lease: "(if jr_token r \<noteq> None \<and> target \<noteq> CANCELLING
      then (case token of
          None \<Rightarrow> Inl (JobLease ''lease token is required for worker transition'')
        | Some t \<Rightarrow> assert_lease W r t time)
      else Inr ()) = Inr ()"
    and c': "c' = move_job r (\<lambda>r. with_error not_before code message (if clear then release r else r)) target
       (jr_attempt r) actor time reason d" "find_job i c' = Some x"
    using assms unfolding simple_transition_def sbind_eq_Inr job_row_Inr Let_def by auto
  show thesis
    by (rule that [OF d(1,2) _ _ c'])
      (use d(3) lease in \<open>auto simp: assert_transition_def split: if_splits option.splits\<close>)
qed

lemma ending_changes:
  assumes "simple_transition W i target actor time reason token True code message not_before c = Inr (x, c')"
    and "target \<in> {CANCELLED, FAILED, RETRYING, QUARANTINED}" and "if target = RETRYING then True else not_before = None"
  shows "catalog_changes c c'"
proof -
  obtain d r where d: "initialize c = Inr d" and r: "find_job i d = Some r" "is_job_transition_allowed (jr_state r) target"
    and c': "c' = move_job r (\<lambda>r. with_error not_before code message (if True then release r else r)) target
       (jr_attempt r) actor time reason d"
    using assms(1) by (rule simple_transition_Inr)
  have "jr_id r = i" using r(1) by (rule find_job_id)
  then have "catalog_change d c'"
    unfolding c' if_True using r assms(2,3) by (intro catalog_change.Ended) simp_all
  with opened [OF d] show ?thesis by (rule after_opened)
qed

lemma request_cancel_changes:
  assumes "request_cancel W i actor time reason c = Inr (x, c')"
  shows "catalog_changes c c'"
proof -
  obtain d r where d: "initialize c = Inr d" and r: "find_job i d = Some r" "is_job_transition_allowed (jr_state r) CANCELLING"
    and c': "c' = move_job r (\<lambda>r. with_error None None None (if False then release r else r)) CANCELLING
       (jr_attempt r) actor time reason d"
    using assms unfolding request_cancel_def by (rule simple_transition_Inr)
  have "jr_id r = i" using r(1) by (rule find_job_id)
  then have "catalog_change d c'"
    unfolding c' if_False using r catalog_change.Cancelling [of r d actor time reason] by simp
  with opened [OF d] show ?thesis by (rule after_opened)
qed

lemma schedule_retry_Inr:
  assumes "schedule_retry W i actor time reason code token c = Inr (x, c')"
  obtains e n where "simple_transition W i RETRYING actor time reason token True (Some e) (Some reason) (Some n) c = Inr (x, c')"
  using assms unfolding schedule_retry_def sbind_eq_Inr by auto

lemma ending_operations:
  "finish_cancelled W i actor time reason token c = Inr (x, c') \<Longrightarrow> catalog_changes c c'"
  "fail_job W i actor time e message token c = Inr (x, c') \<Longrightarrow> catalog_changes c c'"
  "schedule_retry W i actor time reason code token c = Inr (x, c') \<Longrightarrow> catalog_changes c c'"
  "quarantine_job W i actor time reason token c = Inr (x, c') \<Longrightarrow> catalog_changes c c'"
  by (auto simp: finish_cancelled_def fail_job_def quarantine_job_def sbind_eq_Inr
      elim!: schedule_retry_Inr intro: ending_changes)

lemma succeed_job_Inr:
  assumes "succeed_job W i actor time token artifacts c = Inr (x, c')"
  obtains d r where "initialize c = Inr d" "find_job i d = Some r" "artifacts \<noteq> []" "jr_state r = SUCCEEDED"
      "jr_artifact_set r = Some (artifact_set_id (sort_key artifact_id artifacts))" "x = r" "c' = d"
  | d r rows where "initialize c = Inr d" "find_job i d = Some r" "artifacts \<noteq> []" "jr_state r = RUNNING"
      "assert_lease W r token time = Inr ()"
      "insert_artifacts i (sort_key artifact_id artifacts) (ct_artifacts d) = Inr rows"
      "c' = move_job r (\<lambda>r. (with_error None None None (release r))\<lparr>jr_artifact_set :=
           Some (artifact_set_id (sort_key artifact_id artifacts))\<rparr>) SUCCEEDED (jr_attempt r) actor time ''artifact_commit''
         (d\<lparr>ct_artifacts := rows\<rparr>)"
      "find_job i c' = Some x"
proof -
  have ne: "sort_key artifact_id artifacts \<noteq> [] \<and> artifacts \<noteq> []"
    using assms by (cases "artifacts = []") (auto simp: succeed_job_def Let_def sbind_eq_Inr split: if_splits)
  obtain d r where d: "initialize c = Inr d" and r: "find_job i d = Some r"
    and rest: "(if jr_state r = SUCCEEDED
      then (if jr_artifact_set r \<noteq> Some (artifact_set_id (sort_key artifact_id artifacts))
            then Inl (JobIdempotencyConflict ''succeeded job cannot commit a different artifact set'') else Inr (r, d))
      else sbind (assert_transition (jr_state r) SUCCEEDED) (\<lambda>_.
        sbind (assert_lease W r token time) (\<lambda>_.
        sbind (insert_artifacts i (sort_key artifact_id artifacts) (ct_artifacts d)) (\<lambda>rows.
        let c' = move_job r (\<lambda>r. (with_error None None None (release r))\<lparr>jr_artifact_set :=
           Some (artifact_set_id (sort_key artifact_id artifacts))\<rparr>) SUCCEEDED (jr_attempt r) actor time ''artifact_commit''
         (d\<lparr>ct_artifacts := rows\<rparr>)
        in sbind (job_row c' i) (\<lambda>r'. Inr (r', c')))))) = Inr (x, c')"
    using assms ne by (auto simp: succeed_job_def Let_def sbind_eq_Inr job_row_Inr)
  show thesis
  proof (cases "jr_state r = SUCCEEDED")
    case True
    then show ?thesis using that(1) [OF d r] rest ne by (auto split: if_splits)
  next
    case False
    then obtain rows where a: "assert_transition (jr_state r) SUCCEEDED = Inr ()" "assert_lease W r token time = Inr ()"
      "insert_artifacts i (sort_key artifact_id artifacts) (ct_artifacts d) = Inr rows"
      "c' = move_job r (\<lambda>r. (with_error None None None (release r))\<lparr>jr_artifact_set :=
           Some (artifact_set_id (sort_key artifact_id artifacts))\<rparr>) SUCCEEDED (jr_attempt r) actor time ''artifact_commit''
         (d\<lparr>ct_artifacts := rows\<rparr>)" "find_job i c' = Some x"
      using rest by (auto simp: sbind_eq_Inr job_row_Inr Let_def)
    have "jr_state r = RUNNING"
      using a(1) by (cases "jr_state r") (simp_all add: assert_transition_def is_job_transition_allowed_def)
    then show ?thesis using that(2) [OF d r] ne a by blast
  qed
qed

lemma succeed_job_changes:
  assumes "succeed_job W i actor time token artifacts c = Inr (x, c')"
  shows "catalog_changes c c'"
  using assms
proof (cases rule: succeed_job_Inr)
  case (1 d r)
  then show ?thesis using opened by simp
next
  case (2 d r rows)
  have i: "jr_id r = i" using 2(2) by (rule find_job_id)
  have "sort_key artifact_id artifacts \<noteq> []" using 2(3) by (metis length_0_conv length_sort)
  then have "catalog_change d c'"
    unfolding 2(7) using 2 i by (intro catalog_change.Succeeded) (simp_all add: sorted_sort_key)
  with opened [OF 2(1)] show ?thesis by (rule after_opened)
qed

section \<open>The scheduler\<close>

definition ends_attempt :: "verdict \<Rightarrow> bool" where
  "ends_attempt v \<longleftrightarrow> (case v of (target, not_before, _) \<Rightarrow>
    target \<in> {CANCELLED, FAILED, RETRYING} \<and> (if target = RETRYING then not_before \<noteq> None else not_before = None))"

lemma orphan_verdict_ends: "orphan_verdict W time r = Inr v \<Longrightarrow> ends_attempt v"
  by (auto simp: orphan_verdict_def ends_attempt_def sbind_eq_Inr split: if_splits)

lemma timeout_verdict_ends: "timeout_verdict W time r late = Inr v \<Longrightarrow> ends_attempt v"
  by (auto simp: timeout_verdict_def ends_attempt_def sbind_eq_Inr split: if_splits)

lemma assert_transition_Inr: "assert_transition s t = Inr u \<longleftrightarrow> is_job_transition_allowed s t"
  by (simp add: assert_transition_def)

lemma give_up_change:
  assumes "find_job (jr_id r) c = Some r" and "is_job_transition_allowed (jr_state r) (fst v)" and "ends_attempt v"
  shows "catalog_change c (give_up time actor r v c)"
proof -
  obtain target not_before code message reason where v: "v = (target, not_before, code, message, reason)"
    by (cases v)
  have "catalog_change c (move_job r (\<lambda>r. with_error not_before code message (release r)) target (jr_attempt r) actor time reason c)"
    using assms by (intro catalog_change.Ended) (auto simp: v ends_attempt_def)
  then show ?thesis by (simp add: give_up_def v)
qed

lemma find_job_give_up: "j \<noteq> jr_id r \<Longrightarrow> find_job j (give_up time actor r v c) = find_job j c"
  by (cases v) (simp add: give_up_def find_job_move)

lemma find_job_expire: "j \<noteq> jr_id r \<Longrightarrow> find_job j (expire_job time actor r c) = find_job j c"
  by (simp add: expire_job_def find_job_move)

lemma reclaim_each_changes:
  "reclaim_each W time actor rs c = Inr (x, c') \<Longrightarrow> distinct (map jr_id rs) \<Longrightarrow>
    list_all (\<lambda>r. find_job (jr_id r) c = Some r) rs \<Longrightarrow> catalog_changes c c'"
proof (induction rs arbitrary: c x)
  case (Cons r rs)
  obtain expired where e: "time_reached W time (jr_expires r) = Inr expired"
    using Cons.prems(1) by (auto simp: sbind_eq_Inr)
  show ?case
  proof (cases expired)
    case False
    then show ?thesis using Cons e by simp
  next
    case True
    with Cons.prems(1) e obtain v y where v: "orphan_verdict W time r = Inr v" "is_job_transition_allowed (jr_state r) (fst v)"
      and rest: "reclaim_each W time actor rs (give_up time actor r v c) = Inr (y, c')"
      by (auto simp: sbind_eq_Inr assert_transition_Inr Let_def)
    have "find_job (jr_id r) c = Some r" using Cons.prems(3) by simp
    then have "catalog_change c (give_up time actor r v c)"
      using v orphan_verdict_ends by (intro give_up_change) auto
    moreover have "catalog_changes (give_up time actor r v c) c'"
    proof (rule Cons.IH [OF rest])
      show "distinct (map jr_id rs)" using Cons.prems(2) by simp
      show "list_all (\<lambda>s. find_job (jr_id s) (give_up time actor r v c) = Some s) rs"
        unfolding list_all_iff
      proof
        fix s assume s: "s \<in> set rs"
        then have "jr_id s \<noteq> jr_id r" using Cons.prems(2) by (auto simp: rev_image_eqI)
        with s Cons.prems(3) show "find_job (jr_id s) (give_up time actor r v c) = Some s"
          by (simp add: list_all_iff find_job_give_up)
      qed
    qed
    ultimately show ?thesis by (rule converse_rtranclp_into_rtranclp)
  qed
qed simp

lemma expire_each_changes:
  "expire_each W time actor rs c = Inr (x, c') \<Longrightarrow> distinct (map jr_id rs) \<Longrightarrow>
    list_all (\<lambda>r. find_job (jr_id r) c = Some r \<and> jr_state r \<in> {QUEUED, RETRYING}) rs \<Longrightarrow> catalog_changes c c'"
proof (induction rs arbitrary: c x)
  case (Cons r rs)
  obtain late where e: "time_reached W time (js_deadline (jr_spec r)) = Inr late"
    using Cons.prems(1) by (auto simp: sbind_eq_Inr)
  show ?case
  proof (cases late)
    case False
    then show ?thesis using Cons e by simp
  next
    case True
    with Cons.prems(1) e obtain y where
      rest: "expire_each W time actor rs (expire_job time actor r c) = Inr (y, c')"
      by (auto simp: sbind_eq_Inr Let_def)
    have "catalog_change c (expire_job time actor r c)"
      unfolding expire_job_def using Cons.prems(3) by (intro catalog_change.Expired) simp_all
    moreover have "catalog_changes (expire_job time actor r c) c'"
    proof (rule Cons.IH [OF rest])
      show "distinct (map jr_id rs)" using Cons.prems(2) by simp
      show "list_all (\<lambda>s. find_job (jr_id s) (expire_job time actor r c) = Some s \<and> jr_state s \<in> {QUEUED, RETRYING}) rs"
        unfolding list_all_iff
      proof
        fix s assume s: "s \<in> set rs"
        then have "jr_id s \<noteq> jr_id r" using Cons.prems(2) by (auto simp: rev_image_eqI)
        with s Cons.prems(3) show "find_job (jr_id s) (expire_job time actor r c) = Some s \<and> jr_state s \<in> {QUEUED, RETRYING}"
          by (simp add: list_all_iff find_job_expire)
      qed
    qed
    ultimately show ?thesis by (rule converse_rtranclp_into_rtranclp)
  qed
qed simp

lemma distinct_sorted_ids: "distinct_ids c \<Longrightarrow> distinct (map jr_id (sort_key jr_id (filter P (ct_jobs c))))"
  by (simp add: distinct_ids_def distinct_map inj_on_def)

lemma distinct_ids_initialize: "initialize c = Inr d \<Longrightarrow> distinct_ids c \<Longrightarrow> distinct_ids d"
  using initialize_jobs by (simp add: distinct_ids_def)

lemma scheduler_changes:
  assumes "distinct_ids c"
  shows "expire_pending_deadlines W time actor c = Inr (x, c') \<Longrightarrow> catalog_changes c c'"
    and "reclaim_orphans W time actor c = Inr (x, c') \<Longrightarrow> catalog_changes c c'"
proof -
  assume "expire_pending_deadlines W time actor c = Inr (x, c')"
  then obtain d where d: "initialize c = Inr d" and e: "expire_each W time actor (pending_deadlines d) d = Inr (x, c')"
    by (auto simp: expire_pending_deadlines_def sbind_eq_Inr)
  note ids = distinct_ids_initialize [OF d assms]
  have "catalog_changes d c'"
    using e by (rule expire_each_changes)
      (auto simp: pending_deadlines_def list_all_iff distinct_sorted_ids [OF ids] find_job_of_member [OF ids])
  with opened [OF d] show "catalog_changes c c'" by (rule rtranclp_trans)
next
  assume "reclaim_orphans W time actor c = Inr (x, c')"
  then obtain d where d: "initialize c = Inr d" and e: "reclaim_each W time actor (leased_rows d) d = Inr (x, c')"
    by (auto simp: reclaim_orphans_def sbind_eq_Inr)
  note ids = distinct_ids_initialize [OF d assms]
  have "catalog_changes d c'"
    using e by (rule reclaim_each_changes)
      (auto simp: leased_rows_def list_all_iff distinct_sorted_ids [OF ids] find_job_of_member [OF ids])
  with opened [OF d] show "catalog_changes c c'" by (rule rtranclp_trans)
qed

lemma recover_changes:
  assumes "recover_timed_out_attempt W i token time actor c = Inr (x, c')"
  shows "catalog_changes c c'"
proof -
  obtain d r late v where d: "initialize c = Inr d" and r: "find_job i d = Some r"
    and v: "timeout_verdict W time r late = Inr v" "is_job_transition_allowed (jr_state r) (fst v)"
    and c': "c' = give_up time actor r v d"
    using assms by (auto simp: recover_timed_out_attempt_def sbind_eq_Inr job_row_Inr assert_transition_Inr Let_def split: if_splits)
  have "catalog_change d c'"
    unfolding c' using r v timeout_verdict_ends find_job_id [OF r] by (intro give_up_change) auto
  with opened [OF d] show ?thesis by (rule after_opened)
qed

section \<open>Checkpoints\<close>

lemma save_checkpoint_Inr:
  assumes "save_checkpoint W i token time position completed units payload result c = Inr (k, c')"
  obtains d r where "initialize c = Inr d" "find_job i d = Some r" "assert_lease W r token time = Inr ()"
      "jr_state r \<in> {RUNNING, CANCELLING}" "find (\<lambda>k. jc_position k = position) (checkpoints_of i d) = Some k"
      "same_checkpoint_content k completed units (canonical_entries payload) result" "c' = d"
  | d r where "initialize c = Inr d" "find_job i d = Some r" "assert_lease W r token time = Inr ()"
      "jr_state r \<in> {RUNNING, CANCELLING}" "find (\<lambda>k. jc_position k = position) (checkpoints_of i d) = None"
      "(case latest_checkpoint i d of None \<Rightarrow> True | Some l \<Rightarrow> jc_completed l \<le> completed \<and>
         (case jc_total l of None \<Rightarrow> True | Some t \<Rightarrow> units = Some t))"
      "insert_checkpoint W
          \<lparr>jc_job = i, jc_attempt = jr_attempt r, jc_sequence = (case latest_checkpoint i d of None \<Rightarrow> 0 | Some k \<Rightarrow> jc_sequence k + 1),
           jc_input = js_input (jr_spec r), jc_position = position, jc_completed = completed, jc_total = units,
           jc_payload = canonical_entries payload, jc_created = time, jc_result = result\<rparr> d = Inr (k, c')"
proof -
  obtain d r where d: "initialize c = Inr d" and r: "find_job i d = Some r" and lease: "assert_lease W r token time = Inr ()"
    and rest: "(if jr_state r \<notin> {RUNNING, CANCELLING}
    then Inl (JobStateTransition ''checkpoint requires a running or cancelling job'')
    else case find (\<lambda>k. jc_position k = position) (checkpoints_of i d) of
      Some k \<Rightarrow>
        if \<not> same_checkpoint_content k completed units (canonical_entries payload) result
        then Inl (JobCheckpointConflict ''recovery position already has different checkpoint content'')
        else Inr (k, d)
    | None \<Rightarrow>
        let latest = latest_checkpoint i d in
        if (case latest of None \<Rightarrow> False | Some k \<Rightarrow> completed < jc_completed k)
        then Inl (JobCheckpointConflict ''checkpoint progress cannot move backwards'')
        else if (case latest of None \<Rightarrow> False | Some k \<Rightarrow> jc_total k \<noteq> None \<and> units \<noteq> jc_total k)
        then Inl (JobCheckpointConflict ''known checkpoint total_units cannot change'')
        else insert_checkpoint W
          \<lparr>jc_job = i, jc_attempt = jr_attempt r, jc_sequence = (case latest of None \<Rightarrow> 0 | Some k \<Rightarrow> jc_sequence k + 1),
           jc_input = js_input (jr_spec r), jc_position = position, jc_completed = completed, jc_total = units,
           jc_payload = canonical_entries payload, jc_created = time, jc_result = result\<rparr> d) = Inr (k, c')"
    using assms by (auto simp: save_checkpoint_def sbind_eq_Inr job_row_Inr Let_def if_Inl_eq_Inr)
  have st: "jr_state r \<in> {RUNNING, CANCELLING}" using rest by (auto split: if_splits)
  show thesis
  proof (cases "find (\<lambda>k. jc_position k = position) (checkpoints_of i d)")
    case None
    show ?thesis
    proof (rule that(2) [OF d r lease st None])
      show "case latest_checkpoint i d of None \<Rightarrow> True | Some l \<Rightarrow> jc_completed l \<le> completed \<and>
          (case jc_total l of None \<Rightarrow> True | Some t \<Rightarrow> units = Some t)"
        using rest st by (auto simp: None Let_def split: option.splits if_splits)
    qed (use rest st in \<open>auto simp: None Let_def split: if_splits\<close>)
  next
    case (Some l)
    then show ?thesis using that(1) [OF d r lease st] rest st by (auto split: if_splits)
  qed
qed

lemma make_job_checkpoint_Inr:
  "make_job_checkpoint W k = Inr k' \<Longrightarrow> k' = k\<lparr>jc_payload := canonical_entries (jc_payload k)\<rparr> \<and> 0 \<le> jc_completed k \<and>
    (case jc_total k of None \<Rightarrow> True | Some t \<Rightarrow> jc_completed k \<le> t)"
  by (auto simp: make_job_checkpoint_def sbind_eq_Inr split: if_splits option.splits)

lemma save_checkpoint_changes:
  assumes "save_checkpoint W i token time position completed units payload result c = Inr (k, c')"
  shows "catalog_changes c c'"
  using assms
proof (cases rule: save_checkpoint_Inr)
  case (1 d r)
  then show ?thesis using opened by simp
next
  case (2 d r)
  obtain n where k: "k = \<lparr>jc_job = i, jc_attempt = jr_attempt r,
        jc_sequence = (case latest_checkpoint i d of None \<Rightarrow> 0 | Some k \<Rightarrow> jc_sequence k + 1),
        jc_input = js_input (jr_spec r), jc_position = position, jc_completed = completed, jc_total = units,
        jc_payload = canonical_entries payload, jc_created = time, jc_result = result\<rparr>"
    "0 \<le> completed" "case units of None \<Rightarrow> True | Some t \<Rightarrow> completed \<le> t"
    and c': "c' = update_job (jc_job k)
        (\<lambda>r. r\<lparr>jr_checkpoint := Some n, jr_position := Some (jc_position k), jr_updated := jc_created k\<rparr>)
        (d\<lparr>ct_checkpoints := ct_checkpoints d @ [k]\<rparr>)"
    using 2(7) by (cases units) (auto simp: insert_checkpoint_def sbind_eq_Inr dest!: make_job_checkpoint_Inr split: if_splits)
  have "catalog_change d c'"
    unfolding c' by (rule catalog_change.Checkpointed [of k d r])
      (use 2(2,4,5,6) assert_lease_Inr [OF 2(3)] k in \<open>auto split: option.splits\<close>)
  with opened [OF 2(1)] show ?thesis by (rule after_opened)
qed

end
