(* ===== verification/Job_Laws.thy ===== *)
theory Job_Laws
  imports Job_Steps
begin

text \<open>
  Runs of the job catalog: any calls in any order, from a fresh file. Two interfaces carry the laws: an
  invariant of the changes holds in every run, and what every change respects is respected by a run.
\<close>

section \<open>Calls\<close>

datatype catalog_call =
    Create_Job job_spec string string
  | Claim_Next string string pyval "pyval list option"
  | Heartbeat string string string pyval
  | Request_Cancel string string string string
  | Finish_Cancelled string string string string "string option"
  | Fail_Job string string string string string "string option"
  | Schedule_Retry string string string string "string option" "string option"
  | Quarantine_Job string string string string "string option"
  | Succeed_Job string string string string "job_artifact list"
  | Expire_Pending string string
  | Recover_Timed_Out string string string string
  | Reclaim_Orphans string string
  | Save_Checkpoint string string string string int "int option" pydict "string option"

definition catalog_of :: "py_error + 'a \<times> catalog \<Rightarrow> py_error + catalog" where
  "catalog_of m = sbind m (\<lambda>(x, c). Inr c)"

fun perform_call :: "clockwork \<Rightarrow> catalog_call \<Rightarrow> catalog \<Rightarrow> py_error + catalog" where
  "perform_call W (Create_Job s time actor) c = catalog_of (create_job W s time actor c)"
| "perform_call W (Claim_Next worker time seconds kinds) c = catalog_of (claim_next W worker time seconds kinds c)"
| "perform_call W (Heartbeat i token time seconds) c = catalog_of (heartbeat W i token time seconds c)"
| "perform_call W (Request_Cancel i actor time reason) c = catalog_of (request_cancel W i actor time reason c)"
| "perform_call W (Finish_Cancelled i actor time reason token) c = catalog_of (finish_cancelled W i actor time reason token c)"
| "perform_call W (Fail_Job i actor time code message token) c = catalog_of (fail_job W i actor time code message token c)"
| "perform_call W (Schedule_Retry i actor time reason code token) c = catalog_of (schedule_retry W i actor time reason code token c)"
| "perform_call W (Quarantine_Job i actor time reason token) c = catalog_of (quarantine_job W i actor time reason token c)"
| "perform_call W (Succeed_Job i actor time token artifacts) c = catalog_of (succeed_job W i actor time token artifacts c)"
| "perform_call W (Expire_Pending time actor) c = catalog_of (expire_pending_deadlines W time actor c)"
| "perform_call W (Recover_Timed_Out i token time actor) c = catalog_of (recover_timed_out_attempt W i token time actor c)"
| "perform_call W (Reclaim_Orphans time actor) c = catalog_of (reclaim_orphans W time actor c)"
| "perform_call W (Save_Checkpoint i token time position completed units payload result) c =
     catalog_of (save_checkpoint W i token time position completed units payload result c)"

text \<open>A call that raises is rolled back.\<close>

definition after_job_call :: "clockwork \<Rightarrow> catalog \<Rightarrow> catalog_call \<Rightarrow> catalog" where
  "after_job_call W c call = (case perform_call W call c of Inl e \<Rightarrow> c | Inr c' \<Rightarrow> c')"

definition run_calls :: "clockwork \<Rightarrow> catalog_call list \<Rightarrow> catalog \<Rightarrow> catalog" where
  "run_calls W calls c = foldl (after_job_call W) c calls"

lemma catalog_of_Inr: "catalog_of m = Inr c \<longleftrightarrow> (\<exists>x. m = Inr (x, c))"
  by (auto simp: catalog_of_def sbind_eq_Inr)

lemma perform_changes: "perform_call W call c = Inr c' \<Longrightarrow> distinct_ids c \<Longrightarrow> catalog_changes c c'"
  by (cases call)
    (auto simp: catalog_of_Inr intro: create_job_changes claim_next_changes heartbeat_changes request_cancel_changes
      ending_operations succeed_job_changes scheduler_changes recover_changes save_checkpoint_changes)

lemma distinct_ids_update: "(\<And>r. jr_id (f r) = jr_id r) \<Longrightarrow> distinct_ids (update_job i f c) = distinct_ids c"
  by (simp add: distinct_ids_def update_job_def comp_def if_distrib cong: if_cong)

lemma distinct_ids_simps [simp]:
  "distinct_ids (insert_transition i p t n actor time reason c) = distinct_ids c"
  "distinct_ids (c\<lparr>ct_artifacts := rows\<rparr>) = distinct_ids c" "distinct_ids (c\<lparr>ct_checkpoints := ks\<rparr>) = distinct_ids c"
  by (simp_all add: distinct_ids_def insert_transition_def)

lemma distinct_ids_move: "(\<And>r. jr_id (f r) = jr_id r) \<Longrightarrow> distinct_ids (move_job r f t n actor time reason c) = distinct_ids c"
  by (simp add: move_job_def distinct_ids_update)

lemma find_job_None: "find_job i c = None \<longleftrightarrow> i \<notin> jr_id ` set (ct_jobs c)"
  by (auto simp: find_job_def find_None_iff)

lemma distinct_ids_change: "catalog_change c c' \<Longrightarrow> distinct_ids c \<Longrightarrow> distinct_ids c'"
proof (induction rule: catalog_change.induct)
  case (Created s c time actor)
  then show ?case by (simp add: insert_job_def) (simp add: distinct_ids_def new_job_def find_job_None)
qed (simp_all add: distinct_ids_move distinct_ids_update)

lemma distinct_ids_changes: "catalog_changes c c' \<Longrightarrow> distinct_ids c \<Longrightarrow> distinct_ids c'"
  by (induction rule: rtranclp_induct) (auto intro: distinct_ids_change)

lemma after_call_changes: "distinct_ids c \<Longrightarrow> catalog_changes c (after_job_call W c call)"
  using perform_changes [of W call c] by (simp add: after_job_call_def split: sum.split)

lemma run_changes: "distinct_ids c \<Longrightarrow> catalog_changes c (run_calls W calls c)"
proof (induction calls arbitrary: c)
  case (Cons call calls)
  have "catalog_changes c (after_job_call W c call)" using Cons.prems by (rule after_call_changes)
  moreover from this have "catalog_changes (after_job_call W c call) (run_calls W calls (after_job_call W c call))"
    using Cons distinct_ids_changes by blast
  ultimately show ?case by (simp add: run_calls_def) 
qed (simp add: run_calls_def)

lemma distinct_ids_empty [simp]: "distinct_ids empty_catalog"
  by (simp add: distinct_ids_def empty_catalog_def)

lemma distinct_ids_run: "distinct_ids (run_calls W calls empty_catalog)"
  using run_changes [of empty_catalog W calls] distinct_ids_changes by simp

lemma run_calls_append: "run_calls W (xs @ ys) c = run_calls W ys (run_calls W xs c)"
  by (simp add: run_calls_def)

section \<open>The interfaces\<close>

locale catalog_invariant =
  fixes I :: "catalog \<Rightarrow> bool"
  assumes start: "I empty_catalog"
    and change: "catalog_change c c' \<Longrightarrow> distinct_ids c \<Longrightarrow> I c \<Longrightarrow> I c'"
begin

lemma changes: "catalog_changes c c' \<Longrightarrow> distinct_ids c \<Longrightarrow> I c \<Longrightarrow> I c'"
proof (induction rule: rtranclp_induct)
  case (step d e)
  then show ?case using change distinct_ids_changes by blast
qed

lemma run: "I (run_calls W calls empty_catalog)"
  using changes [OF run_changes] start by simp

end

locale catalog_respect =
  fixes R :: "catalog \<Rightarrow> catalog \<Rightarrow> bool"
  assumes same: "R c c"
    and trans: "R a b \<Longrightarrow> R b c \<Longrightarrow> R a c"
    and change: "catalog_change c c' \<Longrightarrow> distinct_ids c \<Longrightarrow> R c c'"
begin

lemma changes: "catalog_changes c c' \<Longrightarrow> distinct_ids c \<Longrightarrow> R c c'"
proof (induction rule: rtranclp_induct)
  case base
  show ?case by (rule same)
next
  case (step d e)
  then show ?case using trans [of c d e] change [of d e] distinct_ids_changes by blast
qed

lemma later: "R (run_calls W calls empty_catalog) (run_calls W (calls @ further) empty_catalog)"
  unfolding run_calls_append using changes [OF run_changes] distinct_ids_run by blast

end

section \<open>Lifelines\<close>

text \<open>The recorded transitions of a job: from its creation on allowed steps to its state, numbered from zero.\<close>

inductive job_path :: "job_transition list \<Rightarrow> job_state \<Rightarrow> bool" where
  Begun: "jt_from t = None \<Longrightarrow> jt_to t = QUEUED \<Longrightarrow> jt_sequence t = 0 \<Longrightarrow> job_path [t] QUEUED"
| Moved: "job_path ts s \<Longrightarrow> jt_from t = Some s \<Longrightarrow> is_job_transition_allowed s (jt_to t) \<Longrightarrow>
    jt_sequence t = int (length ts) \<Longrightarrow> job_path (ts @ [t]) (jt_to t)"

inductive_cases job_pathE: "job_path ts s"

definition claims_of :: "job_transition list \<Rightarrow> int" where
  "claims_of ts = int (length (filter (\<lambda>t. jt_to t = RUNNING) ts))"

definition unleased :: "job_record \<Rightarrow> bool" where
  "unleased r \<longleftrightarrow> release r = r"

definition on_lease :: "job_record \<Rightarrow> bool" where
  "on_lease r \<longleftrightarrow> 1 \<le> jr_attempt r \<and> None \<notin> {jr_owner r, jr_token r, jr_acquired r, jr_heartbeat r, jr_expires r, jr_attempt_deadline r}"

definition row_ok :: "job_record \<Rightarrow> bool" where
  "row_ok r \<longleftrightarrow>
    0 \<le> jr_attempt r \<and> jr_attempt r \<le> max 0 (js_max (jr_spec r)) \<and> jr_id r = job_id_of (jr_spec r) \<and>
    (case jr_state r of
       QUEUED \<Rightarrow> jr_attempt r = 0 \<and> unleased r
     | RUNNING \<Rightarrow> on_lease r
     | CANCELLING \<Rightarrow> on_lease r \<or> unleased r
     | _ \<Rightarrow> unleased r) \<and>
    (jr_state r = RETRYING \<or> jr_not_before r = None) \<and>
    (jr_state r = SUCCEEDED) = (jr_artifact_set r \<noteq> None)"

definition lifelines :: "catalog \<Rightarrow> bool" where
  "lifelines c \<longleftrightarrow>
    list_all (\<lambda>r. row_ok r \<and> job_path (transitions_of (jr_id r) c) (jr_state r) \<and>
      claims_of (transitions_of (jr_id r) c) = jr_attempt r) (ct_jobs c) \<and>
    list_all (\<lambda>t. jt_job t \<in> jr_id ` set (ct_jobs c)) (ct_transitions c)"

lemma job_path_last: "job_path ts s \<Longrightarrow> foldl (\<lambda>m t. max m (jt_sequence t)) (-1) ts = int (length ts) - 1"
  by (induction rule: job_path.induct) auto

lemma next_sequence_path: "job_path (transitions_of i c) s \<Longrightarrow> next_sequence i c = int (length (transitions_of i c))"
  by (simp add: next_sequence_def job_path_last)

lemma transitions_of_insert:
  "transitions_of j (insert_transition i p t n actor time reason c) =
    (if j = i then transitions_of j c @ [\<lparr>jt_job = i, jt_sequence = next_sequence i c, jt_from = p, jt_to = t, jt_attempt = n,
        jt_actor = actor, jt_at = time, jt_reason = reason\<rparr>] else transitions_of j c)"
  by (simp add: transitions_of_def insert_transition_def)

lemma transitions_simps [simp]:
  "transitions_of i (update_job j f c) = transitions_of i c" "transitions_of i (c\<lparr>ct_jobs := rs\<rparr>) = transitions_of i c"
  "transitions_of i (c\<lparr>ct_artifacts := as\<rparr>) = transitions_of i c" "transitions_of i (c\<lparr>ct_checkpoints := ks\<rparr>) = transitions_of i c"
  "transitions_of i (c\<lparr>ct_deps := ds\<rparr>) = transitions_of i c" "transitions_of i (c\<lparr>ct_schema := v\<rparr>) = transitions_of i c"
  "next_sequence i (update_job j f c) = next_sequence i c"
  by (simp_all add: transitions_of_def update_job_def next_sequence_def)

lemma claims_of_snoc: "claims_of (ts @ [t]) = claims_of ts + (if jt_to t = RUNNING then 1 else 0)"
  by (simp add: claims_of_def)

lemma lifelines_move:
  assumes ok: "lifelines c" and r: "find_job (jr_id r) c = Some r" and ids: "distinct_ids c" and f: "\<And>r. jr_id (f r) = jr_id r"
    and allowed: "is_job_transition_allowed (jr_state r) target"
    and row: "row_ok ((f r)\<lparr>jr_state := target, jr_updated := time\<rparr>)"
    and n: "jr_attempt (f r) = jr_attempt r + (if target = RUNNING then 1 else 0)"
  shows "lifelines (move_job r f target n actor time reason c)"
  unfolding lifelines_def
proof
  let ?c = "move_job r f target n actor time reason c"
  have mem: "r \<in> set (ct_jobs c)" using r by (rule find_job_member)
  have jobs: "set (ct_jobs ?c) = (\<lambda>s. if jr_id s = jr_id r then (f s)\<lparr>jr_state := target, jr_updated := time\<rparr> else s) ` set (ct_jobs c)"
    by (simp add: move_job_def update_job_def insert_transition_def)
  have keys: "jr_id ` set (ct_jobs ?c) = jr_id ` set (ct_jobs c)"
    unfolding jobs image_image by (rule image_cong) (simp_all add: f)
  show "list_all (\<lambda>t. jt_job t \<in> jr_id ` set (ct_jobs ?c)) (ct_transitions ?c)"
    unfolding keys using ok mem by (auto simp: lifelines_def move_job_def update_job_def insert_transition_def)
  have path: "job_path (transitions_of (jr_id r) c) (jr_state r)" "claims_of (transitions_of (jr_id r) c) = jr_attempt r"
    using ok mem by (simp_all add: lifelines_def list_all_iff)
  show "list_all (\<lambda>r. row_ok r \<and> job_path (transitions_of (jr_id r) ?c) (jr_state r) \<and>
      claims_of (transitions_of (jr_id r) ?c) = jr_attempt r) (ct_jobs ?c)"
    unfolding list_all_iff jobs
  proof (intro ballI, elim imageE)
    fix u s assume u: "u = (if jr_id s = jr_id r then (f s)\<lparr>jr_state := target, jr_updated := time\<rparr> else s)" and s: "s \<in> set (ct_jobs c)"
    show "row_ok u \<and> job_path (transitions_of (jr_id u) ?c) (jr_state u) \<and> claims_of (transitions_of (jr_id u) ?c) = jr_attempt u"
    proof (cases "jr_id s = jr_id r")
      case True
      then have "s = r" using find_job_of_member [OF ids s] r by (metis option.sel)
      then have "u = (f r)\<lparr>jr_state := target, jr_updated := time\<rparr>" by (simp add: u)
      moreover have "job_path (transitions_of (jr_id r) ?c) target"
        using Moved [OF path(1), of "\<lparr>jt_job = jr_id r, jt_sequence = next_sequence (jr_id r) c, jt_from = Some (jr_state r),
            jt_to = target, jt_attempt = n, jt_actor = actor, jt_at = time, jt_reason = reason\<rparr>"]
          allowed next_sequence_path [OF path(1)]
        by (simp add: move_job_def transitions_of_insert)
      moreover have "claims_of (transitions_of (jr_id r) ?c) = jr_attempt (f r)"
        using path(2) n by (simp add: move_job_def transitions_of_insert claims_of_snoc)
      ultimately show ?thesis using row f by simp
    next
      case False
      then have "transitions_of (jr_id u) ?c = transitions_of (jr_id s) c" "u = s"
        by (simp_all add: u move_job_def transitions_of_insert)
      then show ?thesis using ok s by (simp add: lifelines_def list_all_iff)
    qed
  qed
qed

lemma lifelines_update:
  assumes ok: "lifelines c" and ids: "distinct_ids c" and r: "find_job i c = Some r" and f: "\<And>r. jr_id (f r) = jr_id r"
    and row: "row_ok (f r)" "jr_state (f r) = jr_state r" "jr_attempt (f r) = jr_attempt r"
  shows "lifelines (update_job i f c)"
proof -
  have i: "jr_id r = i" using r by (rule find_job_id)
  have jobs: "set (ct_jobs (update_job i f c)) = (\<lambda>s. if jr_id s = i then f s else s) ` set (ct_jobs c)"
    by (simp add: update_job_def)
  have keys: "jr_id ` set (ct_jobs (update_job i f c)) = jr_id ` set (ct_jobs c)"
    unfolding jobs image_image by (rule image_cong) (simp_all add: f)
  have "row_ok u \<and> job_path (transitions_of (jr_id u) c) (jr_state u) \<and> claims_of (transitions_of (jr_id u) c) = jr_attempt u"
    if s: "s \<in> set (ct_jobs c)" and u: "u = (if jr_id s = i then f s else s)" for s u
  proof (cases "jr_id s = i")
    case True
    then have "s = r" using find_job_of_member [OF ids s] r by (metis option.sel)
    moreover have "row_ok s \<and> job_path (transitions_of (jr_id s) c) (jr_state s) \<and> claims_of (transitions_of (jr_id s) c) = jr_attempt s"
      using ok s by (simp add: lifelines_def list_all_iff)
    ultimately show ?thesis using row f u True by simp
  next
    case False
    then show ?thesis using ok s u by (simp add: lifelines_def list_all_iff)
  qed
  then have "\<forall>u \<in> set (ct_jobs (update_job i f c)). row_ok u \<and> job_path (transitions_of (jr_id u) c) (jr_state u) \<and>
      claims_of (transitions_of (jr_id u) c) = jr_attempt u"
    unfolding jobs by blast
  moreover have "\<forall>t \<in> set (ct_transitions (update_job i f c)). jt_job t \<in> jr_id ` set (ct_jobs (update_job i f c))"
    unfolding keys using ok by (simp add: lifelines_def list_all_iff update_job_def)
  ultimately show ?thesis unfolding lifelines_def list_all_iff transitions_simps ..
qed

lemma unleased_iff:
  "unleased r \<longleftrightarrow> jr_owner r = None \<and> jr_token r = None \<and> jr_acquired r = None \<and> jr_heartbeat r = None \<and> jr_expires r = None \<and>
    jr_attempt_deadline r = None"
  unfolding unleased_def release_def by (cases r) auto

lemma row_okD:
  "row_ok r \<Longrightarrow> 0 \<le> jr_attempt r" "row_ok r \<Longrightarrow> jr_attempt r \<le> max 0 (js_max (jr_spec r))" "row_ok r \<Longrightarrow> jr_id r = job_id_of (jr_spec r)"
  "row_ok r \<Longrightarrow> jr_state r \<noteq> SUCCEEDED \<Longrightarrow> jr_artifact_set r = None"
  "row_ok r \<Longrightarrow> jr_state r = RUNNING \<Longrightarrow> on_lease r"
  "row_ok r \<Longrightarrow> jr_state r \<notin> {RUNNING, CANCELLING} \<Longrightarrow> unleased r"
  "row_ok r \<Longrightarrow> on_lease r \<or> unleased r"
  by (auto simp: row_ok_def split: job_state.splits)

lemma row_ok_released:
  assumes "row_ok r" and "target \<notin> {QUEUED, RUNNING, SUCCEEDED}" and "target = RETRYING \<or> n = None" and "jr_state r \<noteq> SUCCEEDED"
  shows "row_ok ((with_error n e m (release r))\<lparr>jr_state := target, jr_updated := time\<rparr>)"
  using assms row_okD(4) [OF assms(1,4)]
  by (cases target) (auto simp: row_ok_def with_error_def release_def unleased_iff)

lemma row_ok_kept:
  assumes "row_ok r" and "target \<in> {CANCELLING, FAILED}" and "target = CANCELLING \<or> unleased r" and "jr_state r \<noteq> SUCCEEDED"
  shows "row_ok ((with_error None e m r)\<lparr>jr_state := target, jr_updated := time\<rparr>)"
  using assms row_okD(4) [OF assms(1,4)] row_okD(7) [OF assms(1)]
  by (cases target) (auto simp: row_ok_def with_error_def unleased_iff on_lease_def)

lemma row_ok_leased:
  assumes "row_ok r" and "jr_state r \<in> {QUEUED, RETRYING}" and "jr_attempt r < js_max (jr_spec r)"
  shows "row_ok ((leased owner (jr_attempt r + 1) time expires limit r)\<lparr>jr_state := RUNNING, jr_updated := now\<rparr>)"
  using assms row_okD(1) [OF assms(1)] row_okD(4) [OF assms(1)]
  by (auto simp: row_ok_def leased_def on_lease_def)

lemma row_ok_succeeded:
  assumes "row_ok r"
  shows "row_ok (((with_error None None None (release r))\<lparr>jr_artifact_set := Some i\<rparr>)\<lparr>jr_state := SUCCEEDED, jr_updated := time\<rparr>)"
  using assms by (auto simp: row_ok_def with_error_def release_def unleased_iff)

lemma row_ok_touched:
  assumes "row_ok r" and "jr_state r \<in> {RUNNING, CANCELLING}" and "jr_expires r \<noteq> None"
  shows "row_ok (r\<lparr>jr_heartbeat := Some t, jr_expires := Some e, jr_updated := t\<rparr>)"
    and "row_ok (r\<lparr>jr_checkpoint := k, jr_position := p, jr_updated := t\<rparr>)"
  using assms by (auto simp: row_ok_def on_lease_def unleased_iff)

lemma lifelines_created:
  assumes ok: "lifelines c" and fresh: "find_job (job_id_of s) c = None"
  shows "lifelines (insert_job s time actor c)"
proof -
  have none: "transitions_of (job_id_of s) c = []"
    using ok fresh unfolding lifelines_def list_all_iff transitions_of_def find_job_None filter_empty_conv by metis
  have new: "row_ok (new_job s time)" by (auto simp: row_ok_def new_job_def unleased_iff)
  have other: "jr_id r \<noteq> job_id_of s" if "r \<in> set (ct_jobs c)" for r
    using fresh that unfolding find_job_None by (metis imageI)
  have seq: "next_sequence (job_id_of s) (c\<lparr>ct_jobs := rs, ct_deps := ds\<rparr>) = 0" for rs ds
    by (simp add: next_sequence_def none)
  show ?thesis
    using ok other new
    by (auto simp: lifelines_def list_all_iff insert_job_def transitions_of_insert none seq claims_of_def)
      (auto simp: insert_transition_def new_job_def intro!: Begun)
qed

lemma lifelines_change: "catalog_change c c' \<Longrightarrow> distinct_ids c \<Longrightarrow> lifelines c \<Longrightarrow> lifelines c'"
proof (induction rule: catalog_change.induct)
  case (Opened c)
  then show ?case by (simp add: lifelines_def)
next
  case (Created s c time actor)
  then show ?case by (intro lifelines_created)
next
  case (Claimed r c n owner time expires limit actor reason)
  then have "row_ok r" using find_job_member by (auto simp: lifelines_def list_all_iff)
  then show ?case
    using Claimed row_ok_leased [of r]
    by (intro lifelines_move) (auto simp: is_job_transition_allowed_def, auto simp: leased_def)
next
  case (Kept r c time expires)
  then have "row_ok r" using find_job_member by (auto simp: lifelines_def list_all_iff)
  then show ?case using Kept row_ok_touched(1) [of r] by (intro lifelines_update) auto
next
  case (Cancelling r c actor time reason)
  then have "row_ok r" using find_job_member by (auto simp: lifelines_def list_all_iff)
  moreover have "jr_state r \<noteq> SUCCEEDED" using Cancelling by (auto simp: is_job_transition_allowed_def)
  ultimately show ?case
    using Cancelling row_ok_kept [of r CANCELLING] by (intro lifelines_move) (auto simp: with_error_def)
next
  case (Ended r c target not_before code message actor time reason)
  then have "row_ok r" using find_job_member by (auto simp: lifelines_def list_all_iff)
  moreover have "jr_state r \<noteq> SUCCEEDED" using Ended by (auto simp: is_job_transition_allowed_def)
  ultimately show ?case
    using Ended row_ok_released [of r target not_before]
    by (intro lifelines_move) (auto simp: with_error_def release_def split: if_splits)
next
  case (Expired r c code message actor time reason)
  then have "row_ok r" using find_job_member by (auto simp: lifelines_def list_all_iff)
  moreover from this have "unleased r" using Expired row_okD(6) [of r] by auto
  ultimately show ?case
    using Expired row_ok_kept [of r FAILED]
    by (intro lifelines_move) (auto simp: with_error_def is_job_transition_allowed_def)
next
  case (Succeeded r c artifacts rows actor time reason)
  then have "row_ok r" using find_job_member by (auto simp: lifelines_def list_all_iff)
  moreover have "lifelines (c\<lparr>ct_artifacts := rows\<rparr>)" using Succeeded by (simp add: lifelines_def)
  ultimately show ?case
    using Succeeded row_ok_succeeded [of r]
    by (intro lifelines_move) (auto simp: with_error_def release_def is_job_transition_allowed_def)
next
  case (Checkpointed k c r i)
  then have "row_ok r" using find_job_member by (auto simp: lifelines_def list_all_iff)
  moreover have "lifelines (c\<lparr>ct_checkpoints := ct_checkpoints c @ [k]\<rparr>)" using Checkpointed by (simp add: lifelines_def)
  ultimately show ?case
    using Checkpointed row_ok_touched(2) [of r] by (intro lifelines_update) auto
qed

interpretation lifeline: catalog_invariant lifelines
proof unfold_locales
  show "lifelines empty_catalog" by (simp add: lifelines_def empty_catalog_def)
qed (rule lifelines_change)

end
