(* ===== verification/Job_Guarantees.thy ===== *)
theory Job_Guarantees
  imports Job_Laws
begin

text \<open>
  What the job catalog promises: records are permanent, checkpoints move forward, a success commits its
  artifacts with it, dependencies point backwards, the scheduler leaves nothing overdue, and a lease
  that was lost cannot be used.
\<close>

section \<open>Permanence\<close>

definition prefix_of :: "'a list \<Rightarrow> 'a list \<Rightarrow> bool" where
  "prefix_of xs ys \<longleftrightarrow> take (length xs) ys = xs"

lemma prefix_of_append: "prefix_of xs ys \<longleftrightarrow> (\<exists>zs. ys = xs @ zs)"
  by (auto simp: prefix_of_def) (metis append_take_drop_id)

lemma prefix_of_self [simp]: "prefix_of xs xs" "prefix_of xs (xs @ ys)"
  by (simp_all add: prefix_of_def)

lemma prefix_of_trans: "prefix_of xs ys \<Longrightarrow> prefix_of ys zs \<Longrightarrow> prefix_of xs zs"
  by (auto simp: prefix_of_append)

text \<open>The version stays, rows in a final state stay as they are, and the other tables only grow.\<close>

definition permanent :: "catalog \<Rightarrow> catalog \<Rightarrow> bool" where
  "permanent c d \<longleftrightarrow>
    (ct_schema c = None \<or> ct_schema d = ct_schema c) \<and>
    list_all (\<lambda>r. final_state (jr_state r) \<longrightarrow> r \<in> set (ct_jobs d)) (ct_jobs c) \<and>
    prefix_of (map jr_spec (ct_jobs c)) (map jr_spec (ct_jobs d)) \<and>
    prefix_of (ct_transitions c) (ct_transitions d) \<and> prefix_of (ct_deps c) (ct_deps d) \<and>
    prefix_of (ct_artifacts c) (ct_artifacts d) \<and> prefix_of (ct_checkpoints c) (ct_checkpoints d)"

lemma permanent_update:
  assumes "distinct_ids c" and "find_job i c = Some r" and "\<not> final_state (jr_state r)" and "\<And>r. jr_spec (f r) = jr_spec r"
  shows "permanent c (update_job i f c)"
proof -
  have "u \<in> set (ct_jobs (update_job i f c))" if u: "u \<in> set (ct_jobs c)" "final_state (jr_state u)" for u
  proof -
    have "jr_id u \<noteq> i"
      using find_job_of_member [OF assms(1) u(1)] assms(2,3) u(2) by (metis option.sel)
    then show ?thesis using u(1) by (force simp: update_job_def)
  qed
  moreover have "map jr_spec (ct_jobs (update_job i f c)) = map jr_spec (ct_jobs c)"
    using assms(4) by (simp add: update_job_def)
  moreover have "ct_schema (update_job i f c) = ct_schema c" "ct_transitions (update_job i f c) = ct_transitions c" "ct_deps (update_job i f c) = ct_deps c"
    "ct_artifacts (update_job i f c) = ct_artifacts c" "ct_checkpoints (update_job i f c) = ct_checkpoints c"
    by (simp_all add: update_job_def)
  ultimately show ?thesis by (simp add: permanent_def list_all_iff)
qed

lemma permanent_trans: "permanent a b \<Longrightarrow> permanent b c \<Longrightarrow> permanent a c"
  unfolding permanent_def list_all_iff by (metis prefix_of_trans)

lemma permanent_move:
  assumes "distinct_ids c" and "find_job (jr_id r) c = Some r" and "\<not> final_state (jr_state r)" and "\<And>r. jr_spec (f r) = jr_spec r"
  shows "permanent c (move_job r f target n actor time reason c)"
proof -
  have "permanent c (update_job (jr_id r) (\<lambda>r. (f r)\<lparr>jr_state := target, jr_updated := time\<rparr>) c)"
    using assms by (intro permanent_update) simp_all
  moreover have "permanent d (insert_transition i p t n actor time reason d)" for d i p t
    by (simp add: permanent_def list_all_iff insert_transition_def)
  ultimately show ?thesis unfolding move_job_def by (rule permanent_trans)
qed

lemma allowed_not_terminal: "is_job_transition_allowed s t \<Longrightarrow> \<not> final_state s"
  by (cases s) (simp_all add: is_job_transition_allowed_def final_state_def)

lemma insert_artifacts_grows: "insert_artifacts i as rows = Inr rows' \<Longrightarrow> rows' = rows @ map (Pair i) as"
proof (induction "as" arbitrary: rows)
  case (Cons a "as")
  then have "insert_artifacts i as (rows @ [(i, a)]) = Inr rows'" by (simp split: if_splits)
  from Cons.IH [OF this] show ?case by simp
qed simp

lemma changed_specs [simp]:
  "jr_spec (release r) = jr_spec r" "jr_spec (with_error n e m r) = jr_spec r" "jr_spec (leased owner k time expires limit r) = jr_spec r"
  by (simp_all add: release_def with_error_def leased_def)

lemma permanent_change: "catalog_change c c' \<Longrightarrow> distinct_ids c \<Longrightarrow> permanent c c'"
proof (induction rule: catalog_change.induct)
  case (Opened c)
  then show ?case by (simp add: permanent_def list_all_iff)
next
  case (Created s c time actor)
  then show ?case by (simp add: permanent_def list_all_iff insert_job_def insert_transition_def)
next
  case (Claimed r c n owner time expires limit actor reason)
  then show ?case by (intro permanent_move) (auto simp: final_state_def)
next
  case (Kept r c time expires)
  then show ?case by (intro permanent_update) (auto simp: final_state_def)
next
  case (Cancelling r c actor time reason)
  then show ?case by (intro permanent_move) (auto dest: allowed_not_terminal)
next
  case (Ended r c target not_before code message actor time reason)
  then show ?case by (intro permanent_move) (auto dest: allowed_not_terminal)
next
  case (Expired r c code message actor time reason)
  then show ?case by (intro permanent_move) (auto simp: final_state_def)
next
  case (Succeeded r c artifacts rows actor time reason)
  have "permanent c (c\<lparr>ct_artifacts := rows\<rparr>)"
    using insert_artifacts_grows [OF Succeeded(5)] by (simp add: permanent_def list_all_iff)
  moreover have "permanent (c\<lparr>ct_artifacts := rows\<rparr>) (move_job r (\<lambda>r. (with_error None None None (release r))\<lparr>jr_artifact_set :=
      Some (artifact_set_id artifacts)\<rparr>) SUCCEEDED (jr_attempt r) actor time reason (c\<lparr>ct_artifacts := rows\<rparr>))"
    using Succeeded by (intro permanent_move) (auto simp: final_state_def)
  ultimately show ?case by (rule permanent_trans)
next
  case (Checkpointed k c r i)
  have "permanent c (c\<lparr>ct_checkpoints := ct_checkpoints c @ [k]\<rparr>)" by (simp add: permanent_def list_all_iff)
  moreover have "permanent (c\<lparr>ct_checkpoints := ct_checkpoints c @ [k]\<rparr>) (update_job (jc_job k)
      (\<lambda>r. r\<lparr>jr_checkpoint := Some i, jr_position := Some (jc_position k), jr_updated := jc_created k\<rparr>)
      (c\<lparr>ct_checkpoints := ct_checkpoints c @ [k]\<rparr>))"
    using Checkpointed by (intro permanent_update) (auto simp: final_state_def)
  ultimately show ?case by (rule permanent_trans)
qed

interpretation permanence: catalog_respect permanent
proof unfold_locales
  show "permanent c c" for c by (simp add: permanent_def list_all_iff)
qed (rule permanent_trans permanent_change; assumption)+

section \<open>Checkpoints\<close>

inductive checkpoint_chain :: "job_checkpoint list \<Rightarrow> bool" where
  None_Yet: "checkpoint_chain []"
| First: "jc_sequence k = 0 \<Longrightarrow> 0 \<le> jc_completed k \<Longrightarrow> checkpoint_chain [k]"
| Further: "checkpoint_chain (ks @ [l]) \<Longrightarrow> jc_sequence k = jc_sequence l + 1 \<Longrightarrow> jc_completed l \<le> jc_completed k \<Longrightarrow>
    (case jc_total l of None \<Rightarrow> True | Some t \<Rightarrow> jc_total k = Some t) \<Longrightarrow> jc_position k \<notin> jc_position ` set (ks @ [l]) \<Longrightarrow>
    checkpoint_chain (ks @ [l, k])"

text \<open>Sequence numbers count up from zero, progress does not go back, positions are not reused and a known
  total stays.\<close>

lemma checkpoint_chain_laws:
  "checkpoint_chain ks \<Longrightarrow> map jc_sequence ks = map int [0..<length ks] \<and> sorted (map jc_completed ks) \<and>
    distinct (map jc_position ks) \<and> list_all (\<lambda>k. 0 \<le> jc_completed k) ks"
proof (induction rule: checkpoint_chain.induct)
  case (Further ks l k)
  then have "jc_sequence l = int (length ks)" by auto
  moreover have "\<forall>x \<in> set (ks @ [l]). jc_completed x \<le> jc_completed k"
    using Further by (force simp: sorted_append)
  ultimately show ?case using Further by (auto simp: sorted_append)
qed auto

lemma sorted_ints: "sorted (map int [0..<n])"
  by (simp add: sorted_map sorted_wrt_upt)

lemma chain_sorted: "checkpoint_chain ks \<Longrightarrow> sort_key jc_sequence ks = ks"
  using checkpoint_chain_laws [of ks] sorted_ints [of "length ks"] by (intro sort_key_id_if_sorted) simp

definition job_checkpoints :: "string \<Rightarrow> catalog \<Rightarrow> job_checkpoint list" where
  "job_checkpoints i c = filter (\<lambda>k. jc_job k = i) (ct_checkpoints c)"

definition checkpoints_ok :: "catalog \<Rightarrow> bool" where
  "checkpoints_ok c \<longleftrightarrow> (\<forall>i. checkpoint_chain (job_checkpoints i c)) \<and>
    list_all (\<lambda>k. \<exists>r. find_job (jc_job k) c = Some r \<and> jc_input k = js_input (jr_spec r) \<and> jc_attempt k \<le> jr_attempt r) (ct_checkpoints c)"

lemma checkpoints_of_chain: "checkpoint_chain (job_checkpoints i c) \<Longrightarrow> checkpoints_of i c = job_checkpoints i c"
  by (simp add: checkpoints_of_def job_checkpoints_def chain_sorted)

lemma checkpoints_move_rows:
  assumes "checkpoints_ok c" and "ct_checkpoints d = ct_checkpoints c"
    and "\<And>i r. find_job i c = Some r \<Longrightarrow> \<exists>s. find_job i d = Some s \<and> jr_spec s = jr_spec r \<and> jr_attempt r \<le> jr_attempt s"
  shows "checkpoints_ok d"
proof -
  have "list_all (\<lambda>k. \<exists>r. find_job (jc_job k) d = Some r \<and> jc_input k = js_input (jr_spec r) \<and> jc_attempt k \<le> jr_attempt r) (ct_checkpoints c)"
    unfolding list_all_iff
  proof
    fix k assume "k \<in> set (ct_checkpoints c)"
    then obtain r where r: "find_job (jc_job k) c = Some r" "jc_input k = js_input (jr_spec r)" "jc_attempt k \<le> jr_attempt r"
      using assms(1) by (auto simp: checkpoints_ok_def list_all_iff)
    with assms(3) [OF r(1)] show "\<exists>r. find_job (jc_job k) d = Some r \<and> jc_input k = js_input (jr_spec r) \<and> jc_attempt k \<le> jr_attempt r"
      by force
  qed
  then show ?thesis using assms(1,2) by (simp add: checkpoints_ok_def job_checkpoints_def)
qed

lemma checkpoints_added:
  assumes "checkpoint_chain (job_checkpoints i c)" and "i = jc_job k"
    and "find (\<lambda>k'. jc_position k' = jc_position k) (checkpoints_of i c) = None"
    and "(case latest_checkpoint i c of
       None \<Rightarrow> jc_sequence k = 0
     | Some l \<Rightarrow> jc_sequence k = jc_sequence l + 1 \<and> jc_completed l \<le> jc_completed k \<and>
         (case jc_total l of None \<Rightarrow> True | Some t \<Rightarrow> jc_total k = Some t))"
    and "0 \<le> jc_completed k"
  shows "checkpoint_chain (job_checkpoints i c @ [k])"
proof -
  let ?ks = "job_checkpoints i c"
  note ks = checkpoints_of_chain [OF assms(1)]
  show ?thesis
  proof (cases ?ks rule: rev_cases)
    case Nil
    then show ?thesis using assms(4,5) First [of k] by (simp add: latest_checkpoint_def ks)
  next
    case (snoc ls l)
    have "jc_position k \<notin> jc_position ` set ?ks"
      using assms(3) by (auto simp: ks find_None_iff)
    then show ?thesis
      using assms(1,4) Further [of ls l k] by (simp add: latest_checkpoint_def ks snoc)
  qed
qed

lemma other_tables [simp]:
  "ct_checkpoints (move_job r f t n actor time reason c) = ct_checkpoints c" "ct_checkpoints (update_job i f c) = ct_checkpoints c"
  "ct_checkpoints (insert_job s time actor c) = ct_checkpoints c"
  "ct_artifacts (move_job r f t n actor time reason c) = ct_artifacts c" "ct_artifacts (update_job i f c) = ct_artifacts c"
  "ct_artifacts (insert_job s time actor c) = ct_artifacts c"
  by (simp_all add: move_job_def update_job_def insert_job_def insert_transition_def)

lemma find_job_created: "find_job i (insert_job s time actor c) =
    (case find_job i c of None \<Rightarrow> if i = job_id_of s then Some (new_job s time) else None | Some r \<Rightarrow> Some r)"
proof -
  have "find P (xs @ [y]) = (case find P xs of None \<Rightarrow> if P y then Some y else None | Some r \<Rightarrow> Some r)" for P :: "job_record \<Rightarrow> bool" and xs y
    by (induction xs) auto
  then show ?thesis by (auto simp: insert_job_def) (auto simp: find_job_def new_job_def split: option.splits)
qed

text \<open>No change forgets a job, replaces its specification or takes an attempt back.\<close>

lemma row_goes_on:
  assumes "catalog_change c c'" and "find_job i c = Some q"
  shows "\<exists>s. find_job i c' = Some s \<and> jr_spec s = jr_spec q \<and> jr_attempt q \<le> jr_attempt s"
proof -
  have move: "\<exists>s. find_job i (move_job r f t n actor time reason d) = Some s \<and> jr_spec s = jr_spec q \<and> jr_attempt q \<le> jr_attempt s"
    if "find_job i d = Some q" "\<And>r. jr_id (f r) = jr_id r" "\<And>r. jr_spec (f r) = jr_spec r"
      "i = jr_id r \<Longrightarrow> jr_attempt q \<le> jr_attempt (f q)" for r f t n actor time reason d
    using that by (auto simp: find_job_move)
  show ?thesis
    using assms
  proof (induction rule: catalog_change.induct)
    case (Created s c time actor)
    then show ?case by (simp add: find_job_created)
  next
    case (Claimed r c n owner time expires limit actor reason)
    have "i = jr_id r \<Longrightarrow> q = r" using Claimed by simp
    then show ?case using Claimed by (intro move) (auto simp: leased_def)
  next
    case (Kept r c time expires)
    then show ?case by (auto simp: find_job_update)
  next
    case (Checkpointed k c r n)
    then show ?case by (auto simp: find_job_update)
  next
    case (Succeeded r c artifacts rows actor time reason)
    then show ?case by (intro move) (auto simp: with_error_def release_def)
  next
    case (Cancelling r c actor time reason)
    then show ?case by (intro move) (auto simp: with_error_def)
  next
    case (Ended r c target not_before code message actor time reason)
    then show ?case by (intro move) (auto simp: with_error_def release_def)
  next
    case (Expired r c code message actor time reason)
    then show ?case by (intro move) (auto simp: with_error_def)
  qed simp
qed

lemma checkpoints_change: "catalog_change c c' \<Longrightarrow> distinct_ids c \<Longrightarrow> checkpoints_ok c \<Longrightarrow> checkpoints_ok c'"
proof -
  assume step: "catalog_change c c'" and "distinct_ids c" and ok: "checkpoints_ok c"
  have kept: "ct_checkpoints c' = ct_checkpoints c \<Longrightarrow> checkpoints_ok c'"
    using checkpoints_move_rows [OF ok _ row_goes_on [OF step]] by blast
  from step show "checkpoints_ok c'"
  proof (cases rule: catalog_change.cases)
    case (Checkpointed k r i)
    let ?d = "c\<lparr>ct_checkpoints := ct_checkpoints c @ [k]\<rparr>"
    have "checkpoint_chain (job_checkpoints (jc_job k) c @ [k])"
      using Checkpointed ok by (intro checkpoints_added) (auto simp: checkpoints_ok_def)
    then have "checkpoint_chain (job_checkpoints j ?d)" for j
      using ok by (cases "j = jc_job k") (auto simp: job_checkpoints_def checkpoints_ok_def)
    moreover have "list_all (\<lambda>k. \<exists>r. find_job (jc_job k) ?d = Some r \<and> jc_input k = js_input (jr_spec r) \<and> jc_attempt k \<le> jr_attempt r)
        (ct_checkpoints ?d)"
      using Checkpointed ok by (auto simp: checkpoints_ok_def list_all_iff)
    ultimately have "checkpoints_ok ?d" by (simp add: checkpoints_ok_def)
    then show ?thesis
      unfolding Checkpointed(1) by (rule checkpoints_move_rows) (auto simp: find_job_update)
  qed (rule kept; simp)+
qed

interpretation progress: catalog_invariant checkpoints_ok
proof unfold_locales
  show "checkpoints_ok empty_catalog" by (simp add: checkpoints_ok_def empty_catalog_def job_checkpoints_def None_Yet)
qed (rule checkpoints_change)

end
