(* ===== verification/Job_Scheduling.thy ===== *)
theory Job_Scheduling
  imports Job_Guarantees
begin

text \<open>
  What the job catalog promises across its tables: dependencies point backwards and a job is only started
  after the jobs it depends on, artifacts belong to succeeded jobs and are the committed sets, and what
  claiming, working under a lease and the sweeps of the scheduler do to any reachable catalog.
\<close>

section \<open>How rows follow each other\<close>

definition follows :: "catalog \<Rightarrow> job_record \<Rightarrow> job_record \<Rightarrow> bool" where
  "follows c r u \<longleftrightarrow> jr_id u = jr_id r \<and> jr_spec u = jr_spec r \<and> (jr_state r = SUCCEEDED \<longrightarrow> jr_state u = SUCCEEDED) \<and>
    (jr_attempt u = jr_attempt r \<or> \<not> waits c r)"

lemma follows_update:
  assumes "distinct_ids c" and "find_job i c = Some r" and "\<And>r. jr_id (f r) = jr_id r" and "follows c r (f r)"
  shows "list_all2 (follows c) (ct_jobs c) (ct_jobs (update_job i f c))"
proof -
  have "follows c u (if jr_id u = i then f u else u)" if "u \<in> set (ct_jobs c)" for u
  proof (cases "jr_id u = i")
    case True
    then have "u = r" using find_job_of_member [OF assms(1) that] assms(2) by (metis option.sel)
    then show ?thesis using True assms(4) by simp
  qed (simp add: follows_def)
  then show ?thesis by (simp add: update_job_def list.rel_map list_all2_same)
qed

lemma waits_simps [simp]:
  "waits (c\<lparr>ct_artifacts := as\<rparr>) r = waits c r" "waits (c\<lparr>ct_checkpoints := ks\<rparr>) r = waits c r"
  "waits (c\<lparr>ct_schema := v\<rparr>) r = waits c r"
  by (simp_all add: waits_def)

lemma follows_move:
  assumes "distinct_ids c" and "find_job (jr_id r) c = Some r" and "\<And>r. jr_id (f r) = jr_id r" and "jr_spec (f r) = jr_spec r"
    and "jr_state r \<noteq> SUCCEEDED" and "jr_attempt (f r) = jr_attempt r \<or> \<not> waits c r"
  shows "list_all2 (follows c) (ct_jobs c) (ct_jobs (move_job r f target n actor time reason c))"
proof -
  have "list_all2 (follows c) (ct_jobs c) (ct_jobs (update_job (jr_id r) (\<lambda>r. (f r)\<lparr>jr_state := target, jr_updated := time\<rparr>) c))"
    using assms by (intro follows_update [where r = r]) (simp_all add: follows_def)
  then show ?thesis by (simp add: move_job_def insert_transition_def)
qed

lemma not_succeeded: "is_job_transition_allowed s t \<Longrightarrow> s \<noteq> SUCCEEDED"
  by (auto simp: is_job_transition_allowed_def)

lemma deps_kept [simp]:
  "ct_deps (move_job r f t n actor time reason c) = ct_deps c" "ct_deps (update_job i f c) = ct_deps c"
  by (simp_all add: move_job_def update_job_def insert_transition_def)

text \<open>A change creates a job, or keeps the rows in place.\<close>

lemma change_rows:
  assumes "catalog_change c c'" and "distinct_ids c"
  obtains (created) s time actor where "c' = insert_job s time actor c" "find_job (job_id_of s) c = None"
      "list_all (\<lambda>i. find_job i c \<noteq> None) (js_deps s)"
  | (kept) "list_all2 (follows c) (ct_jobs c) (ct_jobs c')" "ct_deps c' = ct_deps c"
  using assms(1)
proof (cases rule: catalog_change.cases)
  case Opened
  then show ?thesis by (intro kept) (simp_all add: list_all2_same follows_def)
next
  case (Created s time actor)
  then show ?thesis by (intro created) simp_all
next
  case (Claimed r n owner time expires limit actor reason)
  show ?thesis
  proof (rule kept)
    show "list_all2 (follows c) (ct_jobs c) (ct_jobs c')"
      unfolding Claimed(1) using Claimed assms(2) by (intro follows_move) (auto simp: leased_def)
  qed (simp add: Claimed)
next
  case (Kept r time expires)
  show ?thesis
  proof (rule kept)
    show "list_all2 (follows c) (ct_jobs c) (ct_jobs c')"
      unfolding Kept(1) using Kept assms(2) by (intro follows_update [where r = r]) (auto simp: follows_def)
  qed (simp add: Kept)
next
  case (Cancelling r actor time reason)
  show ?thesis
  proof (rule kept)
    show "list_all2 (follows c) (ct_jobs c) (ct_jobs c')"
      unfolding Cancelling(1) using Cancelling assms(2) by (intro follows_move) (auto simp: with_error_def dest: not_succeeded)
  qed (simp add: Cancelling)
next
  case (Ended r target not_before code message actor time reason)
  show ?thesis
  proof (rule kept)
    show "list_all2 (follows c) (ct_jobs c) (ct_jobs c')"
      unfolding Ended(1) using Ended assms(2)
      by (intro follows_move) (auto simp: with_error_def release_def dest: not_succeeded)
  qed (simp add: Ended)
next
  case (Expired r code message actor time reason)
  show ?thesis
  proof (rule kept)
    show "list_all2 (follows c) (ct_jobs c) (ct_jobs c')"
      unfolding Expired(1) using Expired assms(2) by (intro follows_move) (auto simp: with_error_def)
  qed (simp add: Expired)
next
  case (Succeeded r artifacts rows actor time reason)
  show ?thesis
  proof (rule kept)
    have "list_all2 (follows (c\<lparr>ct_artifacts := rows\<rparr>)) (ct_jobs (c\<lparr>ct_artifacts := rows\<rparr>)) (ct_jobs c')"
      unfolding Succeeded(1) using Succeeded assms(2) by (intro follows_move) (auto simp: with_error_def release_def)
    moreover have "follows (c\<lparr>ct_artifacts := rows\<rparr>) = follows c" by (intro ext) (simp add: follows_def)
    ultimately show "list_all2 (follows c) (ct_jobs c) (ct_jobs c')" by simp
  qed (simp add: Succeeded)
next
  case (Checkpointed k r i)
  let ?d = "c\<lparr>ct_checkpoints := ct_checkpoints c @ [k]\<rparr>"
  show ?thesis
  proof (rule kept)
    have "list_all2 (follows ?d) (ct_jobs ?d) (ct_jobs c')"
      unfolding Checkpointed(1) using Checkpointed assms(2) by (intro follows_update [where r = r]) (auto simp: follows_def)
    moreover have "follows ?d = follows c" by (intro ext) (simp add: follows_def)
    ultimately show "list_all2 (follows c) (ct_jobs c) (ct_jobs c')" by simp
  qed (simp add: Checkpointed)
qed

section \<open>Dependencies\<close>

definition succeeded :: "catalog \<Rightarrow> string \<Rightarrow> bool" where
  "succeeded c i \<longleftrightarrow> list_ex (\<lambda>p. jr_id p = i \<and> jr_state p = SUCCEEDED) (ct_jobs c)"

definition created_before :: "catalog \<Rightarrow> string \<Rightarrow> string list" where
  "created_before c i = takeWhile (\<lambda>j. j \<noteq> i) (map jr_id (ct_jobs c))"

text \<open>A job depends on jobs created before it, and an attempt of it was only started after they succeeded.\<close>

definition dependencies_ok :: "catalog \<Rightarrow> bool" where
  "dependencies_ok c \<longleftrightarrow> list_all (\<lambda>r.
    list_all (\<lambda>d. d \<in> set (created_before c (jr_id r))) (js_deps (jr_spec r)) \<and>
    (jr_attempt r \<noteq> 0 \<longrightarrow> list_all (succeeded c) (js_deps (jr_spec r)))) (ct_jobs c)"

text \<open>The table of dependencies is the one of the specifications.\<close>

definition dependency_rows :: "catalog \<Rightarrow> bool" where
  "dependency_rows c \<longleftrightarrow>
    list_all (\<lambda>r. map snd (filter (\<lambda>(i, d). i = jr_id r) (ct_deps c)) = js_deps (jr_spec r)) (ct_jobs c) \<and>
    list_all (\<lambda>(i, d). i \<in> jr_id ` set (ct_jobs c)) (ct_deps c)"

lemma follows_ids: "list_all2 (follows c) (ct_jobs c) (ct_jobs d) \<Longrightarrow> map jr_id (ct_jobs d) = map jr_id (ct_jobs c)"
  by (rule list_all2_eq [THEN iffD2, symmetric])
    (simp add: list.rel_map, erule list.rel_mono_strong, simp add: follows_def)

lemma succeeded_follows:
  assumes "list_all2 (follows c) (ct_jobs c) (ct_jobs d)" and "succeeded c i"
  shows "succeeded d i"
proof -
  obtain n where n: "n < length (ct_jobs c)" "jr_id (ct_jobs c ! n) = i" "jr_state (ct_jobs c ! n) = SUCCEEDED"
    using assms(2) by (auto simp: succeeded_def list_ex_iff in_set_conv_nth)
  then have "follows c (ct_jobs c ! n) (ct_jobs d ! n)" "n < length (ct_jobs d)"
    using assms(1) by (simp_all add: list_all2_conv_all_nth)
  with n show ?thesis by (auto simp: succeeded_def list_ex_iff follows_def)
qed

lemma not_waiting:
  assumes "dependency_rows c" and "dependencies_ok c" and "r \<in> set (ct_jobs c)" and "\<not> waits c r"
  shows "list_all (succeeded c) (js_deps (jr_spec r))"
  unfolding list_all_iff
proof
  fix d assume d: "d \<in> set (js_deps (jr_spec r))"
  moreover have "js_deps (jr_spec r) = map snd (filter (\<lambda>(i, d). i = jr_id r) (ct_deps c))"
    using assms(1,3) by (simp add: dependency_rows_def list_all_iff)
  ultimately have "(jr_id r, d) \<in> set (ct_deps c)" by auto
  then have all: "p \<in> set (ct_jobs c) \<Longrightarrow> jr_id p = d \<Longrightarrow> jr_state p = SUCCEEDED" for p
    using assms(4) by (force simp: waits_def list_ex_iff)
  have "d \<in> set (created_before c (jr_id r))"
    using assms(2,3) d by (simp add: dependencies_ok_def list_all_iff)
  then have "d \<in> jr_id ` set (ct_jobs c)" by (auto simp: created_before_def dest: set_takeWhileD)
  then show "succeeded c d" using all by (auto simp: succeeded_def list_ex_iff)
qed

definition dependency_laws :: "catalog \<Rightarrow> bool" where
  "dependency_laws c \<longleftrightarrow> dependency_rows c \<and> dependencies_ok c"

lemma dependency_laws_kept:
  assumes rows: "list_all2 (follows c) (ct_jobs c) (ct_jobs d)" and deps: "ct_deps d = ct_deps c" and ok: "dependency_laws c"
  shows "dependency_laws d"
proof -
  have old: "\<exists>r. r \<in> set (ct_jobs c) \<and> follows c r u" if "u \<in> set (ct_jobs d)" for u
    using rows that by (auto simp: list_all2_conv_all_nth in_set_conv_nth)
  note ids = follows_ids [OF rows]
  then have ids': "jr_id ` set (ct_jobs d) = jr_id ` set (ct_jobs c)" by (metis set_map)
  have before: "created_before d = created_before c" by (intro ext) (simp add: created_before_def ids)
  have "dependency_rows d"
    using ok old unfolding dependency_laws_def dependency_rows_def deps ids' list_all_iff by (fastforce simp: follows_def)
  moreover have "dependencies_ok d"
    unfolding dependencies_ok_def list_all_iff before
  proof
    fix u assume "u \<in> set (ct_jobs d)"
    then obtain r where r: "r \<in> set (ct_jobs c)" and f: "follows c r u" using old by blast
    have "list_all (succeeded c) (js_deps (jr_spec r))" if "jr_attempt u \<noteq> 0"
      using ok r f that not_waiting [of c r] unfolding dependency_laws_def dependencies_ok_def list_all_iff follows_def by metis
    then have "jr_attempt u \<noteq> 0 \<longrightarrow> (\<forall>d' \<in> set (js_deps (jr_spec u)). succeeded d d')"
      using f succeeded_follows [OF rows] by (simp add: list_all_iff follows_def)
    then show "(\<forall>d' \<in> set (js_deps (jr_spec u)). d' \<in> set (created_before c (jr_id u))) \<and>
        (jr_attempt u \<noteq> 0 \<longrightarrow> (\<forall>d' \<in> set (js_deps (jr_spec u)). succeeded d d'))"
      using ok r f by (simp add: dependency_laws_def dependencies_ok_def list_all_iff follows_def)
  qed
  ultimately show ?thesis by (simp add: dependency_laws_def)
qed

lemma created_before_append:
  "i \<in> jr_id ` set rs \<Longrightarrow> takeWhile (\<lambda>j. j \<noteq> i) (map jr_id (rs @ [r])) = takeWhile (\<lambda>j. j \<noteq> i) (map jr_id rs)"
  by (induction rs) (auto simp del: map_append)

lemma created_before_new:
  "jr_id r \<notin> jr_id ` set rs \<Longrightarrow> takeWhile (\<lambda>j. j \<noteq> jr_id r) (map jr_id (rs @ [r])) = map jr_id rs"
  by (induction rs) auto

lemma created_tables:
  "ct_jobs (insert_job s time actor c) = ct_jobs c @ [new_job s time]"
  "ct_deps (insert_job s time actor c) = ct_deps c @ map (Pair (job_id_of s)) (js_deps s)"
  "jr_id (new_job s time) = job_id_of s" "jr_spec (new_job s time) = s" "jr_attempt (new_job s time) = 0"
  "jr_state (new_job s time) = QUEUED" "jr_artifact_set (new_job s time) = None"
  by (simp_all add: insert_job_def insert_transition_def new_job_def)

lemma dependency_laws_created:
  assumes fresh: "find_job (job_id_of s) c = None" and known: "list_all (\<lambda>i. find_job i c \<noteq> None) (js_deps s)"
    and ok: "dependency_laws c"
  shows "dependency_laws (insert_job s time actor c)"
proof -
  let ?d = "insert_job s time actor c"
  have new: "job_id_of s \<notin> jr_id ` set (ct_jobs c)" using fresh by (simp add: find_job_None)
  have other: "jr_id r \<noteq> job_id_of s" if "r \<in> set (ct_jobs c)" for r using new that by (metis imageI)
  have none: "filter (\<lambda>(i, d). i = job_id_of s) (ct_deps c) = []"
    using ok new by (auto simp: dependency_laws_def dependency_rows_def list_all_iff filter_empty_conv)
  have own: "filter (\<lambda>(i, d). i = j) (map (Pair k) ds) = (if j = k then map (Pair k) ds else [])" for j k :: string and ds :: "string list"
    by (induction ds) auto
  have "dependency_rows ?d"
    using ok other by (auto simp: dependency_laws_def dependency_rows_def created_tables own none comp_def list_all_iff)
  moreover have "succeeded ?d i" if "succeeded c i" for i
    using that by (auto simp: succeeded_def created_tables)
  moreover have "created_before ?d (jr_id r) = created_before c (jr_id r)" if "r \<in> set (ct_jobs c)" for r
    using created_before_append [of "jr_id r" "ct_jobs c" "new_job s time"] that by (simp add: created_before_def created_tables)
  moreover have "created_before ?d (job_id_of s) = map jr_id (ct_jobs c)"
    using created_before_new [of "new_job s time" "ct_jobs c"] new by (simp add: created_before_def created_tables)
  moreover have "i \<in> jr_id ` set (ct_jobs c)" if "i \<in> set (js_deps s)" for i
    using known that by (simp add: list_all_iff find_job_None)
  ultimately show ?thesis
    using ok by (simp add: dependency_laws_def dependencies_ok_def list_all_iff created_tables)
qed

lemma dependency_laws_change: "catalog_change c c' \<Longrightarrow> distinct_ids c \<Longrightarrow> dependency_laws c \<Longrightarrow> dependency_laws c'"
  by (erule (1) change_rows) (simp_all add: dependency_laws_created dependency_laws_kept)

interpretation dependency: catalog_invariant dependency_laws
proof unfold_locales
  show "dependency_laws empty_catalog"
    by (simp add: dependency_laws_def dependency_rows_def dependencies_ok_def empty_catalog_def)
qed (rule dependency_laws_change)

end
