(* ===== verification/Job_Commits.thy ===== *)
theory Job_Commits
  imports Job_Scheduling
begin

text \<open>
  Committed artifacts, the lease of a worker, what the sweeps of the scheduler leave behind, the choice of
  a claim, and the idempotency of a creation.
\<close>

section \<open>Artifacts\<close>

text \<open>The committed set of a job is the set of its artifacts; a job without one has none.\<close>

definition committed :: "string \<Rightarrow> string option \<Rightarrow> catalog \<Rightarrow> bool" where
  "committed i s c \<longleftrightarrow>
    (if s = None then artifacts_of i c = [] else artifacts_of i c \<noteq> [] \<and> s = Some (artifact_set_id (artifacts_of i c)))"

definition commits :: "catalog \<Rightarrow> (string \<times> string option) list" where
  "commits c = map (\<lambda>r. (jr_id r, jr_artifact_set r)) (ct_jobs c)"

definition artifacts_ok :: "catalog \<Rightarrow> bool" where
  "artifacts_ok c \<longleftrightarrow>
    list_all (\<lambda>(i, s). committed i s c) (commits c) \<and>
    list_all (\<lambda>(i, a). i \<in> fst ` set (commits c)) (ct_artifacts c) \<and>
    distinct (map (\<lambda>(i, a). artifact_id a) (ct_artifacts c)) \<and> distinct (map (\<lambda>(i, a). (i, ja_path a)) (ct_artifacts c))"

definition commit_laws :: "catalog \<Rightarrow> bool" where
  "commit_laws c \<longleftrightarrow> lifelines c \<and> artifacts_ok c"

lemma commit_keys: "fst ` set (commits c) = jr_id ` set (ct_jobs c)"
  by (simp add: commits_def image_image)

lemma commits_kept [simp]:
  "(\<And>r. jr_id (f r) = jr_id r) \<Longrightarrow> (\<And>r. jr_artifact_set (f r) = jr_artifact_set r) \<Longrightarrow> commits (update_job i f c) = commits c"
  "(\<And>r. jr_id (f r) = jr_id r) \<Longrightarrow> (\<And>r. jr_artifact_set (f r) = jr_artifact_set r) \<Longrightarrow>
    commits (move_job r f t n actor time reason c) = commits c"
  "commits (c\<lparr>ct_schema := v\<rparr>) = commits c" "commits (c\<lparr>ct_checkpoints := ks\<rparr>) = commits c"
  by (simp_all add: commits_def update_job_def move_job_def insert_transition_def)

lemma sets_kept [simp]:
  "jr_artifact_set (release r) = jr_artifact_set r" "jr_artifact_set (with_error n e m r) = jr_artifact_set r"
  "jr_artifact_set (leased owner k time expires limit r) = jr_artifact_set r"
  by (simp_all add: release_def with_error_def leased_def)

lemma artifacts_kept: "ct_artifacts d = ct_artifacts c \<Longrightarrow> commits d = commits c \<Longrightarrow> artifacts_ok c \<Longrightarrow> artifacts_ok d"
proof -
  assume same: "ct_artifacts d = ct_artifacts c" "commits d = commits c" and ok: "artifacts_ok c"
  have "committed i s d = committed i s c" for i s using same(1) by (simp add: committed_def artifacts_of_def)
  then show ?thesis using ok by (simp add: artifacts_ok_def same)
qed

lemma inserted_distinct:
  "insert_artifacts i as rows = Inr rows' \<Longrightarrow> distinct (map (\<lambda>(i, a). artifact_id a) rows) \<Longrightarrow> distinct (map (\<lambda>(i, a). (i, ja_path a)) rows) \<Longrightarrow>
    distinct (map (\<lambda>(i, a). artifact_id a) rows') \<and> distinct (map (\<lambda>(i, a). (i, ja_path a)) rows')"
proof (induction "as" arbitrary: rows)
  case (Cons a "as")
  have new: "\<not> list_ex (\<lambda>(j, b). artifact_id b = artifact_id a) rows" "\<not> list_ex (\<lambda>(j, b). j = i \<and> ja_path b = ja_path a) rows"
    and rest: "insert_artifacts i as (rows @ [(i, a)]) = Inr rows'"
    using Cons.prems(1) by (auto split: if_splits)
  show ?case
    using new Cons.prems(2,3) by (intro Cons.IH [OF rest]) (auto simp: list_ex_iff)
qed simp

lemma artifacts_of_added:
  "artifacts_of j (c\<lparr>ct_artifacts := ct_artifacts c @ map (Pair i) as\<rparr>) =
    (if j = i then sort_key artifact_id (map snd (filter (\<lambda>(k, a). k = i) (ct_artifacts c)) @ as) else artifacts_of j c)"
proof -
  have "filter (\<lambda>(k, a). k = j) (map (Pair i) as) = (if j = i then map (Pair i) as else [])"
    by (induction "as") auto
  then show ?thesis by (simp add: artifacts_of_def comp_def)
qed

lemma artifacts_of_move [simp]: "artifacts_of j (move_job r f t n actor time reason c) = artifacts_of j c"
  by (simp add: artifacts_of_def)

lemma artifacts_succeeded:
  assumes ok: "commit_laws c" and r: "find_job (jr_id r) c = Some r" "jr_state r = RUNNING" and ids: "distinct_ids c"
    and new: "artifacts \<noteq> []" "sorted (map artifact_id artifacts)" "insert_artifacts (jr_id r) artifacts (ct_artifacts c) = Inr rows"
  shows "artifacts_ok (move_job r (\<lambda>r. (with_error None None None (release r))\<lparr>jr_artifact_set := Some (artifact_set_id artifacts)\<rparr>)
      SUCCEEDED n actor time reason (c\<lparr>ct_artifacts := rows\<rparr>))" (is "artifacts_ok ?d")
proof -
  have rows: "rows = ct_artifacts c @ map (Pair (jr_id r)) artifacts" using new(3) by (rule insert_artifacts_grows)
  have mem: "r \<in> set (ct_jobs c)" using r(1) by (rule find_job_member)
  then have "row_ok r" using ok by (simp add: commit_laws_def lifelines_def list_all_iff)
  then have "jr_artifact_set r = None" using r(2) by (simp add: row_ok_def)
  moreover have "committed (jr_id r) (jr_artifact_set r) c"
    using ok mem by (auto simp: commit_laws_def artifacts_ok_def commits_def list_all_iff)
  ultimately have "artifacts_of (jr_id r) c = []" by (simp add: committed_def)
  then have "sort_key artifact_id (map snd (filter (\<lambda>(k, a). k = jr_id r) (ct_artifacts c))) = []"
    by (simp add: artifacts_of_def)
  then have none: "map snd (filter (\<lambda>(k, a). k = jr_id r) (ct_artifacts c)) = []"
    by (metis length_0_conv length_sort)
  have own: "artifacts_of (jr_id r) ?d = artifacts"
    unfolding artifacts_of_move rows artifacts_of_added none using new(2) by (simp add: sort_key_id_if_sorted)
  have other: "artifacts_of j ?d = artifacts_of j c" if "j \<noteq> jr_id r" for j
    unfolding artifacts_of_move rows artifacts_of_added using that by simp
  have sets: "commits ?d = map (\<lambda>(i, s). (i, if i = jr_id r then Some (artifact_set_id artifacts) else s)) (commits c)"
    by (simp add: commits_def move_job_def update_job_def insert_transition_def)
  have keys: "fst ` set (commits ?d) = fst ` set (commits c)"
    unfolding sets by force
  have "list_all (\<lambda>(i, s). committed i s ?d) (commits ?d)"
    unfolding sets list_all_iff
  proof (intro ballI)
    fix p assume "p \<in> set (map (\<lambda>(i, s). (i, if i = jr_id r then Some (artifact_set_id artifacts) else s)) (commits c))"
    then obtain i s where p: "p = (i, if i = jr_id r then Some (artifact_set_id artifacts) else s)" and m: "(i, s) \<in> set (commits c)"
      by auto
    have old: "committed i s c" using ok m by (auto simp: commit_laws_def artifacts_ok_def list_all_iff)
    show "case p of (i, s) \<Rightarrow> committed i s ?d"
    proof (cases "i = jr_id r")
      case True
      then show ?thesis using own new(1) by (simp add: p committed_def del: artifacts_of_move)
    next
      case False
      then show ?thesis using old other [OF False] by (simp add: p committed_def del: artifacts_of_move)
    qed
  qed
  moreover have "list_all (\<lambda>(i, a). i \<in> fst ` set (commits ?d)) (ct_artifacts ?d)"
    using ok mem unfolding keys by (auto simp: commit_laws_def artifacts_ok_def list_all_iff rows commit_keys)
  moreover have "distinct (map (\<lambda>(i, a). artifact_id a) (ct_artifacts ?d)) \<and> distinct (map (\<lambda>(i, a). (i, ja_path a)) (ct_artifacts ?d))"
    using inserted_distinct [OF new(3)] ok by (simp add: commit_laws_def artifacts_ok_def)
  ultimately show ?thesis by (simp add: artifacts_ok_def)
qed

lemma artifacts_created:
  assumes ok: "artifacts_ok c" and fresh: "find_job (job_id_of s) c = None"
  shows "artifacts_ok (insert_job s time actor c)" (is "artifacts_ok ?d")
proof -
  have rows: "commits ?d = commits c @ [(job_id_of s, None)]" by (simp add: commits_def created_tables)
  have "job_id_of s \<notin> fst ` set (commits c)" using fresh by (simp add: find_job_None commit_keys)
  then have none: "filter (\<lambda>(k, a). k = job_id_of s) (ct_artifacts c) = []"
    using ok by (auto simp: artifacts_ok_def list_all_iff filter_empty_conv)
  have "committed i t ?d = committed i t c" for i t by (simp add: committed_def artifacts_of_def)
  moreover have "committed (job_id_of s) None c" by (simp add: committed_def artifacts_of_def none)
  moreover have "list_all (\<lambda>(i, a). i \<in> fst ` set (commits ?d)) (ct_artifacts c)"
    using ok unfolding artifacts_ok_def list_all_iff rows by fastforce
  ultimately show ?thesis using ok by (simp add: artifacts_ok_def rows)
qed

lemma artifacts_change: "catalog_change c c' \<Longrightarrow> distinct_ids c \<Longrightarrow> commit_laws c \<Longrightarrow> artifacts_ok c'"
proof -
  assume step: "catalog_change c c'" and ids: "distinct_ids c" and ok: "commit_laws c"
  have kept: "ct_artifacts c' = ct_artifacts c \<Longrightarrow> commits c' = commits c \<Longrightarrow> artifacts_ok c'"
    using ok by (simp add: commit_laws_def artifacts_kept [of c' c])
  from step show "artifacts_ok c'"
  proof (cases rule: catalog_change.cases)
    case (Created s time actor)
    then show ?thesis using ok by (simp add: commit_laws_def artifacts_created)
  next
    case (Succeeded r artifacts rows actor time reason)
    then show ?thesis using ok ids by (simp add: artifacts_succeeded)
  qed (rule kept; simp)+
qed

interpretation commitment: catalog_invariant commit_laws
proof unfold_locales
  show "commit_laws empty_catalog"
    by (simp add: commit_laws_def artifacts_ok_def commits_def lifelines_def empty_catalog_def)
  show "catalog_change c c' \<Longrightarrow> distinct_ids c \<Longrightarrow> commit_laws c \<Longrightarrow> commit_laws c'" for c c'
    using artifacts_change lifelines_change by (auto simp: commit_laws_def)
qed

text \<open>Read off the rows: exactly the succeeded jobs have artifacts, and they are the committed set.\<close>

definition results_committed :: "catalog \<Rightarrow> bool" where
  "results_committed c \<longleftrightarrow>
    list_all (\<lambda>r. if jr_state r = SUCCEEDED
      then artifacts_of (jr_id r) c \<noteq> [] \<and> jr_artifact_set r = Some (artifact_set_id (artifacts_of (jr_id r) c))
      else artifacts_of (jr_id r) c = [] \<and> jr_artifact_set r = None) (ct_jobs c) \<and>
    list_all (\<lambda>(i, a). i \<in> jr_id ` set (ct_jobs c)) (ct_artifacts c) \<and>
    distinct (map (\<lambda>(i, a). artifact_id a) (ct_artifacts c)) \<and> distinct (map (\<lambda>(i, a). (i, ja_path a)) (ct_artifacts c))"

lemma commit_laws_results: "commit_laws c \<Longrightarrow> results_committed c"
proof -
  assume ok: "commit_laws c"
  have "(if jr_state r = SUCCEEDED
      then artifacts_of (jr_id r) c \<noteq> [] \<and> jr_artifact_set r = Some (artifact_set_id (artifacts_of (jr_id r) c))
      else artifacts_of (jr_id r) c = [] \<and> jr_artifact_set r = None)" if r: "r \<in> set (ct_jobs c)" for r
  proof -
    have "row_ok r" using ok r by (simp add: commit_laws_def lifelines_def list_all_iff)
    then have "(jr_state r = SUCCEEDED) = (jr_artifact_set r \<noteq> None)" by (simp add: row_ok_def)
    moreover have "committed (jr_id r) (jr_artifact_set r) c"
      using ok r by (auto simp: commit_laws_def artifacts_ok_def commits_def list_all_iff)
    ultimately show ?thesis by (auto simp: committed_def)
  qed
  then show ?thesis using ok by (simp add: results_committed_def commit_laws_def artifacts_ok_def commit_keys list_all_iff)
qed

section \<open>Leases\<close>

text \<open>The calls of a worker: the job, the token it presents and the time.\<close>

fun worker_call :: "catalog_call \<Rightarrow> (string \<times> string option \<times> string) option" where
  "worker_call (Heartbeat i token time seconds) = Some (i, Some token, time)"
| "worker_call (Finish_Cancelled i actor time reason token) = Some (i, token, time)"
| "worker_call (Fail_Job i actor time code message token) = Some (i, token, time)"
| "worker_call (Schedule_Retry i actor time reason code token) = Some (i, token, time)"
| "worker_call (Quarantine_Job i actor time reason token) = Some (i, token, time)"
| "worker_call (Succeed_Job i actor time token artifacts) = Some (i, Some token, time)"
| "worker_call (Save_Checkpoint i token time position completed units payload result) = Some (i, Some token, time)"
| "worker_call call = None"

lemma simple_transition_lease:
  assumes "simple_transition W i target actor time reason token clear code message not_before c = Inr (x, c')"
    and "find_job i c = Some r" and "jr_token r = Some t" and "target \<noteq> CANCELLING"
  shows "token = Some t \<and> time_reached W time (jr_expires r) = Inr False"
  using assms(1)
proof (cases rule: simple_transition_Inr)
  case (1 d q)
  then have "q = r" using initialize_find [OF 1(1), of i] assms(2) by simp
  then show ?thesis using 1(4) assms(3,4) assert_lease_Inr by fastforce
qed

lemma lease_needed:
  assumes "perform_call W call c = Inr c'" and "worker_call call = Some (i, token, time)"
    and "find_job i c = Some r" and "jr_token r = Some t" and "jr_state r \<noteq> SUCCEEDED"
  shows "token = Some t \<and> time_reached W time (jr_expires r) = Inr False"
proof -
  have found: "d = r" if "initialize c = Inr e" "find_job i e = Some d" for d e
    using initialize_find [OF that(1), of i] assms(3) that(2) by simp
  note defs = catalog_of_Inr sbind_eq_Inr job_row_Inr
  show ?thesis
  proof (cases call)
    case (Heartbeat j u at_time seconds)
    then show ?thesis using assms found by (auto simp: defs heartbeat_def split: if_splits dest!: assert_lease_Inr)
  next
    case (Finish_Cancelled j actor at_time reason u)
    then show ?thesis using assms by (auto simp: defs finish_cancelled_def dest!: simple_transition_lease)
  next
    case (Fail_Job j actor at_time code message u)
    then show ?thesis using assms by (auto simp: defs fail_job_def dest!: simple_transition_lease)
  next
    case (Schedule_Retry j actor at_time reason code u)
    then show ?thesis using assms by (auto simp: defs schedule_retry_def dest!: simple_transition_lease)
  next
    case (Quarantine_Job j actor at_time reason u)
    then show ?thesis using assms by (auto simp: defs quarantine_job_def dest!: simple_transition_lease)
  next
    case (Succeed_Job j actor at_time u artifacts)
    then obtain x where "succeed_job W i actor time u artifacts c = Inr (x, c')" "token = Some u"
      using assms(1,2) by (auto simp: defs)
    from this(1) show ?thesis
    proof (cases rule: succeed_job_Inr)
      case (1 d q)
      then show ?thesis using found assms(5) by blast
    next
      case (2 d q rows)
      then show ?thesis using found [of d q] assert_lease_Inr [of W q u time] assms(4) \<open>token = Some u\<close> by auto
    qed
  next
    case (Save_Checkpoint j u at_time position completed units payload result)
    then obtain x where "save_checkpoint W i u time position completed units payload result c = Inr (x, c')" "token = Some u"
      using assms(1,2) by (auto simp: defs)
    from this(1) show ?thesis
      by (cases rule: save_checkpoint_Inr)
        (use found assert_lease_Inr assms(4) \<open>token = Some u\<close> in \<open>fastforce\<close>)+
  qed (use assms(2) in simp_all)
qed

end
