(* ===== verification/Job_Sweeps.thy ===== *)
theory Job_Sweeps
  imports Job_Commits
begin

text \<open>
  The scheduler on a reachable catalog: after the sweeps nothing is overdue, a claim takes the first
  runnable job, and creating a job twice is creating it once.
\<close>

section \<open>Sweeps\<close>

definition active :: "job_record \<Rightarrow> bool" where
  "active r \<longleftrightarrow> jr_state r \<in> {RUNNING, CANCELLING}"

definition pending :: "job_record \<Rightarrow> bool" where
  "pending r \<longleftrightarrow> jr_state r \<in> {QUEUED, RETRYING}"

lemma row_of_give_up:
  assumes "find_job (jr_id r) c = Some r" and "ends_attempt v"
  shows "find_job (jr_id r) (give_up time actor r v c) = Some u \<Longrightarrow> \<not> active u"
  using assms by (cases v) (auto simp: give_up_def find_job_move active_def ends_attempt_def)

lemma row_of_expire:
  assumes "find_job (jr_id r) c = Some r"
  shows "find_job (jr_id r) (expire_job time actor r c) = Some u \<Longrightarrow> \<not> pending u"
  using assms by (auto simp: expire_job_def find_job_move pending_def)

text \<open>A row that is still active after the sweep is unchanged, and its lease has not expired.\<close>

lemma reclaim_each_active:
  "reclaim_each W time actor rs c = Inr (x, c') \<Longrightarrow> distinct (map jr_id rs) \<Longrightarrow>
    list_all (\<lambda>r. find_job (jr_id r) c = Some r) rs \<Longrightarrow> find_job j c' = Some u \<Longrightarrow> active u \<Longrightarrow>
    find_job j c = Some u \<and> (j \<in> jr_id ` set rs \<longrightarrow> time_reached W time (jr_expires u) = Inr False)"
proof (induction rs arbitrary: c x)
  case (Cons r rs)
  obtain expired where e: "time_reached W time (jr_expires r) = Inr expired"
    using Cons.prems(1) by (auto simp: sbind_eq_Inr)
  have r: "find_job (jr_id r) c = Some r" using Cons.prems(3) by simp
  show ?case
  proof (cases expired)
    case False
    then have "find_job j c = Some u \<and> (j \<in> jr_id ` set rs \<longrightarrow> time_reached W time (jr_expires u) = Inr False)"
      using Cons e by simp
    then show ?thesis using r e False by auto
  next
    case True
    with Cons.prems(1) e obtain v y where v: "orphan_verdict W time r = Inr v"
      and rest: "reclaim_each W time actor rs (give_up time actor r v c) = Inr (y, c')"
      by (auto simp: sbind_eq_Inr Let_def)
    have "find_job j (give_up time actor r v c) = Some u \<and> (j \<in> jr_id ` set rs \<longrightarrow> time_reached W time (jr_expires u) = Inr False)"
    proof (rule Cons.IH [OF rest])
      show "list_all (\<lambda>s. find_job (jr_id s) (give_up time actor r v c) = Some s) rs"
        unfolding list_all_iff
      proof
        fix s assume s: "s \<in> set rs"
        then have "jr_id s \<noteq> jr_id r" using Cons.prems(2) by (auto simp: rev_image_eqI)
        with s Cons.prems(3) show "find_job (jr_id s) (give_up time actor r v c) = Some s"
          by (simp add: list_all_iff find_job_give_up)
      qed
    qed (use Cons.prems in simp_all)
    moreover from this have "j \<noteq> jr_id r"
      using row_of_give_up [OF r orphan_verdict_ends [OF v]] Cons.prems(5) by auto
    ultimately show ?thesis by (auto simp: find_job_give_up)
  qed
qed simp

lemma expire_each_pending:
  "expire_each W time actor rs c = Inr (x, c') \<Longrightarrow> distinct (map jr_id rs) \<Longrightarrow>
    list_all (\<lambda>r. find_job (jr_id r) c = Some r) rs \<Longrightarrow> find_job j c' = Some u \<Longrightarrow> pending u \<Longrightarrow>
    find_job j c = Some u \<and> (j \<in> jr_id ` set rs \<longrightarrow> time_reached W time (js_deadline (jr_spec u)) = Inr False)"
proof (induction rs arbitrary: c x)
  case (Cons r rs)
  obtain late where e: "time_reached W time (js_deadline (jr_spec r)) = Inr late"
    using Cons.prems(1) by (auto simp: sbind_eq_Inr)
  have r: "find_job (jr_id r) c = Some r" using Cons.prems(3) by simp
  show ?case
  proof (cases late)
    case False
    then have "find_job j c = Some u \<and> (j \<in> jr_id ` set rs \<longrightarrow> time_reached W time (js_deadline (jr_spec u)) = Inr False)"
      using Cons e by simp
    then show ?thesis using r e False by auto
  next
    case True
    with Cons.prems(1) e obtain y where rest: "expire_each W time actor rs (expire_job time actor r c) = Inr (y, c')"
      by (auto simp: sbind_eq_Inr Let_def)
    have "find_job j (expire_job time actor r c) = Some u \<and>
        (j \<in> jr_id ` set rs \<longrightarrow> time_reached W time (js_deadline (jr_spec u)) = Inr False)"
    proof (rule Cons.IH [OF rest])
      show "list_all (\<lambda>s. find_job (jr_id s) (expire_job time actor r c) = Some s) rs"
        unfolding list_all_iff
      proof
        fix s assume s: "s \<in> set rs"
        then have "jr_id s \<noteq> jr_id r" using Cons.prems(2) by (auto simp: rev_image_eqI)
        with s Cons.prems(3) show "find_job (jr_id s) (expire_job time actor r c) = Some s"
          by (simp add: list_all_iff find_job_expire)
      qed
    qed (use Cons.prems in simp_all)
    moreover from this have "j \<noteq> jr_id r" using row_of_expire [OF r] Cons.prems(5) by auto
    ultimately show ?thesis by (auto simp: find_job_expire)
  qed
qed simp

lemma reclaimed:
  assumes "reclaim_orphans W time actor c = Inr (x, c')" and "distinct_ids c"
  shows "list_all (\<lambda>r. if active r then time_reached W time (jr_expires r) = Inr False else True) (ct_jobs c')"
proof -
  obtain d where d: "initialize c = Inr d" and e: "reclaim_each W time actor (leased_rows d) d = Inr (x, c')"
    using assms(1) by (auto simp: reclaim_orphans_def sbind_eq_Inr)
  note ids = distinct_ids_initialize [OF d assms(2)]
  have "distinct_ids c'"
    using scheduler_changes(2) [OF assms(2,1)] distinct_ids_changes assms(2) by blast
  have "time_reached W time (jr_expires u) = Inr False" if u: "u \<in> set (ct_jobs c')" "active u" for u
  proof -
    have found: "find_job (jr_id u) c' = Some u" using \<open>distinct_ids c'\<close> u(1) by (rule find_job_of_member)
    have "find_job (jr_id u) d = Some u \<and> (jr_id u \<in> jr_id ` set (leased_rows d) \<longrightarrow> time_reached W time (jr_expires u) = Inr False)"
      using e distinct_sorted_ids [OF ids] find_job_of_member [OF ids] found u(2)
      by (intro reclaim_each_active) (auto simp: leased_rows_def list_all_iff)
    then show ?thesis
      using u(2) find_job_member by (cases "jr_expires u") (auto simp: leased_rows_def active_def time_reached_def)
  qed
  then show ?thesis by (simp add: list_all_iff)
qed

lemma expired:
  assumes "expire_pending_deadlines W time actor c = Inr (x, c')" and "distinct_ids c"
  shows "list_all (\<lambda>r. if pending r then time_reached W time (js_deadline (jr_spec r)) = Inr False else True) (ct_jobs c')"
proof -
  obtain d where d: "initialize c = Inr d" and e: "expire_each W time actor (pending_deadlines d) d = Inr (x, c')"
    using assms(1) by (auto simp: expire_pending_deadlines_def sbind_eq_Inr)
  note ids = distinct_ids_initialize [OF d assms(2)]
  have "distinct_ids c'"
    using scheduler_changes(1) [OF assms(2,1)] distinct_ids_changes assms(2) by blast
  have "time_reached W time (js_deadline (jr_spec u)) = Inr False" if u: "u \<in> set (ct_jobs c')" "pending u" for u
  proof -
    have found: "find_job (jr_id u) c' = Some u" using \<open>distinct_ids c'\<close> u(1) by (rule find_job_of_member)
    have "find_job (jr_id u) d = Some u \<and>
        (jr_id u \<in> jr_id ` set (pending_deadlines d) \<longrightarrow> time_reached W time (js_deadline (jr_spec u)) = Inr False)"
      using e distinct_sorted_ids [OF ids] find_job_of_member [OF ids] found u(2)
      by (intro expire_each_pending) (auto simp: pending_deadlines_def list_all_iff)
    then show ?thesis
      using u(2) find_job_member by (cases "js_deadline (jr_spec u)") (auto simp: pending_deadlines_def pending_def time_reached_def)
  qed
  then show ?thesis by (simp add: list_all_iff)
qed

text \<open>Expiring pending jobs makes none active.\<close>

lemma expire_each_active:
  "expire_each W time actor rs c = Inr (x, c') \<Longrightarrow> find_job j c' = Some u \<Longrightarrow> active u \<Longrightarrow> find_job j c = Some u"
proof (induction rs arbitrary: c x)
  case (Cons r rs)
  obtain late where e: "time_reached W time (js_deadline (jr_spec r)) = Inr late"
    using Cons.prems(1) by (auto simp: sbind_eq_Inr)
  show ?case
  proof (cases late)
    case False
    then show ?thesis using Cons e by simp
  next
    case True
    with Cons.prems(1) e obtain y where "expire_each W time actor rs (expire_job time actor r c) = Inr (y, c')"
      by (auto simp: sbind_eq_Inr Let_def)
    then have "find_job j (expire_job time actor r c) = Some u" using Cons by blast
    then show ?thesis using Cons.prems(3) by (auto simp: expire_job_def find_job_move active_def split: if_splits)
  qed
qed simp

lemma swept:
  assumes "reclaim_orphans W time actor c = Inr (x, d)" and "expire_pending_deadlines W time actor d = Inr (y, e)" and "distinct_ids c"
  shows "list_all (\<lambda>r. if active r then time_reached W time (jr_expires r) = Inr False
    else if pending r then time_reached W time (js_deadline (jr_spec r)) = Inr False else True) (ct_jobs e)"
proof -
  have d: "distinct_ids d" using scheduler_changes(2) [OF assms(3,1)] distinct_ids_changes assms(3) by blast
  then have e: "distinct_ids e" using scheduler_changes(1) [OF d assms(2)] distinct_ids_changes by blast
  obtain d' where d': "initialize d = Inr d'" "expire_each W time actor (pending_deadlines d') d' = Inr (y, e)"
    using assms(2) by (auto simp: expire_pending_deadlines_def sbind_eq_Inr)
  have "time_reached W time (jr_expires u) = Inr False" if u: "u \<in> set (ct_jobs e)" "active u" for u
  proof -
    have "find_job (jr_id u) d' = Some u"
      using expire_each_active [OF d'(2) find_job_of_member [OF e u(1)] u(2)] .
    then have "u \<in> set (ct_jobs d)" using find_job_member by (simp add: initialize_find [OF d'(1)])
    then show ?thesis using reclaimed [OF assms(1,3)] u(2) by (auto simp: list_all_iff)
  qed
  then show ?thesis using expired [OF assms(2) d] by (auto simp: list_all_iff)
qed

section \<open>Claims\<close>

lemma runnable_initialize: "initialize c = Inr d \<Longrightarrow> runnable W kinds time d = runnable W kinds time c"
  using initialize_jobs [of c d] by (intro ext) (simp add: runnable_def waits_def)

text \<open>The claimed row before and after.\<close>

definition claims_first :: "clockwork \<Rightarrow> job_kind list \<Rightarrow> string \<Rightarrow> string \<Rightarrow> catalog \<Rightarrow> job_record \<Rightarrow> bool" where
  "claims_first W kinds worker time c u \<longleftrightarrow>
    (case find_job (jr_id u) c of
       None \<Rightarrow> False
     | Some r \<Rightarrow> runnable W kinds time c r \<and>
         list_all (\<lambda>s. if runnable W kinds time c s then claim_order W r \<le> claim_order W s else True) (ct_jobs c) \<and>
         jr_state u = RUNNING \<and> jr_attempt u = jr_attempt r + 1 \<and> jr_owner u = Some worker \<and> jr_spec u = jr_spec r \<and>
         jr_token u = Some (lease_token (jr_id r) (jr_attempt r + 1) time worker) \<and> jr_acquired u = Some time)"

lemma claim_taken:
  assumes "claim_next W worker time seconds kinds c = Inr (x, c')" and "distinct_ids c"
    and "(case kinds of None \<Rightarrow> Inr all_job_kinds | Some vs \<Rightarrow> sseq (map job_kind_of vs)) = Inr accepted"
  shows "case x of
      None \<Rightarrow> \<not> list_ex (runnable W accepted time c) (ct_jobs c) \<and> ct_jobs c' = ct_jobs c
    | Some u \<Rightarrow> claims_first W accepted worker time c u \<and> find_job (jr_id u) c' = Some u"
proof -
  obtain d where d: "initialize c = Inr d" and rest: "(case next_runnable W accepted time d of
      None \<Rightarrow> Inr (None, d) | Some r \<Rightarrow> claim_job W worker time seconds r d) = Inr (x, c')"
    using assms(1,3) by (auto simp: claim_next_def sbind_eq_Inr split: if_splits)
  have jobs: "ct_jobs d = ct_jobs c" using initialize_jobs [OF d] by simp
  note same = runnable_initialize [OF d, of W accepted time]
  show ?thesis
  proof (cases "next_runnable W accepted time d")
    case None
    have "x = None" "c' = d" using rest by (auto simp: None)
    then show ?thesis using None next_runnable_None [of W accepted time d] by (simp add: same jobs)
  next
    case (Some r)
    have found: "find_job (jr_id r) d = Some r"
      using next_runnable_Some(1) [OF Some] distinct_ids_initialize [OF d assms(2)] find_job_of_member by blast
    then have here: "find_job (jr_id r) c = Some r" by (simp add: initialize_find [OF d])
    have first: "list_all (\<lambda>s. if runnable W accepted time c s then claim_order W r \<le> claim_order W s else True) (ct_jobs c)"
      using next_runnable_Some(3) [OF Some] by (simp add: list_all_iff same jobs)
    obtain expires limit where c': "c' = move_job r (leased worker (jr_attempt r + 1) time expires limit) RUNNING (jr_attempt r + 1) worker time ''lease_acquired'' d"
      and x: "x = find_job (jr_id r) c'"
      using rest by (auto simp: Some claim_job_def Let_def sbind_eq_Inr)
    have "x = Some ((leased worker (jr_attempt r + 1) time expires limit r)\<lparr>jr_state := RUNNING, jr_updated := time\<rparr>)"
      unfolding x unfolding c' using found by (simp add: find_job_move)
    then show ?thesis
      using next_runnable_Some(2) [OF Some] here first x
      by (simp add: claims_first_def same leased_def)
  qed
qed

section \<open>Creations\<close>

definition versioned :: "catalog \<Rightarrow> bool" where
  "versioned c \<longleftrightarrow> ct_schema c \<in> {None, Some (Some JOB_CATALOG_SCHEMA_VERSION)}"

lemma schema_kept [simp]:
  "ct_schema (move_job r f t n actor time reason c) = ct_schema c" "ct_schema (update_job i f c) = ct_schema c"
  "ct_schema (insert_job s time actor c) = ct_schema c"
  by (simp_all add: move_job_def update_job_def insert_job_def insert_transition_def)

interpretation version: catalog_invariant versioned
proof unfold_locales
  show "versioned empty_catalog" by (simp add: versioned_def empty_catalog_def)
  show "catalog_change c c' \<Longrightarrow> distinct_ids c \<Longrightarrow> versioned c \<Longrightarrow> versioned c'" for c c'
    by (induction rule: catalog_change.induct) (simp_all add: versioned_def)
qed

lemma find_prefix:
  "prefix_of (map f xs) (map f ys) \<Longrightarrow> find (\<lambda>x. P (f x)) xs = Some x \<Longrightarrow> \<exists>y. find (\<lambda>y. P (f y)) ys = Some y \<and> f y = f x"
proof (induction xs arbitrary: ys)
  case (Cons a xs)
  then obtain b ys' where ys: "ys = b # ys'" "f b = f a" "prefix_of (map f xs) (map f ys')"
    by (cases ys) (auto simp: prefix_of_def)
  then show ?case using Cons by (auto split: if_splits)
qed simp

lemma created_row:
  assumes "create_job W s time actor c = Inr (r, c')"
  shows "find (\<lambda>r. js_key (jr_spec r) = js_key s) (ct_jobs c') = Some r \<and> spec_json (jr_spec r) = spec_json s \<and> ct_schema c' \<noteq> None"
proof -
  obtain d where d: "initialize c = Inr d"
    using assms unfolding create_job_def sbind_eq_Inr by blast
  then have started: "ct_schema d \<noteq> None" by (auto simp: initialize_def split: option.splits if_splits)
  have append: "find P (xs @ [y]) = Some y" if "find P xs = None" "P y" for P and xs :: "job_record list" and y
    using that by (induction xs) (auto split: if_splits)
  show ?thesis
  proof (cases "find (\<lambda>r. js_key (jr_spec r) = js_key s) (ct_jobs d)")
    case None
    then have "r = new_job s time" "c' = insert_job s time actor d"
      using assms by (auto simp: create_job_def sbind_eq_Inr d split: if_splits)
    then show ?thesis using None started by (simp add: created_tables append)
  next
    case (Some q)
    then show ?thesis using assms started by (auto simp: create_job_def sbind_eq_Inr d split: if_splits)
  qed
qed

lemma recreated:
  assumes created: "create_job W s time actor (run_calls W calls empty_catalog) = Inr (r, c)"
    and args: "check_timestamp W time' ''created_at'' = Inr u" "actor' \<noteq> []"
    and d: "d = run_calls W further c"
  shows "case create_job W s time' actor' d of Inl e \<Rightarrow> False | Inr (q, d') \<Rightarrow> jr_spec q = jr_spec r \<and> jr_id q = jr_id r \<and> d' = d"
proof -
  have c: "c = run_calls W (calls @ [Create_Job s time actor]) empty_catalog"
    using created by (simp add: run_calls_append) (simp add: run_calls_def after_job_call_def catalog_of_def)
  have d': "d = run_calls W ((calls @ [Create_Job s time actor]) @ further) empty_catalog"
    unfolding d c run_calls_append ..
  have later: "permanent c d" unfolding c d' by (rule permanence.later)
  have row: "find (\<lambda>r. js_key (jr_spec r) = js_key s) (ct_jobs c) = Some r" "spec_json (jr_spec r) = spec_json s" "ct_schema c \<noteq> None"
    using created_row [OF created] by simp_all
  then obtain q where q: "find (\<lambda>r. js_key (jr_spec r) = js_key s) (ct_jobs d) = Some q" "jr_spec q = jr_spec r"
    using find_prefix [of jr_spec "ct_jobs c" "ct_jobs d" "\<lambda>t. js_key t = js_key s"] later unfolding permanent_def by blast
  have "versioned d" unfolding d' by (rule version.run)
  then have opened: "initialize d = Inr d"
    using later row(3) by (auto simp: versioned_def permanent_def initialize_def)
  have ids: "jr_id r = job_id_of (jr_spec r)" if "lifelines e" "r \<in> set (ct_jobs e)" for r e
    using that by (simp add: lifelines_def list_all_iff row_ok_def)
  have "r \<in> set (ct_jobs c)" "q \<in> set (ct_jobs d)" using row(1) q(1) by (auto simp: find_Some_iff)
  then have "jr_id q = jr_id r"
    using ids [of c r] ids [of d q] lifeline.run q(2) unfolding c d' by simp
  then show ?thesis
    using q row(2) args by (simp add: create_job_def opened require_string_def)
qed

end
