(* ===== verification/Job_Formats.thy ===== *)
theory Job_Formats
  imports Job_Spec
begin

text \<open>
  Specifications of jobs and retry policies read back from what the catalog stores: a dictionary with the
  entries in any order, as \<open>json.loads\<close> returns it. The interface \<open>checked_format\<close> is the one of
  \<open>dict_format\<close> for values that may only be written when they are valid.
\<close>

section \<open>The interface\<close>

locale checked_format =
  fixes "write" :: "'a \<Rightarrow> pydict" and read :: "pydict \<Rightarrow> py_error + 'a" and valid :: "'a \<Rightarrow> bool"
  assumes read_valid: "distinct (map fst d) \<Longrightarrow> list_all (tidy \<circ> snd) d \<Longrightarrow> read d = Inr x \<Longrightarrow> valid x"
    and read_any_order: "valid x \<Longrightarrow> distinct (map fst d) \<Longrightarrow> list_all (tidy \<circ> snd) d \<Longrightarrow>
      canonical_entries d = canonical_entries (write x) \<Longrightarrow> read d = Inr x"
    and write_tidy: "valid x \<Longrightarrow> distinct (map fst (write x)) \<and> list_all (tidy \<circ> snd) (write x)"
    and write_safe: "valid x \<Longrightarrow> dict_safe (write x)"
begin

lemma roundtrip: "valid x \<Longrightarrow> read (write x) = Inr x"
  using write_tidy [of x] by (intro read_any_order) simp_all

lemma reread: "distinct (map fst d) \<Longrightarrow> list_all (tidy \<circ> snd) d \<Longrightarrow> read d = Inr x \<Longrightarrow> read (write x) = Inr x"
  using read_valid by (intro roundtrip)

lemma write_inject: "valid x \<Longrightarrow> valid y \<Longrightarrow> canonical_entries (write x) = canonical_entries (write y) \<Longrightarrow> x = y"
  using write_tidy [of x] read_any_order [of y "write x"] roundtrip [of x] by simp

end

sublocale dict_format \<subseteq> checked_format
  by unfold_locales (erule read_valid, rule read_any_order, simp_all only: write_tidy write_safe conj_absorb simp_thms)

section \<open>Retry policies\<close>

definition retry_number_ok :: "string \<Rightarrow> bool \<Rightarrow> bool" where
  "retry_number_ok t positive \<longleftrightarrow> float_finite t \<and> \<not> float_negative t \<and> (positive \<longrightarrow> \<not> float_zero t)"

definition retry_ok :: "clockwork \<Rightarrow> retry_policy \<Rightarrow> bool" where
  "retry_ok W p \<longleftrightarrow> retry_number_ok (rp_timeout p) True \<and> retry_number_ok (rp_initial p) False \<and> retry_number_ok (rp_multiplier p) True \<and>
    \<not> cw_less W (rp_multiplier p) ''1.0'' \<and> retry_number_ok (rp_maximum p) False \<and> \<not> cw_less W (rp_maximum p) (rp_initial p) \<and>
    [] \<notin> set (rp_codes p) \<and> distinct (rp_codes p) \<and> sorted (rp_codes p)"

lemma non_negative_number_ok: "non_negative_number W v name positive = Inr t \<Longrightarrow> retry_number_ok t positive"
  by (auto simp: non_negative_number_def retry_number_ok_def sbind_eq_Inr split: if_splits)

lemma non_negative_number_text: "retry_number_ok t positive \<Longrightarrow> non_negative_number W (PFloat t) name positive = Inr t"
  by (simp add: non_negative_number_def retry_number_ok_def to_float_def)

lemma check_strings_Inr: "sseq (map (\<lambda>c. check_string c name) vs) = Inr cs \<longleftrightarrow> vs = map PStr cs \<and> [] \<notin> set cs"
proof (induction vs arbitrary: cs)
  case (Cons v vs)
  then show ?case by (cases cs) (auto simp: sbind_eq_Inr check_string_Inr)
qed auto

lemma make_retry_policy_ok: "make_retry_policy W v raw = Inr p \<Longrightarrow> retry_ok W p"
  by (auto simp: make_retry_policy_def sbind_eq_Inr check_strings_Inr retry_ok_def split: if_splits
      dest!: non_negative_number_ok)

text \<open>A list of strings is found as it was written.\<close>

lemma strings_lookup:
  assumes "canonical_entries d = canonical_entries e" and "map_of e k = Some (PList (map PStr ss))"
    and "list_all (tidy \<circ> snd) d"
  shows "map_of d k = Some (PList (map PStr ss))"
proof -
  obtain v where v: "map_of d k = Some v" "to_canonical_data v = to_canonical_data (PList (map PStr ss))"
    using canonical_entries_lookup(2) [OF assms(1), of k] assms(2) by auto
  have tidy: "tidy v" using map_of_SomeD [OF v(1)] assms(3) by (auto simp: list_all_iff)
  have strings: "to_canonical_data x = PStr s \<longleftrightarrow> x = PStr s" for x s by (cases x) simp_all
  have "map to_canonical_data (map PStr ss) = map PStr ss" by simp
  then have "to_canonical_data v = PList (map PStr ss)" using v(2) by simp
  then obtain zs where zs: "v = PList zs" "map PStr ss = map to_canonical_data zs"
    using canonical_eq_PList [OF _ tidy] by blast
  have "zs = map PStr ss"
  proof (rule nth_equalityI)
    show "length zs = length (map PStr ss)" using arg_cong [OF zs(2), of length] by simp
    fix i assume i: "i < length zs"
    then have "to_canonical_data (zs ! i) = PStr (ss ! i)"
      using arg_cong [OF zs(2), of "\<lambda>l. l ! i"] arg_cong [OF zs(2), of length] by simp
    then show "zs ! i = map PStr ss ! i" using i arg_cong [OF zs(2), of length] by (simp add: strings)
  qed
  then show ?thesis by (simp add: v(1) zs(1))
qed

lemma dict_lookup:
  assumes "canonical_entries d = canonical_entries e" and "map_of e k = Some (PDict x)" and "list_all (tidy \<circ> snd) d"
  obtains y where "map_of d k = Some (PDict y)" "canonical_entries y = canonical_entries x" "distinct (map fst y)" "list_all (tidy \<circ> snd) y"
proof -
  obtain v where v: "map_of d k = Some v" "to_canonical_data v = to_canonical_data (PDict x)"
    using canonical_entries_lookup(2) [OF assms(1), of k] assms(2) by auto
  then have "to_canonical_data v = PDict (canonical_entries x)" by (simp only: canonical_PDict)
  then obtain y where y: "v = PDict y" "canonical_entries y = canonical_entries x"
    using canonical_eq_PDict by metis
  have "tidy v" using map_of_SomeD [OF v(1)] assms(3) by (auto simp: list_all_iff)
  then show thesis using that v(1) y by simp
qed

lemma same_keys: "canonical_entries d = canonical_entries e \<Longrightarrow> fst ` set d = fst ` set e"
  by (metis keys_canonical_entries)

lemma strings_safe [simp]: "list_all (json_safe \<circ> PStr) ss" "list_all (tidy \<circ> PStr) ss"
  by (simp_all add: list_all_iff)

interpretation retry_format: checked_format retry_policy_to_dict "\<lambda>d. retry_policy_from_dict W (PDict d)" "retry_ok W" for W
proof unfold_locales
  fix d p assume "retry_policy_from_dict W (PDict d) = Inr p"
  then show "retry_ok W p"
    by (auto simp: retry_policy_from_dict_def split: if_splits pyval.splits dest: make_retry_policy_ok)
next
  fix p d
  assume ok: "retry_ok W p" and tidy: "list_all (tidy \<circ> snd) d"
    and eq: "canonical_entries d = canonical_entries (retry_policy_to_dict p)"
  have numbers: "map_of d ''attempt_timeout_seconds'' = Some (PFloat (rp_timeout p))"
    "map_of d ''backoff_multiplier'' = Some (PFloat (rp_multiplier p))"
    "map_of d ''initial_backoff_seconds'' = Some (PFloat (rp_initial p))"
    "map_of d ''max_backoff_seconds'' = Some (PFloat (rp_maximum p))"
    "map_of d ''schema_version'' = Some (PStr JOB_RETRY_POLICY_SCHEMA_VERSION)"
    by (rule scalar_lookup [OF eq]; simp add: retry_policy_to_dict_def)+
  have codes: "map_of d ''retryable_error_codes'' = Some (PList (map PStr (rp_codes p)))"
    by (rule strings_lookup [OF eq _ tidy]) (simp add: retry_policy_to_dict_def)
  have "sseq (map (\<lambda>c. check_string c ''retryable_error_codes[]'') (map PStr (rp_codes p))) = Inr (rp_codes p)"
    using ok by (simp add: check_strings_Inr retry_ok_def del: map_map)
  then show "retry_policy_from_dict W (PDict d) = Inr p"
    using ok same_keys [OF eq]
    by (simp add: retry_policy_from_dict_def make_retry_policy_def dict_get_Some numbers codes non_negative_number_text
        retry_ok_def retry_policy_to_dict_def RETRY_POLICY_FIELDS_def sort_key_id_if_sorted)
next
  fix p assume "retry_ok W p"
  then have "float_finite (rp_timeout p)" "float_finite (rp_initial p)" "float_finite (rp_multiplier p)" "float_finite (rp_maximum p)"
    by (simp_all add: retry_ok_def retry_number_ok_def)
  then show "distinct (map fst (retry_policy_to_dict p)) \<and> list_all (tidy \<circ> snd) (retry_policy_to_dict p)"
    and "dict_safe (retry_policy_to_dict p)"
    by (simp_all add: retry_policy_to_dict_def float_finite_def list.pred_map)
qed

section \<open>Payloads\<close>

text \<open>The values a checked payload consists of.\<close>

fun is_string :: "pyval \<Rightarrow> bool" where
  "is_string (PStr s) = True"
| "is_string v = False"

fun plain_value :: "pyval \<Rightarrow> bool" where
  "plain_value (PStr s) = True"
| "plain_value (PList vs) = list_all is_string vs"
| "plain_value v = False"

lemma strings_plain: "list_all is_string vs \<Longrightarrow> list_all tidy vs \<and> list_all json_safe vs \<and> map to_canonical_data vs = vs"
proof (induction vs)
  case (Cons v vs)
  then show ?case by (cases v) simp_all
qed simp

lemma plain_value_laws: "plain_value v \<Longrightarrow> tidy v \<and> json_safe v \<and> to_canonical_data v = v"
  using strings_plain by (cases v) auto

lemma plain_strings [simp]: "list_all is_string (map PStr ss)"
  by (simp add: list_all_iff)

lemma content_id_Inr: "content_id v name p = Inr s \<longleftrightarrow> v = PStr s \<and> s \<noteq> [] \<and> prefixed_digest p s"
  by (auto simp: content_id_def sbind_eq_Inr check_string_Inr)

lemma content_ids_Inr: "sseq (map (\<lambda>v. content_id v name p) vs) = Inr ids \<longleftrightarrow>
    vs = map PStr ids \<and> list_all (\<lambda>s. s \<noteq> [] \<and> prefixed_digest p s) ids"
proof (induction vs arbitrary: ids)
  case (Cons v vs)
  then show ?case by (cases ids) (auto simp: sbind_eq_Inr content_id_Inr)
qed auto

text \<open>A valid payload is its own validation.\<close>

definition payload_ok :: "job_kind \<Rightarrow> pydict \<Rightarrow> bool" where
  "payload_ok kind d \<longleftrightarrow> validate_payload kind (PDict d) = Inr d \<and> canonical_entries d = d \<and> distinct (map fst d) \<and>
    list_all (plain_value \<circ> snd) d"

lemma plain_entries:
  assumes "distinct (map fst d)" and "fst ` set d = set ks" and "list_all (\<lambda>k. plain_value (dict_get d k)) ks"
  shows "list_all (plain_value \<circ> snd) d"
  unfolding list_all_iff
proof
  fix e assume e: "e \<in> set d"
  then have "map_of d (fst e) = Some (snd e)" using assms(1) by simp
  moreover have "fst e \<in> set ks" using e assms(2) by auto
  ultimately show "(plain_value \<circ> snd) e" using assms(3) by (auto simp: list_all_iff dict_get_Some)
qed

lemma exact_payload_Inr: "exact_payload raw ks kind = Inr d \<longleftrightarrow> fst ` set raw = set ks \<and> d = canonical_entries raw"
  by (auto simp: exact_payload_def)

lemma snapshot_plain: "snapshot_reference d = Inr s \<Longrightarrow> plain_value (dict_get d ''query_snapshot_id'')"
  by (auto simp: snapshot_reference_def check_entry_id_def content_id_Inr split: sum.splits py_error.splits)

lemma corpus_ids_Inr: "corpus_ids d = Inr ids \<Longrightarrow> \<exists>raw. dict_get d ''corpus_item_ids'' = PList (map PStr raw) \<and> ids = sort raw \<and>
    raw \<noteq> [] \<and> distinct raw \<and> list_all (\<lambda>s. s \<noteq> [] \<and> prefixed_digest ''corpusitem_'' s) raw"
  by (auto simp: corpus_ids_def sbind_eq_Inr content_ids_Inr split: pyval.splits if_splits)

lemma sorted_ids: "distinct raw \<Longrightarrow> raw \<noteq> [] \<Longrightarrow> list_all (\<lambda>s. s \<noteq> [] \<and> prefixed_digest ''corpusitem_'' s) raw \<Longrightarrow>
    dict_get d ''corpus_item_ids'' = PList (map PStr (sort raw)) \<Longrightarrow> corpus_ids d = Inr (sort raw)"
proof -
  assume raw: "distinct raw" "raw \<noteq> []" "list_all (\<lambda>s. s \<noteq> [] \<and> prefixed_digest ''corpusitem_'' s) raw"
    and d: "dict_get d ''corpus_item_ids'' = PList (map PStr (sort raw))"
  have "sseq (map (\<lambda>v. content_id v ''payload.corpus_item_ids[]'' ''corpusitem_'') (map PStr (sort raw))) = Inr (sort raw)"
    using raw by (simp add: content_ids_Inr list_all_iff del: map_map)
  moreover have "sort raw \<noteq> []" using raw(2) by (metis length_0_conv length_sort)
  ultimately show ?thesis using raw by (simp add: corpus_ids_def d sort_key_id_if_sorted del: map_map)
qed

lemma dict_set_keys: "map_of d k = Some v \<Longrightarrow> map fst (dict_set k w d) = map fst d"
  unfolding dict_set_def by (induction d) (auto split: if_splits)

lemma dict_set_same: "map_of d k = Some v \<Longrightarrow> dict_set k v d = d"
  unfolding dict_set_def by (induction d) (auto split: if_splits)

lemma map_of_set: "map_of (dict_set k v d) k = Some v"
  by (simp add: dict_set_def update_conv)

lemma canonical_sorted: "sorted (map fst (canonical_entries d))"
  by (simp add: canonical_entries_def)

lemma plain_canonical: "sorted (map fst d) \<Longrightarrow> list_all (plain_value \<circ> snd) d \<Longrightarrow> canonical_entries d = d"
  using plain_value_laws by (auto simp: canonical_entries_sorted list_all_iff intro!: map_idI)

lemma validate_any_order:
  "canonical_entries x = canonical_entries y \<Longrightarrow> validate_payload kind (PDict x) = validate_payload kind (PDict y)"
proof -
  assume eq: "canonical_entries x = canonical_entries y"
  have "exact_payload x ks kind = exact_payload y ks kind" for ks
    by (simp add: exact_payload_def eq same_keys [OF eq])
  then show ?thesis by (cases kind) (simp_all add: validate_payload_def)
qed

text \<open>Every kind has two or three keys with values that are strings, or the list of corpus items.\<close>

fun payload_fields :: "job_kind \<Rightarrow> string list" where
  "payload_fields JOB_SEARCH = [''experiment_digest'', ''experiment_id'']"
| "payload_fields JOB_REPLAY = [''replay_manifest_hash'', ''route_id'']"
| "payload_fields JOB_IMPORT = [''corpus_item_id'', ''source_uri'']"
| "payload_fields JOB_AGGREGATE = [''corpus_item_ids'', ''evaluator_id'', ''evaluator_version'']"
| "payload_fields JOB_EXPORT = [''format'', ''query_snapshot_id'']"

lemma entry_plain:
  "check_entry d k = Inr s \<Longrightarrow> plain_value (dict_get d k)" "check_entry_id d k p = Inr s \<Longrightarrow> plain_value (dict_get d k)"
  unfolding check_entry_def check_entry_id_def content_id_Inr check_string_Inr by simp_all

lemma export_result:
  "(case u of Some t \<Rightarrow> Inl (f t) | None \<Rightarrow> if v \<notin> A then Inl x else sbind m (\<lambda>_. Inr e)) = Inr d \<Longrightarrow> v \<in> A \<and> (\<exists>s. m = Inr s) \<and> d = e"
  by (cases u; cases "v \<in> A"; cases m) simp_all

lemma validate_plain:
  "validate_payload kind (PDict raw) = Inr d \<Longrightarrow> fst ` set raw = set (payload_fields kind) \<and>
    list_all (\<lambda>k. plain_value (dict_get d k)) (payload_fields kind)"
proof (cases kind)
  case JOB_AGGREGATE
  assume "validate_payload kind (PDict raw) = Inr d"
  then obtain ids x y where keys: "fst ` set raw = set (payload_fields kind)"
    and d: "d = dict_set ''corpus_item_ids'' (PList (map PStr ids)) (canonical_entries raw)"
    and checks: "check_entry (canonical_entries raw) ''evaluator_id'' = Inr x" "check_entry (canonical_entries raw) ''evaluator_version'' = Inr y"
    by (auto simp: JOB_AGGREGATE validate_payload_def sbind_eq_Inr exact_payload_Inr)
  show ?thesis using keys checks [THEN entry_plain(1)] by (simp add: JOB_AGGREGATE d del: dict_get_canonical)
next
  case JOB_EXPORT
  assume v: "validate_payload kind (PDict raw) = Inr d"
  obtain e where e: "exact_payload raw [''format'', ''query_snapshot_id''] kind = Inr e"
    and rest: "(case unhashable (dict_get e ''format'') of
               Some t \<Rightarrow> Inl (TypeError (''unhashable type: '' @ repr_str t))
             | None \<Rightarrow>
                 if dict_get e ''format'' \<notin> {PStr ''csv'', PStr ''json'', PStr ''parquet''}
                 then Inl (ValueError ''payload.format must be csv, json, or parquet'')
                 else sbind (snapshot_reference e) (\<lambda>_. Inr e)) = Inr d"
    using v unfolding JOB_EXPORT validate_payload_def by (simp add: sbind_eq_Inr) metis
  obtain s where format: "dict_get e ''format'' \<in> {PStr ''csv'', PStr ''json'', PStr ''parquet''}"
    and s: "snapshot_reference e = Inr s" and d: "d = e"
    using export_result [OF rest] by blast
  have "plain_value (dict_get e ''format'')" using format by auto
  then show ?thesis using e snapshot_plain [OF s] unfolding d exact_payload_Inr by (simp add: JOB_EXPORT)
next
  case JOB_SEARCH
  assume "validate_payload kind (PDict raw) = Inr d"
  then obtain s t where "fst ` set raw = set (payload_fields kind)" "check_entry d ''experiment_id'' = Inr s" "check_entry_id d ''experiment_digest'' ''experiment_'' = Inr t"
    by (auto simp: JOB_SEARCH validate_payload_def sbind_eq_Inr exact_payload_Inr)
  moreover note entry_plain(1) [OF this(2)] entry_plain(2) [OF this(3)]
  ultimately show ?thesis by (simp add: JOB_SEARCH)
next
  case JOB_REPLAY
  assume "validate_payload kind (PDict raw) = Inr d"
  then obtain s t where "fst ` set raw = set (payload_fields kind)" "check_entry_id d ''route_id'' ''route_'' = Inr s" "check_entry_id d ''replay_manifest_hash'' ''manifest_'' = Inr t"
    by (auto simp: JOB_REPLAY validate_payload_def sbind_eq_Inr exact_payload_Inr)
  moreover note entry_plain(2) [OF this(2)] entry_plain(2) [OF this(3)]
  ultimately show ?thesis by (simp add: JOB_REPLAY)
next
  case JOB_IMPORT
  assume "validate_payload kind (PDict raw) = Inr d"
  then obtain s t where "fst ` set raw = set (payload_fields kind)" "check_entry_id d ''corpus_item_id'' ''corpusitem_'' = Inr s" "check_entry d ''source_uri'' = Inr t"
    by (auto simp: JOB_IMPORT validate_payload_def sbind_eq_Inr exact_payload_Inr)
  moreover note entry_plain(2) [OF this(2)] entry_plain(1) [OF this(3)]
  ultimately show ?thesis by (simp add: JOB_IMPORT)
qed

lemma validate_result:
  assumes "validate_payload kind (PDict raw) = Inr d"
  obtains (same) "d = canonical_entries raw"
  | (listed) ids where "kind = JOB_AGGREGATE" "d = dict_set ''corpus_item_ids'' (PList (map PStr (sort ids))) (canonical_entries raw)"
      "map_of (canonical_entries raw) ''corpus_item_ids'' \<noteq> None" "ids \<noteq> []" "distinct ids"
      "list_all (\<lambda>s. s \<noteq> [] \<and> prefixed_digest ''corpusitem_'' s) ids"
      "check_entry d ''evaluator_id'' \<in> range Inr" "check_entry d ''evaluator_version'' \<in> range Inr"
proof (cases "kind = JOB_AGGREGATE")
  case False
  then have "d = canonical_entries raw"
    using assms by (cases kind) (auto simp: validate_payload_def sbind_eq_Inr exact_payload_Inr split: if_splits option.splits)
  then show thesis by (rule same)
next
  case True
  then obtain ids where ids: "corpus_ids (canonical_entries raw) = Inr ids"
    and d: "d = dict_set ''corpus_item_ids'' (PList (map PStr ids)) (canonical_entries raw)"
    and checks: "check_entry (canonical_entries raw) ''evaluator_id'' \<in> range Inr" "check_entry (canonical_entries raw) ''evaluator_version'' \<in> range Inr"
    and keys: "fst ` set raw = set (payload_fields kind)"
    using assms by (auto simp: validate_payload_def sbind_eq_Inr exact_payload_Inr)
  obtain l where l: "ids = sort l" "l \<noteq> []" "distinct l" "list_all (\<lambda>s. s \<noteq> [] \<and> prefixed_digest ''corpusitem_'' s) l"
    using corpus_ids_Inr [OF ids] by blast
  show thesis
  proof (rule listed [OF True _ _ l(2-4)])
    show "map_of (canonical_entries raw) ''corpus_item_ids'' \<noteq> None"
      using keys True by (simp add: map_of_eq_None_iff del: map_of_canonical_entries)
  qed (use checks in \<open>simp_all add: d l(1) check_entry_def\<close>)
qed

lemma validated:
  assumes "validate_payload kind (PDict raw) = Inr d" and "distinct (map fst raw)"
  shows "payload_ok kind d"
  using assms(1)
proof (cases rule: validate_result)
  case same
  have "validate_payload kind (PDict d) = Inr d"
    using validate_any_order [of d raw kind] assms(1) by (simp add: same)
  moreover have "list_all (plain_value \<circ> snd) d"
    by (rule plain_entries [OF _ _ conjunct2 [OF validate_plain [OF assms(1)]]])
      (use assms(2) conjunct1 [OF validate_plain [OF assms(1)]] in \<open>simp_all add: same\<close>)
  ultimately show ?thesis using assms(2) by (simp add: payload_ok_def same)
next
  case (listed ids)
  let ?d = "canonical_entries raw"
  obtain v where v: "map_of ?d ''corpus_item_ids'' = Some v" using listed(3) by blast
  have keys: "map fst d = map fst ?d" unfolding listed(2) using v by (rule dict_set_keys)
  have set_keys: "fst ` set d = set (payload_fields kind)"
    using validate_plain [OF assms(1)] arg_cong [OF keys, of set] by simp
  have plain: "list_all (plain_value \<circ> snd) d"
    by (rule plain_entries [OF _ set_keys conjunct2 [OF validate_plain [OF assms(1)]]]) (simp add: keys assms(2))
  have canonical: "canonical_entries d = d"
    using plain by (intro plain_canonical) (simp_all add: keys canonical_sorted)
  have here: "map_of d ''corpus_item_ids'' = Some (PList (map PStr (sort ids)))"
    unfolding listed(2) by (rule map_of_set)
  have "corpus_ids d = Inr (sort ids)"
    using listed(4-6) dict_get_Some [OF here] by (intro sorted_ids)
  moreover obtain x y where "check_entry d ''evaluator_id'' = Inr x" "check_entry d ''evaluator_version'' = Inr y"
    using listed(7,8) by blast
  moreover have "exact_payload d (payload_fields kind) kind = Inr d"
    by (simp add: exact_payload_Inr set_keys canonical)
  ultimately have "validate_payload kind (PDict d) = Inr d"
    unfolding listed(1) by (simp add: validate_payload_def dict_set_same [OF here])
  then show ?thesis using plain canonical assms(2) by (simp add: payload_ok_def keys)
qed

section \<open>Specifications\<close>

definition spec_ok :: "clockwork \<Rightarrow> job_spec \<Rightarrow> bool" where
  "spec_ok W s \<longleftrightarrow>
    (case js_deadline s of None \<Rightarrow> True | Some t \<Rightarrow> check_timestamp W t ''deadline_at'' = Inr ()) \<and>
    js_key s \<noteq> [] \<and> js_input s \<noteq> [] \<and> prefixed_digest ''jobinput_'' (js_input s) \<and>
    -1000 \<le> js_priority s \<and> js_priority s \<le> 1000 \<and> 1 \<le> js_max s \<and>
    list_all (\<lambda>d. d \<noteq> [] \<and> prefixed_digest ''job_'' d) (js_deps s) \<and> distinct (js_deps s) \<and> sorted (js_deps s) \<and>
    payload_ok (js_kind s) (js_payload s) \<and> retry_ok W (js_retry s)"

lemma deadline_text_Inr: "deadline_text W v = Inr t \<longleftrightarrow> v = opt_str t \<and>
    (case t of None \<Rightarrow> True | Some s \<Rightarrow> check_timestamp W s ''deadline_at'' = Inr ())"
  by (cases v; cases t) (auto simp: deadline_text_def sbind_eq_Inr opt_str_def)

lemma priority_of_Inr: "priority_of v = Inr i \<longleftrightarrow> v = PInt i \<and> -1000 \<le> i \<and> i \<le> 1000"
  by (cases v) (auto simp: priority_of_def)

lemma make_job_spec_ok:
  assumes "make_job_spec W v kind deps retry = Inr s" and "tidy (v ''payload'')" and "retry_ok W retry"
  shows "spec_ok W s"
proof -
  obtain deadline key digest prio most ids d where s: "s = \<lparr>js_kind = kind, js_key = key, js_input = digest, js_payload = d,
      js_priority = prio, js_max = most, js_deps = sort ids, js_deadline = deadline, js_retry = retry\<rparr>"
    and parts: "deadline_text W (v ''deadline_at'') = Inr deadline" "check_string (v ''idempotency_key'') ''idempotency_key'' = Inr key"
      "content_id (v ''input_digest'') ''input_digest'' ''jobinput_'' = Inr digest" "priority_of (v ''priority'') = Inr prio"
      "require_positive (v ''max_attempts'') ''max_attempts'' = Inr most"
      "sseq (map (\<lambda>d. content_id d ''dependency_ids[]'' ''job_'') deps) = Inr ids" "distinct ids"
      "validate_payload kind (v ''payload'') = Inr d"
    using assms(1) by (auto simp: make_job_spec_def sbind_eq_Inr split: if_splits)
  obtain raw where raw: "v ''payload'' = PDict raw"
    using parts(8) by (cases "v ''payload''") (simp_all add: validate_payload_def)
  then have "payload_ok kind d" using parts(8) assms(2) by (intro validated [of kind raw]) simp_all
  then show ?thesis
    using parts(1-7) assms(3)
    by (simp add: s spec_ok_def deadline_text_Inr check_string_Inr content_id_Inr priority_of_Inr require_positive_Inr content_ids_Inr
        list_all_iff)
qed

definition written_spec :: "job_spec \<Rightarrow> pydict" where
  "written_spec s = (''job_id'', PStr (job_id_of s)) # job_spec_entries s"

lemma written_keys: "fst ` set (written_spec s) = set JOB_SPEC_FIELDS" "distinct (map fst (written_spec s))"
  by (auto simp: written_spec_def job_spec_entries_def JOB_SPEC_FIELDS_def)

lemma payload_tidy: "payload_ok kind d \<Longrightarrow> tidy (PDict d) \<and> dict_safe d"
  using plain_value_laws by (auto simp: payload_ok_def list_all_iff dict_safe_def)

lemma written_laws:
  assumes "spec_ok W s"
  shows "list_all (tidy \<circ> snd) (written_spec s)" and "dict_safe (written_spec s)"
proof -
  have p: "distinct (map fst (js_payload s))" "list_all (tidy \<circ> snd) (js_payload s)" "dict_safe (js_payload s)"
    using assms payload_tidy [of "js_kind s" "js_payload s"] by (simp_all add: spec_ok_def)
  have r: "distinct (map fst (retry_policy_to_dict (js_retry s)))" "list_all (tidy \<circ> snd) (retry_policy_to_dict (js_retry s))"
    "dict_safe (retry_policy_to_dict (js_retry s))"
    using assms retry_format.write_tidy [of W "js_retry s"] retry_format.write_safe [of W "js_retry s"] by (simp_all add: spec_ok_def)
  show "list_all (tidy \<circ> snd) (written_spec s)"
    using p r by (simp add: written_spec_def job_spec_entries_def list.pred_map)
  show "dict_safe (written_spec s)"
    using p r by (simp add: written_spec_def job_spec_entries_def list.pred_map opt_str_def split: option.split)
qed

lemma job_kind_of_value [simp]: "job_kind_of (PStr (job_kind_value k)) = Inr k"
  by (cases k) (simp_all add: job_kind_of_def enum_of_def all_job_kinds_def)

lemma spec_read:
  assumes ok: "spec_ok W s" and tidy: "list_all (tidy \<circ> snd) d" and eq: "canonical_entries d = canonical_entries (written_spec s)"
  shows "job_spec_from_dict W d = Inr s"
proof -
  note written = written_spec_def job_spec_entries_def
  note found = scalar_lookup [OF eq]
  have scalars: "map_of d ''deadline_at'' = Some (opt_str (js_deadline s))"
    "map_of d ''idempotency_key'' = Some (PStr (js_key s))"
    "map_of d ''input_digest'' = Some (PStr (js_input s))"
    "map_of d ''job_id'' = Some (PStr (job_id_of s))"
    "map_of d ''kind'' = Some (PStr (job_kind_value (js_kind s)))"
    "map_of d ''max_attempts'' = Some (PInt (js_max s))"
    "map_of d ''priority'' = Some (PInt (js_priority s))"
    "map_of d ''schema_version'' = Some (PStr JOB_SPEC_SCHEMA_VERSION)"
    by (rule found; simp add: written)+
  have deps: "map_of d ''dependency_ids'' = Some (PList (map PStr (js_deps s)))"
    by (rule strings_lookup [OF eq _ tidy]) (simp add: written)
  have "map_of (written_spec s) ''payload'' = Some (PDict (js_payload s))" by (simp add: written)
  then obtain p where p: "map_of d ''payload'' = Some (PDict p)" "canonical_entries p = canonical_entries (js_payload s)"
    by (rule dict_lookup [OF eq _ tidy]) blast
  have "map_of (written_spec s) ''retry_policy'' = Some (PDict (retry_policy_to_dict (js_retry s)))" by (simp add: written)
  then obtain r where r: "map_of d ''retry_policy'' = Some (PDict r)"
      "canonical_entries r = canonical_entries (retry_policy_to_dict (js_retry s))" "distinct (map fst r)" "list_all (tidy \<circ> snd) r"
    by (rule dict_lookup [OF eq _ tidy]) blast
  have retry: "retry_policy_from_dict W (PDict r) = Inr (js_retry s)"
    using ok r by (intro retry_format.read_any_order) (simp_all add: spec_ok_def)
  have payload: "validate_payload (js_kind s) (PDict p) = Inr (js_payload s)"
    using ok validate_any_order [OF p(2)] by (simp add: spec_ok_def payload_ok_def)
  have ids: "sseq (map (\<lambda>d. content_id d ''dependency_ids[]'' ''job_'') (map PStr (js_deps s))) = Inr (js_deps s)"
    using ok by (simp add: content_ids_Inr spec_ok_def del: map_map)
  have "deadline_text W (opt_str (js_deadline s)) = Inr (js_deadline s)"
    "check_string (PStr (js_key s)) ''idempotency_key'' = Inr (js_key s)"
    "content_id (PStr (js_input s)) ''input_digest'' ''jobinput_'' = Inr (js_input s)"
    "priority_of (PInt (js_priority s)) = Inr (js_priority s)" "require_positive (PInt (js_max s)) ''max_attempts'' = Inr (js_max s)"
    using ok by (simp_all add: spec_ok_def deadline_text_Inr check_string_Inr content_id_Inr priority_of_Inr require_positive_Inr)
  moreover have "distinct (js_deps s)" "sort (js_deps s) = js_deps s"
    using ok by (simp_all add: spec_ok_def sort_key_id_if_sorted)
  ultimately have "make_job_spec W (dict_get d) (js_kind s) (map PStr (js_deps s)) (js_retry s) = Inr s"
    by (simp add: make_job_spec_def scalars [THEN dict_get_Some] p(1) [THEN dict_get_Some] payload ids del: map_map)
  then show ?thesis
    using same_keys [OF eq] written_keys(1) [of s]
    by (simp add: job_spec_from_dict_def scalars [THEN dict_get_Some] deps [THEN dict_get_Some] r(1) [THEN dict_get_Some] retry)
qed

interpretation spec_format: checked_format job_spec_to_dict "job_spec_from_dict W" "spec_ok W" for W
proof unfold_locales
  fix d s assume tidy: "distinct (map fst d)" "list_all (tidy \<circ> snd) d" and read: "job_spec_from_dict W d = Inr s"
  obtain deps kind retry where parts: "retry_policy_from_dict W (dict_get d ''retry_policy'') = Inr retry"
      "make_job_spec W (dict_get d) kind deps retry = Inr s"
    using read by (auto simp: job_spec_from_dict_def sbind_eq_Inr split: if_splits pyval.splits)
  have entry: "tidy (dict_get d k)" for k
    using tidy(2) by (auto simp: dict_get_def list_all_iff split: option.split dest!: map_of_SomeD)
  obtain r where r: "dict_get d ''retry_policy'' = PDict r"
    using parts(1) by (cases "dict_get d ''retry_policy''") (simp_all add: retry_policy_from_dict_def)
  have "retry_ok W retry" using parts(1) entry [of "''retry_policy''"] unfolding r by (intro retry_format.read_valid) simp_all
  then show "spec_ok W s" using parts(2) entry by (intro make_job_spec_ok)
next
  fix s d assume ok: "spec_ok W s" and tidy: "list_all (tidy \<circ> snd) d"
    and "canonical_entries d = canonical_entries (job_spec_to_dict s)"
  then show "job_spec_from_dict W d = Inr s" by (intro spec_read) (simp_all add: job_spec_to_dict_def written_spec_def)
next
  fix s assume ok: "spec_ok W s"
  have "tidy (PDict (written_spec s))" using written_laws [OF ok] written_keys by simp
  then have "tidy (PDict (canonical_entries (written_spec s)))" using tidy_canonical [of "PDict (written_spec s)"] by (simp only: canonical_PDict)
  then show "distinct (map fst (job_spec_to_dict s)) \<and> list_all (tidy \<circ> snd) (job_spec_to_dict s)"
    by (simp add: job_spec_to_dict_def written_spec_def)
  show "dict_safe (job_spec_to_dict s)"
    using written_laws(2) [OF ok] by (simp add: job_spec_to_dict_def written_spec_def)
qed

end
