(* ===== verification/Job_Samples.thy ===== *)
theory Job_Samples
  imports Job_Sweeps Job_Formats
begin

text \<open>
  A clockwork, a specification and a run of the job catalog for the concrete instances of its laws. The
  clockwork reads a timestamp as the number its digits form.
\<close>

definition digits_of :: "string \<Rightarrow> int" where
  "digits_of s = foldl (\<lambda>n c. if CHR ''0'' \<le> c \<and> c \<le> CHR ''9'' then 10 * n + (of_char c - 48) else n) 0 s"

primrec fixed_text :: "nat \<Rightarrow> int \<Rightarrow> string" where
  "fixed_text 0 i = []"
| "fixed_text (Suc n) i = fixed_text n (i div 10) @ [''0123456789'' ! nat (i mod 10)]"

definition sample_clock :: clockwork where
  "sample_clock = \<lparr>cw_instant = (\<lambda>s. Some (digits_of s)), cw_text = (\<lambda>i. fixed_text 14 (i div 10000)),
     cw_after = (\<lambda>i s. Inr (i + 1000 * digits_of s)), cw_float = (\<lambda>i. Some (str_int i @ ''.0'')),
     cw_less = (\<lambda>s t. digits_of s < digits_of t),
     cw_scale = (\<lambda>s t n. Some (str_int (digits_of s div 10 * (digits_of t div 10) ^ nat n) @ ''.0'')),
     cw_julian = (\<lambda>s. Some (digits_of s))\<rparr>"

definition sample_retry :: retry_policy where
  "sample_retry = \<lparr>rp_timeout = ''60.0'', rp_initial = ''5.0'', rp_multiplier = ''2.0'', rp_maximum = ''300.0'',
     rp_codes = [''hard_timeout'', ''lease_expired'']\<rparr>"

definition sample_job :: job_spec where
  "sample_job = \<lparr>js_kind = JOB_SEARCH, js_key = ''experiment-7'', js_input = ''jobinput_'' @ replicate 64 CHR ''a'',
     js_payload = [(''experiment_digest'', PStr (''experiment_'' @ replicate 64 CHR ''b'')), (''experiment_id'', PStr ''experiment-7'')],
     js_priority = 5, js_max = 2, js_deps = [], js_deadline = Some ''2026-01-01T01:00:00Z'', js_retry = sample_retry\<rparr>"

definition created_at :: string where
  "created_at = ''2026-01-01T00:00:00Z''"
definition claimed_at :: string where
  "claimed_at = ''2026-01-01T00:00:10Z''"
definition kept_at :: string where
  "kept_at = ''2026-01-01T00:00:20Z''"
definition lost_at :: string where
  "lost_at = ''2026-01-01T00:00:50Z''"

definition created_catalog :: catalog where
  "created_catalog = run_calls sample_clock [Create_Job sample_job created_at ''planner''] empty_catalog"

definition claimed_catalog :: catalog where
  "claimed_catalog = run_calls sample_clock
    [Create_Job sample_job created_at ''planner'', Claim_Next ''worker-1'' claimed_at (PInt 30) None] empty_catalog"

lemma sample_times [simp]:
  "instant_of sample_clock created_at = Some 202601010000000000" "instant_of sample_clock claimed_at = Some 202601010000100000"
  "instant_of sample_clock kept_at = Some 202601010000200000" "instant_of sample_clock lost_at = Some 202601010000500000"
  "instant_of sample_clock ''2026-01-01T01:00:00Z'' = Some 202601010100000000"
  by code_simp+

lemma sample_checks [simp]:
  "check_timestamp sample_clock created_at n = Inr ()" "check_timestamp sample_clock claimed_at n = Inr ()"
  "check_timestamp sample_clock kept_at n = Inr ()" "check_timestamp sample_clock lost_at n = Inr ()"
  "check_timestamp sample_clock ''2026-01-01T01:00:00Z'' n = Inr ()"
  by (simp_all add: check_timestamp_def require_string_def) (simp_all add: created_at_def claimed_at_def kept_at_def lost_at_def)

lemma sample_spec [simp]:
  "js_key sample_job = ''experiment-7''" "js_deps sample_job = []" "js_kind sample_job = JOB_SEARCH" "js_max sample_job = 2"
  "js_deadline sample_job = Some ''2026-01-01T01:00:00Z''" "js_retry sample_job = sample_retry" "js_priority sample_job = 5"
  "rp_timeout sample_retry = ''60.0''" "rp_initial sample_retry = ''5.0''" "rp_multiplier sample_retry = ''2.0''"
  "rp_codes sample_retry = [''hard_timeout'', ''lease_expired'']" "rp_maximum sample_retry = ''300.0''"
  by (simp_all add: sample_job_def sample_retry_def)

definition new_catalog :: catalog where
  "new_catalog = insert_job sample_job created_at ''planner'' (empty_catalog\<lparr>ct_schema := Some (Some JOB_CATALOG_SCHEMA_VERSION)\<rparr>)"

lemma sample_created: "create_job sample_clock sample_job created_at ''planner'' empty_catalog = Inr (new_job sample_job created_at, new_catalog)"
  by (simp add: create_job_def require_string_def initialize_def empty_catalog_def find_job_def new_catalog_def unbindable_def)

lemma created_catalog_eq: "created_catalog = new_catalog"
  by (simp add: created_catalog_def run_calls_def after_job_call_def catalog_of_def sample_created)

lemma initialize_new: "initialize new_catalog = Inr new_catalog"
  by (simp add: initialize_def new_catalog_def)

lemma sample_seconds:
  "plus_seconds sample_clock claimed_at ''30.0'' = Inr ''20260101000040Z''"
  "plus_seconds sample_clock claimed_at ''60.0'' = Inr ''20260101000070Z''"
  "plus_seconds sample_clock kept_at ''30.0'' = Inr ''20260101000050Z''"
  by code_simp+

lemma sample_instants [simp]:
  "parsed_timestamp sample_clock ''20260101000040Z'' = Inr 202601010000400000"
  "parsed_timestamp sample_clock ''20260101000070Z'' = Inr 202601010000700000"
  "parsed_timestamp sample_clock ''20260101000050Z'' = Inr 202601010000500000"
  "parsed_timestamp sample_clock ''2026-01-01T01:00:00Z'' = Inr 202601010100000000"
  "parsed_timestamp sample_clock created_at = Inr 202601010000000000" "parsed_timestamp sample_clock claimed_at = Inr 202601010000100000"
  "parsed_timestamp sample_clock kept_at = Inr 202601010000200000" "parsed_timestamp sample_clock lost_at = Inr 202601010000500000"
  by code_simp+

lemma sample_julian: "julian_less sample_clock claimed_at ''2026-01-01T01:00:00Z''"
  by code_simp

definition claimed_row :: job_record where
  "claimed_row = (leased ''worker-1'' 1 claimed_at ''20260101000040Z'' ''20260101000070Z'' (new_job sample_job created_at))
     \<lparr>jr_state := RUNNING, jr_updated := claimed_at\<rparr>"

lemma new_jobs: "ct_jobs new_catalog = [new_job sample_job created_at]" "ct_deps new_catalog = []"
  by (simp_all add: new_catalog_def created_tables empty_catalog_def)

lemma sample_runnable: "runnable sample_clock all_job_kinds claimed_at new_catalog (new_job sample_job created_at)"
  by (simp add: runnable_def created_tables all_job_kinds_def sample_julian waits_def new_jobs) (simp add: new_job_def)

lemma sample_next: "next_runnable sample_clock all_job_kinds claimed_at new_catalog = Some (new_job sample_job created_at)"
  by (simp add: next_runnable_def new_jobs sample_runnable)

lemma sample_claimed:
  "\<exists>c. claim_next sample_clock ''worker-1'' claimed_at (PInt 30) None new_catalog = Inr (Some claimed_row, c) \<and>
     ct_jobs c = [claimed_row] \<and> initialize c = Inr c"
proof -
  have f: "to_float sample_clock (PInt 30) = Inr ''30.0''" by code_simp
  have e: "earlier_of sample_clock (Some ''2026-01-01T01:00:00Z'') ''20260101000070Z'' = Inr ''20260101000070Z''"
    by (simp add: earlier_of_def)
  let ?c = "move_job (new_job sample_job created_at) (leased ''worker-1'' 1 claimed_at ''20260101000040Z'' ''20260101000070Z'') RUNNING 1
    ''worker-1'' claimed_at ''lease_acquired'' new_catalog"
  have jobs: "ct_jobs ?c = [claimed_row]"
    by (simp add: move_job_def insert_transition_def update_job_def new_jobs claimed_row_def)
  have "claim_job sample_clock ''worker-1'' claimed_at (PInt 30) (new_job sample_job created_at) new_catalog =
      Inr (find_job (job_id_of sample_job) ?c, ?c)"
    by (simp add: claim_job_def f sample_seconds e created_tables Let_def)
  moreover have "find_job (job_id_of sample_job) ?c = Some claimed_row"
    by (simp add: find_job_def jobs) (simp add: claimed_row_def created_tables)
  moreover have "positive_seconds sample_clock (PInt 30) = Inr ()" by (simp add: positive_seconds_def)
  moreover have "initialize ?c = Inr ?c" by (simp add: initialize_def new_catalog_def)
  moreover have "all_job_kinds \<noteq> []" "distinct all_job_kinds" by (simp_all add: all_job_kinds_def)
  ultimately show ?thesis
    using jobs by (simp add: claim_next_def require_string_def initialize_new sample_next)
qed

lemma claimed_catalog_laws:
  "claim_next sample_clock ''worker-1'' claimed_at (PInt 30) None new_catalog = Inr (Some claimed_row, claimed_catalog)"
  "ct_jobs claimed_catalog = [claimed_row]" "initialize claimed_catalog = Inr claimed_catalog"
proof -
  obtain c where c: "claim_next sample_clock ''worker-1'' claimed_at (PInt 30) None new_catalog = Inr (Some claimed_row, c)"
    "ct_jobs c = [claimed_row]" "initialize c = Inr c"
    using sample_claimed by blast
  have "claimed_catalog = c"
    by (simp add: claimed_catalog_def run_calls_def after_job_call_def catalog_of_def sample_created c(1))
  with c show "claim_next sample_clock ''worker-1'' claimed_at (PInt 30) None new_catalog = Inr (Some claimed_row, claimed_catalog)"
    "ct_jobs claimed_catalog = [claimed_row]" "initialize claimed_catalog = Inr claimed_catalog"
    by simp_all
qed

definition sample_token :: string where
  "sample_token = lease_token (job_id_of sample_job) 1 claimed_at ''worker-1''"

lemma claimed_fields [simp]:
  "jr_id claimed_row = job_id_of sample_job" "jr_spec claimed_row = sample_job" "jr_state claimed_row = RUNNING"
  "jr_token claimed_row = Some sample_token" "jr_expires claimed_row = Some ''20260101000040Z''" "jr_attempt claimed_row = 1"
  "jr_attempt_deadline claimed_row = Some ''20260101000070Z''"
  by (simp_all add: claimed_row_def leased_def new_job_def sample_token_def)

lemma claimed_found: "find_job (job_id_of sample_job) claimed_catalog = Some claimed_row"
  by (simp add: find_job_def claimed_catalog_laws)

lemma sample_heartbeat:
  "\<exists>c. perform_call sample_clock (Heartbeat (job_id_of sample_job) sample_token kept_at (PInt 30)) claimed_catalog = Inr c"
proof -
  have f: "to_float sample_clock (PInt 30) = Inr ''30.0''" by code_simp
  have e: "earlier_of sample_clock (Some ''20260101000070Z'') ''20260101000050Z'' = Inr ''20260101000050Z''" by (simp add: earlier_of_def)
  let ?g = "\<lambda>r. r\<lparr>jr_heartbeat := Some kept_at, jr_expires := Some ''20260101000050Z'', jr_updated := kept_at\<rparr>"
  have "find_job (job_id_of sample_job) (update_job (job_id_of sample_job) ?g claimed_catalog) = Some (?g claimed_row)"
    by (simp add: find_job_update claimed_found)
  then have "heartbeat sample_clock (job_id_of sample_job) sample_token kept_at (PInt 30) claimed_catalog =
      Inr (?g claimed_row, update_job (job_id_of sample_job) ?g claimed_catalog)"
    by (simp add: heartbeat_def positive_seconds_def claimed_catalog_laws(3) job_row_def claimed_found assert_lease_def time_reached_def
        f sample_seconds e Let_def)
  then show ?thesis by (simp add: catalog_of_def)
qed

lemma sample_backoff: "plus_seconds sample_clock lost_at ''5.0'' = Inr ''20260101000055Z''"
  "backoff_after sample_clock sample_retry 1 = Inr ''5.0''" "parsed_timestamp sample_clock ''20260101000055Z'' = Inr 202601010000550000"
  by code_simp+

lemma initialize_same: "initialize c = Inr c \<Longrightarrow> ct_schema d = ct_schema c \<Longrightarrow> initialize d = Inr d"
proof -
  assume c: "initialize c = Inr c" and same: "ct_schema d = ct_schema c"
  then have "ct_schema c = Some (Some JOB_CATALOG_SCHEMA_VERSION)"
    using c by (cases c) (auto simp: initialize_def split: option.splits if_splits)
  then show ?thesis by (simp add: initialize_def same)
qed

definition reclaimed_row :: job_record where
  "reclaimed_row = (with_error (Some ''20260101000055Z'') (Some ''lease_expired'') (Some ''worker lease expired; job is retryable'')
     (release claimed_row))\<lparr>jr_state := RETRYING, jr_updated := lost_at\<rparr>"

lemma sample_sweep:
  "\<exists>d. reclaim_orphans sample_clock lost_at ''scheduler'' claimed_catalog = Inr ([reclaimed_row], d) \<and>
     expire_pending_deadlines sample_clock lost_at ''scheduler'' d = Inr ([], d)"
proof -
  let ?v = "(RETRYING, Some ''20260101000055Z'', Some ''lease_expired'', Some ''worker lease expired; job is retryable'', ''lease_expired'')"
  have v: "orphan_verdict sample_clock lost_at claimed_row = Inr ?v"
    by (simp add: orphan_verdict_def time_reached_def sample_backoff)
  have rows: "leased_rows claimed_catalog = [claimed_row]" by (simp add: leased_rows_def claimed_catalog_laws)
  let ?d = "give_up lost_at ''scheduler'' claimed_row ?v claimed_catalog"
  have found: "find_job (job_id_of sample_job) ?d = Some reclaimed_row"
    by (simp add: give_up_def find_job_move claimed_found reclaimed_row_def)
  have reclaim: "reclaim_orphans sample_clock lost_at ''scheduler'' claimed_catalog = Inr ([reclaimed_row], ?d)"
    by (simp add: reclaim_orphans_def require_string_def claimed_catalog_laws(3) rows time_reached_def v Let_def job_row_def found
        assert_transition_def is_job_transition_allowed_def)
  have jobs: "ct_jobs ?d = [reclaimed_row]"
    by (simp add: give_up_def move_job_def insert_transition_def update_job_def claimed_catalog_laws reclaimed_row_def)
  have "jr_spec reclaimed_row = sample_job" "jr_state reclaimed_row = RETRYING" by (simp_all add: reclaimed_row_def)
  then have "pending_deadlines ?d = [reclaimed_row]" by (simp add: pending_deadlines_def jobs)
  moreover have "initialize ?d = Inr ?d"
    by (rule initialize_same [OF claimed_catalog_laws(3)]) (simp add: give_up_def)
  moreover have "expire_each sample_clock lost_at ''scheduler'' [reclaimed_row] ?d = Inr ([], ?d)"
    using \<open>jr_spec reclaimed_row = sample_job\<close> by (simp add: time_reached_def)
  ultimately have "expire_pending_deadlines sample_clock lost_at ''scheduler'' ?d = Inr ([], ?d)"
    by (simp add: expire_pending_deadlines_def require_string_def)
  with reclaim show ?thesis by blast
qed

definition sample_retry_entries :: pydict where
  "sample_retry_entries = retry_policy_to_dict sample_retry"

lemma sample_retry_made: "make_retry_policy sample_clock (dict_get sample_retry_entries) [PStr ''hard_timeout'', PStr ''lease_expired''] = Inr sample_retry"
  by code_simp

lemma sample_spec_made:
  "make_job_spec sample_clock (dict_get (job_spec_entries sample_job)) JOB_SEARCH [] sample_retry = Inr sample_job"
  by code_simp

lemma sample_payload_tidy: "tidy (dict_get (job_spec_entries sample_job) ''payload'')"
  by code_simp

end
