(* ===== verification/Parallel_Plan.thy ===== *)
theory Parallel_Plan
  imports Search_Frontier Cache_Model Failures State_Identity
begin

text \<open>
  \<open>engine/search/parallel.py\<close>: the policy of a pool, the candidates and their work keys, the plan with its
  tasks, attempts and seeds, the results of the attempts, and their aggregation.
\<close>

definition PARALLEL_SEARCH_POLICY_SCHEMA_VERSION :: string where
  "PARALLEL_SEARCH_POLICY_SCHEMA_VERSION = ''parallel-search-policy-v1''"
definition PARALLEL_SEARCH_PLAN_SCHEMA_VERSION :: string where
  "PARALLEL_SEARCH_PLAN_SCHEMA_VERSION = ''parallel-search-plan-v1''"
definition PARALLEL_TASK_SCHEMA_VERSION :: string where
  "PARALLEL_TASK_SCHEMA_VERSION = ''parallel-search-task-v1''"
definition PARALLEL_ATTEMPT_SCHEMA_VERSION :: string where
  "PARALLEL_ATTEMPT_SCHEMA_VERSION = ''parallel-search-attempt-v1''"
definition LEGACY_PARALLEL_RESULT_SCHEMA_VERSION :: string where
  "LEGACY_PARALLEL_RESULT_SCHEMA_VERSION = ''parallel-search-result-v1''"
definition PARALLEL_RESULT_SCHEMA_VERSION :: string where
  "PARALLEL_RESULT_SCHEMA_VERSION = ''parallel-search-result-v2''"
definition PARALLEL_AGGREGATE_SCHEMA_VERSION :: string where
  "PARALLEL_AGGREGATE_SCHEMA_VERSION = ''parallel-search-aggregate-v2''"

text \<open>
  What the module uses of floating-point numbers: the exact value of \<open>float(v)\<close> for a finite number, and
  \<open>math.fsum\<close>, whose result is known by its text.
\<close>

record float_arithmetic =
  fl_value :: "pyval \<Rightarrow> rat"
  fl_sum :: "rat list \<Rightarrow> py_error + string"

definition natural_number :: "pyval \<Rightarrow> string \<Rightarrow> py_error + int" where
  "natural_number v path =
    (case v of
       PInt i \<Rightarrow> if i < 0 then Inl (ValueError (path @ '' must be a non-negative integer'')) else Inr i
     | _ \<Rightarrow> Inl (ValueError (path @ '' must be a non-negative integer'')))"

definition finite_score :: "pyval \<Rightarrow> string \<Rightarrow> py_error + unit" where
  "finite_score v path =
    (if (case v of PInt i \<Rightarrow> \<bar>i\<bar> \<ge> 2 ^ 1024 - 2 ^ 970 | _ \<Rightarrow> False)
     then Inl (OverflowError ''int too large to convert to float'')
     else if \<not> finite_float_text v then Inl (ValueError (path @ '' must be a finite number''))
     else Inr ())"

section \<open>Seeds\<close>

definition hex_digit_value :: "char \<Rightarrow> int" where
  "hex_digit_value c = (if CHR ''a'' \<le> c then of_char c - 87 else of_char c - 48)"

definition hex_int :: "string \<Rightarrow> int" where
  "hex_int s = foldl (\<lambda>n c. 16 * n + hex_digit_value c) 0 s"

definition seed_word :: "pydict \<Rightarrow> int" where
  "seed_word d = hex_int (take 16 (safe_digest d ''''))"

definition seed_words :: "int \<Rightarrow> string \<Rightarrow> string \<Rightarrow> int list" where
  "seed_words base namespace identity =
    map (\<lambda>index. seed_word [(''base_seed'', PInt base), (''identity'', PStr identity), (''namespace'', PStr namespace),
      (''word'', PInt index)]) [0, 1, 2, 3]"

section \<open>Policies\<close>

record parallel_policy =
  pp_pool :: int
  pp_seed :: int
  pp_retries :: int

definition make_parallel_policy :: "(string \<Rightarrow> pyval) \<Rightarrow> py_error + parallel_policy" where
  "make_parallel_policy v =
    sbind (natural_number (v ''pool_size'') ''pool_size'') (\<lambda>n.
    if n < 1 then Inl (ValueError ''pool_size must be an integer >= 1'')
    else
    sbind (natural_number (v ''base_seed'') ''base_seed'') (\<lambda>base.
    sbind (natural_number (v ''max_retries'') ''max_retries'') (\<lambda>retries.
    if v ''schema_version'' \<noteq> PStr PARALLEL_SEARCH_POLICY_SCHEMA_VERSION
    then Inl (ValueError ''unsupported parallel search policy schema'')
    else Inr \<lparr>pp_pool = n, pp_seed = base, pp_retries = retries\<rparr>)))"

definition parallel_policy_from_mapping :: "pyval \<Rightarrow> py_error + parallel_policy" where
  "parallel_policy_from_mapping value =
    (case value of
       PDict d \<Rightarrow>
         let unknown = sort (remdups (filter (\<lambda>k. k \<notin> {''base_seed'', ''max_retries'', ''pool_size''}) (map fst d)));
             missing = filter (\<lambda>k. k \<notin> fst ` set d) [''base_seed'', ''pool_size'']
         in if unknown \<noteq> [] then Inl (ValueError (''unknown parallel search policy fields: '' @ repr_strs unknown))
            else if missing \<noteq> [] then Inl (ValueError (''missing parallel search policy fields: '' @ repr_strs missing))
            else make_parallel_policy (\<lambda>k. get_or d k
              (if k = ''max_retries'' then PInt 1 else PStr PARALLEL_SEARCH_POLICY_SCHEMA_VERSION))
     | _ \<Rightarrow> Inl (ValueError ''parallel search policy must be a mapping''))"

definition parallel_policy_from_experiment :: "pydict \<Rightarrow> py_error + parallel_policy" where
  "parallel_policy_from_experiment experiment =
    (case dict_get experiment ''search'' of
       PDict search \<Rightarrow>
        (case dict_get search ''parameters'' of
           PDict options \<Rightarrow>
            (case dict_get options ''parallel'' of
               PDict p \<Rightarrow> parallel_policy_from_mapping (PDict p)
             | _ \<Rightarrow> Inl (ValueError ''search.parameters.parallel must be a mapping''))
         | _ \<Rightarrow> Inl (ValueError ''search.parameters must be a mapping''))
     | _ \<Rightarrow> Inl (ValueError ''experiment.search must be a mapping''))"

definition parallel_policy_identity :: "parallel_policy \<Rightarrow> pydict" where
  "parallel_policy_identity p = canonical_entries
    [(''base_seed'', PInt (pp_seed p)), (''max_retries'', PInt (pp_retries p)), (''pool_size'', PInt (pp_pool p)),
     (''schema_version'', PStr PARALLEL_SEARCH_POLICY_SCHEMA_VERSION)]"

definition parallel_policy_to_dict :: "parallel_policy \<Rightarrow> pydict" where
  "parallel_policy_to_dict p =
    parallel_policy_identity p @ [(''policy_id'', PStr (safe_digest (parallel_policy_identity p) ''parallelpol_''))]"

section \<open>Candidates\<close>

record parallel_candidate =
  pc_id :: string
  pc_node :: string
  pc_work :: string
  pc_payload :: string

definition need_text :: "string \<Rightarrow> string \<Rightarrow> py_error + unit" where
  "need_text s path = (if s = [] then Inl (ValueError (path @ '' must be a non-empty string'')) else Inr ())"

definition make_parallel_candidate :: "parallel_candidate \<Rightarrow> py_error + parallel_candidate" where
  "make_parallel_candidate c =
    sbind (need_text (pc_id c) ''candidate_id'') (\<lambda>_.
    sbind (need_text (pc_node c) ''node_id'') (\<lambda>_.
    sbind (need_text (pc_work c) ''work_key'') (\<lambda>_.
    sbind (need_text (pc_payload c) ''payload_ref'') (\<lambda>_. Inr c))))"

definition candidate_from_prefix :: "string \<Rightarrow> string \<Rightarrow> string \<Rightarrow> string \<Rightarrow> py_error + parallel_candidate" where
  "candidate_from_prefix node prefix_key act payload =
    sbind (need_text act ''action_id'') (\<lambda>_.
    sbind (need_text prefix_key ''prefix_key_id'') (\<lambda>_.
    let work = safe_digest [(''action_id'', PStr act), (''prefix_key_id'', PStr prefix_key)] ''work_'' in
    sbind (need_text node ''node_id'') (\<lambda>_.
    sbind (need_text payload ''payload_ref'') (\<lambda>_.
    make_parallel_candidate
      \<lparr>pc_id = safe_digest [(''node_id'', PStr node), (''payload_ref'', PStr payload), (''work_key'', PStr work)] ''candidate_'',
       pc_node = node, pc_work = work, pc_payload = payload\<rparr>))))"

definition parallel_candidate_to_dict :: "parallel_candidate \<Rightarrow> pydict" where
  "parallel_candidate_to_dict c =
    [(''candidate_id'', PStr (pc_id c)), (''node_id'', PStr (pc_node c)), (''payload_ref'', PStr (pc_payload c)),
     (''work_key'', PStr (pc_work c))]"

section \<open>Tasks and attempts\<close>

record parallel_task =
  pt_id :: string
  pt_ordinal :: int
  pt_slot :: int
  pt_candidate :: parallel_candidate
  pt_core :: "int list"
  pt_python :: int
  pt_worker :: int

definition task_to_dict :: "parallel_task \<Rightarrow> pydict" where
  "task_to_dict t = canonical_entries
    [(''candidate'', PDict (parallel_candidate_to_dict (pt_candidate t))),
     (''core_seed'', PList (map PInt (pt_core t))),
     (''logical_worker_slot'', PInt (pt_slot t)),
     (''python_seed'', PInt (pt_python t)),
     (''schema_version'', PStr PARALLEL_TASK_SCHEMA_VERSION),
     (''task_id'', PStr (pt_id t)),
     (''task_ordinal'', PInt (pt_ordinal t)),
     (''worker_seed'', PInt (pt_worker t))]"

record parallel_attempt =
  pa_task :: parallel_task
  pa_number :: int
  pa_id :: string
  pa_generation :: int

text \<open>The dictionary is built, but the method has no \<open>return\<close>.\<close>

definition attempt_to_dict :: "parallel_attempt \<Rightarrow> pyval" where
  "attempt_to_dict a =
    (let identity = canonical_entries
      [(''attempt'', PInt (pa_number a)), (''attempt_id'', PStr (pa_id a)), (''core_seed'', PList (map PInt (pt_core (pa_task a)))),
       (''logical_worker_slot'', PInt (pt_slot (pa_task a))), (''python_seed'', PInt (pt_python (pa_task a))),
       (''replacement_generation'', PInt (pa_generation a)), (''schema_version'', PStr PARALLEL_ATTEMPT_SCHEMA_VERSION),
       (''task_id'', PStr (pt_id (pa_task a))), (''worker_seed'', PInt (pt_worker (pa_task a)))]
     in PNone)"

section \<open>Results\<close>

datatype result_status = RESULT_SUCCESS | RETRYABLE_FAILURE | PERMANENT_FAILURE

fun result_status_value :: "result_status \<Rightarrow> string" where
  "result_status_value RESULT_SUCCESS = ''success''"
| "result_status_value RETRYABLE_FAILURE = ''retryable_failure''"
| "result_status_value PERMANENT_FAILURE = ''permanent_failure''"

definition result_status_of :: "pyval \<Rightarrow> py_error + result_status" where
  "result_status_of = enum_of ''ParallelResultStatus'' result_status_value [RESULT_SUCCESS, RETRYABLE_FAILURE, PERMANENT_FAILURE]"

record task_result =
  tr_task :: string
  tr_attempt :: int
  tr_attempt_id :: string
  tr_node :: string
  tr_score :: pyval
  tr_ref :: "string option"
  tr_digest :: "string option"
  tr_failure :: "failure_record option"
  tr_logs :: "pydict list"

fun check_logs :: "int \<Rightarrow> pyval list \<Rightarrow> py_error + pydict list" where
  "check_logs n [] = Inr []"
| "check_logs n (v # vs) =
    (case v of
       PDict d \<Rightarrow>
         if \<not> eq_int (dict_get d ''local_sequence'') n
         then Inl (ValueError ''log local_sequence must be contiguous from 0'')
         else
         sbind (check_string (dict_get d ''event_type'') ''log.event_type'') (\<lambda>_.
         case dict_get d ''payload'' of
           PDict p \<Rightarrow> sbind (check_logs (n + 1) vs) (\<lambda>ds. Inr (d # ds))
         | _ \<Rightarrow> Inl (ValueError ''log.payload must be a mapping''))
     | _ \<Rightarrow> Inl (ValueError ''each log record must be a mapping''))"

definition make_result :: "(string \<Rightarrow> pyval) \<Rightarrow> failure_record option \<Rightarrow> pyval list \<Rightarrow> py_error + task_result" where
  "make_result v failure logs =
    sbind (check_string (v ''task_id'') ''task_id'') (\<lambda>task.
    sbind (check_string (v ''attempt_id'') ''attempt_id'') (\<lambda>attempt_id.
    sbind (check_string (v ''node_id'') ''node_id'') (\<lambda>node.
    sbind (natural_number (v ''attempt'') ''attempt'') (\<lambda>n.
    sbind (case failure of
        None \<Rightarrow>
          sbind (finite_score (v ''score'') ''score'') (\<lambda>_.
          sbind (check_string (v ''result_ref'') ''result_ref'') (\<lambda>ref.
          sbind (check_string (v ''result_digest'') ''result_digest'') (\<lambda>digest. Inr (Some ref, Some digest))))
      | Some f \<Rightarrow>
          if v ''score'' \<noteq> PNone \<or> v ''result_ref'' \<noteq> PNone \<or> v ''result_digest'' \<noteq> PNone
          then Inl (ValueError ''failed result must not have score or result reference'')
          else Inr (None, None)) (\<lambda>(ref, digest).
    sbind (check_logs 0 logs) (\<lambda>ds.
    Inr \<lparr>tr_task = task, tr_attempt = n, tr_attempt_id = attempt_id, tr_node = node, tr_score = v ''score'', tr_ref = ref,
      tr_digest = digest, tr_failure = failure, tr_logs = ds\<rparr>))))))"

definition status_of_result :: "task_result \<Rightarrow> result_status" where
  "status_of_result r =
    (case tr_failure r of
       None \<Rightarrow> RESULT_SUCCESS
     | Some f \<Rightarrow> if f_retryable f then RETRYABLE_FAILURE else PERMANENT_FAILURE)"

definition attempt_fields :: "parallel_attempt \<Rightarrow> pydict" where
  "attempt_fields a =
    [(''task_id'', PStr (pt_id (pa_task a))), (''attempt'', PInt (pa_number a)), (''attempt_id'', PStr (pa_id a)),
     (''node_id'', PStr (pc_node (pt_candidate (pa_task a))))]"

definition success_result :: "parallel_attempt \<Rightarrow> pyval \<Rightarrow> pyval \<Rightarrow> pyval \<Rightarrow> pyval list \<Rightarrow> py_error + task_result" where
  "success_result a score_value ref digest logs =
    make_result (dict_get (attempt_fields a @ [(''score'', score_value), (''result_ref'', ref), (''result_digest'', digest)])) None logs"

definition failure_result :: "parallel_attempt \<Rightarrow> failure_record \<Rightarrow> pyval list \<Rightarrow> py_error + task_result" where
  "failure_result a failure logs = make_result (dict_get (attempt_fields a)) (Some failure) logs"

definition result_identity :: "task_result \<Rightarrow> pydict" where
  "result_identity r = canonical_entries
    [(''attempt'', PInt (tr_attempt r)),
     (''attempt_id'', PStr (tr_attempt_id r)),
     (''failure'', (case tr_failure r of None \<Rightarrow> PNone | Some f \<Rightarrow> PDict (failure_to_dict f))),
     (''logs'', PList (map PDict (tr_logs r))),
     (''node_id'', PStr (tr_node r)),
     (''result_digest'', opt_str (tr_digest r)),
     (''result_ref'', opt_str (tr_ref r)),
     (''schema_version'', PStr PARALLEL_RESULT_SCHEMA_VERSION),
     (''score'', tr_score r),
     (''status'', PStr (result_status_value (status_of_result r))),
     (''task_id'', PStr (tr_task r))]"

definition result_id :: "task_result \<Rightarrow> py_error + string" where
  "result_id r = stable_digest (PDict (result_identity r)) ''taskresult_''"

definition result_to_dict :: "task_result \<Rightarrow> py_error + pydict" where
  "result_to_dict r = sbind (result_id r) (\<lambda>i. Inr (result_identity r @ [(''result_id'', PStr i)]))"

definition RESULT_FIELDS :: "string list" where
  "RESULT_FIELDS = [''attempt'', ''attempt_id'', ''failure'', ''logs'', ''node_id'', ''result_digest'', ''result_id'',
     ''result_ref'', ''schema_version'', ''score'', ''status'', ''task_id'']"

definition RESULT_V1_FIELDS :: "string list" where
  "RESULT_V1_FIELDS = [''attempt'', ''attempt_id'', ''failure_category'', ''logs'', ''node_id'', ''result_digest'', ''result_id'',
     ''result_ref'', ''schema_version'', ''score'', ''status'', ''task_id'']"

definition stored_status :: "pydict \<Rightarrow> string \<Rightarrow> py_error + result_status" where
  "stored_status d message = (case result_status_of (dict_get d ''status'') of Inl _ \<Rightarrow> Inl (ValueError message) | Inr s \<Rightarrow> Inr s)"

text \<open>What a result of the first schema says about its failure.\<close>

definition migrated_failure :: "string \<Rightarrow> result_status \<Rightarrow> py_error + failure_record" where
  "migrated_failure category status =
    (let again = (status = RETRYABLE_FAILURE);
         recovery = (if again then REPLACE_WORKER else STOP_PATH) in
     build_failure \<lparr>f_category = category, f_disposition = PATH_FAILURE, f_recovery = recovery, f_retryable = again,
       f_message = ''migrated v1 parallel failure: '' @ category, f_exception_type = None,
       f_context = [(''inferred_disposition'', PStr (disposition_value PATH_FAILURE)),
         (''inferred_recovery'', PStr (recovery_value recovery)),
         (''source_schema_version'', PStr LEGACY_PARALLEL_RESULT_SCHEMA_VERSION),
         (''source_status'', PStr (result_status_value status))]\<rparr>)"

definition result_from_v1_dict :: "pydict \<Rightarrow> py_error + task_result" where
  "result_from_v1_dict d =
    (if fst ` set d \<noteq> set RESULT_V1_FIELDS
     then Inl (ValueError (''parallel result v1 fields must be exactly '' @ repr_strs RESULT_V1_FIELDS))
     else
     sbind (stable_digest (PDict (canonical_entries (filter (\<lambda>(k, v). k \<noteq> ''result_id'') d))) ''taskresult_'') (\<lambda>expected.
     if dict_get d ''result_id'' \<noteq> PStr expected
     then Inl (ValueError ''parallel result v1 result_id does not match content'')
     else
     sbind (stored_status d ''parallel result v1 status is invalid'') (\<lambda>status.
     case dict_get d ''logs'' of
       PList logs \<Rightarrow>
         sbind (if status = RESULT_SUCCESS
           then (if dict_get d ''failure_category'' \<noteq> PNone
                 then Inl (ValueError ''successful v1 result must not have failure_category'') else Inr None)
           else sbind (check_string (dict_get d ''failure_category'') ''failure_category'') (\<lambda>category.
             sbind (migrated_failure category status) (\<lambda>f. Inr (Some f)))) (\<lambda>failure.
         sbind (make_result (dict_get d) failure logs) (\<lambda>r.
         if status_of_result r \<noteq> status then Inl (ValueError ''parallel result v1 status is inconsistent'') else Inr r))
     | _ \<Rightarrow> Inl (ValueError ''parallel result v1 logs must be a list''))))"

definition result_from_dict :: "pyval \<Rightarrow> py_error + task_result" where
  "result_from_dict value =
    (case value of
       PDict d \<Rightarrow>
         if dict_get d ''schema_version'' = PStr LEGACY_PARALLEL_RESULT_SCHEMA_VERSION then result_from_v1_dict d
         else if dict_get d ''schema_version'' \<noteq> PStr PARALLEL_RESULT_SCHEMA_VERSION
         then Inl (ValueError ''unsupported parallel result schema'')
         else if fst ` set d \<noteq> set RESULT_FIELDS
         then Inl (ValueError (''parallel result v2 fields must be exactly '' @ repr_strs RESULT_FIELDS))
         else
         sbind (case dict_get d ''failure'' of
             PNone \<Rightarrow> Inr None
           | PDict f \<Rightarrow> sbind (failure_from_dict (PDict f)) (\<lambda>f. Inr (Some f))
           | _ \<Rightarrow> Inl (ValueError ''parallel result failure must be a mapping or None'')) (\<lambda>failure.
         case dict_get d ''logs'' of
           PList logs \<Rightarrow>
             sbind (make_result (dict_get d) failure logs) (\<lambda>r.
             sbind (stored_status d ''parallel result status is invalid'') (\<lambda>status.
             if status \<noteq> status_of_result r then Inl (ValueError ''parallel result status does not match failure'')
             else
             sbind (result_to_dict r) (\<lambda>written.
             if \<not> py_eq (PDict written) (to_canonical_data (PDict d))
             then Inl (ValueError ''parallel result v2 is not canonical'')
             else Inr r)))
         | _ \<Rightarrow> Inl (ValueError ''parallel result logs must be a list''))
     | _ \<Rightarrow> Inl (ValueError ''parallel task result must be a mapping''))"

section \<open>Plans\<close>

record parallel_plan =
  pl_experiment :: string
  pl_run :: string
  pl_policy :: parallel_policy
  pl_tasks :: "parallel_task list"
  pl_duplicates :: "pydict list"

text \<open>The candidates with a work key, the first of which is kept; the others are reported.\<close>

definition work_group :: "parallel_candidate list \<Rightarrow> string \<Rightarrow> parallel_candidate list" where
  "work_group cs k = sort_key pc_id (filter (\<lambda>c. pc_work c = k) cs)"

definition keep_one :: "parallel_candidate list \<Rightarrow> string \<Rightarrow> py_error + parallel_candidate \<times> pydict list" where
  "keep_one cs k =
    (let group = work_group cs k; kept = hd group in
     if length (remdups (map pc_node group)) \<noteq> 1
     then Inl (ValueError ''duplicate work_key candidates must reference the same node_id'')
     else Inr (kept, map (\<lambda>c. [(''dropped_candidate_id'', PStr (pc_id c)), (''kept_candidate_id'', PStr (pc_id kept)),
       (''work_key'', PStr k)]) (tl group)))"

definition make_task :: "string \<Rightarrow> parallel_policy \<Rightarrow> int \<Rightarrow> parallel_candidate \<Rightarrow> parallel_task" where
  "make_task experiment p ordinal c =
    (let task = safe_digest [(''experiment_id'', PStr experiment), (''node_id'', PStr (pc_node c)), (''work_key'', PStr (pc_work c))] ''task_'';
         slot = ordinal mod pp_pool p in
     \<lparr>pt_id = task, pt_ordinal = ordinal, pt_slot = slot, pt_candidate = c, pt_core = seed_words (pp_seed p) ''task'' task,
      pt_python = seed_word [(''base_seed'', PInt (pp_seed p)), (''namespace'', PStr ''python_task''), (''task_id'', PStr task)],
      pt_worker = seed_word [(''base_seed'', PInt (pp_seed p)), (''experiment_id'', PStr experiment),
        (''logical_worker_slot'', PInt slot), (''namespace'', PStr ''logical_worker'')]\<rparr>)"

definition build_plan ::
  "string \<Rightarrow> string \<Rightarrow> parallel_policy \<Rightarrow> parallel_candidate list \<Rightarrow> py_error + parallel_plan"
where
  "build_plan experiment run_name p cs =
    sbind (need_text experiment ''experiment_id'') (\<lambda>_.
    sbind (need_text run_name ''run_id'') (\<lambda>_.
    sbind (sseq (map (keep_one cs) (sort (remdups (map pc_work cs))))) (\<lambda>groups.
    Inr \<lparr>pl_experiment = experiment, pl_run = run_name, pl_policy = p,
      pl_tasks = map (\<lambda>(i, c). make_task experiment p (int i) c) (enumerate 0 (map fst groups)),
      pl_duplicates = concat (map snd groups)\<rparr>)))"

definition plan_identity :: "parallel_plan \<Rightarrow> pydict" where
  "plan_identity l = canonical_entries
    [(''duplicates'', PList (map PDict (pl_duplicates l))),
     (''experiment_id'', PStr (pl_experiment l)),
     (''policy'', PDict (parallel_policy_to_dict (pl_policy l))),
     (''run_id'', PStr (pl_run l)),
     (''schema_version'', PStr PARALLEL_SEARCH_PLAN_SCHEMA_VERSION),
     (''tasks'', PList (map (PDict \<circ> task_to_dict) (pl_tasks l)))]"

definition plan_id :: "parallel_plan \<Rightarrow> string" where
  "plan_id l = safe_digest (plan_identity l) ''plan_''"

definition plan_to_dict :: "parallel_plan \<Rightarrow> pydict" where
  "plan_to_dict l = plan_identity l @ [(''plan_id'', PStr (plan_id l))]"

definition plan_task :: "parallel_plan \<Rightarrow> string \<Rightarrow> py_error + parallel_task" where
  "plan_task l i =
    (case find (\<lambda>t. pt_id t = i) (pl_tasks l) of
       None \<Rightarrow> Inl (ValueError (''unknown task_id '' @ repr_str i))
     | Some t \<Rightarrow> Inr t)"

definition attempt_digest :: "string \<Rightarrow> string \<Rightarrow> int \<Rightarrow> string" where
  "attempt_digest run_name task n =
    safe_digest [(''attempt'', PInt n), (''run_id'', PStr run_name), (''task_id'', PStr task)] ''attempt_''"

definition plan_attempt :: "parallel_plan \<Rightarrow> string \<Rightarrow> int \<Rightarrow> py_error + parallel_attempt" where
  "plan_attempt l i n =
    sbind (plan_task l i) (\<lambda>t.
    sbind (natural_number (PInt n) ''attempt'') (\<lambda>_.
    if n > pp_retries (pl_policy l) then Inl (ValueError ''attempt exceeds max_retries'')
    else Inr \<lparr>pa_task = t, pa_number = n, pa_id = attempt_digest (pl_run l) (pt_id t) n, pa_generation = n\<rparr>))"

end
