(* ===== verification/Parallel_Results.thy ===== *)
theory Parallel_Results
  imports Parallel_Plan "HOL-Library.Product_Lexorder"
begin

text \<open>
  \<open>ParallelExecutionPlan.aggregate\<close> of \<open>engine/search/parallel.py\<close>: the results of the attempts, in whatever
  order they come, are checked against the plan and become one outcome for each task, a summary and the
  identifiers of the semantic result and of the execution.
\<close>

section \<open>Collecting\<close>

text \<open>An experiment failure is raised as \<open>FailureRecordError\<close>, which carries its record.\<close>

datatype aggregate_error = Experiment_Failed failure_record | Rejected py_error

fun rejecting :: "py_error + 'a \<Rightarrow> aggregate_error + 'a" where
  "rejecting (Inl e) = Inl (Rejected e)"
| "rejecting (Inr x) = Inr x"

definition check_result :: "parallel_plan \<Rightarrow> task_result list \<Rightarrow> task_result \<Rightarrow> aggregate_error + unit" where
  "check_result l seen r =
    sbind (case tr_failure r of
       Some f \<Rightarrow> if f_disposition f = EXPERIMENT_FAILURE then Inl (Experiment_Failed f) else Inr ()
     | None \<Rightarrow> Inr ()) (\<lambda>_.
    rejecting (
      sbind (plan_task l (tr_task r)) (\<lambda>t.
      sbind (plan_attempt l (pt_id t) (tr_attempt r)) (\<lambda>a.
      if tr_attempt_id r \<noteq> pa_id a then Inl (ValueError ''result attempt_id does not match plan'')
      else if tr_node r \<noteq> pc_node (pt_candidate t) then Inl (ValueError ''result node_id does not match task'')
      else if list_ex (\<lambda>s. tr_task s = pt_id t \<and> tr_attempt s = tr_attempt r) seen
      then Inl (ValueError ''duplicate result for task attempt'')
      else Inr ()))))"

fun check_results :: "parallel_plan \<Rightarrow> task_result list \<Rightarrow> task_result list \<Rightarrow> aggregate_error + unit" where
  "check_results l seen [] = Inr ()"
| "check_results l seen (r # rs) = sbind (check_result l seen r) (\<lambda>_. check_results l (seen @ [r]) rs)"

text \<open>The results of a task in the order of its attempts.\<close>

definition task_attempts :: "task_result list \<Rightarrow> parallel_task \<Rightarrow> task_result list" where
  "task_attempts rs t = sort_key tr_attempt (filter (\<lambda>r. tr_task r = pt_id t) rs)"

section \<open>Outcomes\<close>

datatype outcome_status = OUTCOME_SUCCESS | PENDING_INITIAL | PENDING_RETRY | FAILED_PERMANENT | FAILED_RETRY_EXHAUSTED

fun outcome_status_value :: "outcome_status \<Rightarrow> string" where
  "outcome_status_value OUTCOME_SUCCESS = ''success''"
| "outcome_status_value PENDING_INITIAL = ''pending_initial''"
| "outcome_status_value PENDING_RETRY = ''pending_retry''"
| "outcome_status_value FAILED_PERMANENT = ''failed_permanent''"
| "outcome_status_value FAILED_RETRY_EXHAUSTED = ''failed_retry_exhausted''"

definition status_of_attempts :: "parallel_policy \<Rightarrow> task_result list \<Rightarrow> outcome_status" where
  "status_of_attempts p attempts =
    (if attempts = [] then PENDING_INITIAL
     else case status_of_result (last attempts) of
       RESULT_SUCCESS \<Rightarrow> OUTCOME_SUCCESS
     | PERMANENT_FAILURE \<Rightarrow> FAILED_PERMANENT
     | RETRYABLE_FAILURE \<Rightarrow> if tr_attempt (last attempts) < pp_retries p then PENDING_RETRY else FAILED_RETRY_EXHAUSTED)"

definition check_attempts :: "task_result list \<Rightarrow> py_error + unit" where
  "check_attempts attempts =
    (if attempts \<noteq> [] \<and> map tr_attempt attempts \<noteq> map int [0..<length attempts]
     then Inl (ValueError ''task result attempts must be contiguous from 0'')
     else if \<not> list_all (\<lambda>r. status_of_result r = RETRYABLE_FAILURE) (butlast attempts)
     then Inl (ValueError ''results must stop after success or permanent failure'')
     else Inr ())"

definition merged_log :: "parallel_task \<Rightarrow> task_result \<Rightarrow> pydict \<Rightarrow> pydict" where
  "merged_log t r line = canonical_entries
    [(''attempt'', PInt (tr_attempt r)), (''event_type'', dict_get line ''event_type''),
     (''local_sequence'', dict_get line ''local_sequence''), (''logical_worker_slot'', PInt (pt_slot t)),
     (''payload'', dict_get line ''payload''), (''task_id'', PStr (pt_id t)), (''task_ordinal'', PInt (pt_ordinal t))]"

definition merged_logs :: "parallel_task \<Rightarrow> task_result list \<Rightarrow> pydict list" where
  "merged_logs t attempts = concat (map (\<lambda>r. map (merged_log t r) (tr_logs r)) attempts)"

definition failure_value :: "task_result \<Rightarrow> pyval" where
  "failure_value r = (case tr_failure r of None \<Rightarrow> PNone | Some f \<Rightarrow> PDict (failure_to_dict f))"

definition attempt_entry :: "task_result \<Rightarrow> py_error + pydict" where
  "attempt_entry r =
    sbind (result_id r) (\<lambda>i.
    Inr (canonical_entries
      [(''attempt'', PInt (tr_attempt r)), (''attempt_id'', PStr (tr_attempt_id r)), (''failure'', failure_value r),
       (''result_id'', PStr i), (''status'', PStr (result_status_value (status_of_result r)))]))"

definition when_successful :: "task_result list \<Rightarrow> (task_result \<Rightarrow> pyval) \<Rightarrow> pyval" where
  "when_successful attempts f =
    (if attempts \<noteq> [] \<and> status_of_result (last attempts) = RESULT_SUCCESS then f (last attempts) else PNone)"

record task_outcome =
  to_status :: outcome_status
  to_logs :: "pydict list"
  to_entry :: pydict

definition task_outcome_of :: "parallel_policy \<Rightarrow> task_result list \<Rightarrow> parallel_task \<Rightarrow> py_error + task_outcome" where
  "task_outcome_of p rs t =
    (let attempts = task_attempts rs t; status = status_of_attempts p attempts in
     sbind (check_attempts attempts) (\<lambda>_.
     sbind (sseq (map attempt_entry attempts)) (\<lambda>history.
     Inr \<lparr>to_status = status, to_logs = merged_logs t attempts, to_entry = canonical_entries
       [(''attempt_count'', PInt (int (length attempts))),
        (''attempt_history'', PList (map PDict history)),
        (''failure'', (if attempts = [] then PNone else failure_value (last attempts))),
        (''node_id'', PStr (pc_node (pt_candidate t))),
        (''result_digest'', when_successful attempts (opt_str \<circ> tr_digest)),
        (''result_ref'', when_successful attempts (opt_str \<circ> tr_ref)),
        (''score'', when_successful attempts tr_score),
        (''status'', PStr (outcome_status_value status)),
        (''task_id'', PStr (pt_id t)),
        (''task_ordinal'', PInt (pt_ordinal t))]\<rparr>)))"

section \<open>The aggregate\<close>

text \<open>The successful tasks with their last results, and the one that \<open>min\<close> chooses.\<close>

definition successful :: "parallel_policy \<Rightarrow> task_result list \<Rightarrow> parallel_task list \<Rightarrow> (parallel_task \<times> task_result) list" where
  "successful p rs ts = map (\<lambda>t. (t, last (task_attempts rs t)))
    (filter (\<lambda>t. status_of_attempts p (task_attempts rs t) = OUTCOME_SUCCESS) ts)"

definition success_order :: "float_arithmetic \<Rightarrow> parallel_task \<times> task_result \<Rightarrow> rat \<times> int \<times> string" where
  "success_order A = (\<lambda>(t, r). (- fl_value A (tr_score r), pt_ordinal t, pc_node (pt_candidate t)))"

definition best_success :: "float_arithmetic \<Rightarrow> (parallel_task \<times> task_result) list \<Rightarrow> (parallel_task \<times> task_result) option" where
  "best_success A xs = (case sort_key (success_order A) xs of [] \<Rightarrow> None | x # _ \<Rightarrow> Some x)"

definition count_outcomes :: "outcome_status list \<Rightarrow> task_outcome list \<Rightarrow> int" where
  "count_outcomes statuses os = int (length (filter (\<lambda>x. to_status x \<in> set statuses) os))"

definition summary_entries ::
  "float_arithmetic \<Rightarrow> (parallel_task \<times> task_result) list \<Rightarrow> task_outcome list \<Rightarrow> py_error + pydict"
where
  "summary_entries A winners os =
    sbind (fl_sum A (map (\<lambda>(t, r). fl_value A (tr_score r)) winners)) (\<lambda>total.
    Inr (canonical_entries
      [(''best_node_id'', opt_str (map_option (\<lambda>(t, r). pc_node (pt_candidate t)) (best_success A winners))),
       (''best_task_id'', opt_str (map_option (\<lambda>(t, r). pt_id t) (best_success A winners))),
       (''failed'', PInt (count_outcomes [FAILED_PERMANENT, FAILED_RETRY_EXHAUSTED] os)),
       (''pending'', PInt (count_outcomes [PENDING_INITIAL, PENDING_RETRY] os)),
       (''success'', PInt (int (length winners))),
       (''total_score'', PFloat total)]))"

definition without_slot :: "pydict \<Rightarrow> pydict" where
  "without_slot line = filter (\<lambda>(k, v). k \<noteq> ''logical_worker_slot'') line"

definition semantic_identity :: "pydict list \<Rightarrow> pydict list \<Rightarrow> pydict \<Rightarrow> pydict" where
  "semantic_identity logs outcomes summary = canonical_entries
    [(''logs'', PList (map (PDict \<circ> without_slot) logs)), (''outcomes'', PList (map PDict outcomes)),
     (''schema_version'', PStr PARALLEL_AGGREGATE_SCHEMA_VERSION), (''summary'', PDict summary)]"

definition execution_identity :: "pydict list \<Rightarrow> pydict list \<Rightarrow> string \<Rightarrow> string \<Rightarrow> pydict \<Rightarrow> pydict" where
  "execution_identity logs outcomes plan semantic summary = canonical_entries
    [(''logs'', PList (map PDict logs)), (''outcomes'', PList (map PDict outcomes)), (''plan_id'', PStr plan),
     (''schema_version'', PStr PARALLEL_AGGREGATE_SCHEMA_VERSION), (''semantic_result_id'', PStr semantic),
     (''summary'', PDict summary)]"

definition finish_aggregate ::
  "string \<Rightarrow> pydict list \<Rightarrow> pydict list \<Rightarrow> pydict \<Rightarrow> py_error + pydict"
where
  "finish_aggregate plan logs outcomes summary =
    (let meaning = semantic_identity logs outcomes summary in
     sbind (stable_digest (PDict meaning) ''parallelresult_'') (\<lambda>i.
     let execution = execution_identity logs outcomes plan i summary in
     sbind (stable_digest (PDict execution) ''parallelexec_'') (\<lambda>e.
     Inr (execution @ [(''aggregate_id'', PStr i), (''execution_id'', PStr e),
       (''semantic'', PDict (meaning @ [(''semantic_result_id'', PStr i)]))]))))"

definition aggregate :: "float_arithmetic \<Rightarrow> parallel_plan \<Rightarrow> task_result list \<Rightarrow> aggregate_error + pydict" where
  "aggregate A l rs =
    sbind (check_results l [] rs) (\<lambda>_.
    rejecting (
      sbind (sseq (map (task_outcome_of (pl_policy l) rs) (pl_tasks l))) (\<lambda>os.
      sbind (summary_entries A (successful (pl_policy l) rs (pl_tasks l)) os) (\<lambda>summary.
      finish_aggregate (plan_id l) (concat (map to_logs os)) (map to_entry os) summary))))"

end
