(* ===== verification/Parallel_Plan_Laws.thy ===== *)
theory Parallel_Plan_Laws
  imports Parallel_Results Cache_Formats
begin

text \<open>
  A plan does not depend on the order of the candidates, the aggregate does not depend on the order in
  which results arrive, what it says does not depend on the size of the pool, and it accounts for every
  task.
\<close>

section \<open>The order of the candidates\<close>

lemma sort_key_mset: "mset xs = mset ys \<Longrightarrow> inj_on f (set xs) \<Longrightarrow> sort_key f xs = sort_key f ys"
  by (rule sort_key_inj_key_eq) simp_all

lemma work_group_order:
  assumes "mset cs = mset ds" and "inj_on pc_id (set cs)"
  shows "work_group cs k = work_group ds k"
  unfolding work_group_def
proof (rule sort_key_mset)
  show "mset (filter (\<lambda>c. pc_work c = k) cs) = mset (filter (\<lambda>c. pc_work c = k) ds)"
    using assms(1) by simp
  show "inj_on pc_id (set (filter (\<lambda>c. pc_work c = k) cs))"
    using assms(2) by (rule inj_on_subset) simp
qed

lemma sort_remdups_set: "set xs = set ys \<Longrightarrow> sort (remdups xs) = sort (remdups (ys :: string list))"
  by (metis sorted_list_of_set_sort_remdups)

lemma build_plan_order:
  assumes "mset cs = mset ds" and "inj_on pc_id (set cs)"
  shows "build_plan e n p cs = build_plan e n p ds"
proof -
  have "keep_one cs = keep_one ds"
    by (intro ext) (simp add: keep_one_def work_group_order [OF assms])
  moreover have "sort (remdups (map pc_work cs)) = sort (remdups (map pc_work ds))"
    using mset_eq_setD [OF assms(1)] by (intro sort_remdups_set) simp
  ultimately show ?thesis by (simp add: build_plan_def)
qed

section \<open>The order of the results\<close>

lemma rejecting_Inr [monad_simps]: "rejecting m = Inr x \<longleftrightarrow> m = Inr x"
  by (cases m) simp_all

definition accepted_result :: "parallel_plan \<Rightarrow> task_result \<Rightarrow> bool" where
  "accepted_result l r \<longleftrightarrow> check_result l [] r = Inr ()"

definition result_key :: "task_result \<Rightarrow> string \<times> int" where
  "result_key r = (tr_task r, tr_attempt r)"

lemma plan_task_id: "plan_task l i = Inr t \<Longrightarrow> pt_id t = i \<and> t \<in> set (pl_tasks l)"
  by (auto simp: plan_task_def find_Some_iff split: option.splits)

lemma check_result_Inr: "check_result l seen r = Inr () \<longleftrightarrow> accepted_result l r \<and> result_key r \<notin> result_key ` set seen"
proof (cases "plan_task l (tr_task r)")
  case (Inl e)
  then show ?thesis by (auto simp: check_result_def accepted_result_def sbind_eq_Inr rejecting_Inr)
next
  case (Inr t)
  then have "pt_id t = tr_task r" using plan_task_id by blast
  then show ?thesis
    by (cases "plan_attempt l (tr_task r) (tr_attempt r)")
      (auto simp: check_result_def accepted_result_def sbind_eq_Inr rejecting_Inr Inr result_key_def list_ex_iff image_iff, metis)
qed

lemma check_results_Inr: "check_results l seen rs = Inr () \<longleftrightarrow>
    list_all (accepted_result l) rs \<and> distinct (map result_key rs) \<and> result_key ` set rs \<inter> result_key ` set seen = {}"
proof (induction rs arbitrary: seen)
  case (Cons r rs)
  have "check_results l seen (r # rs) = Inr () \<longleftrightarrow> check_result l seen r = Inr () \<and> check_results l (seen @ [r]) rs = Inr ()"
    by (auto simp: sbind_eq_Inr)
  then show ?case using Cons [of "seen @ [r]"] by (auto simp: check_result_Inr)
qed simp

lemma task_attempts_order:
  assumes "mset rs = mset rs'" and "distinct (map result_key rs)"
  shows "task_attempts rs t = task_attempts rs' t"
  unfolding task_attempts_def
proof (rule sort_key_mset)
  show "mset (filter (\<lambda>r. tr_task r = pt_id t) rs) = mset (filter (\<lambda>r. tr_task r = pt_id t) rs')"
    using assms(1) by simp
  show "inj_on tr_attempt (set (filter (\<lambda>r. tr_task r = pt_id t) rs))"
    using assms(2) by (auto simp: distinct_map inj_on_def result_key_def)
qed

lemma aggregate_order:
  assumes "mset rs = mset rs'" and "aggregate A l rs = Inr d"
  shows "aggregate A l rs' = Inr d"
proof -
  have ok: "check_results l [] rs = Inr ()" using assms(2) by (auto simp: aggregate_def sbind_eq_Inr)
  have set: "set rs = set rs'" using assms(1) by (rule mset_eq_setD)
  have "mset (map result_key rs) = mset (map result_key rs')" using assms(1) by simp
  then have "distinct (map result_key rs')" using ok by (metis check_results_Inr mset_eq_imp_distinct_iff)
  then have "check_results l [] rs' = Inr ()" using ok set by (simp add: check_results_Inr list_all_iff)
  moreover have "task_attempts rs t = task_attempts rs' t" for t
    using assms(1) ok by (intro task_attempts_order) (simp_all add: check_results_Inr)
  then have "task_outcome_of p rs = task_outcome_of p rs'" "successful p rs = successful p rs'" for p
    by (auto simp: task_outcome_of_def successful_def fun_eq_iff)
  ultimately show ?thesis using assms(2) ok by (simp add: aggregate_def)
qed

section \<open>The size of the pool\<close>

text \<open>The same task of another pool: only the slot and the seed of the worker differ.\<close>

definition same_task :: "parallel_task \<Rightarrow> parallel_task \<Rightarrow> bool" where
  "same_task t u \<longleftrightarrow> pt_id u = pt_id t \<and> pt_ordinal u = pt_ordinal t \<and> pt_candidate u = pt_candidate t \<and>
    pt_core u = pt_core t \<and> pt_python u = pt_python t"

definition same_plan :: "parallel_plan \<Rightarrow> parallel_plan \<Rightarrow> bool" where
  "same_plan l m \<longleftrightarrow> list_all2 same_task (pl_tasks l) (pl_tasks m) \<and> pl_run m = pl_run l \<and>
    pp_retries (pl_policy m) = pp_retries (pl_policy l) \<and> pl_duplicates m = pl_duplicates l"

lemma build_plan_pool:
  assumes "build_plan e n p cs = Inr l" and "pp_seed q = pp_seed p" and "pp_retries q = pp_retries p"
  obtains m where "build_plan e n q cs = Inr m" and "same_plan l m"
proof -
  obtain groups where g: "sseq (map (keep_one cs) (sort (remdups (map pc_work cs)))) = Inr groups"
    and l: "l = \<lparr>pl_experiment = e, pl_run = n, pl_policy = p,
      pl_tasks = map (\<lambda>(i, c). make_task e p (int i) c) (enumerate 0 (map fst groups)), pl_duplicates = concat (map snd groups)\<rparr>"
    using assms(1) by (auto simp: build_plan_def sbind_eq_Inr)
  let ?m = "\<lparr>pl_experiment = e, pl_run = n, pl_policy = q,
      pl_tasks = map (\<lambda>(i, c). make_task e q (int i) c) (enumerate 0 (map fst groups)), pl_duplicates = concat (map snd groups)\<rparr>"
  have "build_plan e n q cs = Inr ?m" using assms(1) g by (auto simp: build_plan_def sbind_eq_Inr)
  moreover have "same_task (make_task e p i c) (make_task e q i c)" for i c
    using assms(2) by (simp add: same_task_def make_task_def Let_def)
  then have "same_plan l ?m"
    using assms(3) by (auto simp: same_plan_def l list.rel_map list_all2_same)
  ultimately show thesis by (rule that)
qed

lemma without_slot_merged: "without_slot (merged_log t r x) =
    [(''attempt'', PInt (tr_attempt r)), (''event_type'', to_canonical_data (dict_get x ''event_type'')),
     (''local_sequence'', to_canonical_data (dict_get x ''local_sequence'')),
     (''payload'', to_canonical_data (dict_get x ''payload'')), (''task_id'', PStr (pt_id t)), (''task_ordinal'', PInt (pt_ordinal t))]"
  by (simp add: without_slot_def merged_log_def canonical_entries_sorted)

lemma merged_log_safe: "dict_safe (without_slot (merged_log t r x)) \<Longrightarrow> dict_safe (merged_log t r x)"
  unfolding without_slot_merged by (simp add: merged_log_def canonical_entries_sorted)

lemma same_task_attempts: "same_task t u \<Longrightarrow> task_attempts rs u = task_attempts rs t"
  by (simp add: same_task_def task_attempts_def)

text \<open>An outcome is the same for the same task, up to the slots its logs name.\<close>

definition same_outcome :: "task_outcome \<Rightarrow> task_outcome \<Rightarrow> bool" where
  "same_outcome x y \<longleftrightarrow> to_status y = to_status x \<and> to_entry y = to_entry x \<and>
    map without_slot (to_logs y) = map without_slot (to_logs x)"

lemma merged_logs_same: "same_task t u \<Longrightarrow> map without_slot (merged_logs u as) = map without_slot (merged_logs t as)"
  by (simp add: merged_logs_def map_concat comp_def without_slot_merged same_task_def)

lemma task_outcome_same:
  assumes "same_task t u" and "pp_retries q = pp_retries p" and "task_outcome_of p rs t = Inr x"
  shows "\<exists>y. task_outcome_of q rs u = Inr y \<and> same_outcome x y"
proof -
  have "status_of_attempts q = status_of_attempts p" using assms(2) by (intro ext) (simp add: status_of_attempts_def)
  moreover have "pt_id u = pt_id t" "pt_ordinal u = pt_ordinal t" "pt_candidate u = pt_candidate t"
    using assms(1) by (simp_all add: same_task_def)
  ultimately show ?thesis
    using assms(3) merged_logs_same [OF assms(1)]
    by (auto simp: task_outcome_of_def same_task_attempts [OF assms(1)] sbind_eq_Inr Let_def same_outcome_def)
qed

lemma outcomes_same:
  assumes "list_all2 same_task ts us" and "pp_retries q = pp_retries p" and "sseq (map (task_outcome_of p rs) ts) = Inr xs"
  shows "\<exists>ys. sseq (map (task_outcome_of q rs) us) = Inr ys \<and> list_all2 same_outcome xs ys"
  using assms(1,3)
proof (induction arbitrary: xs rule: list_all2_induct)
  case (Cons t ts u us)
  then obtain x xs' where x: "task_outcome_of p rs t = Inr x" "sseq (map (task_outcome_of p rs) ts) = Inr xs'" "xs = x # xs'"
    by (auto simp: sbind_eq_Inr)
  obtain y where "task_outcome_of q rs u = Inr y" "same_outcome x y"
    using task_outcome_same [OF Cons(1) assms(2) x(1)] by blast
  moreover obtain ys where "sseq (map (task_outcome_of q rs) us) = Inr ys" "list_all2 same_outcome xs' ys"
    using Cons.IH [OF x(2)] by blast
  ultimately show ?case by (simp add: x(3))
qed simp

lemma same_task_find:
  "list_all2 same_task ts us \<Longrightarrow> rel_option same_task (find (\<lambda>t. pt_id t = i) ts) (find (\<lambda>t. pt_id t = i) us)"
  by (induction rule: list_all2_induct) (auto simp: same_task_def)

lemma plan_task_same:
  assumes "same_plan l m"
  shows "(\<exists>t u. plan_task l i = Inr t \<and> plan_task m i = Inr u \<and> same_task t u) \<or> (\<exists>e. plan_task l i = Inl e \<and> plan_task m i = Inl e)"
proof -
  have "rel_option same_task (find (\<lambda>t. pt_id t = i) (pl_tasks l)) (find (\<lambda>t. pt_id t = i) (pl_tasks m))"
    using assms by (intro same_task_find) (simp add: same_plan_def)
  then show ?thesis by (cases rule: option.rel_cases) (auto simp: plan_task_def)
qed

lemma accepted_same:
  assumes "same_plan l m"
  shows "accepted_result m r = accepted_result l r"
proof -
  have retries: "pp_retries (pl_policy m) = pp_retries (pl_policy l)" "pl_run m = pl_run l"
    using assms by (simp_all add: same_plan_def)
  show ?thesis
    using plan_task_same [OF assms, of "tr_task r"]
  proof (elim disjE exE conjE)
    fix t u assume found: "plan_task l (tr_task r) = Inr t" "plan_task m (tr_task r) = Inr u" and same: "same_task t u"
    have "pt_id t = tr_task r" "pt_id u = tr_task r" using found plan_task_id by blast+
    then show ?thesis
      using found same
      by (simp add: accepted_result_def check_result_def plan_attempt_def retries same_task_def sbind_eq_Inr rejecting_Inr
          natural_number_def split: if_splits)
  qed (simp add: accepted_result_def check_result_def)
qed

lemma successful_same:
  assumes "list_all2 same_task ts us" and "pp_retries q = pp_retries p"
  shows "list_all2 (\<lambda>(t, r) (u, s). same_task t u \<and> s = r) (successful p rs ts) (successful q rs us)"
proof -
  have status: "status_of_attempts q = status_of_attempts p" using assms(2) by (intro ext) (simp add: status_of_attempts_def)
  show ?thesis
    using assms(1) by (induction rule: list_all2_induct) (auto simp: successful_def status same_task_attempts)
qed

lemma insort_same:
  assumes "list_all2 R xs ys" and "R x y" and "\<And>a b. R a b \<Longrightarrow> f b = f a"
  shows "list_all2 R (insort_key f x xs) (insort_key f y ys)"
  using assms(1)
proof (induction rule: list_all2_induct)
  case Nil
  show ?case using assms(2) by simp
next
  case (Cons a as b bs)
  have "f y = f x" "f b = f a" using assms(2,3) Cons(1) by simp_all
  then show ?case using Cons assms(2) by (cases "f x \<le> f a") simp_all
qed

lemma sort_same:
  assumes "list_all2 R xs ys" and "\<And>a b. R a b \<Longrightarrow> f b = f a"
  shows "list_all2 R (sort_key f xs) (sort_key f ys)"
  using assms(1) by (induction rule: list_all2_induct) (auto intro: insort_same assms(2))

lemma summary_same:
  assumes "list_all2 (\<lambda>(t, r) (u, s). same_task t u \<and> s = r) ws vs" and "list_all2 same_outcome xs ys"
  shows "summary_entries A vs ys = summary_entries A ws xs"
proof -
  let ?R = "\<lambda>(t, r) (u, s). same_task t u \<and> s = r"
  have order: "success_order A b = success_order A a" if "?R a b" for a b
    using that by (auto simp: success_order_def same_task_def)
  have "list_all2 ?R (sort_key (success_order A) ws) (sort_key (success_order A) vs)"
    using assms(1) order by (rule sort_same)
  then have best: "rel_option ?R (best_success A ws) (best_success A vs)"
    by (auto simp: best_success_def list_all2_Cons1 split: list.split)
  then have "map_option (\<lambda>(t, r). pc_node (pt_candidate t)) (best_success A vs) = map_option (\<lambda>(t, r). pc_node (pt_candidate t)) (best_success A ws)"
    "map_option (\<lambda>(t, r). pt_id t) (best_success A vs) = map_option (\<lambda>(t, r). pt_id t) (best_success A ws)"
    by (cases rule: option.rel_cases; auto simp: same_task_def)+
  moreover have "map (\<lambda>(t, r). fl_value A (tr_score r)) vs = map (\<lambda>(t, r). fl_value A (tr_score r)) ws"
    using assms(1) by (induction rule: list_all2_induct) auto
  moreover have "length vs = length ws" using assms(1) by (simp add: list_all2_lengthD)
  moreover have "count_outcomes st ys = count_outcomes st xs" for st
    using assms(2) by (induction rule: list_all2_induct) (auto simp: count_outcomes_def same_outcome_def)
  ultimately show ?thesis by (simp add: summary_entries_def)
qed

lemma finish_same:
  assumes "finish_aggregate plan logs es summary = Inr d" and "map without_slot logs' = map without_slot logs"
    and "list_all (\<lambda>x. dict_safe (without_slot x) \<longrightarrow> dict_safe x) logs'"
  shows "\<exists>d'. finish_aggregate plan' logs' es summary = Inr d' \<and>
    dict_get d' ''semantic'' = dict_get d ''semantic'' \<and> dict_get d' ''aggregate_id'' = dict_get d ''aggregate_id''"
proof -
  have same: "semantic_identity logs' es summary = semantic_identity logs es summary"
    using assms(2) by (simp only: semantic_identity_def map_map [symmetric])
  obtain i e where i: "stable_digest (PDict (semantic_identity logs es summary)) ''parallelresult_'' = Inr i"
    and d: "d = execution_identity logs es plan i summary @ [(''aggregate_id'', PStr i), (''execution_id'', PStr e),
       (''semantic'', PDict (semantic_identity logs es summary @ [(''semantic_result_id'', PStr i)]))]"
    using assms(1) by (auto simp: finish_aggregate_def sbind_eq_Inr Let_def)
  have "json_safe (PDict (semantic_identity logs' es summary))" using i same stable_digest_total by metis
  then have parts: "list_all (dict_safe \<circ> without_slot) logs'" "list_all dict_safe es" "dict_safe summary"
    by (simp_all add: semantic_identity_def list.pred_map comp_def)
  have "list_all dict_safe logs'" using parts(1) assms(3) by (simp add: list_all_iff)
  then have "json_safe (PDict (execution_identity logs' es plan' i summary))"
    using parts by (simp add: execution_identity_def list.pred_map comp_def)
  then obtain e' where e': "stable_digest (PDict (execution_identity logs' es plan' i summary)) ''parallelexec_'' = Inr e'"
    using stable_digest_total by metis
  have get: "dict_get (execution_identity lg es pl i summary @ r) k = dict_get r k"
    if "k \<in> {''semantic'', ''aggregate_id''}" for lg pl r k
    using that by (auto simp: dict_get_def map_add_def execution_identity_def split: option.split)
  show ?thesis
    using i e' by (simp add: finish_aggregate_def same Let_def d get)
qed

lemma outcome_logs_safe: "task_outcome_of p rs t = Inr x \<Longrightarrow> list_all (\<lambda>y. dict_safe (without_slot y) \<longrightarrow> dict_safe y) (to_logs x)"
  using merged_log_safe by (auto simp: task_outcome_of_def sbind_eq_Inr Let_def merged_logs_def list_all_iff)

lemma aggregate_pool:
  assumes plans: "same_plan l m" and agg: "aggregate A l rs = Inr d"
  shows "\<exists>d'. aggregate A m rs = Inr d' \<and> dict_get d' ''semantic'' = dict_get d ''semantic'' \<and>
    dict_get d' ''aggregate_id'' = dict_get d ''aggregate_id''"
proof -
  have retries: "pp_retries (pl_policy m) = pp_retries (pl_policy l)" and tasks: "list_all2 same_task (pl_tasks l) (pl_tasks m)"
    using plans by (simp_all add: same_plan_def)
  obtain xs summary where ok: "check_results l [] rs = Inr ()" and xs: "sseq (map (task_outcome_of (pl_policy l) rs) (pl_tasks l)) = Inr xs"
    and summary: "summary_entries A (successful (pl_policy l) rs (pl_tasks l)) xs = Inr summary"
    and d: "finish_aggregate (plan_id l) (concat (map to_logs xs)) (map to_entry xs) summary = Inr d"
    using agg by (auto simp: aggregate_def sbind_eq_Inr rejecting_Inr)
  have ok': "check_results m [] rs = Inr ()"
    using ok by (simp add: check_results_Inr accepted_same [OF plans] list_all_iff)
  obtain ys where ys: "sseq (map (task_outcome_of (pl_policy m) rs) (pl_tasks m)) = Inr ys" and same: "list_all2 same_outcome xs ys"
    using outcomes_same [OF tasks retries xs] by blast
  have "summary_entries A (successful (pl_policy m) rs (pl_tasks m)) ys = Inr summary"
    using summary_same [OF successful_same [OF tasks retries] same] summary by simp
  moreover have "map to_entry ys = map to_entry xs" "map without_slot (concat (map to_logs ys)) = map without_slot (concat (map to_logs xs))"
    using same by (induction rule: list_all2_induct) (auto simp: same_outcome_def)
  moreover have "list_all (\<lambda>y. dict_safe (without_slot y) \<longrightarrow> dict_safe y) (concat (map to_logs ys))"
  proof -
    have "\<forall>y \<in> set ys. \<exists>t. task_outcome_of (pl_policy m) rs t = Inr y"
      using ys unfolding sseq_eq_Inr by (metis (no_types, lifting) imageE image_eqI list.set_map)
    then show ?thesis using outcome_logs_safe by (fastforce simp: list_all_iff)
  qed
  ultimately show ?thesis
    using finish_same [OF d, of "concat (map to_logs ys)" "plan_id m"] ok' ys by (simp add: aggregate_def rejecting_Inr)
qed

section \<open>Accounts\<close>

lemma counts_add: "count_outcomes [OUTCOME_SUCCESS] os + count_outcomes [FAILED_PERMANENT, FAILED_RETRY_EXHAUSTED] os +
    count_outcomes [PENDING_INITIAL, PENDING_RETRY] os = int (length os)"
proof (induction os)
  case (Cons x os)
  then show ?case by (cases "to_status x") (simp_all add: count_outcomes_def)
qed (simp add: count_outcomes_def)

lemma outcomes_statuses:
  "sseq (map (task_outcome_of p rs) ts) = Inr xs \<Longrightarrow> length xs = length ts \<and>
    count_outcomes [OUTCOME_SUCCESS] xs = int (length (successful p rs ts))"
proof (induction ts arbitrary: xs)
  case (Cons t ts)
  then obtain x xs' where x: "task_outcome_of p rs t = Inr x" "sseq (map (task_outcome_of p rs) ts) = Inr xs'" "xs = x # xs'"
    by (auto simp: sbind_eq_Inr)
  then have "to_status x = status_of_attempts p (task_attempts rs t)" by (auto simp: task_outcome_of_def sbind_eq_Inr Let_def)
  then show ?case using Cons.IH [OF x(2)] by (simp add: x(3) count_outcomes_def successful_def)
qed (simp add: count_outcomes_def successful_def)

lemma best_success_maximal:
  "case best_success A ws of
     None \<Rightarrow> ws = []
   | Some (t, r) \<Rightarrow> (t, r) \<in> set ws \<and> list_all (\<lambda>(u, s). fl_value A (tr_score s) \<le> fl_value A (tr_score r)) ws"
proof (cases "sort_key (success_order A) ws")
  case Nil
  then have "ws = []" by (metis length_0_conv length_sort)
  then show ?thesis by (simp add: best_success_def)
next
  case (Cons w rest)
  have set: "set (w # rest) = set ws" by (metis Cons set_sort)
  have "sorted (map (success_order A) (w # rest))" by (metis Cons sorted_sort_key)
  then have least: "success_order A w \<le> success_order A v" if "v \<in> set ws" for v
    using that set by auto
  obtain t r where w: "w = (t, r)" by (cases w)
  have "fl_value A (tr_score s) \<le> fl_value A (tr_score r)" if "(u, s) \<in> set ws" for u s
    using least [OF that] by (auto simp: w success_order_def)
  then show ?thesis using set by (auto simp: best_success_def Cons w list_all_iff)
qed

definition summary_accounts :: "float_arithmetic \<Rightarrow> parallel_plan \<Rightarrow> task_result list \<Rightarrow> pydict \<Rightarrow> bool" where
  "summary_accounts A l rs summary \<longleftrightarrow>
    (let winners = successful (pl_policy l) rs (pl_tasks l) in
     dict_get summary ''success'' = PInt (int (length winners)) \<and>
     int_val (dict_get summary ''success'') + int_val (dict_get summary ''failed'') + int_val (dict_get summary ''pending'') =
       int (length (pl_tasks l)) \<and>
     (case best_success A winners of
        None \<Rightarrow> winners = [] \<and> dict_get summary ''best_task_id'' = PNone
      | Some (t, r) \<Rightarrow> (t, r) \<in> set winners \<and> dict_get summary ''best_task_id'' = PStr (pt_id t) \<and>
          list_all (\<lambda>(u, s). fl_value A (tr_score s) \<le> fl_value A (tr_score r)) winners))"

lemma aggregate_accounts:
  assumes "aggregate A l rs = Inr d"
  shows "case dict_get d ''summary'' of PDict summary \<Rightarrow> summary_accounts A l rs summary | _ \<Rightarrow> False"
proof -
  let ?ws = "successful (pl_policy l) rs (pl_tasks l)"
  obtain xs summary where xs: "sseq (map (task_outcome_of (pl_policy l) rs) (pl_tasks l)) = Inr xs"
    and summary: "summary_entries A ?ws xs = Inr summary"
    and d: "finish_aggregate (plan_id l) (concat (map to_logs xs)) (map to_entry xs) summary = Inr d"
    using assms by (auto simp: aggregate_def sbind_eq_Inr rejecting_Inr)
  obtain total where s: "summary = canonical_entries
      [(''best_node_id'', opt_str (map_option (\<lambda>(t, r). pc_node (pt_candidate t)) (best_success A ?ws))),
       (''best_task_id'', opt_str (map_option (\<lambda>(t, r). pt_id t) (best_success A ?ws))),
       (''failed'', PInt (count_outcomes [FAILED_PERMANENT, FAILED_RETRY_EXHAUSTED] xs)),
       (''pending'', PInt (count_outcomes [PENDING_INITIAL, PENDING_RETRY] xs)),
       (''success'', PInt (int (length ?ws))), (''total_score'', PFloat total)]"
    using summary by (auto simp: summary_entries_def sbind_eq_Inr)
  have "dict_get d ''summary'' = to_canonical_data (PDict summary)"
    using d by (auto simp: finish_aggregate_def sbind_eq_Inr Let_def execution_identity_def dict_get_def map_add_def)
  then have found: "dict_get d ''summary'' = PDict (canonical_entries summary)" by (simp only: canonical_PDict)
  note counts = counts_add [of xs] outcomes_statuses [OF xs]
  have "summary_accounts A l rs summary"
    using counts best_success_maximal [of ?ws A]
    by (auto simp: summary_accounts_def Let_def s opt_str_def split: option.split prod.split)
  then show ?thesis unfolding found by (simp add: s)
qed

end
