(* ===== verification/Parallel_Samples.thy ===== *)
theory Parallel_Samples
  imports Parallel_Plan_Laws
begin

text \<open>
  A plan and its results for the concrete instances of the laws: two candidates for the same work, of
  which one is kept, and a task whose first attempt is to be repeated and whose second succeeds.
\<close>

definition sample_arithmetic :: float_arithmetic where
  "sample_arithmetic = \<lparr>fl_value = (\<lambda>v. case v of PInt i \<Rightarrow> of_int i | _ \<Rightarrow> 0), fl_sum = (\<lambda>xs. Inr ''7.0'')\<rparr>"

definition sample_pool :: "int \<Rightarrow> parallel_policy" where
  "sample_pool n = \<lparr>pp_pool = n, pp_seed = 11, pp_retries = 1\<rparr>"

definition sample_work :: "string \<Rightarrow> parallel_candidate" where
  "sample_work i = \<lparr>pc_id = i, pc_node = ''node'', pc_work = ''work'', pc_payload = ''payload''\<rparr>"

definition sample_plan :: "int \<Rightarrow> parallel_plan" where
  "sample_plan n = \<lparr>pl_experiment = ''experiment'', pl_run = ''run'', pl_policy = sample_pool n,
     pl_tasks = [make_task ''experiment'' (sample_pool n) 0 (sample_work ''c1'')],
     pl_duplicates = [[(''dropped_candidate_id'', PStr ''c2''), (''kept_candidate_id'', PStr ''c1''), (''work_key'', PStr ''work'')]]\<rparr>"

definition sample_task :: parallel_task where
  "sample_task = make_task ''experiment'' (sample_pool 2) 0 (sample_work ''c1'')"

definition sample_crash :: failure_record where
  "sample_crash = \<lparr>f_category = ''worker_crash'', f_disposition = PATH_FAILURE, f_recovery = REPLACE_WORKER, f_retryable = True,
     f_message = ''the worker is gone'', f_exception_type = None, f_context = []\<rparr>"

definition sample_attempt :: "int \<Rightarrow> task_result" where
  "sample_attempt n = \<lparr>tr_task = pt_id sample_task, tr_attempt = n, tr_attempt_id = attempt_digest ''run'' (pt_id sample_task) n,
     tr_node = ''node'', tr_score = (if n = 0 then PNone else PInt 7), tr_ref = (if n = 0 then None else Some ''ref''),
     tr_digest = (if n = 0 then None else Some ''digest''), tr_failure = (if n = 0 then Some sample_crash else None),
     tr_logs = [[(''event_type'', PStr ''started''), (''local_sequence'', PInt 0), (''payload'', PDict [])]]\<rparr>"

definition sample_results :: "task_result list" where
  "sample_results = [sample_attempt 0, sample_attempt 1]"

lemma sample_built: "build_plan ''experiment'' ''run'' (sample_pool n) [sample_work ''c1'', sample_work ''c2''] = Inr (sample_plan n)"
  by (simp add: build_plan_def need_text_def keep_one_def work_group_def sample_work_def sample_plan_def Let_def)

lemma sample_ids: "inj_on pc_id (set [sample_work ''c1'', sample_work ''c2''])"
  by (simp add: sample_work_def)

lemma sample_fields:
  "pl_tasks (sample_plan 2) = [sample_task]" "pl_run (sample_plan 2) = ''run''" "pp_retries (pl_policy (sample_plan 2)) = 1"
  "pt_candidate sample_task = sample_work ''c1''" "pc_node (sample_work i) = ''node''"
  by (simp_all add: sample_plan_def sample_task_def sample_pool_def make_task_def Let_def sample_work_def)

lemma sample_attempt_fields:
  "tr_task (sample_attempt n) = pt_id sample_task" "tr_attempt (sample_attempt n) = n" "tr_node (sample_attempt n) = ''node''"
  "tr_attempt_id (sample_attempt n) = attempt_digest ''run'' (pt_id sample_task) n"
  "tr_failure (sample_attempt n) = (if n = 0 then Some sample_crash else None)"
  "tr_score (sample_attempt n) = (if n = 0 then PNone else PInt 7)"
  "status_of_result (sample_attempt n) = (if n = 0 then RETRYABLE_FAILURE else RESULT_SUCCESS)"
  by (simp_all add: sample_attempt_def status_of_result_def sample_crash_def)

lemma sample_checked: "check_results (sample_plan 2) [] sample_results = Inr ()"
  by (simp add: sample_results_def check_result_def sample_attempt_fields sample_fields plan_task_def plan_attempt_def
      natural_number_def sample_crash_def)

lemma sample_entry: "\<exists>d. attempt_entry (sample_attempt n) = Inr d \<and> dict_safe d"
proof -
  have "json_safe (PDict (result_identity (sample_attempt n)))"
    by (simp add: result_identity_def canonical_entries_sorted sample_attempt_def sample_crash_def failure_to_dict_def opt_str_def)
  then obtain i where "result_id (sample_attempt n) = Inr i" using stable_digest_total [of "PDict (result_identity (sample_attempt n))"] by (auto simp: result_id_def)
  then show ?thesis
    by (auto simp: attempt_entry_def canonical_entries_sorted failure_value_def sample_attempt_fields sample_crash_def failure_to_dict_def
        opt_str_def split: if_splits)
qed


lemma safe_canonical_dict: "dict_safe d \<Longrightarrow> dict_safe (sort_key fst (map (map_prod id to_canonical_data) d))"
  using json_safe_canonical [of "PDict d"] by simp

lemma finish_total:
  assumes "list_all dict_safe logs" and "list_all dict_safe es" and "dict_safe summary"
  shows "\<exists>d. finish_aggregate plan logs es summary = Inr d"
proof -
  have "dict_safe (without_slot d)" if "dict_safe d" for d
    using that by (induction d) (auto simp: without_slot_def)
  then have cut: "list_all (dict_safe \<circ> without_slot) logs" using assms(1) by (simp add: list_all_iff)
  obtain i where i: "stable_digest (PDict (semantic_identity logs es summary)) ''parallelresult_'' = Inr i"
    using stable_digest_total [of "PDict (semantic_identity logs es summary)" "''parallelresult_''"] cut assms
    by (auto simp: semantic_identity_def list.pred_map comp_def)
  moreover obtain e where "stable_digest (PDict (execution_identity logs es plan i summary)) ''parallelexec_'' = Inr e"
    using stable_digest_total [of "PDict (execution_identity logs es plan i summary)" "''parallelexec_''"] assms
    by (auto simp: execution_identity_def list.pred_map comp_def)
  ultimately show ?thesis by (simp add: finish_aggregate_def Let_def)
qed

lemma sample_attempts: "task_attempts sample_results sample_task = sample_results"
  by (simp add: task_attempts_def sample_results_def sample_attempt_fields)

lemma sample_outcome: "\<exists>x. task_outcome_of (sample_pool 2) sample_results sample_task = Inr x \<and> dict_safe (to_entry x) \<and>
    list_all dict_safe (to_logs x)"
proof -
  obtain d e where d: "attempt_entry (sample_attempt 0) = Inr d" "attempt_entry (sample_attempt 1) = Inr e" "dict_safe d" "dict_safe e"
    using sample_entry by metis
  have "check_attempts sample_results = Inr ()"
    by (simp add: check_attempts_def sample_results_def sample_attempt_fields upt_rec)
  with d show ?thesis
    by (simp add: task_outcome_of_def sample_attempts Let_def) (simp add: sample_results_def merged_logs_def merged_log_def canonical_entries_sorted
      safe_canonical_dict sample_attempt_fields when_successful_def status_of_attempts_def failure_value_def sample_attempt_def opt_str_def list_all_iff)
qed


lemma sample_aggregate: "\<exists>d. aggregate sample_arithmetic (sample_plan 2) sample_results = Inr d"
proof -
  obtain x where x: "task_outcome_of (sample_pool 2) sample_results sample_task = Inr x" "dict_safe (to_entry x)"
    "list_all dict_safe (to_logs x)"
    using sample_outcome by blast
  obtain s where s: "summary_entries sample_arithmetic (successful (sample_pool 2) sample_results [sample_task]) [x] = Inr s"
    by (simp add: summary_entries_def sample_arithmetic_def)
  have "dict_safe s"
    using s by (auto simp: summary_entries_def sample_arithmetic_def canonical_entries_sorted opt_str_def split: option.split)
  then obtain d where "finish_aggregate (plan_id (sample_plan 2)) (to_logs x) [to_entry x] s = Inr d"
    using finish_total [of "to_logs x" "[to_entry x]" s "plan_id (sample_plan 2)"] x(2,3) by auto
  then show ?thesis
    using x(1) s sample_checked by (simp add: aggregate_def sample_fields sample_plan_def [of 2] sample_task_def [symmetric])
qed

end
