(* ===== verification/Spec2Isabelle.thy ===== *)
theory Spec2Isabelle
  imports Sample_Answers Rejections Failures Turn_Lifecycle Monitor_Laws Budget_Laws Cache_Laws Strategy_Laws
    State_Laws Sampling_Laws Search_Results Parallel_Beam Player_Replay_Laws Job_Samples Parallel_Samples
begin

text \<open>
  A model of the core of \<open>ygo_effect_dsl\<close>: the bridge between the search over card-game duels and
  the native game core, the parts of the search engine that order the actions, remember replayed
  prefixes and decide when a path stops, and the checks that a replay runs in the environment and
  meets the requests it was recorded with.

  \<^bold>\<open>The program.\<close> A worker drives the native core (\<open>ocgcore\<close>, API 11.0) and hands the bytes it
  produces to \<open>OcgcoreMessageDecoder.decode_batch\<close>. Its messages become one pointer-free
  \<open>DecisionRequest\<close> with candidates. The search picks an \<open>Action\<close>, and
  \<open>ActionResponseEncoder.encode\<close> turns it into the bytes the core expects. Requests and actions
  are identified by digests of their canonical JSON, so that a route can be replayed. Errors on the
  way are classified into failure records; the turn lifecycle and the budget monitor end paths and
  searches. A strategy orders the actions of a node; the prefix cache keeps what replayed prefixes led
  to, under keys made from the replay and its manifest, and every hint it gives is verified by a
  replay. A catalog schedules searches, replays, imports, aggregations and exports as jobs that workers
  claim under a lease. Paths below are relative to \<open>src/src/ygo_effect_dsl\<close>.

  \<^bold>\<open>The theories.\<close>
  \<^item> \<open>Prelude\<close>: the error monad (\<open>sbind\<close>, \<open>sseq\<close>, \<open>read_many\<close>), decimal text, rule collections.
  \<^item> \<open>Py_Values\<close>: dynamically typed values, dictionaries as association lists in insertion order,
    the exceptions as the values of a sum type, and what \<open>json.dumps\<close> accepts (\<open>json_safe\<close>).
  \<^item> \<open>Canonical\<close>: \<open>engine/canonical.py\<close>; canonical data, its JSON text, SHA-256 (of the standard
    library, written out) and the digest.
  \<^item> \<open>Struct_Codec\<close>, \<open>Message_Stream\<close>, \<open>Bridge_Reader\<close>: \<open>struct\<close> packing, \<open>split_message_stream\<close>,
    \<open>_Reader\<close> of \<open>engine/bridge/ocgcore/protocol.py\<close>; the reader is a record with its offset.
  \<^item> \<open>Decision\<close>, \<open>Action_Model\<close>: \<open>engine/bridge/decision.py\<close> and \<open>engine/action/models.py\<close>.
  \<^item> \<open>Message_Types\<close>, \<open>Decoders\<close>, \<open>Card_Decoders\<close>, \<open>Batch_Decoder\<close>: the message registry, one
    definition for each \<open>_decode_\<close> method of the decoder, and \<open>decode_batch\<close>.
  \<^item> \<open>Candidate_Readers\<close>, \<open>Decoder_Validity\<close>: the interface of the loops that read one candidate
    after the other, and that every decoder returns a request that passes validation.
  \<^item> \<open>Response_Codecs\<close>, \<open>Response_Encoder\<close>: the ten response layouts and \<open>encode\<close>,
    \<open>verify_trace\<close> of \<open>ActionResponseEncoder\<close>.
  \<^item> \<open>Codec_Laws\<close>, \<open>Encoder_Laws\<close>, \<open>Encoder_Facts\<close>, \<open>Answerable\<close>: the interface of a response
    layout, with the parser of the core's side as its specification; when a response is accepted;
    what the sum checks decide; that decoded candidates can be answered.
  \<^item> \<open>Response_Facts\<close>, \<open>Rejections\<close>: what the bytes of each layout say about the selections, and
    the contexts of rejected responses; \<open>Samples\<close>, \<open>Sample_Answers\<close>: concrete messages, requests
    and answers, at which the properties with hypotheses are applied.
  \<^item> \<open>Failures\<close>: \<open>engine/failures.py\<close> with the exception classes of \<open>bridge/errors.py\<close>,
    \<open>bridge/ocgcore/errors.py\<close> and \<open>replay/errors.py\<close>.
  \<^item> \<open>Turn_Lifecycle\<close>: \<open>engine/search/lifecycle.py\<close>.
  \<^item> \<open>Termination_Monitor\<close>, \<open>Monitor_Laws\<close>, \<open>Budget_Laws\<close>: \<open>engine/search/termination.py\<close>; the
    budget, the monitor as a record passed from call to call, its reachable states.
  \<^item> \<open>Canonical_Dicts\<close>: dictionaries written in key order and look-up in canonical form.
  \<^item> \<open>Replay_Difference\<close>: \<open>engine/replay/verifier.py\<close>; the walk to the first difference, with the
    relation \<open>same\<close> as its specification, and the check of recorded requests.
  \<^item> \<open>Replay_Manifest\<close>: \<open>engine/replay/manifest.py\<close>; manifests, their requirements and hash.
  \<^item> \<open>Cache_Model\<close>, \<open>Prefix_Cache\<close>: \<open>engine/search/cache.py\<close>; policy, key and entry, then
    \<open>ReplayPrefixCache\<close> as a record whose entries are an association list in order of use.
  \<^item> \<open>Cache_Formats\<close>, \<open>Cache_Laws\<close>: the interface of a pair of \<open>to_dict\<close> and \<open>from_dict\<close>,
    interpreted on policies, keys and entries; the least-recently-used store that the cache
    implements, the invariant of its reachable states and the round trip of the index. Evaluating
    \<open>policy_id\<close> on the default policy gives the identifier that
    \<open>docs/search/30_performance_architecture.md\<close> records.
  \<^item> \<open>Strategy\<close>, \<open>Strategy_Laws\<close>: \<open>engine/search/strategy.py\<close>; random and beam search, the reports
    on a strategy and the choice of one by an experiment.
  \<^item> \<open>State_Identity\<close>, \<open>State_Laws\<close>: \<open>engine/state/identity.py\<close> and \<open>engine/state/equivalence.py\<close>;
    the state of a duel with its identifier, exact and approximate keys, what a projection removes.
  \<^item> \<open>Information_Access\<close>, \<open>Information_Laws\<close>, \<open>Sampling_Laws\<close>: \<open>engine/information/access.py\<close>; the
    access policy, the audit passed from call to call, the draw of an opening hand and the
    validation of its reference, which is its own validation.
  \<^item> \<open>Search_Frontier\<close>, \<open>Search_Runtime\<close>, \<open>Search_Executor\<close>: \<open>engine/search/executor.py\<close>, with
    \<open>build_route_randomness_summary\<close> of \<open>engine/evaluation/randomness.py\<close> and \<open>build_search_node_id\<close> of
    \<open>engine/search/parallel.py\<close>; frontiers, routes, evidence and the coverage certificate, then the
    state of a run as a record passed from step to step, then the depth-first and the beam loop.
  \<^item> \<open>Executor_Frames\<close>, \<open>Executor_Laws\<close>, \<open>Executor_Limits\<close>: what each step leaves alone; the interface
    of an invariant of a run, interpreted on the accounts and on the names of the routes; the limits
    of the budget and that a limited run returns.
  \<^item> \<open>Search_Coverage\<close>, \<open>Search_Results\<close>: what an exhausted depth-first run has seen, as an invariant of
    its loop; the best route and the certificate; \<open>Parallel_Laws\<close>, \<open>Parallel_Beam\<close>: that a pool of
    workers does not change a run.

  \<^item> \<open>Player_View\<close>, \<open>Player_Replay\<close>: \<open>engine/replay/player_view.py\<close> with the snapshot of
    \<open>engine/bridge/ocgcore/state.py\<close> and the event of \<open>engine/replay/v03a.py\<close>; what one player is
    shown of a recorded duel. \<open>Player_View_Laws\<close>, \<open>Player_Replay_Laws\<close>: the relation \<open>same_input\<close>
    states what may be seen, over the raw recording, and the replay depends on nothing else.
  \<^item> \<open>Job_Spec\<close>, \<open>Job_Catalog\<close>, \<open>Job_Operations\<close>: \<open>storage/jobs.py\<close>; specifications, retry policies,
    artifacts and checkpoints, then the catalog of long-running jobs, a record of the tables of its SQLite
    file, with every operation of \<open>JobCatalog\<close> as one transaction.
  \<^item> \<open>Job_Steps\<close>, \<open>Job_Laws\<close>: the catalog as the transition system \<open>catalog_change\<close>, which every operation
    refines; runs of any calls, and the interfaces of an invariant and of a law between a catalog and a later
    one. \<open>Job_Guarantees\<close>, \<open>Job_Scheduling\<close>, \<open>Job_Commits\<close>: their interpretations, for the life of a
    job, permanence, checkpoints, dependencies, artifacts and the version of the file; leases.
  \<^item> \<open>Job_Sweeps\<close>, \<open>Job_Formats\<close>, \<open>Job_Samples\<close>: the sweeps of the scheduler, claims and repeated creations;
    that a specification reads back from its dictionary; concrete instances.
  \<^item> \<open>Parallel_Plan\<close>, \<open>Parallel_Results\<close>: \<open>engine/search/parallel.py\<close>; policies, candidates, tasks, attempts,
    results and plans with their dictionaries, then \<open>ParallelExecutionPlan.aggregate\<close>. \<open>Parallel_Plan_Laws\<close>,
    \<open>Parallel_Samples\<close>: that neither the order of candidates and results nor the size of the pool changes what
    is reported, and that the summary accounts for every task; a concrete plan with its results.

  \<^bold>\<open>Conventions.\<close> A Python \<open>int\<close> is an \<open>int\<close>; a byte is an \<open>8 word\<close>; a number of fixed width is
  packed only after the bounds \<open>struct\<close> checks, otherwise \<open>StructError\<close> is returned. An exception
  is \<open>Inl\<close> of the sum type. The loops of the modelled code are bounded by their input, so that the
  definitions are total, except the two loops of the executor: a search over an unbounded tree need
  not end, so \<open>depth_first\<close> and \<open>beam_layers\<close> take fuel, one unit for each round, and return \<open>None\<close>
  when it runs out; with a limit \<open>k\<close> on the nodes, \<open>k + 1\<close> rounds are enough (\<open>run_returns_in_budget\<close>). Fields that a dataclass annotates are typed as
  annotated; values that the code tests at run time are dynamic. The clock of the monitor is a
  parameter, a function from the number of readings so far; that it does not go backwards is the
  documented behaviour of \<open>time.monotonic\<close> and a named hypothesis where it matters. The adapter of the
  executor, which replays prefixes in the native core, is a function from prefixes to outcomes; that it
  replays actions by their identifiers (\<open>replays_by_key\<close>) and that an exact state decides how the duel
  goes on (\<open>states_decide\<close>) are named hypotheses where they matter. Scores are exact rationals with
  the text that shows them. Threads of a pool are represented by their results. What the job catalog uses
  of \<open>datetime\<close>, of floats and of SQLite's \<open>julianday\<close> is the parameter \<open>clockwork\<close>, of which nothing is
  assumed; a transaction of SQLite is atomic, and an operation that raises leaves the catalog as it was.
  The two transactions of
  \<open>schedule_retry\<close> are one step, as the second checks everything anew. The payload of a response may have
  dictionaries with keys that are no strings, in every other place the keys are strings. The clock of the executor
  is a function from the readings of one run to what they show, so that a statement about two runs compares
  them only where no limit is in seconds. What the aggregation of a parallel search uses of floats, the value
  of a score and \<open>math.fsum\<close>, is the parameter \<open>float_arithmetic\<close>, of which nothing is assumed.

  \<^bold>\<open>Not modelled.\<close> The native core, the worker processes and the \<open>ctypes\<close> layer; the command
  line, the desktop application, the storage of results in Parquet files, reports and the legacy pipeline; \<open>to_dict\<close> of a
  termination decision, which renders floats; the parameters of \<open>mcts_v1\<close>, which are floats and whose
  constructor is an argument of \<open>strategy_from_experiment\<close>, and the floating-point scores; reading and
  writing the index file of the prefix cache; \<open>action_from_dict\<close>; Monte Carlo tree search,
  whose values are floats and for which \<open>run_search\<close> has no result, and the run result with its route ranking; the evaluation of terminal
  preferences, an argument of the executor; pruning (\<open>engine/search/pruning.py\<close>), which bounds scores with
  logarithms and square roots of floats; the rules that compare states across engines
  and interruptions.
\<close>

section \<open>Messages of the core\<close>

text \<open>C1: the request of a decoded batch always passes the validation that every response is later
  held against: its candidates are pairwise distinct and named, it has a signature, and it offers
  something to choose. One message of the batch asks for a decision; the request has the type of that
  message and belongs to the player its first byte names, who also holds priority.\<close>

theorem decoded_request_valid:
  assumes "decode_batch data rid ctx core_logs = Inr b" and "request b = Some r"
    and "context_safe (base_context ctx)"
  shows "validate_decision_request r = Inr () \<and> request_id r = rid \<and> candidates r \<noteq> [] \<and>
    (player r = 0 \<or> player r = 1) \<and> priority_player (req_context r) = Some (player r) \<and>
    (\<exists>f. filter is_selection (frames b) = [f] \<and> frame_payload f \<noteq> [] \<and> player r = uint (hd (frame_payload f)) \<and>
      map_option message_type_name (message_type_of (frame_type f)) = Some (request_type r))"
  using decode_batch_ok(1) [OF assms] decode_batch_message [OF assms(1,2)] by (simp add: decoded_ok_def validate_request_iff)

theorem decoded_request_valid_witness:
  "\<exists>b. decode_batch yes_no_message ''r1'' None [] = Inr b \<and> request b = Some yes_no_request \<and>
    validate_decision_request yes_no_request = Inr ()"
  using decoded_request_valid [OF yes_no_decodes yes_no_simps(1,3)] yes_no_decodes yes_no_simps(1) by blast

text \<open>C2: a batch is accepted exactly when its bytes split into frames of which none is anything but
  silent, so that there is no request, or one is a selection its decoder accepts while all others are
  silent; nothing else gets through, and the frames and logs are handed on unchanged.\<close>

theorem decode_batch_iff:
  "decode_batch data rid ctx core_logs = Inr b \<longleftrightarrow>
    split_message_stream data = Inr (frames b) \<and> logs b = core_logs \<and>
    (case request b of
       None \<Rightarrow> list_all is_silent (frames b)
     | Some r \<Rightarrow> one_selection (frames b) rid (base_context ctx) r)"
  unfolding base_context_def
  by (cases b; cases "request b") (auto simp: decode_batch_def Let_def sbind_eq_Inr decode_frames_iff)

text \<open>C3: splitting inverts the core's framing: the result is a list of frames exactly when the data
  is the concatenation of their length-prefixed encodings, each of them within the limits.\<close>

theorem split_inverts_framing:
  "split_message_stream data = Inr fs \<longleftrightarrow>
    data = stream_bytes fs \<and> int (length data) \<le> MAX_MESSAGE_BYTES \<and> list_all frame_ok fs"
  using split_stream_iff [of data fs] by blast

text \<open>In an accepted batch every frame is silent or a selection, and there are as many selections
  as requests, at most one; in particular a frame of an unknown or refused type is never skipped.\<close>

theorem batch_frames_accounted:
  "case decode_batch data rid ctx core_logs of
     Inl e \<Rightarrow> True
   | Inr b \<Rightarrow> list_all (\<lambda>f. is_silent f \<noteq> is_selection f) (frames b) \<and>
       length (filter is_selection (frames b)) = (if request b = None then 0 else 1)"
proof (cases "decode_batch data rid ctx core_logs")
  case (Inr b)
  then have frames: "decode_frames (frames b) rid (base_context ctx) None = Inr (request b)"
    by (auto simp: decode_batch_def Let_def sbind_eq_Inr base_context_def)
  have silent: "list_all is_silent fs \<Longrightarrow> filter is_selection fs = []" for fs
    using silent_not_selection by (induction fs) auto
  have apart: "list_all is_silent fs \<Longrightarrow> list_all (\<lambda>f. is_silent f \<noteq> is_selection f) fs" for fs
    using silent_not_selection by (induction fs) auto
  show ?thesis
  proof (cases "request b")
    case None
    with frames silent apart Inr show ?thesis by (simp add: decode_frames_iff)
  next
    case (Some r)
    with frames obtain pre f m post where f: "frames b = pre @ f # post" "list_all is_silent pre"
      "list_all is_silent post" "message_type_of (frame_type f) = Some m"
      by (auto simp: decode_frames_iff one_selection_def)
    then have "is_selection f" by (metis is_selection_def message_type_of_None option.distinct(1))
    moreover from this have "\<not> is_silent f" using silent_not_selection by blast
    ultimately show ?thesis using f silent apart Inr Some by simp
  qed
qed simp

text \<open>C4: the selection bounds of a decoded request are within 0 and the number of its candidates, and the
  lower one does not exceed the upper one, for every message but one: a tribute selection that may not
  be cancelled and whose maximum the core sets to zero is decoded to a request that nothing answers.\<close>

theorem decoded_bounds_exact:
  assumes "decode_batch data rid ctx core_logs = Inr b" and "request b = Some r"
    and "context_safe (base_context ctx)"
  shows "0 \<le> min_selections (req_constraints r) \<and>
    max_selections (req_constraints r) \<le> int (length (candidates r)) \<and>
    (min_selections (req_constraints r) \<le> max_selections (req_constraints r) \<longleftrightarrow>
      \<not> (request_type r = ''select_tribute'' \<and> required (req_constraints r) \<and> max_selections (req_constraints r) = 0))"
proof (cases "request_type r = ''select_tribute''")
  case True
  then show ?thesis using decode_batch_tribute [OF assms(1,2)] by auto
next
  case False
  then show ?thesis using decode_batch_ok(2) [OF assms] by (simp add: bounds_ok_def)
qed

theorem decoded_bounds_exact_witness:
  "\<exists>b. decode_batch yes_no_message ''r1'' None [] = Inr b \<and> request b = Some yes_no_request \<and>
    min_selections (req_constraints yes_no_request) \<le> max_selections (req_constraints yes_no_request)"
  using decoded_bounds_exact [OF yes_no_decodes yes_no_simps(1,3)] yes_no_decodes yes_no_simps(1,2) by auto

text \<open>The type of a decoded request is the lower-case name of the message it came from, and the
  response encoder has a codec registered for it.\<close>

theorem decoded_request_has_codec:
  assumes "decode_batch data rid ctx core_logs = Inr b" and "request b = Some r"
  shows "\<exists>f m codec. f \<in> set (frames b) \<and> message_type_of (frame_type f) = Some m \<and>
    request_type r = message_type_name m \<and> map_of encoder_registry (request_type r) = Some codec"
  using decode_batch_request [OF assms] decoder_of_type registry_covers by metis

theorem decoded_request_has_codec_witness:
  "\<exists>b codec. decode_batch yes_no_message ''r1'' None [] = Inr b \<and> request b = Some yes_no_request \<and>
    map_of encoder_registry (request_type yes_no_request) = Some codec"
  using decoded_request_has_codec [OF yes_no_decodes yes_no_simps(1)] yes_no_decodes yes_no_simps(1) by blast

text \<open>The chain message is read to its last byte and no further: it has 15 bytes and 23 for every
  effect offered, and one more candidate, to pass, exactly when the chain is not forced.\<close>

theorem chain_message_length:
  "case decode_chain f rid base of
     Inl e \<Rightarrow> True
   | Inr r \<Rightarrow> length (frame_payload f) + 23 * of_bool (dict_get (extra (req_context r)) ''forced'' = PBool False)
       = 15 + 23 * length (candidates r)"
  using chain_length [of f rid base] by (cases "decode_chain f rid base") simp_all

section \<open>The job catalog\<close>

text \<open>C23: whatever is called on a fresh catalog in whatever order, every job has a history of allowed
  transitions, numbered from zero, that ends in its state; as many of them start an attempt as its
  counter says, at most \<open>max_attempts\<close>; a running job holds a lease, and a job that is neither running
  nor cancelling holds none; only a retrying job waits for a time; exactly a succeeded one names artifacts.\<close>

theorem job_lifelines: "lifelines (run_calls W calls empty_catalog)"
  by (rule lifeline.run)

text \<open>C24: nothing recorded in a catalog is rewritten by later calls: a cancelled, succeeded or
  quarantined job keeps its whole row, specifications stay in place, and transitions, dependencies,
  artifacts and checkpoints are only added.\<close>

theorem job_records_permanent:
  "permanent (run_calls W calls empty_catalog) (run_calls W (calls @ further) empty_catalog)"
  by (rule permanence.later)

text \<open>C25: the checkpoints of every job are numbered from zero without gaps, their progress does not go
  back, no recovery position is used twice, a known total stays, and each belongs to the input and to
  an attempt of an existing job.\<close>

theorem job_checkpoints_progress: "checkpoints_ok (run_calls W calls empty_catalog)"
  by (rule progress.run)

text \<open>C26: a job depends on jobs that were created before it, so that dependencies have no cycle, and an
  attempt of it was started only when all of them had succeeded.\<close>

theorem job_dependencies_first: "dependencies_ok (run_calls W calls empty_catalog)"
  using dependency.run by (simp add: dependency_laws_def)

text \<open>C27: artifacts and success are committed together: a job has artifacts exactly when it succeeded,
  and the identifier of the committed set is the digest of them; no artifact is committed twice and no
  job commits a path twice.\<close>

theorem job_results_committed: "results_committed (run_calls W calls empty_catalog)"
  using commitment.run by (rule commit_laws_results)

text \<open>C28: while a job is leased, a call of a worker on it (heartbeat, checkpoint, success, failure, retry,
  quarantine, end of a cancellation) changes the catalog only with the token of the current lease and
  before the lease expires.\<close>

theorem job_lease_fencing:
  assumes "perform_call W call c = Inr c'" and "worker_call call = Some (i, token, time)"
    and "find_job i c = Some r" and "jr_token r = Some t" and "jr_state r \<noteq> SUCCEEDED"
  shows "token = Some t \<and> time_reached W time (jr_expires r) = Inr False"
  using assms by (rule lease_needed)

theorem job_lease_fencing_witness:
  "time_reached sample_clock kept_at (jr_expires claimed_row) = Inr False"
proof -
  obtain c where "perform_call sample_clock (Heartbeat (job_id_of sample_job) sample_token kept_at (PInt 30)) claimed_catalog = Inr c"
    using sample_heartbeat by blast
  from job_lease_fencing [OF this _ claimed_found] show ?thesis by simp
qed

text \<open>C29: after a pass of the scheduler over a reachable catalog nothing is overdue: every active job has
  an unexpired lease, and no waiting job is past its deadline.\<close>

theorem job_sweep_leaves_nothing_overdue:
  assumes "reclaim_orphans W time actor (run_calls W calls empty_catalog) = Inr (reclaimed, d)"
    and "expire_pending_deadlines W time actor d = Inr (ended, e)"
  shows "list_all (\<lambda>r. if active r then time_reached W time (jr_expires r) = Inr False
    else if pending r then time_reached W time (js_deadline (jr_spec r)) = Inr False else True) (ct_jobs e)"
  using assms distinct_ids_run by (rule swept)

theorem job_sweep_leaves_nothing_overdue_witness:
  "\<exists>d. reclaim_orphans sample_clock lost_at ''scheduler'' claimed_catalog = Inr ([reclaimed_row], d) \<and>
    list_all (\<lambda>r. if active r then time_reached sample_clock lost_at (jr_expires r) = Inr False
      else if pending r then time_reached sample_clock lost_at (js_deadline (jr_spec r)) = Inr False else True) (ct_jobs d)"
proof -
  obtain d where d: "reclaim_orphans sample_clock lost_at ''scheduler'' claimed_catalog = Inr ([reclaimed_row], d)"
    "expire_pending_deadlines sample_clock lost_at ''scheduler'' d = Inr ([], d)"
    using sample_sweep by blast
  from job_sweep_leaves_nothing_overdue [OF d(1) [unfolded claimed_catalog_def] d(2)] d(1) show ?thesis by blast
qed

text \<open>C30: a claim on a reachable catalog takes the first runnable job in the order of priority, age and
  identifier, starts its next attempt and gives the worker the lease; it returns nothing exactly when no
  job of the kinds asked for is waiting, in time, with attempts left and with its dependencies met.\<close>

theorem job_claim_takes_first:
  assumes "c = run_calls W calls empty_catalog" and "claim_next W worker time seconds kinds c = Inr (x, c')"
    and "(case kinds of None \<Rightarrow> Inr all_job_kinds | Some vs \<Rightarrow> sseq (map job_kind_of vs)) = Inr accepted"
  shows "case x of
      None \<Rightarrow> \<not> list_ex (runnable W accepted time c) (ct_jobs c) \<and> ct_jobs c' = ct_jobs c
    | Some u \<Rightarrow> claims_first W accepted worker time c u \<and> find_job (jr_id u) c' = Some u"
  using claim_taken [OF assms(2) _ assms(3)] distinct_ids_run assms(1) by simp

theorem job_claim_takes_first_witness:
  "claims_first sample_clock all_job_kinds ''worker-1'' claimed_at created_catalog claimed_row"
  using job_claim_takes_first [OF created_catalog_def, of "''worker-1''" claimed_at "PInt 30" None "Some claimed_row" claimed_catalog]
    claimed_catalog_laws(1)
  by (simp add: created_catalog_eq)

text \<open>C31: creating a job is idempotent: after a creation and any further calls, the same specification
  is answered with the job that was created, whatever became of it, and the catalog is unchanged.\<close>

theorem job_creation_idempotent:
  assumes "create_job W s time actor (run_calls W calls empty_catalog) = Inr (r, c)"
    and "check_timestamp W time' ''created_at'' = Inr u" and "actor' \<noteq> []" and "d = run_calls W further c"
  shows "case create_job W s time' actor' d of
      Inl e \<Rightarrow> False
    | Inr (q, d') \<Rightarrow> jr_spec q = jr_spec r \<and> jr_id q = jr_id r \<and> d' = d"
  using assms by (rule recreated)

theorem job_creation_idempotent_witness:
  "case create_job sample_clock sample_job lost_at ''planner'' claimed_catalog of
      Inl e \<Rightarrow> False
    | Inr (q, d) \<Rightarrow> jr_spec q = sample_job \<and> jr_id q = job_id_of sample_job \<and> d = claimed_catalog"
proof -
  have first: "create_job sample_clock sample_job created_at ''planner'' (run_calls sample_clock [] empty_catalog) =
      Inr (new_job sample_job created_at, new_catalog)"
    by (simp add: run_calls_def sample_created)
  have "claimed_catalog = run_calls sample_clock [Claim_Next ''worker-1'' claimed_at (PInt 30) None] new_catalog"
    by (simp add: run_calls_def after_job_call_def catalog_of_def claimed_catalog_laws(1))
  from job_creation_idempotent [OF first _ _ this, of lost_at "()" "''planner''"] show ?thesis
    by (auto simp: created_tables split: sum.splits)
qed

text \<open>C32: the specification a job was created with reads back from what the catalog stores of it, the
  JSON text of its dictionary, with the entries in any order, under the same identifier.\<close>

theorem job_spec_roundtrip:
  assumes "make_retry_policy W w raw = Inr retry" and "make_job_spec W v kind deps retry = Inr s" and "tidy (v ''payload'')"
    and "tidy (PDict d)" and "canonical_entries d = canonical_entries (job_spec_to_dict s)"
  shows "job_spec_from_dict W d = Inr s \<and> canonical_json (PDict (job_spec_to_dict s)) = Inr (spec_json s)"
proof -
  have ok: "spec_ok W s"
    using make_job_spec_ok [OF assms(2,3) make_retry_policy_ok [OF assms(1)]] .
  then have "job_spec_from_dict W d = Inr s" using assms(4,5) by (intro spec_format.read_any_order) simp_all
  with ok show ?thesis by (simp add: spec_json_def json_text_eq spec_format.write_safe)
qed

theorem job_spec_roundtrip_witness: "job_spec_from_dict sample_clock (job_spec_to_dict sample_job) = Inr sample_job"
proof -
  have "spec_ok sample_clock sample_job"
    using make_job_spec_ok [OF sample_spec_made sample_payload_tidy make_retry_policy_ok [OF sample_retry_made]] .
  then have "tidy (PDict (job_spec_to_dict sample_job))" using spec_format.write_tidy by simp
  from job_spec_roundtrip [OF sample_retry_made sample_spec_made sample_payload_tidy this refl] show ?thesis by simp
qed

section \<open>Responses of the search\<close>

text \<open>C5: a candidate of a message answered with a 32-bit number is answered by that number: the encoder
  accepts the action that selects the one candidate and transmits the number the decoder attached to it,
  if the number is one of 32 bits, and rejects the action otherwise. In a batch of at most 229376 bytes,
  whose records are numbered in 15 bits, every number is; a batch may have 1048576 bytes.\<close>

theorem offered_candidates_encodable:
  assumes "decode_batch data rid ctx core_logs = Inr b" and "request b = Some r"
    and "context_safe (base_context ctx)" and "request_type r \<in> set int32_requests" and "c \<in> set (candidates r)"
    and "a_player a = player r" and "request_signature r = Inr (a_request_signature a)"
    and "map s_candidate_id (selections a) = [candidate_id c]" and "kinds_match a [c]"
  shows "case encode r a of
      Inl err \<Rightarrow> \<not> (- (2 ^ 31) \<le> response_value c \<and> response_value c < 2 ^ 31) \<and> index_safe_bytes < length data
    | Inr e \<Rightarrow> - (2 ^ 31) \<le> response_value c \<and> response_value c < 2 ^ 31 \<and>
        parse_int32 (er_data e) = Some (response_value c)"
proof -
  note answers = decode_batch_ok(4) [OF assms(1-4)]
  have "fits_int32 (PInt (response_value c)) \<or> index_safe_bytes < length data"
  proof (cases "length data \<le> index_safe_bytes")
    case True
    then show ?thesis using answers answerable_fits [OF _ assms(5)] by simp
  qed simp
  then show ?thesis
    using answerable_encodes [OF answers _ assms(4,5,9,6-8)] decode_batch_ok(1) [OF assms(1-3)]
    by (auto simp: decoded_ok_def fits_int32_PInt not_le split: sum.split)
qed

theorem offered_candidates_encodable_witness:
  "\<exists>sig e. encode yes_no_request (answer SELECT_OPTION 0 [pick (indexed ''choice'' 1) PNone PNone] sig) = Inr e \<and>
    parse_int32 (er_data e) = Some 1"
proof -
  have "request_valid yes_no_request"
    using decode_batch_ok(1) [OF yes_no_decodes yes_no_simps(1,3)] by (simp add: decoded_ok_def)
  then obtain sig where sig: "request_signature yes_no_request = Inr sig"
    using request_signature_total [of yes_no_request] by (auto simp: request_valid_def)
  let ?a = "answer SELECT_OPTION 0 [pick (indexed ''choice'' 1) PNone PNone] sig"
  let ?c = "candidates yes_no_request ! 1"
  have c: "?c \<in> set (candidates yes_no_request)" "candidate_id ?c = indexed ''choice'' 1" "response_value ?c = 1"
    "kinds_match ?a [?c]" "player yes_no_request = 0"
    by (simp_all add: yes_no_request_def response_value_def payload_get_def kinds_match_def)
  have short: "\<not> index_safe_bytes < length yes_no_message" by (simp add: index_safe_bytes_def yes_no_message_def)
  have "case encode yes_no_request ?a of
      Inl err \<Rightarrow> \<not> (- (2 ^ 31) \<le> response_value ?c \<and> response_value ?c < 2 ^ 31) \<and> index_safe_bytes < length yes_no_message
    | Inr e \<Rightarrow> - (2 ^ 31) \<le> response_value ?c \<and> response_value ?c < 2 ^ 31 \<and>
        parse_int32 (er_data e) = Some (response_value ?c)"
    by (rule offered_candidates_encodable [OF yes_no_decodes yes_no_simps(1,3) _ c(1) _ _ _ c(4)])
      (use sig c yes_no_simps in \<open>simp_all add: int32_requests_def answer_def pick_def\<close>)
  with c(3) short show ?thesis by (auto split: sum.splits)
qed

text \<open>C6: encoding succeeds exactly when the response is valid for the request (same identity, only
  offered candidates, within the selection bounds), comes from the deciding player, agrees with the
  action kinds the candidates declare, carries a valid order where one is required, and the codec of
  the request type yields a non-empty buffer within the size limit; the result is that buffer under
  the request's signature with the selected identifiers in their order.\<close>

theorem encode_succeeds_iff:
  "encode r a = Inr e \<longleftrightarrow>
    response_valid r (response_of r a) \<and> a_player a = player r \<and>
    (\<exists>codec cs bytes.
      map_of encoder_registry (request_type r) = Some codec \<and> chosen r a cs \<and> kinds_match a cs \<and>
      (if ordered (req_constraints r) then orders_valid (selections a) else True) \<and>
      codec r cs (selections a) = Inr bytes \<and> bytes \<noteq> [] \<and> int (length bytes) \<le> MAX_RESPONSE_BYTES \<and>
      e = encoded_of r a bytes)"
  by (rule encode_iff)

text \<open>A response that the encoder rejects as invalid is always reported with a context: the
  request and the answer, or at least the request's identity.\<close>

theorem rejection_reports_request:
  "case encode r a of
     Inl (InvalidResponse t ctx) \<Rightarrow>
       map fst ctx = [''request'', ''response''] \<or> take 2 (map fst ctx) = [''request_id'', ''request_type'']
   | _ \<Rightarrow> True"
  using reported_encode [of r a]
  by (auto simp: encode_def reported_def informative_def Let_def split: sum.splits py_error.splits)

section \<open>What a response transmits\<close>

text \<open>C7: a counter response distributes exactly the number of counters the core demands: one signed
  16-bit number for each candidate of the request, in its order, the sum of which is the required
  count; a selected card gives up the positive number its selection says, within what it has, and
  every other card none.\<close>

theorem counter_response_exact:
  assumes "encode r a = Inr e" and "request_type r = ''select_counter''"
    and "\<not> allow_duplicates (req_constraints r)"
  shows "sum_list (parse_counters (er_data e)) = int_val (extra_get r ''required_count'') \<and>
    list_all2 (assigned a) (candidates r) (parse_counters (er_data e))"
proof -
  have codec: "map_of encoder_registry (request_type r) = Some encode_counter_vector"
    by (simp add: assms(2) encoder_registry_def)
  from counter_layout.encoded [OF assms(1) codec] obtain cs where cs: "chosen r a cs"
    and enc: "encode_counter_vector r cs (selections a) = Inr (er_data e)"
    and parse: "parse_counters (er_data e) = counter_vector r cs (selections a)" .
  from assms(1) have "response_valid r (response_of r a)" unfolding encode_iff by blast
  from response_distinct [OF this assms(3)] have ids: "distinct (map s_candidate_id (selections a))"
    "distinct (map candidate_id (candidates r))" by blast+
  show ?thesis
    using counter_total [OF enc cs ids(2,1)] counter_assigned [OF enc cs ids(2,1)] parse
    by (simp add: counter_vector_def list_all2_map2 list_all2_same)
qed

theorem counter_response_exact_witness:
  "\<exists>sig e. encode counters_request (answer DISTRIBUTE_COUNTERS 0 counters_picks sig) = Inr e \<and>
    sum_list (parse_counters (er_data e)) = 3"
proof -
  obtain sig e where e: "encode counters_request (answer DISTRIBUTE_COUNTERS 0 counters_picks sig) = Inr e"
    using counters_encode by blast
  have "sum_list (parse_counters (er_data e)) = int_val (extra_get counters_request ''required_count'')"
    using counter_response_exact [OF e] by (simp add: counters_request_def)
  with e show ?thesis by (auto simp: counters_request_def)
qed

text \<open>A card response is the cancel value when nothing is selected, which the request must
  allow; otherwise the core reads from it exactly the indices of the selected cards, in strictly
  ascending order, each an unsigned 32-bit number, and as many as the core's own bounds admit.\<close>

theorem card_response_indices:
  assumes "encode r a = Inr e" and "request_type r = ''select_card''"
  shows "if selections a = [] then extra_get r ''cancelable'' = PBool True \<and> parse_int32 (er_data e) = Some (-1)
    else \<exists>cs ks. chosen r a cs \<and> parse_indices (er_data e) = Some ks \<and> sorted_wrt (<) ks \<and>
      set ks = response_index ` set cs \<and> length ks = length (selections a) \<and>
      list_all (\<lambda>k. 0 \<le> k \<and> k \<le> 0xFFFFFFFF) ks \<and>
      int_val (extra_get r ''core_min'') \<le> int (length ks) \<and> int (length ks) \<le> int_val (extra_get r ''core_max'')"
proof -
  have "map_of encoder_registry (request_type r) = Some encode_card_indices"
    by (simp add: assms(2) encoder_registry_def)
  from card_indices.encoded [OF assms(1) this] obtain cs where cs: "chosen r a cs"
    and enc: "encode_card_indices r cs (selections a) = Inr (er_data e)" .
  note len = chosen_length [OF cs]
  show ?thesis
  proof (cases "cs = []")
    case True
    with enc len show ?thesis
      by (simp add: encode_card_indices_Inr parse_int32_bytes fits_signed_def)
  next
    case False
    with enc have "encode_card_index_payload cs = Inr (er_data e)" by (simp add: encode_card_indices_Inr)
    then obtain ks where "parse_indices (er_data e) = Some ks" "sorted_wrt (<) ks"
      "set ks = response_index ` set cs" "length ks = length cs" "list_all (\<lambda>k. 0 \<le> k \<and> k \<le> 0xFFFFFFFF) ks"
      by (rule encoded_cards)
    with False enc len cs show ?thesis by (auto simp: encode_card_indices_Inr)
  qed
qed

theorem card_response_indices_witness:
  "\<exists>sig e ks. encode cards_request (answer SELECT_CARD 0 (picks [''card:1'', ''card:0'']) sig) = Inr e \<and>
    parse_indices (er_data e) = Some ks \<and> length ks = 2"
proof -
  obtain sig e where e: "encode cards_request (answer SELECT_CARD 0 (picks [''card:1'', ''card:0'']) sig) = Inr e"
    using cards_encode by blast
  have "\<exists>ks. parse_indices (er_data e) = Some ks \<and> length ks = 2"
    using card_response_indices [OF e] by (auto simp: cards_request_def picks_def)
  with e show ?thesis by blast
qed

text \<open>A tribute response names at most as many cards as the core allows, and what they count for
  together reaches the value the core demands.\<close>

theorem tribute_response_sufficient:
  assumes "encode r a = Inr e" and "request_type r = ''select_tribute''" and "selections a \<noteq> []"
  shows "\<exists>cs ks. chosen r a cs \<and> parse_indices (er_data e) = Some ks \<and> sorted_wrt (<) ks \<and>
    set ks = response_index ` set cs \<and> int (length ks) \<le> int_val (extra_get r ''core_max'') \<and>
    list_all (\<lambda>c. 0 < tribute_worth c) cs \<and>
    int_val (extra_get r ''core_min'') \<le> sum_list (map tribute_worth cs)"
proof -
  have "map_of encoder_registry (request_type r) = Some encode_tribute_indices"
    by (simp add: assms(2) encoder_registry_def)
  from tribute_indices.encoded [OF assms(1) this] obtain cs where cs: "chosen r a cs"
    and enc: "encode_tribute_indices r cs (selections a) = Inr (er_data e)" .
  have "cs \<noteq> []" using chosen_length [OF cs] assms(3) by auto
  with enc have pay: "encode_card_index_payload cs = Inr (er_data e)"
    and worth: "int (length cs) \<le> int_val (extra_get r ''core_max'')" "list_all (\<lambda>c. 0 < tribute_worth c) cs"
      "int_val (extra_get r ''core_min'') \<le> sum_list (map tribute_worth cs)"
    by (simp_all add: encode_tribute_indices_Inr list_all_iff)
  from pay obtain ks where "parse_indices (er_data e) = Some ks" "sorted_wrt (<) ks"
    "set ks = response_index ` set cs" "length ks = length cs" by (rule encoded_cards)
  with cs worth show ?thesis by auto
qed

theorem tribute_response_sufficient_witness:
  "\<exists>sig e ks. encode tribute_request (answer SELECT_TRIBUTE 0 (picks [''card:0'']) sig) = Inr e \<and>
    parse_indices (er_data e) = Some ks \<and> int (length ks) \<le> 2"
proof -
  obtain sig e where e: "encode tribute_request (answer SELECT_TRIBUTE 0 (picks [''card:0'']) sig) = Inr e"
    using tribute_encode by blast
  have "\<exists>ks. parse_indices (er_data e) = Some ks \<and> int (length ks) \<le> 2"
    using tribute_response_sufficient [OF e] by (auto simp: tribute_request_def picks_def)
  with e show ?thesis by blast
qed

text \<open>C8: a sum response is one the core accepts: with the values of the selected cards and of the
  cards that must be used, in the exact mode some choice of one of each card's values adds up to the
  target; in the threshold mode some choice reaches the target, and whichever card is left out, some
  choice of the others stays below it.\<close>

theorem sum_response_satisfies:
  assumes "encode r a = Inr e" and "request_type r = ''select_sum''"
  shows "\<exists>cs vs. chosen r a cs \<and> parse_indices (er_data e) = Some (cards_read cs) \<and>
    vs = must_worths r @ map sum_worth cs \<and> vs \<noteq> [] \<and>
    (if eq_int (extra_get r ''mode'') 0
     then \<exists>os. choices vs os \<and> sum_list os = int_val (extra_get r ''target'')
     else (\<exists>os. choices vs os \<and> int_val (extra_get r ''target'') \<le> sum_list os) \<and>
       list_all (\<lambda>i. \<exists>os. choices (take i vs @ drop (Suc i) vs) os \<and>
         sum_list os < int_val (extra_get r ''target'')) [0..<length vs])"
proof -
  have "map_of encoder_registry (request_type r) = Some encode_sum_indices"
    by (simp add: assms(2) encoder_registry_def)
  from sum_indices.encoded [OF assms(1) this] obtain cs where cs: "chosen r a cs"
    and enc: "encode_sum_indices r cs (selections a) = Inr (er_data e)"
    and parse: "parse_indices (er_data e) = Some (cards_read cs)" .
  note facts = encode_sum_indices_Inr [OF enc]
  from facts(3) minimal_threshold_iff [OF facts(2)] facts(2) cs parse show ?thesis
    by (intro exI [of _ cs] exI [of _ "must_worths r @ map sum_worth cs"])
      (auto simp: reachable_sums_iff simp del: append_is_Nil_conv)
qed

theorem sum_response_satisfies_witness:
  "\<exists>sig e ks. encode sum_request (answer SELECT_SUM 0 (picks [''card:0'', ''card:1'']) sig) = Inr e \<and>
    parse_indices (er_data e) = Some ks"
proof -
  obtain sig e where e: "encode sum_request (answer SELECT_SUM 0 (picks [''card:0'', ''card:1'']) sig) = Inr e"
    using sum_encode by blast
  have "request_type sum_request = ''select_sum''" by (simp add: sum_request_def)
  from sum_response_satisfies [OF e this] e show ?thesis by blast
qed

text \<open>The set of subtotals that the exact mode builds up card by card holds exactly the sums of
  one value of each card.\<close>

theorem reachable_sums_exact:
  "t \<in> set (reachable_sums vs) \<longleftrightarrow> (\<exists>os. list_all2 (\<lambda>v x. x \<in> set (sum_options v)) vs os \<and> sum_list os = t)"
  unfolding reachable_sums_iff choices_def ..

text \<open>A sort response is the byte 255, to keep the order, when the keep candidate alone is
  selected; otherwise the core reads from it one number for each card of the request, the number of
  the selection that names the card, and the numbers are a permutation of the positions.\<close>

theorem sort_response_permutation:
  assumes "encode r a = Inr e" and "request_type r \<in> {''sort_card'', ''sort_chain''}"
  shows "\<exists>cs. chosen r a cs \<and>
    (case parse_order (er_data e) of
       None \<Rightarrow> keeps_order cs \<and> length (selections a) = 1
     | Some vs \<Rightarrow> list_all2 (ordered_at (selections a)) (sort_cards r) vs \<and>
         mset vs = mset (map int [0..<length (sort_cards r)]))"
proof -
  have "map_of encoder_registry (request_type r) = Some encode_sort_order"
    using assms(2) by (auto simp: encoder_registry_def)
  from sort_order.encoded [OF assms(1) this] obtain cs where cs: "chosen r a cs"
    and enc: "encode_sort_order r cs (selections a) = Inr (er_data e)"
    and parse: "parse_order (er_data e) = (if keeps_order cs then None else Some (order_vector r cs (selections a)))" .
  have eq: "map candidate_id cs = map s_candidate_id (selections a)" using cs by (simp add: chosen_def)
  show ?thesis
    using cs parse chosen_length [OF cs] order_vector_facts [OF enc eq]
    by (intro exI [of _ cs]) (auto simp: keeps_order_def)
qed

theorem sort_response_permutation_witness:
  "\<exists>sig e. encode sort_request (answer ORDER_CARDS 0 sort_picks sig) = Inr e \<and> er_data e \<noteq> [0xFF]"
proof -
  obtain sig e where e: "encode sort_request (answer ORDER_CARDS 0 sort_picks sig) = Inr e"
    using sort_encode by blast
  have "request_type sort_request \<in> {''sort_card'', ''sort_chain''}" by (simp add: sort_request_def)
  from sort_response_permutation [OF e this] have "er_data e \<noteq> [0xFF]"
    by (auto simp: sort_picks_def parse_order_def)
  with e show ?thesis by blast
qed

text \<open>A race or attribute response has exactly the bits of the selected candidates, in the width
  the core expects.\<close>

theorem mask_response_bits:
  assumes "encode r a = Inr e" and "request_type r \<in> {''announce_race'', ''announce_attribute''}"
  shows "\<exists>cs. chosen r a cs \<and> length (er_data e) = (if eq_int (extra_get r ''response_width'') 64 then 8 else 4) \<and>
    (\<forall>n. bit (le_int (er_data e)) n \<longleftrightarrow> (\<exists>c. c \<in> set cs \<and> bit (response_bit c) n))"
proof -
  have "map_of encoder_registry (request_type r) = Some encode_bit_mask"
    using assms(2) by (auto simp: encoder_registry_def)
  from bit_mask.encoded [OF assms(1) this] obtain cs where cs: "chosen r a cs"
    and enc: "encode_bit_mask r cs (selections a) = Inr (er_data e)" .
  show ?thesis
    using cs encode_bit_mask_facts [OF enc] by (intro exI [of _ cs]) (simp add: bit_mask_of)
qed

theorem mask_response_bits_witness:
  "\<exists>sig e. encode mask_request (answer ANNOUNCE_ATTRIBUTE 0 (picks [''bit:0'', ''bit:4'']) sig) = Inr e \<and>
    length (er_data e) = 4"
proof -
  obtain sig e where e: "encode mask_request (answer ANNOUNCE_ATTRIBUTE 0 (picks [''bit:0'', ''bit:4'']) sig) = Inr e"
    using mask_encode by blast
  have "request_type mask_request \<in> {''announce_race'', ''announce_attribute''}" by (simp add: mask_request_def)
  from mask_response_bits [OF e this] have "length (er_data e) = 4" by (auto simp: mask_request_def)
  with e show ?thesis by blast
qed

text \<open>A place response lists the selected zones, each as controller, location and sequence, in
  ascending order and without repetition, in three bytes per zone.\<close>

theorem place_response_zones:
  assumes "encode r a = Inr e" and "request_type r \<in> {''select_place'', ''select_disabled_field''}"
  shows "\<exists>cs. chosen r a cs \<and> sorted_wrt (<) (parse_triplets (er_data e)) \<and>
    set (parse_triplets (er_data e)) = zone_of ` set cs \<and> length (er_data e) = 3 * length (selections a)"
proof -
  have "map_of encoder_registry (request_type r) = Some encode_place"
    using assms(2) by (auto simp: encoder_registry_def)
  from place_layout.encoded [OF assms(1) this] obtain cs where cs: "chosen r a cs"
    and enc: "encode_place r cs (selections a) = Inr (er_data e)" .
  show ?thesis
    using cs encode_place_facts [OF enc] chosen_length [OF cs]
    by (intro exI [of _ cs]) (simp add: strict_sorted_iff)
qed

theorem place_response_zones_witness:
  "\<exists>sig e. encode place_request (answer SELECT_ZONE 0 (picks [''zone:1:4:2'', ''zone:0:8:1'']) sig) = Inr e \<and>
    length (er_data e) = 6"
proof -
  obtain sig e where e: "encode place_request (answer SELECT_ZONE 0 (picks [''zone:1:4:2'', ''zone:0:8:1'']) sig) = Inr e"
    using place_encode by blast
  have "request_type place_request \<in> {''select_place'', ''select_disabled_field''}" by (simp add: place_request_def)
  from place_response_zones [OF e this] have "length (er_data e) = 6" by (auto simp: picks_def)
  with e show ?thesis by blast
qed

text \<open>A recorded trace verifies for an answer exactly when it is the trace of the response that
  encoding the answer yields: no other response has the same trace.\<close>

theorem trace_verifies_own_response:
  "verify_trace r a (to_trace_dict e) = Inr e' \<longleftrightarrow> encode r a = Inr e' \<and> e = e'"
  by (rule verify_trace_own)

section \<open>Identities\<close>

text \<open>The signature of a request does not depend on its identifier or on the labels shown with
  its candidates, so that a replay recognises the request of another run.\<close>

theorem signature_ignores_presentation:
  "request_signature (r\<lparr>request_id := i, candidates := map (\<lambda>c. c\<lparr>c_label := label c\<rparr>) (candidates r)\<rparr>) =
    request_signature r"
  by (simp add: request_signature_def to_signature_dict_def candidate_identity_dict_def o_def)

text \<open>The digest of a dictionary does not depend on the order of its entries.\<close>

theorem digest_ignores_entry_order:
  assumes "mset d = mset e" and "distinct (map fst d)"
  shows "stable_digest (PDict d) prefix = stable_digest (PDict e) prefix"
  using to_canonical_dict_order [OF assms] by (rule stable_digest_eq_canonical)

theorem digest_ignores_entry_order_witness:
  "stable_digest (PDict [(''a'', PInt 1), (''b'', PNone)]) ''x_'' =
    stable_digest (PDict [(''b'', PNone), (''a'', PInt 1)]) ''x_''"
  by (rule digest_ignores_entry_order) simp_all

text \<open>A value has a digest exactly when it is made of JSON types only, and a digest is the prefix
  followed by 64 lower-case hexadecimal digits.\<close>

theorem digest_shape:
  "case stable_digest v prefix of
     Inl e \<Rightarrow> \<not> json_safe v
   | Inr s \<Rightarrow> json_safe v \<and> (\<exists>h. s = prefix @ h \<and> length h = 64 \<and> list_all lower_hex h)"
proof (cases "stable_digest v prefix")
  case (Inl e)
  then show ?thesis using stable_digest_total [of v prefix] by auto
next
  case (Inr s)
  then have "json_safe v" using stable_digest_total [of v prefix] by blast
  with Inr show ?thesis by (auto elim: stable_digest_shape)
qed

text \<open>The response validation accepts exactly the responses of the request with its signature that
  select offered candidates, within the bounds and without forbidden repetitions, and whose payload can
  be canonicalized: in each dictionary of it with more than one entry, the keys are all strings or all
  numbers.\<close>

theorem response_validation_exact:
  "validate_decision_response r p = Inr () \<longleftrightarrow>
    validate_decision_request r = Inr () \<and> resp_request_id p = request_id r \<and>
    request_signature r = Inr (resp_request_signature p) \<and>
    set (selected_candidate_ids p) \<subseteq> candidate_id ` set (candidates r) \<and>
    min_selections (req_constraints r) \<le> int (length (selected_candidate_ids p)) \<and>
    int (length (selected_candidate_ids p)) \<le> max_selections (req_constraints r) \<and>
    (allow_duplicates (req_constraints r) \<or> distinct (selected_candidate_ids p)) \<and>
    payload_ordered (Fields (resp_payload p))"
  by (auto simp: validate_response_iff validate_request_iff response_valid_def list_all_iff simp del: payload_ordered.simps)

text \<open>The request validation accepts exactly the requests whose candidates are named and pairwise
  distinct and that consist of JSON types, which therefore have a signature.\<close>

theorem request_validation_exact:
  "validate_decision_request r = Inr () \<longleftrightarrow>
    [] \<notin> candidate_id ` set (candidates r) \<and> distinct (map candidate_id (candidates r)) \<and>
    (\<exists>sig. request_signature r = Inr sig)"
  by (auto simp: validate_request_iff request_valid_def request_signature_total list_all_iff image_iff)

text \<open>An action whose selections carry JSON values always gets a non-empty identifier, and filling
  it in changes nothing else.\<close>

theorem action_identifier_total:
  assumes "list_all (\<lambda>s. json_safe (order s) \<and> json_safe (s_value s)) (selections a)"
  shows "\<exists>i. make_action a = Inr (a\<lparr>action_id := i\<rparr>) \<and> i \<noteq> [] \<and>
    action_identity_dict (a\<lparr>action_id := i\<rparr>) = action_identity_dict a"
proof -
  from make_action_total [OF assms] obtain a' where a': "make_action a = Inr a'" "action_id a' \<noteq> []" .
  then have "a' = a\<lparr>action_id := action_id a'\<rparr>"
    by (auto simp: make_action_def sbind_eq_Inr split: if_splits)
  with a' show ?thesis by (metis action_identity_ignores_id)
qed

theorem action_identifier_total_witness:
  "\<exists>i. make_action ((answer PASS 0 [pick ''control:pass'' PNone PNone] [])\<lparr>action_id := []\<rparr>) =
    Inr ((answer PASS 0 [pick ''control:pass'' PNone PNone] [])\<lparr>action_id := i\<rparr>) \<and> i \<noteq> []"
  using action_identifier_total [of "(answer PASS 0 [pick ''control:pass'' PNone PNone] [])\<lparr>action_id := []\<rparr>"]
  by (auto simp: answer_def pick_def)

section \<open>Failures\<close>

text \<open>C9: what classifying an exception yields. A \<open>FailureRecordError\<close> gives the record it carries, with the
  caller's context on top of its own. Any other exception gives a record of its category, type and
  message, with its context overridden by the caller's, and what is done about it is read from the
  table of the exception classes; the one way to fail is an empty category or type name.\<close>

theorem classify_failure_exact:
  "classify_failure err ctx = Inr f \<longleftrightarrow>
    (case err of
       FailureRecordError g \<Rightarrow>
         (if ctx = [] then True else failure_valid g) \<and> f = g\<lparr>f_context := dict_update (f_context g) ctx\<rparr>
     | Raised e \<Rightarrow> category_of e \<noteq> [] \<and> r_type_name e \<noteq> [] \<and> f = record_of_exception e ctx)"
proof (cases err)
  case (FailureRecordError g)
  then show ?thesis by (simp only: classify_carried exception_object.case)
next
  case (Raised e)
  then show ?thesis by (auto simp: classify_raised build_failure_Inr record_of_exception_valid)
qed

text \<open>A failure record can be read back from its dictionary exactly when it is consistent, and it
  comes back unchanged but for the canonical order of its context.\<close>

theorem failure_roundtrip:
  "failure_from_dict (PDict (failure_to_dict f)) = Inr g \<longleftrightarrow>
    f_category f \<noteq> [] \<and> f_exception_type f \<noteq> Some [] \<and>
    f_recovery f \<in> set (allowed_recoveries (f_disposition f)) \<and>
    (if f_retryable f then f_recovery f = REPLACE_WORKER else True) \<and> g = canonical_context f"
  using failure_roundtrip_iff [of f g] by (auto simp: failure_valid_def)

text \<open>The outcome of a valid request is a failure exactly when it offers no candidate: a legal dead
  end when nothing has to be selected, an invalid message that stops the path otherwise.\<close>

theorem request_outcome_cases:
  assumes "validate_decision_request r = Inr ()"
  shows "\<exists>out. classify_request_outcome r = Inr out \<and>
    (case out of
       None \<Rightarrow> candidates r \<noteq> []
     | Some f \<Rightarrow> candidates r = [] \<and> \<not> f_retryable f \<and>
         (if min_selections (req_constraints r) = 0 \<and> \<not> required (req_constraints r)
          then f_disposition f = LEGAL_DEAD_END \<and> f_recovery f = RECOVER_NONE
          else f_disposition f = PATH_FAILURE \<and> f_recovery f = STOP_PATH))"
proof -
  from assms obtain s where "request_signature r = Inr s"
    using request_signature_total [of r] by (auto simp: validate_request_iff request_valid_def)
  then show ?thesis
    by (auto simp: classify_request_outcome_def legal_dead_end_def sbind_eq_Inr build_failure_Inr failure_valid_def
        Let_def)
qed

theorem request_outcome_cases_witness:
  "\<exists>out. classify_request_outcome (sample_request ''select_card'' [] [] 0 0) = Inr out"
  using request_outcome_cases [of "sample_request ''select_card'' [] [] 0 0"]
  by (auto simp: validate_request_iff sample_request_valid)

section \<open>Where a search stops\<close>

text \<open>C10: the turn lifecycle accepts exactly the states within the turn limit whose counters and names
  are well-formed, and in which an ended duel offers nothing and may stop; below the limit it passes
  every action on, on the last turn every one that does not end the turn, and its evidence is the one
  the state determines.\<close>

theorem turn_lifecycle_exact:
  "apply_turn_lifecycle actions t = Inr (kept, d) \<longleftrightarrow>
    1 \<le> t_turn t \<and> t_turn t \<le> t_turn_limit t \<and>
    (if t_process_state t = ''ended'' then actions = [] \<and> t_legal_stop t else True) \<and>
    t_phase t \<noteq> [] \<and> t_request_type t \<noteq> [] \<and> t_process_state t \<noteq> [] \<and> 0 \<le> t_chain_count t \<and>
    kept = filter (\<lambda>a. if a_kind a = END_TURN then t_turn t < t_turn_limit t else True) actions \<and>
    d = lifecycle_of t (list_ex (\<lambda>a. a_kind a = END_TURN) actions)"
proof -
  have kept: "filter (\<lambda>a. t_turn t < t_turn_limit t \<or> a_kind a \<noteq> END_TURN) actions =
      filter (\<lambda>a. if a_kind a = END_TURN then t_turn t < t_turn_limit t else True) actions"
    by (rule filter_cong) auto
  show ?thesis unfolding kept [symmetric] by (rule apply_turn_lifecycle_iff)
qed

text \<open>The evidence of an accepted state can be written and read back unchanged.\<close>

theorem lifecycle_evidence_readable:
  assumes "apply_turn_lifecycle actions t = Inr (kept, d)"
  shows "sbind (lifecycle_to_dict d) (\<lambda>doc. lifecycle_from_dict (PDict doc)) = Inr d"
proof -
  have "lifecycle_valid d"
    using assms unfolding apply_turn_lifecycle_iff by (auto simp: lifecycle_of_valid split: if_splits)
  then show ?thesis by (simp add: lifecycle_roundtrip)
qed

definition sample_turn :: turn_state where
  "sample_turn = \<lparr>t_turn = 2, t_phase = ''main1'', t_turn_limit = 2, t_request_type = ''select_idle_command'',
     t_process_state = ''awaiting'', t_chain_count = 0, t_legal_stop = True, t_forced_response = False\<rparr>"

theorem lifecycle_evidence_readable_witness:
  "sbind (lifecycle_to_dict (lifecycle_of sample_turn False)) (\<lambda>doc. lifecycle_from_dict (PDict doc)) =
    Inr (lifecycle_of sample_turn False)"
  by (rule lifecycle_evidence_readable [of "[]" sample_turn "[]"])
    (simp add: apply_turn_lifecycle_iff sample_turn_def)

text \<open>Lifecycle evidence is accepted for reading exactly when it satisfies the rules of the
  constructor; then it comes back as it was written.\<close>

theorem lifecycle_evidence_roundtrip:
  "sbind (lifecycle_to_dict d) (\<lambda>doc. lifecycle_from_dict (PDict doc)) = Inr e \<longleftrightarrow>
    make_lifecycle (dict_get (semantic_dict d)) = Inr d \<and> e = d"
  by (simp add: lifecycle_roundtrip make_lifecycle_semantic)

text \<open>Once the monitor has decided, no further call changes it, whatever its arguments.\<close>

theorem monitor_decision_final:
  assumes "m_decision (run_monitor clock cs m) = Some d"
  shows "run_monitor clock (cs @ ds) m = run_monitor clock cs m"
  using assms by (simp add: run_monitor_eq monitor.run_append monitor.run_decided)

definition sample_budget :: search_budget where
  "sample_budget = \<lparr>max_depth = None, max_nodes = Some 1, max_replays = None, max_seconds = ANone,
     stagnation_nodes = None, max_transition_repetitions = None, target_score = ANone,
     stop_on_success = False\<rparr>"

definition sample_call :: monitor_call where
  "sample_call = ObserveNode (AInt 0) (AInt 5) (ABool False) (AInt 1) ANone"

lemma sample_run:
  "\<exists>m' d. perform of_nat sample_call (start_monitor of_nat sample_budget) = (m', Inr (Some d)) \<and>
    m_decision m' = Some d"
  by (simp add: sample_call_def sample_budget_def start_monitor_def observe_node_def count_node_def
      observe_transition_def check_limits_def stop_def elapsed_def Let_def)

theorem monitor_decision_final_witness:
  "run_monitor of_nat ([sample_call] @ [MarkExhausted 7]) (start_monitor of_nat sample_budget) =
    run_monitor of_nat [sample_call] (start_monitor of_nat sample_budget)"
proof -
  from sample_run obtain m' d where "perform of_nat sample_call (start_monitor of_nat sample_budget) = (m', Inr (Some d))"
    "m_decision m' = Some d" by blast
  then have "m_decision (run_monitor of_nat [sample_call] (start_monitor of_nat sample_budget)) = Some d"
    by (simp add: run_monitor_def)
  then show ?thesis by (rule monitor_decision_final)
qed

lemma sample_reachable:
  obtains m d where "reachable of_nat sample_budget [(AInt 5, 1)] m" and "m_decision m = Some d"
proof -
  from sample_run obtain m' d where step: "perform of_nat sample_call (start_monitor of_nat sample_budget) = (m', Inr (Some d))"
    and d: "m_decision m' = Some d" by blast
  from reachable.call [OF reachable.start step] have "reachable of_nat sample_budget [(AInt 5, 1)] m'"
    by (simp add: sample_call_def start_monitor_def)
  from that [OF this d] show thesis .
qed

lemma mono_of_nat: "mono (of_nat :: nat \<Rightarrow> rat)"
  by (simp add: mono_def)

text \<open>In every state that returning calls can reach, with a clock that does not go backwards, the
  counters count the observed nodes and their replays, and the best score is the largest score seen.\<close>

theorem monitor_counts:
  assumes "reachable clock b ns m" and "mono clock"
  shows "m_nodes m = int (length ns) \<and> m_replays m = sum_list (map snd ns) \<and> best_of ns (m_best_score m) \<and>
    0 \<le> m_nodes_since_improvement m \<and> m_nodes_since_improvement m \<le> m_nodes m"
  using reachable_inv [OF assms] by (simp add: monitor_inv_def)

theorem monitor_counts_witness:
  "\<exists>m. reachable of_nat sample_budget [(AInt 5, 1)] m \<and> m_nodes m = 1 \<and> m_replays m = 1"
proof -
  obtain m d where m: "reachable of_nat sample_budget [(AInt 5, 1)] m" by (rule sample_reachable)
  from monitor_counts [OF m mono_of_nat] m show ?thesis by auto
qed

text \<open>A decision never comes without its reason: a limit it names is reached by the counters it
  records, a goal by its best score or by the success setting.\<close>

theorem monitor_decision_justified:
  assumes "reachable clock b ns m" and "mono clock" and "m_decision m = Some d"
  shows "reason_holds b m d \<and> td_nodes d = int (length ns) \<and> td_replays d = sum_list (map snd ns) \<and>
    td_best_score d = m_best_score m"
  using reachable_inv [OF assms(1,2)] assms(3) by (simp add: monitor_inv_def records_def)

theorem monitor_decision_justified_witness:
  "\<exists>m d. reachable of_nat sample_budget [(AInt 5, 1)] m \<and> m_decision m = Some d \<and> td_nodes d = 1"
proof -
  obtain m d where m: "reachable of_nat sample_budget [(AInt 5, 1)] m" "m_decision m = Some d"
    by (rule sample_reachable)
  from monitor_decision_justified [OF m(1) mono_of_nat m(2)] m show ?thesis by auto
qed

text \<open>A search with a node limit ends: when as many nodes as the limit have been observed, the
  monitor has decided.\<close>

theorem node_limit_stops:
  assumes "reachable clock b ns m" and "mono clock" and "max_nodes b = Some k" and "1 \<le> k" and "k \<le> int (length ns)"
  shows "\<exists>d. m_decision m = Some d"
proof -
  have "ns \<noteq> []" using assms(4,5) by auto
  then show ?thesis
    using reachable_inv [OF assms(1,2)] assms(3,5)
    by (cases "m_decision m") (auto simp: monitor_inv_def below_limits_def limit_met_def)
qed

theorem node_limit_stops_witness:
  "\<exists>m d. reachable of_nat sample_budget [(AInt 5, 1)] m \<and> m_decision m = Some d"
proof -
  obtain m d where m: "reachable of_nat sample_budget [(AInt 5, 1)] m" by (rule sample_reachable)
  have "max_nodes sample_budget = Some 1" by (simp add: sample_budget_def)
  from node_limit_stops [OF m mono_of_nat this] m show ?thesis by auto
qed

text \<open>A budget can be read back from its dictionary exactly when its limits are positive, its
  numbers finite and at least one condition is set, and it comes back unchanged.\<close>

theorem budget_dictionary_roundtrip:
  "budget_from_mapping (AMap (budget_to_dict b)) = Inr b' \<longleftrightarrow> budget_valid b \<and> b' = b"
  by (rule budget_roundtrip)

section \<open>Replays\<close>

text \<open>The comparison of two canonical values finds nothing exactly when they are the same: equal
  scalars, the same items in the same order, the same entries. In dictionaries that differ it reports
  the first of the sorted keys whose values differ, and its path starts with that key.\<close>

theorem canonical_difference_exact:
  "(first_canonical_difference v w = None \<longleftrightarrow> same v w) \<and>
   (case first_canonical_difference (PDict l) (PDict r) of
      None \<Rightarrow> True
    | Some (path, a, b) \<Rightarrow> \<exists>before k after rest. all_keys l r = before @ k # after \<and>
        list_all (agree_at l r) before \<and> \<not> agree_at l r k \<and> path = k @ rest)"
proof (rule conjI)
  show "first_canonical_difference v w = None \<longleftrightarrow> same v w"
    by (simp add: first_canonical_difference_def difference_None(1))
  show "case first_canonical_difference (PDict l) (PDict r) of
      None \<Rightarrow> True
    | Some (path, a, b) \<Rightarrow> \<exists>before k after rest. all_keys l r = before @ k # after \<and>
        list_all (agree_at l r) before \<and> \<not> agree_at l r k \<and> path = k @ rest"
  proof (cases "value_difference (PDict l) (PDict r) []")
    case None
    then show ?thesis by (simp add: first_canonical_difference_def)
  next
    case (Some d)
    then obtain path a b where d: "d = (path, a, b)" "entry_difference l r (all_keys l r) [] = Some (path, a, b)"
      by (cases d) simp
    from entry_difference_first [OF d(2) subset_refl] obtain before k after where *:
        "all_keys l r = before @ k # after" "list_all (agree_at l r) before" "\<not> agree_at l r k"
        "entry_difference l r [k] [] = Some (path, a, b)" .
    have "\<exists>rest. path = k @ rest" by (rule first_key_path [OF *(4)])
    with * Some d(1) show ?thesis by (auto simp: first_canonical_difference_def)
  qed
qed

text \<open>C11: two replays pass the check of their requests exactly when their events are lists of the same
  length with equal request signatures, and a mismatch reported at a step is the first one.\<close>

theorem replay_requests_verified:
  "case assert_replay_request_signatures recorded current of
     Inr u \<Rightarrow> \<exists>rs cs. dict_get recorded ''events'' = PList rs \<and> dict_get current ''events'' = PList cs \<and>
       list_all2 event_matches rs cs
   | Inl err \<Rightarrow>
       \<not> (\<exists>rs cs. dict_get recorded ''events'' = PList rs \<and> dict_get current ''events'' = PList cs \<and>
         list_all2 event_matches rs cs) \<and>
       (case err of
          ReplaySignatureMismatch m (Some i) path a b \<Rightarrow>
            \<exists>rs cs j. dict_get recorded ''events'' = PList rs \<and> dict_get current ''events'' = PList cs \<and>
              i = int j \<and> j < length rs \<and> j < length cs \<and>
              list_all2 event_matches (take j rs) (take j cs) \<and> \<not> event_matches (rs ! j) (cs ! j)
        | _ \<Rightarrow> True)"
  by (rule request_check_cases)

text \<open>A replay may be played back in an environment exactly when both manifests are reproducible and
  their identities are the same; a manifest is reproducible when it has the supported schema, every
  required path leads to a value, a used Python generator has its seed and the trace policy is the
  supported one.\<close>

theorem manifest_match_exact:
  "(assert_manifest_matches r c = Inr () \<longleftrightarrow> reproducible r \<and> reproducible c \<and>
      same (PDict (manifest_identity r)) (PDict (manifest_identity c))) \<and>
   (reproducible m \<longleftrightarrow> m_schema_version m = REPLAY_MANIFEST_SCHEMA_VERSION \<and>
      list_all (\<lambda>path. \<not> blank (at_path (PDict (manifest_identity m)) path)) (required_paths m) \<and>
      (if dict_get (randomness m) ''python_random_used'' = PBool True
       then dict_get (randomness m) ''python_seed'' \<noteq> PNone else True) \<and>
      dict_get (randomness m) ''trace_policy'' = PStr RANDOM_TRACE_POLICY)"
  by (simp add: manifest_matches_Inr reproducible_def missing_requirements_Nil)

text \<open>C12: a written manifest is read back in canonical form, with the same hash and the same answer to
  whether it is reproducible, and a manifest read with a hash has that hash.\<close>

theorem manifest_roundtrip:
  "sbind (manifest_to_dict m) manifest_from_dict = sbind (manifest_hash m) (\<lambda>h. Inr (canonical_manifest m)) \<and>
   manifest_hash (canonical_manifest m) = manifest_hash m \<and>
   reproducible (canonical_manifest m) = reproducible m \<and>
   (case manifest_from_dict d of
      Inl err \<Rightarrow> True
    | Inr m' \<Rightarrow> (case dict_get d ''manifest_hash'' of
        PNone \<Rightarrow> True | PStr h \<Rightarrow> manifest_hash m' = Inr h | _ \<Rightarrow> False))"
proof -
  have "sbind (manifest_to_dict m) manifest_from_dict = sbind (manifest_hash m) (\<lambda>h. Inr (canonical_manifest m))"
  proof (cases "manifest_hash m")
    case (Inr h)
    then obtain doc where "manifest_to_dict m = Inr doc" by (simp add: manifest_to_dict_def)
    with Inr show ?thesis by (simp add: manifest_roundtrip_eq)
  qed (simp add: manifest_to_dict_def)
  moreover have "case manifest_from_dict d of
      Inl err \<Rightarrow> True
    | Inr m' \<Rightarrow> (case dict_get d ''manifest_hash'' of
        PNone \<Rightarrow> True | PStr h \<Rightarrow> manifest_hash m' = Inr h | _ \<Rightarrow> False)"
  proof (cases "manifest_from_dict d")
    case (Inr m')
    then show ?thesis
      using manifest_from_dict_hash [OF Inr] by (cases "dict_get d ''manifest_hash''") auto
  qed simp
  ultimately show ?thesis by simp
qed

section \<open>The prefix cache\<close>

definition sample_policy :: cache_policy where
  "sample_policy = \<lparr>max_entries = 2, max_bytes = 4096, max_entry_bytes = 2048,
     persistence = PERSIST_INDEX_ONLY, flush_every = 5\<rparr>"

definition sample_entry :: prefix_entry where
  "sample_entry =
    \<lparr>e_key = \<lparr>k_manifest_hash = ''manifest_1'', k_initial_snapshot_hash = ''state_1'',
       k_replay_schema_version = ''0.3a'', k_prefix_length = 3, k_prefix_digest = ''prefix_1''\<rparr>,
     e_terminal_state_id = ''state_2'', e_next_request_signature = Some ''req_1'',
     e_core_trace_digest = ''coretrace_1'', e_artifact_ref = ''route_1'', e_state_completeness = ''exact''\<rparr>"

lemma sample_policy_ok: "policy_ok sample_policy"
  by (simp add: sample_policy_def policy_ok_def)

lemma sample_entry_ok: "entry_ok sample_entry"
  by (simp add: sample_entry_def entry_ok_def entry_fields_ok_def key_ok_def)

definition sample_cache :: prefix_cache where
  "sample_cache = after_op (Put sample_entry) (after_op (Get (By_id ''prefixkey_0'')) (new_cache sample_policy))"

lemma sample_cache_reachable: "cache_reachable sample_cache"
  unfolding sample_cache_def
  by (intro cache_reachable.intros) (simp_all add: sample_policy_ok sample_entry_ok)

text \<open>C13: every cache that operations and loaded indexes can produce keeps within both limits, knows the
  exact number of bytes of its entries, and holds each entry once, under the identifier of its key.\<close>

theorem cache_within_limits:
  assumes "cache_reachable c"
  shows "int (length (centries c)) \<le> max_entries (policy c) \<and> cbytes c \<le> max_bytes (policy c) \<and>
    cbytes c = sum_list (map (estimated_bytes \<circ> snd) (centries c)) \<and> distinct (map fst (centries c)) \<and>
    list_all (\<lambda>(k, e). k = key_id (e_key e) \<and> estimated_bytes e \<le> max_entry_bytes (policy c)) (centries c)"
  using cache_reachable_inv [OF assms]
  by (auto simp: cache_inv_def fits_def total_bytes_def entry_in_place_def list_all_iff)

theorem cache_within_limits_witness:
  "int (length (centries sample_cache)) \<le> max_entries (policy sample_cache) \<and>
    cbytes sample_cache \<le> max_bytes (policy sample_cache) \<and>
    cbytes sample_cache = sum_list (map (estimated_bytes \<circ> snd) (centries sample_cache)) \<and>
    distinct (map fst (centries sample_cache)) \<and>
    list_all (\<lambda>(k, e). k = key_id (e_key e) \<and> estimated_bytes e \<le> max_entry_bytes (policy sample_cache))
      (centries sample_cache)"
  by (rule cache_within_limits [OF sample_cache_reachable])

text \<open>C14: storing an entry implements a least-recently-used store. It is refused exactly when the entry
  alone is too large; otherwise the entry becomes the newest, what remains is the longest sequence of
  newest entries within both limits, the rest is dropped from the oldest on and reported.\<close>

theorem put_refines_lru:
  assumes "cache_reachable c"
  shows "case put e c of
      Inl err \<Rightarrow> estimated_bytes e > max_entry_bytes (policy c)
    | Inr (c', evicted) \<Rightarrow> estimated_bytes e \<le> max_entry_bytes (policy c) \<and>
        centries c' = lru_put (policy c) (key_id (e_key e)) e (centries c) \<and>
        last (centries c') = (key_id (e_key e), e) \<and>
        (\<exists>dropped. AList.delete (key_id (e_key e)) (centries c) @ [(key_id (e_key e), e)] =
           dropped @ centries c' \<and> evicted = map fst dropped)"
proof (cases "estimated_bytes e \<le> max_entry_bytes (policy c)")
  case True
  have inv: "cache_inv c" by (rule cache_reachable_inv [OF assms])
  obtain dropped c' where *: "put e c = Inr (c', map fst dropped)"
      "centries c' = lru_put (policy c) (key_id (e_key e)) e (centries c)"
      "AList.delete (key_id (e_key e)) (centries c) @ [(key_id (e_key e), e)] = dropped @ centries c'"
    using put_refines [OF inv True] by blast
  have "\<exists>fs. centries c' = fs @ [(key_id (e_key e), e)]"
    using inv newest_fitting_last [OF _ True] unfolding *(2) lru_put_def by (simp add: cache_inv_def)
  then have "last (centries c') = (key_id (e_key e), e)" by auto
  with * True show ?thesis by auto
qed (simp add: put_too_large)

theorem put_refines_lru_witness:
  "case put sample_entry sample_cache of
      Inl err \<Rightarrow> estimated_bytes sample_entry > max_entry_bytes (policy sample_cache)
    | Inr (c', evicted) \<Rightarrow> estimated_bytes sample_entry \<le> max_entry_bytes (policy sample_cache) \<and>
        centries c' = lru_put (policy sample_cache) (key_id (e_key sample_entry)) sample_entry (centries sample_cache) \<and>
        last (centries c') = (key_id (e_key sample_entry), sample_entry) \<and>
        (\<exists>dropped. AList.delete (key_id (e_key sample_entry)) (centries sample_cache) @
           [(key_id (e_key sample_entry), sample_entry)] = dropped @ centries c' \<and> evicted = map fst dropped)"
  by (rule put_refines_lru [OF sample_cache_reachable])

text \<open>C15: verifying a replayed prefix answers valid exactly when the cache holds an entry with the same
  trace digest, next request and final state; then the cache still holds what it held, otherwise the
  entry is gone and nothing else has changed.\<close>

theorem verify_prefix_exact:
  assumes "verify_replayed_prefix r terminal next_signature trace c = (c', Inr v)"
  shows "(v_status v = CACHE_VALID \<longleftrightarrow>
      (\<exists>e. map_of (centries c) (ref_id r) = Some e \<and> trace = PStr (e_core_trace_digest e) \<and>
        next_signature = opt_str (e_next_request_signature e) \<and> terminal = PStr (e_terminal_state_id e))) \<and>
    map_of (centries c') = (if v_status v = CACHE_VALID then map_of (centries c)
      else (map_of (centries c))(ref_id r := None))"
proof -
  obtain e t n s where *: "map_of (centries c) (ref_id r) = Some e" "trace = PStr t"
      "next_signature = opt_str n" "terminal = PStr s" "v_key_id v = ref_id r"
      "v_status v = (if e_core_trace_digest e = t \<and> e_next_request_signature e = n \<and>
        e_terminal_state_id e = s then CACHE_VALID else CACHE_INVALIDATED)"
      "centries c' = AList.delete (ref_id r) (centries c) @
        (if v_status v = CACHE_VALID then [(ref_id r, e)] else [])"
      "invalidations c' = invalidations c + (if v_status v = CACHE_VALID then 0 else 1)"
    by (rule verify_returns [OF assms])
  moreover have "map_of (AList.delete (ref_id r) (centries c) @ [(ref_id r, e)]) = map_of (centries c)"
    by (rule ext) (auto simp: *(1) delete_conv' map_add_def split: option.split)
  ultimately show ?thesis by (auto simp: delete_conv')
qed

definition stored_cache :: prefix_cache where
  "stored_cache = (new_cache sample_policy)\<lparr>centries := [(''prefixkey_1'', sample_entry)]\<rparr>"

lemma stored_verifies:
  "\<exists>c' v. verify_replayed_prefix (By_id ''prefixkey_1'') (PStr ''state_2'') (PStr ''req_1'') (PStr ''coretrace_0'')
    stored_cache = (c', Inr v) \<and> v_status v = CACHE_INVALIDATED"
  by (simp add: verify_replayed_prefix_def get_def stored_cache_def new_cache_def sample_entry_def Let_def
      check_string_def check_optional_string_def prefix_result_canonical del: to_canonical_data.simps)

theorem verify_prefix_exact_witness:
  "\<exists>c' v. verify_replayed_prefix (By_id ''prefixkey_1'') (PStr ''state_2'') (PStr ''req_1'')
      (PStr ''coretrace_0'') stored_cache = (c', Inr v) \<and>
    map_of (centries c') = (map_of (centries stored_cache))(''prefixkey_1'' := None)"
proof -
  obtain c' v where *: "verify_replayed_prefix (By_id ''prefixkey_1'') (PStr ''state_2'') (PStr ''req_1'')
      (PStr ''coretrace_0'') stored_cache = (c', Inr v)" "v_status v = CACHE_INVALIDATED"
    using stored_verifies by blast
  then show ?thesis using verify_prefix_exact [OF *(1)] by auto
qed

text \<open>C16: the index of a cache loads as the cache: the same policy and the same entries in the same order
  of use, without an eviction and with fresh counters.\<close>

theorem index_roundtrip:
  assumes "cache_reachable c"
  shows "from_index_dict (PDict (to_index_dict c)) None =
    Inr ((new_cache (policy c))\<lparr>centries := centries c, cbytes := cbytes c\<rparr>)"
  using index_roundtrip_eq [OF cache_reachable_inv [OF assms]] by (simp add: reloaded_def)

theorem index_roundtrip_witness:
  "from_index_dict (PDict (to_index_dict sample_cache)) None =
    Inr ((new_cache (policy sample_cache))\<lparr>centries := centries sample_cache, cbytes := cbytes sample_cache\<rparr>)"
  by (rule index_roundtrip [OF sample_cache_reachable])

section \<open>Strategies\<close>

text \<open>Random and beam search try the actions of a node in an order that depends on their identifiers
  only, not on the order in which the core offered them, and lose or repeat none.\<close>

theorem strategy_order_stable:
  assumes "mset as = mset bs" and "distinct (map action_id as)"
  shows "(order_actions st node as = Inr cs \<longleftrightarrow> order_actions st node bs = Inr cs) \<and>
    (case order_actions st node as of Inl err \<Rightarrow> True | Inr ds \<Rightarrow> mset ds = mset as)"
proof (rule conjI)
  show "order_actions st node as = Inr cs \<longleftrightarrow> order_actions st node bs = Inr cs"
    by (rule order_ignores_presentation [OF assms])
  show "case order_actions st node as of Inl err \<Rightarrow> True | Inr ds \<Rightarrow> mset ds = mset as"
    by (auto simp: order_actions_Inr split: sum.split)
qed

definition sample_action :: "string \<Rightarrow> action" where
  "sample_action i = \<lparr>a_kind = PASS, a_player = 0, selections = [], a_request_signature = ''req_1'',
     source = None, a_effect_ref = None, action_id = i\<rparr>"

theorem strategy_order_stable_witness:
  "order_actions (Random_Search 7) ''node'' [sample_action ''a'', sample_action ''b''] =
     Inr [sample_action ''a'', sample_action ''b''] \<longleftrightarrow>
   order_actions (Random_Search 7) ''node'' [sample_action ''b'', sample_action ''a''] =
     Inr [sample_action ''a'', sample_action ''b'']"
proof -
  have "mset [sample_action ''a'', sample_action ''b''] = mset [sample_action ''b'', sample_action ''a'']"
    and "distinct (map action_id [sample_action ''a'', sample_action ''b''])"
    by (simp_all add: sample_action_def)
  from strategy_order_stable [OF this] show ?thesis by blast
qed

text \<open>Random and beam search conform: the report on a strategy is built exactly when the actions have
  distinct, non-empty identifiers, the node has a name and the seed is not negative.\<close>

theorem conformance_exact:
  "(\<exists>d. conformance_report st node as = Inr d) \<longleftrightarrow>
    distinct (map action_id as) \<and> list_all (\<lambda>a. 0 \<le> seed st \<and> node \<noteq> [] \<and> action_id a \<noteq> []) as"
  by (simp add: conformance_report_Inr strategy_ok_def)

text \<open>No experiment can both have its strategy accepted and set the policy of the prefix cache: an
  accepted strategy admits no \<open>performance\<close> parameters, so that the policy resolved from the same
  experiment is always the default one.\<close>

theorem accepted_strategy_has_default_policy:
  assumes "strategy_from_experiment mcts experiment = Inr st"
  shows "policy_from_experiment experiment = policy_from_mapping (PDict [])"
  by (rule accepted_strategy_default_policy [OF assms])

definition sample_experiment :: pydict where
  "sample_experiment = [(''search'', PDict [(''strategy'', PStr ''random_search_v1''),
     (''parameters'', PDict [(''seed'', PInt 7)])])]"

theorem accepted_strategy_has_default_policy_witness:
  "strategy_from_experiment (\<lambda>ps. Inr ps) sample_experiment = Inr (Inl (Random_Search 7)) \<and>
    policy_from_experiment sample_experiment = policy_from_mapping (PDict [])"
proof -
  have *: "strategy_from_experiment (\<lambda>ps. Inr ps) sample_experiment = Inr (Inl (Random_Search 7))"
    by (simp add: strategy_from_experiment_def sample_experiment_def mapping_or_def get_or_def
        check_parameters_def require_integer_def make_random_def)
  from * accepted_strategy_has_default_policy [OF *] show ?thesis by blast
qed

section \<open>States and their keys\<close>

text \<open>C17: a state written to its dictionary reads back in canonical form under the same identifier, and
  an exact state is equivalent to the one read back.\<close>

theorem state_roundtrip:
  assumes "make_state v names = Inr s" and "[] \<notin> set names" and "state_id s = Inr i"
  shows "(\<exists>d. state_to_dict s = Inr d \<and> state_from_dict d = Inr (canonical_form s)) \<and>
    state_id (canonical_form s) = Inr i \<and>
    (if completeness s = EXACT \<and> tidy (opt_dict (sampling_reference s))
     then exact_state_equivalent s (canonical_form s) = Inr True else True)"
proof -
  have names: "[] \<notin> set (missing_fields s)" using make_state_ok(2) [OF assms(1)] assms(2) by simp
  note valid = make_state_ok(1) [OF assms(1)]
  have "state_to_dict s = Inr (state_identity s @ [(''state_id'', PStr i)])"
    by (simp add: state_to_dict_def assms(3))
  moreover from this state_roundtrip_eq [OF valid names]
  have "state_from_dict (state_identity s @ [(''state_id'', PStr i)]) = Inr (canonical_form s)"
    by (simp add: assms(3))
  moreover have "state_id (canonical_form s) = Inr i"
    using assms(3) identity_canonical_form [OF valid] by (simp add: state_id_def)
  ultimately show ?thesis using canonical_form_equivalent [OF valid _ assms(3)] by auto
qed

definition sample_duel :: canonical_state where
  "sample_duel = \<lparr>public_state = [(''turn'', PInt 1)], private_state = [(''hand'', PList [PInt 7])],
     st_constraints = [], history = [], pending_request = None, engine_state = [], mode = PLAYER_VIEW,
     completeness = EXACT, viewer = PInt 0, sampling_reference = None, missing_fields = []\<rparr>"

lemma sample_duel_id: "\<exists>i. state_id sample_duel = Inr i"
  unfolding state_id_def state_identity_def stable_digest_total
  by (simp add: state_entries_def sample_duel_def opt_dict_def)

lemma sample_duel_made: "make_state (dict_get (state_entries sample_duel)) [] = Inr sample_duel"
  by (simp add: make_state_def sample_duel_def state_entries_def mode_of_def completeness_of_def enum_of_def
      require_mapping_def mapping_or_none_def opt_dict_def)

theorem state_roundtrip_witness:
  "\<exists>d. state_to_dict sample_duel = Inr d \<and> state_from_dict d = Inr (canonical_form sample_duel)"
proof -
  obtain i where i: "state_id sample_duel = Inr i" using sample_duel_id by blast
  have "[] \<notin> set ([] :: string list)" by simp
  from state_roundtrip [OF sample_duel_made this i] show ?thesis by blast
qed

text \<open>The state that an approximation policy projects to has none of the dropped paths, still has
  what lies above them, and is unchanged everywhere else; only private state is ever dropped.\<close>

theorem projection_exact:
  assumes "make_approximation pid version paths purposes notes schema = Inr p" and "project p s = Inr w"
  shows "(if list_ex (\<lambda>r. starts_with r q) (drop_paths p) then walk w q = None
      else if list_ex (\<lambda>r. starts_with q r) (drop_paths p) then walk w q \<noteq> None
      else walk w q = walk (PDict (state_identity s)) q) \<and>
    list_all (\<lambda>r. starts_with [''private_state''] r) (drop_paths p)"
proof (rule conjI)
  show "if list_ex (\<lambda>r. starts_with r q) (drop_paths p) then walk w q = None
      else if list_ex (\<lambda>r. starts_with q r) (drop_paths p) then walk w q \<noteq> None
      else walk w q = walk (PDict (state_identity s)) q"
    by (rule drop_all_walk [OF assms(2) [unfolded project_def]])
  have "starts_with [''private_state''] r" if "r \<in> set (drop_paths p)" for r
    using make_approximation_ok [OF assms(1)] that by (cases r) (auto simp: approximation_ok_def list_all_iff)
  then show "list_all (\<lambda>r. starts_with [''private_state''] r) (drop_paths p)"
    by (simp add: list_all_iff)
qed

definition hide_hand :: approximation_policy where
  "hide_hand = \<lparr>ap_policy_id = ''no_hand'', ap_version = ''1'', drop_paths = [[''private_state'', ''hand'']],
     allowed_purposes = [SEARCH_ORDERING], risk_notes = [''order only'']\<rparr>"

lemma hide_hand_made: "make_approximation ''no_hand'' ''1'' [[''private_state'', ''hand'']] [''search_ordering'']
    [''order only''] APPROXIMATION_POLICY_SCHEMA_VERSION = Inr hide_hand"
  by (simp add: make_approximation_def hide_hand_def purpose_of_def enum_of_def APPROXIMATE_PURPOSES_def)

theorem projection_exact_witness:
  "\<exists>w. project hide_hand sample_duel = Inr w \<and> walk w [''private_state'', ''hand''] = None \<and>
    walk w [''public_state'', ''turn''] = Some (PInt 1)"
proof -
  have sorted: "sorted (map fst (state_entries sample_duel))" by (simp add: state_entries_def)
  have entries: "state_identity sample_duel = state_entries (canonical_form sample_duel)"
    by (rule state_identity_eq) (simp add: state_valid_def sample_duel_def)
  obtain w where w: "project hide_hand sample_duel = Inr w"
    unfolding project_def entries hide_hand_def
    by (simp add: state_entries_def sample_duel_def canonical_form_def canonical_entries_def)
  note exact = projection_exact [OF hide_hand_made w]
  show ?thesis
    using w exact [of "[''private_state'', ''hand'']"] exact [of "[''public_state'', ''turn'']"]
    by (simp add: hide_hand_def entries)
      (simp add: state_entries_def sample_duel_def canonical_form_def canonical_entries_def)
qed

text \<open>C18: a key for the validation of replays, for legality or for pruning is the identifier of an exact
  state; an approximate key is for hints, evaluation and ordering only, and is marked as such.\<close>

theorem keys_exact_where_needed:
  assumes "build_state_key s pur approximation = Inr k"
    and "case approximation of None \<Rightarrow> True
      | Some p \<Rightarrow> \<exists>pid version paths ps notes schema. make_approximation pid version paths ps notes schema = Inr p"
  shows "(if pur \<in> {REPLAY_VALIDATION, LEGALITY_CACHE, BRANCH_PRUNING}
      then completeness s = EXACT \<and> state_id s = Inr (key_text k) \<and> exact_key k else True) \<and>
    purpose k = pur \<and> exact_key k = (approximation = None) \<and>
    requires_exact_confirmation k = (approximation \<noteq> None)"
proof (cases approximation)
  case None
  then show ?thesis using build_state_key_Inr(1,2) [OF assms(1)] by auto
next
  case (Some p)
  then have "approximation_ok p" using assms(2) make_approximation_ok by auto
  then show ?thesis
    using build_state_key_Inr(1,3) [OF assms(1)] Some
    by (auto simp: approximation_ok_def APPROXIMATE_PURPOSES_def list_all_iff)
qed

theorem keys_exact_where_needed_witness:
  "\<exists>k. build_state_key sample_duel BRANCH_PRUNING None = Inr k \<and> state_id sample_duel = Inr (key_text k)"
proof -
  obtain i where "state_id sample_duel = Inr i" using sample_duel_id by blast
  then obtain k where k: "build_state_key sample_duel BRANCH_PRUNING None = Inr k"
    by (simp add: build_state_key_def sample_duel_def)
  show ?thesis using keys_exact_where_needed [OF k] k by simp
qed

section \<open>Private information\<close>

text \<open>C19: private information is allowed exactly to the owner of a valid policy's view, the deck order
  only when the experiment says that it is known.\<close>

theorem private_access_exact:
  assumes "make_information_policy m deck hand view sampling = Inr p" and "is_private f"
  shows "decide p f who = Inr ACCESS_ALLOWED \<longleftrightarrow>
    (eq_int who 0 \<or> eq_int who 1) \<and>
    (if f = DECK_ORDER then deck_order p = DECK_KNOWN else True) \<and>
    (if ip_mode p = PLAYER_VIEW then same_player who (ip_viewer p) else True)"
  by (rule decide_private [OF make_information_policy_ok [OF assms(1)] assms(2)])

definition viewer_policy :: information_policy where
  "viewer_policy = \<lparr>ip_mode = PLAYER_VIEW, deck_order = DECK_UNKNOWN, opening_hand = HAND_NATURAL,
     ip_viewer = PInt 0, ip_sampling = None\<rparr>"

lemma viewer_policy_made: "make_information_policy (PStr ''player_view'') (PStr ''unknown'') (PStr ''natural'')
    (PInt 0) PNone = Inr viewer_policy"
  by (simp add: make_information_policy_def mode_of_def deck_order_of_def opening_hand_of_def enum_of_def
      viewer_policy_def)

theorem private_access_exact_witness:
  "decide viewer_policy HAND_IDENTITY (PInt 0) = Inr ACCESS_ALLOWED \<and>
    decide viewer_policy HAND_IDENTITY (PInt 1) \<noteq> Inr ACCESS_ALLOWED"
  using private_access_exact [OF viewer_policy_made, of HAND_IDENTITY]
  by (simp add: same_player_def viewer_policy_def)

text \<open>The audit logs every access that is asked for with a purpose, in order, with the decision of
  the policy, and the check for leaks passes exactly when all of them were allowed.\<close>

theorem audit_exact:
  assumes "make_information_policy m deck hand view sampling = Inr p"
  shows "map access_entry (accesses (run_audit p calls)) = List.map_filter (logged_call p) calls \<and>
    map acc_sequence (accesses (run_audit p calls)) = [0..<length (accesses (run_audit p calls))] \<and>
    (assert_no_leaks (run_audit p calls) = Inr () \<longleftrightarrow>
      list_all (\<lambda>(f, who, why, d). d = ACCESS_ALLOWED) (List.map_filter (logged_call p) calls))"
proof -
  note inv = run_audit_inv [of p calls]
  have "assert_no_leaks (run_audit p calls) = Inr () \<longleftrightarrow>
      list_all (\<lambda>(f, who, why, d). d = ACCESS_ALLOWED) (map access_entry (accesses (run_audit p calls)))"
    unfolding assert_no_leaks_Inr [OF make_information_policy_ok [OF assms] inv]
    by (simp add: list_all_iff access_entry_def)
  then show ?thesis using inv by (simp add: run_audit_log audit_inv_def)
qed

theorem audit_exact_witness:
  "assert_no_leaks (run_audit viewer_policy
    [Record_Access HAND_IDENTITY (PInt 0) (PStr ''evaluate''), Record_Access HAND_IDENTITY (PInt 1) (PStr ''peek'')])
    \<noteq> Inr ()"
  using audit_exact [OF viewer_policy_made, of
    "[Record_Access HAND_IDENTITY (PInt 0) (PStr ''evaluate''), Record_Access HAND_IDENTITY (PInt 1) (PStr ''peek'')]"]
  by (simp add: List.map_filter_def logged_def decide_def private_decision_def viewer_policy_def)

text \<open>An experiment that records a policy gives that policy back.\<close>

theorem information_policy_roundtrip:
  assumes "make_information_policy m deck hand view sampling = Inr p"
    and "to_experiment_dict p = Inr raw"
    and "dict_get experiment ''schema_version'' = PStr ''0.3b'' \<or>
      dict_get experiment ''schema_version'' = PStr ''0.4''"
    and "dict_get experiment ''information_mode'' = PStr (mode_value (ip_mode p))"
    and "dict_get experiment ''information_policy'' = PDict raw"
    and "dict_get experiment ''player'' = PDict who" and "dict_get who ''perspective'' = ip_viewer p"
  shows "information_policy_from_experiment experiment = Inr p"
  by (rule information_policy_read_back [OF assms])

theorem information_policy_roundtrip_witness:
  "\<exists>raw. to_experiment_dict viewer_policy = Inr raw \<and>
    information_policy_from_experiment
      [(''schema_version'', PStr ''0.4''), (''information_mode'', PStr ''player_view''),
       (''information_policy'', PDict raw), (''player'', PDict [(''perspective'', PInt 0)])] = Inr viewer_policy"
proof -
  have "json_safe (PDict (information_identity viewer_policy))"
    by (simp add: information_identity_def viewer_policy_def opt_dict_def)
  then obtain i where "stable_digest (PDict (information_identity viewer_policy)) ''infopol_'' = Inr i"
    using stable_digest_total by blast
  then obtain raw where raw: "to_experiment_dict viewer_policy = Inr raw"
    by (simp add: to_experiment_dict_def information_policy_to_dict_def)
  show ?thesis
    by (intro exI [of _ raw] conjI raw information_policy_roundtrip
        [OF viewer_policy_made raw, where who = "[(''perspective'', PInt 0)]"])
      (simp_all add: viewer_policy_def)
qed

text \<open>C20: in a validated sampling reference every weight is positive, and of all draws below the total
  weight exactly as many select a candidate as its weight says.\<close>

theorem hand_draw_follows_weights:
  assumes "validate_sampling_reference v = Inr d"
  shows "case dict_get d ''candidates'' of
      PList cands \<Rightarrow> cands \<noteq> [] \<and> list_all (\<lambda>j. 0 < weight_of (cands ! j) \<and>
        card {draw \<in> {0..<sum_list (map weight_of cands)}. select_index 0 draw (map weight_of cands) = j} =
          nat (weight_of (cands ! j))) [0..<length cands]
    | _ \<Rightarrow> False"
proof -
  obtain cands owners sd i where ref: "reference_with d cands owners sd i"
    using validated_reference [OF assms] by blast
  then have "dict_get d ''candidates'' = PList cands" and "cands \<noteq> []"
    and weights: "list_all (\<lambda>w. 0 < w) (map weight_of cands)"
    using identity_entries [OF ref] by (simp_all add: reference_with_def)
  then show ?thesis using draws_of_candidate [OF weights] by (simp add: list_all_length)
qed

definition sample_candidates :: "pyval list" where
  "sample_candidates = [PDict [(''hands_by_player'', PDict [(''1'', PList [PInt 5])]), (''weight'', PInt 2)],
     PDict [(''hands_by_player'', PDict [(''1'', PList [PInt 6])]), (''weight'', PInt 1)]]"

lemma sample_reference: "\<exists>d i. reference_with d sample_candidates [PInt 1] (PInt 7) i"
proof -
  have "json_safe (PDict (sampling_identity sample_candidates [PInt 1] (PInt 7)))"
    by (simp add: sampling_identity_def sample_candidates_def)
  then obtain i where "stable_digest (PDict (sampling_identity sample_candidates [PInt 1] (PInt 7))) ''handsampol_'' = Inr i"
    using stable_digest_total by blast
  then show ?thesis
    by (simp add: reference_with_def sample_candidates_def sampling_owners_def is_owner_def normalize_candidate_def
        is_positive_def weight_of_def)
qed

theorem hand_draw_follows_weights_witness:
  "\<exists>d. validate_sampling_reference (PDict d) = Inr d \<and>
    card {draw \<in> {0..<3}. select_index 0 draw [2, 1] = 0} = 2"
proof -
  obtain d i where ref: "reference_with d sample_candidates [PInt 1] (PInt 7) i" using sample_reference by blast
  have valid: "validate_sampling_reference (PDict d) = Inr d" by (rule reference_again [OF ref]) simp_all
  have "dict_get d ''candidates'' = PList sample_candidates"
    using identity_entries [OF ref] ref by (simp add: reference_with_def)
  with hand_draw_follows_weights [OF valid] valid show ?thesis
    by (auto simp: sample_candidates_def weight_of_def)
qed

text \<open>The evidence of a drawn opening hand names one of the candidates of the validated reference and
  reports exactly its hands.\<close>

theorem drawn_hand_is_candidate:
  assumes "sampling_evidence reference pid = Inr e"
  shows "\<exists>d cands j. validate_sampling_reference reference = Inr d \<and> dict_get d ''candidates'' = PList cands \<and>
    j < length cands \<and> dict_get e ''selected_index'' = PInt (int j) \<and>
    dict_get e ''result'' = PDict [(''hands_by_player'', hands_of (cands ! j))]"
  by (rule evidence_candidate [OF assms])

theorem drawn_hand_is_candidate_witness:
  "\<exists>d e. sampling_evidence (PDict d) (PStr ''infopol_1'') = Inr e \<and>
    (dict_get e ''selected_index'' = PInt 0 \<or> dict_get e ''selected_index'' = PInt 1)"
proof -
  obtain d i where ref: "reference_with d sample_candidates [PInt 1] (PInt 7) i" using sample_reference by blast
  obtain e where e: "sampling_evidence (PDict d) (PStr ''infopol_1'') = Inr e"
    using evidence_total [OF reference_again [OF ref, of d], of "''infopol_1''"] by auto
  obtain d' cands j where "validate_sampling_reference (PDict d) = Inr d'" "dict_get d' ''candidates'' = PList cands"
      "j < length cands" "dict_get e ''selected_index'' = PInt (int j)"
    using drawn_hand_is_candidate [OF e] by blast
  moreover have "validate_sampling_reference (PDict d) = Inr d" by (rule reference_again [OF ref]) simp_all
  moreover have "dict_get d ''candidates'' = PList sample_candidates"
    using identity_entries [OF ref] ref by (simp add: reference_with_def)
  ultimately have "j < 2" by (simp add: sample_candidates_def)
  then have "dict_get e ''selected_index'' = PInt 0 \<or> dict_get e ''selected_index'' = PInt 1"
    using \<open>dict_get e ''selected_index'' = PInt (int j)\<close> by (cases j) auto
  with e show ?thesis by blast
qed

section \<open>The executor\<close>

text \<open>C21: without a limit in seconds, a pool of workers changes how a search is computed and not what it
  finds: with and without it, a run ends with the same error, or with the same nodes, replays, states,
  routes, updates and reason to stop, and with the same record for every candidate. With such a limit
  the two runs may differ, as a pool changes how far the clock has gone at each reading. In the instance
  the search stops after the first of two leaves, of which the pool has replayed both.\<close>

theorem pool_keeps_search:
  assumes "replays_by_key S" and "max_seconds (budget S) = ANone"
  shows "same_end (run_search n S) (run_search n (S\<lparr>pool := k\<rparr>))"
  using assms(1) by (rule run_pool)

theorem pool_keeps_search_witness:
  "\<exists>r r'. run_search 3 fork_setup = Some (Inr r) \<and> run_search 3 (fork_setup\<lparr>pool := Some 2\<rparr>) = Some (Inr r') \<and>
    same_search r r' \<and> r_nodes r = 2 \<and> r_prefetched r = [] \<and> r_prefetched r' \<noteq> []"
proof -
  have alone: "fork_setup\<lparr>pool := None\<rparr> = fork_setup" by (simp add: fork_setup_def sample_setup_def)
  obtain r where r: "run_search 3 fork_setup = Some (Inr r)" "r_nodes r = 2" "r_prefetched r = []"
    using fork_search [of None] by (auto simp: alone)
  obtain r' where r': "run_search 3 (fork_setup\<lparr>pool := Some 2\<rparr>) = Some (Inr r')" "r_prefetched r' \<noteq> []"
    using fork_search [of "Some 2"] by force
  have "max_seconds (budget fork_setup) = ANone" by (simp add: fork_setup_def)
  from pool_keeps_search [OF fork_by_key this, of 3 "Some 2"] have "same_search r r'" by (simp add: r(1) r'(1))
  with r r' show ?thesis by blast
qed

text \<open>C33: a coverage certificate of a depth-first run that says the frontier is exhausted is sound:
  when frontiers have exact states and a state decides how the duel goes on, the states of the
  replayed prefixes are all the states that legal actions can reach, although equal states are
  expanded only once.\<close>

theorem coverage_certificate_sound:
  assumes "run_search n S = Some (Inr r)" and "execution_mode (strategy S) = ''depth_first''"
    and "replays_by_key S" and "states_decide S"
    and "coverage_certificate (r_termination r) (execution_mode (strategy S)) evidence = Inr c"
    and "dict_get c ''frontier_exhausted'' = PBool True"
  shows "{fr_state_id f | p f. legal_prefix S p \<and> replays S p = Inr f} = fr_state_id ` snd ` set (r_cache r)"
proof -
  have "r_termination r = EXHAUSTED"
    using certificate_flag [OF assms(5)] assms(6) by (simp add: frontier_exhausted_def)
  note closed = exhausted_closed [OF assms(1-3) this]
  have cache: "map_of (r_cache r) k = Some f \<longleftrightarrow> (k, f) \<in> set (r_cache r)" for k f
    using accounting.run [OF assms(1)] by (simp add: accounted_def map_of_eq_Some_iff)
  show ?thesis
  proof (intro equalityI subsetI)
    fix s assume "s \<in> {fr_state_id f | p f. legal_prefix S p \<and> replays S p = Inr f}"
    then obtain p f where "s = fr_state_id f" "legal_prefix S p" "replays S p = Inr f" by blast
    then have "state_expanded (tried r) r s" using legal_state_expanded [OF closed assms(4)] by blast
    then obtain k g where "map_of (r_cache r) k = Some g" "fr_state_id g = s" by (auto simp: state_expanded_def)
    then show "s \<in> fr_state_id ` snd ` set (r_cache r)" by (force simp: cache)
  next
    fix s assume "s \<in> fr_state_id ` snd ` set (r_cache r)"
    then obtain k f where "map_of (r_cache r) k = Some f" "s = fr_state_id f" by (auto simp: cache)
    then show "s \<in> {fr_state_id f | p f. legal_prefix S p \<and> replays S p = Inr f}"
      using cached_legal [OF closed(1,2)] by blast
  qed
qed

lemma sample_certificate:
  "\<exists>c. coverage_certificate EXHAUSTED ''depth_first'' [(''candidates'', PList [])] = Inr c \<and>
    dict_get c ''frontier_exhausted'' = PBool True"
proof -
  let ?d = "canonical_entries
           [(''candidate_accounting_complete'', PBool True),
            (''candidate_counts'', PDict (candidate_counts [])),
            (''coverage_status'', PStr ''frontier_exhausted''),
            (''frontier_exhausted'', PBool True),
            (''pending_frontier_count'', PInt 0),
            (''schema_version'', PStr SEARCH_COVERAGE_SCHEMA_VERSION),
            (''termination_reason'', PStr ''exhausted''),
            (''unknown_candidate_count'', PInt 0)]"
  have cands: "mappings_of (items (dict_get [(''candidates'', PList [])] ''candidates'')) = []"
    by (simp add: dict_get_def)
  have exhausted: "frontier_exhausted EXHAUSTED ''depth_first'' []"
    by (simp add: frontier_exhausted_def COVERAGE_CAPABLE_MODES_def count_status_def)
  have "json_safe (PDict ?d)" by (simp add: canonical_entries_def candidate_counts_def)
  then obtain i where "stable_digest (PDict ?d) ''searchcoverage_'' = Inr i" using stable_digest_total by blast
  then have "\<exists>c. coverage_certificate EXHAUSTED ''depth_first'' [(''candidates'', PList [])] = Inr c"
    by (simp add: coverage_certificate_def Let_def cands exhausted count_status_def)
  then show ?thesis using certificate_flag cands exhausted by fastforce
qed

theorem coverage_certificate_sound_witness:
  "\<exists>r. run_search 2 sample_setup = Some (Inr r) \<and>
    {fr_state_id f | p f. legal_prefix sample_setup p \<and> replays sample_setup p = Inr f} = fr_state_id ` snd ` set (r_cache r)"
proof -
  have two: "Suc (Suc 0) = 2" by simp
  obtain r where r: "run_search 2 sample_setup = Some (Inr r)" "r_termination r = EXHAUSTED"
    using sample_search [of 0] unfolding two by blast
  obtain c where c: "coverage_certificate (r_termination r) (execution_mode (strategy sample_setup)) [(''candidates'', PList [])] = Inr c"
      "dict_get c ''frontier_exhausted'' = PBool True"
    using sample_certificate unfolding r sample_mode by blast
  show ?thesis
    using coverage_certificate_sound [OF r(1) sample_mode sample_by_key sample_decide c] r(1) by blast
qed

text \<open>C34: a run stays within the budget it was given: it never counts more nodes than \<open>max_nodes\<close>
  and never replays a prefix longer than \<open>max_depth\<close>.\<close>

theorem run_within_budget:
  assumes "budget_from_mapping v = Inr (budget S)" and "run_search n S = Some (Inr r)"
  shows "(case max_nodes (budget S) of None \<Rightarrow> True | Some k \<Rightarrow> r_nodes r \<le> k) \<and>
    (case max_depth (budget S) of None \<Rightarrow> True | Some d \<Rightarrow> r_max_depth r \<le> d)"
  using run_in_limits [OF valid_budget_ok [OF from_mapping_valid [OF assms(1)]] assms(2)] by (simp add: in_limits_def)

lemma sample_limits:
  "budget_from_mapping (AMap [(''max_depth'', AInt 9), (''max_nodes'', AInt 9)]) = Inr (budget sample_setup)"
  by (simp add: sample_setup_def budget_from_mapping_def budget_fields_def arg_get_def make_budget_def positive_integer_def
      number_field_def)

theorem run_within_budget_witness:
  "\<exists>r. run_search 2 sample_setup = Some (Inr r) \<and> r_nodes r \<le> 9 \<and> r_max_depth r \<le> 9"
proof -
  have two: "Suc (Suc 0) = 2" by simp
  obtain r where r: "run_search 2 sample_setup = Some (Inr r)" using sample_search [of 0] unfolding two by blast
  show ?thesis using run_within_budget [OF sample_limits r] r by (simp add: sample_setup_def)
qed

text \<open>C35: a search whose budget limits the nodes ends: as many rounds of its loop as the limit allows,
  and one more, are enough for depth-first and beam search, whatever the adapter and the clock do.\<close>

theorem run_returns_in_budget:
  assumes "budget_from_mapping v = Inr (budget S)" and "max_nodes (budget S) = Some k"
    and "execution_mode (strategy S) \<noteq> ''mcts''"
  shows "run_search (Suc (nat k)) S \<noteq> None"
  by (rule run_returns [OF valid_budget_ok [OF from_mapping_valid [OF assms(1)]] assms(2,3)])

theorem run_returns_in_budget_witness: "run_search (Suc (nat 9)) sample_setup \<noteq> None"
proof -
  have "max_nodes (budget sample_setup) = Some 9" by (simp add: sample_setup_def)
  from run_returns_in_budget [OF sample_limits this] sample_mode show ?thesis by simp
qed

text \<open>C36: the books of a run are kept: its nodes are the cached frontiers, the hits in the cache and the
  failed paths, no state and no prefix is noted twice, and every prefix that was a legal stop has one
  route, named by its actions.\<close>

theorem run_keeps_books:
  assumes "run_search n S = Some (Inr r)"
  shows "r_nodes r = int (length (r_cache r)) + r_cache_hits r + int (length (r_path_failures r)) \<and>
    distinct (r_seen r) \<and> distinct (map fst (r_cache r)) \<and>
    map rs_action_ids (r_routes r) = r_route_prefixes r \<and> distinct (r_route_prefixes r)"
  using accounting.run [OF assms] naming.run [OF assms] by (simp add: accounted_def routes_named_def)

theorem run_keeps_books_witness:
  "\<exists>r. run_search 2 sample_setup = Some (Inr r) \<and> r_nodes r = 2 \<and>
    r_nodes r = int (length (r_cache r)) + r_cache_hits r + int (length (r_path_failures r)) \<and>
    map rs_action_ids (r_routes r) = r_route_prefixes r"
proof -
  have two: "Suc (Suc 0) = 2" by simp
  obtain r where r: "run_search 2 sample_setup = Some (Inr r)" "r_nodes r = 2" using sample_search [of 0] unfolding two by blast
  show ?thesis using run_keeps_books [OF r(1)] r by blast
qed

text \<open>C37: a result has the routes of the run, ranked: none is beaten by a later one, where success counts
  first, then the higher peak score, the higher terminal score, the fewer actions and the lesser
  identifier; the best route is the first, so that no route of the run beats it.\<close>

theorem routes_ranked:
  assumes "search_result_of S r = Inr res"
  shows "mset (res_routes res) = mset (r_routes r) \<and> sorted_wrt (\<lambda>a b. \<not> beats b a) (res_routes res) \<and>
    (case res_best res of
       None \<Rightarrow> r_routes r = []
     | Some b \<Rightarrow> b = hd (res_routes res) \<and> b \<in> set (r_routes r) \<and> list_all (\<lambda>q. \<not> beats q b) (r_routes r))"
proof -
  note fields = search_result_fields(1,2) [OF assms]
  have "case res_best res of
       None \<Rightarrow> r_routes r = []
     | Some b \<Rightarrow> b = hd (res_routes res) \<and> b \<in> set (r_routes r) \<and> list_all (\<lambda>q. \<not> beats q b) (r_routes r)"
  proof (cases "sort_key route_rank_key (r_routes r)")
    case Nil
    then have "r_routes r = []" by (metis mset_sort mset_zero_iff)
    then show ?thesis by (simp add: fields)
  next
    case (Cons b rest)
    then show ?thesis using best_of_sorted [OF Cons] by (simp add: fields rank_key_beats [symmetric] not_less)
  qed
  then show ?thesis by (simp add: fields(1) sorted_unbeaten)
qed

definition sample_route :: "string \<Rightarrow> rat \<Rightarrow> route_summary" where
  "sample_route i s = \<lparr>rs_route_id = i, rs_success = True, rs_peak = \<lparr>amount = s, shown = PInt 0\<rparr>,
     rs_terminal = \<lparr>amount = s, shown = PInt 0\<rparr>, rs_action_ids = [i], rs_document = [], rs_boundary = None,
     rs_randomness = [], rs_preference = None\<rparr>"

lemma sample_updates: "\<exists>u. strategy_evidence (strategy sample_setup) (r_updates (new_runtime sample_setup)) = Inr u"
  using stable_digest_total by (auto simp: strategy_evidence_def sample_setup_def new_runtime_def sbind_eq_Inr Let_def)

lemma sample_result:
  "\<exists>res. search_result_of sample_setup ((new_runtime sample_setup)\<lparr>r_routes := [sample_route ''x'' 1, sample_route ''y'' 2]\<rparr>) = Inr res"
proof -
  let ?r = "(new_runtime sample_setup)\<lparr>r_routes := [sample_route ''x'' 1, sample_route ''y'' 2]\<rparr>"
  obtain e where e: "search_evidence ?r = Inr e" using no_candidates by (auto simp: search_evidence_def new_runtime_def)
  obtain c where c: "coverage_certificate (r_termination ?r) (execution_mode (strategy sample_setup)) e = Inr c"
    using certificate_total by blast
  obtain u where u: "strategy_evidence (strategy sample_setup) (r_updates ?r) = Inr u" using sample_updates by auto
  show ?thesis using e c u by (simp add: search_result_of_def Let_def)
qed

theorem routes_ranked_witness:
  "\<exists>res. search_result_of sample_setup ((new_runtime sample_setup)\<lparr>r_routes := [sample_route ''x'' 1, sample_route ''y'' 2]\<rparr>) =
      Inr res \<and> res_best res = Some (sample_route ''y'' 2)"
proof -
  obtain res where res: "search_result_of sample_setup
      ((new_runtime sample_setup)\<lparr>r_routes := [sample_route ''x'' 1, sample_route ''y'' 2]\<rparr>) = Inr res"
    using sample_result by blast
  have "beats (sample_route ''y'' 2) (sample_route ''x'' 1)" by (simp add: beats_def sample_route_def)
  then show ?thesis using routes_ranked [OF res] res by (auto split: option.split_asm)
qed

text \<open>C38: a legal stop whose document has no route identifier ends the search with an error, although the
  executor derives an identifier for such a document: the summary of the route's randomness, which
  is built from the same document, requires one.\<close>

theorem unnamed_route_rejected:
  assumes "outcome_of S p r = Inr f" and "fr_legal_stop f" and "fr_document f = Some d" and "p \<noteq> []"
    and "map_of d ''route_id'' = None" and "path_key p \<notin> set (r_route_prefixes r)"
    and "preference S d (fr_score f) = Inr e"
  shows "(\<exists>i. route_id_of S (path_key p) d (fr_state_id f) = Inr i) \<and>
    replay_prefix S p r = Inl (Search_Raised (ValueError ''route.route_id must be a non-empty string''))"
proof -
  obtain i where i: "route_id_of S (path_key p) d (fr_state_id f) = Inr i"
    using unnamed_route_id [OF assms(5)] by blast
  have "record_route S p f (count_frontier (path_key p) f hit (started_replay p r)) =
      Inl (ValueError ''route.route_id must be a non-empty string'')" for hit
    using assms(2-7) i by (simp add: record_route_def add_route_def unnamed_make_route count_frontier_def started_replay_def Let_def)
  then show ?thesis
    using i by (simp add: replay_prefix_eq assms(1) commit_replay_def commit_frontier_def)
qed

definition unnamed_setup :: search_setup where
  "unnamed_setup = sample_setup\<lparr>replays := \<lambda>p. Inr (sample_frontier\<lparr>fr_legal_stop := True, fr_document := Some []\<rparr>)\<rparr>"

theorem unnamed_route_rejected_witness:
  "replay_prefix unnamed_setup [sample_move] (new_runtime unnamed_setup) =
    Inl (Search_Raised (ValueError ''route.route_id must be a non-empty string''))"
proof -
  let ?f = "sample_frontier\<lparr>fr_legal_stop := True, fr_document := Some []\<rparr>"
  have "outcome_of unnamed_setup [sample_move] (new_runtime unnamed_setup) = Inr ?f" and "fr_legal_stop ?f" and "fr_document ?f = Some []"
    and "[sample_move] \<noteq> []" and "map_of [] ''route_id'' = None"
    and "path_key [sample_move] \<notin> set (r_route_prefixes (new_runtime unnamed_setup))"
    and "preference unnamed_setup [] (fr_score ?f) = Inr None"
    by (simp_all add: outcome_of_def unnamed_setup_def sample_setup_def new_runtime_def)
  from unnamed_route_rejected [OF this] show ?thesis by blast
qed

text \<open>C22: two recordings that agree on what the redaction contract lets a viewer see have the same
  player view replay. Decks, the hand and the extra deck of the opponent, face-down cards, instance
  keys and private facts of a card, the opponent's requests, responses and kinds of action, digests
  of complete states, the environment and the sampling reference do not influence it.\<close>

theorem player_view_noninterference:
  assumes "same_input d e" and "build_player_view_replay d = Inr a" and "build_player_view_replay e = Inr b"
  shows "a = b"
  using assms by (rule view_replay_same)

theorem player_view_noninterference_witness:
  "\<exists>a. build_player_view_replay (sample_recording ''alpha'' PASS) = Inr a \<and>
    build_player_view_replay (sample_recording ''beta'' ATTACK) = Inr a"
proof -
  obtain a b where ab: "build_player_view_replay (sample_recording ''alpha'' PASS) = Inr a"
    "build_player_view_replay (sample_recording ''beta'' ATTACK) = Inr b"
    using sample_build [OF sample_observable(1)] sample_build [OF sample_observable(2)] by blast
  from player_view_noninterference [OF sample_same ab] ab show ?thesis by simp
qed

text \<open>A built player view passes its own check: exactly the eight fields of the contract, the schema
  version, and the identifier that is the digest of the rest.\<close>

theorem player_view_self_check:
  assumes "build_player_view_replay d = Inr r"
  shows "assert_valid_player_view_replay r = Inr () \<and> fst ` set r = set VIEW_FIELDS"
proof
  show "assert_valid_player_view_replay r = Inr ()" using assms by (rule build_view_valid)
  then show "fst ` set r = set VIEW_FIELDS"
    by (auto simp: assert_valid_player_view_replay_def exact_fields_def sbind_eq_Inr check_fields_Inr)
qed

theorem player_view_self_check_witness:
  "\<exists>r. build_player_view_replay (sample_recording ''alpha'' PASS) = Inr r \<and> assert_valid_player_view_replay r = Inr ()"
proof -
  obtain r where "build_player_view_replay (sample_recording ''alpha'' PASS) = Inr r"
    using sample_build [OF sample_observable(1)] by blast
  with player_view_self_check show ?thesis by blast
qed

section \<open>Parallel plans\<close>

text \<open>C39: what a parallel search reports does not depend on the order in which anything arrives. The same
  candidates in another order give the same plan, if different ones have different identifiers, and the
  same results in another order give the same aggregate.\<close>

theorem parallel_order_independent:
  assumes "build_plan e n p cs = Inr l" and "mset cs = mset ds" and "inj_on pc_id (set cs)"
    and "aggregate A l rs = Inr d" and "mset rs = mset rs'"
  shows "build_plan e n p ds = Inr l \<and> aggregate A l rs' = Inr d"
  using assms(1) build_plan_order [OF assms(2,3)] aggregate_order [OF assms(5,4)] by simp

theorem parallel_order_independent_witness:
  "build_plan ''experiment'' ''run'' (sample_pool 2) [sample_work ''c2'', sample_work ''c1''] = Inr (sample_plan 2) \<and>
    (\<exists>d. aggregate sample_arithmetic (sample_plan 2) sample_results = Inr d \<and>
      aggregate sample_arithmetic (sample_plan 2) (rev sample_results) = Inr d)"
proof -
  obtain d where "aggregate sample_arithmetic (sample_plan 2) sample_results = Inr d" using sample_aggregate by blast
  moreover from parallel_order_independent [OF sample_built _ sample_ids this,
      of "[sample_work ''c2'', sample_work ''c1'']" "rev sample_results"] show ?thesis
    using calculation by (simp add: add_mset_commute)
qed

text \<open>C40: the size of the pool changes who does the work and not what it means. With another size the plan
  has the same tasks but for the slots and their seeds, and the same results are accepted and have the
  same semantic result under the same identifier.\<close>

theorem pool_size_keeps_meaning:
  assumes "build_plan e n p cs = Inr l" and "aggregate A l rs = Inr d" and "0 < k"
  shows "\<exists>m d'. build_plan e n (p\<lparr>pp_pool := k\<rparr>) cs = Inr m \<and> list_all2 same_task (pl_tasks l) (pl_tasks m) \<and>
    aggregate A m rs = Inr d' \<and> dict_get d' ''semantic'' = dict_get d ''semantic'' \<and>
    dict_get d' ''aggregate_id'' = dict_get d ''aggregate_id''"
proof -
  obtain m where "build_plan e n (p\<lparr>pp_pool := k\<rparr>) cs = Inr m" and "same_plan l m"
    using build_plan_pool [OF assms(1), of "p\<lparr>pp_pool := k\<rparr>"] by auto
  then show ?thesis using aggregate_pool [OF _ assms(2)] by (auto simp: same_plan_def)
qed

theorem pool_size_keeps_meaning_witness:
  "\<exists>m d d'. build_plan ''experiment'' ''run'' (sample_pool 3) [sample_work ''c1'', sample_work ''c2''] = Inr m \<and>
    aggregate sample_arithmetic (sample_plan 2) sample_results = Inr d \<and> aggregate sample_arithmetic m sample_results = Inr d' \<and>
    dict_get d' ''aggregate_id'' = dict_get d ''aggregate_id''"
proof -
  obtain d where d: "aggregate sample_arithmetic (sample_plan 2) sample_results = Inr d" using sample_aggregate by blast
  have three: "(0::int) < 3" by simp
  have "(sample_pool 2)\<lparr>pp_pool := 3\<rparr> = sample_pool 3" by (simp add: sample_pool_def)
  with pool_size_keeps_meaning [OF sample_built d three] d show ?thesis by auto
qed

end
